(* ===== verification/Prelude.thy ===== *)
theory Prelude
  imports Complex_Main "HOL-Library.Word"
begin

text \<open>
  What the component theories share: names for the machine integer types of the C code,
  the collections their proofs draw on, and generic lemmas on bits, lists and bounded
  modular arithmetic. Nothing here models code of its own.

  Conventions. A C expression \<open>(x & m)\<close> used as a truth value is written
  \<open>x AND m \<noteq> 0\<close>; \<open>!!x\<close> is \<open>x \<noteq> 0\<close> when the target field is only ever 0 or 1 (such
  fields are \<open>bool\<close>); \<open>1 << n\<close> is \<open>push_bit n 1\<close> at the width of the variable it
  is stored in. A pointer is a natural number, the address of an object in the store of its
  component, with \<open>NULL\<close> as \<open>0\<close>.
\<close>

unbundle bit_operations_syntax

type_synonym u8 = "8 word"
type_synonym u16 = "16 word"
type_synonym u32 = "32 word"
type_synonym u64 = "64 word"
type_synonym i32 = "32 word"

type_synonym ptr = nat

abbreviation NULL :: ptr where "NULL \<equiv> 0"

named_theorems mask_bits \<open>tests against a one-bit mask, as a fact about that bit\<close>
named_theorems wf_intros \<open>operations keep the well-formedness predicate of their component\<close>

section \<open>Single bits\<close>

lemma and_mask_bit [mask_bits]:
  "((w::'a::len word) AND 2 ^ n = 0) \<longleftrightarrow> \<not> bit w n"
  by (rule and_exp_eq_0_iff_not_bit)

lemma and_mask_bits [mask_bits]:
  fixes w :: "'a::len word"
  shows "(w AND 1 = 0) \<longleftrightarrow> \<not> bit w 0"
    and "(w AND 2 = 0) \<longleftrightarrow> \<not> bit w 1"
    and "(w AND 4 = 0) \<longleftrightarrow> \<not> bit w 2"
    and "(w AND 8 = 0) \<longleftrightarrow> \<not> bit w 3"
    and "(w AND 16 = 0) \<longleftrightarrow> \<not> bit w 4"
    and "(w AND 32 = 0) \<longleftrightarrow> \<not> bit w 5"
    and "(w AND 64 = 0) \<longleftrightarrow> \<not> bit w 6"
    and "(w AND 128 = 0) \<longleftrightarrow> \<not> bit w 7"
  using and_mask_bit [of w 0] and_mask_bit [of w 1] and_mask_bit [of w 2] and_mask_bit [of w 3]
    and_mask_bit [of w 4] and_mask_bit [of w 5] and_mask_bit [of w 6] and_mask_bit [of w 7]
  by simp_all

lemma and_push_bit_eq_0 [mask_bits]:
  "((w::'a::len word) AND push_bit n 1 = 0) \<longleftrightarrow> \<not> bit w n"
  by (simp add: push_bit_eq_mult and_exp_eq_0_iff_not_bit)

lemma bit_push_bit_one [simp]:
  "bit (push_bit n (1::'a::len word)) m \<longleftrightarrow> m = n \<and> n < LENGTH('a)"
  by (auto simp: bit_simps)

lemma push_bit_one_eq_0 [simp]:
  "(push_bit n (1::'a::len word) = 0) \<longleftrightarrow> LENGTH('a) \<le> n"
  by (metis bit_0_eq bit_push_bit_one bot_apply bot_bool_def linorder_not_less
      push_bit_eq_mult exp_eq_zero_iff mult_1)

lemma word_eq_by_bits:
  "(\<And>n. n < LENGTH('a) \<Longrightarrow> bit v n = bit w n) \<Longrightarrow> v = (w::'a::len word)"
  by (rule bit_word_eqI)

lemma take_bit_word_add:
  "take_bit p (take_bit p (x::'a::len word) + take_bit p y) = take_bit p (x + y)"
  by transfer (simp add: take_bit_add)

section \<open>Lists and modular indices\<close>

lemma map_nth_upt: "map (\<lambda>i. xs ! i) [0..<length xs] = xs"
  by (rule map_nth)

lemma mod_add_cases:
  "(a::nat) < n \<Longrightarrow> b \<le> n \<Longrightarrow> (a + b) mod n = (if a + b < n then a + b else a + b - n)"
  by (auto simp: mod_if)

lemma mod_add_inj:
  fixes n :: nat
  assumes "i < n" "j < n" "(h + i) mod n = (h + j) mod n"
  shows "i = j"
proof (rule ccontr)
  assume "i \<noteq> j"
  have "n dvd (h + max i j) - (h + min i j)"
    using assms(3) mod_eq_dvd_iff_nat [of "h + min i j" "h + max i j" n]
    by (cases "i \<le> j") (auto simp: max_def min_def)
  then have "n dvd max i j - min i j" by simp
  then show False
    using \<open>i \<noteq> j\<close> assms(1,2) by (auto dest!: dvd_imp_le simp: max_def min_def split: if_splits)
qed

section \<open>Results that may fail\<close>

text \<open>
  A C routine that can stop at an \<open>assert\<close>, call \<open>fatal()\<close> or access memory it does not
  own returns \<open>Inl\<close> of an error of its component, and \<open>Inr\<close> of its result otherwise.
  \<open>bindE\<close> runs the rest of the routine only on the second.
\<close>

definition bindE :: "'e + 'a \<Rightarrow> ('a \<Rightarrow> 'e + 'b) \<Rightarrow> 'e + 'b" where
  "bindE m k = (case m of Inl e \<Rightarrow> Inl e | Inr x \<Rightarrow> k x)"

lemma bindE_simps [simp]:
  "bindE (Inl e) k = Inl e"
  "bindE (Inr x) k = k x"
  by (simp_all add: bindE_def)

lemma bindE_Inr_iff: "bindE m k = Inr y \<longleftrightarrow> (\<exists>x. m = Inr x \<and> k x = Inr y)"
  by (cases m) auto

section \<open>Memory blocks\<close>

text \<open>
  \<open>memcpy\<close> into and out of a block of bytes, defined only inside the block. \<open>poke\<close> and
  \<open>peek\<close> return \<open>None\<close> for an access outside it.
\<close>

definition poke :: "nat \<Rightarrow> 'a list \<Rightarrow> 'a list \<Rightarrow> 'a list option" where
  "poke i ys d = (if i + length ys \<le> length d
                  then Some (take i d @ ys @ drop (i + length ys) d) else None)"

definition peek :: "nat \<Rightarrow> nat \<Rightarrow> 'a list \<Rightarrow> 'a list option" where
  "peek i n d = (if i + n \<le> length d then Some (take n (drop i d)) else None)"

lemma length_poke: "poke i ys d = Some d' \<Longrightarrow> length d' = length d"
  by (auto simp: poke_def split: if_splits)

lemma poke_Nil [simp]: "i \<le> length d \<Longrightarrow> poke i [] d = Some d"
  by (simp add: poke_def)

lemma poke_Cons:
  "i + length ys < length d \<Longrightarrow> poke i (y # ys) d = poke (Suc i) ys (d[i := y])"
  by (simp add: poke_def take_Suc_conv_app_nth)

section \<open>Ring buffers\<close>

text \<open>The \<open>n\<close> elements of a ring \<open>d\<close> that start at index \<open>h\<close>, oldest first.\<close>

definition ring :: "'a list \<Rightarrow> nat \<Rightarrow> nat \<Rightarrow> 'a list" where
  "ring d h n = map (\<lambda>i. d ! ((h + i) mod length d)) [0..<n]"

lemma length_ring [simp]: "length (ring d h n) = n"
  by (simp add: ring_def)

lemma ring_0 [simp]: "ring d h 0 = []"
  by (simp add: ring_def)

lemma ring_push:
  assumes "n < length d"
  shows "ring (d[(h + n) mod length d := x]) h (Suc n) = ring d h n @ [x]"
proof -
  have "(h + n) mod length d \<noteq> (h + i) mod length d" if "i < n" for i
    using mod_add_inj [of n "length d" i h] that assms by auto
  moreover have "(h + n) mod length d < length d"
    using assms by (intro mod_less_divisor) linarith
  ultimately show ?thesis by (auto simp: ring_def)
qed

lemma ring_drop: "k \<le> n \<Longrightarrow> drop k (ring d h n) = ring d ((h + k) mod length d) (n - k)"
  by (auto simp: ring_def list_eq_iff_nth_eq mod_add_left_eq add.assoc)

lemma ring_pop:
  "0 < n \<Longrightarrow> h < length d \<Longrightarrow> ring d h n = d ! h # ring d (Suc h mod length d) (n - 1)"
  using ring_drop [of 1 n d h] by (cases "ring d h n") (auto simp: ring_def upt_conv_Cons)

lemma ring_take:
  "k \<le> n \<Longrightarrow> h + k \<le> length d \<Longrightarrow> take k (ring d h n) = take k (drop h d)"
  by (auto simp: ring_def list_eq_iff_nth_eq)

lemma ring_poke:
  assumes "poke ((h + n) mod length d) ys d = Some d'" "n + length ys \<le> length d"
  shows "ring d' h (n + length ys) = ring d h n @ ys"
  using assms
proof (induction ys arbitrary: d n)
  case Nil
  then show ?case by (auto simp: poke_def split: if_splits)
next
  case (Cons y ys)
  let ?s = "(h + n) mod length d" and ?d = "d[(h + n) mod length d := y]"
  have le: "?s + length ys < length d"
    using Cons.prems(1) by (auto simp: poke_def split: if_splits)
  have pk: "poke (Suc ?s) ys ?d = Some d'"
    using Cons.prems(1) poke_Cons [OF le] by simp
  have push: "ring ?d h (Suc n) = ring d h n @ [y]"
    using ring_push [of n d h y] Cons.prems(2) by simp
  show ?case
  proof (cases "Suc ?s < length d")
    case True
    then have "(h + Suc n) mod length ?d = Suc ?s"
      by (simp add: mod_Suc)
    then have "ring d' h (Suc n + length ys) = ring ?d h (Suc n) @ ys"
      using Cons.IH [of "Suc n" ?d] pk Cons.prems(2) by simp
    then show ?thesis using push by simp
  next
    case False
    then have "ys = []" using le by (cases ys) auto
    moreover from this have "d' = ?d" using pk le by simp
    ultimately show ?thesis using push by simp
  qed
qed

section \<open>Machines that cannot fail\<close>

text \<open>
  The states a component reaches from \<open>init\<close> by operations its clients may call (\<open>ok\<close>). The
  interface below is the contract of a component with an invariant: every allowed operation
  of a state with the invariant returns a state with the invariant.
\<close>

inductive reachable ::
  "('s \<Rightarrow> bool) \<Rightarrow> ('op \<Rightarrow> 's \<Rightarrow> bool) \<Rightarrow> ('op \<Rightarrow> 's \<Rightarrow> 's option) \<Rightarrow> 's \<Rightarrow> bool"
  for init ok step where
  reachable_init: "init s \<Longrightarrow> reachable init ok step s"
| reachable_step: "reachable init ok step s \<Longrightarrow> ok op s \<Longrightarrow> step op s = Some s' \<Longrightarrow>
     reachable init ok step s'"

locale safe_machine =
  fixes init :: "'s \<Rightarrow> bool" and ok :: "'op \<Rightarrow> 's \<Rightarrow> bool" and step :: "'op \<Rightarrow> 's \<Rightarrow> 's option"
    and inv :: "'s \<Rightarrow> bool"
  assumes init_inv: "init s \<Longrightarrow> inv s"
    and step_inv: "inv s \<Longrightarrow> ok op s \<Longrightarrow> \<exists>s'. step op s = Some s' \<and> inv s'"
begin

lemma reachable_inv: "reachable init ok step s \<Longrightarrow> inv s"
proof (induction rule: reachable.induct)
  case (reachable_step s op s')
  then show ?case using step_inv [of s op] by auto
qed (rule init_inv)

lemma never_stuck:
  assumes "reachable init ok step s" "ok op s"
  obtains s' where "step op s = Some s'" "inv s'" "reachable init ok step s'"
  using step_inv [OF reachable_inv [OF assms(1)] assms(2)] reachable_step [OF assms] by blast

end

text \<open>The state of a run that returned without an error.\<close>

definition outcome :: "('e + 's) option \<Rightarrow> 's option" where
  "outcome r = (case r of Some (Inr s) \<Rightarrow> Some s | _ \<Rightarrow> None)"

lemma outcome_Some [simp]: "outcome r = Some s \<longleftrightarrow> r = Some (Inr s)"
  by (auto simp: outcome_def split: option.splits sum.splits)

end
