(* ===== verification/Timer.thy ===== *)
theory Timer
  imports Prelude
begin

text \<open>
  The timer queue of \<open>src/src/timer.c\<close> and the inline routines of
  \<open>src/src/include/86box/timer.h\<close>. Timers live in a store indexed by address; enabled timers
  are chained in a doubly linked list through \<open>t_prev\<close> and \<open>t_next\<close>, earliest first, with
  \<open>timer_head\<close> its first element. Timestamps are 32:32 fixed point in a 64-bit word that
  wraps, and are compared by the sign of their difference, as the macros do.

  The pointer surgery is modelled update by update. \<open>fatal()\<close> and the dereference of a NULL
  head are error values; a loop over the list is a \<open>partial_function\<close>, whose value is
  \<open>None\<close> when it does not end. The two flag bits \<open>TIMER_ENABLED\<close> and \<open>TIMER_SPLIT\<close> are
  Booleans. A \<open>double\<close> is a real number: rounding of the microsecond periods is not modelled.
  The record is extensible: \<open>more\<close> is the state of the devices that own the timers. A callback
  is a parameter of \<open>timer_process\<close>, applied to the callback's identity, its \<open>priv\<close>
  argument and the whole state. The dynamic recompiler's \<open>update_tsc\<close> and \<open>rivatimer_init\<close>, which
  keep state elsewhere, are left out.
\<close>

section \<open>The code\<close>

record pc_timer =
  ts :: u64
  t_enabled :: bool
  t_split :: bool
  in_callback :: bool
  period :: real
  callback :: ptr
  priv :: nat
  t_prev :: ptr
  t_next :: ptr

record tsys =
  timers :: "ptr \<Rightarrow> pc_timer"
  timer_head :: ptr
  timer_inited :: bool
  timer_target :: u32
  tsc :: u64
  TIMER_USEC :: u64

datatype timer_error = FatalNonIsolated | FatalIsolated | NullHead

definition ts_integer :: "u64 \<Rightarrow> u32" where
  "ts_integer t = ucast (drop_bit 32 t)"

definition ts_set_integer :: "u32 \<Rightarrow> u64 \<Rightarrow> u64" where
  "ts_set_integer i t = push_bit 32 (ucast i) OR (t AND 0xFFFFFFFF)"

definition TIMER_LESS_THAN :: "pc_timer \<Rightarrow> pc_timer \<Rightarrow> bool" where
  "TIMER_LESS_THAN a b \<longleftrightarrow> sint (ts a - ts b) \<le> 0"

definition TIMER_LESS_THAN_VAL :: "pc_timer \<Rightarrow> u32 \<Rightarrow> bool" where
  "TIMER_LESS_THAN_VAL a b \<longleftrightarrow> sint (ts_integer (ts a) - b) \<le> 0"

abbreviation upd :: "ptr \<Rightarrow> (pc_timer \<Rightarrow> pc_timer) \<Rightarrow> (ptr \<Rightarrow> pc_timer) \<Rightarrow> ptr \<Rightarrow> pc_timer" where
  "upd p f h \<equiv> h(p := f (h p))"

abbreviation modify :: "ptr \<Rightarrow> (pc_timer \<Rightarrow> pc_timer) \<Rightarrow> 'w tsys_scheme \<Rightarrow> 'w tsys_scheme" where
  "modify p f s \<equiv> s\<lparr>timers := upd p f (timers s)\<rparr>"

definition timer_disable :: "ptr \<Rightarrow> 'w tsys_scheme \<Rightarrow> timer_error + 'w tsys_scheme" where
  "timer_disable t s =
     (if \<not> timer_inited s \<or> t = NULL \<or> \<not> t_enabled (timers s t) then Inr s
      else if t_next (timers s t) = NULL \<and> t_prev (timers s t) = NULL \<and> t \<noteq> timer_head s
      then Inl FatalIsolated
      else
        let h = upd t (\<lambda>x. x\<lparr>t_enabled := False, in_callback := False\<rparr>) (timers s);
            n = t_next (h t);
            p = t_prev (h t);
            h1 = (if p \<noteq> NULL then upd p (\<lambda>x. x\<lparr>t_next := n\<rparr>) h else h);
            hd = (if p \<noteq> NULL then timer_head s else n);
            h2 = (if n \<noteq> NULL then upd n (\<lambda>x. x\<lparr>t_prev := t_prev (h1 t)\<rparr>) h1 else h1);
            h3 = upd t (\<lambda>x. x\<lparr>t_prev := NULL, t_next := NULL\<rparr>) h2
        in Inr (s\<lparr>timers := h3, timer_head := hd\<rparr>))"

text \<open>The \<open>while (1)\<close> loop of \<open>timer_enable\<close>, from the node after \<open>prev\<close>.\<close>

partial_function (option) enable_scan ::
  "(ptr \<Rightarrow> pc_timer) \<Rightarrow> ptr \<Rightarrow> ptr \<Rightarrow> ptr \<Rightarrow> (ptr \<Rightarrow> pc_timer) option" where
  "enable_scan h t prev node =
     (if TIMER_LESS_THAN (h t) (h node) then
        Some (upd prev (\<lambda>x. x\<lparr>t_next := t\<rparr>)
               (upd node (\<lambda>x. x\<lparr>t_prev := t\<rparr>)
                 (upd t (\<lambda>x. x\<lparr>t_next := node, t_prev := prev\<rparr>) h)))
      else if t_next (h node) = NULL then
        Some (upd t (\<lambda>x. x\<lparr>t_prev := node\<rparr>) (upd node (\<lambda>x. x\<lparr>t_next := t\<rparr>) h))
      else enable_scan h t node (t_next (h node)))"

definition timer_enable :: "ptr \<Rightarrow> 'w tsys_scheme \<Rightarrow> (timer_error + 'w tsys_scheme) option" where
  "timer_enable t s =
     (if \<not> timer_inited s \<or> t = NULL then Some (Inr s)
      else case (if t_enabled (timers s t) then timer_disable t s else Inr s) of
        Inl e \<Rightarrow> Some (Inl e)
      | Inr s1 \<Rightarrow>
          let h = timers s1; hd = timer_head s1 in
          if t_next (h t) \<noteq> NULL \<or> t_prev (h t) \<noteq> NULL then Some (Inl FatalNonIsolated)
          else if hd = NULL then
            let h1 = upd t (\<lambda>x. x\<lparr>t_next := NULL, t_prev := NULL\<rparr>) h in
            Some (Inr (modify t (\<lambda>x. x\<lparr>t_enabled := True\<rparr>)
              (s1\<lparr>timers := h1, timer_head := t, timer_target := ts_integer (ts (h1 t))\<rparr>)))
          else if TIMER_LESS_THAN (h t) (h hd) then
            let h1 = upd hd (\<lambda>x. x\<lparr>t_prev := t\<rparr>) (upd t (\<lambda>x. x\<lparr>t_next := hd, t_prev := NULL\<rparr>) h) in
            Some (Inr (modify t (\<lambda>x. x\<lparr>t_enabled := True\<rparr>)
              (s1\<lparr>timers := h1, timer_head := t, timer_target := ts_integer (ts (h1 t))\<rparr>)))
          else if t_next (h hd) = NULL then
            let h1 = upd t (\<lambda>x. x\<lparr>t_prev := hd\<rparr>) (upd hd (\<lambda>x. x\<lparr>t_next := t\<rparr>) h) in
            Some (Inr (modify t (\<lambda>x. x\<lparr>t_enabled := True\<rparr>) (s1\<lparr>timers := h1\<rparr>)))
          else
            map_option (\<lambda>h1. Inr (modify t (\<lambda>x. x\<lparr>t_enabled := True\<rparr>) (s1\<lparr>timers := h1\<rparr>)))
              (enable_scan h t hd (t_next (h hd))))"

definition timer_advance_u64 :: "ptr \<Rightarrow> u64 \<Rightarrow> 'w tsys_scheme \<Rightarrow> (timer_error + 'w tsys_scheme) option" where
  "timer_advance_u64 t delay s = timer_enable t (modify t (\<lambda>x. x\<lparr>ts := ts x + delay\<rparr>) s)"

definition timer_set_delay_u64 :: "ptr \<Rightarrow> u64 \<Rightarrow> 'w tsys_scheme \<Rightarrow> (timer_error + 'w tsys_scheme) option" where
  "timer_set_delay_u64 t delay s =
     timer_enable t (modify t (\<lambda>x. x\<lparr>ts := ts_set_integer (ucast (tsc s)) 0 + delay\<rparr>) s)"

definition timer_is_enabled :: "ptr \<Rightarrow> 'w tsys_scheme \<Rightarrow> bool" where
  "timer_is_enabled t s \<longleftrightarrow> t_enabled (timers s t)"

definition timer_is_on :: "ptr \<Rightarrow> 'w tsys_scheme \<Rightarrow> bool" where
  "timer_is_on t s \<longleftrightarrow> t_split (timers s t) \<and> t_enabled (timers s t)"

definition timer_get_ts_int :: "ptr \<Rightarrow> 'w tsys_scheme \<Rightarrow> u32" where
  "timer_get_ts_int t s = ts_integer (ts (timers s t))"

definition timer_get_remaining_u64 :: "ptr \<Rightarrow> 'w tsys_scheme \<Rightarrow> u64" where
  "timer_get_remaining_u64 t s =
     (if t_enabled (timers s t) then
        let remaining = ts (timers s t) - push_bit 32 (tsc s) in
        if sint remaining < 0 then 0 else remaining
      else 0)"

definition timer_get_remaining_us :: "ptr \<Rightarrow> 'w tsys_scheme \<Rightarrow> u32" where
  "timer_get_remaining_us t s =
     (if t_enabled (timers s t) then
        let remaining = ts (timers s t) - push_bit 32 (tsc s) in
        if sint remaining < 0 then 0 else ucast (remaining div TIMER_USEC s)
      else 0)"

text \<open>The API for periods longer than the 31-bit range of the timestamps.\<close>

definition MAX_USEC64 :: u64 where "MAX_USEC64 = 1000000"

definition MAX_USEC :: real where "MAX_USEC = 1000000"

definition timer_stop :: "ptr \<Rightarrow> 'w tsys_scheme \<Rightarrow> timer_error + 'w tsys_scheme" where
  "timer_stop t s =
     (if \<not> timer_inited s \<or> t = NULL then Inr s
      else bindE (timer_disable t (modify t (\<lambda>x. x\<lparr>period := 0\<rparr>) s))
             (\<lambda>s1. Inr (modify t (\<lambda>x. x\<lparr>t_split := False, in_callback := False\<rparr>) s1)))"

definition timer_do_period :: "ptr \<Rightarrow> u64 \<Rightarrow> bool \<Rightarrow> 'w tsys_scheme \<Rightarrow> (timer_error + 'w tsys_scheme) option" where
  "timer_do_period t p start s =
     (if \<not> timer_inited s \<or> t = NULL then Some (Inr s)
      else if start then timer_set_delay_u64 t p s
      else timer_advance_u64 t p s)"

definition usec_ticks :: "real \<Rightarrow> u64 \<Rightarrow> u64" where
  "usec_ticks p usec = word_of_int \<lfloor>p * real (unat usec)\<rfloor>"

definition timer_advance_ex :: "ptr \<Rightarrow> bool \<Rightarrow> 'w tsys_scheme \<Rightarrow> (timer_error + 'w tsys_scheme) option" where
  "timer_advance_ex t start s =
     (if \<not> timer_inited s \<or> t = NULL then Some (Inr s)
      else
        let p = period (timers s t) in
        if p > MAX_USEC then
          map_option (\<lambda>r. bindE r (\<lambda>s1. Inr (modify t
              (\<lambda>x. x\<lparr>period := period x - MAX_USEC, t_split := True\<rparr>) s1)))
            (timer_do_period t (MAX_USEC64 * TIMER_USEC s) start s)
        else
          map_option (\<lambda>r. bindE r (\<lambda>s1. Inr (modify t
              (\<lambda>x. x\<lparr>period := 0, t_split := False\<rparr>) s1)))
            (if p > 0 then timer_do_period t (usec_ticks p (TIMER_USEC s)) start s
             else Some (timer_disable t s)))"

definition timer_on :: "ptr \<Rightarrow> real \<Rightarrow> bool \<Rightarrow> 'w tsys_scheme \<Rightarrow> (timer_error + 'w tsys_scheme) option" where
  "timer_on t p start s =
     (if \<not> timer_inited s \<or> t = NULL then Some (Inr s)
      else timer_advance_ex t start (modify t (\<lambda>x. x\<lparr>period := p\<rparr>) s))"

definition timer_on_auto :: "ptr \<Rightarrow> real \<Rightarrow> 'w tsys_scheme \<Rightarrow> (timer_error + 'w tsys_scheme) option" where
  "timer_on_auto t p s =
     (if \<not> timer_inited s \<or> t = NULL then Some (Inr s)
      else if p > 0 then
        timer_on t p (period (timers s t) \<le> 0 \<and> \<not> in_callback (timers s t)) s
      else Some (timer_stop t s))"

definition timer_add ::
  "ptr \<Rightarrow> ptr \<Rightarrow> nat \<Rightarrow> bool \<Rightarrow> 'w tsys_scheme \<Rightarrow> (timer_error + 'w tsys_scheme) option" where
  "timer_add t cb pr start_timer s =
     (let s1 = modify t (\<lambda>_. \<lparr>ts = 0, t_enabled = False, t_split = False, in_callback = False,
                 period = 0, callback = cb, priv = pr, t_prev = NULL, t_next = NULL\<rparr>) s
      in if start_timer then timer_set_delay_u64 t 0 s1 else Some (Inr s1))"

definition timer_init :: "'w tsys_scheme \<Rightarrow> 'w tsys_scheme" where
  "timer_init s = s\<lparr>timer_target := 0, tsc := 0, timer_inited := True\<rparr>"

partial_function (option) close_loop :: "(ptr \<Rightarrow> pc_timer) \<Rightarrow> ptr \<Rightarrow> (ptr \<Rightarrow> pc_timer) option" where
  "close_loop h t =
     (if t = NULL then Some h
      else
        let h1 = upd t (\<lambda>x. x\<lparr>t_prev := NULL, t_next := NULL\<rparr>) h
        in close_loop h1 (t_next (h1 t)))"

definition timer_close :: "'w tsys_scheme \<Rightarrow> 'w tsys_scheme option" where
  "timer_close s =
     map_option (\<lambda>h. s\<lparr>timers := h, timer_head := NULL, timer_inited := False\<rparr>)
       (close_loop (timers s) (timer_head s))"

text \<open>
  \<open>timer_process\<close>. The head is taken off the list and either continues a split period or
  has its callback run; \<open>run cb pr\<close> is the effect of calling the routine \<open>cb\<close> with the
  argument \<open>pr\<close>. The loop tests the head without checking it for NULL.
\<close>

type_synonym 'w callback_effect = "ptr \<Rightarrow> nat \<Rightarrow> 'w tsys_scheme \<Rightarrow> (timer_error + 'w tsys_scheme) option"

definition pop_head :: "'w tsys_scheme \<Rightarrow> 'w tsys_scheme" where
  "pop_head s =
     (let t = timer_head s; h = timers s; n = t_next (h t);
          h1 = (if n \<noteq> NULL then upd n (\<lambda>x. x\<lparr>t_prev := NULL\<rparr>) h else h);
          h2 = upd t (\<lambda>x. x\<lparr>t_next := NULL, t_prev := NULL, t_enabled := False\<rparr>) h1
      in s\<lparr>timers := h2, timer_head := n\<rparr>)"

definition fire :: "'w callback_effect \<Rightarrow> ptr \<Rightarrow> 'w tsys_scheme \<Rightarrow> (timer_error + 'w tsys_scheme) option" where
  "fire run t s =
     (if t_split (timers s t) then timer_advance_ex t False s
      else if callback (timers s t) \<noteq> NULL then
        map_option (\<lambda>r. bindE r (\<lambda>s1. Inr (modify t (\<lambda>x. x\<lparr>in_callback := False\<rparr>) s1)))
          (run (callback (timers s t)) (priv (timers s t))
            (modify t (\<lambda>x. x\<lparr>in_callback := True\<rparr>) s))
      else Some (Inr s))"

partial_function (option) process_loop ::
  "'w callback_effect \<Rightarrow> 'w tsys_scheme \<Rightarrow> (timer_error + 'w tsys_scheme) option" where
  "process_loop run s =
     (if timer_head s = NULL then Some (Inl NullHead)
      else if \<not> TIMER_LESS_THAN_VAL (timers s (timer_head s)) (ucast (tsc s)) then Some (Inr s)
      else Option.bind (fire run (timer_head s) (pop_head s))
             (\<lambda>r. case r of Inl e \<Rightarrow> Some (Inl e) | Inr s1 \<Rightarrow> process_loop run s1))"

definition timer_process :: "'w callback_effect \<Rightarrow> 'w tsys_scheme \<Rightarrow> (timer_error + 'w tsys_scheme) option" where
  "timer_process run s =
     (if timer_head s = NULL then Some (Inr s)
      else map_option (\<lambda>r. bindE r (\<lambda>s1.
             Inr (s1\<lparr>timer_target := ts_integer (ts (timers s1 (timer_head s1)))\<rparr>)))
             (process_loop run s))"

definition rebase :: "u64 \<Rightarrow> u64 \<Rightarrow> pc_timer \<Rightarrow> pc_timer" where
  "rebase new_tsc old_tsc x =
     (let offset = (scast (ts_integer (ts x) - ucast old_tsc) :: u64)
      in x\<lparr>ts := ts_set_integer (ucast (new_tsc + offset)) (ts x)\<rparr>)"

partial_function (option) set_tsc_loop ::
  "u64 \<Rightarrow> u64 \<Rightarrow> (ptr \<Rightarrow> pc_timer) \<Rightarrow> ptr \<Rightarrow> (ptr \<Rightarrow> pc_timer) option" where
  "set_tsc_loop new_tsc old_tsc h t =
     (if t = NULL then Some h
      else
        let h1 = upd t (rebase new_tsc old_tsc) h
        in set_tsc_loop new_tsc old_tsc h1 (t_next (h1 t)))"

definition timer_set_new_tsc :: "u64 \<Rightarrow> 'w tsys_scheme \<Rightarrow> 'w tsys_scheme option" where
  "timer_set_new_tsc new_tsc s =
     (if timer_head s = NULL then Some (s\<lparr>tsc := new_tsc\<rparr>)
      else
        let target = ucast (new_tsc +
              scast (timer_get_ts_int (timer_head s) s - ucast (tsc s)))
        in map_option (\<lambda>h. s\<lparr>timer_target := target, timers := h, tsc := new_tsc\<rparr>)
             (set_tsc_loop new_tsc (tsc s) (timers s) (timer_head s)))"

section \<open>The list of enabled timers\<close>

fun dseg :: "(ptr \<Rightarrow> pc_timer) \<Rightarrow> ptr \<Rightarrow> ptr list \<Rightarrow> ptr \<Rightarrow> bool" where
  "dseg h p [] n \<longleftrightarrow> True"
| "dseg h p (x # xs) n \<longleftrightarrow>
     t_prev (h x) = p \<and> t_next (h x) = (case xs of [] \<Rightarrow> n | y # _ \<Rightarrow> y) \<and> dseg h x xs n"

lemma dseg_append:
  "dseg h p (xs @ ys) n \<longleftrightarrow>
     dseg h p xs (case ys of [] \<Rightarrow> n | y # _ \<Rightarrow> y) \<and> dseg h (if xs = [] then p else last xs) ys n"
  by (induction xs arbitrary: p) (auto split: list.splits)

lemma dseg_cong:
  "(\<And>x. x \<in> set xs \<Longrightarrow> t_prev (h x) = t_prev (h' x) \<and> t_next (h x) = t_next (h' x)) \<Longrightarrow>
     dseg h p xs n = dseg h' p xs n"
  by (induction xs arbitrary: p) auto

lemma dseg_upd_other [simp]: "t \<notin> set xs \<Longrightarrow> dseg (h(t := v)) p xs n = dseg h p xs n"
  by (rule dseg_cong) auto

definition first_of :: "ptr list \<Rightarrow> ptr" where
  "first_of xs = (case xs of [] \<Rightarrow> NULL | x # _ \<Rightarrow> x)"

lemma first_of_simps [simp]: "first_of [] = NULL" "first_of (x # xs) = x"
  by (simp_all add: first_of_def)

text \<open>The queue \<open>xs\<close> is what the store chains from the head, and it is all the enabled timers.\<close>

definition tq :: "'w tsys_scheme \<Rightarrow> ptr list \<Rightarrow> bool" where
  "tq s xs \<longleftrightarrow> distinct xs \<and> NULL \<notin> set xs \<and> timer_head s = first_of xs \<and>
     dseg (timers s) NULL xs NULL \<and> (\<forall>x. t_enabled (timers s x) \<longleftrightarrow> x \<in> set xs) \<and>
     (\<forall>x. x \<notin> set xs \<longrightarrow> t_prev (timers s x) = NULL \<and> t_next (timers s x) = NULL)"

text \<open>Two stores that differ in the links only.\<close>

definition body :: "pc_timer \<Rightarrow> pc_timer" where
  "body x = x\<lparr>t_prev := NULL, t_next := NULL\<rparr>"

lemma body_links [simp]:
  "body (x\<lparr>t_prev := p\<rparr>) = body x" "body (x\<lparr>t_next := n\<rparr>) = body x"
  by (simp_all add: body_def)

lemma body_eqD:
  assumes "body x = body y"
  shows "ts x = ts y" "t_enabled x = t_enabled y" "t_split x = t_split y"
    "in_callback x = in_callback y" "period x = period y" "callback x = callback y"
    "priv x = priv y"
  using assms unfolding body_def
  by (cases x; cases y; simp)+

lemma disable_off:
  "tq s xs \<Longrightarrow> t \<notin> set xs \<Longrightarrow> timer_disable t s = Inr s"
  by (simp add: timer_disable_def tq_def)

definition same_env :: "'w tsys_scheme \<Rightarrow> 'w tsys_scheme \<Rightarrow> bool" where
  "same_env s s' \<longleftrightarrow> timer_inited s' = timer_inited s \<and> tsc s' = tsc s \<and>
     TIMER_USEC s' = TIMER_USEC s \<and> tsys.more s' = tsys.more s"

definition off :: "pc_timer \<Rightarrow> pc_timer" where
  "off x = x\<lparr>t_enabled := False, in_callback := False\<rparr>"

lemma dseg_set_next:
  assumes "dseg h q (as @ [p]) n" "distinct (as @ [p])" "t_next v = n'" "t_prev v = t_prev (h p)"
  shows "dseg (h(p := v)) q (as @ [p]) n'"
  using assms by (auto simp: dseg_append)

lemma dseg_set_prev:
  assumes "dseg h q (b # bs) n" "b \<notin> set bs" "t_prev v = q'" "t_next v = t_next (h b)"
  shows "dseg (h(b := v)) q' (b # bs) n"
  using assms by auto

lemma disable_on:
  assumes q: "tq s xs" and t: "t \<in> set xs" and i: "timer_inited s"
  shows "\<exists>s'. timer_disable t s = Inr s' \<and> tq s' (remove1 t xs) \<and> same_env s s' \<and>
    timer_target s' = timer_target s \<and>
    (\<forall>x. body (timers s' x) = body (if x = t then off (timers s x) else timers s x))"
proof -
  obtain as bs where xs: "xs = as @ t # bs" using split_list [OF t] by blast
  have d: "distinct (as @ t # bs)" and z: "NULL \<notin> set (as @ t # bs)" using q by (auto simp: tq_def xs)
  have t0: "t \<noteq> NULL" and en: "t_enabled (timers s t)" using q t by (auto simp: tq_def intro: gr0I)
  have rm: "remove1 t xs = as @ bs" using d by (simp add: xs remove1_append)
  have seg: "dseg (timers s) NULL as t" "dseg (timers s) t bs NULL"
    and pt: "t_prev (timers s t) = (if as = [] then NULL else last as)"
    and nt: "t_next (timers s t) = first_of bs"
    using q by (auto simp: tq_def xs dseg_append first_of_def split: list.splits)
  have hd: "timer_head s = first_of (as @ [t])" using q by (cases as) (auto simp: tq_def xs)
  let ?h = "upd t off (timers s)"
  let ?h1 = "if as \<noteq> [] then upd (last as) (\<lambda>x. x\<lparr>t_next := first_of bs\<rparr>) ?h else ?h"
  let ?p = "if as = [] then NULL else last as"
  let ?h2 = "if bs \<noteq> [] then upd (hd bs) (\<lambda>x. x\<lparr>t_prev := ?p\<rparr>) ?h1 else ?h1"
  let ?h3 = "upd t (\<lambda>x. x\<lparr>t_prev := NULL, t_next := NULL\<rparr>) ?h2"
  let ?s = "s\<lparr>timers := ?h3, timer_head := first_of (as @ bs)\<rparr>"
  have la: "as \<noteq> [] \<Longrightarrow> last as \<noteq> NULL \<and> last as \<noteq> t \<and> last as \<notin> set bs"
    using z d by (metis Un_iff distinct_append disjoint_iff last_in_set list.set_intros(1,2) set_append)
  then have iso: "\<not> (first_of bs = NULL \<and> (if as = [] then NULL else last as) = NULL \<and> t \<noteq> timer_head s)"
    using hd by auto
  have lb: "bs \<noteq> [] \<Longrightarrow> first_of bs = hd bs \<and> hd bs \<noteq> NULL \<and> hd bs \<noteq> t \<and> hd bs \<notin> set as"
    using z d by (cases bs) auto
  have "timer_disable t s = Inr ?s"
    using i t0 en iso pt nt la lb hd
    by (cases as; cases bs) (auto simp: timer_disable_def Let_def off_def)
  moreover have "dseg ?h3 NULL (as @ bs) NULL"
  proof -
    have "dseg ?h1 NULL as (first_of bs)"
    proof (cases as rule: rev_cases)
      case (snoc as' p)
      then show ?thesis
        using dseg_set_next [of ?h NULL as' p t] seg(1) d by (auto simp: dseg_append)
    qed simp
    then have 1: "dseg ?h3 NULL as (first_of bs)" using lb d by auto
    have "dseg ?h1 t bs NULL" using seg(2) la d by auto
    then have "dseg ?h2 ?p bs NULL"
      using d by (cases bs) (auto intro!: dseg_set_prev)
    then have "dseg ?h3 ?p bs NULL" using d by auto
    with 1 show ?thesis by (auto simp: dseg_append first_of_def)
  qed
  moreover have "\<forall>x. body (?h3 x) = body (if x = t then off (timers s x) else timers s x)"
    by (auto simp: body_def)
  moreover have "t_enabled (?h3 x) \<longleftrightarrow> x \<in> set (as @ bs)" for x
  proof -
    have "t_enabled (?h3 x) \<longleftrightarrow> x \<noteq> t \<and> t_enabled (timers s x)" by (auto simp: off_def)
    then show ?thesis using q d by (auto simp: tq_def xs)
  qed
  moreover have "t_prev (?h3 x) = NULL \<and> t_next (?h3 x) = NULL" if "x \<notin> set (as @ bs)" for x
  proof (cases "x = t")
    case False
    have "as \<noteq> [] \<Longrightarrow> x \<noteq> last as" "bs \<noteq> [] \<Longrightarrow> x \<noteq> hd bs" using that by auto
    moreover have "t_prev (timers s x) = NULL \<and> t_next (timers s x) = NULL"
      using q that False by (simp add: tq_def xs)
    ultimately show ?thesis using False by simp
  qed simp
  ultimately show ?thesis
    using rm d z by (intro exI [of _ ?s]) (auto simp: tq_def same_env_def)
qed

definition insert_timer :: "(ptr \<Rightarrow> pc_timer) \<Rightarrow> ptr \<Rightarrow> ptr list \<Rightarrow> ptr list" where
  "insert_timer h t xs =
     takeWhile (\<lambda>x. \<not> TIMER_LESS_THAN (h t) (h x)) xs @
       t # dropWhile (\<lambda>x. \<not> TIMER_LESS_THAN (h t) (h x)) xs"

lemma set_insert_timer: "set (insert_timer h t xs) = insert t (set xs)"
  using set_append [of "takeWhile (\<lambda>x. \<not> TIMER_LESS_THAN (h t) (h x)) xs"
      "dropWhile (\<lambda>x. \<not> TIMER_LESS_THAN (h t) (h x)) xs"]
  by (simp add: insert_timer_def)

lemma insert_timer_Cons:
  "insert_timer h t (x # xs) =
     (if TIMER_LESS_THAN (h t) (h x) then t # x # xs else x # insert_timer h t xs)"
  by (simp add: insert_timer_def)

lemma insert_timer_Nil [simp]: "insert_timer h t [] = [t]"
  by (simp add: insert_timer_def)

lemma distinct_insert_timer:
  "distinct xs \<Longrightarrow> t \<notin> set xs \<Longrightarrow> distinct (insert_timer h t xs)"
  by (induction xs) (auto simp: insert_timer_Cons set_insert_timer)

lemma TIMER_LESS_THAN_body:
  "body a = body a' \<Longrightarrow> body b = body b' \<Longrightarrow> TIMER_LESS_THAN a b = TIMER_LESS_THAN a' b'"
  by (metis TIMER_LESS_THAN_def body_eqD(1))

lemma scan_inserts:
  assumes "dseg h p (as @ q # n # bs) NULL" "distinct (t # as @ q # n # bs)"
    "NULL \<notin> set (t # as @ q # n # bs)" "t_next (h t) = NULL"
  shows "\<exists>h'. enable_scan h t q n = Some h' \<and>
    dseg h' p (as @ q # insert_timer h t (n # bs)) NULL \<and>
    (\<forall>x. x \<notin> set (t # as @ q # n # bs) \<longrightarrow> h' x = h x) \<and> (\<forall>x. body (h' x) = body (h x))"
  using assms
proof (induction bs arbitrary: as q n)
  case Nil
  show ?case
  proof (cases "TIMER_LESS_THAN (h t) (h n)")
    case True
    with Nil show ?thesis
      by (subst enable_scan.simps) (auto simp: insert_timer_def dseg_append body_def split: list.splits)
  next
    case False
    with Nil show ?thesis
      by (subst enable_scan.simps) (auto simp: insert_timer_def dseg_append body_def split: list.splits)
  qed
next
  case (Cons b bs)
  show ?case
  proof (cases "TIMER_LESS_THAN (h t) (h n)")
    case True
    with Cons.prems show ?thesis
      by (subst enable_scan.simps) (auto simp: insert_timer_def dseg_append body_def split: list.splits)
  next
    case False
    have nb: "t_next (h n) = b" "b \<noteq> NULL" using Cons.prems by (auto simp: dseg_append)
    obtain h' where "enable_scan h t n b = Some h'"
      "dseg h' p ((as @ [q]) @ n # insert_timer h t (b # bs)) NULL"
      "\<forall>x. x \<notin> set (t # (as @ [q]) @ n # b # bs) \<longrightarrow> h' x = h x" "\<forall>x. body (h' x) = body (h x)"
      using Cons.IH [of "as @ [q]" n b] Cons.prems by auto
    then show ?thesis
      using False nb by (subst enable_scan.simps) (auto simp: insert_timer_Cons)
  qed
qed


lemma tq_isolated:
  "tq s xs \<Longrightarrow> t \<notin> set xs \<Longrightarrow>
     t_next (timers s t) = NULL \<and> t_prev (timers s t) = NULL \<and> \<not> t_enabled (timers s t)"
  by (simp add: tq_def)

lemma tq_intro:
  assumes "distinct xs" "NULL \<notin> set xs" "timer_head s = first_of xs" "dseg h NULL xs NULL"
    "\<And>x. t_enabled (h x) \<longleftrightarrow> x \<in> set xs"
    "\<And>x. x \<notin> set xs \<Longrightarrow> t_prev (h x) = NULL \<and> t_next (h x) = NULL" "timers s = h"
  shows "tq s xs"
  using assms by (simp add: tq_def)

definition on :: "pc_timer \<Rightarrow> pc_timer" where
  "on x = x\<lparr>t_enabled := True\<rparr>"

lemma body_on: "body x = body y \<Longrightarrow> body (on x) = body (on y)"
  unfolding body_def on_def by (cases x; cases y; simp)

lemma enable_fresh:
  assumes q: "tq s xs" and t: "t \<notin> set xs" "t \<noteq> NULL" and i: "timer_inited s"
  shows "\<exists>s'. timer_enable t s = Some (Inr s') \<and> tq s' (insert_timer (timers s) t xs) \<and>
    same_env s s' \<and>
    timer_target s' = (if first_of (insert_timer (timers s) t xs) = t
                       then ts_integer (ts (timers s t)) else timer_target s) \<and>
    (\<forall>x. body (timers s' x) = body (if x = t then on (timers s x) else timers s x))"
proof -
  note iso = tq_isolated [OF q t(1)]
  have d: "distinct xs" "NULL \<notin> set xs" and hd: "timer_head s = first_of xs"
    and seg: "dseg (timers s) NULL xs NULL" and en: "\<And>x. t_enabled (timers s x) \<longleftrightarrow> x \<in> set xs"
    and out: "\<And>x. x \<notin> set xs \<Longrightarrow> t_prev (timers s x) = NULL \<and> t_next (timers s x) = NULL"
    using q by (auto simp: tq_def)
  show ?thesis
  proof (cases xs)
    case Nil
    let ?s = "s\<lparr>timers := upd t (\<lambda>x. x\<lparr>t_next := NULL, t_prev := NULL, t_enabled := True\<rparr>) (timers s),
      timer_head := t, timer_target := ts_integer (ts (timers s t))\<rparr>"
    have "timer_enable t s = Some (Inr ?s)"
      using Nil i t iso hd by (simp add: timer_enable_def Let_def)
    moreover have "tq ?s [t]"
      using Nil t en out by (intro tq_intro) auto
    ultimately show ?thesis
      using Nil by (auto simp: insert_timer_def same_env_def on_def body_def)
  next
    case (Cons x ys)
    note xs = Cons
    show ?thesis
    proof (cases "TIMER_LESS_THAN (timers s t) (timers s x)")
      case True
      let ?h = "upd t on (upd x (\<lambda>y. y\<lparr>t_prev := t\<rparr>)
        (upd t (\<lambda>y. y\<lparr>t_next := x, t_prev := NULL\<rparr>) (timers s)))"
      let ?s = "s\<lparr>timers := ?h, timer_head := t, timer_target := ts_integer (ts (timers s t))\<rparr>"
      have "timer_enable t s = Some (Inr ?s)"
        using xs i t iso hd True d by (simp add: timer_enable_def Let_def on_def)
      moreover have "tq ?s (t # xs)"
        using xs t en out seg d by (intro tq_intro) (auto simp: on_def split: list.splits)
      moreover have "\<forall>y. body (?h y) = body (if y = t then on (timers s y) else timers s y)"
        using xs t by (auto simp: on_def body_def)
      ultimately show ?thesis
        using xs True by (auto simp: insert_timer_Cons same_env_def)
    next
      case False
      show ?thesis
      proof (cases ys)
        case Nil
        let ?h = "upd t on (upd t (\<lambda>y. y\<lparr>t_prev := x\<rparr>) (upd x (\<lambda>y. y\<lparr>t_next := t\<rparr>) (timers s)))"
        let ?s = "s\<lparr>timers := ?h\<rparr>"
        have "timer_enable t s = Some (Inr ?s)"
          using xs Nil i t iso hd False d seg by (simp add: timer_enable_def Let_def on_def)
        moreover have "tq ?s [x, t]"
          using xs Nil t en out seg d hd iso by (intro tq_intro) (auto simp: on_def split: list.splits)
        moreover have "\<forall>y. body (?h y) = body (if y = t then on (timers s y) else timers s y)"
          using xs t by (auto simp: on_def body_def)
        ultimately show ?thesis
          using xs Nil t False by (auto simp: insert_timer_def same_env_def on_def body_def)
      next
        case (Cons n bs)
        have nx: "t_next (timers s x) = n" "n \<noteq> NULL" using seg d xs Cons by auto
        obtain h' where h': "enable_scan (timers s) t x n = Some h'"
          "dseg h' NULL (x # insert_timer (timers s) t (n # bs)) NULL"
          "\<forall>y. y \<notin> set (t # x # n # bs) \<longrightarrow> h' y = timers s y"
          "\<forall>y. body (h' y) = body (timers s y)"
          using scan_inserts [of "timers s" NULL "[]" x n bs t] seg d t iso xs Cons by auto
        let ?s = "s\<lparr>timers := upd t on h'\<rparr>"
        have "timer_enable t s = Some (Inr ?s)"
          using xs i t iso hd False d nx h'(1) by (simp add: timer_enable_def Let_def on_def)
        moreover have "tq ?s (x # insert_timer (timers s) t (n # bs))"
        proof (intro tq_intro)
          show "distinct (x # insert_timer (timers s) t (n # bs))"
            using d t xs Cons distinct_insert_timer [of "n # bs" t]
            by (simp add: set_insert_timer)
          show "NULL \<notin> set (x # insert_timer (timers s) t (n # bs))"
            using d t xs Cons by (simp add: set_insert_timer)
          show "dseg (upd t on h') NULL (x # insert_timer (timers s) t (n # bs)) NULL"
            using h'(2) by (subst dseg_cong [of _ _ h']) (auto simp: on_def)
          show "t_enabled ((upd t on h') y) \<longleftrightarrow> y \<in> set (x # insert_timer (timers s) t (n # bs))" for y
            using body_eqD(2) [OF h'(4) [rule_format], of y] en [of y] xs Cons
            by (simp add: on_def set_insert_timer)
          show "t_prev ((upd t on h') y) = NULL \<and> t_next ((upd t on h') y) = NULL"
            if "y \<notin> set (x # insert_timer (timers s) t (n # bs))" for y
            using that h'(3) out xs Cons by (auto simp: set_insert_timer)
        qed (use xs hd in auto)
        moreover have "\<forall>y. body ((upd t on h') y) = body (if y = t then on (timers s y) else timers s y)"
          using h'(4) body_on [OF h'(4) [rule_format], of t] by simp
        ultimately show ?thesis
          using xs Cons t False by (auto simp: insert_timer_Cons same_env_def)
      qed
    qed
  qed
qed


lemma timer_enable_redo:
  assumes "timer_inited s" "t \<noteq> NULL" "t_enabled (timers s t)" "timer_disable t s = Inr s1"
    "timer_inited s1" "\<not> t_enabled (timers s1 t)"
  shows "timer_enable t s = timer_enable t s1"
  using assms by (simp add: timer_enable_def)

text \<open>Everything but the links and the flags \<open>t_enabled\<close> and \<open>in_callback\<close>.\<close>

definition core :: "pc_timer \<Rightarrow> pc_timer" where
  "core x = x\<lparr>t_prev := NULL, t_next := NULL, t_enabled := False, in_callback := False\<rparr>"

lemma core_body: "body x = body y \<Longrightarrow> core x = core y"
  unfolding core_def body_def by (cases x; cases y; simp)

lemma core_off_on [simp]: "core (off x) = core x" "core (on x) = core x"
  by (simp_all add: core_def off_def on_def)

lemma core_ts: "core x = core y \<Longrightarrow> ts x = ts y"
  unfolding core_def by (cases x; cases y; simp)

lemma enable_refines:
  assumes q: "tq s xs" and t: "t \<noteq> NULL" and i: "timer_inited s"
  shows "\<exists>s'. timer_enable t s = Some (Inr s') \<and>
    tq s' (insert_timer (timers s) t (remove1 t xs)) \<and> same_env s s' \<and>
    timer_target s' = (if first_of (insert_timer (timers s) t (remove1 t xs)) = t
                       then ts_integer (ts (timers s t)) else timer_target s) \<and>
    (\<forall>x. core (timers s' x) = core (timers s x)) \<and>
    (\<forall>x. x \<noteq> t \<longrightarrow> body (timers s' x) = body (timers s x))"
proof (cases "t \<in> set xs")
  case False
  obtain s' where s': "timer_enable t s = Some (Inr s')" "tq s' (insert_timer (timers s) t xs)"
    "same_env s s'" "timer_target s' = (if first_of (insert_timer (timers s) t xs) = t
                       then ts_integer (ts (timers s t)) else timer_target s)"
    "\<And>x. body (timers s' x) = body (if x = t then on (timers s x) else timers s x)"
    using enable_fresh [OF q False t i] by blast
  have "core (timers s' x) = core (timers s x)" for x
    using core_body [OF s'(5) [of x]] by (auto split: if_splits)
  moreover have "body (timers s' x) = body (timers s x)" if "x \<noteq> t" for x
    using s'(5) [of x] that by simp
  ultimately show ?thesis
    unfolding remove1_idem [OF False] using s'(1-4)
    by (intro exI [of _ s'] conjI allI impI)
next
  case True
  obtain s1 where s1: "timer_disable t s = Inr s1" "tq s1 (remove1 t xs)" "same_env s s1"
    "timer_target s1 = timer_target s"
    "\<And>x. body (timers s1 x) = body (if x = t then off (timers s x) else timers s x)"
    using disable_on [OF q True i] by blast
  have d: "distinct xs" using q by (simp add: tq_def)
  have en: "t_enabled (timers s t)" using q True by (simp add: tq_def)
  have i1: "timer_inited s1" using s1(3) i by (simp add: same_env_def)
  have nt: "t \<notin> set (remove1 t xs)" using d by simp
  have ts1: "ts (timers s1 x) = ts (timers s x)" for x
    using body_eqD(1) [OF s1(5) [of x]] by (simp add: off_def split: if_splits)
  have ins: "insert_timer (timers s1) t (remove1 t xs) = insert_timer (timers s) t (remove1 t xs)"
    by (simp add: insert_timer_def TIMER_LESS_THAN_def ts1)
  have eq: "timer_enable t s = timer_enable t s1"
    using timer_enable_redo [OF i t en s1(1) i1] tq_isolated [OF s1(2) nt] by simp
  obtain s' where s': "timer_enable t s1 = Some (Inr s')"
    "tq s' (insert_timer (timers s1) t (remove1 t xs))" "same_env s1 s'"
    "timer_target s' = (if first_of (insert_timer (timers s1) t (remove1 t xs)) = t
                       then ts_integer (ts (timers s1 t)) else timer_target s1)"
    "\<And>x. body (timers s' x) = body (if x = t then on (timers s1 x) else timers s1 x)"
    using enable_fresh [OF s1(2) nt t i1] by blast
  have "core (timers s' x) = core (timers s x)" for x
    using core_body [OF s'(5) [of x]] core_body [OF s1(5) [of x]] by (simp split: if_splits)
  moreover have "body (timers s' x) = body (timers s x)" if "x \<noteq> t" for x
    using s'(5) [of x] s1(5) [of x] that by simp
  moreover have "same_env s s'" using s1(3) s'(3) by (simp add: same_env_def)
  moreover have "timer_target s' = (if first_of (insert_timer (timers s) t (remove1 t xs)) = t
      then ts_integer (ts (timers s t)) else timer_target s)"
    using s'(4) by (simp only: ins ts1 s1(4))
  moreover have "tq s' (insert_timer (timers s) t (remove1 t xs))" using s'(2) by (simp only: ins)
  moreover have "timer_enable t s = Some (Inr s')" using eq s'(1) by simp
  ultimately show ?thesis by blast
qed

section \<open>Order\<close>

text \<open>
  Timestamps wrap, so they are ordered relative to a base \<open>c\<close>: as long as every timer expires
  less than \<open>2^63\<close> units after \<open>c\<close>, the comparison macro orders them by their distance from it.
\<close>

definition dist_from :: "u64 \<Rightarrow> pc_timer \<Rightarrow> int" where
  "dist_from c x = uint (ts x - c)"

definition in_window :: "u64 \<Rightarrow> pc_timer \<Rightarrow> bool" where
  "in_window c x \<longleftrightarrow> dist_from c x < 2 ^ 63"

definition tq_sorted :: "u64 \<Rightarrow> 'w tsys_scheme \<Rightarrow> ptr list \<Rightarrow> bool" where
  "tq_sorted c s xs \<longleftrightarrow> tq s xs \<and> sorted (map (\<lambda>x. dist_from c (timers s x)) xs) \<and>
     (\<forall>x \<in> set xs. in_window c (timers s x))"

lemma sint_minus_window:
  fixes u v :: u64
  assumes "uint u < 2 ^ 63" "uint v < 2 ^ 63"
  shows "sint (u - v) = uint u - uint v"
proof -
  have "- (2 ^ 63) \<le> uint u - uint v" "uint u - uint v < 2 ^ 63"
    using assms uint_ge_0 [of u] uint_ge_0 [of v] by linarith+
  moreover have "u - v = word_of_int (uint u - uint v)" by simp
  then have "sint (u - v) = signed_take_bit 63 (uint u - uint v)"
    by (simp only: sint_sbintrunc') simp
  ultimately show ?thesis
    by (simp add: signed_take_bit_int_eq_self)
qed

lemma TIMER_LESS_THAN_window:
  assumes "in_window c x" "in_window c y"
  shows "TIMER_LESS_THAN x y \<longleftrightarrow> dist_from c x \<le> dist_from c y"
proof -
  have "ts x - ts y = (ts x - c) - (ts y - c)" by simp
  then show ?thesis
    using sint_minus_window [of "ts x - c" "ts y - c"] assms
    by (simp add: TIMER_LESS_THAN_def in_window_def dist_from_def)
qed

lemma sorted_insert_timer:
  assumes "sorted (map (\<lambda>x. dist_from c (h x)) xs)" "\<forall>x \<in> set xs. in_window c (h x)" "in_window c (h t)"
  shows "sorted (map (\<lambda>x. dist_from c (h x)) (insert_timer h t xs))"
  using assms
proof (induction xs)
  case (Cons y ys)
  then show ?case
    using TIMER_LESS_THAN_window [of c "h t" "h y"]
    by (fastforce simp: insert_timer_Cons set_insert_timer)
qed simp

lemma sorted_remove1_map:
  "sorted (map f xs) \<Longrightarrow> sorted (map f (remove1 t xs))"
  by (induction xs) (auto dest: set_remove1_subset [THEN subsetD])

lemma core_dist: "core x = core y \<Longrightarrow> dist_from c x = dist_from c y"
  by (simp add: dist_from_def core_ts [of x y])

lemma core_window: "core x = core y \<Longrightarrow> in_window c x = in_window c y"
  by (simp add: in_window_def core_dist [of x y])

text \<open>The head of a sorted queue expires first.\<close>

lemma head_earliest:
  "tq_sorted c s xs \<Longrightarrow> x \<in> set xs \<Longrightarrow>
     timer_head s \<in> set xs \<and> dist_from c (timers s (timer_head s)) \<le> dist_from c (timers s x)"
  by (cases xs) (auto simp: tq_sorted_def tq_def)

lemma enable_sorted:
  assumes q: "tq_sorted c s xs" and t: "t \<noteq> NULL" "in_window c (timers s t)" and i: "timer_inited s"
  shows "\<exists>s'. timer_enable t s = Some (Inr s') \<and>
    tq_sorted c s' (insert_timer (timers s) t (remove1 t xs)) \<and> same_env s s' \<and>
    (\<forall>x. core (timers s' x) = core (timers s x))"
proof -
  let ?ys = "insert_timer (timers s) t (remove1 t xs)"
  have tq: "tq s xs" and so: "sorted (map (\<lambda>x. dist_from c (timers s x)) xs)"
    and w: "\<forall>x \<in> set xs. in_window c (timers s x)" using q by (auto simp: tq_sorted_def)
  obtain s' where s': "timer_enable t s = Some (Inr s')" "tq s' ?ys" "same_env s s'"
    "\<forall>x. core (timers s' x) = core (timers s x)"
    using enable_refines [OF tq t(1) i] by blast
  have "sorted (map (\<lambda>x. dist_from c (timers s x)) ?ys)"
    using so w t(2) by (intro sorted_insert_timer sorted_remove1_map)
      (auto dest: set_remove1_subset [THEN subsetD])
  then have "sorted (map (\<lambda>x. dist_from c (timers s' x)) ?ys)"
    using core_dist [OF s'(4) [rule_format]] by simp
  moreover have "\<forall>x \<in> set ?ys. in_window c (timers s' x)"
    using w t(2) core_window [OF s'(4) [rule_format]]
    by (auto simp: set_insert_timer dest: set_remove1_subset [THEN subsetD])
  ultimately show ?thesis using s' by (auto simp: tq_sorted_def)
qed

lemma timer_disable_sorted:
  assumes q: "tq_sorted c s xs" and i: "timer_inited s"
  shows "\<exists>s'. timer_disable t s = Inr s' \<and> tq_sorted c s' (remove1 t xs) \<and> same_env s s' \<and>
    timer_target s' = timer_target s \<and> (\<forall>x. core (timers s' x) = core (timers s x))"
proof (cases "t \<in> set xs")
  case False
  then show ?thesis
    using q disable_off [of s xs t]
    by (auto simp: tq_sorted_def remove1_idem same_env_def)
next
  case True
  have tq: "tq s xs" using q by (simp add: tq_sorted_def)
  obtain s' where s': "timer_disable t s = Inr s'" "tq s' (remove1 t xs)" "same_env s s'"
    "timer_target s' = timer_target s"
    "\<forall>x. body (timers s' x) = body (if x = t then off (timers s x) else timers s x)"
    using disable_on [OF tq True i] by blast
  have co: "core (timers s' x) = core (timers s x)" for x
    using core_body [OF s'(5) [rule_format, of x]] by (simp split: if_splits)
  have "sorted (map (\<lambda>x. dist_from c (timers s' x)) (remove1 t xs))"
    using q by (simp add: core_dist [OF co] tq_sorted_def sorted_remove1_map)
  moreover have "\<forall>x \<in> set (remove1 t xs). in_window c (timers s' x)"
    using q by (auto simp: core_window [OF co] tq_sorted_def dest: set_remove1_subset [THEN subsetD])
  ultimately show ?thesis using s'(1-4) co by (auto simp: tq_sorted_def)
qed

section \<open>Sequences of operations\<close>

lemma tq_cong:
  assumes "tq s xs" "timer_head s' = timer_head s"
    "\<And>x. t_prev (timers s' x) = t_prev (timers s x) \<and> t_next (timers s' x) = t_next (timers s x) \<and>
       t_enabled (timers s' x) = t_enabled (timers s x)"
  shows "tq s' xs"
  using assms dseg_cong [of xs "timers s'" "timers s" NULL NULL] by (simp add: tq_def)

datatype timer_op = TAdd ptr ptr nat bool | TEnable ptr | TDisable ptr | TAdvance ptr u64
  | TSetDelay ptr u64 | TStop ptr | TOnAuto ptr real

text \<open>A client may not re-initialise a timer that is in the queue, nor pass NULL to the macros.\<close>

fun timer_op_ok :: "timer_op \<Rightarrow> 'w tsys_scheme \<Rightarrow> bool" where
  "timer_op_ok (TAdd t cb pr st) s \<longleftrightarrow> t \<noteq> NULL \<and> \<not> t_enabled (timers s t)"
| "timer_op_ok (TAdvance t d) s \<longleftrightarrow> t \<noteq> NULL"
| "timer_op_ok (TSetDelay t d) s \<longleftrightarrow> t \<noteq> NULL"
| "timer_op_ok _ s \<longleftrightarrow> True"

fun timer_step :: "timer_op \<Rightarrow> 'w tsys_scheme \<Rightarrow> (timer_error + 'w tsys_scheme) option" where
  "timer_step (TAdd t cb pr st) s = timer_add t cb pr st s"
| "timer_step (TEnable t) s = timer_enable t s"
| "timer_step (TDisable t) s = Some (timer_disable t s)"
| "timer_step (TAdvance t d) s = timer_advance_u64 t d s"
| "timer_step (TSetDelay t d) s = timer_set_delay_u64 t d s"
| "timer_step (TStop t) s = Some (timer_stop t s)"
| "timer_step (TOnAuto t p) s = timer_on_auto t p s"

definition timers_ok :: "'w tsys_scheme \<Rightarrow> bool" where
  "timers_ok s \<longleftrightarrow> timer_inited s \<and> (\<exists>xs. tq s xs)"

definition timers_fresh :: "'w tsys_scheme \<Rightarrow> bool" where
  "timers_fresh s \<longleftrightarrow> timer_inited s \<and> timer_head s = NULL \<and>
     (\<forall>x. \<not> t_enabled (timers s x) \<and> t_prev (timers s x) = NULL \<and> t_next (timers s x) = NULL)"

lemma timers_fresh_ok: "timers_fresh s \<Longrightarrow> timers_ok s"
  by (auto simp: timers_fresh_def timers_ok_def tq_def intro!: exI [of _ "[]"])

text \<open>Changes to the other fields of a timer do not matter to the queue.\<close>

lemma timers_ok_modify:
  assumes "timers_ok s" "\<And>x. t_prev (f x) = t_prev x \<and> t_next (f x) = t_next x \<and> t_enabled (f x) = t_enabled x"
  shows "timers_ok (modify t f s)"
proof -
  obtain xs where "timer_inited s" "tq s xs" using assms(1) by (auto simp: timers_ok_def)
  then have "tq (modify t f s) xs" using assms(2) by (rule_tac tq_cong [of s xs]) auto
  then show ?thesis using \<open>timer_inited s\<close> by (auto simp: timers_ok_def)
qed

lemma enable_ok: "timers_ok s \<Longrightarrow> \<exists>s'. timer_enable t s = Some (Inr s') \<and> timers_ok s'"
proof (cases "t = NULL")
  case True
  then show "timers_ok s \<Longrightarrow> ?thesis" by (simp add: timer_enable_def)
next
  case False
  assume "timers_ok s"
  then obtain xs where "timer_inited s" "tq s xs" by (auto simp: timers_ok_def)
  then show ?thesis
    using enable_refines [of s xs t] False by (auto simp: timers_ok_def same_env_def)
qed

lemma disable_ok: "timers_ok s \<Longrightarrow> \<exists>s'. timer_disable t s = Inr s' \<and> timers_ok s'"
proof -
  assume "timers_ok s"
  then obtain xs where q: "timer_inited s" "tq s xs" by (auto simp: timers_ok_def)
  show ?thesis
  proof (cases "t \<in> set xs")
    case True
    then show ?thesis using disable_on [OF q(2) True q(1)] q(1) by (auto simp: timers_ok_def same_env_def)
  next
    case False
    then show ?thesis using disable_off [OF q(2) False] \<open>timers_ok s\<close> by auto
  qed
qed

lemma advance_ok: "timers_ok s \<Longrightarrow> \<exists>s'. timer_advance_u64 t d s = Some (Inr s') \<and> timers_ok s'"
  unfolding timer_advance_u64_def by (rule enable_ok) (simp add: timers_ok_modify)

lemma set_delay_ok: "timers_ok s \<Longrightarrow> \<exists>s'. timer_set_delay_u64 t d s = Some (Inr s') \<and> timers_ok s'"
  unfolding timer_set_delay_u64_def by (rule enable_ok) (simp add: timers_ok_modify)

lemma stop_ok: "timers_ok s \<Longrightarrow> \<exists>s'. timer_stop t s = Inr s' \<and> timers_ok s'"
proof -
  assume s: "timers_ok s"
  then have "timers_ok (modify t (\<lambda>x. x\<lparr>period := 0\<rparr>) s)" by (simp add: timers_ok_modify)
  from disable_ok [OF this, of t] show ?thesis
    using s by (auto simp: timer_stop_def intro!: timers_ok_modify)
qed

lemma do_period_ok: "timers_ok s \<Longrightarrow> \<exists>s'. timer_do_period t p st s = Some (Inr s') \<and> timers_ok s'"
  using advance_ok [of s t p] set_delay_ok [of s t p] by (simp add: timer_do_period_def)

lemma advance_ex_ok: "timers_ok s \<Longrightarrow> \<exists>s'. timer_advance_ex t st s = Some (Inr s') \<and> timers_ok s'"
  using do_period_ok [of s t "MAX_USEC64 * TIMER_USEC s" st] disable_ok [of s t]
    do_period_ok [of s t "usec_ticks (period (timers s t)) (TIMER_USEC s)" st]
  by (auto simp: timer_advance_ex_def Let_def intro!: timers_ok_modify)

lemma on_auto_ok: "timers_ok s \<Longrightarrow> \<exists>s'. timer_on_auto t p s = Some (Inr s') \<and> timers_ok s'"
  using stop_ok [of s t] advance_ex_ok [OF timers_ok_modify, of s "\<lambda>x. x\<lparr>period := p\<rparr>" t]
  by (auto simp: timer_on_auto_def timer_on_def)

lemma add_ok:
  assumes "timers_ok s" "\<not> t_enabled (timers s t)"
  shows "\<exists>s'. timer_add t cb pr st s = Some (Inr s') \<and> timers_ok s'"
proof -
  let ?s = "modify t (\<lambda>_. \<lparr>ts = 0, t_enabled = False, t_split = False, in_callback = False,
                 period = 0, callback = cb, priv = pr, t_prev = NULL, t_next = NULL\<rparr>) s"
  obtain xs where "timer_inited s" "tq s xs" using assms(1) by (auto simp: timers_ok_def)
  moreover have "t \<notin> set xs" using assms(2) \<open>tq s xs\<close> by (simp add: tq_def)
  ultimately have "tq ?s xs"
    using tq_isolated [of s xs t] by (rule_tac tq_cong [of s xs]) auto
  then have "timers_ok ?s" using \<open>timer_inited s\<close> by (auto simp: timers_ok_def)
  then show ?thesis using set_delay_ok [of ?s t 0] by (simp add: timer_add_def Let_def)
qed

interpretation tm: safe_machine timers_fresh timer_op_ok "\<lambda>op s. outcome (timer_step op s)" timers_ok
proof
  fix op :: timer_op and s :: "'w tsys_scheme"
  assume "timers_ok s" "timer_op_ok op s"
  then show "\<exists>s'. outcome (timer_step op s) = Some s' \<and> timers_ok s'"
    by (cases op) (auto simp: enable_ok disable_ok advance_ok set_delay_ok stop_ok on_auto_ok add_ok)
qed (rule timers_fresh_ok)

section \<open>Processing\<close>

lemma pop_head_tq:
  assumes q: "tq s (x # xs)"
  shows "tq (pop_head s) xs" "same_env s (pop_head s)"
    "timer_target (pop_head s) = timer_target s"
    "body (timers (pop_head s) y) =
       body (if y = x then (timers s y)\<lparr>t_enabled := False\<rparr> else timers s y)"
proof -
  have hd: "timer_head s = x" "x \<noteq> NULL" "x \<notin> set xs" "distinct xs" "NULL \<notin> set xs"
    and nx: "t_next (timers s x) = first_of xs" and seg: "dseg (timers s) x xs NULL"
    and out: "\<And>y. y \<notin> set (x # xs) \<Longrightarrow> t_prev (timers s y) = NULL \<and> t_next (timers s y) = NULL"
    and en: "\<And>y. t_enabled (timers s y) \<longleftrightarrow> y \<in> set (x # xs)"
    using q by (auto simp: tq_def first_of_def split: list.splits)
  show "tq (pop_head s) xs"
  proof (intro tq_intro)
    show "timers (pop_head s) = timers (pop_head s)" ..
    show "timer_head (pop_head s) = first_of xs" using hd nx by (simp add: pop_head_def Let_def)
    show "dseg (timers (pop_head s)) NULL xs NULL"
      using hd nx seg by (cases xs) (auto simp: pop_head_def Let_def)
    show "t_enabled (timers (pop_head s) y) \<longleftrightarrow> y \<in> set xs" for y
      using hd en [of y] by (auto simp: pop_head_def Let_def)
    show "t_prev (timers (pop_head s) y) = NULL \<and> t_next (timers (pop_head s) y) = NULL"
      if "y \<notin> set xs" for y
      using hd out [of y] that nx by (cases xs) (auto simp: pop_head_def Let_def)
  qed (use hd in auto)
  show "same_env s (pop_head s)" "timer_target (pop_head s) = timer_target s"
    by (simp_all add: same_env_def pop_head_def Let_def)
  show "body (timers (pop_head s) y) =
       body (if y = x then (timers s y)\<lparr>t_enabled := False\<rparr> else timers s y)"
    using hd by (auto simp: pop_head_def Let_def body_def)
qed

section \<open>Expiry\<close>

definition is_due :: "'w tsys_scheme \<Rightarrow> ptr \<Rightarrow> bool" where
  "is_due s x \<longleftrightarrow> TIMER_LESS_THAN_VAL (timers s x) (ucast (tsc s))"

text \<open>Whatever the callbacks do, the loop returns only with a head that is not yet due.\<close>

lemma process_loop_post:
  assumes "process_loop run s = Some (Inr s')"
  shows "timer_head s' \<noteq> NULL \<and> \<not> is_due s' (timer_head s')"
proof -
  have "\<forall>s'. r = Inr s' \<longrightarrow> timer_head s' \<noteq> NULL \<and> \<not> is_due s' (timer_head s')"
    if "process_loop run s = Some r" for r
    using that
  proof (rule process_loop.raw_induct [rotated], goal_cases)
    case (1 loop s r)
    then show ?case
      by (auto simp: is_due_def bind_eq_Some_conv sum.case_eq_if split: if_splits)
  qed
  then show ?thesis using assms by blast
qed

text \<open>Callbacks that touch only the state of their device.\<close>

definition one_shot :: "(ptr \<Rightarrow> nat \<Rightarrow> 'w \<Rightarrow> 'w) \<Rightarrow> 'w callback_effect" where
  "one_shot g cb pr s = Some (Inr (tsys.more_update (g cb pr) s))"

definition effect_of :: "(ptr \<Rightarrow> nat \<Rightarrow> 'w \<Rightarrow> 'w) \<Rightarrow> pc_timer \<Rightarrow> 'w \<Rightarrow> 'w" where
  "effect_of g x w = (if callback x = NULL then w else g (callback x) (priv x) w)"

lemma fire_one_shot:
  assumes q: "tq s xs" and nt: "\<not> t_split (timers s t)"
  shows "\<exists>s'. fire (one_shot g) t s = Some (Inr s') \<and> tq s' xs \<and> tsc s' = tsc s \<and>
    timer_inited s' = timer_inited s \<and> tsys.more s' = effect_of g (timers s t) (tsys.more s) \<and>
    (\<forall>y. core (timers s' y) = core (timers s y))"
proof (cases "callback (timers s t) = NULL")
  case True
  then show ?thesis using q nt by (simp add: fire_def effect_of_def)
next
  case False
  let ?s = "modify t (\<lambda>x. x\<lparr>in_callback := False\<rparr>) (tsys.more_update (g (callback (timers s t))
     (priv (timers s t))) (modify t (\<lambda>x. x\<lparr>in_callback := True\<rparr>) s))"
  have "tq ?s xs" by (rule tq_cong [OF q]) auto
  then show ?thesis using False nt
    by (intro exI [of _ ?s]) (simp add: fire_def effect_of_def one_shot_def core_def)
qed

lemma core_eqD:
  assumes "core x = core y"
  shows "t_split x = t_split y" "callback x = callback y" "priv x = priv y" "period x = period y"
    "effect_of g x = effect_of g y"
  using assms unfolding core_def effect_of_def by (cases x; cases y; auto)+

lemma process_one_shot:
  assumes "tq s xs" "\<forall>x \<in> set xs. \<not> t_split (timers s x)"
  shows "if \<forall>x \<in> set xs. is_due s x then process_loop (one_shot g) s = Some (Inl NullHead)
    else \<exists>s'. process_loop (one_shot g) s = Some (Inr s') \<and> tq s' (dropWhile (is_due s) xs) \<and>
      tsc s' = tsc s \<and> timer_inited s' = timer_inited s \<and>
      tsys.more s' = fold (\<lambda>x. effect_of g (timers s x)) (takeWhile (is_due s) xs) (tsys.more s) \<and>
      (\<forall>y. core (timers s' y) = core (timers s y))"
  using assms
proof (induction xs arbitrary: s)
  case Nil
  then show ?case by (subst process_loop.simps) (simp add: tq_def)
next
  case (Cons x xs)
  have hd: "timer_head s = x" "x \<noteq> NULL" using Cons.prems(1) by (auto simp: tq_def)
  show ?case
  proof (cases "is_due s x")
    case False
    then show ?thesis
      using hd Cons.prems(1) by (subst process_loop.simps) (auto simp: is_due_def)
  next
    case True
    note pop = pop_head_tq [OF Cons.prems(1)]
    have cp: "core (timers (pop_head s) y) = core (timers s y)" for y
      using core_body [OF pop(4) [of y]] by (simp add: core_def split: if_splits)
    have nt: "\<not> t_split (timers (pop_head s) x)"
      using Cons.prems(2) core_eqD(1) [OF cp [of x]] by simp
    obtain s1 where s1: "fire (one_shot g) x (pop_head s) = Some (Inr s1)" "tq s1 xs"
      "tsc s1 = tsc s" "timer_inited s1 = timer_inited s"
      "tsys.more s1 = effect_of g (timers s x) (tsys.more s)"
      "\<And>y. core (timers s1 y) = core (timers s y)"
      using fire_one_shot [OF pop(1) nt, of g] pop(2) by (auto simp: same_env_def cp core_eqD(5) [OF cp])
    have due: "is_due s1 = is_due s"
      using core_ts [OF s1(6)] s1(3) by (auto simp: is_due_def TIMER_LESS_THAN_VAL_def)
    have eff: "effect_of g (timers s1 y) = effect_of g (timers s y)" for y
      using core_eqD(5) [OF s1(6)] .
    have "process_loop (one_shot g) s = process_loop (one_shot g) s1"
      using hd True s1(1) by (subst process_loop.simps) (simp add: is_due_def)
    moreover have "\<forall>y \<in> set xs. \<not> t_split (timers s1 y)"
      using Cons.prems(2) core_eqD(1) [OF s1(6)] by simp
    note IH = Cons.IH [OF s1(2) this]
    ultimately show ?thesis
      using IH True unfolding due s1(3,4,5,6) eff by (auto simp: o_def)
  qed
qed

text \<open>A period longer than a second is split into steps of a second.\<close>

lemma advance_ex_cases:
  assumes s: "timers_ok s" and t: "t \<noteq> NULL" "0 < period (timers s t)"
  shows "\<exists>s'. timer_advance_ex t False s = Some (Inr s') \<and> timers_ok s' \<and> t_enabled (timers s' t) \<and>
    same_env s s' \<and>
    (if MAX_USEC < period (timers s t)
     then ts (timers s' t) = ts (timers s t) + MAX_USEC64 * TIMER_USEC s \<and>
       period (timers s' t) = period (timers s t) - MAX_USEC \<and> t_split (timers s' t)
     else ts (timers s' t) = ts (timers s t) + usec_ticks (period (timers s t)) (TIMER_USEC s) \<and>
       period (timers s' t) = 0 \<and> \<not> t_split (timers s' t))"
proof -
  obtain xs where i: "timer_inited s" and q: "tq s xs" using s by (auto simp: timers_ok_def)
  define d where "d = (if MAX_USEC < period (timers s t) then MAX_USEC64 * TIMER_USEC s
    else usec_ticks (period (timers s t)) (TIMER_USEC s))"
  let ?s = "modify t (\<lambda>x. x\<lparr>ts := ts x + d\<rparr>) s"
  let ?fin = "if MAX_USEC < period (timers s t)
    then (\<lambda>x. x\<lparr>period := period x - MAX_USEC, t_split := True\<rparr>)
    else (\<lambda>x. x\<lparr>period := 0, t_split := False\<rparr>)"
  have "tq ?s xs" by (rule tq_cong [OF q]) auto
  then obtain s1 where s1: "timer_enable t ?s = Some (Inr s1)"
    "tq s1 (insert_timer (timers ?s) t (remove1 t xs))" "same_env ?s s1"
    "\<forall>x. core (timers s1 x) = core (timers ?s x)"
    using enable_refines [of ?s xs t] i t by auto
  have co: "ts (timers s1 t) = ts (timers s t) + d" "period (timers s1 t) = period (timers s t)"
    "t_enabled (timers s1 t)"
    using s1(2) core_ts [OF s1(4) [rule_format, of t]] core_eqD(4) [OF s1(4) [rule_format, of t]]
    by (auto simp: tq_def set_insert_timer)
  have "timer_advance_ex t False s = Some (Inr (modify t ?fin s1))"
    using i t s1(1) by (cases "MAX_USEC < period (timers s t)")
      (simp_all add: timer_advance_ex_def timer_do_period_def timer_advance_u64_def d_def Let_def)
  moreover have "timers_ok (modify t ?fin s1)"
    using s1(2,3) i by (intro timers_ok_modify) (auto simp: timers_ok_def same_env_def)
  ultimately show ?thesis using co s1(3) by (simp add: d_def same_env_def)
qed

fun advance_times :: "ptr \<Rightarrow> nat \<Rightarrow> 'w tsys_scheme \<Rightarrow> (timer_error + 'w tsys_scheme) option" where
  "advance_times t 0 s = Some (Inr s)"
| "advance_times t (Suc n) s = Option.bind (timer_advance_ex t False s)
     (\<lambda>r. case r of Inl e \<Rightarrow> Some (Inl e) | Inr s1 \<Rightarrow> advance_times t n s1)"

lemma advance_times_split:
  assumes "timers_ok s" "t \<noteq> NULL" "real n * MAX_USEC < period (timers s t)"
    "period (timers s t) \<le> real (Suc n) * MAX_USEC"
  shows "\<exists>s'. advance_times t (Suc n) s = Some (Inr s') \<and> timers_ok s' \<and> t_enabled (timers s' t) \<and>
    ts (timers s' t) = ts (timers s t) + of_nat n * (MAX_USEC64 * TIMER_USEC s) +
      usec_ticks (period (timers s t) - real n * MAX_USEC) (TIMER_USEC s) \<and>
    period (timers s' t) = 0 \<and> \<not> t_split (timers s' t)"
  using assms
proof (induction n arbitrary: s)
  case 0
  then show ?case using advance_ex_cases [of s t] by auto
next
  case (Suc n)
  have big: "MAX_USEC < period (timers s t)"
    using Suc.prems(3) by (simp add: MAX_USEC_def) 
  have pos: "0 < period (timers s t)" using big by (simp add: MAX_USEC_def)
  obtain s1 where s1: "timer_advance_ex t False s = Some (Inr s1)" "timers_ok s1" "same_env s s1"
    "ts (timers s1 t) = ts (timers s t) + MAX_USEC64 * TIMER_USEC s"
    "period (timers s1 t) = period (timers s t) - MAX_USEC"
    using advance_ex_cases [OF Suc.prems(1,2) pos] big by auto
  have u: "TIMER_USEC s1 = TIMER_USEC s" using s1(3) by (simp add: same_env_def)
  have "real n * MAX_USEC < period (timers s1 t)" "period (timers s1 t) \<le> real (Suc n) * MAX_USEC"
    using Suc.prems(3,4) by (simp_all add: s1(5) algebra_simps)
  from Suc.IH [OF s1(2) Suc.prems(2) this] obtain s' where
    "advance_times t (Suc n) s1 = Some (Inr s')" "timers_ok s'" "t_enabled (timers s' t)"
    "ts (timers s' t) = ts (timers s1 t) + of_nat n * (MAX_USEC64 * TIMER_USEC s1) +
      usec_ticks (period (timers s1 t) - real n * MAX_USEC) (TIMER_USEC s1)"
    "period (timers s' t) = 0" "\<not> t_split (timers s' t)" by blast
  moreover have "period (timers s1 t) - real n * MAX_USEC = period (timers s t) - real (Suc n) * MAX_USEC"
    by (simp add: s1(5) algebra_simps)
  moreover have "(of_nat (Suc n) :: u64) * m = of_nat n * m + m" for m by (simp add: algebra_simps)
  ultimately show ?case
    using s1(1,4) u by (intro exI [of _ s']) (simp del: of_nat_Suc add: ac_simps distrib_left)
qed

section \<open>Moving the time base\<close>

lemma set_tsc_loop_seg:
  assumes "dseg h p xs NULL" "distinct xs" "NULL \<notin> set xs"
  shows "set_tsc_loop n ob h (first_of xs) =
    Some (\<lambda>x. if x \<in> set xs then rebase n ob (h x) else h x)"
  using assms
proof (induction xs arbitrary: h p)
  case Nil
  then show ?case by (subst set_tsc_loop.simps) simp
next
  case (Cons x xs)
  let ?h = "upd x (rebase n ob) h"
  have "t_next (?h x) = first_of xs" using Cons.prems by (auto simp: rebase_def Let_def first_of_def split: list.splits)
  moreover have "dseg ?h x xs NULL" using Cons.prems by simp
  ultimately have "set_tsc_loop n ob ?h (t_next (?h x)) =
      Some (\<lambda>y. if y \<in> set xs then rebase n ob (?h y) else ?h y)"
    using Cons.IH [of ?h x] Cons.prems(2,3) by (simp del: fun_upd_apply)
  moreover have "set_tsc_loop n ob h x = set_tsc_loop n ob ?h (t_next (?h x))"
    using Cons.prems(3) by (subst set_tsc_loop.simps) (simp add: Let_def del: fun_upd_apply)
  ultimately show ?case using Cons.prems(2) by (auto simp: fun_eq_iff)
qed

lemma ts_integer_set [simp]: "ts_integer (ts_set_integer i t) = i"
  by (rule word_eq_by_bits) (auto simp: ts_integer_def ts_set_integer_def bit_simps)

lemma ts_set_frac [simp]: "ts_set_integer i t AND 0xFFFFFFFF = t AND 0xFFFFFFFF"
proof -
  have "(0xFFFFFFFF::u64) = mask 32" by (simp add: mask_eq_exp_minus_1)
  then show ?thesis
    by (auto simp only: ts_set_integer_def bit_simps intro!: word_eq_by_bits)
qed

lemma ucast_add_scast:
  "(ucast (a + scast (d :: u32) :: u64) :: u32) = ucast a + d"
proof (transfer, goal_cases)
  case (1 a d)
  have "take_bit 32 (a + signed_take_bit 31 d) =
    take_bit 32 (take_bit 32 a + take_bit 32 (signed_take_bit 31 d))" by (simp only: take_bit_add)
  also have "take_bit 32 (signed_take_bit 31 d) = take_bit 32 d" by (simp add: take_bit_signed_take_bit)
  finally show ?case by (subst (2) take_bit_add [symmetric]) (simp add: take_bit_add)
qed

section \<open>Properties\<close>

definition blank_timer :: pc_timer where
  "blank_timer = \<lparr>ts = 0, t_enabled = False, t_split = False, in_callback = False,
     period = 0, callback = NULL, priv = 0, t_prev = NULL, t_next = NULL\<rparr>"

text \<open>A concrete queue for the examples: timers 1 and 2, due at ticks 5 and 9, in this order.\<close>

definition two_timers :: "u64 \<Rightarrow> tsys" where
  "two_timers now = \<lparr>timers = (\<lambda>_. blank_timer)
       (1 := blank_timer\<lparr>ts := push_bit 32 5, t_enabled := True, callback := 7, t_next := 2\<rparr>,
        2 := blank_timer\<lparr>ts := push_bit 32 9, t_enabled := True, callback := 7, t_prev := 1\<rparr>),
     timer_head = 1, timer_inited = True, timer_target = 5, tsc = now, TIMER_USEC = push_bit 32 1\<rparr>"

lemma two_timers_tq: "tq (two_timers now) [1, 2]"
  by (auto simp: tq_def two_timers_def blank_timer_def)

text \<open>
  Claim C1: No sequence of operations on the timer queue (adding a timer that is not enabled, enabling,
  disabling, advancing, delaying and stopping timers and starting periods of any length) from the freshly
  initialised queue reaches \<open>fatal()\<close> or an endless scan of the list: each operation returns,
  and the list stays well formed with exactly the enabled timers in it. The conditions on the calls, each
  at its own state: \<open>timer_add\<close> gets a timer that is not enabled then (it clears the links of
  its argument without unlinking it), and \<open>timer_add\<close>, \<open>timer_advance_u64\<close> and
  \<open>timer_set_delay_u64\<close> get a timer that is not NULL.
\<close>

theorem timer_ops_never_fatal:
  assumes "reachable timers_fresh timer_op_ok (\<lambda>op s. outcome (timer_step op s)) s"
    and "timer_op_ok op s"
  shows "\<exists>s'. timer_step op s = Some (Inr s') \<and> timer_inited s' \<and> (\<exists>xs. tq s' xs)"
  using tm.never_stuck [OF assms] by (metis outcome_Some timers_ok_def)

lemma timer_ops_never_fatal_witness:
  "\<exists>s'. timer_step (TSetDelay 3 8) ((two_timers 0)\<lparr>timers := \<lambda>_. blank_timer, timer_head := NULL\<rparr>)
     = Some (Inr s') \<and> timer_inited s' \<and> (\<exists>xs. tq s' xs)"
  by (rule timer_ops_never_fatal [OF reachable_init])
    (simp_all add: timers_fresh_def two_timers_def blank_timer_def)

text \<open>
  Claim C26: Enabling a timer (not NULL, enabled before or not) in an initialised and sorted queue takes
  it out of its old place and inserts it before the first timer that does not expire earlier, so the queue
  stays sorted by expiry, relative to any base from which all deadlines, its own too, are less than
  \<open>2^63\<close> away; the head then expires no later than any other timer, and no timer's deadline,
  period, callback or split flag is changed.
\<close>

theorem timer_enable_sorted:
  assumes "tq_sorted c s xs" and "t \<noteq> NULL" and "in_window c (timers s t)" and "timer_inited s"
  shows "\<exists>s'. timer_enable t s = Some (Inr s') \<and>
    tq_sorted c s' (insert_timer (timers s) t (remove1 t xs)) \<and>
    t_enabled (timers s' t) \<and> (\<forall>x. core (timers s' x) = core (timers s x)) \<and>
    (\<forall>x. t_enabled (timers s' x) \<longrightarrow>
      dist_from c (timers s' (timer_head s')) \<le> dist_from c (timers s' x))"
proof -
  obtain s' where s': "timer_enable t s = Some (Inr s')"
    "tq_sorted c s' (insert_timer (timers s) t (remove1 t xs))"
    "\<forall>x. core (timers s' x) = core (timers s x)"
    using enable_sorted [OF assms] by blast
  moreover have "t_enabled (timers s' x) \<longleftrightarrow> x \<in> set (insert_timer (timers s) t (remove1 t xs))" for x
    using s'(2) by (simp add: tq_sorted_def tq_def)
  ultimately show ?thesis
    using head_earliest [OF s'(2)] by (intro exI [of _ s']) (auto simp: set_insert_timer)
qed

lemma timer_enable_sorted_witness:
  "\<exists>s'. timer_enable 1 (two_timers 0) = Some (Inr s') \<and>
    tq_sorted 0 s' (insert_timer (timers (two_timers 0)) 1 (remove1 1 [1, 2])) \<and>
    t_enabled (timers s' 1) \<and> (\<forall>x. core (timers s' x) = core (timers (two_timers 0) x)) \<and>
    (\<forall>x. t_enabled (timers s' x) \<longrightarrow>
      dist_from 0 (timers s' (timer_head s')) \<le> dist_from 0 (timers s' x))"
proof (rule timer_enable_sorted)
  show "tq_sorted 0 (two_timers 0) [1, 2]"
    unfolding tq_sorted_def using two_timers_tq [of 0]
    by (intro conjI) (simp_all add: two_timers_def dist_from_def in_window_def)
qed (simp_all add: two_timers_def dist_from_def in_window_def)

text \<open>
  Claim C27: When no timer in the queue is in the middle of a split period (\<open>t_split\<close> is
  clear in all of them; a due timer with it set would be re-armed without its callback), at least one
  timer of the queue is not due, and the callbacks change only the state of their own devices, then
  \<open>timer_process\<close> runs the callbacks of the timers before the first one that is not due, each
  exactly once and in the order of the queue (a timer without callback only leaves), leaves exactly the
  other timers in the queue and enabled, sets \<open>timer_target\<close> to the deadline of the first of
  them, and that one is not due.
\<close>

theorem timer_process_fires_due:
  assumes q: "tq s xs" and "\<forall>x \<in> set xs. \<not> t_split (timers s x)"
    and nd: "\<not> (\<forall>x \<in> set xs. is_due s x)"
  shows "\<exists>s'. timer_process (one_shot g) s = Some (Inr s') \<and> tq s' (dropWhile (is_due s) xs) \<and>
    tsys.more s' = fold (\<lambda>x. effect_of g (timers s x)) (takeWhile (is_due s) xs) (tsys.more s) \<and>
    timer_target s' = ts_integer (ts (timers s (first_of (dropWhile (is_due s) xs)))) \<and>
    timer_head s' = first_of (dropWhile (is_due s) xs) \<and> \<not> is_due s (timer_head s')"
proof -
  obtain s' where s': "process_loop (one_shot g) s = Some (Inr s')" "tq s' (dropWhile (is_due s) xs)"
    "tsys.more s' = fold (\<lambda>x. effect_of g (timers s x)) (takeWhile (is_due s) xs) (tsys.more s)"
    "\<And>y. core (timers s' y) = core (timers s y)" "tsc s' = tsc s"
    using process_one_shot [OF assms(1,2), of g] nd by auto
  let ?s = "s'\<lparr>timer_target := ts_integer (ts (timers s' (timer_head s')))\<rparr>"
  have "timer_head s \<noteq> NULL" using q nd by (cases xs) (auto simp: tq_def)
  then have "timer_process (one_shot g) s = Some (Inr ?s)" using s'(1) by (simp add: timer_process_def)
  moreover have "tq ?s (dropWhile (is_due s) xs)" by (rule tq_cong [OF s'(2)]) auto
  moreover have "timer_head s' = first_of (dropWhile (is_due s) xs)" using s'(2) by (simp add: tq_def)
  moreover have "\<not> is_due s (timer_head s')"
    using process_loop_post [OF s'(1)] core_ts [OF s'(4)]
    by (simp add: is_due_def TIMER_LESS_THAN_VAL_def s'(5))
  ultimately show ?thesis
    using s'(3) core_ts [OF s'(4)] by (intro exI [of _ ?s]) simp
qed

lemma timer_process_fires_due_witness:
  "\<exists>s'. timer_process (one_shot (\<lambda>cb pr w. w)) (two_timers 6) = Some (Inr s') \<and>
    tq s' (dropWhile (is_due (two_timers 6)) [1, 2]) \<and>
    tsys.more s' = fold (\<lambda>x. effect_of (\<lambda>cb pr w. w) (timers (two_timers 6) x))
      (takeWhile (is_due (two_timers 6)) [1, 2]) (tsys.more (two_timers 6)) \<and>
    timer_target s' = ts_integer (ts (timers (two_timers 6) (first_of (dropWhile (is_due (two_timers 6)) [1, 2])))) \<and>
    timer_head s' = first_of (dropWhile (is_due (two_timers 6)) [1, 2]) \<and>
    \<not> is_due (two_timers 6) (timer_head s')"
  by (rule timer_process_fires_due [OF two_timers_tq])
    (simp_all add: two_timers_def blank_timer_def is_due_def TIMER_LESS_THAN_VAL_def ts_integer_def
      drop_bit_push_bit)

text \<open>
  When every enabled timer is due and no callback re-arms one, \<open>timer_process\<close>
  empties the queue and then dereferences the NULL head.
\<close>

theorem timer_process_null_head:
  assumes "tq s xs" and "xs \<noteq> []" and "\<forall>x \<in> set xs. \<not> t_split (timers s x) \<and> is_due s x"
  shows "timer_process (one_shot g) s = Some (Inl NullHead)"
  using process_one_shot [OF assms(1), of g] assms by (cases xs) (auto simp: timer_process_def tq_def)

lemma timer_process_null_head_witness:
  "timer_process (one_shot (\<lambda>cb pr w. w)) (two_timers 9) = Some (Inl NullHead)"
  by (rule timer_process_null_head [OF two_timers_tq])
    (simp_all add: two_timers_def blank_timer_def is_due_def TIMER_LESS_THAN_VAL_def ts_integer_def
      drop_bit_push_bit)

text \<open>
  A period of more than one second is split: after \<open>n\<close> whole seconds and a last
  step of the remainder, each of them one expiry, the deadline has moved by exactly
  \<open>n\<close> times a million microseconds plus the remainder, the split flag is clear and no
  part of the period is left.
\<close>

theorem timer_split_period:
  assumes "timers_ok s" and "t \<noteq> NULL"
    and "real n * MAX_USEC < period (timers s t)" and "period (timers s t) \<le> real (Suc n) * MAX_USEC"
  shows "\<exists>s'. advance_times t (Suc n) s = Some (Inr s') \<and> timers_ok s' \<and> t_enabled (timers s' t) \<and>
    ts (timers s' t) = ts (timers s t) + of_nat n * (MAX_USEC64 * TIMER_USEC s) +
      usec_ticks (period (timers s t) - real n * MAX_USEC) (TIMER_USEC s) \<and>
    period (timers s' t) = 0 \<and> \<not> t_split (timers s' t)"
  by (rule advance_times_split [OF assms])

definition long_timer :: tsys where
  "long_timer = modify 2 (\<lambda>x. x\<lparr>period := 2500000\<rparr>) (two_timers 0)"

lemma timer_split_period_witness:
  "\<exists>s'. advance_times 2 (Suc 2) long_timer = Some (Inr s') \<and> timers_ok s' \<and> t_enabled (timers s' 2) \<and>
    ts (timers s' 2) = ts (timers long_timer 2) + of_nat 2 * (MAX_USEC64 * TIMER_USEC long_timer) +
      usec_ticks (period (timers long_timer 2) - real 2 * MAX_USEC) (TIMER_USEC long_timer) \<and>
    period (timers s' 2) = 0 \<and> \<not> t_split (timers s' 2)"
proof (rule timer_split_period)
  have "timers_ok (two_timers 0)"
    using two_timers_tq [of 0] by (auto simp: timers_ok_def) (simp add: two_timers_def)
  then show "timers_ok long_timer" unfolding long_timer_def by (rule timers_ok_modify) simp
qed (simp_all add: long_timer_def two_timers_def MAX_USEC_def)

text \<open>
  Claim C34: Setting the time stamp counter moves every enabled timer with it: the ticks
  left before each deadline, the fraction of the deadline, and the order of the queue are
  unchanged, timers outside the queue are not touched, and \<open>timer_target\<close> is the deadline
  of the head.
\<close>

theorem timer_set_new_tsc_keeps_remaining:
  assumes q: "tq s xs"
  shows "\<exists>s'. timer_set_new_tsc n s = Some s' \<and> tq s' xs \<and> tsc s' = n \<and>
    (\<forall>x \<in> set xs.
       ts_integer (ts (timers s' x)) - ucast n = ts_integer (ts (timers s x)) - ucast (tsc s) \<and>
       ts (timers s' x) AND 0xFFFFFFFF = ts (timers s x) AND 0xFFFFFFFF) \<and>
    (\<forall>x. x \<notin> set xs \<longrightarrow> timers s' x = timers s x) \<and>
    (xs \<noteq> [] \<longrightarrow> timer_target s' = ts_integer (ts (timers s' (timer_head s'))))"
proof (cases "xs = []")
  case True
  then have "timer_set_new_tsc n s = Some (s\<lparr>tsc := n\<rparr>)" using q by (simp add: timer_set_new_tsc_def tq_def)
  moreover have "tq (s\<lparr>tsc := n\<rparr>) xs" by (rule tq_cong [OF q]) auto
  ultimately show ?thesis using True by auto
next
  case False
  have hd: "timer_head s = first_of xs" "timer_head s \<noteq> NULL" "first_of xs \<in> set xs"
    using q False by (cases xs; auto simp: tq_def)+
  let ?h = "\<lambda>x. if x \<in> set xs then rebase n (tsc s) (timers s x) else timers s x"
  let ?s = "s\<lparr>timer_target := ucast (n + scast (timer_get_ts_int (timer_head s) s - ucast (tsc s))),
    timers := ?h, tsc := n\<rparr>"
  have "set_tsc_loop n (tsc s) (timers s) (timer_head s) = Some ?h"
    using q hd set_tsc_loop_seg [of "timers s" NULL xs n "tsc s"] by (simp add: tq_def)
  then have "timer_set_new_tsc n s = Some ?s" using hd by (simp add: timer_set_new_tsc_def)
  moreover have "tq ?s xs" by (rule tq_cong [OF q]) (auto simp: rebase_def Let_def)
  ultimately show ?thesis
    using hd by (intro exI [of _ ?s])
      (simp add: rebase_def Let_def ucast_add_scast timer_get_ts_int_def)
qed

lemma timer_set_new_tsc_keeps_remaining_witness:
  "\<exists>s'. timer_set_new_tsc 100 (two_timers 3) = Some s' \<and> tq s' [1, 2] \<and> tsc s' = 100 \<and>
    (\<forall>x \<in> set [1, 2].
       ts_integer (ts (timers s' x)) - ucast (100::u64)
         = ts_integer (ts (timers (two_timers 3) x)) - ucast (tsc (two_timers 3)) \<and>
       ts (timers s' x) AND 0xFFFFFFFF = ts (timers (two_timers 3) x) AND 0xFFFFFFFF) \<and>
    (\<forall>x. x \<notin> set [1, 2] \<longrightarrow> timers s' x = timers (two_timers 3) x) \<and>
    ([1, 2] \<noteq> ([] :: ptr list) \<longrightarrow> timer_target s' = ts_integer (ts (timers s' (timer_head s'))))"
  by (rule timer_set_new_tsc_keeps_remaining [OF two_timers_tq])

text \<open>
  \<open>timer_close\<close> isolates only the head of the queue: it reads the successor after
  clearing it, so every later timer keeps its links and its enabled flag.
\<close>

theorem timer_close_isolates_head_only:
  assumes "tq s (x # y # ys)"
  shows "\<exists>s'. timer_close s = Some s' \<and> timer_head s' = NULL \<and> \<not> timer_inited s' \<and>
    t_next (timers s' x) = NULL \<and> t_prev (timers s' y) = x \<and> t_enabled (timers s' y) \<and>
    (\<forall>z. z \<noteq> x \<longrightarrow> timers s' z = timers s z)"
proof -
  have "timer_head s = x" "x \<noteq> NULL" "x \<noteq> y" "t_prev (timers s y) = x" "t_enabled (timers s y)"
    using assms by (auto simp: tq_def)
  then show ?thesis by (simp add: timer_close_def close_loop.simps Let_def)
qed

lemma timer_close_isolates_head_only_witness:
  "\<exists>s'. timer_close (two_timers 0) = Some s' \<and> timer_head s' = NULL \<and> \<not> timer_inited s' \<and>
    t_next (timers s' 1) = NULL \<and> t_prev (timers s' 2) = 1 \<and> t_enabled (timers s' 2) \<and>
    (\<forall>z. z \<noteq> 1 \<longrightarrow> timers s' z = timers (two_timers 0) z)"
  by (rule timer_close_isolates_head_only [OF two_timers_tq])

end
