(* ===== verification/Pic.thy ===== *)
theory Pic
  imports Prelude
begin

text \<open>
  The 8259 interrupt controllers of \<open>src/src/pic.c\<close>: the two \<open>pic_t\<close> objects, the initialisation
  and operation command words, the priority resolver, edge and level requests with their line
  counters, the poll command, and the acknowledge cycles that give the CPU its vector.

  The globals of the file are the fields of one record. The function pointer \<open>update_pending\<close>
  is the Boolean \<open>update_at\<close> (\<open>pic_update_pending_at\<close> or \<open>pic_update_pending_xt\<close>). What the
  file reads from elsewhere (\<open>is286\<close>, \<open>cpu_fast_off_flags\<close>, \<open>xt_cpu_multi\<close>, \<open>cpu_s->rspeed\<close>,
  whether \<open>pit_devs[1].data\<close> exists) are further fields, never written here. Calls that leave
  the file are appended to \<open>events\<close>, in order. Dereferencing a NULL slave, a shift by more than 31,
  \<open>fatal()\<close> and a chain of slaves deeper than the recursion of the hardware are error values.
  Logging is left out, and so is the state array used only by the debugger.
\<close>

section \<open>State\<close>

datatype pic_state = STATE_NONE | STATE_ICW2 | STATE_ICW3 | STATE_ICW4

datatype pic_ref = PIC1 | PIC2

datatype pic_event = SmiRaise | FastOffAdvance | Pit1SetGate0 | TimerOnAuto real | TimerAddPic
  | LatchHandler bool | SetHandler u16 nat pic_ref

datatype pic_error = NullSlave | ShiftRange | FatalPending | TooDeep

record pic_t =
  icw1 :: u8
  icw2 :: u8
  icw3 :: u8
  icw4 :: u8
  imr :: u8
  isr :: u8
  irr :: u8
  ocw2 :: u8
  ocw3 :: u8
  int_pending :: bool
  is_master :: bool
  elcr :: u8
  state :: pic_state
  ack_bytes :: u8
  priority :: u8
  special_mask_mode :: bool
  auto_eoi_rotate :: bool
  interrupt :: u8
  data_bus :: u8
  lines :: "u32 list"
  is_at :: bool
  slaves :: "pic_ref option list"

record pics =
  pic :: pic_t
  pic2 :: pic_t
  shadow :: bool
  elcr_enabled :: bool
  tmr_inited :: bool
  pic_pci :: bool
  kbd_latch :: bool
  mouse_latch :: bool
  smi_irq_mask :: u16
  smi_irq_status :: u16
  latched_irqs :: u16
  update_at :: bool
  acpi_rtc_status :: bool
  events :: "pic_event list"
  is286 :: bool
  cpu_fast_off_flags :: u32
  xt_cpu_multi :: real
  rspeed :: real
  pit1_present :: bool

definition pic_of :: "pic_ref \<Rightarrow> pics \<Rightarrow> pic_t" where
  "pic_of d s = (case d of PIC1 \<Rightarrow> pic s | PIC2 \<Rightarrow> pic2 s)"

definition mod_pic :: "pic_ref \<Rightarrow> (pic_t \<Rightarrow> pic_t) \<Rightarrow> pics \<Rightarrow> pics" where
  "mod_pic d f s = (case d of PIC1 \<Rightarrow> s\<lparr>pic := f (pic s)\<rparr> | PIC2 \<Rightarrow> s\<lparr>pic2 := f (pic2 s)\<rparr>)"

definition emit :: "pic_event list \<Rightarrow> pics \<Rightarrow> pics" where
  "emit es s = s\<lparr>events := events s @ es\<rparr>"

section \<open>Masks and the edge/level register\<close>

definition pic_reset_smi_irq_mask :: "pics \<Rightarrow> pics" where
  "pic_reset_smi_irq_mask s = s\<lparr>smi_irq_mask := 0\<rparr>"

definition pic_set_smi_irq_mask :: "int \<Rightarrow> bool \<Rightarrow> pics \<Rightarrow> pics" where
  "pic_set_smi_irq_mask irq up s =
     (if 0 \<le> irq \<and> irq \<le> 15 then
        s\<lparr>smi_irq_mask := (if up then smi_irq_mask s OR push_bit (nat irq) 1
                           else smi_irq_mask s AND NOT (push_bit (nat irq) 1))\<rparr>
      else s)"

definition pic_get_smi_irq_status :: "pics \<Rightarrow> u16" where
  "pic_get_smi_irq_status s = smi_irq_status s"

definition pic_clear_smi_irq_status :: "int \<Rightarrow> pics \<Rightarrow> pics" where
  "pic_clear_smi_irq_status irq s =
     (if 0 \<le> irq \<and> irq \<le> 15
      then s\<lparr>smi_irq_status := smi_irq_status s AND NOT (push_bit (nat irq) 1)\<rparr> else s)"

definition pic_elcr_write :: "u16 \<Rightarrow> u8 \<Rightarrow> pic_ref \<Rightarrow> pics \<Rightarrow> pics" where
  "pic_elcr_write port v d s =
     mod_pic d (\<lambda>p. p\<lparr>elcr := (if port AND 1 \<noteq> 0 then v AND 0xde else v AND 0xf8)\<rparr>) s"

definition pic_elcr_read :: "u16 \<Rightarrow> pic_ref \<Rightarrow> pics \<Rightarrow> u8" where
  "pic_elcr_read port d s = elcr (pic_of d s)"

definition pic_elcr_get_enabled :: "pics \<Rightarrow> bool" where
  "pic_elcr_get_enabled s = elcr_enabled s"

definition pic_elcr_set_enabled :: "bool \<Rightarrow> pics \<Rightarrow> pics" where
  "pic_elcr_set_enabled en s = s\<lparr>elcr_enabled := en\<rparr>"

definition pic_cascade_mode :: "pic_t \<Rightarrow> bool" where
  "pic_cascade_mode p \<longleftrightarrow> icw1 p AND 2 = 0"

text \<open>The shift of an \<open>int\<close> by \<open>channel\<close> is undefined from 32 on.\<close>

definition pic_slave_on :: "pic_t \<Rightarrow> u8 \<Rightarrow> pic_error + bool" where
  "pic_slave_on p channel =
     (if pic_cascade_mode p \<and> (is_master p \<or> icw4 p AND 0x0c = 0x0c) then
        if 32 \<le> channel then Inl ShiftRange
        else Inr ((ucast (icw3 p) :: u32) AND push_bit (unat channel) 1 \<noteq> 0)
      else Inr False)"

section \<open>The priority resolver\<close>

text \<open>\<open>j = (i + dev->priority) & 7\<close>.\<close>

definition prio_irq :: "pic_t \<Rightarrow> nat \<Rightarrow> nat" where
  "prio_irq p i = unat ((word_of_nat i + priority p) AND 7)"

fun best_scan :: "pic_t \<Rightarrow> nat list \<Rightarrow> nat option" where
  "best_scan p [] = None"
| "best_scan p (i # is) =
     (let j = prio_irq p i; b = push_bit j 1 in
      if isr p AND b \<noteq> 0 then None
      else if state p = STATE_NONE \<and> (irr p AND NOT (imr p)) AND b \<noteq> 0 then Some j
      else best_scan p is)"

definition find_best_interrupt :: "pic_ref \<Rightarrow> pics \<Rightarrow> nat option \<times> pics" where
  "find_best_interrupt d s =
     (let p = pic_of d s;
          ret = best_scan p [0..<8];
          intr = (case ret of None \<Rightarrow> 0x17 | Some j \<Rightarrow> (word_of_nat j :: u8));
          s1 = mod_pic d (\<lambda>p. p\<lparr>interrupt := intr\<rparr>) s;
          n = (if d = PIC2 then intr + 8 else intr)
      in (ret, if is_at p \<and> ret \<noteq> None \<and> (cpu_fast_off_flags s AND push_bit (unat n) 1) \<noteq> 0
               then emit [FastOffAdvance] s1 else s1))"

definition set_pending :: "pic_ref \<Rightarrow> pics \<Rightarrow> pics" where
  "set_pending d s =
     (case find_best_interrupt d s of (ret, s1) \<Rightarrow>
        mod_pic d (\<lambda>p. p\<lparr>int_pending := (ret \<noteq> None)\<rparr>) s1)"

definition pic_update_pending_xt :: "pics \<Rightarrow> pics" where
  "pic_update_pending_xt s =
     (if interrupt (pic s) AND 0x20 = 0 then set_pending PIC1 s else s)"

text \<open>
  The shift by the slave's \<open>icw3\<close> is of an \<open>int\<close>: from 32 on it is undefined in C and gives 0 here.
\<close>

definition pic_update_pending_at :: "pics \<Rightarrow> pics" where
  "pic_update_pending_at s =
     (if interrupt (pic s) AND 0x20 = 0 then
        let s1 = set_pending PIC2 s;
            b = push_bit (unat (icw3 (pic2 s1))) 1;
            s2 = mod_pic PIC1 (\<lambda>p. p\<lparr>irr := (if int_pending (pic2 s1) then irr p OR b
                                              else irr p AND NOT b)\<rparr>) s1
        in set_pending PIC1 s2
      else s)"

definition update_pending :: "pics \<Rightarrow> pics" where
  "update_pending s = (if update_at s then pic_update_pending_at s else pic_update_pending_xt s)"

definition pic_callback :: "pics \<Rightarrow> pics" where
  "pic_callback s = update_pending s"

definition zero_pic :: pic_t where
  "zero_pic = \<lparr>icw1 = 0, icw2 = 0, icw3 = 0, icw4 = 0, imr = 0, isr = 0, irr = 0, ocw2 = 0,
     ocw3 = 0, int_pending = False, is_master = False, elcr = 0, state = STATE_NONE, ack_bytes = 0,
     priority = 0, special_mask_mode = False, auto_eoi_rotate = False, interrupt = 0,
     data_bus = 0, lines = replicate 8 0, is_at = False, slaves = replicate 8 None\<rparr>"

text \<open>\<open>at_machine\<close> is the value the routine computes from the machine's name and flags.\<close>

definition pic_reset :: "bool \<Rightarrow> pics \<Rightarrow> pics" where
  "pic_reset at_machine s =
     (let s1 = s\<lparr>pic := zero_pic\<lparr>is_master := True, interrupt := 0x17,
                   slaves := (if at_machine then (replicate 8 None)[2 := Some PIC2]
                              else replicate 8 None), is_at := at_machine\<rparr>,
                 pic2 := zero_pic\<lparr>interrupt := 0x17, is_at := at_machine\<rparr>\<rparr>;
          s2 = emit ((if tmr_inited s then [TimerOnAuto 0] else []) @ [TimerAddPic]) s1
      in s2\<lparr>tmr_inited := True, update_at := at_machine, smi_irq_mask := 0, smi_irq_status := 0,
            shadow := False, pic_pci := False\<rparr>)"

definition pic_set_shadow :: "bool \<Rightarrow> pics \<Rightarrow> pics" where
  "pic_set_shadow sh s = s\<lparr>shadow := sh\<rparr>"

definition pic_get_pci_flag :: "pics \<Rightarrow> bool" where
  "pic_get_pci_flag s = pic_pci s"

definition pic_set_pci_flag :: "bool \<Rightarrow> pics \<Rightarrow> pics" where
  "pic_set_pci_flag pci s = s\<lparr>pic_pci := pci\<rparr>"

section \<open>Acknowledge and end of interrupt\<close>

definition pic_level_triggered :: "pic_ref \<Rightarrow> nat \<Rightarrow> pics \<Rightarrow> bool" where
  "pic_level_triggered d irq s \<longleftrightarrow>
     (if elcr_enabled s then elcr (pic_of d s) AND push_bit irq 1 \<noteq> 0
      else icw1 (pic_of d s) AND 8 \<noteq> 0)"

definition picint_is_level :: "nat \<Rightarrow> pics \<Rightarrow> bool" where
  "picint_is_level irq s = pic_level_triggered (if 7 < irq then PIC2 else PIC1) (irq mod 8) s"

definition pic_acknowledge :: "pic_ref \<Rightarrow> pics \<Rightarrow> pics" where
  "pic_acknowledge d s =
     (let n = unat (interrupt (pic_of d s) AND 7);
          b = push_bit n 1;
          s1 = mod_pic d (\<lambda>p. p\<lparr>isr := isr p OR b\<rparr>) s
      in if \<not> pic_level_triggered d n s1 \<or> lines (pic_of d s1) ! n = 0
         then mod_pic d (\<lambda>p. p\<lparr>irr := irr p AND NOT b\<rparr>) s1 else s1)"

fun non_specific_scan :: "pic_t \<Rightarrow> nat list \<Rightarrow> nat option" where
  "non_specific_scan p [] = None"
| "non_specific_scan p (i # is) =
     (let j = prio_irq p i; b = push_bit j 1 in
      if isr p AND b \<noteq> 0 \<and> (\<not> special_mask_mode p \<or> imr p AND b = 0) then Some j
      else non_specific_scan p is)"

text \<open>The value \<open>0xff\<close> for no interrupt is \<open>None\<close>.\<close>

definition pic_non_specific_find :: "pic_t \<Rightarrow> nat option" where
  "pic_non_specific_find p = non_specific_scan p [0..<8]"

definition pic_action :: "pic_ref \<Rightarrow> nat option \<Rightarrow> bool \<Rightarrow> bool \<Rightarrow> pics \<Rightarrow> pics" where
  "pic_action d irq eoi rot s =
     (case irq of
        None \<Rightarrow> s
      | Some n \<Rightarrow>
          let b = push_bit n 1;
              s1 = (if eoi then mod_pic d (\<lambda>p. p\<lparr>isr := isr p AND NOT b\<rparr>) s else s);
              s2 = (if rot then mod_pic d (\<lambda>p. p\<lparr>priority := word_of_nat ((n + 1) mod 8)\<rparr>) s1 else s1)
          in update_pending s2)"

definition pic_auto_non_specific_eoi :: "pic_ref \<Rightarrow> pics \<Rightarrow> pics" where
  "pic_auto_non_specific_eoi d s =
     (let p = pic_of d s in
      if icw4 p AND 2 \<noteq> 0 then pic_action d (pic_non_specific_find p) True (auto_eoi_rotate p) s
      else s)"

definition pic_command :: "pic_ref \<Rightarrow> pics \<Rightarrow> pics" where
  "pic_command d s =
     (let p = pic_of d s in
      if ocw2 p AND 0x60 \<noteq> 0 then
        let irq = (if ocw2 p AND 0x40 \<noteq> 0 then Some (unat (ocw2 p AND 7))
                   else pic_non_specific_find p)
        in pic_action d irq (ocw2 p AND 0x20 \<noteq> 0) (ocw2 p AND 0x80 \<noteq> 0) s
      else mod_pic d (\<lambda>p. p\<lparr>auto_eoi_rotate := (ocw2 p AND 0x80 \<noteq> 0)\<rparr>) s)"

section \<open>Raising and lowering requests\<close>

text \<open>The first loop: requests on the slave's line are dropped, on AT as IRQ 9.\<close>

fun route_slaves :: "pic_t \<Rightarrow> nat list \<Rightarrow> u16 \<Rightarrow> nat \<Rightarrow> u16 \<times> nat" where
  "route_slaves m [] num k = (num, k)"
| "route_slaves m (i # is) num k =
     (let b = push_bit i 1 :: u16; hot = num AND b \<noteq> 0 in
      if icw3 m AND push_bit i 1 \<noteq> 0 then
        route_slaves m is
          (if hot then (if is_at m \<and> i = 2 then (num AND NOT b) OR push_bit 9 1 else num AND NOT b)
           else num) (k + 1)
      else route_slaves m is num k)"

text \<open>The level loop counts the devices that hold a line; \<open>chg\<close> is \<open>!!*irq_state != !!set\<close>.\<close>

fun level_scan :: "nat list \<Rightarrow> u16 \<Rightarrow> bool \<Rightarrow> bool \<Rightarrow> u16 \<Rightarrow> pics \<Rightarrow> u16 \<times> pics" where
  "level_scan [] num chg up ls s = (ls, s)"
| "level_scan (i # is) num chg up ls s =
     (let d = (if i < 8 then PIC1 else PIC2); b = i mod 8; w = push_bit i 1 in
      if num AND w \<noteq> 0 then
        let s1 = (if chg then mod_pic d (\<lambda>p. p\<lparr>lines := (lines p)[b := (if up then lines p ! b + 1
                     else lines p ! b - 1)]\<rparr>) s else s);
            ls1 = (if \<not> pic_level_triggered d b s1 \<or>
                      (chg \<and> lines (pic_of d s1) ! b = (if up then 1 else 0))
                   then ls OR w else ls)
        in level_scan is num chg up ls1 s1
      else level_scan is num chg up ls s)"

definition raise_irqs :: "u16 \<Rightarrow> pics \<Rightarrow> pics" where
  "raise_irqs num s =
     (let s1 = (if smi_irq_mask s AND num \<noteq> 0
                then (emit [SmiRaise] s)\<lparr>smi_irq_status := smi_irq_status s OR num\<rparr> else s);
          s2 = (if num AND 0xff00 \<noteq> 0 then
                  let s' = (if num AND 0x1000 \<noteq> 0 \<and> mouse_latch s1
                            then s1\<lparr>latched_irqs := latched_irqs s1 OR 0x1000\<rparr> else s1)
                  in mod_pic PIC2 (\<lambda>p. p\<lparr>irr := irr p OR ucast (drop_bit 8 num)\<rparr>) s'
                else s1)
      in if num AND 0x00ff \<noteq> 0 then
           let s' = (if kbd_latch s2 \<and> num AND 0x0002 \<noteq> 0
                     then s2\<lparr>latched_irqs := latched_irqs s2 OR 0x0002\<rparr> else s2)
           in mod_pic PIC1 (\<lambda>p. p\<lparr>irr := irr p OR ucast (num AND 0x00ff)\<rparr>) s'
         else s2)"

definition lower_irqs :: "u16 \<Rightarrow> pics \<Rightarrow> pics" where
  "lower_irqs num s =
     (let s1 = s\<lparr>smi_irq_status := smi_irq_status s AND NOT num\<rparr>;
          s2 = (if num AND 0xff00 \<noteq> 0 then
                  let s' = (if num AND 0x1000 \<noteq> 0 \<and> mouse_latch s1
                            then s1\<lparr>latched_irqs := latched_irqs s1 AND 0xefff\<rparr> else s1)
                  in mod_pic PIC2 (\<lambda>p. p\<lparr>irr := irr p AND NOT (ucast (drop_bit 8 num))\<rparr>) s'
                else s1)
      in if num AND 0x00ff \<noteq> 0 then
           let s' = (if kbd_latch s2 \<and> num AND 0x0002 \<noteq> 0
                     then s2\<lparr>latched_irqs := latched_irqs s2 AND 0xfffd\<rparr> else s2)
           in mod_pic PIC1 (\<lambda>p. p\<lparr>irr := irr p AND NOT (ucast (num AND 0x00ff))\<rparr>) s'
         else s2)"

text \<open>The result is the caller's \<open>*irq_state\<close> and the state; an edge call has no \<open>irq_state\<close>.\<close>

definition picint_common :: "u16 \<Rightarrow> bool \<Rightarrow> bool \<Rightarrow> u8 \<Rightarrow> pics \<Rightarrow> u8 \<times> pics" where
  "picint_common num0 level up irq_state s =
     (case route_slaves (pic s) [0..<8] num0 0 of (num, nslaves) \<Rightarrow>
        if num = 0 then (irq_state, s)
        else
          let chg = ((irq_state \<noteq> 0) \<noteq> up);
              (num1, s1) = (if level
                 then level_scan [0..<(if nslaves = 0 then 8 else 16)] num chg up 0 s
                 else (num, s));
              irq_state1 = (if level \<and> chg then (if up then 1 else 0) else irq_state);
              num2 = (if nslaves = 0 then num1 AND 0x00ff else num1);
              s2 = (if num2 AND 0x0100 \<noteq> 0 then s1\<lparr>acpi_rtc_status := up\<rparr> else s1)
          in (irq_state1,
              if num2 \<noteq> 0
              then update_pending (if up then raise_irqs num2 s2 else lower_irqs num2 s2)
              else s2))"

definition picint :: "u16 \<Rightarrow> pics \<Rightarrow> pics" where
  "picint num s = snd (picint_common num False True 0 s)"

definition picintc :: "u16 \<Rightarrow> pics \<Rightarrow> pics" where
  "picintc num s = snd (picint_common num False False 0 s)"

definition picintlevel :: "u16 \<Rightarrow> u8 \<Rightarrow> pics \<Rightarrow> u8 \<times> pics" where
  "picintlevel num st s = picint_common num True True st s"

definition picintclevel :: "u16 \<Rightarrow> u8 \<Rightarrow> pics \<Rightarrow> u8 \<times> pics" where
  "picintclevel num st s = picint_common num True False st s"

definition pic_latch_read :: "pics \<Rightarrow> u8 \<times> pics" where
  "pic_latch_read s =
     (let s1 = (if kbd_latch s \<and> latched_irqs s AND 0x0002 \<noteq> 0 then picintc 0x0002 s else s);
          s2 = (if mouse_latch s1 \<and> latched_irqs s1 AND 0x1000 \<noteq> 0 then picintc 0x1000 s1 else s1)
      in (0xff, s2))"

definition pic_kbd_latch :: "bool \<Rightarrow> pics \<Rightarrow> pics" where
  "pic_kbd_latch enable s =
     (let s1 = (if (enable \<or> mouse_latch s) \<noteq> (kbd_latch s \<or> mouse_latch s)
                then emit [LatchHandler (enable \<or> mouse_latch s)] s else s);
          s2 = s1\<lparr>kbd_latch := enable\<rparr>
      in if enable then s2 else picintc 0x0002 s2)"

definition pic_mouse_latch :: "bool \<Rightarrow> pics \<Rightarrow> pics" where
  "pic_mouse_latch enable s =
     (let s1 = (if (kbd_latch s \<or> enable) \<noteq> (kbd_latch s \<or> mouse_latch s)
                then emit [LatchHandler (kbd_latch s \<or> enable)] s else s);
          s2 = s1\<lparr>mouse_latch := enable\<rparr>
      in if enable then s2 else picintc 0x1000 s2)"

definition pic_reset_hard :: "bool \<Rightarrow> bool \<Rightarrow> pics \<Rightarrow> pics" where
  "pic_reset_hard at_machine ps2_kbc s =
     (let s1 = (pic_reset at_machine s)\<lparr>kbd_latch := False, mouse_latch := False, latched_irqs := 0\<rparr>
      in pic_mouse_latch ps2_kbc (pic_kbd_latch ps2_kbc s1))"

definition pic_init :: "bool \<Rightarrow> bool \<Rightarrow> pics \<Rightarrow> pics" where
  "pic_init at_machine ps2_kbc s =
     emit [SetHandler 0x20 2 PIC1] ((pic_reset_hard at_machine ps2_kbc s)\<lparr>shadow := False\<rparr>)"

definition pic_init_pcjr :: "bool \<Rightarrow> bool \<Rightarrow> pics \<Rightarrow> pics" where
  "pic_init_pcjr at_machine ps2_kbc s =
     emit [SetHandler 0x20 8 PIC1] ((pic_reset_hard at_machine ps2_kbc s)\<lparr>shadow := False\<rparr>)"

definition pic2_init :: "pics \<Rightarrow> pics" where
  "pic2_init s = mod_pic PIC1 (\<lambda>p. p\<lparr>slaves := (slaves p)[2 := Some PIC2]\<rparr>)
     (emit [SetHandler 0xa0 2 PIC2] s)"

definition pic_set_pci :: "pics \<Rightarrow> pics" where
  "pic_set_pci s =
     emit (concat (map (\<lambda>base. concat (map (\<lambda>k. [SetHandler (base + 4 * word_of_nat k) 2 PIC1,
             SetHandler (base + 4 * word_of_nat k + 0x80) 2 PIC2]) [0..<(if base = 0x24 then 7 else 8)]))
           [0x24, 0x1120, 0xff20])) s"

section \<open>The ports\<close>

definition pic_read_icw :: "pic_ref \<Rightarrow> u8 \<Rightarrow> pics \<Rightarrow> u8" where
  "pic_read_icw d icw s =
     (let p = pic_of d s in
      if icw = 0 then icw1 p else if icw = 1 then icw2 p else if icw = 2 then icw3 p
      else if icw = 3 then icw4 p else 0xff)"

definition pic_read_ocw :: "pic_ref \<Rightarrow> u8 \<Rightarrow> pics \<Rightarrow> u8" where
  "pic_read_ocw d ocw s =
     (let p = pic_of d s in if ocw = 0 then ocw2 p else if ocw = 1 then ocw3 p else 0xff)"

definition shadow_byte :: "u16 \<Rightarrow> pic_t \<Rightarrow> u8" where
  "shadow_byte addr p =
     (if addr AND 1 \<noteq> 0 then drop_bit 3 (icw2 p AND 0xf8)
      else push_bit 4 (drop_bit 5 (ocw3 p AND 0x20)) OR push_bit 3 (drop_bit 7 (ocw2 p AND 0x80)) OR
        push_bit 2 (drop_bit 4 (icw4 p AND 0x10)) OR push_bit 1 (drop_bit 1 (icw4 p AND 0x02)) OR
        drop_bit 3 (icw4 p AND 0x08))"

definition pic_poll :: "pic_ref \<Rightarrow> pics \<Rightarrow> pics" where
  "pic_poll d s =
     (let s1 = mod_pic d (\<lambda>p. p\<lparr>interrupt := interrupt p AND NOT 0x20\<rparr>) s;
          s2 = (if int_pending (pic_of d s1) then
                  update_pending (mod_pic d (\<lambda>p. p\<lparr>int_pending := False\<rparr>)
                    (pic_acknowledge d
                      (mod_pic d (\<lambda>p. p\<lparr>data_bus := 0x80 OR (interrupt p AND 7)\<rparr>) s1)))
                else mod_pic d (\<lambda>p. p\<lparr>data_bus := 0\<rparr>) s1)
      in mod_pic d (\<lambda>p. p\<lparr>ocw3 := ocw3 p AND NOT 0x04\<rparr>) s2)"

definition pic_read :: "u16 \<Rightarrow> pic_ref \<Rightarrow> pics \<Rightarrow> u8 \<times> pics" where
  "pic_read addr d s =
     (let s1 =
        (if shadow s then mod_pic d (\<lambda>p. p\<lparr>data_bus := shadow_byte addr p\<rparr>) s
         else
           let s' = mod_pic d (\<lambda>p. p\<lparr>data_bus := irr p\<rparr>) s; p = pic_of d s' in
           if ocw3 p AND 4 \<noteq> 0 then pic_poll d s'
           else if addr AND 1 \<noteq> 0 then mod_pic d (\<lambda>p. p\<lparr>data_bus := imr p\<rparr>) s'
           else if ocw3 p AND 2 \<noteq> 0 \<and> ocw3 p AND 1 \<noteq> 0
             then mod_pic d (\<lambda>p. p\<lparr>data_bus := isr p\<rparr>) s'
           else s')
      in (data_bus (pic_of d s1), s1))"

text \<open>The bits of the lines that are held, for the request register after ICW1.\<close>

definition held_lines :: "u32 list \<Rightarrow> u8" where
  "held_lines ls = fold (\<lambda>i w. if ls ! i > 0 then w OR push_bit i 1 else w) [0..<8] 0"

definition after_icws :: "pic_t \<Rightarrow> pic_state" where
  "after_icws p = (if icw1 p AND 1 \<noteq> 0 then STATE_ICW4 else STATE_NONE)"

definition pic_write_icw1 :: "u8 \<Rightarrow> pic_t \<Rightarrow> pic_t" where
  "pic_write_icw1 v p =
     p\<lparr>icw1 := v, icw2 := 0, icw3 := 0, icw4 := (if v AND 1 = 0 then 0 else icw4 p),
       ocw2 := 0, ocw3 := 0, irr := held_lines (lines p), imr := 0, isr := 0, ack_bytes := 0,
       priority := 0, auto_eoi_rotate := False, special_mask_mode := False, interrupt := 0x17,
       int_pending := False, state := STATE_ICW2\<rparr>"

definition pic_write :: "u16 \<Rightarrow> u8 \<Rightarrow> pic_ref \<Rightarrow> pics \<Rightarrow> pics" where
  "pic_write addr v d s0 =
     (let s = mod_pic d (\<lambda>p. p\<lparr>data_bus := v\<rparr>) s0 in
      if addr AND 1 \<noteq> 0 then
        (case state (pic_of d s) of
           STATE_ICW2 \<Rightarrow> mod_pic d (\<lambda>p. p\<lparr>icw2 := v,
               state := (if pic_cascade_mode p then STATE_ICW3 else after_icws p)\<rparr>) s
         | STATE_ICW3 \<Rightarrow> mod_pic d (\<lambda>p. p\<lparr>icw3 := v, state := after_icws p\<rparr>) s
         | STATE_ICW4 \<Rightarrow> mod_pic d (\<lambda>p. p\<lparr>icw4 := v, state := STATE_NONE\<rparr>) s
         | STATE_NONE \<Rightarrow>
             let s1 = mod_pic d (\<lambda>p. p\<lparr>imr := v\<rparr>) s in
             if is286 s then update_pending s1
             else emit [TimerOnAuto (0 * ((10000000 * xt_cpu_multi s) / rspeed s))] s1)
      else if v AND 0x10 \<noteq> 0 then
        if pic_pci s \<and> v AND 0xe0 \<noteq> 0 then s
        else update_pending (mod_pic d (pic_write_icw1 v) s)
      else if v AND 0x08 \<noteq> 0 then
        mod_pic d (\<lambda>p. p\<lparr>ocw3 := v,
          interrupt := (if v AND 0x04 \<noteq> 0 then interrupt p OR 0x20 else interrupt p),
          special_mask_mode := (if v AND 0x40 \<noteq> 0 then v AND 0x20 \<noteq> 0 else special_mask_mode p)\<rparr>) s
      else pic_command d (mod_pic d (\<lambda>p. p\<lparr>ocw2 := v\<rparr>) s))"

section \<open>The acknowledge cycles\<close>

definition pic_i86_mode :: "pic_t \<Rightarrow> bool" where
  "pic_i86_mode p \<longleftrightarrow> icw4 p AND 1 \<noteq> 0"

text \<open>
  \<open>pic_irq_ack_read\<close> recurses into the slave. Its first argument bounds the depth; a
  controller whose slaves have no slave of their own needs two.
\<close>

fun ack_read :: "nat \<Rightarrow> pic_ref option \<Rightarrow> nat \<Rightarrow> pics \<Rightarrow> pic_error + u8 \<times> pics" where
  "ack_read 0 dev phase s = Inl TooDeep"
| "ack_read (Suc k) None phase s = Inl NullSlave"
| "ack_read (Suc k) (Some d) phase s =
     (let p = pic_of d s;
          intr = interrupt p AND 7;
          slave = (interrupt p AND 0x40 \<noteq> 0);
          out = (\<lambda>(v, s'). Inr (v, mod_pic d (\<lambda>p. p\<lparr>data_bus := v\<rparr>) s'));
          sub = (\<lambda>s' v. if slave then bindE (ack_read k (slaves (pic_of d s') ! unat intr) phase s') out
                        else out (v, s'));
          fin = (\<lambda>(v, s'). let s'' = pic_auto_non_specific_eoi d s'
                           in Inr (data_bus (pic_of d s''), s''))
      in if phase = 0 then
           sub (pic_acknowledge d (mod_pic d (\<lambda>p. p\<lparr>interrupt := interrupt p OR 0x20\<rparr>) s))
             (if pic_i86_mode p then 0xff else 0xcd)
         else if pic_i86_mode p then
           bindE (sub (mod_pic d (\<lambda>p. p\<lparr>int_pending := False\<rparr>) s) (intr + (icw2 p AND 0xf8))) fin
         else if phase = 1 then
           sub s (if icw1 p AND 4 \<noteq> 0 then push_bit 2 intr + (icw1 p AND 0xe0)
                  else push_bit 3 intr + (icw1 p AND 0xc0))
         else if phase = 2 then
           bindE (sub (mod_pic d (\<lambda>p. p\<lparr>int_pending := False\<rparr>) s) (icw2 p)) fin
         else Inr (data_bus p, s))"

definition pic_irq_ack_read :: "pics \<Rightarrow> pic_error + u8 \<times> pics" where
  "pic_irq_ack_read s = ack_read 3 (Some PIC1) (unat (ack_bytes (pic s))) s"

text \<open>The lines both acknowledge routines repeat after each cycle.\<close>

definition ack_cycle :: "pics \<Rightarrow> pic_error + u8 \<times> pics" where
  "ack_cycle s =
     bindE (pic_irq_ack_read s) (\<lambda>(ret, s1).
       let n = (unat (ack_bytes (pic s1)) + 1) mod (if pic_i86_mode (pic s1) then 2 else 3);
           s2 = mod_pic PIC1 (\<lambda>p. p\<lparr>ack_bytes := word_of_nat n\<rparr>) s1;
           s3 = (if interrupt (pic s2) AND 0x40 \<noteq> 0
                 then mod_pic PIC2 (\<lambda>p. p\<lparr>interrupt := 0x17\<rparr>) s2 else s2)
       in Inr (ret, if n = 0
                    then update_pending (mod_pic PIC1 (\<lambda>p. p\<lparr>interrupt := 0x17\<rparr>) s3) else s2))"

definition slave_of :: "pics \<Rightarrow> pic_error + pic_ref" where
  "slave_of s = (case slaves (pic s) ! unat (interrupt (pic s)) of
     None \<Rightarrow> Inl NullSlave | Some d \<Rightarrow> Inr d)"

definition mark_slave :: "pics \<Rightarrow> pics" where
  "mark_slave s = mod_pic PIC1 (\<lambda>p. p\<lparr>interrupt := interrupt p OR 0x40\<rparr>) s"

definition pic_irq_ack :: "pics \<Rightarrow> pic_error + u8 \<times> pics" where
  "pic_irq_ack s =
     bindE
       (if ack_bytes (pic s) = 0 \<and> int_pending (pic s) then
          bindE (pic_slave_on (pic s) (interrupt (pic s))) (\<lambda>on.
            if on then bindE (slave_of s) (\<lambda>d.
              if int_pending (pic_of d s) then Inr (mark_slave s) else Inl FatalPending)
            else Inr s)
        else Inr s)
       ack_cycle"

definition picinterrupt :: "pics \<Rightarrow> pic_error + u8 \<times> pics" where
  "picinterrupt s =
     bindE
       (if int_pending (pic s) then
          bindE (pic_slave_on (pic s) (interrupt (pic s))) (\<lambda>on.
            if on then bindE (slave_of s) (\<lambda>d.
              if int_pending (pic_of d s) then Inr (mark_slave s)
              else Inr (mod_pic d (\<lambda>p. p\<lparr>int_pending := True, interrupt := 0x07\<rparr>) s))
            else Inr s)
        else Inr (mod_pic PIC1 (\<lambda>p. p\<lparr>int_pending := True, interrupt := 0x07\<rparr>) s))
       (\<lambda>s1.
         let s2 = (if interrupt (pic s1) = 0 \<and> pit1_present s1 then emit [Pit1SetGate0] s1 else s1)
         in bindE (ack_cycle s2) (\<lambda>(_, s3). ack_cycle s3))"

section \<open>Access lemmas\<close>

lemma pic_of_simps [simp]: "pic_of PIC1 s = pic s" "pic_of PIC2 s = pic2 s"
  by (simp_all add: pic_of_def)

lemma mod_pic_simps [simp]:
  "mod_pic PIC1 f s = s\<lparr>pic := f (pic s)\<rparr>" "mod_pic PIC2 f s = s\<lparr>pic2 := f (pic2 s)\<rparr>"
  by (simp_all add: mod_pic_def)

lemma emit_simps [simp]:
  "pic (emit es s) = pic s" "pic2 (emit es s) = pic2 s" "update_at (emit es s) = update_at s"
  "shadow (emit es s) = shadow s" "elcr_enabled (emit es s) = elcr_enabled s"
  "events (emit es s) = events s @ es" "is286 (emit es s) = is286 s" "pic_pci (emit es s) = pic_pci s"
  by (simp_all add: emit_def)

section \<open>Priority\<close>

text \<open>The rank of a line: 0 is the highest priority, which OCW2 can rotate.\<close>

definition rank :: "pic_t \<Rightarrow> nat \<Rightarrow> nat" where
  "rank p k = (k + 8 - unat (priority p) mod 8) mod 8"

definition requested :: "pic_t \<Rightarrow> nat \<Rightarrow> bool" where
  "requested p k \<longleftrightarrow> bit (irr p) k \<and> \<not> bit (imr p) k"

lemma unat_and_7: "unat ((w::u8) AND 7) = unat w mod 8"
proof -
  have m: "(7::u8) = mask 3" by (simp add: mask_eq_exp_minus_1)
  have "unat (take_bit 3 w) = take_bit 3 (unat w)" by (rule unsigned_take_bit_eq)
  then show ?thesis unfolding m take_bit_eq_mask [symmetric] by (simp add: take_bit_eq_mod)
qed

lemma prio_irq_eq: "prio_irq p i = (i + unat (priority p)) mod 8"
proof -
  have "(2::nat) ^ 8 = 8 * 32" by simp
  then show ?thesis
    by (simp add: prio_irq_def unat_and_7 unat_word_ariths unat_of_nat mod_mod_cancel mod_add_left_eq)
qed

lemma prio_irq_less [simp]: "prio_irq p i < 8"
  by (simp add: prio_irq_eq)

lemma rank_less [simp]: "rank p k < 8"
  by (simp add: rank_def)

lemma rotate_back: "i < 8 \<Longrightarrow> (q::nat) < 8 \<Longrightarrow> ((i + q) mod 8 + 8 - q) mod 8 = i"
  by (cases "i + q < 8") (simp_all add: mod_if)

lemma rotate_forth: "i < 8 \<Longrightarrow> (q::nat) < 8 \<Longrightarrow> ((i + 8 - q) mod 8 + q) mod 8 = i"
proof (cases "i < q")
  case False
  assume i: "i < 8"
  have "i + 8 - q = i - q + 8" using False by simp
  then have "(i + 8 - q) mod 8 = (i - q) mod 8" by (simp only: mod_add_self2)
  then have "(i + 8 - q) mod 8 = i - q" using i by (simp only: mod_less less_imp_diff_less)
  then show ?thesis using False i by (simp only: le_add_diff_inverse2 not_less mod_less)
qed (simp add: mod_if)

lemma prio_rank: "k < 8 \<Longrightarrow> prio_irq p (rank p k) = k"
  using rotate_forth [of k "unat (priority p) mod 8"]
  by (simp add: rank_def prio_irq_eq mod_add_right_eq)

lemma rank_prio: "i < 8 \<Longrightarrow> rank p (prio_irq p i) = i"
  using rotate_back [of i "unat (priority p) mod 8"]
  by (simp add: rank_def prio_irq_eq mod_add_right_eq)

lemma all_prio:
  assumes n: "n \<le> 8"
  shows "(\<forall>i < n. P (prio_irq p i)) \<longleftrightarrow> (\<forall>k < 8. rank p k < n \<longrightarrow> P k)"
proof (intro iffI allI impI)
  fix k assume "\<forall>i < n. P (prio_irq p i)" "k < 8" "rank p k < n"
  then have "P (prio_irq p (rank p k))" by blast
  then show "P k" using prio_rank [OF \<open>k < 8\<close>] by simp
next
  fix i assume a: "\<forall>k < 8. rank p k < n \<longrightarrow> P k" "i < n"
  then have "rank p (prio_irq p i) = i" using n by (intro rank_prio) simp
  then show "P (prio_irq p i)" using a by simp
qed

lemma find_upt:
  "find P [0..<n] = Some i \<longleftrightarrow> i < n \<and> P i \<and> (\<forall>i' < i. \<not> P i')"
  by (auto simp: find_Some_iff)

text \<open>A search along the priorities finds the line of least rank.\<close>

lemma find_prio:
  "find (\<lambda>i. P (prio_irq p i)) [0..<8] = Some i \<longleftrightarrow>
     i < 8 \<and> P (prio_irq p i) \<and> (\<forall>k < 8. rank p k < rank p (prio_irq p i) \<longrightarrow> \<not> P k)"
  using all_prio [of i "\<lambda>k. \<not> P k" p] rank_prio [of i p] by (auto simp: find_upt)

lemma ex_prio: "(\<exists>i < 8. Q (prio_irq p i) \<and> j = prio_irq p i) \<longleftrightarrow> j < 8 \<and> Q j"
  using prio_rank [of j p] rank_less [of p j] by (metis prio_irq_less)

lemma case_find_Some:
  "(case r of None \<Rightarrow> None | Some i \<Rightarrow> if b i then None else Some (g i)) = Some j \<longleftrightarrow>
     (\<exists>i. r = Some i \<and> \<not> b i \<and> g i = j)"
  by (auto split: option.splits)

lemma best_scan_find:
  "best_scan p is = (case find (\<lambda>i. bit (isr p) (prio_irq p i) \<or>
       (state p = STATE_NONE \<and> requested p (prio_irq p i))) is of
     None \<Rightarrow> None | Some i \<Rightarrow> if bit (isr p) (prio_irq p i) then None else Some (prio_irq p i))"
  by (induction "is") (auto simp: Let_def mask_bits requested_def bit_simps)

text \<open>The resolver delivers the best request that no service of at least its rank blocks.\<close>

lemma best_scan_Some:
  "best_scan p [0..<8] = Some j \<longleftrightarrow>
     j < 8 \<and> state p = STATE_NONE \<and> requested p j \<and>
     (\<forall>k < 8. rank p k \<le> rank p j \<longrightarrow> \<not> bit (isr p) k) \<and>
     (\<forall>k < 8. rank p k < rank p j \<longrightarrow> \<not> requested p k)"
proof -
  let ?P = "\<lambda>k. bit (isr p) k \<or> (state p = STATE_NONE \<and> requested p k)"
  have "best_scan p [0..<8] = Some j \<longleftrightarrow>
     (\<exists>i < 8. (?P (prio_irq p i) \<and> (\<forall>k < 8. rank p k < rank p (prio_irq p i) \<longrightarrow> \<not> ?P k) \<and>
        \<not> bit (isr p) (prio_irq p i)) \<and> j = prio_irq p i)"
    unfolding best_scan_find case_find_Some find_prio [of ?P p] by blast
  also have "\<dots> \<longleftrightarrow> j < 8 \<and> ?P j \<and> (\<forall>k < 8. rank p k < rank p j \<longrightarrow> \<not> ?P k) \<and> \<not> bit (isr p) j"
    by (rule ex_prio)
  also have "\<dots> \<longleftrightarrow> (j < 8 \<and> state p = STATE_NONE \<and> requested p j \<and>
     (\<forall>k < 8. rank p k \<le> rank p j \<longrightarrow> \<not> bit (isr p) k) \<and>
     (\<forall>k < 8. rank p k < rank p j \<longrightarrow> \<not> requested p k))"
    using prio_rank [of _ p] by (auto simp: le_less) metis
  finally show ?thesis .
qed

lemma non_specific_find:
  "non_specific_scan p is = map_option (prio_irq p) (find (\<lambda>i. bit (isr p) (prio_irq p i) \<and>
       \<not> (special_mask_mode p \<and> bit (imr p) (prio_irq p i))) is)"
  by (induction "is") (auto simp: Let_def mask_bits)

lemma non_specific_Some:
  "pic_non_specific_find p = Some j \<longleftrightarrow>
     j < 8 \<and> bit (isr p) j \<and> \<not> (special_mask_mode p \<and> bit (imr p) j) \<and>
     (\<forall>k < 8. rank p k < rank p j \<longrightarrow> bit (isr p) k \<longrightarrow> special_mask_mode p \<and> bit (imr p) k)"
proof -
  let ?P = "\<lambda>k. bit (isr p) k \<and> \<not> (special_mask_mode p \<and> bit (imr p) k)"
  have "pic_non_specific_find p = Some j \<longleftrightarrow>
     (\<exists>i < 8. (?P (prio_irq p i) \<and> (\<forall>k < 8. rank p k < rank p (prio_irq p i) \<longrightarrow> \<not> ?P k))
        \<and> j = prio_irq p i)"
    unfolding pic_non_specific_find_def non_specific_find map_option_eq_Some find_prio [of ?P p]
    by blast
  also have "\<dots> \<longleftrightarrow> j < 8 \<and> ?P j \<and> (\<forall>k < 8. rank p k < rank p j \<longrightarrow> \<not> ?P k)"
    by (rule ex_prio)
  finally show ?thesis by blast
qed

section \<open>What a resolution changes\<close>

definition resolve :: "pic_t \<Rightarrow> pic_t" where
  "resolve p = p\<lparr>interrupt := (case best_scan p [0..<8] of None \<Rightarrow> 0x17 | Some j \<Rightarrow> word_of_nat j),
     int_pending := (best_scan p [0..<8] \<noteq> None)\<rparr>"

lemma resolve_fields [simp]:
  "icw1 (resolve p) = icw1 p" "icw2 (resolve p) = icw2 p" "icw3 (resolve p) = icw3 p"
  "icw4 (resolve p) = icw4 p" "imr (resolve p) = imr p" "isr (resolve p) = isr p"
  "irr (resolve p) = irr p" "ocw2 (resolve p) = ocw2 p" "ocw3 (resolve p) = ocw3 p"
  "is_master (resolve p) = is_master p" "elcr (resolve p) = elcr p" "state (resolve p) = state p"
  "ack_bytes (resolve p) = ack_bytes p" "priority (resolve p) = priority p"
  "special_mask_mode (resolve p) = special_mask_mode p" "data_bus (resolve p) = data_bus p"
  "auto_eoi_rotate (resolve p) = auto_eoi_rotate p" "lines (resolve p) = lines p"
  "is_at (resolve p) = is_at p" "slaves (resolve p) = slaves p"
  by (simp_all add: resolve_def)

definition frozen :: "pics \<Rightarrow> bool" where
  "frozen s \<longleftrightarrow> interrupt (pic s) AND 0x20 \<noteq> 0"

definition cascade :: "pic_t \<Rightarrow> pic_t \<Rightarrow> pic_t" where
  "cascade sl m = (let b = push_bit (unat (icw3 sl)) 1 in
     m\<lparr>irr := (if int_pending (resolve sl) then irr m OR b else irr m AND NOT b)\<rparr>)"

text \<open>Fields no resolution writes.\<close>

definition globals_eq :: "pics \<Rightarrow> pics \<Rightarrow> bool" where
  "globals_eq s s' \<longleftrightarrow> shadow s' = shadow s \<and> elcr_enabled s' = elcr_enabled s \<and>
     update_at s' = update_at s \<and> pic_pci s' = pic_pci s \<and> is286 s' = is286 s \<and>
     pit1_present s' = pit1_present s \<and> smi_irq_status s' = smi_irq_status s \<and>
     smi_irq_mask s' = smi_irq_mask s \<and> latched_irqs s' = latched_irqs s"

lemma set_pending_pics:
  "pic (set_pending PIC1 s) = resolve (pic s)" "pic2 (set_pending PIC1 s) = pic2 s"
  "pic (set_pending PIC2 s) = pic s" "pic2 (set_pending PIC2 s) = resolve (pic2 s)"
  "globals_eq s (set_pending d s)"
  by (cases d; auto simp: set_pending_def find_best_interrupt_def Let_def resolve_def
      globals_eq_def emit_def split: option.split)+

lemma update_frozen [simp]: "frozen s \<Longrightarrow> update_pending s = s"
  by (simp add: frozen_def update_pending_def pic_update_pending_at_def pic_update_pending_xt_def)

lemma update_xt:
  "\<not> frozen s \<Longrightarrow> \<not> update_at s \<Longrightarrow>
     pic (update_pending s) = resolve (pic s) \<and> pic2 (update_pending s) = pic2 s"
  by (simp add: frozen_def update_pending_def pic_update_pending_xt_def set_pending_pics)

lemma update_at_pics:
  "\<not> frozen s \<Longrightarrow> update_at s \<Longrightarrow>
     pic (update_pending s) = resolve (cascade (pic2 s) (pic s)) \<and>
     pic2 (update_pending s) = resolve (pic2 s)"
  by (simp add: frozen_def update_pending_def pic_update_pending_at_def set_pending_pics Let_def cascade_def)

lemma globals_eq_refl [simp]: "globals_eq s s"
  by (simp add: globals_eq_def)

lemma globals_eq_trans: "globals_eq r s \<Longrightarrow> globals_eq s t \<Longrightarrow> globals_eq r t"
  by (simp add: globals_eq_def)

lemma globals_eq_mod: "globals_eq s (mod_pic d f s)"
  by (cases d) (simp_all add: globals_eq_def)

lemma update_globals: "globals_eq s (update_pending s)"
proof (cases "frozen s")
  case False
  have "globals_eq s (pic_update_pending_at s)"
    using False unfolding pic_update_pending_at_def frozen_def Let_def
    by (auto simp del: mod_pic_simps intro: globals_eq_trans [OF globals_eq_trans [OF set_pending_pics(5) globals_eq_mod]
          set_pending_pics(5)])
  moreover have "globals_eq s (pic_update_pending_xt s)"
    using set_pending_pics(5) [of s PIC1] by (simp add: pic_update_pending_xt_def)
  ultimately show ?thesis by (simp add: update_pending_def)
qed simp

lemma pic_update:
  "pic (update_pending s) = (if frozen s then pic s
     else if update_at s then resolve (cascade (pic2 s) (pic s)) else resolve (pic s))"
  "pic2 (update_pending s) = (if frozen s \<or> \<not> update_at s then pic2 s else resolve (pic2 s))"
  by (cases "frozen s"; simp add: update_xt update_at_pics)+

lemma cascade_fields [simp]:
  "icw1 (cascade q p) = icw1 p" "icw2 (cascade q p) = icw2 p" "icw3 (cascade q p) = icw3 p"
  "icw4 (cascade q p) = icw4 p" "imr (cascade q p) = imr p" "isr (cascade q p) = isr p"
  "ocw2 (cascade q p) = ocw2 p" "ocw3 (cascade q p) = ocw3 p"
  "is_master (cascade q p) = is_master p" "elcr (cascade q p) = elcr p" "state (cascade q p) = state p"
  "ack_bytes (cascade q p) = ack_bytes p" "priority (cascade q p) = priority p"
  "special_mask_mode (cascade q p) = special_mask_mode p" "data_bus (cascade q p) = data_bus p"
  "auto_eoi_rotate (cascade q p) = auto_eoi_rotate p" "lines (cascade q p) = lines p"
  "is_at (cascade q p) = is_at p" "slaves (cascade q p) = slaves p"
  by (simp_all add: cascade_def Let_def)

text \<open>Fields of either controller that no resolution writes.\<close>

lemma update_fields:
  "isr (pic (update_pending s)) = isr (pic s)" "isr (pic2 (update_pending s)) = isr (pic2 s)"
  "imr (pic (update_pending s)) = imr (pic s)" "imr (pic2 (update_pending s)) = imr (pic2 s)"
  "icw2 (pic (update_pending s)) = icw2 (pic s)" "icw2 (pic2 (update_pending s)) = icw2 (pic2 s)"
  "ack_bytes (pic (update_pending s)) = ack_bytes (pic s)"
  "lines (pic (update_pending s)) = lines (pic s)" "lines (pic2 (update_pending s)) = lines (pic2 s)"
  "state (pic (update_pending s)) = state (pic s)" "state (pic2 (update_pending s)) = state (pic2 s)"
  "irr (pic2 (update_pending s)) = irr (pic2 s)"
  "priority (pic (update_pending s)) = priority (pic s)" "data_bus (pic (update_pending s)) = data_bus (pic s)"
  "icw1 (pic (update_pending s)) = icw1 (pic s)" "icw3 (pic (update_pending s)) = icw3 (pic s)"
  "icw4 (pic (update_pending s)) = icw4 (pic s)" "ocw2 (pic (update_pending s)) = ocw2 (pic s)"
  "special_mask_mode (pic (update_pending s)) = special_mask_mode (pic s)"
  "elcr (pic (update_pending s)) = elcr (pic s)" "slaves (pic (update_pending s)) = slaves (pic s)"
  "is_master (pic (update_pending s)) = is_master (pic s)" "is_at (pic (update_pending s)) = is_at (pic s)"
  "icw3 (pic2 (update_pending s)) = icw3 (pic2 s)" "elcr (pic2 (update_pending s)) = elcr (pic2 s)"
  "icw1 (pic2 (update_pending s)) = icw1 (pic2 s)" "icw4 (pic2 (update_pending s)) = icw4 (pic2 s)"
  by (simp_all add: pic_update)

lemma update_irr_other:
  "unat (icw3 (pic2 s)) \<noteq> k \<Longrightarrow> bit (irr (pic (update_pending s))) k = bit (irr (pic s)) k"
  by (auto simp: pic_update cascade_def Let_def bit_simps dest: bit_imp_le_length)

section \<open>The acknowledge cycles\<close>

lemma low_interrupt:
  fixes w :: u8
  assumes "w < 8"
  shows "w AND 7 = w" "w AND 0x40 = 0" "w AND 0x20 = 0" "(w OR 0x20) AND 0x40 = 0"
    "(w OR 0x20) AND 7 = w" "(w OR 0x20) AND 0x20 \<noteq> 0" "(w OR 0x40) AND 7 = w"
    "(w OR 0x40) AND 0x40 \<noteq> 0" "(w OR 0x40 OR 0x20) AND 0x40 \<noteq> 0"
    "(w OR 0x40 OR 0x20) AND 7 = w" "(w OR 0x40 OR 0x20) AND 0x20 \<noteq> 0" "w OR 0x40 \<noteq> 0" "w < 32"
proof -
  have "unat w \<in> {0..<8}" using assms by (simp add: word_less_nat_alt)
  then have "unat w \<in> set [0..<8]" by simp
  then have "w = 0 \<or> w = 1 \<or> w = 2 \<or> w = 3 \<or> w = 4 \<or> w = 5 \<or> w = 6 \<or> w = 7"
    by (auto simp: upt_conv_Cons word_unat_eq_iff)
  then show "w AND 7 = w" "w AND 0x40 = 0" "w AND 0x20 = 0" "(w OR 0x20) AND 0x40 = 0"
    "(w OR 0x20) AND 7 = w" "(w OR 0x20) AND 0x20 \<noteq> 0" "(w OR 0x40) AND 7 = w"
    "(w OR 0x40) AND 0x40 \<noteq> 0" "(w OR 0x40 OR 0x20) AND 0x40 \<noteq> 0"
    "(w OR 0x40 OR 0x20) AND 7 = w" "(w OR 0x40 OR 0x20) AND 0x20 \<noteq> 0" "w OR 0x40 \<noteq> 0" "w < 32"
    by (elim disjE; simp)+
qed


lemma ack_leaf0:
  assumes "interrupt (pic_of d s) < 8"
  shows "ack_read (Suc k) (Some d) 0 s =
    (let v = (if pic_i86_mode (pic_of d s) then 0xff else 0xcd) in
     Inr (v, mod_pic d (\<lambda>p. p\<lparr>data_bus := v\<rparr>)
       (pic_acknowledge d (mod_pic d (\<lambda>p. p\<lparr>interrupt := interrupt p OR 0x20\<rparr>) s))))"
  using low_interrupt [OF assms] by (simp add: Let_def)

lemma ack_leaf1:
  assumes "interrupt (pic_of d s) AND 0x40 = 0" "pic_i86_mode (pic_of d s)" "icw4 (pic_of d s) AND 2 = 0"
  shows "ack_read (Suc k) (Some d) (Suc 0) s =
    (let v = (interrupt (pic_of d s) AND 7) + (icw2 (pic_of d s) AND 0xf8) in
     Inr (v, mod_pic d (\<lambda>p. p\<lparr>int_pending := False, data_bus := v\<rparr>) s))"
  using assms by (cases d) (simp_all add: Let_def pic_auto_non_specific_eoi_def)

lemma bind_sub0:
  assumes "interrupt (pic_of d s) = w OR 0x40" "w < 8"
  shows "ack_read (Suc k) (Some d) 0 s =
    bindE (ack_read k (slaves (pic_of d s) ! unat w) 0
       (pic_acknowledge d (mod_pic d (\<lambda>p. p\<lparr>interrupt := interrupt p OR 0x20\<rparr>) s)))
      (\<lambda>(v, s'). Inr (v, mod_pic d (\<lambda>p. p\<lparr>data_bus := v\<rparr>) s'))"
  using low_interrupt [OF assms(2)] assms(1)
  by (cases d) (simp_all add: Let_def pic_acknowledge_def)

lemma bind_sub1:
  assumes "interrupt (pic_of d s) AND 7 = w" "interrupt (pic_of d s) AND 0x40 \<noteq> 0"
    "pic_i86_mode (pic_of d s)"
  shows "ack_read (Suc k) (Some d) (Suc 0) s =
    bindE (bindE (ack_read k (slaves (pic_of d s) ! unat w) (Suc 0)
       (mod_pic d (\<lambda>p. p\<lparr>int_pending := False\<rparr>) s))
      (\<lambda>(v, s'). Inr (v, mod_pic d (\<lambda>p. p\<lparr>data_bus := v\<rparr>) s')))
      (\<lambda>(v, s'). let s'' = pic_auto_non_specific_eoi d s' in Inr (data_bus (pic_of d s''), s''))"
  using assms by (cases d) (simp_all add: Let_def)

section \<open>Delivery\<close>

text \<open>A master and slave set up as on an AT: cascaded, 8086 mode, no automatic end of interrupt.\<close>

definition at_ready :: "pics \<Rightarrow> bool" where
  "at_ready s \<longleftrightarrow> update_at s \<and> is_master (pic s) \<and> pic_cascade_mode (pic s) \<and> icw3 (pic s) = 4 \<and>
     slaves (pic s) ! 2 = Some PIC2 \<and> icw3 (pic2 s) = 2 \<and>
     pic_i86_mode (pic s) \<and> pic_i86_mode (pic2 s) \<and> icw4 (pic s) AND 2 = 0 \<and>
     icw4 (pic2 s) AND 2 = 0 \<and> ack_bytes (pic s) = 0"

text \<open>The effect of an acknowledge on the registers.\<close>

lemma acknowledge_eq:
  "pic_acknowledge d s = mod_pic d (\<lambda>p. let n = unat (interrupt p AND 7) in
     p\<lparr>isr := isr p OR push_bit n 1,
       irr := (if \<not> pic_level_triggered d n s \<or> lines p ! n = 0
               then irr p AND NOT (push_bit n 1) else irr p)\<rparr>) s"
proof -
  have "pic_level_triggered d n (mod_pic d (isr_update f) s) = pic_level_triggered d n s" for n f
    by (cases d) (simp_all add: pic_level_triggered_def)
  then show ?thesis
    by (cases d) (auto simp: pic_acknowledge_def Let_def)
qed

lemma ack_cycle_master:
  assumes "ack_bytes (pic s) = 0" "interrupt (pic s) = w" "w < 8" "pic_i86_mode (pic s)"
  shows "ack_cycle s = Inr (0xff, mod_pic PIC1 (\<lambda>p. p\<lparr>data_bus := 0xff, ack_bytes := 1\<rparr>)
     (pic_acknowledge PIC1 (mod_pic PIC1 (\<lambda>p. p\<lparr>interrupt := w OR 0x20\<rparr>) s)))"
  using assms
  by (simp add: ack_cycle_def pic_irq_ack_read_def numeral_3_eq_3 ack_leaf0 acknowledge_eq Let_def
      pic_i86_mode_def del: ack_read.simps)

section \<open>The two cycles together\<close>

lemma ack_cycle_vector:
  assumes "ack_bytes (pic s) = 1" "interrupt (pic s) = w OR 0x20" "w < 8" "pic_i86_mode (pic s)"
    "icw4 (pic s) AND 2 = 0"
  shows "ack_cycle s = (let v = w + (icw2 (pic s) AND 0xf8) in
    Inr (v, update_pending (mod_pic PIC1 (\<lambda>p. p\<lparr>int_pending := False, data_bus := v,
      ack_bytes := 0, interrupt := 0x17\<rparr>) s)))"
  using assms low_interrupt [OF assms(3)]
  by (simp add: ack_cycle_def pic_irq_ack_read_def numeral_3_eq_3 ack_leaf1 Let_def
      pic_i86_mode_def del: ack_read.simps)

definition acked :: "pic_ref \<Rightarrow> nat \<Rightarrow> pics \<Rightarrow> pic_t \<Rightarrow> pic_t" where
  "acked d n s p = p\<lparr>isr := isr p OR push_bit n 1,
     irr := (if \<not> pic_level_triggered d n s \<or> lines p ! n = 0
             then irr p AND NOT (push_bit n 1) else irr p)\<rparr>"

lemma acked_fields [simp]:
  "isr (acked d n s p) = isr p OR push_bit n 1" "icw1 (acked d n s p) = icw1 p"
  "icw2 (acked d n s p) = icw2 p" "icw3 (acked d n s p) = icw3 p" "icw4 (acked d n s p) = icw4 p"
  "imr (acked d n s p) = imr p" "priority (acked d n s p) = priority p"
  "special_mask_mode (acked d n s p) = special_mask_mode p" "interrupt (acked d n s p) = interrupt p"
  "slaves (acked d n s p) = slaves p" "state (acked d n s p) = state p" "lines (acked d n s p) = lines p"
  "elcr (acked d n s p) = elcr p" "ack_bytes (acked d n s p) = ack_bytes p"
  "is_master (acked d n s p) = is_master p"
  by (simp_all add: acked_def)

lemma bit_irr_acked:
  "bit (irr (acked d n s p)) k \<longleftrightarrow>
     bit (irr p) k \<and> (k = n \<longrightarrow> pic_level_triggered d n s \<and> lines p ! n \<noteq> 0)"
  by (auto simp: acked_def bit_simps dest: bit_imp_le_length)

definition gate_event :: "pics \<Rightarrow> pics" where
  "gate_event s = (if interrupt (pic s) = 0 \<and> pit1_present s then emit [Pit1SetGate0] s else s)"

lemma gate_event_simps [simp]:
  "pic (gate_event s) = pic s" "pic2 (gate_event s) = pic2 s" "update_at (gate_event s) = update_at s"
  "elcr_enabled (gate_event s) = elcr_enabled s"
  by (simp_all add: gate_event_def)

lemma level_cong:
  assumes "elcr_enabled s' = elcr_enabled s" "elcr (pic_of d s') = elcr (pic_of d s)"
    "icw1 (pic_of d s') = icw1 (pic_of d s)"
  shows "pic_level_triggered d n s' = pic_level_triggered d n s"
  using assms by (simp add: pic_level_triggered_def)

lemma acked_cong:
  "pic_level_triggered d n s' = pic_level_triggered d n s \<Longrightarrow> acked d n s' = acked d n s"
  by (simp add: acked_def fun_eq_iff)

lemma picinterrupt_master:
  assumes "at_ready s" "int_pending (pic s)" "interrupt (pic s) = w" "w < 8" "w \<noteq> 2"
  shows "picinterrupt s = (let v = w + (icw2 (pic s) AND 0xf8) in
    Inr (v, update_pending (mod_pic PIC1 (\<lambda>p. (acked PIC1 (unat w) s p)\<lparr>interrupt := 0x17,
      int_pending := False, data_bus := v, ack_bytes := 0\<rparr>) (gate_event s))))"
proof -
  note low = low_interrupt [OF assms(4)]
  have "unat w \<noteq> 2" using assms(5) by (simp add: word_unat_eq_iff)
  then have "(4 :: u32) AND push_bit (unat w) 1 = 0"
    using and_exp_eq_0_iff_not_bit [of "4::u32" "unat w"] bit_push_bit_one [of 2 "unat w", where ?'a = 32]
    by simp
  then have on: "pic_slave_on (pic s) w = Inr False"
    using assms low by (simp add: pic_slave_on_def at_ready_def flip: not_less)
  let ?s1 = "mod_pic PIC1 (\<lambda>p. p\<lparr>data_bus := 0xff, ack_bytes := 1\<rparr>)
     (pic_acknowledge PIC1 (mod_pic PIC1 (\<lambda>p. p\<lparr>interrupt := w OR 0x20\<rparr>) (gate_event s)))"
  have c1: "ack_cycle (gate_event s) = Inr (0xff, ?s1)"
    using assms by (intro ack_cycle_master) (simp_all add: at_ready_def)
  have lv: "pic_level_triggered PIC1 n (gate_event s\<lparr>pic := x\<rparr>) = pic_level_triggered PIC1 n s"
    if "elcr x = elcr (pic s)" "icw1 x = icw1 (pic s)" for n x
    using that by (simp add: pic_level_triggered_def)
  have c2: "ack_cycle ?s1 = (let v = w + (icw2 (pic s) AND 0xf8) in
    Inr (v, update_pending (mod_pic PIC1 (\<lambda>p. p\<lparr>int_pending := False, data_bus := v,
      ack_bytes := 0, interrupt := 0x17\<rparr>) ?s1)))"
    using assms low by (subst ack_cycle_vector) (simp_all add: at_ready_def acknowledge_eq Let_def pic_i86_mode_def)
  have "picinterrupt s = bindE (ack_cycle (gate_event s)) (\<lambda>(_, s3). ack_cycle s3)"
    using assms on by (simp add: picinterrupt_def gate_event_def)
  then have "picinterrupt s = ack_cycle ?s1" unfolding c1 by simp
  moreover have "mod_pic PIC1 (\<lambda>p. p\<lparr>int_pending := False, data_bus := v,
      ack_bytes := 0, interrupt := 0x17\<rparr>) ?s1 = mod_pic PIC1 (\<lambda>p. (acked PIC1 (unat w) s p)\<lparr>interrupt := 0x17,
      int_pending := False, data_bus := v, ack_bytes := 0\<rparr>) (gate_event s)" for v
    using low by (simp add: acknowledge_eq acked_def lv Let_def)
  ultimately show ?thesis by (simp only: c2 Let_def)
qed

lemma pic_word_numerals:
  "(0x42::u8) AND 7 = 2" "(0x62::u8) AND 7 = 2" "(0x62::u8) AND 0x40 \<noteq> 0" "(2::u8) OR 0x40 = 0x42"
  "(0x42::u8) OR 0x20 = 0x62" "unat (2::u8) = 2" "(0x42::u8) = 2 OR 0x40"
  by simp_all

text \<open>The states between the two cycles of a slave's interrupt, and after them.\<close>

definition slave_mid :: "u8 \<Rightarrow> pics \<Rightarrow> pics" where
  "slave_mid w s = s\<lparr>
     pic := (acked PIC1 2 s (pic s))\<lparr>interrupt := 0x62, data_bus := 0xff, ack_bytes := 1\<rparr>,
     pic2 := (acked PIC2 (unat w) s (pic2 s))\<lparr>interrupt := w OR 0x20, data_bus := 0xff\<rparr>\<rparr>"

definition slave_end :: "u8 \<Rightarrow> u8 \<Rightarrow> pics \<Rightarrow> pics" where
  "slave_end w v s = s\<lparr>
     pic2 := (acked PIC2 (unat w) s (pic2 s))\<lparr>int_pending := False, data_bus := v, interrupt := 0x17\<rparr>,
     pic := (acked PIC1 2 s (pic s))\<lparr>int_pending := False, data_bus := v, ack_bytes := 0,
        interrupt := 0x17\<rparr>\<rparr>"

lemma ack_cycle_slave0:
  assumes "at_ready s" "interrupt (pic s) = 2" "interrupt (pic2 s) = w" "w < 8"
  shows "ack_cycle (mark_slave s) = Inr (0xff, slave_mid w s)"
proof -
  note low = low_interrupt [OF assms(4)]
  let ?m = "mod_pic PIC1 (\<lambda>p. p\<lparr>interrupt := 0x62\<rparr>) s"
  have ms: "mark_slave s = mod_pic PIC1 (\<lambda>p. p\<lparr>interrupt := 0x42\<rparr>) s"
    using assms(2) by (simp add: mark_slave_def)
  have lv: "pic_level_triggered PIC1 n (s\<lparr>pic := x, pic2 := y\<rparr>) = pic_level_triggered PIC1 n s"
      "pic_level_triggered PIC2 n (s\<lparr>pic := x, pic2 := y\<rparr>) = pic_level_triggered PIC2 n s"
      "pic_level_triggered PIC1 n (s\<lparr>pic := x\<rparr>) = pic_level_triggered PIC1 n s"
      "pic_level_triggered PIC2 n (s\<lparr>pic := x\<rparr>) = pic_level_triggered PIC2 n s"
    if "elcr x = elcr (pic s)" "icw1 x = icw1 (pic s)" "elcr y = elcr (pic2 s)" "icw1 y = icw1 (pic2 s)" for n x y
    using that by (simp_all add: pic_level_triggered_def)
  have a1: "pic_acknowledge PIC1 (mod_pic PIC1 (\<lambda>p. p\<lparr>interrupt := interrupt p OR 0x20\<rparr>) (mark_slave s)) =
      mod_pic PIC1 (\<lambda>p. (acked PIC1 2 s p)\<lparr>interrupt := 0x62\<rparr>) s"
    by (simp add: ms acknowledge_eq Let_def acked_def lv [where y = "pic2 s"])
  have a2: "ack_read 2 (Some PIC2) 0 (mod_pic PIC1 (\<lambda>p. (acked PIC1 2 s p)\<lparr>interrupt := 0x62\<rparr>) s) =
      Inr (0xff, s\<lparr>pic := (acked PIC1 2 s (pic s))\<lparr>interrupt := 0x62\<rparr>,
        pic2 := (acked PIC2 (unat w) s (pic2 s))\<lparr>interrupt := w OR 0x20, data_bus := 0xff\<rparr>\<rparr>)"
    using assms low
    by (simp add: numeral_2_eq_2 ack_leaf0 at_ready_def Let_def acknowledge_eq lv del: ack_read.simps)
      (simp add: acked_def)
  have "ack_read 3 (Some PIC1) 0 (mark_slave s) = Inr (0xff, s\<lparr>
       pic := (acked PIC1 2 s (pic s))\<lparr>interrupt := 0x62, data_bus := 0xff\<rparr>,
       pic2 := (acked PIC2 (unat w) s (pic2 s))\<lparr>interrupt := w OR 0x20, data_bus := 0xff\<rparr>\<rparr>)"
    using assms(1) bind_sub0 [of PIC1 "mark_slave s" 2 2] a1 a2
    by (simp add: numeral_3_eq_3 ms at_ready_def del: ack_read.simps mod_pic_simps)
      (simp add: numeral_2_eq_2 del: ack_read.simps)
  then show ?thesis
    using assms(1) by (simp add: ack_cycle_def pic_irq_ack_read_def at_ready_def ms Let_def slave_mid_def
        pic_i86_mode_def)
qed

section \<open>Delivery through the slave\<close>

lemma ack_cycle_slave_vector:
  assumes "ack_bytes (pic s) = 1" "interrupt (pic s) = 0x62" "slaves (pic s) ! 2 = Some PIC2" "pic_i86_mode (pic s)"
    "icw4 (pic s) AND 2 = 0" "interrupt (pic2 s) = w OR 0x20" "w < 8" "pic_i86_mode (pic2 s)" "icw4 (pic2 s) AND 2 = 0"
  shows "ack_cycle s = (let v = w + (icw2 (pic2 s) AND 0xf8) in Inr (v, update_pending (s\<lparr>
     pic2 := (pic2 s)\<lparr>int_pending := False, data_bus := v, interrupt := 0x17\<rparr>,
     pic := (pic s)\<lparr>int_pending := False, data_bus := v, ack_bytes := 0, interrupt := 0x17\<rparr>\<rparr>)))"
proof -
  note low = low_interrupt [OF assms(7)]
  let ?s = "mod_pic PIC1 (\<lambda>p. p\<lparr>int_pending := False\<rparr>) s"
  define v where "v = w + (icw2 (pic2 s) AND 0xf8)"
  have sub: "ack_read (Suc (Suc 0)) (Some PIC2) (Suc 0) ?s =
      Inr (v, mod_pic PIC2 (\<lambda>p. p\<lparr>int_pending := False, data_bus := v\<rparr>) ?s)"
    using assms low by (subst ack_leaf1) (simp_all add: Let_def v_def)
  have "ack_read (Suc (Suc (Suc 0))) (Some PIC1) (Suc 0) s =
    bindE (bindE (ack_read (Suc (Suc 0)) (Some PIC2) (Suc 0) ?s)
      (\<lambda>(v, s'). Inr (v, mod_pic PIC1 (\<lambda>p. p\<lparr>data_bus := v\<rparr>) s')))
      (\<lambda>(v, s'). let s'' = pic_auto_non_specific_eoi PIC1 s' in Inr (data_bus (pic_of PIC1 s''), s''))"
    using bind_sub1 [of PIC1 s 2 "Suc (Suc 0)"] assms(2-4) by (simp del: ack_read.simps)
  then have "ack_read 3 (Some PIC1) (Suc 0) s = Inr (v, mod_pic PIC1 (\<lambda>p. p\<lparr>data_bus := v\<rparr>)
      (mod_pic PIC2 (\<lambda>p. p\<lparr>int_pending := False, data_bus := v\<rparr>) ?s))"
    using assms(5) unfolding sub numeral_3_eq_3
    by (simp add: Let_def pic_auto_non_specific_eoi_def del: ack_read.simps)
  then show ?thesis
    using assms by (simp add: ack_cycle_def pic_irq_ack_read_def Let_def pic_i86_mode_def flip: v_def)
qed

lemma ack_cycle_slave1:
  assumes "at_ready s" "interrupt (pic s) = 2" "interrupt (pic2 s) = w" "w < 8"
  shows "ack_cycle (slave_mid w s) = (let v = w + (icw2 (pic2 s) AND 0xf8) in
    Inr (v, update_pending (slave_end w v s)))"
  using assms(1,4) by (subst ack_cycle_slave_vector [where w = w])
    (simp_all add: at_ready_def slave_mid_def slave_end_def pic_i86_mode_def)

lemma picinterrupt_slave:
  assumes "at_ready s" "int_pending (pic s)" "interrupt (pic s) = 2"
    "int_pending (pic2 s)" "interrupt (pic2 s) = w" "w < 8"
  shows "picinterrupt s = (let v = w + (icw2 (pic2 s) AND 0xf8) in
    Inr (v, update_pending (slave_end w v s)))"
proof -
  have "(4 :: u32) AND push_bit (unat (2::u8)) 1 \<noteq> 0" by simp
  then have "picinterrupt s = bindE (ack_cycle (mark_slave s)) (\<lambda>(_, s3). ack_cycle s3)"
    using assms
    by (simp add: picinterrupt_def pic_slave_on_def at_ready_def slave_of_def Let_def)
      (simp add: mark_slave_def)
  then show ?thesis
    using ack_cycle_slave0 [OF assms(1,3,5,6)] ack_cycle_slave1 [OF assms(1,3,5,6)] by simp
qed

section \<open>Shared level-triggered lines\<close>

lemma level_scan_append:
  "level_scan (xs @ ys) num chg up ls s =
     (case level_scan xs num chg up ls s of (ls', s') \<Rightarrow> level_scan ys num chg up ls' s')"
  by (induction xs arbitrary: ls s) (auto simp: Let_def)

lemma push_bit_and_push_bit:
  "(push_bit n (1::'a::len word) AND push_bit i 1 = 0) \<longleftrightarrow> \<not> (i = n \<and> n < LENGTH('a))"
  by (simp only: and_push_bit_eq_0 bit_push_bit_one)

lemma level_scan_skip:
  "n \<notin> set xs \<Longrightarrow> level_scan xs (push_bit n 1) chg up ls s = (ls, s)"
  by (induction xs) (auto simp: push_bit_and_push_bit simp del: push_bit_of_1)

lemma route_slaves_skip:
  "(\<And>i. i \<in> set xs \<Longrightarrow> bit (icw3 m) i \<Longrightarrow> i \<noteq> n) \<Longrightarrow>
     fst (route_slaves m xs (push_bit n 1) k) = push_bit n 1"
proof (induction xs arbitrary: k)
  case (Cons i xs)
  then show ?case
    by (auto simp: Let_def push_bit_and_push_bit and_push_bit_eq_0 simp del: push_bit_of_1)
qed simp

text \<open>The controller of a line, and its number there.\<close>

definition line_pic :: "nat \<Rightarrow> pic_ref" where
  "line_pic n = (if n < 8 then PIC1 else PIC2)"

definition level_bump :: "nat \<Rightarrow> bool \<Rightarrow> bool \<Rightarrow> pics \<Rightarrow> pics" where
  "level_bump n chg up s = (if chg then mod_pic (line_pic n) (\<lambda>p. p\<lparr>lines := (lines p)[n mod 8 :=
     (if up then lines p ! (n mod 8) + 1 else lines p ! (n mod 8) - 1)]\<rparr>) s else s)"

lemma level_scan_one:
  assumes "n < 16" "n < m"
  shows "level_scan [0..<m] (push_bit n 1) chg up 0 s =
    (let s1 = level_bump n chg up s in
     (if \<not> pic_level_triggered (line_pic n) (n mod 8) s1
        \<or> (chg \<and> lines (pic_of (line_pic n) s1) ! (n mod 8) = (if up then 1 else 0))
      then push_bit n 1 else 0, s1))"
proof -
  have "[0..<m] = [0..<n] @ n # [Suc n..<m]"
    using assms by (metis le0 less_imp_le upt_add_eq_append upt_conv_Cons le_add_diff_inverse2 add_0 le_add_diff_inverse)
  then show ?thesis
    using assms by (simp add: level_scan_append level_scan_skip Let_def push_bit_and_push_bit level_bump_def line_pic_def
        del: push_bit_of_1)
qed

text \<open>
  What the line does not depend on: the configuration of its controller. A line of the slave is
  looked at only when the master has a slave.
\<close>

definition line_config :: "nat \<Rightarrow> pics \<Rightarrow> bool" where
  "line_config n s \<longleftrightarrow> n < 16 \<and> pic_level_triggered (line_pic n) (n mod 8) s \<and> n mod 8 < length (lines (pic_of (line_pic n) s))
     \<and> (if n < 8 then \<not> bit (icw3 (pic s)) n \<and> unat (icw3 (pic2 s)) \<noteq> n else icw3 (pic s) \<noteq> 0)"

lemma high_byte_0: "(num::u16) AND 0xff00 = 0 \<Longrightarrow> drop_bit 8 num = 0"
proof -
  assume a: "num AND 0xff00 = 0"
  have h: "(0xff00::u16) = push_bit 8 (mask 8)" by (simp add: mask_eq_exp_minus_1 push_bit_eq_mult)
  show ?thesis
  proof (rule word_eq_by_bits)
    fix k assume "k < LENGTH(16)"
    then have "\<not> bit (num AND push_bit 8 (mask 8)) (8 + k)" using a h by simp
    then show "bit (drop_bit 8 num) k = bit (0::u16) k"
      using \<open>k < LENGTH(16)\<close> by (auto simp: bit_simps dest: bit_imp_le_length)
  qed
qed

lemma raise_irqs_pics:
  "pic (raise_irqs num s) = (pic s)\<lparr>irr := irr (pic s) OR ucast (num AND 0x00ff)\<rparr>"
  "pic2 (raise_irqs num s) = (pic2 s)\<lparr>irr := irr (pic2 s) OR ucast (drop_bit 8 num)\<rparr>"
  "elcr_enabled (raise_irqs num s) = elcr_enabled s" "update_at (raise_irqs num s) = update_at s"
  using high_byte_0 [of num] by (simp_all add: raise_irqs_def Let_def emit_def)

lemma lower_irqs_pics:
  "pic (lower_irqs num s) = (pic s)\<lparr>irr := irr (pic s) AND NOT (ucast (num AND 0x00ff))\<rparr>"
  "pic2 (lower_irqs num s) = (pic2 s)\<lparr>irr := irr (pic2 s) AND NOT (ucast (drop_bit 8 num))\<rparr>"
  "elcr_enabled (lower_irqs num s) = elcr_enabled s" "update_at (lower_irqs num s) = update_at s"
  using high_byte_0 [of num] by (simp_all add: lower_irqs_def Let_def)

text \<open>The word of one line, split over the two controllers.\<close>

lemma line_words:
  "list_all (\<lambda>n. (push_bit n 1 :: u16) \<noteq> 0 \<and>
     ucast ((push_bit n 1 :: u16) AND 0x00ff) = (if n < 8 then push_bit n 1 else 0 :: u8) \<and>
     ucast (drop_bit 8 (push_bit n 1 :: u16)) = (if n < 8 then 0 else push_bit (n mod 8) 1 :: u8) \<and>
     (n < 8 \<longrightarrow> (push_bit n 1 :: u16) AND 0x00ff = push_bit n 1 \<and> (push_bit n 1 :: u16) AND 0x0100 = 0)) [0..<16]"
  by (simp add: upt_rec)

lemma line_word:
  assumes "n < 16"
  shows "(push_bit n 1 :: u16) \<noteq> 0"
    "ucast ((push_bit n 1 :: u16) AND 0x00ff) = (if n < 8 then push_bit n 1 else 0 :: u8)"
    "ucast (drop_bit 8 (push_bit n 1 :: u16)) = (if n < 8 then 0 else push_bit (n mod 8) 1 :: u8)"
    "n < 8 \<Longrightarrow> (push_bit n 1 :: u16) AND 0x00ff = push_bit n 1"
    "n < 8 \<Longrightarrow> (push_bit n 1 :: u16) AND 0x0100 = 0"
proof -
  have "n \<in> set [0..<16]" using assms by simp
  note w = bspec [OF line_words [unfolded list_all_iff] this]
  note hi = w [THEN conjunct2, THEN conjunct2, THEN conjunct2, rule_format]
  show "(push_bit n 1 :: u16) \<noteq> 0" by (rule w [THEN conjunct1])
  show "ucast ((push_bit n 1 :: u16) AND 0x00ff) = (if n < 8 then push_bit n 1 else 0 :: u8)"
    by (rule w [THEN conjunct2, THEN conjunct1])
  show "ucast (drop_bit 8 (push_bit n 1 :: u16)) = (if n < 8 then 0 else push_bit (n mod 8) 1 :: u8)"
    by (rule w [THEN conjunct2, THEN conjunct2, THEN conjunct1])
  show "(push_bit n 1 :: u16) AND 0x00ff = push_bit n 1" "(push_bit n 1 :: u16) AND 0x0100 = 0" if "n < 8"
    by (rule hi [OF that, THEN conjunct1], rule hi [OF that, THEN conjunct2])
qed

lemma line_irr:
  assumes "n < 16"
  shows "bit (irr (pic_of (line_pic n) (raise_irqs (push_bit n 1) s))) (n mod 8)"
    "\<not> bit (irr (pic_of (line_pic n) (lower_irqs (push_bit n 1) s))) (n mod 8)"
  using line_word(2,3) [OF assms]
  by (simp_all add: line_pic_def raise_irqs_pics lower_irqs_pics bit_simps del: push_bit_of_1)

text \<open>A declared slave opens the upper half of the word.\<close>

lemma route_slaves_count: "snd (route_slaves m xs num k) = k + length (filter (\<lambda>i. icw3 m AND push_bit i 1 \<noteq> 0) xs)"
  by (induction xs arbitrary: num k) (simp_all add: Let_def del: push_bit_of_1)

lemma slave_declared:
  assumes "icw3 m \<noteq> 0"
  shows "snd (route_slaves m [0..<8] num 0) \<noteq> 0"
proof -
  obtain i where "bit (icw3 m) i" using assms by (metis bit_eq_iff bit_0_eq bot_apply bot_bool_def)
  moreover from this have "i < 8" using bit_imp_le_length by fastforce
  ultimately have "icw3 m AND push_bit i 1 \<noteq> 0" by (simp add: and_push_bit_eq_0 del: push_bit_of_1)
  with \<open>i < 8\<close> show ?thesis
    unfolding route_slaves_count by (auto simp: filter_empty_conv simp del: push_bit_of_1 intro!: bexI [of _ i])
qed

lemma elcr_enabled_update: "elcr_enabled (update_pending s) = elcr_enabled s"
  using update_globals [of s] by (simp add: globals_eq_def)

lemma update_pic_of:
  "icw1 (pic_of d (update_pending s)) = icw1 (pic_of d s)" "icw2 (pic_of d (update_pending s)) = icw2 (pic_of d s)"
  "icw3 (pic_of d (update_pending s)) = icw3 (pic_of d s)" "icw4 (pic_of d (update_pending s)) = icw4 (pic_of d s)"
  "state (pic_of d (update_pending s)) = state (pic_of d s)" "imr (pic_of d (update_pending s)) = imr (pic_of d s)"
  "isr (pic_of d (update_pending s)) = isr (pic_of d s)" "priority (pic_of d (update_pending s)) = priority (pic_of d s)"
  "special_mask_mode (pic_of d (update_pending s)) = special_mask_mode (pic_of d s)"
  "auto_eoi_rotate (pic_of d (update_pending s)) = auto_eoi_rotate (pic_of d s)"
  "ack_bytes (pic_of d (update_pending s)) = ack_bytes (pic_of d s)"
  by (cases d; simp add: pic_update)+

text \<open>One device raises or lowers the line it shares.\<close>

lemma picint_level_word:
  assumes "route_slaves (pic s) [0..<8] (push_bit n 1) 0 = (push_bit n 1, k)" "n < 16" "n < 8 \<or> k \<noteq> 0"
    "level_scan [0..<(if k = 0 then 8 else 16)] (push_bit n 1) ((st \<noteq> 0) \<noteq> up) up 0 s = (if hit then push_bit n 1 else 0, b)"
  shows "\<exists>b'. picint_common (push_bit n 1) True up st s = (if (st \<noteq> 0) \<noteq> up then (if up then 1 else 0) else st,
      if hit then update_pending (if up then raise_irqs (push_bit n 1) b' else lower_irqs (push_bit n 1) b') else b)
    \<and> pic b' = pic b \<and> pic2 b' = pic2 b \<and> elcr_enabled b' = elcr_enabled b"
proof -
  let ?b = "if (push_bit n 1 :: u16) AND 0x0100 \<noteq> 0 then b\<lparr>acpi_rtc_status := up\<rparr> else b"
  have "k = 0 \<Longrightarrow> push_bit n 1 AND 0x00ff = (push_bit n 1 :: u16)"
    using assms(3) line_word(4) by auto
  then have "picint_common (push_bit n 1) True up st s = (if (st \<noteq> 0) \<noteq> up then (if up then 1 else 0) else st,
      if hit then update_pending (if up then raise_irqs (push_bit n 1) ?b else lower_irqs (push_bit n 1) ?b) else b)"
    unfolding picint_common_def assms(1) prod.case Let_def if_True assms(4)
    using line_word(1) [OF assms(2)] by (cases hit; cases "k = 0") (simp_all del: push_bit_of_1)
  then show ?thesis by (intro exI [of _ ?b]) simp
qed

lemma irr_update_line:
  assumes "line_config n s"
  shows "bit (irr (pic_of (line_pic n) (update_pending s))) (n mod 8) = bit (irr (pic_of (line_pic n) s)) (n mod 8)"
  using assms by (cases "n < 8") (auto simp: line_config_def line_pic_def update_fields update_irr_other)

lemma update_line_fields:
  "elcr (pic_of d (update_pending s)) = elcr (pic_of d s)" "lines (pic_of d (update_pending s)) = lines (pic_of d s)"
  by (cases d; simp add: pic_update)+

lemma line_config_cong:
  assumes "line_config n s" "elcr_enabled s' = elcr_enabled s" "\<And>d. elcr (pic_of d s') = elcr (pic_of d s)"
    "\<And>d. icw1 (pic_of d s') = icw1 (pic_of d s)" "\<And>d. icw3 (pic_of d s') = icw3 (pic_of d s)"
    "\<And>d. length (lines (pic_of d s')) = length (lines (pic_of d s))"
  shows "line_config n s'"
  using assms(1) assms(2) assms(3-6) [of PIC1] assms(3-6) [of PIC2]
  by (cases "n < 8") (auto simp: line_config_def line_pic_def pic_level_triggered_def simp del: push_bit_of_1 split: if_splits)

lemma picint_level_one:
  fixes st :: u8 and up :: bool
  assumes "line_config n s"
  defines "chg \<equiv> ((st \<noteq> 0) \<noteq> up)" and "d \<equiv> line_pic n" and "i \<equiv> n mod 8"
  defines "c \<equiv> (if chg then if up then lines (pic_of d s) ! i + 1 else lines (pic_of d s) ! i - 1
                else lines (pic_of d s) ! i)"
  shows "\<exists>s'. picint_common (push_bit n 1) True up st s =
      ((if chg then (if up then 1 else 0) else st), s') \<and> line_config n s' \<and>
    lines (pic_of d s') ! i = c \<and>
    (bit (irr (pic_of d s')) i \<longleftrightarrow> (if chg \<and> c = (if up then 1 else 0) then up else bit (irr (pic_of d s)) i))"
proof -
  have n: "n < 16" and nl: "i < length (lines (pic_of d s))" and lv: "pic_level_triggered d i s"
    and ni: "n < 8 \<longrightarrow> \<not> bit (icw3 (pic s)) n" "\<not> n < 8 \<longrightarrow> icw3 (pic s) \<noteq> 0"
    using assms(1) by (auto simp: line_config_def d_def i_def split: if_splits)
  obtain k where r: "route_slaves (pic s) [0..<8] (push_bit n 1) 0 = (push_bit n 1, k)"
    using route_slaves_skip [of "[0..<8]" "pic s" n 0] ni(1) by (metis atLeastLessThan_iff prod.collapse set_upt)
  have k: "n < 8 \<or> k \<noteq> 0" using slave_declared [of "pic s" "push_bit n 1"] ni(2) r by auto
  let ?b = "level_bump n chg up s"
  have b: "lines (pic_of d ?b) ! i = c" "pic_level_triggered d i ?b" "irr (pic_of e ?b) = irr (pic_of e s)"
    "elcr_enabled ?b = elcr_enabled s" "elcr (pic_of e ?b) = elcr (pic_of e s)" "icw1 (pic_of e ?b) = icw1 (pic_of e s)"
    "icw3 (pic_of e ?b) = icw3 (pic_of e s)" "length (lines (pic_of e ?b)) = length (lines (pic_of e s))" for e
    using nl lv by (cases d; cases e; auto simp: level_bump_def c_def pic_level_triggered_def d_def i_def)+
  have cb: "line_config n ?b" by (rule line_config_cong [OF assms(1) b(4-8)])
  define hit where "hit = (chg \<and> c = (if up then 1 else 0))"
  have sc: "level_scan [0..<(if k = 0 then 8 else 16)] (push_bit n 1) chg up 0 s = (if hit then push_bit n 1 else 0, ?b)"
    using n k b by (subst level_scan_one) (auto simp: Let_def hit_def d_def i_def simp del: push_bit_of_1)
  obtain b' where b': "picint_common (push_bit n 1) True up st s = (if chg then (if up then 1 else 0) else st,
      if hit then update_pending (if up then raise_irqs (push_bit n 1) b' else lower_irqs (push_bit n 1) b') else ?b)"
      "pic b' = pic ?b" "pic2 b' = pic2 ?b" "elcr_enabled b' = elcr_enabled ?b"
    using picint_level_word [OF r n k sc [unfolded chg_def]] unfolding chg_def by blast
  let ?r = "if up then raise_irqs (push_bit n 1) b' else lower_irqs (push_bit n 1) b'"
  have same: "pic_of e b' = pic_of e ?b" for e using b' by (cases e) simp_all
  have r: "elcr_enabled ?r = elcr_enabled ?b" "elcr (pic_of e ?r) = elcr (pic_of e ?b)" "icw1 (pic_of e ?r) = icw1 (pic_of e ?b)"
      "icw3 (pic_of e ?r) = icw3 (pic_of e ?b)" "lines (pic_of e ?r) = lines (pic_of e ?b)" for e
    using b'(2-4) by (cases e; simp add: raise_irqs_pics lower_irqs_pics)+
  have cr: "line_config n ?r" by (rule line_config_cong [OF cb]) (simp_all only: r)
  have cu: "line_config n (update_pending ?r)"
    by (rule line_config_cong [OF cr]) (simp_all add: elcr_enabled_update update_pic_of update_line_fields del: if_split)
  let ?s' = "if hit then update_pending ?r else ?b"
  have "lines (pic_of d ?s') ! i = c" by (cases hit) (simp_all only: if_True if_False update_line_fields r(5) b(1))
  moreover have "line_config n ?s'" using cb cu by simp
  moreover have "bit (irr (pic_of d ?r)) i = up"
    using line_irr [OF n] by (simp add: d_def i_def)
  then have "bit (irr (pic_of d ?s')) i \<longleftrightarrow> (if hit then up else bit (irr (pic_of d s)) i)"
    using irr_update_line [OF cr] b(3) by (simp add: d_def i_def)
  ultimately show ?thesis using b'(1) unfolding hit_def by blast
qed

text \<open>The devices \<open>0, \<dots>, N - 1\<close>, each with its own \<open>irq_state\<close>.\<close>

fun share_step :: "nat \<Rightarrow> nat \<times> bool \<Rightarrow> (nat \<Rightarrow> u8) \<times> pics \<Rightarrow> (nat \<Rightarrow> u8) \<times> pics" where
  "share_step n (i, up) (st, s) =
     (case picint_common (push_bit n 1) True up (st i) s of (v, s') \<Rightarrow> (st(i := v), s'))"

definition holders :: "nat \<Rightarrow> (nat \<Rightarrow> u8) \<Rightarrow> nat set" where
  "holders N st = {i. i < N \<and> st i \<noteq> 0}"

definition share_inv :: "nat \<Rightarrow> nat \<Rightarrow> (nat \<Rightarrow> u8) \<times> pics \<Rightarrow> bool" where
  "share_inv n N x \<longleftrightarrow> (case x of (st, s) \<Rightarrow>
     line_config n s \<and> lines (pic_of (line_pic n) s) ! (n mod 8) = of_nat (card (holders N st)) \<and>
     (bit (irr (pic_of (line_pic n) s)) (n mod 8) \<longleftrightarrow> holders N st \<noteq> {}))"

lemma finite_holders [simp]: "finite (holders N st)"
  by (simp add: holders_def)

lemma card_holders: "card (holders N st) \<le> N"
  using card_mono [of "{..<N}" "holders N st"] by (auto simp: holders_def)

lemma holders_upd:
  "i < N \<Longrightarrow> holders N (st(i := v)) = (if v \<noteq> 0 then insert i (holders N st) else holders N st - {i})"
  by (auto simp: holders_def)

lemma share_step_inv:
  assumes "share_inv n N (st, s)" "i < N" "N < 2 ^ 32"
  shows "share_inv n N (share_step n (i, up) (st, s))"
proof -
  let ?H = "holders N st" and ?d = "line_pic n" and ?j = "n mod 8"
  let ?chg = "(st i \<noteq> 0) \<noteq> up"
  have cfg: "line_config n s" and ln: "lines (pic_of ?d s) ! ?j = of_nat (card ?H)"
    and ir: "bit (irr (pic_of ?d s)) ?j \<longleftrightarrow> ?H \<noteq> {}"
    using assms(1) by (auto simp: share_inv_def)
  define c where "c = (if ?chg then if up then lines (pic_of ?d s) ! ?j + 1 else lines (pic_of ?d s) ! ?j - 1
                else lines (pic_of ?d s) ! ?j)"
  obtain s' where s': "picint_common (push_bit n 1) True up (st i) s =
      ((if ?chg then (if up then 1 else 0) else st i), s')" "line_config n s'"
    "lines (pic_of ?d s') ! ?j = c"
    "bit (irr (pic_of ?d s')) ?j \<longleftrightarrow> (if ?chg \<and> c = (if up then 1 else 0) then up else bit (irr (pic_of ?d s)) ?j)"
    using picint_level_one [OF cfg, where st = "st i" and up = up] unfolding c_def by blast
  let ?v = "if ?chg then (if up then 1 else 0) else st i"
  let ?H' = "holders N (st(i := ?v))"
  have mem: "i \<in> ?H \<longleftrightarrow> st i \<noteq> 0" using assms(2) by (simp add: holders_def)
  have small: "card ?H' < 2 ^ 32" using card_holders [of N "st(i := ?v)"] assms(3) by simp
  have H': "?H' = (if ?chg then if up then insert i ?H else ?H - {i} else ?H)"
    using assms(2) mem by (auto simp: holders_upd)
  have cc: "c = of_nat (card ?H')"
  proof (cases ?chg)
    case True
    show ?thesis
    proof (cases up)
      case True
      then show ?thesis using \<open>?chg\<close> H' mem ln by (simp add: c_def)
    next
      case False
      then have "i \<in> ?H" using \<open>?chg\<close> mem by simp
      then have "card ?H = Suc (card (?H - {i}))"
        by (metis card.remove finite_holders)
      then show ?thesis using \<open>?chg\<close> False H' ln by (simp add: c_def)
    qed
  qed (use H' ln in \<open>simp add: c_def\<close>)
  have uc: "unat c = card ?H'"
    using small by (simp add: cc unat_of_nat take_bit_nat_eq_self)
  have ones: "c = 1 \<longleftrightarrow> card ?H' = 1" "c = 0 \<longleftrightarrow> ?H' = {}"
    using uc by (auto simp: word_unat_eq_iff)
  have "bit (irr (pic_of ?d s')) ?j \<longleftrightarrow> ?H' \<noteq> {}"
  proof (cases ?chg)
    case True
    show ?thesis
    proof (cases up)
      case True
      then have "?H' = insert i ?H" "i \<notin> ?H" using \<open>?chg\<close> H' mem by auto
      moreover from this have "c \<noteq> 1 \<Longrightarrow> ?H \<noteq> {}" using ones(1) by auto
      ultimately show ?thesis using s'(4) ir True \<open>?chg\<close> by auto
    next
      case False
      then have "i \<in> ?H" using \<open>?chg\<close> mem by simp
      then show ?thesis using s'(4) ir False \<open>?chg\<close> ones(2) by auto
    qed
  qed (use s'(4) ir H' in simp)
  then show ?thesis using s' cc by (simp add: share_inv_def)
qed

lemma share_run_inv:
  "share_inv n N x \<Longrightarrow> \<forall>op \<in> set ops. fst op < N \<Longrightarrow> N < 2 ^ 32 \<Longrightarrow>
     share_inv n N (fold (share_step n) ops x)"
proof (induction ops arbitrary: x)
  case (Cons op ops)
  obtain i up st s where "op = (i, up)" "x = (st, s)" by (metis prod.exhaust)
  then have "share_inv n N (share_step n op x)"
    using share_step_inv [of n N st s i up] Cons.prems by simp
  then show ?case using Cons.IH Cons.prems by simp
qed simp

section \<open>Requests during an acknowledge sequence\<close>

datatype irq_op = Raise u16 | Lower u16 | LevelUp u16 u8 | LevelDown u16 u8

fun irq_step :: "irq_op \<Rightarrow> pics \<Rightarrow> pics" where
  "irq_step (Raise num) s = picint num s"
| "irq_step (Lower num) s = picintc num s"
| "irq_step (LevelUp num st) s = snd (picintlevel num st s)"
| "irq_step (LevelDown num st) s = snd (picintclevel num st s)"

text \<open>Everything of a controller but its requests and line counters.\<close>

definition strip :: "pic_t \<Rightarrow> pic_t" where
  "strip p = p\<lparr>irr := 0, lines := []\<rparr>"

lemma stripD:
  assumes "strip p = strip q"
  shows "interrupt p = interrupt q" "isr p = isr q" "icw1 p = icw1 q" "icw2 p = icw2 q" "icw3 p = icw3 q"
    "icw4 p = icw4 q" "ack_bytes p = ack_bytes q" "slaves p = slaves q" "int_pending p = int_pending q"
    "is_master p = is_master q" "state p = state q"
  using assms unfolding strip_def by (cases p; cases q; simp)+

lemma strip_upd [simp]: "strip (p\<lparr>irr := x\<rparr>) = strip p" "strip (p\<lparr>lines := y\<rparr>) = strip p"
  by (simp_all add: strip_def)

lemma level_scan_strip:
  "strip (pic (snd (level_scan is num chg up ls s))) = strip (pic s) \<and>
   strip (pic2 (snd (level_scan is num chg up ls s))) = strip (pic2 s)"
  by (induction "is" arbitrary: ls s) (simp_all add: Let_def)

lemma frozen_strip: "strip (pic s') = strip (pic s) \<Longrightarrow> frozen s' = frozen s"
  unfolding frozen_def using stripD(1) by metis

lemma picint_frozen:
  assumes "frozen s"
  shows "strip (pic (snd (picint_common num level up st s))) = strip (pic s) \<and>
    strip (pic2 (snd (picint_common num level up st s))) = strip (pic2 s)"
proof -
  obtain num' k where r: "route_slaves (pic s) [0..<8] num 0 = (num', k)" by force
  obtain w b where sc: "(if level then level_scan [0..<(if k = 0 then 8 else 16)] num' ((st \<noteq> 0) \<noteq> up) up 0 s
      else (num', s)) = (w, b)" by force
  have b: "strip (pic b) = strip (pic s)" "strip (pic2 b) = strip (pic2 s)"
    using sc level_scan_strip [of "[0..<(if k = 0 then 8 else 16)]" num' "(st \<noteq> 0) \<noteq> up" up 0 s]
    by (auto split: if_splits)
  have u: "update_pending x = x" if "strip (pic x) = strip (pic b)" for x
    using frozen_strip [of x s] that b(1) assms by simp
  show ?thesis
    unfolding picint_common_def r prod.case Let_def sc
    using b by (auto simp: u raise_irqs_pics lower_irqs_pics)
qed

lemma irq_step_frozen:
  "frozen s \<Longrightarrow> strip (pic (irq_step op s)) = strip (pic s) \<and> strip (pic2 (irq_step op s)) = strip (pic2 s)"
  using picint_frozen by (cases op) (auto simp: picint_def picintc_def picintlevel_def picintclevel_def)

lemma irq_steps_frozen:
  "frozen s \<Longrightarrow> strip (pic (fold irq_step ops s)) = strip (pic s) \<and>
     strip (pic2 (fold irq_step ops s)) = strip (pic2 s)"
proof (induction ops arbitrary: s)
  case (Cons op ops)
  then show ?case
    using irq_step_frozen [of s op] frozen_strip [of "irq_step op s" s] by simp
qed simp

lemma slave_off_master:
  assumes "at_ready s" "interrupt (pic s) = w" "w < 8" "w \<noteq> 2"
  shows "pic_slave_on (pic s) w = Inr False"
proof -
  have "unat w \<noteq> 2" using assms(4) by (simp add: word_unat_eq_iff)
  then have "(4 :: u32) AND push_bit (unat w) 1 = 0"
    using and_exp_eq_0_iff_not_bit [of "4::u32" "unat w"] bit_push_bit_one [of 2 "unat w", where ?'a = 32]
    by simp
  then show ?thesis
    using assms low_interrupt [OF assms(3)] by (simp add: pic_slave_on_def at_ready_def flip: not_less)
qed

lemma interleaved_ack:
  assumes "at_ready s" "int_pending (pic s)" "interrupt (pic s) = w" "w < 8" "w \<noteq> 2"
  shows "\<exists>s1. pic_irq_ack s = Inr (0xff, s1) \<and>
    (\<forall>ops. \<exists>s3. pic_irq_ack (fold irq_step ops s1) = Inr (w + (icw2 (pic s) AND 0xf8), s3) \<and>
       isr (pic s3) = isr (pic s) OR push_bit (unat w) 1 \<and> isr (pic2 s3) = isr (pic2 s))"
proof -
  note low = low_interrupt [OF assms(4)]
  let ?s1 = "mod_pic PIC1 (\<lambda>p. p\<lparr>data_bus := 0xff, ack_bytes := 1\<rparr>)
     (pic_acknowledge PIC1 (mod_pic PIC1 (\<lambda>p. p\<lparr>interrupt := w OR 0x20\<rparr>) s))"
  have "pic_irq_ack s = ack_cycle s"
    using assms slave_off_master [of s w] by (simp add: pic_irq_ack_def at_ready_def)
  then have a1: "pic_irq_ack s = Inr (0xff, ?s1)"
    using assms ack_cycle_master [of s w] by (simp add: at_ready_def)
  have fz: "frozen ?s1" using low by (simp add: frozen_def acknowledge_eq Let_def)
  have s1: "isr (pic ?s1) = isr (pic s) OR push_bit (unat w) 1" "isr (pic2 ?s1) = isr (pic2 s)"
    "ack_bytes (pic ?s1) = 1" "interrupt (pic ?s1) = w OR 0x20" "icw4 (pic ?s1) = icw4 (pic s)"
    "icw2 (pic ?s1) = icw2 (pic s)"
    using low by (simp_all add: acknowledge_eq Let_def)
  have "\<exists>s3. pic_irq_ack s2 = Inr (w + (icw2 (pic s) AND 0xf8), s3) \<and>
       isr (pic s3) = isr (pic s) OR push_bit (unat w) 1 \<and> isr (pic2 s3) = isr (pic2 s)"
    if "strip (pic s2) = strip (pic ?s1)" "strip (pic2 s2) = strip (pic2 ?s1)" for s2
  proof -
    note e = stripD [OF that(1)] stripD(2) [OF that(2)]
    have "pic_irq_ack s2 = ack_cycle s2" by (simp add: pic_irq_ack_def e(7) s1)
    moreover have "ack_cycle s2 = (let v = w + (icw2 (pic s2) AND 0xf8) in
        Inr (v, update_pending (mod_pic PIC1 (\<lambda>p. p\<lparr>int_pending := False, data_bus := v,
          ack_bytes := 0, interrupt := 0x17\<rparr>) s2)))"
      using assms(1) by (intro ack_cycle_vector)
        (simp_all only: e s1 assms(4) pic_i86_mode_def at_ready_def simp_thms)
    ultimately show ?thesis
      using low by (simp add: Let_def update_fields e s1 del: mod_pic_simps)
        (simp add: e acknowledge_eq Let_def)
  qed
  then show ?thesis using a1 irq_steps_frozen [OF fz] by blast
qed

lemma interleaved_ack_slave:
  assumes "at_ready s" "int_pending (pic s)" "interrupt (pic s) = 2" "int_pending (pic2 s)" "interrupt (pic2 s) = w" "w < 8"
  shows "\<exists>s1. pic_irq_ack s = Inr (0xff, s1) \<and>
    (\<forall>ops. \<exists>s3. pic_irq_ack (fold irq_step ops s1) = Inr (w + (icw2 (pic2 s) AND 0xf8), s3) \<and>
       isr (pic s3) = isr (pic s) OR 4 \<and> isr (pic2 s3) = isr (pic2 s) OR push_bit (unat w) 1)"
proof -
  have "(4 :: u32) AND push_bit (unat (2::u8)) 1 \<noteq> 0" by simp
  then have "pic_irq_ack s = ack_cycle (mark_slave s)"
    using assms(1-4) by (simp add: pic_irq_ack_def pic_slave_on_def at_ready_def slave_of_def Let_def) 
  then have a1: "pic_irq_ack s = Inr (0xff, slave_mid w s)"
    using ack_cycle_slave0 [OF assms(1,3,5,6)] by simp
  have fz: "frozen (slave_mid w s)" by (simp add: frozen_def slave_mid_def)
  have m: "isr (pic (slave_mid w s)) = isr (pic s) OR 4" "isr (pic2 (slave_mid w s)) = isr (pic2 s) OR push_bit (unat w) 1"
    "ack_bytes (pic (slave_mid w s)) = 1" "interrupt (pic (slave_mid w s)) = 0x62" "slaves (pic (slave_mid w s)) = slaves (pic s)"
    "icw4 (pic (slave_mid w s)) = icw4 (pic s)" "icw4 (pic2 (slave_mid w s)) = icw4 (pic2 s)"
    "interrupt (pic2 (slave_mid w s)) = w OR 0x20" "icw2 (pic2 (slave_mid w s)) = icw2 (pic2 s)"
    by (simp_all add: slave_mid_def)
  have "\<exists>s3. pic_irq_ack s2 = Inr (w + (icw2 (pic2 s) AND 0xf8), s3) \<and>
       isr (pic s3) = isr (pic s) OR 4 \<and> isr (pic2 s3) = isr (pic2 s) OR push_bit (unat w) 1"
    if "strip (pic s2) = strip (pic (slave_mid w s))" "strip (pic2 s2) = strip (pic2 (slave_mid w s))" for s2
  proof -
    note e = stripD [OF that(1)] stripD [OF that(2)]
    have "pic_irq_ack s2 = ack_cycle s2" by (simp add: pic_irq_ack_def e(7) m)
    also have "\<dots> = (let v = w + (icw2 (pic2 s2) AND 0xf8) in Inr (v, update_pending (s2\<lparr>
     pic2 := (pic2 s2)\<lparr>int_pending := False, data_bus := v, interrupt := 0x17\<rparr>,
     pic := (pic s2)\<lparr>int_pending := False, data_bus := v, ack_bytes := 0, interrupt := 0x17\<rparr>\<rparr>)))"
      using assms(1) by (intro ack_cycle_slave_vector) (simp_all only: e m assms(6) pic_i86_mode_def at_ready_def simp_thms)
    finally show ?thesis by (simp add: Let_def update_fields e m)
  qed
  then show ?thesis using a1 irq_steps_frozen [OF fz] by blast
qed

text \<open>An interrupt that an AT pair is about to deliver: a line of the master, or one of the slave behind the cascade.\<close>

definition delivers :: "pic_ref \<Rightarrow> u8 \<Rightarrow> pics \<Rightarrow> bool" where
  "delivers d w s \<longleftrightarrow> at_ready s \<and> int_pending (pic s) \<and> w < 8 \<and> (case d of
     PIC1 \<Rightarrow> interrupt (pic s) = w \<and> w \<noteq> 2
   | PIC2 \<Rightarrow> interrupt (pic s) = 2 \<and> int_pending (pic2 s) \<and> interrupt (pic2 s) = w)"

section \<open>Initialisation\<close>

text \<open>The words a driver writes, as the first one announces them.\<close>

definition icw_words :: "u8 \<Rightarrow> u8 \<Rightarrow> u8 \<Rightarrow> u8 \<Rightarrow> (u16 \<times> u8) list" where
  "icw_words v1 v2 v3 v4 = [(0x20, v1), (0x21, v2)] @ (if v1 AND 2 = 0 then [(0x21, v3)] else []) @
     (if v1 AND 1 \<noteq> 0 then [(0x21, v4)] else [])"

definition write_all :: "pic_ref \<Rightarrow> (u16 \<times> u8) list \<Rightarrow> pics \<Rightarrow> pics" where
  "write_all d = fold (\<lambda>(port, v). pic_write port v d)"

lemma pic_of_mod [simp]: "pic_of d (mod_pic d f s) = f (pic_of d s)"
  by (cases d) simp_all

lemma pic_write_first_word:
  assumes "v1 AND 0x10 \<noteq> 0" "pic_pci s \<longrightarrow> v1 AND 0xe0 = 0"
  shows "pic_write 0x20 v1 d s = update_pending (mod_pic d (pic_write_icw1 v1) (mod_pic d (\<lambda>p. p\<lparr>data_bus := v1\<rparr>) s))"
proof -
  have "pic_pci (mod_pic d f s) = pic_pci s" for f by (cases d) simp_all
  then show ?thesis using assms by (auto simp: pic_write_def Let_def)
qed

lemma icw_sequence:
  fixes v2 v3 v4 :: u8 and d :: pic_ref
  assumes "v1 AND 0x10 \<noteq> 0" "pic_pci s \<longrightarrow> v1 AND 0xe0 = 0"
  defines "p \<equiv> pic_of d (write_all d (icw_words v1 v2 v3 v4) s)"
  shows "state p = STATE_NONE \<and> icw1 p = v1 \<and> icw2 p = v2 \<and>
    icw3 p = (if v1 AND 2 = 0 then v3 else 0) \<and> icw4 p = (if v1 AND 1 \<noteq> 0 then v4 else 0) \<and>
    imr p = 0 \<and> isr p = 0 \<and> priority p = 0 \<and> \<not> special_mask_mode p \<and> \<not> auto_eoi_rotate p \<and> ack_bytes p = 0"
  unfolding p_def using pic_write_first_word [OF assms(1,2)]
  by (simp add: write_all_def icw_words_def pic_write_def Let_def update_pic_of pic_write_icw1_def
      pic_cascade_mode_def after_icws_def)

section \<open>Properties\<close>

lemma resolve_not_frozen: "interrupt (resolve p) AND 0x20 = 0"
proof (cases "best_scan p [0..<8]")
  case (Some j)
  then have "(word_of_nat j :: u8) < 8"
    by (auto simp: best_scan_Some word_less_nat_alt unat_of_nat take_bit_nat_eq_self)
  then show ?thesis using Some low_interrupt(3) by (simp add: resolve_def)
qed (simp add: resolve_def)

lemma update_not_frozen: "\<not> frozen s \<Longrightarrow> \<not> frozen (update_pending s)"
  by (simp add: frozen_def pic_update resolve_not_frozen)

lemma at_ready_update: "at_ready s \<Longrightarrow> at_ready (update_pending s)"
  using update_globals [of s]
  by (simp add: at_ready_def update_fields pic_cascade_mode_def pic_i86_mode_def globals_eq_def)

lemma ocw2_eoi:
  assumes "special_mask_mode (pic s) = False" "pic_non_specific_find (pic s) = Some n"
  shows "isr (pic (pic_write 0x20 0x20 PIC1 s)) = isr (pic s) AND NOT (push_bit n 1)"
proof -
  have "pic_non_specific_find ((pic s)\<lparr>data_bus := 0x20, ocw2 := 0x20\<rparr>) = Some n"
    using assms(2) by (simp add: non_specific_Some rank_def)
  then show ?thesis
    by (simp add: pic_write_def Let_def pic_command_def pic_action_def update_fields)
qed

lemma set_clear_bit:
  "\<not> bit (w::u8) n \<Longrightarrow> (w OR push_bit n 1) AND NOT (push_bit n 1) = w"
  by (rule word_eq_by_bits) (auto simp: bit_simps)

lemma bit5_ge: "bit (w::u8) 5 \<Longrightarrow> 32 \<le> w"
proof (rule ccontr)
  assume "bit w 5" "\<not> 32 \<le> w"
  then have "unat w < 32" by (simp add: word_le_nat_alt)
  then have "\<not> bit (unat w) 5" by (simp add: bit_iff_odd)
  then show False using \<open>bit w 5\<close> by (simp add: bit_unsigned_iff)
qed

text \<open>A controller pair after power-on on an AT, initialised as its BIOS does, with all lines unmasked.\<close>

definition power_on :: pics where
  "power_on = \<lparr>pic = zero_pic, pic2 = zero_pic, shadow = False, elcr_enabled = False,
     tmr_inited = False, pic_pci = False, kbd_latch = False, mouse_latch = False, smi_irq_mask = 0,
     smi_irq_status = 0, latched_irqs = 0, update_at = False, acpi_rtc_status = False, events = [],
     is286 = True, cpu_fast_off_flags = 0, xt_cpu_multi = 1, rspeed = 1, pit1_present = False\<rparr>"

definition bios_at :: pics where
  "bios_at = write_all PIC2 (icw_words 0x11 0x70 0x02 0x01)
     (write_all PIC1 (icw_words 0x11 0x08 0x04 0x01) (pic_init True False power_on))"

text \<open>
  Claim C32: The priority resolver returns line \<open>j\<close> exactly when the controller is initialised,
  \<open>j\<close> is requested and unmasked, no line of \<open>j\<close>'s rank or better is in service, and no
  line of better rank is requested; ranks follow the rotating priority.
\<close>

theorem pic_priority_resolver:
  "fst (find_best_interrupt d s) = Some j \<longleftrightarrow>
     j < 8 \<and> state (pic_of d s) = STATE_NONE \<and> requested (pic_of d s) j \<and>
     (\<forall>k < 8. rank (pic_of d s) k \<le> rank (pic_of d s) j \<longrightarrow> \<not> bit (isr (pic_of d s)) k) \<and>
     (\<forall>k < 8. rank (pic_of d s) k < rank (pic_of d s) j \<longrightarrow> \<not> requested (pic_of d s) k)"
  by (simp add: find_best_interrupt_def Let_def best_scan_Some)

lemma pic_priority_resolver_witness:
  "fst (find_best_interrupt PIC1 (picint 0x12 bios_at)) = Some 1 \<and>
   requested (pic (picint 0x12 bios_at)) 1 \<and> \<not> requested (pic (picint 0x12 bios_at)) 0"
proof -
  have "fst (find_best_interrupt PIC1 (picint 0x12 bios_at)) = Some 1"
    "rank (pic (picint 0x12 bios_at)) 0 < rank (pic (picint 0x12 bios_at)) 1" by code_simp+
  then show ?thesis
    using pic_priority_resolver [of PIC1 "picint 0x12 bios_at" 1] by simp
qed

text \<open>
  On an initialised AT pair, acknowledging a pending master interrupt \<open>w\<close> other than the
  cascade returns the vector \<open>w\<close> plus the base programmed with ICW2, puts exactly line
  \<open>w\<close> in service, leaves its request set only when the line is level triggered and still
  held, changes no other request of the master except the cascade's, and unfreezes the controller.
\<close>

theorem picinterrupt_delivers_master:
  assumes "at_ready s" and "int_pending (pic s)" and "interrupt (pic s) = w" and "w < 8" and "w \<noteq> 2"
  shows "\<exists>s'. picinterrupt s = Inr (w + (icw2 (pic s) AND 0xf8), s') \<and> at_ready s' \<and> \<not> frozen s' \<and>
    isr (pic s') = isr (pic s) OR push_bit (unat w) 1 \<and> isr (pic2 s') = isr (pic2 s) \<and>
    (\<forall>k. k \<noteq> 2 \<longrightarrow> bit (irr (pic s')) k = (bit (irr (pic s)) k \<and>
       (k = unat w \<longrightarrow> pic_level_triggered PIC1 k s \<and> lines (pic s) ! k \<noteq> 0)))"
proof -
  let ?v = "w + (icw2 (pic s) AND 0xf8)"
  let ?t = "mod_pic PIC1 (\<lambda>p. (acked PIC1 (unat w) s p)\<lparr>interrupt := 0x17,
      int_pending := False, data_bus := ?v, ack_bytes := 0\<rparr>) (gate_event s)"
  have "picinterrupt s = Inr (?v, update_pending ?t)"
    using picinterrupt_master [OF assms] by (simp add: Let_def)
  moreover have "at_ready ?t" using assms(1) by (simp add: at_ready_def pic_cascade_mode_def pic_i86_mode_def)
  moreover have "\<not> frozen ?t" by (simp add: frozen_def)
  moreover have "unat (icw3 (pic2 ?t)) = 2" using assms(1) by (simp add: at_ready_def)
  ultimately show ?thesis
    by (intro exI [of _ "update_pending ?t"])
      (auto simp: update_fields at_ready_update update_not_frozen update_irr_other bit_irr_acked)
qed

lemma picinterrupt_delivers_master_witness:
  "\<exists>s'. picinterrupt (picint 2 bios_at) = Inr (1 + (icw2 (pic (picint 2 bios_at)) AND 0xf8), s') \<and>
    at_ready s' \<and> \<not> frozen s' \<and>
    isr (pic s') = isr (pic (picint 2 bios_at)) OR push_bit (unat (1::u8)) 1 \<and>
    isr (pic2 s') = isr (pic2 (picint 2 bios_at)) \<and>
    (\<forall>k. k \<noteq> 2 \<longrightarrow> bit (irr (pic s')) k = (bit (irr (pic (picint 2 bios_at))) k \<and>
       (k = unat (1::u8) \<longrightarrow> pic_level_triggered PIC1 k (picint 2 bios_at) \<and>
          lines (pic (picint 2 bios_at)) ! k \<noteq> 0)))"
  by (rule picinterrupt_delivers_master; code_simp)

text \<open>
  Claim C28: On an AT pair (slave on line 2, both controllers in 8086 mode, no automatic end of interrupt)
  whose master has the cascade line pending and whose slave has its line \<open>w\<close> pending, the
  acknowledge delivers the slave's interrupt through the cascade: the vector is the slave's line plus the
  slave's ICW2 base, the cascade line goes in service on the master and the line on the slave, and no
  other bit of either in-service register changes. On the slave the request of \<open>w\<close> stays only
  where the line is level triggered and still held, and the others stay.
\<close>

theorem picinterrupt_delivers_slave:
  assumes "at_ready s" and "int_pending (pic s)" and "interrupt (pic s) = 2"
    and "int_pending (pic2 s)" and "interrupt (pic2 s) = w" and "w < 8"
  shows "\<exists>s'. picinterrupt s = Inr (w + (icw2 (pic2 s) AND 0xf8), s') \<and> at_ready s' \<and> \<not> frozen s' \<and>
    isr (pic s') = isr (pic s) OR 4 \<and> isr (pic2 s') = isr (pic2 s) OR push_bit (unat w) 1 \<and>
    (\<forall>k. bit (irr (pic2 s')) k = (bit (irr (pic2 s)) k \<and>
       (k = unat w \<longrightarrow> pic_level_triggered PIC2 k s \<and> lines (pic2 s) ! k \<noteq> 0)))"
proof -
  let ?v = "w + (icw2 (pic2 s) AND 0xf8)"
  let ?t = "slave_end w ?v s"
  have "picinterrupt s = Inr (?v, update_pending ?t)"
    using picinterrupt_slave [OF assms] by (simp add: Let_def)
  moreover have "at_ready ?t"
    using assms(1) by (simp add: at_ready_def pic_cascade_mode_def pic_i86_mode_def slave_end_def)
  moreover have "\<not> frozen ?t" by (simp add: frozen_def slave_end_def)
  ultimately show ?thesis
    by (intro exI [of _ "update_pending ?t"])
      (auto simp: update_fields at_ready_update update_not_frozen bit_irr_acked slave_end_def)
qed

lemma picinterrupt_delivers_slave_witness:
  "\<exists>s'. picinterrupt (picint 0x1000 bios_at) = Inr (4 + (icw2 (pic2 (picint 0x1000 bios_at)) AND 0xf8), s') \<and>
    at_ready s' \<and> \<not> frozen s' \<and> isr (pic s') = isr (pic (picint 0x1000 bios_at)) OR 4 \<and>
    isr (pic2 s') = isr (pic2 (picint 0x1000 bios_at)) OR push_bit (unat (4::u8)) 1 \<and>
    (\<forall>k. bit (irr (pic2 s')) k = (bit (irr (pic2 (picint 0x1000 bios_at))) k \<and>
       (k = unat (4::u8) \<longrightarrow> pic_level_triggered PIC2 k (picint 0x1000 bios_at) \<and>
          lines (pic2 (picint 0x1000 bios_at)) ! k \<noteq> 0)))"
  by (rule picinterrupt_delivers_slave; code_simp)

text \<open>
  Claim C2: The vector of an acknowledge sequence is fixed by its first cycle. On an AT pair (slave on
  line 2, both controllers in 8086 mode, no automatic end of interrupt), when the CPU acknowledges the
  pending interrupt of a line \<open>w\<close> of the master other than the cascade's, or of a line \<open>w\<close> of the slave behind
  the cascade, then whatever requests are raised or lowered, edge or level, on any lines between the two
  cycles, the second cycle returns \<open>w\<close> plus the vector base of that controller. In service go exactly that line
  and, for the slave's, the cascade line of the master.
\<close>

theorem pic_ack_vector_frozen:
  assumes "delivers d w s"
  shows "\<exists>s1. pic_irq_ack s = Inr (0xff, s1) \<and>
    (\<forall>ops. \<exists>s3. pic_irq_ack (fold irq_step ops s1) = Inr (w + (icw2 (pic_of d s) AND 0xf8), s3) \<and>
       isr (pic s3) = isr (pic s) OR (case d of PIC1 \<Rightarrow> push_bit (unat w) 1 | PIC2 \<Rightarrow> 4) \<and>
       isr (pic2 s3) = isr (pic2 s) OR (case d of PIC1 \<Rightarrow> 0 | PIC2 \<Rightarrow> push_bit (unat w) 1))"
  using assms interleaved_ack [of s w] interleaved_ack_slave [of s w] by (cases d) (simp_all add: delivers_def del: push_bit_of_1)

lemma pic_ack_vector_frozen_witness:
  "(\<exists>s1. pic_irq_ack (picint 8 bios_at) = Inr (0xff, s1) \<and>
    (\<forall>ops. \<exists>s3. pic_irq_ack (fold irq_step ops s1) = Inr (11, s3) \<and> isr (pic s3) = 8 \<and> isr (pic2 s3) = 0)) \<and>
   (\<exists>s1. pic_irq_ack (picint 0x1000 bios_at) = Inr (0xff, s1) \<and>
    (\<forall>ops. \<exists>s3. pic_irq_ack (fold irq_step ops s1) = Inr (0x74, s3) \<and> isr (pic s3) = 4 \<and> isr (pic2 s3) = 16))"
proof -
  have "delivers PIC1 3 (picint 8 bios_at)" "delivers PIC2 4 (picint 0x1000 bios_at)" by code_simp+
  moreover have "icw2 (pic (picint 8 bios_at)) = 8" "isr (pic (picint 8 bios_at)) = 0" "isr (pic2 (picint 8 bios_at)) = 0"
    "icw2 (pic2 (picint 0x1000 bios_at)) = 0x70" "isr (pic (picint 0x1000 bios_at)) = 0" "isr (pic2 (picint 0x1000 bios_at)) = 0"
    by code_simp+
  ultimately show ?thesis
    using pic_ack_vector_frozen [of PIC1 3 "picint 8 bios_at"] pic_ack_vector_frozen [of PIC2 4 "picint 0x1000 bios_at"] by simp
qed

text \<open>
  Claim C33: On an AT pair (slave on line 2, both controllers in 8086 mode, no automatic end of interrupt)
  with the master outside the special mask mode, when the interrupt the master has pending is the one its
  priority resolver finds, on a line other than the cascade's, a non-specific end of interrupt (OCW2 =
  20h) right after its acknowledge restores the in-service register to what it was before the interrupt,
  so nested interrupts end in reverse order.
\<close>

theorem pic_eoi_restores_isr:
  assumes "at_ready s" and "int_pending (pic s)" and "best_scan (pic s) [0..<8] = Some n"
    and "interrupt (pic s) = word_of_nat n" and "n \<noteq> 2" and "\<not> special_mask_mode (pic s)"
  shows "\<exists>v s'. picinterrupt s = Inr (v, s') \<and> isr (pic s') \<noteq> isr (pic s) \<and>
    isr (pic (pic_write 0x20 0x20 PIC1 s')) = isr (pic s)"
proof -
  have b: "n < 8" "\<forall>k < 8. rank (pic s) k \<le> rank (pic s) n \<longrightarrow> \<not> bit (isr (pic s)) k"
    using assms(3) by (auto simp: best_scan_Some)
  let ?w = "word_of_nat n :: u8"
  have w: "?w < 8" "unat ?w = n" "?w \<noteq> 2"
    using b(1) assms(5) by (auto simp: word_less_nat_alt unat_of_nat take_bit_nat_eq_self word_unat_eq_iff)
  let ?v = "?w + (icw2 (pic s) AND 0xf8)"
  let ?t = "mod_pic PIC1 (\<lambda>p. (acked PIC1 n s p)\<lparr>interrupt := 0x17,
      int_pending := False, data_bus := ?v, ack_bytes := 0\<rparr>) (gate_event s)"
  have e: "picinterrupt s = Inr (?v, update_pending ?t)"
    using picinterrupt_master [OF assms(1,2,4) w(1,3)] by (simp add: Let_def w)
  have off: "\<not> bit (isr (pic s)) n" using b by auto
  have "pic_non_specific_find (pic (update_pending ?t)) = Some n"
    unfolding non_specific_Some using b assms(6)
    by (auto simp: update_fields rank_def bit_simps simp del: mod_pic_simps) (auto simp: rank_def bit_simps)
  then have "isr (pic (pic_write 0x20 0x20 PIC1 (update_pending ?t))) =
      isr (pic (update_pending ?t)) AND NOT (push_bit n 1)"
    using assms(6) by (intro ocw2_eoi) (simp_all add: update_fields)
  also have "\<dots> = isr (pic s)"
    using set_clear_bit [OF off] by (simp add: update_fields)
  finally have "isr (pic (pic_write 0x20 0x20 PIC1 (update_pending ?t))) = isr (pic s)" .
  moreover have "isr (pic (update_pending ?t)) \<noteq> isr (pic s)"
  proof -
    have "bit (isr (pic (update_pending ?t))) n" using b(1)
      by (simp add: update_fields bit_or_iff del: push_bit_of_1)
    then show ?thesis using off by auto
  qed
  ultimately show ?thesis using e by blast
qed

lemma pic_eoi_restores_isr_witness:
  "\<exists>v s'. picinterrupt (picint 8 bios_at) = Inr (v, s') \<and> isr (pic s') \<noteq> isr (pic (picint 8 bios_at)) \<and>
    isr (pic (pic_write 0x20 0x20 PIC1 s')) = isr (pic (picint 8 bios_at))"
  by (rule pic_eoi_restores_isr [of _ 3]; code_simp)

text \<open>
  Writing the initialisation words ICW1 to ICW4, as many as ICW1 announces (in PCI mode with bits 5 to 7
  of ICW1 clear, for the code drops any other ICW1 there), brings either
  controller from any state to normal operation with exactly those words stored, every line
  unmasked, nothing in service, fixed priority, and no special mode left over.
\<close>

theorem pic_initialisation:
  assumes "v1 AND 0x10 \<noteq> 0" and "pic_pci s \<longrightarrow> v1 AND 0xe0 = 0"
  shows "let p = pic_of d (write_all d (icw_words v1 v2 v3 v4) s) in
    state p = STATE_NONE \<and> icw1 p = v1 \<and> icw2 p = v2 \<and>
    icw3 p = (if v1 AND 2 = 0 then v3 else 0) \<and> icw4 p = (if v1 AND 1 \<noteq> 0 then v4 else 0) \<and>
    imr p = 0 \<and> isr p = 0 \<and> priority p = 0 \<and> \<not> special_mask_mode p \<and> \<not> auto_eoi_rotate p \<and>
    ack_bytes p = 0"
  unfolding Let_def by (rule icw_sequence [OF assms])

lemma pic_initialisation_witness:
  "let p = pic_of PIC2 (write_all PIC2 (icw_words 0x13 0x28 0x00 0x03) bios_at) in
    state p = STATE_NONE \<and> icw1 p = 0x13 \<and> icw2 p = 0x28 \<and>
    icw3 p = (if (0x13::u8) AND 2 = 0 then 0x00 else 0) \<and>
    icw4 p = (if (0x13::u8) AND 1 \<noteq> 0 then 0x03 else 0) \<and>
    imr p = 0 \<and> isr p = 0 \<and> priority p = 0 \<and> \<not> special_mask_mode p \<and> \<not> auto_eoi_rotate p \<and>
    ack_bytes p = 0"
  by (rule pic_initialisation) code_simp+

text \<open>
  Claim C13: A level-triggered line shared by \<open>N < 2^32\<close> devices, each raising and lowering it with its own
  \<open>irq_state\<close> in any order, keeps its counter equal to the number of devices that hold it, and its request
  bit is set exactly while one does. It holds for the lines 0 to 7 of the master except those of its
  cascade (declared in ICW3 of the master or the slave), and for the lines 8 to 15 of the slave when ICW3 of
  the master declares a slave. At the start no device holds the line, its counter is 0 and its request bit
  is clear; the devices act on this line only, and nothing else changes the controllers meanwhile.
\<close>

theorem pic_shared_level_line:
  assumes "line_config n s" and "N < 2 ^ 32" and "lines (pic_of (line_pic n) s) ! (n mod 8) = 0"
    and "\<not> bit (irr (pic_of (line_pic n) s)) (n mod 8)" and "\<forall>op \<in> set ops. fst op < N"
  shows "case fold (share_step n) ops (\<lambda>_. 0, s) of (st, s') \<Rightarrow>
    lines (pic_of (line_pic n) s') ! (n mod 8) = of_nat (card (holders N st)) \<and>
    (bit (irr (pic_of (line_pic n) s')) (n mod 8) \<longleftrightarrow> (\<exists>i < N. st i \<noteq> 0))"
proof -
  have "share_inv n N (\<lambda>_. 0, s)" using assms by (simp add: share_inv_def holders_def)
  from share_run_inv [OF this assms(5,2)] show ?thesis
    by (auto simp: share_inv_def holders_def)
qed

text \<open>Lines 5 and 11 of an AT pair, level triggered.\<close>

definition level_at :: pics where
  "level_at = mod_pic PIC1 (\<lambda>p. p\<lparr>elcr := 0x20\<rparr>) (mod_pic PIC2 (\<lambda>p. p\<lparr>elcr := 0x08\<rparr>) (pic_elcr_set_enabled True bios_at))"

lemma pic_shared_level_line_witness:
  "(case fold (share_step 5) [(0, True), (1, True), (0, False)] (\<lambda>_. 0, level_at) of (st, s') \<Rightarrow>
     lines (pic s') ! 5 = of_nat (card (holders 2 st)) \<and> (bit (irr (pic s')) 5 \<longleftrightarrow> (\<exists>i < 2. st i \<noteq> 0))) \<and>
   (case fold (share_step 11) [(0, True), (1, True), (0, False)] (\<lambda>_. 0, level_at) of (st, s') \<Rightarrow>
     lines (pic2 s') ! 3 = of_nat (card (holders 2 st)) \<and> (bit (irr (pic2 s')) 3 \<longleftrightarrow> (\<exists>i < 2. st i \<noteq> 0)))"
proof -
  have l: "line_config 5 level_at" "line_config 11 level_at" "lines (pic level_at) ! 5 = 0" "lines (pic2 level_at) ! 3 = 0"
    "irr (pic level_at) = 0" "irr (pic2 level_at) = 0" by code_simp+
  have "line_pic 5 = PIC1" "line_pic 11 = PIC2" by (simp_all add: line_pic_def)
  then show ?thesis
    using pic_shared_level_line [of 5 level_at 2 "[(0, True), (1, True), (0, False)]"]
      pic_shared_level_line [of 11 level_at 2 "[(0, True), (1, True), (0, False)]"] l
    by (simp del: fold.simps fold_simps share_step.simps)
qed

text \<open>
  After a poll command (OCW3 = 0Ch) is written while an interrupt is pending, the frozen
  interrupt number has bit 5 set, and acknowledging shifts an \<open>int\<close> by more than 31.
\<close>

theorem pic_poll_then_acknowledge:
  assumes "int_pending (pic s)" and "pic_cascade_mode (pic s)" and "is_master (pic s)"
  shows "picinterrupt (pic_write 0x20 0x0c PIC1 s) = Inl ShiftRange"
proof -
  let ?s = "pic_write 0x20 0x0c PIC1 s"
  have "bit (interrupt (pic ?s)) 5" by (simp add: pic_write_def Let_def bit_or_iff)
  then have "(32::u8) \<le> interrupt (pic ?s)" by (rule bit5_ge)
  moreover have "int_pending (pic ?s)" "pic_cascade_mode (pic ?s)" "is_master (pic ?s)"
    using assms by (simp_all add: pic_write_def Let_def pic_cascade_mode_def)
  ultimately show ?thesis by (simp add: picinterrupt_def pic_slave_on_def)
qed

lemma pic_poll_then_acknowledge_witness:
  "picinterrupt (pic_write 0x20 0x0c PIC1 (picint 2 bios_at)) = Inl ShiftRange"
  by (rule pic_poll_then_acknowledge; code_simp)

text \<open>
  An interrupt pending on a master line that ICW3 declares a slave's, but where no slave
  is attached, makes the acknowledge follow a NULL pointer.
\<close>

theorem pic_missing_slave:
  assumes "int_pending (pic s)" and "interrupt (pic s) = w" and "w < 8" and "pic_cascade_mode (pic s)"
    and "is_master (pic s)" and "bit (icw3 (pic s)) (unat w)" and "slaves (pic s) ! unat w = None"
  shows "picinterrupt s = Inl NullSlave \<and> (ack_bytes (pic s) = 0 \<longrightarrow> pic_irq_ack s = Inl NullSlave)"
proof -
  have "(ucast (icw3 (pic s)) :: u32) AND push_bit (unat w) 1 \<noteq> 0"
    using assms(3,6) by (simp add: and_push_bit_eq_0 bit_simps word_less_nat_alt del: push_bit_of_1)
  then have "pic_slave_on (pic s) w = Inr True"
    using assms low_interrupt [OF assms(3)] by (simp add: pic_slave_on_def flip: not_less)
  then show ?thesis
    using assms by (simp_all add: picinterrupt_def pic_irq_ack_def slave_of_def)
qed

text \<open>An XT guest that raises IRQ 0 between ICW1 and ICW3, and then declares line 0 a slave's.\<close>

definition xt_guest :: pics where
  "xt_guest = pic_write 0x21 0x00 PIC1 (fold (\<lambda>v. pic_write 0x21 v PIC1) [0x08, 0x01, 0x01]
     (picint 1 (pic_write 0x20 0x11 PIC1 (pic_init False False power_on))))"

lemma pic_missing_slave_witness:
  "picinterrupt xt_guest = Inl NullSlave"
  by (rule pic_missing_slave [where w = 0, THEN conjunct1]; code_simp)

text \<open>
  On a processor below the 286, writing the interrupt mask arms the PIC timer with a
  period of zero and does not re-evaluate the pending interrupt, whatever the mask.
\<close>

theorem pic_imr_write_without_286:
  assumes "state (pic_of d s) = STATE_NONE" and "\<not> is286 s"
  shows "let s' = pic_write 0x21 v d s in
    events s' = events s @ [TimerOnAuto 0] \<and> imr (pic_of d s') = v \<and>
    int_pending (pic s') = int_pending (pic s) \<and> interrupt (pic s') = interrupt (pic s)"
  using assms by (cases d) (simp_all add: pic_write_def Let_def)

lemma pic_imr_write_without_286_witness:
  "let s' = pic_write 0x21 0xff PIC1 (power_on\<lparr>is286 := False\<rparr>) in
    events s' = events (power_on\<lparr>is286 := False\<rparr>) @ [TimerOnAuto 0] \<and> imr (pic_of PIC1 s') = 0xff \<and>
    int_pending (pic s') = int_pending (pic (power_on\<lparr>is286 := False\<rparr>)) \<and>
    interrupt (pic s') = interrupt (pic (power_on\<lparr>is286 := False\<rparr>))"
  by (rule pic_imr_write_without_286) (simp_all add: power_on_def zero_pic_def)

end
