(* ===== verification/Pit.thy ===== *)
theory Pit
  imports Pic
begin

text \<open>
  The 8253/8254 interval timer of \<open>src/src/pit.c\<close>: the counters with their six modes, binary and
  BCD counting, the control word, latching and read-back, the gate and clock inputs, and the
  routines that counters drive (interrupt 0, refresh, speaker, the PS/2 watchdog), with
  \<open>pit_irq0_timer\<close> of \<open>src/src/machine/machine.c\<close>.

  \<open>count\<close> is the 32-bit word of the C union; the BCD digits are its nibbles. A signed 4-bit
  digit is \<open>-1\<close> exactly when it has just been decremented from 0, and \<open>-7\<close> is the nibble 9.
  The function pointers of a counter are the values of a datatype, and each call through them is
  appended to a trace, in order; what the routines behind them do is modelled by the functions at
  the end of the theory. Calls of the timer queue are trace entries too.
\<close>

section \<open>The counters\<close>

datatype out_fn = Irq0 | Irq0Ps2 | RefreshXt | RefreshAt | Speaker | NmiPs2 | OtherOut nat

datatype load_fn = SpeakerSetCount | OtherLoad nat

datatype pit_event = OutCall out_fn bool bool | LoadCall load_fn u8 u32
  | TimerProcess | TimerAdvance u64 | TimerAddOver | TimerSetDelay u64 | PitHandler u16 nat

record ctr =
  m :: u8
  ctrl :: u8
  read_status :: u8
  latch :: bool
  s1_det :: u8
  l_det :: u8
  bcd :: bool
  incomplete :: bool
  rl :: u16
  rm :: u32
  wm :: u32
  gate :: bool
  out :: bool
  newcount :: bool
  clock :: bool
  using_timer :: bool
  latched :: nat
  cstate :: nat
  null_count :: bool
  do_read_status :: bool
  count :: u32
  l :: u32
  lback :: u32
  lback2 :: u32
  load_func :: "load_fn option"
  out_func :: "out_fn option"
  trace :: "pit_event list"

definition ctr_set_out :: "bool \<Rightarrow> ctr \<Rightarrow> ctr" where
  "ctr_set_out v c =
     c\<lparr>trace := (case out_func c of None \<Rightarrow> trace c | Some f \<Rightarrow> trace c @ [OutCall f v (out c)]),
       out := v\<rparr>"

definition digit :: "nat \<Rightarrow> u32 \<Rightarrow> u32" where
  "digit i w = drop_bit (4 * i) w AND 0xf"

definition set_digit :: "nat \<Rightarrow> u32 \<Rightarrow> u32 \<Rightarrow> u32" where
  "set_digit i v w = (w AND NOT (push_bit (4 * i) 0xf)) OR push_bit (4 * i) v"

text \<open>The nested \<open>if\<close>s of the BCD branch, one digit after the other.\<close>

fun bcd_decrease :: "nat list \<Rightarrow> u32 \<Rightarrow> u32" where
  "bcd_decrease [] w = w"
| "bcd_decrease (i # is) w =
     (if digit i w = 0 then bcd_decrease is (set_digit i 9 w)
      else set_digit i (digit i w - 1) w)"

definition ctr_decrease_count :: "ctr \<Rightarrow> ctr" where
  "ctr_decrease_count c =
     (if bcd c then c\<lparr>count := bcd_decrease [0, 1, 2, 3, 4] (count c)\<rparr>
      else c\<lparr>count := (count c - 1) AND 0xffff\<rparr>)"

definition full_count :: "u32 \<Rightarrow> u32" where
  "full_count n = (if n = 0 then 0x10000 else n)"

definition ctr_load_count :: "ctr \<Rightarrow> ctr" where
  "ctr_load_count c =
     c\<lparr>count := full_count (l c), null_count := False, newcount := (full_count (l c) AND 1 \<noteq> 0),
       incomplete := (wm c AND 0x80 \<noteq> 0)\<rparr>"

definition set_state :: "nat \<Rightarrow> ctr \<Rightarrow> ctr" where
  "set_state n c = c\<lparr>cstate := n\<rparr>"

text \<open>The step shared by modes 0, 1, 4 and 5: count down and act when the count drops below one.\<close>

definition count_to_zero :: "bool \<Rightarrow> ctr \<Rightarrow> ctr" where
  "count_to_zero v c =
     (if sint (count c) \<ge> 1 then
        let c1 = ctr_decrease_count c in
        if sint (count c1) < 1 then ctr_set_out v (set_state 3 c1) else c1
      else c)"

definition tick_mode0 :: "ctr \<Rightarrow> ctr" where
  "tick_mode0 c =
     (if cstate c = 2 then if gate c then count_to_zero True c else c
      else if cstate c = 3 then ctr_decrease_count c
      else c)"

definition tick_mode1 :: "ctr \<Rightarrow> ctr" where
  "tick_mode1 c =
     (if cstate c = 2 then count_to_zero True c
      else if cstate c = 3 \<or> cstate c = 6 then ctr_decrease_count c
      else c)"

definition tick_mode2 :: "ctr \<Rightarrow> ctr" where
  "tick_mode2 c =
     (if cstate c = 3 then ctr_set_out True (set_state 2 (ctr_load_count c))
      else if cstate c = 2 then
        if \<not> gate c then c
        else if sint (count c) \<ge> 2 then
          let c1 = ctr_decrease_count c in
          if sint (count c1) < 2 then ctr_set_out False (set_state 3 c1) else c1
        else c
      else c)"

definition square_step :: "bool \<Rightarrow> nat \<Rightarrow> ctr \<Rightarrow> ctr" where
  "square_step v next c =
     (if sint (count c) < 0 then set_state next (ctr_load_count (ctr_set_out v c))
      else if newcount c then c\<lparr>newcount := False\<rparr> else c)"

definition tick_mode3 :: "ctr \<Rightarrow> ctr" where
  "tick_mode3 c =
     (if cstate c = 2 then
        if \<not> gate c \<or> sint (count c) < 0 then c
        else
          let c1 = (if bcd c then
                      let d = ctr_decrease_count c in if newcount c then d else ctr_decrease_count d
                    else c\<lparr>count := count c - (if newcount c then 1 else 2)\<rparr>)
          in square_step False 3 c1
      else if cstate c = 3 then
        if \<not> gate c \<or> sint (count c) < 0 then c
        else
          let c1 = (if bcd c then
                      let d = ctr_decrease_count (ctr_decrease_count c)
                      in if newcount c then ctr_decrease_count d else d
                    else c\<lparr>count := count c - (if newcount c then 3 else 2)\<rparr>)
          in square_step True 2 c1
      else c)"

definition tick_mode45 :: "ctr \<Rightarrow> ctr" where
  "tick_mode45 c =
     (if gate c \<or> m c \<noteq> 4 then
        if cstate c = 0 \<or> cstate c = 6 then ctr_decrease_count c
        else if cstate c = 2 then count_to_zero False c
        else if cstate c = 3 then ctr_set_out True (set_state 0 c)
        else c
      else c)"

definition ctr_tick :: "ctr \<Rightarrow> ctr" where
  "ctr_tick c =
     (if cstate c mod 4 = 1 then
        let c1 = ctr_load_count c; c2 = set_state (cstate c1 + 1) c1
        in if m c2 AND 7 = 1 \<and> cstate c2 = 2 then ctr_set_out False c2 else c2
      else if m c AND 7 = 0 then tick_mode0 c
      else if m c AND 7 = 1 then tick_mode1 c
      else if m c AND 7 = 2 \<or> m c AND 7 = 6 then tick_mode2 c
      else if m c AND 7 = 3 \<or> m c AND 7 = 7 then tick_mode3 c
      else tick_mode45 c)"

definition ctr_set_state_1 :: "ctr \<Rightarrow> ctr" where
  "ctr_set_state_1 c =
     (let md = m c AND 3;
          do_reload = (incomplete c \<or> md = 0 \<or> cstate c = 0);
          c1 = c\<lparr>incomplete := False\<rparr>
      in if do_reload then set_state (if md = 1 then 5 else 1) c1 else c1)"

definition ctr_load :: "ctr \<Rightarrow> ctr" where
  "ctr_load c =
     (let c1 = (if l c = 1 then if m c = 2 then c\<lparr>l := 2\<rparr> else if m c = 3 then c\<lparr>l := 0\<rparr> else c else c);
          c2 = (if using_timer c1 then c1\<lparr>latch := True\<rparr> else ctr_set_state_1 c1)
      in c2\<lparr>trace := (case load_func c2 of None \<Rightarrow> trace c2
                     | Some f \<Rightarrow> trace c2 @ [LoadCall f (m c2) (full_count (l c2))])\<rparr>)"

definition ctr_latch_status :: "ctr \<Rightarrow> ctr" where
  "ctr_latch_status c =
     c\<lparr>read_status := (ctrl c AND 0x3f) OR (if out c then 0x80 else 0) OR
         (if null_count c then 0x40 else 0),
       do_read_status := True\<rparr>"

definition ctr_latch_count :: "ctr \<Rightarrow> ctr" where
  "ctr_latch_count c =
     (let n = (if latch c \<or> cstate c = 1 then l c else count c);
          k = rm c AND 3
      in if k = 1 then c\<lparr>rl := ucast ((push_bit 8 n AND 0xff00) OR (n AND 0xff)), latched := 1\<rparr>
         else if k = 2 then c\<lparr>rl := ucast ((n AND 0xff00) OR (drop_bit 8 n AND 0xff)), latched := 1\<rparr>
         else if k = 3 then c\<lparr>rl := ucast n, latched := 2\<rparr>
         else c)"

section \<open>The device\<close>

record pit =
  flags :: u32
  pclock :: bool
  counters :: "ctr list"
  pctrl :: u8
  pit_const :: u64
  ptrace :: "pit_event list"

definition PIT_8254 :: u32 where "PIT_8254 = 1"

definition PIT_PS2 :: u32 where "PIT_PS2 = 16"

definition PIT_EXT_IO :: u32 where "PIT_EXT_IO = 32"

definition PIT_CUSTOM_CLOCK :: u32 where "PIT_CUSTOM_CLOCK = 64"

definition PIT_SECONDARY :: u32 where "PIT_SECONDARY = 128"

definition log_pit :: "pit_event list \<Rightarrow> pit \<Rightarrow> pit" where
  "log_pit es d = d\<lparr>ptrace := ptrace d @ es\<rparr>"

text \<open>An operation on counter \<open>i\<close>; its calls go to the trace of the device.\<close>

definition on_ctr :: "nat \<Rightarrow> (ctr \<Rightarrow> ctr) \<Rightarrow> pit \<Rightarrow> pit" where
  "on_ctr i f d =
     (let c = f ((counters d ! i)\<lparr>trace := []\<rparr>)
      in log_pit (trace c) (d\<lparr>counters := (counters d)[i := c\<lparr>trace := []\<rparr>]\<rparr>))"

definition ctr_clock :: "nat \<Rightarrow> pit \<Rightarrow> pit" where
  "ctr_clock i d =
     (let c = counters d ! i in
      if cstate c = 3 \<and> m c \<noteq> 2 \<and> m c \<noteq> 3 then d
      else if using_timer c then d
      else on_ctr i ctr_tick d)"

definition pit_ctr_get_count :: "nat \<Rightarrow> pit \<Rightarrow> u16" where
  "pit_ctr_get_count i d = ucast (l (counters d ! i))"

definition pit_ctr_set_load_func :: "nat \<Rightarrow> load_fn option \<Rightarrow> pit \<Rightarrow> pit" where
  "pit_ctr_set_load_func i f d = on_ctr i (\<lambda>c. c\<lparr>load_func := f\<rparr>) d"

definition pit_ctr_set_out_func :: "nat \<Rightarrow> out_fn option \<Rightarrow> pit \<Rightarrow> pit" where
  "pit_ctr_set_out_func i f d = on_ctr i (\<lambda>c. c\<lparr>out_func := f\<rparr>) d"

definition ctr_set_gate :: "bool \<Rightarrow> ctr \<Rightarrow> ctr" where
  "ctr_set_gate g c =
     (let old = gate c; md = m c AND 3;
          c1 = (if md = 0 then c
                else if \<not> old \<and> g then
                  (if md AND 1 \<noteq> 0 then
                     set_state 1 (if md \<noteq> 1 then ctr_set_out True c else c)
                   else if md = 2 then set_state 3 c else c)
                else if old \<and> \<not> g then (if md AND 2 \<noteq> 0 then ctr_set_out True c else c)
                else c)
      in c1\<lparr>gate := g\<rparr>)"

definition pit_ctr_set_gate :: "nat \<Rightarrow> bool \<Rightarrow> pit \<Rightarrow> pit" where
  "pit_ctr_set_gate i g d = on_ctr i (ctr_set_gate g) d"

definition ctr_set_clock :: "bool \<Rightarrow> ctr \<Rightarrow> ctr" where
  "ctr_set_clock ck c0 =
     (let old = clock c0; c = c0\<lparr>clock := ck\<rparr> in
      if using_timer c \<and> latch c then
        (if old \<and> \<not> ck then (ctr_set_state_1 c)\<lparr>latch := False\<rparr> else c)
      else if using_timer c then
        (if cstate c = 1 then
           (if \<not> old \<and> ck then c\<lparr>s1_det := 1\<rparr>
            else if old \<and> \<not> ck then
              let n = s1_det c + 1 in
              if n \<ge> 2 then ctr_tick (c\<lparr>s1_det := 0\<rparr>) else c\<lparr>s1_det := n\<rparr>
            else c)
         else if old \<and> \<not> ck then ctr_tick c else c)
      else c)"

definition pit_ctr_set_clock :: "nat \<Rightarrow> bool \<Rightarrow> pit \<Rightarrow> pit" where
  "pit_ctr_set_clock i ck d = on_ctr i (ctr_set_clock ck) d"

text \<open>\<open>now\<close> is the time stamp counter, which decides whether the timer queue runs first.\<close>

definition pit_ctr_set_using_timer :: "u64 \<Rightarrow> nat \<Rightarrow> bool \<Rightarrow> pit \<Rightarrow> pit" where
  "pit_ctr_set_using_timer now i ut d =
     on_ctr i (\<lambda>c. c\<lparr>using_timer := ut\<rparr>) (if now > 0 then log_pit [TimerProcess] d else d)"

definition pit_timer_over :: "pit \<Rightarrow> pit" where
  "pit_timer_over d =
     (let ck = (\<not> pclock d);
          d1 = fold (\<lambda>i. pit_ctr_set_clock i ck) [0, 1, 2] (d\<lparr>pclock := ck\<rparr>)
      in log_pit [TimerAdvance (drop_bit 1 (pit_const d1))] d1)"

definition ctr_write_control :: "u8 \<Rightarrow> ctr \<Rightarrow> ctr" where
  "ctr_write_control v c =
     (let mode = drop_bit 1 v AND 7;
          c1 = c\<lparr>ctrl := v, rm := ucast (drop_bit 4 v AND 3), wm := ucast (drop_bit 4 v AND 3),
                 m := (if mode > 5 then mode AND 3 else mode), null_count := True,
                 bcd := (v AND 1 \<noteq> 0)\<rparr>;
          c2 = set_state 0 (ctr_set_out (m c1 \<noteq> 0) c1)
      in if latched c2 \<noteq> 0 then c2\<lparr>rl := rl c2 - 1\<rparr> else c2)"

definition ctr_set_l :: "u32 \<Rightarrow> ctr \<Rightarrow> ctr" where
  "ctr_set_l n c = c\<lparr>l := n, lback := n, lback2 := n\<rparr>"

definition ctr_write_count :: "u8 \<Rightarrow> ctr \<Rightarrow> ctr" where
  "ctr_write_count v c =
     (if wm c = 1 then
        let c1 = ctr_set_l (ucast v) c in ctr_load (if m c1 = 0 then ctr_set_out False c1 else c1)
      else if wm c = 2 then
        let c1 = ctr_set_l (push_bit 8 (ucast v)) c
        in ctr_load (if m c1 = 0 then ctr_set_out False c1 else c1)
      else if wm c = 3 \<or> wm c = 0x83 then
        let c1 = (if wm c AND 0x80 \<noteq> 0
                  then ctr_load (ctr_set_l ((l c AND 0x00ff) OR push_bit 8 (ucast v)) c)
                  else
                    let d = ctr_set_l ((l c AND 0xff00) OR ucast v) c
                    in if m d = 0 then ctr_set_out False (set_state 0 d) else d)
        in c1\<lparr>wm := (if wm c1 AND 0x80 \<noteq> 0 then wm c1 AND NOT 0x80 else wm c1 OR 0x80)\<rparr>
      else c)"

definition pit_write :: "u16 \<Rightarrow> u8 \<Rightarrow> pit \<Rightarrow> pit" where
  "pit_write addr v d =
     (if addr AND 3 = 3 then
        let t = unat (drop_bit 6 v) in
        if t = 3 then
          if flags d AND PIT_8254 \<noteq> 0 then
            let sel = (\<lambda>f d. fold (\<lambda>(b, i). if v AND b \<noteq> 0 then on_ctr i f else id)
                          [(2, 0), (4, 1), (8, 2)] d);
                d1 = (if v AND 0x20 = 0 then sel ctr_latch_count d else d)
            in if v AND 0x10 = 0 then sel ctr_latch_status d1 else d1
          else d
        else
          let d1 = d\<lparr>pctrl := v\<rparr> in
          on_ctr t (if v AND 0x30 = 0 then ctr_latch_count else ctr_write_control v) d1
      else on_ctr (unat (addr AND 3)) (ctr_write_count v) d)"

definition pit_read_reg :: "u8 \<Rightarrow> pit \<Rightarrow> u8" where
  "pit_read_reg reg d =
     (let c = (\<lambda>i. counters d ! i) in
      if reg = 0 \<or> reg = 2 \<or> reg = 4 then ucast (l (c (unat (drop_bit 1 reg))))
      else if reg = 1 \<or> reg = 3 \<or> reg = 5 then ucast (drop_bit 8 (l (c (unat (drop_bit 1 reg)))))
      else if reg = 6 then pctrl d
      else if reg = 7 then
        (if rm (c 0) AND 0x80 \<noteq> 0 then 1 else 0) OR (if rm (c 1) AND 0x80 \<noteq> 0 then 2 else 0) OR
        (if rm (c 2) AND 0x80 \<noteq> 0 then 4 else 0) OR (if wm (c 0) AND 0x80 \<noteq> 0 then 8 else 0) OR
        (if wm (c 1) AND 0x80 \<noteq> 0 then 0x10 else 0) OR (if wm (c 2) AND 0x80 \<noteq> 0 then 0x20 else 0)
      else 0xff)"

definition flip_rm :: "ctr \<Rightarrow> ctr" where
  "flip_rm c = c\<lparr>rm := (if rm c AND 0x80 \<noteq> 0 then rm c AND NOT 0x80 else rm c OR 0x80)\<rparr>"

definition ctr_read :: "ctr \<Rightarrow> u8 \<times> ctr" where
  "ctr_read c =
     (if do_read_status c then (read_status c, c\<lparr>do_read_status := False\<rparr>)
      else
        let n = (if cstate c = 1 then l c else count c);
            sh = (if rm c AND 0x80 \<noteq> 0 then 8 else 0 :: nat)
        in if latched c \<noteq> 0 then
             (ucast (drop_bit sh (rl c)), (flip_rm c)\<lparr>latched := latched c - 1\<rparr>)
           else if rm c = 0 \<or> rm c = 0x80 then (0, c)
           else if rm c = 1 then (ucast n, c)
           else if rm c = 2 then (ucast (drop_bit 8 n), c)
           else if rm c = 3 \<or> rm c = 0x83 then
             (if wm c AND 0x80 \<noteq> 0 then NOT (ucast (l c)) else ucast (drop_bit sh n), flip_rm c)
           else (0xff, c))"

definition pit_read :: "u16 \<Rightarrow> pit \<Rightarrow> u8 \<times> pit" where
  "pit_read addr d =
     (if addr AND 3 = 3 then (if flags d AND PIT_8254 \<noteq> 0 then pctrl d else 0, d)
      else
        let i = unat (addr AND 3)
        in (fst (ctr_read (counters d ! i)), on_ctr i (\<lambda>c. snd (ctr_read c)) d))"

definition ctr_reset :: "ctr \<Rightarrow> ctr" where
  "ctr_reset c =
     c\<lparr>ctrl := 0, m := 0, gate := False, l := 0xffff, using_timer := True, cstate := 0,
       null_count := True, latch := False, s1_det := 0, l_det := 0\<rparr>"

definition zero_ctr :: ctr where
  "zero_ctr = \<lparr>m = 0, ctrl = 0, read_status = 0, latch = False, s1_det = 0, l_det = 0, bcd = False,
     incomplete = False, rl = 0, rm = 0, wm = 0, gate = False, out = False, newcount = False,
     clock = False, using_timer = False, latched = 0, cstate = 0, null_count = False,
     do_read_status = False, count = 0, l = 0, lback = 0, lback2 = 0, load_func = None,
     out_func = None, trace = []\<rparr>"

definition pit_device_reset :: "pit \<Rightarrow> pit" where
  "pit_device_reset d = d\<lparr>pclock := False, counters := map ctr_reset (counters d)\<rparr>"

text \<open>The trace, which is not part of the memory that \<open>memset\<close> clears, is kept.\<close>

definition pit_reset :: "pit \<Rightarrow> pit" where
  "pit_reset d = \<lparr>flags = 0, pclock = False,
     counters = (replicate 3 (ctr_reset zero_ctr))[2 := (ctr_reset zero_ctr)\<lparr>gate := False\<rparr>],
     pctrl = 0, pit_const = 0, ptrace = ptrace d\<rparr>"

definition pit_handler :: "u16 \<Rightarrow> nat \<Rightarrow> pit \<Rightarrow> pit" where
  "pit_handler base n d = log_pit [PitHandler base n] d"

definition pit_set_pit_const :: "u64 \<Rightarrow> pit \<Rightarrow> pit" where
  "pit_set_pit_const k d = d\<lparr>pit_const := k\<rparr>"

text \<open>\<open>PITCONST\<close> is the global of that name, \<open>local\<close> the flags of the device table.\<close>

definition pit_init :: "u64 \<Rightarrow> u32 \<Rightarrow> pit \<Rightarrow> pit" where
  "pit_init PITCONST local d0 =
     (let d1 = pit_set_pit_const PITCONST (pit_reset d0);
          d2 = (if flags d1 AND PIT_PS2 = 0 \<and> flags d1 AND PIT_CUSTOM_CLOCK = 0
                then log_pit [TimerAddOver, TimerSetDelay (drop_bit 1 (pit_const d1))] d1 else d1);
          d3 = d2\<lparr>flags := local\<rparr>
      in if flags d3 AND PIT_EXT_IO = 0
         then log_pit [PitHandler (if flags d3 AND PIT_SECONDARY \<noteq> 0 then 0x48 else 0x40) 4] d3
         else d3)"

definition pit_common_init :: "u64 \<Rightarrow> u64 \<Rightarrow> bool \<Rightarrow> out_fn option \<Rightarrow> out_fn option \<Rightarrow> pit \<Rightarrow> pit" where
  "pit_common_init now PITCONST is_8254 out0 out1 d0 =
     (let d = pit_init PITCONST (if is_8254 then PIT_8254 else 0) d0;
          d1 = fold (\<lambda>i d. pit_ctr_set_using_timer now i True (pit_ctr_set_gate i True d)) [0, 1, 2] d;
          d2 = pit_ctr_set_out_func 2 (Some Speaker)
                 (pit_ctr_set_out_func 1 out1 (pit_ctr_set_out_func 0 out0 d1))
      in pit_ctr_set_gate 2 False (pit_ctr_set_load_func 2 (Some SpeakerSetCount) d2))"

definition pit_ps2_init :: "u64 \<Rightarrow> u64 \<Rightarrow> pit \<Rightarrow> pit \<Rightarrow> pit \<times> pit" where
  "pit_ps2_init now PITCONST first d0 =
     (let d = pit_init PITCONST (PIT_8254 OR PIT_PS2 OR PIT_EXT_IO) d0;
          d1 = fold (\<lambda>i. pit_ctr_set_using_timer now i False) [0, 1, 2] (pit_ctr_set_gate 0 False d);
          d2 = log_pit [PitHandler 0x44 1, PitHandler 0x47 1] d1
      in (pit_ctr_set_out_func 0 (Some Irq0Ps2) first, pit_ctr_set_out_func 0 (Some NmiPs2) d2))"

section \<open>What the outputs drive\<close>

definition pit_irq0_timer :: "bool \<Rightarrow> bool \<Rightarrow> pics \<Rightarrow> pics" where
  "pit_irq0_timer new old s =
     (let s1 = (if new \<and> \<not> old then picint 1 s else s) in if \<not> new then picintc 1 s1 else s1)"

text \<open>On a PS/2 the first PIT also gates and clocks counter 0 of the second, the watchdog.\<close>

definition pit_irq0_timer_ps2 :: "bool \<Rightarrow> bool \<Rightarrow> pics \<times> pit \<Rightarrow> pics \<times> pit" where
  "pit_irq0_timer_ps2 new old x =
     (case x of (s, d) \<Rightarrow>
        let (s1, d1) = (if new \<and> \<not> old then (picint 1 s, pit_ctr_set_gate 0 True d) else (s, d));
            s2 = (if \<not> new then picintc 1 s1 else s1)
        in (s2, if \<not> new \<and> old then ctr_clock 0 d1 else d1))"

text \<open>The other routines: \<open>dma_channel_read(0)\<close>, port B of the PPI, the speaker, and NMI.\<close>

datatype board_event = DmaChannelRead0 | CasSetOut bool | SpeakerUpdate

record board =
  refresh_at_enable :: bool
  ppi_pb :: u8
  cassette :: bool
  speakon :: bool
  ppispeakon :: bool
  nmi :: bool
  nmi_auto_clear :: bool
  btrace :: "board_event list"

definition pit_refresh_timer_xt :: "bool \<Rightarrow> bool \<Rightarrow> board \<Rightarrow> board" where
  "pit_refresh_timer_xt new old b =
     (if new \<and> \<not> old then b\<lparr>btrace := btrace b @ [DmaChannelRead0]\<rparr> else b)"

definition pit_refresh_timer_at :: "bool \<Rightarrow> bool \<Rightarrow> board \<Rightarrow> board" where
  "pit_refresh_timer_at new old b =
     (if refresh_at_enable b \<and> new \<and> \<not> old then b\<lparr>ppi_pb := ppi_pb b XOR 0x10\<rparr> else b)"

definition pit_speaker_timer :: "pit \<Rightarrow> bool \<Rightarrow> board \<Rightarrow> board" where
  "pit_speaker_timer d new b =
     (let b1 = b\<lparr>btrace := btrace b @ (if cassette b then [CasSetOut new] else []) @ [SpeakerUpdate]\<rparr>;
          n = pit_ctr_get_count 2 d;
          len = (if n \<noteq> 0 then unat n else 0x10000)
      in b1\<lparr>speakon := (if len < 25 then False else new), ppispeakon := new\<rparr>)"

definition pit_nmi_timer_ps2 :: "bool \<Rightarrow> board \<Rightarrow> board" where
  "pit_nmi_timer_ps2 new b =
     b\<lparr>nmi := new, nmi_auto_clear := (if new then True else nmi_auto_clear b)\<rparr>"

section \<open>Counting\<close>

lemma sint_small: "unat (w::u32) \<le> 0x10000 \<Longrightarrow> sint w = int (unat w)"
proof -
  assume "unat w \<le> 0x10000"
  then have "uint w < 2 ^ 31" by (simp add: uint_nat del: of_nat_unat)
  moreover have "- (2 ^ 31) \<le> uint w" by (rule order_trans [OF _ uint_ge_0]) simp
  ultimately have "signed_take_bit 31 (uint w) = uint w" by (simp add: signed_take_bit_int_eq_self)
  moreover have "sint (word_of_int (uint w) :: u32) = signed_take_bit 31 (uint w)"
    by (simp only: sint_sbintrunc') simp
  ultimately show ?thesis by simp
qed

lemma sint_compare:
  assumes "unat (w::u32) \<le> 0x10000"
  shows "sint w < 1 \<longleftrightarrow> unat w < 1" "1 \<le> sint w \<longleftrightarrow> 1 \<le> unat w" "sint w < 2 \<longleftrightarrow> unat w < 2"
    "2 \<le> sint w \<longleftrightarrow> 2 \<le> unat w" "\<not> sint w < 0" "0 \<le> sint w"
  using sint_small [OF assms] by (auto simp del: of_nat_unat)

lemma unat_minus_one: "1 \<le> unat (w::u32) \<Longrightarrow> unat (w - 1) = unat w - 1"
  by (simp add: unat_sub word_le_nat_alt)

lemma and_ffff: "unat (w::u32) < 0x10000 \<Longrightarrow> w AND 0xffff = w"
proof -
  assume "unat w < 0x10000"
  then have "unat (take_bit 16 w) = unat w"
    by (simp add: unsigned_take_bit_eq take_bit_nat_eq_self)
  then have "take_bit 16 w = w" by (simp only: word_unat_eq_iff)
  moreover have "(0xffff::u32) = mask 16" by (simp add: mask_eq_exp_minus_1)
  ultimately show ?thesis by (simp add: take_bit_eq_mask)
qed

lemma decrease_binary:
  assumes "\<not> bcd c" "1 \<le> unat (count c)" "unat (count c) \<le> 0x10000"
  shows "ctr_decrease_count c = c\<lparr>count := count c - 1\<rparr>"
  using assms unat_minus_one [OF assms(2)] and_ffff [of "count c - 1"]
  by (simp add: ctr_decrease_count_def)

lemma set_state_eq [simp]: "set_state n c = c\<lparr>cstate := n\<rparr>"
  by (simp add: set_state_def)

lemma set_out_fields [simp]:
  "count (ctr_set_out v c) = count c" "m (ctr_set_out v c) = m c" "cstate (ctr_set_out v c) = cstate c"
  "gate (ctr_set_out v c) = gate c" "bcd (ctr_set_out v c) = bcd c" "l (ctr_set_out v c) = l c"
  "out (ctr_set_out v c) = v" "out_func (ctr_set_out v c) = out_func c" "wm (ctr_set_out v c) = wm c"
  "newcount (ctr_set_out v c) = newcount c" "using_timer (ctr_set_out v c) = using_timer c"
  by (simp_all add: ctr_set_out_def)

lemma load_count_fields [simp]:
  "count (ctr_load_count c) = full_count (l c)" "m (ctr_load_count c) = m c"
  "cstate (ctr_load_count c) = cstate c" "gate (ctr_load_count c) = gate c" "bcd (ctr_load_count c) = bcd c"
  "l (ctr_load_count c) = l c" "out (ctr_load_count c) = out c" "trace (ctr_load_count c) = trace c"
  "out_func (ctr_load_count c) = out_func c" "newcount (ctr_load_count c) = (full_count (l c) AND 1 \<noteq> 0)"
  by (simp_all add: ctr_load_count_def)

text \<open>A counter loaded with a 16-bit value counts from 1 to 65536.\<close>

lemma full_count_bounds:
  "l c < 0x10000 \<Longrightarrow> 1 \<le> unat (full_count (l c)) \<and> unat (full_count (l c)) \<le> 0x10000"
  by (auto simp: full_count_def word_less_nat_alt unat_eq_0 Suc_le_eq simp flip: word_unat_eq_iff)
    (metis neq0_conv unat_eq_zero)

subsection \<open>Mode 2\<close>

lemma mode2_tick:
  assumes "m c = 2" "\<not> bcd c" "gate c" "cstate c = 2" "3 \<le> unat (count c)" "unat (count c) \<le> 0x10000"
  shows "ctr_tick c = c\<lparr>count := count c - 1\<rparr>"
  using assms unat_minus_one [of "count c"] sint_compare [of "count c"] sint_compare [of "count c - 1"]
    decrease_binary [of c]
  by (simp add: ctr_tick_def tick_mode2_def Let_def)

lemma mode2_last:
  assumes "m c = 2" "\<not> bcd c" "gate c" "cstate c = 2" "unat (count c) = 2"
  shows "ctr_tick c = ctr_set_out False (c\<lparr>count := count c - 1, cstate := 3\<rparr>)"
  using assms unat_minus_one [of "count c"] sint_compare [of "count c"] sint_compare [of "count c - 1"]
    decrease_binary [of c]
  by (simp add: ctr_tick_def tick_mode2_def Let_def)

lemma mode2_reload:
  assumes "m c = 2" "cstate c = 3"
  shows "ctr_tick c = ctr_set_out True (set_state 2 (ctr_load_count c))"
  using assms by (simp add: ctr_tick_def tick_mode2_def)

lemma mode2_run:
  assumes "m c = 2" "\<not> bcd c" "gate c" "cstate c = 2" "unat (count c) \<le> 0x10000"
  shows "k + 2 \<le> unat (count c) \<Longrightarrow> (ctr_tick ^^ k) c = c\<lparr>count := count c - of_nat k\<rparr>"
proof (induction k)
  case (Suc k)
  let ?d = "c\<lparr>count := count c - of_nat k\<rparr>"
  have k: "unat (of_nat k :: u32) = k" using Suc.prems assms(5) by (simp add: unat_of_nat take_bit_nat_eq_self)
  have u: "unat (count c - of_nat k) = unat (count c) - k"
    using Suc.prems k by (simp add: unat_sub word_le_nat_alt)
  have "(ctr_tick ^^ Suc k) c = ctr_tick ?d" using Suc by simp
  also have "\<dots> = ?d\<lparr>count := count ?d - 1\<rparr>"
    using assms Suc.prems by (intro mode2_tick) (simp_all add: u)
  finally show ?case by (simp add: algebra_simps)
qed simp

lemma mode2_period:
  assumes c: "m c = 2" "\<not> bcd c" "gate c" "cstate c = 2" "count c = full_count (l c)" "out c"
    and n: "n = unat (full_count (l c))" "2 \<le> n" "l c < 0x10000" and f: "out_func c = Some f"
  shows "k < n - 1 \<Longrightarrow> out ((ctr_tick ^^ k) c) \<and> trace ((ctr_tick ^^ k) c) = trace c"
    and "\<not> out ((ctr_tick ^^ (n - 1)) c) \<and> trace ((ctr_tick ^^ (n - 1)) c) = trace c @ [OutCall f False True]"
    and "out ((ctr_tick ^^ n) c) \<and> count ((ctr_tick ^^ n) c) = full_count (l c) \<and>
      cstate ((ctr_tick ^^ n) c) = 2 \<and>
      trace ((ctr_tick ^^ n) c) = trace c @ [OutCall f False True, OutCall f True False]"
proof -
  have u: "unat (count c) = n" "unat (count c) \<le> 0x10000"
    using n c(5) full_count_bounds [of c] by simp_all
  note run = mode2_run [OF c(1-4) u(2), unfolded u(1)]
  show "k < n - 1 \<Longrightarrow> out ((ctr_tick ^^ k) c) \<and> trace ((ctr_tick ^^ k) c) = trace c"
    using run [of k] c(6) by simp
  let ?d = "c\<lparr>count := count c - of_nat (n - 2)\<rparr>"
  have n2: "n - 1 = Suc (n - 2)" "n = Suc (n - 1)" using n(2) by simp_all
  have "unat (of_nat (n - 2) :: u32) = n - 2"
    using u by (simp add: unat_of_nat take_bit_nat_eq_self)
  then have "unat (count ?d) = 2" using u(1) n(2) by (simp add: unat_sub word_le_nat_alt)
  then have "ctr_tick ?d = ctr_set_out False (?d\<lparr>count := count ?d - 1, cstate := 3\<rparr>)"
    using c by (intro mode2_last) simp_all
  moreover have "(ctr_tick ^^ (n - 1)) c = ctr_tick ?d"
    unfolding n2(1) using run [of "n - 2"] n(2) by simp
  ultimately have e: "(ctr_tick ^^ (n - 1)) c = ctr_set_out False (?d\<lparr>count := count ?d - 1, cstate := 3\<rparr>)"
    by simp
  then show "\<not> out ((ctr_tick ^^ (n - 1)) c) \<and> trace ((ctr_tick ^^ (n - 1)) c) = trace c @ [OutCall f False True]"
    using c(6) f by (simp add: ctr_set_out_def)
  let ?e = "(ctr_tick ^^ (n - 1)) c"
  have "(ctr_tick ^^ n) c = ctr_tick ?e" by (subst n2(2)) simp
  also have "\<dots> = ctr_set_out True (set_state 2 (ctr_load_count ?e))"
    unfolding e using c(1) by (intro mode2_reload) simp_all
  finally show "out ((ctr_tick ^^ n) c) \<and> count ((ctr_tick ^^ n) c) = full_count (l c) \<and>
      cstate ((ctr_tick ^^ n) c) = 2 \<and>
      trace ((ctr_tick ^^ n) c) = trace c @ [OutCall f False True, OutCall f True False]"
    unfolding e using c(6) f by (simp add: ctr_set_out_def)
qed

subsection \<open>Mode 3\<close>

text \<open>An even count goes down by two to zero, and one step more makes it negative.\<close>

lemma mode3_tick:
  assumes "m c = 3" "\<not> bcd c" "gate c" "cstate c = 2 \<or> cstate c = 3" "\<not> newcount c"
    "2 \<le> unat (count c)" "unat (count c) \<le> 0x10000"
  shows "ctr_tick c = c\<lparr>count := count c - 2\<rparr>"
proof -
  have "unat (count c - 2) = unat (count c) - 2" using assms(6) by (simp add: unat_sub word_le_nat_alt)
  then show ?thesis
    using assms sint_compare [of "count c"] sint_compare [of "count c - 2"]
    by (auto simp: ctr_tick_def tick_mode3_def square_step_def Let_def)
qed

lemma mode3_turn:
  assumes "m c = 3" "\<not> bcd c" "gate c" "\<not> newcount c" "count c = 0"
  shows "cstate c = 2 \<Longrightarrow> ctr_tick c = set_state 3 (ctr_load_count (ctr_set_out False c))"
    and "cstate c = 3 \<Longrightarrow> ctr_tick c = set_state 2 (ctr_load_count (ctr_set_out True c))"
  using assms by (simp_all add: ctr_tick_def tick_mode3_def square_step_def Let_def ctr_load_count_def
      ctr_set_out_def split: option.split)

lemma mode3_run:
  assumes "m c = 3" "\<not> bcd c" "gate c" "cstate c = 2 \<or> cstate c = 3" "\<not> newcount c"
    "unat (count c) \<le> 0x10000"
  shows "2 * k \<le> unat (count c) \<Longrightarrow> (ctr_tick ^^ k) c = c\<lparr>count := count c - of_nat (2 * k)\<rparr>"
proof (induction k)
  case (Suc k)
  let ?d = "c\<lparr>count := count c - of_nat (2 * k)\<rparr>"
  have k: "unat (of_nat (2 * k) :: u32) = 2 * k"
    using Suc.prems assms(6) by (simp add: unat_of_nat take_bit_nat_eq_self del: of_nat_mult)
  have u: "unat (count c - of_nat (2 * k)) = unat (count c) - 2 * k"
    using Suc.prems k by (simp add: unat_sub word_le_nat_alt del: of_nat_mult)
  have "(ctr_tick ^^ Suc k) c = ctr_tick ?d" using Suc by simp
  also have "\<dots> = ?d\<lparr>count := count ?d - 2\<rparr>"
    using assms Suc.prems by (intro mode3_tick) (simp_all add: u del: of_nat_mult)
  finally show ?case by (simp add: algebra_simps)
qed simp

text \<open>A half period from an even count: \<open>j\<close> steps, and the turn.\<close>

lemma mode3_half:
  assumes c: "m c = 3" "\<not> bcd c" "gate c" "\<not> newcount c" and j: "unat (count c) = 2 * j" "2 * j \<le> 0x10000"
    and st: "cstate c = (if v then 3 else 2)"
  shows "k \<le> j \<Longrightarrow> out ((ctr_tick ^^ k) c) = out c \<and> trace ((ctr_tick ^^ k) c) = trace c"
    and "(ctr_tick ^^ (Suc j)) c =
      set_state (if v then 2 else 3) (ctr_load_count (ctr_set_out v (c\<lparr>count := 0\<rparr>)))"
proof -
  have st': "cstate c = 2 \<or> cstate c = 3" using st by simp
  have u: "unat (count c) \<le> 0x10000" using j by simp
  note run = mode3_run [OF c(1-3) st' c(4) u]
  show "k \<le> j \<Longrightarrow> out ((ctr_tick ^^ k) c) = out c \<and> trace ((ctr_tick ^^ k) c) = trace c"
    using run [of k] j by simp
  have "count c = of_nat (2 * j)" using j
    by (simp only: word_unat_eq_iff) (simp add: unat_of_nat take_bit_nat_eq_self del: of_nat_mult)
  then have "(ctr_tick ^^ j) c = c\<lparr>count := 0\<rparr>" using run [of j] j by simp
  then have "(ctr_tick ^^ (Suc j)) c = ctr_tick (c\<lparr>count := 0\<rparr>)" by simp
  also have "\<dots> = set_state (if v then 2 else 3) (ctr_load_count (ctr_set_out v (c\<lparr>count := 0\<rparr>)))"
    using c st by (cases v) (simp_all add: mode3_turn)
  finally show "(ctr_tick ^^ (Suc j)) c =
      set_state (if v then 2 else 3) (ctr_load_count (ctr_set_out v (c\<lparr>count := 0\<rparr>)))" .
qed

text \<open>From a load, odd or even: the first step of an odd count is shorter or longer by one.\<close>

lemma funpow_tick: "(f ^^ (k + j)) c = (f ^^ k) ((f ^^ j) c)"
  by (simp add: funpow_add)

lemma odd_full: "full_count x AND 1 \<noteq> 0 \<longleftrightarrow> odd (unat (full_count x))"
proof -
  have "bit (unat (full_count x)) 0 = bit (full_count x) 0" by (simp add: bit_unsigned_iff)
  then show ?thesis by (simp add: bit_0 and_mask_bits)
qed

lemma mode3_first:
  assumes c: "m c = 3" "\<not> bcd c" "gate c" "newcount c" and st: "cstate c = (if v then 3 else 2)"
    and n: "unat (count c) = n" "3 \<le> n" "n \<le> 0x10000"
  shows "ctr_tick c = c\<lparr>count := count c - (if v then 3 else 1), newcount := False\<rparr>"
proof -
  have "unat (count c - (if v then 3 else 1)) \<le> 0x10000"
    using n by (cases v) (simp_all add: unat_sub word_le_nat_alt)
  from sint_compare [OF this] show ?thesis
    using c st n sint_compare [of "count c"]
    by (cases v) (simp_all add: ctr_tick_def tick_mode3_def square_step_def Let_def)
qed

definition half_ticks :: "bool \<Rightarrow> nat \<Rightarrow> nat" where
  "half_ticks v n = (if odd n then if v then (n + 1) div 2 else (n + 3) div 2 else n div 2 + 1)"

lemma mode3_from_load:
  assumes c: "m c = 3" "\<not> bcd c" "gate c" "cstate c = (if v then 3 else 2)"
    and ld: "count c = full_count (l c)" "newcount c = (full_count (l c) AND 1 \<noteq> 0)"
    and n: "n = unat (full_count (l c))" "2 \<le> n" "l c < 0x10000"
  shows "k < half_ticks v n \<Longrightarrow> out ((ctr_tick ^^ k) c) = out c \<and> trace ((ctr_tick ^^ k) c) = trace c"
    and "(ctr_tick ^^ half_ticks v n) c = set_state (if v then 2 else 3)
      (ctr_load_count (ctr_set_out v (c\<lparr>count := 0, newcount := False\<rparr>)))"
proof -
  have nb: "n \<le> 0x10000" using full_count_bounds [OF n(3)] n(1) by simp
  have "(k < half_ticks v n \<longrightarrow> out ((ctr_tick ^^ k) c) = out c \<and> trace ((ctr_tick ^^ k) c) = trace c) \<and>
    (ctr_tick ^^ half_ticks v n) c = set_state (if v then 2 else 3)
      (ctr_load_count (ctr_set_out v (c\<lparr>count := 0, newcount := False\<rparr>)))"
  proof (cases "odd n")
    case False
    then obtain j where j: "n = 2 * j" by blast
    have nc: "\<not> newcount c" using False ld(2) odd_full [of "l c"] n(1) by simp
    then have eq: "c\<lparr>count := 0, newcount := False\<rparr> = c\<lparr>count := 0\<rparr>" by simp
    have h: "half_ticks v n = Suc j" using j by (simp add: half_ticks_def)
    have uc: "unat (count c) = 2 * j" "2 * j \<le> 0x10000" using ld(1) n(1) nb j by simp_all
    show ?thesis
      unfolding h eq using mode3_half [OF c(1-3) nc uc c(4)] by (simp del: funpow.simps)
  next
    case True
    let ?d = "c\<lparr>count := count c - (if v then 3 else 1), newcount := False\<rparr>"
    have n3: "3 \<le> n" using True n(2) by (cases "n = 2") auto
    have nc: "newcount c" using True ld(2) odd_full [of "l c"] n(1) by simp
    have un: "unat (count c) = n" using ld(1) n(1) by simp
    have tick: "ctr_tick c = ?d" using mode3_first [OF c(1-3) nc c(4) un n3 nb] .
    have "even (n - (if v then 3 else 1))" using True n3 by (cases v) simp_all
    then obtain j where j: "n - (if v then 3 else 1) = 2 * j" by (elim evenE)
    have uj: "unat (count ?d) = 2 * j"
      using un n3 j by (cases v) (simp_all add: unat_sub word_le_nat_alt)
    have h: "half_ticks v n = Suc (Suc j)"
      using True j n3 by (cases v) (auto simp: half_ticks_def elim!: oddE)
    have half: "\<And>k. k \<le> j \<Longrightarrow> out ((ctr_tick ^^ k) ?d) = out c \<and> trace ((ctr_tick ^^ k) ?d) = trace c"
      "(ctr_tick ^^ Suc j) ?d = set_state (if v then 2 else 3) (ctr_load_count (ctr_set_out v (?d\<lparr>count := 0\<rparr>)))"
      using mode3_half [of ?d j v] c uj nb j by (auto split: if_splits)
    have step: "(ctr_tick ^^ Suc i) c = (ctr_tick ^^ i) ?d" for i
      by (simp only: funpow_Suc_right o_def tick)
    show ?thesis
    proof (intro conjI impI)
      assume "k < half_ticks v n"
      then show "out ((ctr_tick ^^ k) c) = out c" "trace ((ctr_tick ^^ k) c) = trace c"
        using half(1) [of "k - 1"] h step [of "k - 1"] by (cases k; simp)+
    next
      show "(ctr_tick ^^ half_ticks v n) c = set_state (if v then 2 else 3)
          (ctr_load_count (ctr_set_out v (c\<lparr>count := 0, newcount := False\<rparr>)))"
        unfolding h step half(2) by (simp add: ctr_load_count_def ctr_set_out_def split: option.split)
    qed
  qed
  then show "k < half_ticks v n \<Longrightarrow> out ((ctr_tick ^^ k) c) = out c \<and> trace ((ctr_tick ^^ k) c) = trace c"
    "(ctr_tick ^^ half_ticks v n) c = set_state (if v then 2 else 3)
      (ctr_load_count (ctr_set_out v (c\<lparr>count := 0, newcount := False\<rparr>)))" by blast+
qed

lemma half_ticks_sum: "half_ticks False n + half_ticks True n = n + 2"
  by (auto simp: half_ticks_def elim!: oddE evenE)

lemma small_of_nat: "k \<le> 0x10000 \<Longrightarrow> unat (of_nat k :: u32) = k"
  by (simp add: unat_of_nat take_bit_nat_eq_self)

subsection \<open>Mode 0\<close>

lemma mode0_load:
  "m c = 0 \<Longrightarrow> cstate c = 1 \<Longrightarrow> ctr_tick c = set_state 2 (ctr_load_count c)"
  by (simp add: ctr_tick_def Let_def)

lemma mode0_tick:
  assumes "m c = 0" "\<not> bcd c" "gate c" "cstate c = 2" "1 \<le> unat (count c)" "unat (count c) \<le> 0x10000"
  shows "ctr_tick c = (if unat (count c) = 1 then ctr_set_out True (c\<lparr>count := count c - 1, cstate := 3\<rparr>)
    else c\<lparr>count := count c - 1\<rparr>)"
  using assms unat_minus_one [of "count c"] sint_compare [of "count c"] sint_compare [of "count c - 1"]
    decrease_binary [of c]
  by (simp add: ctr_tick_def tick_mode0_def count_to_zero_def Let_def)

lemma mode0_run:
  assumes "m c = 0" "\<not> bcd c" "gate c" "cstate c = 2" "unat (count c) \<le> 0x10000"
  shows "k + 1 \<le> unat (count c) \<Longrightarrow> (ctr_tick ^^ k) c = c\<lparr>count := count c - of_nat k\<rparr>"
proof (induction k)
  case (Suc k)
  let ?d = "c\<lparr>count := count c - of_nat k\<rparr>"
  have k: "unat (of_nat k :: u32) = k" using Suc.prems assms(5) by (simp add: unat_of_nat take_bit_nat_eq_self)
  have u: "unat (count c - of_nat k) = unat (count c) - k"
    using Suc.prems k by (simp add: unat_sub word_le_nat_alt)
  have "(ctr_tick ^^ Suc k) c = ctr_tick ?d" using Suc by simp
  also have "\<dots> = ?d\<lparr>count := count ?d - 1\<rparr>"
    using assms Suc.prems by (subst mode0_tick) (simp_all add: u)
  finally show ?case by (simp add: algebra_simps)
qed simp

text \<open>Once the output is high it stays so, and calls no one.\<close>

lemma mode0_done:
  assumes "m c = 0" "cstate c = 3"
  shows "m (ctr_tick c) = 0 \<and> cstate (ctr_tick c) = 3 \<and> out (ctr_tick c) = out c \<and> trace (ctr_tick c) = trace c"
  using assms by (simp add: ctr_tick_def tick_mode0_def ctr_decrease_count_def)

lemma mode0_done_run:
  assumes "m c = 0" "cstate c = 3"
  shows "m ((ctr_tick ^^ k) c) = 0 \<and> cstate ((ctr_tick ^^ k) c) = 3 \<and>
    out ((ctr_tick ^^ k) c) = out c \<and> trace ((ctr_tick ^^ k) c) = trace c"
  using assms by (induction k) (auto simp: mode0_done)

lemma mode0_fires:
  assumes c: "m c = 0" "\<not> bcd c" "gate c" "cstate c = 1" "\<not> out c" "l c < 0x10000" "out_func c = Some f"
    and n: "n = unat (full_count (l c))"
  shows "k \<le> n \<Longrightarrow> \<not> out ((ctr_tick ^^ k) c) \<and> trace ((ctr_tick ^^ k) c) = trace c"
    and "n < k \<Longrightarrow> out ((ctr_tick ^^ k) c) \<and> trace ((ctr_tick ^^ k) c) = trace c @ [OutCall f True False]"
proof -
  let ?c = "set_state 2 (ctr_load_count c)"
  have n1: "1 \<le> n" "n \<le> 0x10000" "unat (count ?c) = n"
    using full_count_bounds [OF c(6)] n by simp_all
  have first: "(ctr_tick ^^ Suc k) c = (ctr_tick ^^ k) ?c" for k
    using mode0_load [OF c(1,4)] by (simp only: funpow_Suc_right o_def)
  have run: "(ctr_tick ^^ k) ?c = ?c\<lparr>count := count ?c - of_nat k\<rparr>" if "k < n" for k
    using mode0_run [of ?c k] c n1 that by simp
  show "k \<le> n \<Longrightarrow> \<not> out ((ctr_tick ^^ k) c) \<and> trace ((ctr_tick ^^ k) c) = trace c"
    using first [of "k - 1"] run [of "k - 1"] c(5) n1(1) by (cases k) simp_all
  let ?d = "?c\<lparr>count := count ?c - of_nat (n - 1)\<rparr>"
  have "unat (of_nat (n - 1) :: u32) = n - 1" using n1 by (intro small_of_nat) simp
  then have ud: "unat (count ?d) = 1"
    using n1 by (simp add: unat_sub word_le_nat_alt)
  have "(ctr_tick ^^ n) ?c = ctr_tick ((ctr_tick ^^ (n - 1)) ?c)"
    using n1(1) by (cases n) simp_all
  also have "\<dots> = ctr_set_out True (?d\<lparr>count := count ?d - 1, cstate := 3\<rparr>)"
    using run [of "n - 1"] n1(1) c ud by (simp add: mode0_tick del: One_nat_def)
  finally have e: "(ctr_tick ^^ Suc n) c = ctr_set_out True (?d\<lparr>count := count ?d - 1, cstate := 3\<rparr>)"
    by (simp only: first)
  show "out ((ctr_tick ^^ k) c) \<and> trace ((ctr_tick ^^ k) c) = trace c @ [OutCall f True False]" if "n < k"
  proof -
    have "(ctr_tick ^^ k) c = (ctr_tick ^^ (k - Suc n)) ((ctr_tick ^^ Suc n) c)"
      using that by (simp only: funpow_tick [symmetric]) simp
    then show ?thesis
      unfolding e using mode0_done_run [of "ctr_set_out True (?d\<lparr>count := count ?d - 1, cstate := 3\<rparr>)" "k - Suc n"]
        c by (simp add: ctr_set_out_def)
  qed
qed

subsection \<open>BCD\<close>

lemma bit_above_nibble: "(v::u32) \<le> 0xf \<Longrightarrow> 4 \<le> k \<Longrightarrow> \<not> bit v k"
proof -
  assume v: "v \<le> 0xf" and k: "4 \<le> k"
  then have "unat v < 2 ^ 4" by (simp add: word_le_nat_alt)
  also have "\<dots> \<le> 2 ^ k" using k by (intro power_increasing) simp_all
  finally have "\<not> bit (unat v) k" by (simp add: bit_iff_odd)
  then show ?thesis by (auto simp: bit_unsigned_iff dest: bit_imp_le_length)
qed

lemma nibble_mask: "(0xf::u32) = mask 4"
  by (simp add: mask_eq_exp_minus_1)

lemma bit_digit: "bit (digit i w) k \<longleftrightarrow> k < 4 \<and> bit w (4 * i + k)"
  by (auto simp: digit_def nibble_mask bit_simps add.commute)

lemma bit_set_digit:
  assumes "v \<le> 0xf"
  shows "bit (set_digit i v w) k \<longleftrightarrow>
    (if 4 * i \<le> k \<and> k < 4 * i + 4 then k < 32 \<and> bit v (k - 4 * i) else bit w k)"
proof -
  have "bit v (k - 4 * i) \<Longrightarrow> 4 * i \<le> k \<Longrightarrow> k < 4 * i + 4"
    using bit_above_nibble [OF assms, of "k - 4 * i"] by force
  then show ?thesis
    by (auto simp: set_digit_def nibble_mask bit_simps dest: bit_imp_le_length)
qed

lemma digit_le: "digit i w \<le> 0xf"
  unfolding digit_def by (rule word_and_le1)

lemma digit_set_digit:
  assumes "v \<le> 0xf" "i < 8"
  shows "digit j (set_digit i v w) = (if i = j then v else digit j w)"
proof (rule word_eq_by_bits)
  fix k assume "k < LENGTH(32)"
  show "bit (digit j (set_digit i v w)) k = bit (if i = j then v else digit j w) k"
  proof (cases "k < 4")
    case True
    then have "4 * i \<le> 4 * j + k \<and> 4 * j + k < 4 * i + 4 \<longleftrightarrow> i = j" by auto
    then show ?thesis using True assms(2) by (auto simp: bit_digit bit_set_digit [OF assms(1)])
  next
    case False
    then show ?thesis using bit_above_nibble [OF assms(1)] by (auto simp: bit_digit)
  qed
qed

definition bcd_ok :: "u32 \<Rightarrow> bool" where
  "bcd_ok w \<longleftrightarrow> (\<forall>i \<in> {0, 1, 2, 3, 4}. unat (digit i w) \<le> 9)"

definition bcd_val :: "u32 \<Rightarrow> nat" where
  "bcd_val w = unat (digit 0 w) + 10 * unat (digit 1 w) + 100 * unat (digit 2 w) +
     1000 * unat (digit 3 w) + 10000 * unat (digit 4 w)"

lemma dec_digit:
  assumes "digit i w \<noteq> 0"
  shows "digit i w - 1 \<le> 0xf" "unat (digit i w - 1) = unat (digit i w) - 1" "1 \<le> unat (digit i w)"
proof -
  have "unat (digit i w) \<noteq> 0" using assms by (simp only: word_unat_eq_iff unat_0) simp
  then show 1: "1 \<le> unat (digit i w)" by simp
  then show 2: "unat (digit i w - 1) = unat (digit i w) - 1" by (rule unat_minus_one)
  show "digit i w - 1 \<le> 0xf" using digit_le [of i w] 2 by (simp add: word_le_nat_alt)
qed

lemma dec_digitE:
  assumes "digit i w \<noteq> 0"
  obtains e where "unat (digit i w) = Suc e" "unat (digit i w - 1) = e" "digit i w - 1 \<le> 0xf"
  using dec_digit [OF assms] by (cases "unat (digit i w)") auto

lemma bcd_decrease_ok:
  assumes "bcd_ok w"
  shows "bcd_ok (bcd_decrease [0, 1, 2, 3, 4] w) \<and>
    bcd_val (bcd_decrease [0, 1, 2, 3, 4] w) = (if bcd_val w = 0 then 99999 else bcd_val w - 1)"
proof -
  note simps = digit_set_digit bcd_ok_def bcd_val_def
  have d: "unat (digit 0 w) \<le> 9" "unat (digit 1 w) \<le> 9" "unat (digit 2 w) \<le> 9"
    "unat (digit 3 w) \<le> 9" "unat (digit 4 w) \<le> 9"
    using assms by (auto simp: bcd_ok_def)
  consider (0) "digit 0 w \<noteq> 0" | (1) "digit 0 w = 0" "digit 1 w \<noteq> 0"
    | (2) "digit 0 w = 0" "digit 1 w = 0" "digit 2 w \<noteq> 0"
    | (3) "digit 0 w = 0" "digit 1 w = 0" "digit 2 w = 0" "digit 3 w \<noteq> 0"
    | (4) "digit 0 w = 0" "digit 1 w = 0" "digit 2 w = 0" "digit 3 w = 0" "digit 4 w \<noteq> 0"
    | (5) "digit 0 w = 0" "digit 1 w = 0" "digit 2 w = 0" "digit 3 w = 0" "digit 4 w = 0"
    by blast
  then show ?thesis
  proof cases
    case 0
    obtain e where "unat (digit 0 w) = Suc e" "unat (digit 0 w - 1) = e" "digit 0 w - 1 \<le> 0xf"
      using dec_digitE [OF 0] by blast
    then show ?thesis using 0 d by (simp add: simps)
  next
    case 1
    obtain e where "unat (digit 1 w) = Suc e" "unat (digit 1 w - 1) = e" "digit 1 w - 1 \<le> 0xf"
      using dec_digitE [OF 1(2)] by blast
    then show ?thesis using 1 d by (simp add: simps)
  next
    case 2
    obtain e where "unat (digit 2 w) = Suc e" "unat (digit 2 w - 1) = e" "digit 2 w - 1 \<le> 0xf"
      using dec_digitE [OF 2(3)] by blast
    then show ?thesis using 2 d by (simp add: simps)
  next
    case 3
    obtain e where "unat (digit 3 w) = Suc e" "unat (digit 3 w - 1) = e" "digit 3 w - 1 \<le> 0xf"
      using dec_digitE [OF 3(4)] by blast
    then show ?thesis using 3 d by (simp add: simps)
  next
    case 4
    obtain e where "unat (digit 4 w) = Suc e" "unat (digit 4 w - 1) = e" "digit 4 w - 1 \<le> 0xf"
      using dec_digitE [OF 4(5)] by blast
    then show ?thesis using 4 d by (simp add: simps)
  next
    case 5
    then show ?thesis by (simp add: simps)
  qed
qed

lemma bcd_decrease_bit31:
  assumes "set is \<subseteq> {0, 1, 2, 3, 4}"
  shows "bit (bcd_decrease is w) 31 = bit w 31"
  using assms
proof (induction "is" arbitrary: w)
  case (Cons i "is")
  have "bit (set_digit i 9 w) 31 = bit w 31" "digit i w \<noteq> 0 \<Longrightarrow> bit (set_digit i (digit i w - 1) w) 31 = bit w 31"
    using Cons.prems dec_digit(1) [of i w] by (auto simp: bit_set_digit)
  then show ?case using Cons by simp
qed simp

section \<open>Reading\<close>

text \<open>What a read of a latched counter depends on; counting does not change it.\<close>

definition rdview :: "ctr \<Rightarrow> u16 \<times> u32 \<times> nat \<times> bool \<times> u8" where
  "rdview c = (rl c, rm c, latched c, do_read_status c, read_status c)"

lemma rdview_simps [simp]:
  "rdview (ctr_set_out v c) = rdview c" "rdview (ctr_load_count c) = rdview c"
  "rdview (ctr_decrease_count c) = rdview c" "rdview (c\<lparr>cstate := n\<rparr>) = rdview c"
  "rdview (c\<lparr>count := w\<rparr>) = rdview c" "rdview (c\<lparr>newcount := b\<rparr>) = rdview c"
  "rdview (c\<lparr>trace := t\<rparr>) = rdview c" "rdview (c\<lparr>clock := b\<rparr>) = rdview c"
  "rdview (c\<lparr>s1_det := k\<rparr>) = rdview c" "rdview (c\<lparr>latch := b\<rparr>) = rdview c"
  "rdview (c\<lparr>incomplete := b\<rparr>) = rdview c"
  by (simp_all add: rdview_def ctr_set_out_def ctr_load_count_def ctr_decrease_count_def)

lemma rdview_tick [simp]: "rdview (ctr_tick c) = rdview c"
proof -
  have z: "rdview (count_to_zero v c) = rdview c" for v c by (simp add: count_to_zero_def Let_def)
  have "rdview (tick_mode0 c) = rdview c" by (simp add: tick_mode0_def z)
  moreover have "rdview (tick_mode1 c) = rdview c" by (simp add: tick_mode1_def z)
  moreover have "rdview (tick_mode2 c) = rdview c" by (simp add: tick_mode2_def Let_def)
  moreover have "rdview (square_step v n c) = rdview c" for v n c by (simp add: square_step_def)
  then have "rdview (tick_mode3 c) = rdview c" by (simp add: tick_mode3_def Let_def)
  moreover have "rdview (tick_mode45 c) = rdview c" by (simp add: tick_mode45_def z)
  ultimately show ?thesis by (simp add: ctr_tick_def Let_def)
qed

lemma rdview_set_clock [simp]: "rdview (ctr_set_clock ck c) = rdview c"
proof -
  have "rdview (ctr_set_state_1 c) = rdview c" for c by (simp add: ctr_set_state_1_def Let_def)
  then show ?thesis by (simp add: ctr_set_clock_def Let_def)
qed

lemma on_ctr_counters:
  "length (counters (on_ctr j f d)) = length (counters d)"
  "i < length (counters d) \<Longrightarrow> counters (on_ctr j f d) ! i =
     (if i = j then (f ((counters d ! i)\<lparr>trace := []\<rparr>))\<lparr>trace := []\<rparr> else counters d ! i)"
  by (auto simp: on_ctr_def Let_def log_pit_def)

lemma timer_over_view:
  assumes "i < length (counters d)"
  shows "rdview (counters (pit_timer_over d) ! i) = rdview (counters d ! i) \<and>
    length (counters (pit_timer_over d)) = length (counters d)"
proof -
  have step: "rdview (counters (pit_ctr_set_clock j ck e) ! i) = rdview (counters e ! i) \<and>
      length (counters (pit_ctr_set_clock j ck e)) = length (counters e)"
    if "i < length (counters e)" for j ck e
    using that by (simp add: pit_ctr_set_clock_def on_ctr_counters)
  then show ?thesis using assms by (simp add: pit_timer_over_def Let_def log_pit_def)
qed

lemma timer_over_run:
  assumes "i < length (counters d)"
  shows "rdview (counters ((pit_timer_over ^^ k) d) ! i) = rdview (counters d ! i) \<and>
    length (counters ((pit_timer_over ^^ k) d)) = length (counters d)"
  using assms timer_over_view by (induction k) auto

text \<open>The value a latch command stores.\<close>

definition live_count :: "ctr \<Rightarrow> u32" where
  "live_count c = (if latch c \<or> cstate c = 1 then l c else count c)"

definition latch_command :: "nat \<Rightarrow> pit \<Rightarrow> pit" where
  "latch_command i d = pit_write 0x43 (push_bit 6 (word_of_nat i)) d"

definition read_twice :: "nat \<Rightarrow> pit \<Rightarrow> u8 \<times> u8" where
  "read_twice i d = (case pit_read (0x40 + word_of_nat i) d of (lo, d1) \<Rightarrow>
     (lo, fst (pit_read (0x40 + word_of_nat i) d1)))"

lemma latch_command_eq:
  "i < 3 \<Longrightarrow> latch_command i d = on_ctr i ctr_latch_count (d\<lparr>pctrl := push_bit 6 (word_of_nat i)\<rparr>)"
proof -
  assume "i < 3"
  then have "i = 0 \<or> i = 1 \<or> i = 2" by auto
  then show ?thesis by (elim disjE) (simp_all add: latch_command_def pit_write_def Let_def)
qed

lemma latched_reads:
  assumes "i < 3" "length (counters d) = 3" "rdview (counters d ! i) = (n, 3, 2, False, st)"
  shows "read_twice i d = (ucast n, ucast (drop_bit 8 n))"
proof -
  have v: "rl (counters d ! i) = n" "rm (counters d ! i) = 3" "latched (counters d ! i) = 2"
    "\<not> do_read_status (counters d ! i)"
    using assms(3) by (auto simp: rdview_def)
  have a: "unat ((0x40 + word_of_nat i :: u16) AND 3) = i" "(0x40 + word_of_nat i :: u16) AND 3 \<noteq> 3"
    using assms(1) by (auto simp: less_Suc_eq numeral_3_eq_3)
  have "ctr_read (counters d ! i) = (ucast n, (counters d ! i)\<lparr>rm := 0x83, latched := 1\<rparr>)"
    using v by (simp add: ctr_read_def flip_rm_def Let_def)
  then show ?thesis
    using assms v a by (simp add: read_twice_def pit_read_def on_ctr_counters)
      (simp add: ctr_read_def flip_rm_def Let_def)
qed

section \<open>Properties\<close>

text \<open>A counter as a driver leaves it: loaded with \<open>n\<close>, counting, with the output of mode \<open>k\<close>.\<close>

definition running :: "u8 \<Rightarrow> u32 \<Rightarrow> ctr" where
  "running k n = (ctr_load_count (zero_ctr\<lparr>m := k, l := n, gate := True, out_func := Some Irq0\<rparr>))
     \<lparr>cstate := 2, out := True\<rparr>"

text \<open>
  Claim C31: In mode 2 with the gate high and a binary count of \<open>n \<ge> 2\<close> (65536 for 0),
  just loaded and counting with the output high, the output stays high for \<open>n - 1\<close> ticks, is
  low for the last one, and after exactly \<open>n\<close> ticks the counter is reloaded with the output
  high: one falling and one rising edge each period.
\<close>

theorem pit_rate_generator_period:
  assumes "m c = 2" and "\<not> bcd c" and "gate c" and "cstate c = 2" and "count c = full_count (l c)"
    and "out c" and "l c < 0x10000" and "out_func c = Some f" and "n = unat (full_count (l c))" and "2 \<le> n"
  shows "(\<forall>k < n - 1. out ((ctr_tick ^^ k) c) \<and> trace ((ctr_tick ^^ k) c) = trace c) \<and>
    \<not> out ((ctr_tick ^^ (n - 1)) c) \<and>
    out ((ctr_tick ^^ n) c) \<and> count ((ctr_tick ^^ n) c) = full_count (l c) \<and>
    cstate ((ctr_tick ^^ n) c) = 2 \<and>
    trace ((ctr_tick ^^ n) c) = trace c @ [OutCall f False True, OutCall f True False]"
  using mode2_period [OF assms(1-6) assms(9,10,7,8)] by blast

lemma pit_rate_generator_period_witness:
  "out ((ctr_tick ^^ 3) (running 2 5)) \<and> \<not> out ((ctr_tick ^^ 4) (running 2 5)) \<and>
    out ((ctr_tick ^^ 5) (running 2 5)) \<and>
    trace ((ctr_tick ^^ 5) (running 2 5)) = [OutCall Irq0 False True, OutCall Irq0 True False]"
proof -
  have c: "unat (full_count (l (running 2 5))) = 5" "trace (running 2 5) = []"
    by (simp_all add: running_def zero_ctr_def full_count_def ctr_load_count_def)
  have "m (running 2 5) = 2 \<and> \<not> bcd (running 2 5) \<and> gate (running 2 5) \<and> cstate (running 2 5) = 2 \<and>
      count (running 2 5) = full_count (l (running 2 5)) \<and> out (running 2 5) \<and> l (running 2 5) < 0x10000 \<and>
      out_func (running 2 5) = Some Irq0"
    by (simp add: running_def zero_ctr_def full_count_def ctr_load_count_def)
  then show ?thesis using pit_rate_generator_period [of "running 2 5" Irq0 5] c by auto
qed

text \<open>
  Claim C35: In mode 3 with the gate high and a binary count of \<open>n \<ge> 2\<close> (65536 for 0),
  just loaded and counting with the output high, the counter gives a square wave whose period is \<open>n
  + 2\<close> ticks, not \<open>n\<close>: the output is high for \<open>half_ticks False n\<close> ticks
  and low for \<open>half_ticks True n\<close>, each of them one more than the half of \<open>n\<close> it
  stands for.
\<close>

theorem pit_square_wave_period:
  assumes c: "m c = 3" "\<not> bcd c" "gate c" "cstate c = 2" "count c = full_count (l c)"
    "newcount c = (full_count (l c) AND 1 \<noteq> 0)" "out c" "out_func c = Some f"
    and n: "n = unat (full_count (l c))" "2 \<le> n" "l c < 0x10000"
  shows "(\<forall>k < half_ticks False n. out ((ctr_tick ^^ k) c)) \<and>
    (\<forall>k. half_ticks False n \<le> k \<and> k < n + 2 \<longrightarrow> \<not> out ((ctr_tick ^^ k) c)) \<and>
    out ((ctr_tick ^^ (n + 2)) c) \<and> count ((ctr_tick ^^ (n + 2)) c) = full_count (l c) \<and>
    cstate ((ctr_tick ^^ (n + 2)) c) = 2 \<and>
    trace ((ctr_tick ^^ (n + 2)) c) = trace c @ [OutCall f False True, OutCall f True False]"
proof -
  let ?h = "half_ticks False n"
  let ?d = "set_state 3 (ctr_load_count (ctr_set_out False (c\<lparr>count := 0, newcount := False\<rparr>)))"
  have st: "cstate c = (if False then 3 else 2)" using c(4) by simp
  note one = mode3_from_load [OF c(1-3) st c(5,6) n]
  have d: "(ctr_tick ^^ ?h) c = ?d" using one(2) by simp
  have two: "k < half_ticks True n \<Longrightarrow> out ((ctr_tick ^^ k) ?d) = out ?d \<and> trace ((ctr_tick ^^ k) ?d) = trace ?d"
    "(ctr_tick ^^ half_ticks True n) ?d = set_state 2
      (ctr_load_count (ctr_set_out True (?d\<lparr>count := 0, newcount := False\<rparr>)))" for k
    using mode3_from_load [of ?d True n] c n by simp_all
  have shift: "(ctr_tick ^^ (k + ?h)) c = (ctr_tick ^^ k) ?d" for k
    by (simp only: funpow_tick d)
  have "\<not> out ((ctr_tick ^^ k) c)" if "?h \<le> k" "k < n + 2" for k
    using shift [of "k - ?h"] two(1) [of "k - ?h"] that half_ticks_sum [of n] by simp
  moreover have "(ctr_tick ^^ (n + 2)) c = (ctr_tick ^^ half_ticks True n) ?d"
    using shift [of "half_ticks True n"] half_ticks_sum [of n] by (simp only: add.commute)
  ultimately show ?thesis
    using one(1) c two(2) by (simp add: ctr_set_out_def del: funpow.simps)
qed

lemma pit_square_wave_period_witness:
  "out ((ctr_tick ^^ 3) (running 3 5)) \<and> \<not> out ((ctr_tick ^^ 4) (running 3 5)) \<and>
    \<not> out ((ctr_tick ^^ 6) (running 3 5)) \<and> out ((ctr_tick ^^ 7) (running 3 5))"
proof -
  have c: "unat (full_count (l (running 3 5))) = 5"
    by (simp add: running_def zero_ctr_def full_count_def ctr_load_count_def)
  have "m (running 3 5) = 3 \<and> \<not> bcd (running 3 5) \<and> gate (running 3 5) \<and> cstate (running 3 5) = 2 \<and>
      count (running 3 5) = full_count (l (running 3 5)) \<and>
      newcount (running 3 5) = (full_count (l (running 3 5)) AND 1 \<noteq> 0) \<and> out (running 3 5) \<and>
      out_func (running 3 5) = Some Irq0 \<and> l (running 3 5) < 0x10000"
    by (simp add: running_def zero_ctr_def full_count_def ctr_load_count_def)
  then show ?thesis
    using pit_square_wave_period [of "running 3 5" Irq0 5] c by (auto simp: half_ticks_def)
qed

text \<open>
  In mode 0 a counter armed with \<open>n\<close> raises its output once, on the tick after the load
  tick and \<open>n\<close> counts, not before, and neither lowers it nor calls its handler again.
\<close>

theorem pit_terminal_count:
  assumes "m c = 0" and "\<not> bcd c" and "gate c" and "cstate c = 1" and "\<not> out c" and "l c < 0x10000"
    and "out_func c = Some f" and "n = unat (full_count (l c))"
  shows "(\<forall>k \<le> n. \<not> out ((ctr_tick ^^ k) c) \<and> trace ((ctr_tick ^^ k) c) = trace c) \<and>
    (\<forall>k > n. out ((ctr_tick ^^ k) c) \<and> trace ((ctr_tick ^^ k) c) = trace c @ [OutCall f True False])"
  using mode0_fires [OF assms] by blast

lemma pit_terminal_count_witness:
  "\<not> out ((ctr_tick ^^ 3) ((running 0 3)\<lparr>cstate := 1, out := False\<rparr>)) \<and>
    out ((ctr_tick ^^ 4) ((running 0 3)\<lparr>cstate := 1, out := False\<rparr>))"
proof -
  let ?c = "(running 0 3)\<lparr>cstate := 1, out := False\<rparr>"
  have "m ?c = 0 \<and> \<not> bcd ?c \<and> gate ?c \<and> cstate ?c = 1 \<and> \<not> out ?c \<and> l ?c < 0x10000 \<and>
      out_func ?c = Some Irq0 \<and> 3 = unat (full_count (l ?c))"
    by (simp add: running_def zero_ctr_def full_count_def ctr_load_count_def)
  then show ?thesis using pit_terminal_count [of ?c Irq0 3] by auto
qed

text \<open>
  Claim C36: Decrementing a BCD count of valid digits subtracts one from its decimal value and keeps
  its digits valid; from 0 it wraps to 99999, not to the 9999 that the comment in the code names.
\<close>

theorem pit_bcd_decrement:
  assumes "bcd c" and "bcd_ok (count c)"
  shows "bcd_ok (count (ctr_decrease_count c)) \<and>
    bcd_val (count (ctr_decrease_count c)) = (if bcd_val (count c) = 0 then 99999 else bcd_val (count c) - 1)"
  using bcd_decrease_ok [OF assms(2)] assms(1) by (simp add: ctr_decrease_count_def)

lemma pit_bcd_decrement_witness:
  "bcd_ok (count (ctr_decrease_count (zero_ctr\<lparr>bcd := True, count := 0x1000\<rparr>))) \<and>
    bcd_val (count (ctr_decrease_count (zero_ctr\<lparr>bcd := True, count := 0x1000\<rparr>))) =
      (if bcd_val (count (zero_ctr\<lparr>bcd := True, count := 0x1000\<rparr>)) = 0 then 99999
       else bcd_val (count (zero_ctr\<lparr>bcd := True, count := 0x1000\<rparr>)) - 1)"
  by (rule pit_bcd_decrement) (simp_all add: bcd_ok_def digit_def)

text \<open>
  Claim C40: A counter in mode 3 and BCD that is counting (in either half of the wave, its count not
  negative) never changes its output, however many ticks it gets: its digits wrap to nines and the count
  never becomes negative, which is the only thing that turns the wave.
\<close>

theorem pit_bcd_square_wave_stuck:
  assumes "m c = 3" and "bcd c" and "cstate c = 2 \<or> cstate c = 3" and "\<not> bit (count c) 31"
  shows "out ((ctr_tick ^^ k) c) = out c \<and> trace ((ctr_tick ^^ k) c) = trace c"
proof -
  have "m ((ctr_tick ^^ k) c) = 3 \<and> bcd ((ctr_tick ^^ k) c) \<and> cstate ((ctr_tick ^^ k) c) = cstate c \<and>
    \<not> bit (count ((ctr_tick ^^ k) c)) 31 \<and> out ((ctr_tick ^^ k) c) = out c \<and> trace ((ctr_tick ^^ k) c) = trace c"
  proof (induction k)
    case (Suc k)
    have dec: "ctr_decrease_count x = x\<lparr>count := bcd_decrease [0, 1, 2, 3, 4] (count x)\<rparr>" if "bcd x" for x
      using that by (simp add: ctr_decrease_count_def)
    have b31: "bit (bcd_decrease [0, 1, 2, 3, 4] w) 31 = bit w 31" for w
      by (rule bcd_decrease_bit31) simp
    have neg: "\<not> sint w < 0" if "\<not> bit w 31" for w :: u32
      using that by (simp add: not_less bit_last_iff [symmetric])
    show ?case
      using Suc assms(3) b31 neg
      by (auto simp: ctr_tick_def tick_mode3_def square_step_def Let_def dec simp del: bcd_decrease.simps)
  qed (use assms in simp)
  then show ?thesis by blast
qed

lemma pit_bcd_square_wave_stuck_witness:
  "out ((ctr_tick ^^ 100) ((running 3 4)\<lparr>bcd := True\<rparr>)) = out ((running 3 4)\<lparr>bcd := True\<rparr>) \<and>
    trace ((ctr_tick ^^ 100) ((running 3 4)\<lparr>bcd := True\<rparr>)) = trace ((running 3 4)\<lparr>bcd := True\<rparr>)"
  by (rule pit_bcd_square_wave_stuck)
    (simp_all add: running_def zero_ctr_def full_count_def ctr_load_count_def)

text \<open>
  Claim C29: A count latched from a counter in two-byte mode (\<open>rm\<close> is 3, and no latched
  status is waiting to be read) is read back unchanged, low byte first, however many clock edges the
  counters see between the latch command and the reads.
\<close>

theorem pit_latched_count_survives:
  assumes "i < 3" and "length (counters d) = 3" and "rm (counters d ! i) = 3"
    and "\<not> do_read_status (counters d ! i)"
  shows "read_twice i ((pit_timer_over ^^ k) (latch_command i d)) =
    (ucast (live_count (counters d ! i)), ucast (drop_bit 8 (live_count (counters d ! i))))"
proof -
  let ?c = "counters d ! i" and ?d = "latch_command i d"
  let ?n = "ucast (live_count ?c) :: u16"
  have "rdview (counters ?d ! i) = (?n, 3, 2, False, read_status ?c)" "length (counters ?d) = 3"
    using assms by (simp_all add: latch_command_eq on_ctr_counters ctr_latch_count_def live_count_def rdview_def Let_def)
  then have "rdview (counters ((pit_timer_over ^^ k) ?d) ! i) = (?n, 3, 2, False, read_status ?c)"
    "length (counters ((pit_timer_over ^^ k) ?d)) = 3"
    using timer_over_run [of i ?d k] assms(1) by simp_all
  then have "read_twice i ((pit_timer_over ^^ k) ?d) = (ucast ?n, ucast (drop_bit 8 ?n))"
    using latched_reads [OF assms(1)] by blast
  moreover have "ucast ?n = (ucast (live_count ?c) :: u8)"
    "ucast (drop_bit 8 ?n) = (ucast (drop_bit 8 (live_count ?c)) :: u8)"
    by (rule word_eq_by_bits; auto simp: bit_simps)+
  ultimately show ?thesis by simp
qed

definition at_pit :: pit where
  "at_pit = pit_write 0x40 0x12 (pit_write 0x40 0x34 (pit_write 0x43 0x34
     (pit_common_init 0 8 True (Some Irq0) None
       \<lparr>flags = 0, pclock = False, counters = [], pctrl = 0, pit_const = 0, ptrace = []\<rparr>)))"

lemma pit_latched_count_survives_witness:
  "read_twice 0 ((pit_timer_over ^^ 9) (latch_command 0 at_pit)) =
    (ucast (live_count (counters at_pit ! 0)), ucast (drop_bit 8 (live_count (counters at_pit ! 0))))"
  by (rule pit_latched_count_survives; code_simp)

text \<open>
  In a one-byte read mode, reading a latched count leaves the byte pointer set, so the
  next read of the running counter returns FFh whatever the count is.
\<close>

theorem pit_one_byte_latch_breaks_read:
  assumes "rm c = 1 \<or> rm c = 2" and "\<not> do_read_status c"
  shows "case ctr_read (ctr_latch_count c) of (v, c1) \<Rightarrow>
    v = ucast (if rm c = 1 then live_count c else drop_bit 8 (live_count c)) \<and>
    latched c1 = 0 \<and> fst (ctr_read c1) = 0xff"
proof -
  have "ucast (ucast ((push_bit 8 n AND 0xff00) OR (n AND 0xff)) :: u16) = (ucast n :: u8)"
    "ucast (ucast ((n AND 0xff00) OR (drop_bit 8 n AND 0xff)) :: u16) = (ucast (drop_bit 8 n) :: u8)" for n :: u32
  proof -
    have b: "(0xff::u32) = mask 8" "(0xff00::u32) = push_bit 8 (mask 8)"
      by (simp_all add: mask_eq_exp_minus_1 push_bit_eq_mult)
    show "ucast (ucast ((push_bit 8 n AND 0xff00) OR (n AND 0xff)) :: u16) = (ucast n :: u8)"
      "ucast (ucast ((n AND 0xff00) OR (drop_bit 8 n AND 0xff)) :: u16) = (ucast (drop_bit 8 n) :: u8)"
      by (auto intro!: word_eq_by_bits simp: b bit_simps)
  qed
  note bytes = this
  define x where "x = rl (ctr_latch_count c)"
  define n where "n = live_count c"
  have lc: "ctr_latch_count c = c\<lparr>rl := x, latched := 1\<rparr>"
    using assms(1) unfolding x_def ctr_latch_count_def Let_def by (elim disjE) simp_all
  have "x = (if rm c = 1 then ucast ((push_bit 8 n AND 0xff00) OR (n AND 0xff))
      else ucast ((n AND 0xff00) OR (drop_bit 8 n AND 0xff)))"
    using assms(1) unfolding x_def n_def ctr_latch_count_def live_count_def Let_def
    by (elim disjE) simp_all
  then have "ucast x = (ucast (if rm c = 1 then n else drop_bit 8 n) :: u8)"
    by (cases "rm c = 1") (simp_all only: bytes if_True if_False simp_thms)
  then show ?thesis
    using assms unfolding lc n_def by (elim disjE) (simp_all add: ctr_read_def flip_rm_def Let_def)
qed

lemma pit_one_byte_latch_breaks_read_witness:
  "case ctr_read (ctr_latch_count ((running 2 9)\<lparr>rm := 1\<rparr>)) of (v, c1) \<Rightarrow>
    v = ucast (if rm ((running 2 9)\<lparr>rm := 1\<rparr>) = 1 then live_count ((running 2 9)\<lparr>rm := 1\<rparr>)
               else drop_bit 8 (live_count ((running 2 9)\<lparr>rm := 1\<rparr>))) \<and>
    latched c1 = 0 \<and> fst (ctr_read c1) = 0xff"
  by (rule pit_one_byte_latch_breaks_read) (simp_all add: running_def zero_ctr_def ctr_load_count_def)

text \<open>
  \<open>pit_init\<close> adds and starts the callback timer for every device, also for those whose
  flags say that they are the second PS/2 timer or clocked from outside, because it tests the flags
  before it stores them.
\<close>

theorem pit_init_always_arms_timer:
  "\<exists>es. ptrace (pit_init PITCONST local d) =
     ptrace d @ [TimerAddOver, TimerSetDelay (drop_bit 1 PITCONST)] @ es \<and>
   flags (pit_init PITCONST local d) = local"
  by (simp add: pit_init_def Let_def pit_reset_def pit_set_pit_const_def log_pit_def)

text \<open>
  Claim C38: A rising edge of counter 0 leaves IRQ 0 requested and a falling edge leaves it withdrawn at
  the master, as long as neither the master's nor the slave's cascade (ICW3) uses that line.
\<close>

theorem pit_irq0_edges:
  assumes "\<not> bit (icw3 (pic s)) 0" and "unat (icw3 (pic2 s)) \<noteq> 0"
  shows "bit (irr (pic (pit_irq0_timer True False s))) 0 \<and>
    \<not> bit (irr (pic (pit_irq0_timer False True s))) 0"
proof -
  have r: "fst (route_slaves (pic s) [0..<8] 1 0) = 1"
    using route_slaves_skip [of "[0..<8]" "pic s" 0 0] assms(1) by (auto intro: ccontr)
  obtain k where k: "route_slaves (pic s) [0..<8] 1 0 = (1, k)" using r by (metis prod.collapse)
  have "picint 1 s = update_pending (raise_irqs 1 s)" "picintc 1 s = update_pending (lower_irqs 1 s)"
    unfolding picint_def picintc_def picint_common_def k by (simp_all add: Let_def)
  then show ?thesis
    using assms(2)
    by (simp add: pit_irq0_timer_def update_irr_other raise_irqs_pics lower_irqs_pics bit_or_iff bit_and_iff bit_not_iff)
qed

lemma pit_irq0_edges_witness:
  "bit (irr (pic (pit_irq0_timer True False bios_at))) 0 \<and>
    \<not> bit (irr (pic (pit_irq0_timer False True bios_at))) 0"
  by (rule pit_irq0_edges; code_simp)

end
