(* ===== verification/Dma.thy ===== *)
theory Dma
  imports Prelude
begin

text \<open>
  The 8237 DMA controllers of \<open>src/src/dma.c\<close>: the eight channels, the byte and word ports, the page
  registers, software requests and memory-to-memory transfers, the scatter/gather extension, the
  PS/2 extended interface, and the transfers that devices make.

  What the file calls elsewhere is a record \<open>bus\<close> of functions on the rest of the machine, of a
  type \<open>'m\<close> left open: physical memory (\<open>mem_readb_phys\<close>, \<open>mem_writeb_phys\<close>,
  \<open>mem_read_phys\<close>, \<open>mem_write_phys\<close>), the I/O ports (\<open>inb\<close>, \<open>inw\<close>, \<open>outb\<close>, \<open>outw\<close>),
  \<open>picint(1 << 13)\<close>, \<open>refreshread\<close>, \<open>mem_invalidate_range\<close> and \<open>ps2_cache_clean\<close>. They
  do not call back into this file. The \<open>int\<close> fields \<open>cc\<close> and \<open>count\<close> are words compared
  by their signed value; a value an \<open>int\<close> routine returns is a word too. \<open>fatal()\<close> is \<open>Inl\<close>.
  The loops of a block transfer and of the PS/2 interface are partial functions, \<open>None\<close> when they do
  not end; a scatter/gather transfer that finds an empty block, on which the loop of \<open>dma_sg\<close>
  would spin, sets \<open>hung\<close>. Registration of port handlers and the MegaPC special case of
  \<open>dma_page_read\<close> are left out.
\<close>

section \<open>State\<close>

record 'm bus =
  readb_phys :: "u32 \<Rightarrow> 'm \<Rightarrow> u8 \<times> 'm"
  writeb_phys :: "u32 \<Rightarrow> u8 \<Rightarrow> 'm \<Rightarrow> 'm"
  read_phys :: "u32 \<Rightarrow> nat \<Rightarrow> 'm \<Rightarrow> u8 list \<times> 'm"
  write_phys :: "u32 \<Rightarrow> u8 list \<Rightarrow> 'm \<Rightarrow> 'm"
  inb :: "u16 \<Rightarrow> 'm \<Rightarrow> u8 \<times> 'm"
  inw :: "u16 \<Rightarrow> 'm \<Rightarrow> u16 \<times> 'm"
  outb :: "u16 \<Rightarrow> u8 \<Rightarrow> 'm \<Rightarrow> 'm"
  outw :: "u16 \<Rightarrow> u16 \<Rightarrow> 'm \<Rightarrow> 'm"
  picint13 :: "'m \<Rightarrow> 'm"
  refreshread :: "'m \<Rightarrow> 'm"
  invalidate :: "u32 \<Rightarrow> u32 \<Rightarrow> 'm \<Rightarrow> 'm"
  cache_clean :: "'m \<Rightarrow> 'm"

record dma_t =
  mode :: u8
  page :: u8
  ps2_mode :: u8
  arb_level :: u8
  sg_command :: u8
  sg_status :: u8
  ptr0 :: u8
  ext_mode :: u8
  page_l :: u8
  page_h :: u8
  cb :: u16
  io_addr :: u16
  transfer_mode :: u16
  sgptr :: u32
  ptr_cur :: u32
  sgaddr :: u32
  ab :: u32
  ac :: u32
  cc :: u32
  size16 :: bool
  sgcount :: u32
  eot :: bool

record 'm dmas =
  dma :: "dma_t list"
  dma_e :: u8
  dma_m :: u8
  regs0 :: "u8 list"
  regs1 :: "u8 list"
  regs2 :: "u8 list"
  wp0 :: bool
  wp1 :: bool
  dma_stat :: u8
  dma_stat_rq :: u8
  dma_stat_rq_pc :: u8
  dma_stat_adv_pend :: u8
  dma_command0 :: u8
  dma_command1 :: u8
  dma_req_is_soft :: bool
  dma_advanced :: bool
  dma_at :: bool
  dma_buffer :: "nat \<Rightarrow> u8"
  dma16_buffer :: "nat \<Rightarrow> u16"
  dma_sg_base :: u16
  dma_mask :: u32
  xfr_command :: nat
  xfr_channel :: nat
  byte_ptr :: nat
  is_ps2 :: bool
  mem_size :: u32
  hung :: bool
  mach :: 'm

datatype dma_error = BadChannel0Mode | BadChannel1Mode | BadXfrRead | BadXfrWrite

definition DMA_NODATA :: u32 where "DMA_NODATA = -1"

definition DMA_OVER :: u32 where "DMA_OVER = 0x10000"

abbreviation ch :: "nat \<Rightarrow> 'm dmas \<Rightarrow> dma_t" where
  "ch c s \<equiv> dma s ! c"

definition mod_ch :: "nat \<Rightarrow> (dma_t \<Rightarrow> dma_t) \<Rightarrow> 'm dmas \<Rightarrow> 'm dmas" where
  "mod_ch c f s = s\<lparr>dma := (dma s)[c := f (dma s ! c)]\<rparr>"

definition mod_mach :: "('m \<Rightarrow> 'm) \<Rightarrow> 'm dmas \<Rightarrow> 'm dmas" where
  "mod_mach f s = s\<lparr>mach := f (mach s)\<rparr>"

definition chan_bit :: "nat \<Rightarrow> u8" where
  "chan_bit c = push_bit c 1"

definition dma_get_drq :: "nat \<Rightarrow> 'm dmas \<Rightarrow> bool" where
  "dma_get_drq c s \<longleftrightarrow> dma_stat_rq_pc s AND chan_bit c \<noteq> 0"

definition dma_set_drq :: "nat \<Rightarrow> bool \<Rightarrow> 'm dmas \<Rightarrow> 'm dmas" where
  "dma_set_drq c on s =
     (let s1 = s\<lparr>dma_stat_rq_pc := dma_stat_rq_pc s AND NOT (chan_bit c)\<rparr>
      in if on then s1\<lparr>dma_stat_rq_pc := dma_stat_rq_pc s1 OR chan_bit c\<rparr> else s1)"

definition dma_transfer_size :: "dma_t \<Rightarrow> nat" where
  "dma_transfer_size d = unat (transfer_mode d AND 0xff)"

section \<open>Bus mastering\<close>

definition le_word :: "u8 list \<Rightarrow> u32" where
  "le_word bs = foldr (\<lambda>b w. ucast b OR push_bit 8 w) bs 0"

text \<open>Blocks of the transfer size, and one more for the rest; the machine state is threaded.\<close>

fun bm_read_blocks :: "'m bus \<Rightarrow> nat \<Rightarrow> nat \<Rightarrow> u32 \<Rightarrow> 'm \<Rightarrow> u8 list \<times> 'm" where
  "bm_read_blocks b 0 ts a w = ([], w)"
| "bm_read_blocks b (Suc k) ts a w =
     (case read_phys b a ts w of (bs, w1) \<Rightarrow>
        case bm_read_blocks b k ts (a + word_of_nat ts) w1 of (bs', w2) \<Rightarrow> (bs @ bs', w2))"

definition dma_bm_read :: "'m bus \<Rightarrow> u32 \<Rightarrow> nat \<Rightarrow> nat \<Rightarrow> 'm \<Rightarrow> u8 list \<times> 'm" where
  "dma_bm_read b a len ts w =
     (let k = len div ts; n = k * ts in
      case bm_read_blocks b k ts a w of (bs, w1) \<Rightarrow>
        if len - n \<noteq> 0 then
          case read_phys b (a + word_of_nat n) ts w1 of (bs', w2) \<Rightarrow> (bs @ take (len - n) bs', w2)
        else (bs, w1))"

fun bm_write_blocks :: "'m bus \<Rightarrow> nat \<Rightarrow> nat \<Rightarrow> u32 \<Rightarrow> u8 list \<Rightarrow> 'm \<Rightarrow> 'm" where
  "bm_write_blocks b 0 ts a bs w = w"
| "bm_write_blocks b (Suc k) ts a bs w =
     bm_write_blocks b k ts (a + word_of_nat ts) (drop ts bs) (write_phys b a (take ts bs) w)"

definition dma_bm_write :: "'m bus \<Rightarrow> bool \<Rightarrow> u32 \<Rightarrow> u8 list \<Rightarrow> nat \<Rightarrow> 'm \<Rightarrow> 'm" where
  "dma_bm_write b at_machine a bs ts w =
     (let len = length bs; k = len div ts; n = k * ts;
          w1 = bm_write_blocks b k ts a bs w;
          w2 = (if len - n \<noteq> 0 then
                  case read_phys b (a + word_of_nat n) ts w1 of (old, w') \<Rightarrow>
                    write_phys b (a + word_of_nat n) (drop n bs @ drop (len - n) old) w'
                else w1)
      in if at_machine then invalidate b a (a + word_of_nat len - 1) w2 else w2)"

section \<open>Scatter/gather\<close>

definition dma_sg_next_addr :: "'m bus \<Rightarrow> nat \<Rightarrow> 'm dmas \<Rightarrow> 'm dmas" where
  "dma_sg_next_addr b c s =
     (let d = ch c s; ts = dma_transfer_size d in
      case dma_bm_read b (ptr_cur d) 4 ts (mach s) of (ad, w1) \<Rightarrow>
      case dma_bm_read b (ptr_cur d + 4) 4 ts w1 of (cn, w2) \<Rightarrow>
        let raw = le_word cn;
            n = raw AND 0xfffe;
            a = (if ts = 2 then le_word ad AND 0xfffffffe else le_word ad);
            am = a AND dma_mask s
        in mod_ch c (\<lambda>d. d\<lparr>eot := bit raw 31, cb := ucast n, cc := n,
               sgcount := (if n = 0 then 65536 else n), sgaddr := a, ab := am, ac := am,
               page := ucast (drop_bit 16 am), page_l := ucast (drop_bit 16 am),
               page_h := ucast (drop_bit 24 am), ptr_cur := ptr_cur d + 8\<rparr>)
             (s\<lparr>mach := w2\<rparr>))"

definition sg_port :: "u16 \<Rightarrow> u16" where
  "sg_port port = (let p = port AND 0xff in if p < 0x20 then p AND 0xf8 else p AND 0xe3)"

definition wrap_ptr :: "'m dmas \<Rightarrow> u32 \<Rightarrow> u32" where
  "wrap_ptr s p = p mod (mem_size s * 1024)"

definition sg_start_stop :: "'m bus \<Rightarrow> u8 \<Rightarrow> nat \<Rightarrow> 'm dmas \<Rightarrow> 'm dmas" where
  "sg_start_stop b v c s =
     (let old = sg_command (ch c s);
          s1 = (if v AND 1 \<noteq> 0 \<and> old AND 1 = 0 then
                  mod_ch c (\<lambda>d. d\<lparr>sg_status := (sg_status d AND 0xf7) OR 1\<rparr>)
                    (dma_sg_next_addr b c (mod_ch c (\<lambda>d. d\<lparr>ptr_cur := sgptr d\<rparr>) s))
                else s);
          s2 = (if v AND 1 = 0 \<and> old AND 1 \<noteq> 0
                then mod_ch c (\<lambda>d. d\<lparr>sg_status := sg_status d AND NOT 0x81\<rparr>) s1 else s1)
      in mod_ch c (\<lambda>d. d\<lparr>sg_command := v\<rparr>) s2)"

definition dma_sg_write :: "'m bus \<Rightarrow> u16 \<Rightarrow> u8 \<Rightarrow> nat \<Rightarrow> 'm dmas \<Rightarrow> 'm dmas" where
  "dma_sg_write b port v c s =
     (let p = sg_port port; d = ch c s; w = (ucast v :: u32) in
      if p = 0 then sg_start_stop b v c s
      else if p = 0x20 then
        mod_ch c (\<lambda>d. d\<lparr>sgptr := wrap_ptr s ((sgptr d AND 0xffffff00) OR (w AND 0xfc)), ptr0 := v\<rparr>) s
      else if p = 0x21 then
        mod_ch c (\<lambda>d. d\<lparr>sgptr := wrap_ptr s ((sgptr d AND 0xffff00fc) OR push_bit 8 w)\<rparr>) s
      else if p = 0x22 then
        mod_ch c (\<lambda>d. d\<lparr>sgptr := wrap_ptr s ((sgptr d AND 0xff00fffc) OR push_bit 16 w)\<rparr>) s
      else if p = 0x23 then
        mod_ch c (\<lambda>d. d\<lparr>sgptr := wrap_ptr s ((sgptr d AND 0x00fffffc) OR push_bit 24 w)\<rparr>) s
      else s)"

definition dma_sg_writew :: "'m bus \<Rightarrow> u16 \<Rightarrow> u16 \<Rightarrow> nat \<Rightarrow> 'm dmas \<Rightarrow> 'm dmas" where
  "dma_sg_writew b port v c s =
     (let p = sg_port port; w = (ucast v :: u32) in
      if p = 0 then dma_sg_write b p (ucast v) c s
      else if p = 0x20 then
        mod_ch c (\<lambda>d. d\<lparr>sgptr := wrap_ptr s ((sgptr d AND 0xffff0000) OR (w AND 0xfffc)), ptr0 := ucast v\<rparr>) s
      else if p = 0x22 then
        mod_ch c (\<lambda>d. d\<lparr>sgptr := wrap_ptr s ((sgptr d AND 0x0000fffc) OR push_bit 16 w)\<rparr>) s
      else s)"

definition dma_sg_writel :: "'m bus \<Rightarrow> u16 \<Rightarrow> u32 \<Rightarrow> nat \<Rightarrow> 'm dmas \<Rightarrow> 'm dmas" where
  "dma_sg_writel b port v c s =
     (let p = sg_port port in
      if p = 0 then dma_sg_write b p (ucast v) c s
      else if p = 0x20 then
        mod_ch c (\<lambda>d. d\<lparr>sgptr := wrap_ptr s (v AND 0xfffffffc), ptr0 := ucast v\<rparr>) s
      else s)"

definition dma_sg_read :: "u16 \<Rightarrow> nat \<Rightarrow> 'm dmas \<Rightarrow> u8" where
  "dma_sg_read port c s =
     (let p = sg_port port; d = ch c s in
      if p = 0x08 then
        (sg_status d AND 1) OR (if eot d then 0x80 else 0) OR
        (if sg_command d AND 0xc0 = 0x40 then 0x20 else 0) OR (if ab d \<noteq> 0 then 0x08 else 0) OR
        (if ac d \<noteq> 0 then 0x04 else 0)
      else if p = 0x20 then ptr0 d
      else if p = 0x21 then ucast (drop_bit 8 (sgptr d))
      else if p = 0x22 then ucast (drop_bit 16 (sgptr d))
      else if p = 0x23 then ucast (drop_bit 24 (sgptr d))
      else 0xff)"

definition dma_sg_readw :: "u16 \<Rightarrow> nat \<Rightarrow> 'm dmas \<Rightarrow> u16" where
  "dma_sg_readw port c s =
     (let p = sg_port port; d = ch c s in
      if p = 0x08 then ucast (dma_sg_read p c s)
      else if p = 0x20 then ucast (ptr0 d) OR ucast (sgptr d AND 0xff00)
      else if p = 0x22 then ucast (drop_bit 16 (sgptr d))
      else 0xffff)"

definition dma_sg_readl :: "u16 \<Rightarrow> nat \<Rightarrow> 'm dmas \<Rightarrow> u32" where
  "dma_sg_readl port c s =
     (let p = sg_port port; d = ch c s in
      if p = 0x08 then ucast (dma_sg_read p c s)
      else if p = 0x20 then ucast (ptr0 d) OR (sgptr d AND 0xffffff00)
      else 0xffffffff)"

text \<open>\<open>(val > 2) & 0x03\<close>: the comparison is the code's.\<close>

definition dma_ext_mode_write :: "u16 \<Rightarrow> u8 \<Rightarrow> 'm dmas \<Rightarrow> 'm dmas" where
  "dma_ext_mode_write addr v s =
     (let c = unat (v AND 3) + (if addr = 0x4d6 then 4 else 0);
          k = (if v > 2 then 1 else 0 :: nat)
      in mod_ch c (\<lambda>d. d\<lparr>ext_mode := v AND 0x7c,
           transfer_mode := (if k = 0 then 0x0101 else if k = 1 then 0x0202
                             else if k = 2 then 0x0201 else 0x0102)\<rparr>) s)"

definition dma_sg_int_status_read :: "'m dmas \<Rightarrow> u8" where
  "dma_sg_int_status_read s =
     fold (\<lambda>i r. if i \<noteq> 4 then push_bit i (if sg_status (ch i s) AND 8 \<noteq> 0 then 1 else 0) else r) [0..<8] 0"

text \<open>
  The loop of \<open>dma_sg\<close>, for a transfer out of memory (\<open>dma_sg_out\<close>, which returns the bytes) and
  into it. \<open>len\<close> is what is left to transfer. A block of count 0 leaves it unchanged.
\<close>

fun sg_out_loop :: "'m bus \<Rightarrow> nat \<Rightarrow> nat \<Rightarrow> nat \<Rightarrow> 'm dmas \<Rightarrow> u8 list \<times> nat \<times> 'm dmas" where
  "sg_out_loop b 0 c len s = ([], 0, s\<lparr>hung := True\<rparr>)"
| "sg_out_loop b (Suc k) c len s =
     (let d = ch c s; n = unat (sgcount d) in
      if n \<le> len then
        case dma_bm_read b (sgaddr d) n 4 (mach s) of (bs, w) \<Rightarrow>
          let s1 = s\<lparr>mach := w\<rparr>; len1 = len - n in
          if len1 = 0 \<and> \<not> eot d then (bs, 1, s1)
          else if len1 \<noteq> 0 \<and> eot d then (bs, 4, s1)
          else if eot d then (bs, 5, s1)
          else case sg_out_loop b k c len1 (dma_sg_next_addr b c s1) of (bs', r) \<Rightarrow> (bs @ bs', r)
      else
        case dma_bm_read b (sgaddr d) len 4 (mach s) of (bs, w) \<Rightarrow>
          (bs, 1, mod_ch c (\<lambda>d. d\<lparr>sgaddr := sgaddr d + word_of_nat len,
                                  sgcount := sgcount d - word_of_nat len\<rparr>) (s\<lparr>mach := w\<rparr>)))"

fun sg_in_loop :: "'m bus \<Rightarrow> nat \<Rightarrow> nat \<Rightarrow> u8 list \<Rightarrow> 'm dmas \<Rightarrow> nat \<times> 'm dmas" where
  "sg_in_loop b 0 c bs s = (0, s\<lparr>hung := True\<rparr>)"
| "sg_in_loop b (Suc k) c bs s =
     (let d = ch c s; n = unat (sgcount d); len = length bs in
      if n \<le> len then
        let s1 = mod_mach (dma_bm_write b (dma_at s) (sgaddr d) (take n bs) 4) s; len1 = len - n in
        if len1 = 0 \<and> \<not> eot d then (1, s1)
        else if len1 \<noteq> 0 \<and> eot d then (4, s1)
        else if eot d then (5, s1)
        else sg_in_loop b k c (drop n bs) (dma_sg_next_addr b c s1)
      else
        let s1 = mod_mach (dma_bm_write b (dma_at s) (sgaddr d) bs 4) s in
        (1, mod_ch c (\<lambda>d. d\<lparr>sgaddr := sgaddr d + word_of_nat len,
                            sgcount := sgcount d - word_of_nat len\<rparr>) s1))"

definition dma_sg_out :: "'m bus \<Rightarrow> nat \<Rightarrow> nat \<Rightarrow> 'm dmas \<Rightarrow> u8 list \<times> nat \<times> 'm dmas" where
  "dma_sg_out b c len s =
     (if sg_status (ch c s) AND 1 = 0 then (replicate len 0, 2, s) else sg_out_loop b (Suc len) c len s)"

definition dma_sg_in :: "'m bus \<Rightarrow> nat \<Rightarrow> u8 list \<Rightarrow> 'm dmas \<Rightarrow> nat \<times> 'm dmas" where
  "dma_sg_in b c bs s =
     (if sg_status (ch c s) AND 1 = 0 then (2, s) else sg_in_loop b (Suc (length bs)) c bs s)"

definition set_sg_code :: "nat \<Rightarrow> nat \<Rightarrow> 'm dmas \<Rightarrow> 'm dmas" where
  "set_sg_code c k s =
     mod_ch c (\<lambda>d. d\<lparr>sg_status := (sg_status d AND 0x0f) OR push_bit 4 (word_of_nat k)\<rparr>) s"

text \<open>A byte the scatter/gather loop did not fetch keeps the 0 the buffer was initialised with.\<close>

definition dma_read_bytes :: "'m bus \<Rightarrow> u32 \<Rightarrow> nat \<Rightarrow> nat \<Rightarrow> 'm dmas \<Rightarrow> u8 list \<times> 'm dmas" where
  "dma_read_bytes b a len c s =
     (if sg_status (ch c s) AND 1 \<noteq> 0 then
        case dma_sg_out b c len s of (bs, k, s1) \<Rightarrow> (take len (bs @ replicate len 0), set_sg_code c k s1)
      else case dma_bm_read b a len (dma_transfer_size (ch c s)) (mach s) of (bs, w) \<Rightarrow> (bs, s\<lparr>mach := w\<rparr>))"

definition dma_read8 :: "'m bus \<Rightarrow> u32 \<Rightarrow> nat \<Rightarrow> 'm dmas \<Rightarrow> u8 \<times> 'm dmas" where
  "dma_read8 b a c s =
     (if dma_advanced s then
        case dma_read_bytes b a 1 c s of (bs, s1) \<Rightarrow> (bs ! 0, s1)
      else case readb_phys b a (mach s) of (v, w) \<Rightarrow> (v, s\<lparr>mach := w\<rparr>))"

definition dma_read16 :: "'m bus \<Rightarrow> u32 \<Rightarrow> nat \<Rightarrow> 'm dmas \<Rightarrow> u16 \<times> 'm dmas" where
  "dma_read16 b a c s =
     (if dma_advanced s then
        case dma_read_bytes b a 2 c s of (bs, s1) \<Rightarrow> (ucast (bs ! 0) OR push_bit 8 (ucast (bs ! 1)), s1)
      else case dma_read8 b a c s of (lo, s1) \<Rightarrow> case dma_read8 b (a + 1) c s1 of (hi, s2) \<Rightarrow>
        (ucast lo OR push_bit 8 (ucast hi), s2))"

definition dma_write_bytes :: "'m bus \<Rightarrow> u32 \<Rightarrow> u8 list \<Rightarrow> nat \<Rightarrow> 'm dmas \<Rightarrow> 'm dmas" where
  "dma_write_bytes b a bs c s =
     (if sg_status (ch c s) AND 1 \<noteq> 0 then
        case dma_sg_in b c bs s of (k, s1) \<Rightarrow> set_sg_code c k s1
      else mod_mach (dma_bm_write b (dma_at s) a bs (dma_transfer_size (ch c s))) s)"

definition dma_write8 :: "'m bus \<Rightarrow> u32 \<Rightarrow> u8 \<Rightarrow> nat \<Rightarrow> 'm dmas \<Rightarrow> 'm dmas" where
  "dma_write8 b a v c s =
     (if dma_advanced s then dma_write_bytes b a [v] c s
      else
        let s1 = mod_mach (writeb_phys b a v) s
        in if dma_at s then mod_mach (invalidate b a a) s1 else s1)"

definition dma_write16 :: "'m bus \<Rightarrow> u32 \<Rightarrow> u16 \<Rightarrow> nat \<Rightarrow> 'm dmas \<Rightarrow> 'm dmas" where
  "dma_write16 b a v c s =
     (if dma_advanced s then dma_write_bytes b a [ucast v, ucast (drop_bit 8 v)] c s
      else dma_write8 b (a + 1) (ucast (drop_bit 8 v)) c (dma_write8 b a (ucast v) c s))"

section \<open>Transfers\<close>

definition addr_step :: "dma_t \<Rightarrow> u32" where
  "addr_step d = ucast (drop_bit 8 (transfer_mode d))"

text \<open>\<open>dma->sg_status\<close> is the status of channel 0, whichever channel moves.\<close>

definition move_advanced :: "(u32 \<Rightarrow> u32) \<Rightarrow> nat \<Rightarrow> 'm dmas \<Rightarrow> 'm dmas" where
  "move_advanced f c s =
     (let d = ch c s; a = f (ac d) in
      if sg_status (ch 0 s) AND 1 \<noteq> 0 then
        let am = a AND dma_mask s
        in mod_ch c (\<lambda>d. d\<lparr>ac := am, page := ucast (drop_bit 16 am), page_l := ucast (drop_bit 16 am),
                           page_h := ucast (drop_bit 24 am)\<rparr>) s
      else if addr_step d = 2 then
        mod_ch c (\<lambda>d. d\<lparr>ac := ((ac d AND 0xfffe0000) AND dma_mask s) OR (a AND 0x1ffff)\<rparr>) s
      else mod_ch c (\<lambda>d. d\<lparr>ac := ((ac d AND 0xffff0000) AND dma_mask s) OR (a AND 0xffff)\<rparr>) s)"

definition dma_retreat :: "nat \<Rightarrow> 'm dmas \<Rightarrow> 'm dmas" where
  "dma_retreat c s = move_advanced (\<lambda>a. a - addr_step (ch c s)) c s"

definition dma_advance :: "nat \<Rightarrow> 'm dmas \<Rightarrow> 'm dmas" where
  "dma_advance c s = move_advanced (\<lambda>a. a + addr_step (ch c s)) c s"

definition move8 :: "u32 \<Rightarrow> nat \<Rightarrow> 'm dmas \<Rightarrow> 'm dmas" where
  "move8 k c s = mod_ch c (\<lambda>d. d\<lparr>ac := (ac d AND 0xffff0000 AND dma_mask s) OR ((ac d + k) AND 0xffff)\<rparr>) s"

definition move16 :: "u32 \<Rightarrow> nat \<Rightarrow> 'm dmas \<Rightarrow> 'm dmas" where
  "move16 k c s = mod_ch c (\<lambda>d. d\<lparr>ac := (ac d AND 0xfffe0000 AND dma_mask s) OR ((ac d + k) AND 0x1ffff)\<rparr>) s"

text \<open>The address after a byte or word, as the three transfer routines compute it.\<close>

definition next_address :: "nat \<Rightarrow> 'm dmas \<Rightarrow> 'm dmas" where
  "next_address c s =
     (let d = ch c s; k = (if size16 d then 2 else 1 :: u32); dec = (mode d AND 0x20 \<noteq> 0) in
      if is_ps2 s then mod_ch c (\<lambda>d. d\<lparr>ac := (if dec then ac d - k else ac d + k)\<rparr>) s
      else if dma_advanced s then (if dec then dma_retreat c s else dma_advance c s)
      else (if size16 d then move16 else move8) (if dec then - k else k) c s)"

definition may_transfer :: "u8 \<Rightarrow> nat \<Rightarrow> 'm dmas \<Rightarrow> bool" where
  "may_transfer md c s \<longleftrightarrow>
     (if c < 4 then dma_command0 s else dma_command1 s) AND 4 = 0 \<and> dma_e s AND chan_bit c \<noteq> 0 \<and>
     \<not> (dma_m s AND chan_bit c \<noteq> 0 \<and> \<not> dma_req_is_soft s) \<and> mode (ch c s) AND 0x0c = md"

definition dma_channel_readable :: "nat \<Rightarrow> 'm dmas \<Rightarrow> bool" where
  "dma_channel_readable c s = may_transfer 8 c s"

text \<open>Counting a transfer: at the end of the count the next block, a reload, or the mask.\<close>

definition count_down :: "'m bus \<Rightarrow> nat \<Rightarrow> 'm dmas \<Rightarrow> bool \<times> 'm dmas" where
  "count_down b c s0 =
     (let s = mod_ch c (\<lambda>d. d\<lparr>cc := cc d - 1\<rparr>) s0; d = ch c s in
      if sint (cc d) < 0 then
        if dma_advanced s \<and> sg_status d AND 1 \<noteq> 0 \<and> sg_status d AND 6 = 0
        then (False, dma_sg_next_addr b c s)
        else
          let s1 = (if mode d AND 0x10 \<noteq> 0 then mod_ch c (\<lambda>d. d\<lparr>cc := ucast (cb d), ac := ab d\<rparr>) s
                    else s\<lparr>dma_m := dma_m s OR chan_bit c\<rparr>)
          in (True, s1\<lparr>dma_stat := dma_stat s1 OR chan_bit c\<rparr>)
      else (False, s))"

definition sg_interrupt :: "'m bus \<Rightarrow> nat \<Rightarrow> 'm dmas \<Rightarrow> 'm dmas" where
  "sg_interrupt b c s =
     (if dma_advanced s \<and> sg_status (ch c s) AND 1 \<noteq> 0 \<and> sg_command (ch c s) AND 0xc0 = 0x40
      then mod_ch c (\<lambda>d. d\<lparr>sg_status := sg_status d OR 8\<rparr>) (mod_mach (picint13 b) s) else s)"

definition dma_channel_advance :: "'m bus \<Rightarrow> nat \<Rightarrow> 'm dmas \<Rightarrow> bool \<times> 'm dmas" where
  "dma_channel_advance b c s =
     (if dma_stat_adv_pend s AND chan_bit c \<noteq> 0 then
        case count_down b c s of (tc, s1) \<Rightarrow>
          let s2 = (if tc then sg_interrupt b c s1 else s1)
          in (tc, s2\<lparr>dma_stat_adv_pend := dma_stat_adv_pend s2 AND NOT (chan_bit c)\<rparr>)
      else (False, s))"

text \<open>The part the two reading routines share: refresh, the access, the address, the request flag.\<close>

definition fetch :: "'m bus \<Rightarrow> nat \<Rightarrow> 'm dmas \<Rightarrow> u16 \<times> 'm dmas" where
  "fetch b c s0 =
     (let s = (if \<not> dma_at s0 \<and> c = 0 then mod_mach (refreshread b) s0 else s0);
          (t, s1) = (if size16 (ch c s) then dma_read16 b (ac (ch c s)) c s
                     else case dma_read8 b (ac (ch c s)) c s of (v, s') \<Rightarrow> (ucast v, s'));
          s2 = next_address c s1
      in (t, s2\<lparr>dma_stat_rq := dma_stat_rq s2 OR chan_bit c\<rparr>))"

definition dma_channel_read_only :: "'m bus \<Rightarrow> nat \<Rightarrow> 'm dmas \<Rightarrow> u32 \<times> 'm dmas" where
  "dma_channel_read_only b c s =
     (if \<not> may_transfer 8 c s then (DMA_NODATA, s)
      else case fetch b c (snd (dma_channel_advance b c s)) of (t, s1) \<Rightarrow>
        (ucast t, s1\<lparr>dma_stat_adv_pend := dma_stat_adv_pend s1 OR chan_bit c\<rparr>))"

definition dma_channel_read :: "'m bus \<Rightarrow> nat \<Rightarrow> 'm dmas \<Rightarrow> u32 \<times> 'm dmas" where
  "dma_channel_read b c s =
     (if \<not> may_transfer 8 c s then (DMA_NODATA, s)
      else case fetch b c (snd (dma_channel_advance b c s)) of (t, s1) \<Rightarrow>
        case count_down b c s1 of (tc, s2) \<Rightarrow>
          if tc then (ucast t OR DMA_OVER, sg_interrupt b c s2) else (ucast t, s2))"

text \<open>The second, unconditional subtraction on a 16-bit channel that counts down is the code's.\<close>

definition dma_channel_write :: "'m bus \<Rightarrow> nat \<Rightarrow> u16 \<Rightarrow> 'm dmas \<Rightarrow> u32 \<times> 'm dmas" where
  "dma_channel_write b c v s =
     (if \<not> may_transfer 4 c s then (DMA_NODATA, s)
      else
        let a = ac (ch c s);
            s1 = (if size16 (ch c s) then dma_write16 b a v c s else dma_write8 b a (ucast v) c s);
            s2 = next_address c s1;
            s3 = (if size16 (ch c s) \<and> mode (ch c s) AND 0x20 \<noteq> 0 then move16 (-2) c s2 else s2);
            s4 = s3\<lparr>dma_stat_rq := dma_stat_rq s3 OR chan_bit c,
                    dma_stat_adv_pend := dma_stat_adv_pend s3 AND NOT (chan_bit c)\<rparr>;
            s5 = snd (count_down b c s4)
        in if dma_m s5 AND chan_bit c \<noteq> 0 then (DMA_OVER, sg_interrupt b c s5) else (0, s5))"

definition dma_mode :: "nat \<Rightarrow> 'm dmas \<Rightarrow> u8" where
  "dma_mode c s = mode (ch c s)"

section \<open>Software requests\<close>

text \<open>The loop counter is a \<open>uint16_t\<close>.\<close>

definition block_step :: "'m bus \<Rightarrow> nat \<Rightarrow> bool \<Rightarrow> u16 \<Rightarrow> 'm dmas \<Rightarrow> 'm dmas" where
  "block_step b c bit16 i s =
     (if mode (ch c s) AND 0x8c = 0x84 then
        snd (dma_channel_write b c (if bit16 then dma16_buffer s (unat i) else ucast (dma_buffer s (unat i))) s)
      else if mode (ch c s) AND 0x8c = 0x88 then
        case dma_channel_read b c s of (v, s1) \<Rightarrow>
          if bit16 then s1\<lparr>dma16_buffer := (dma16_buffer s1)(unat i := ucast v)\<rparr>
          else s1\<lparr>dma_buffer := (dma_buffer s1)(unat i := ucast v)\<rparr>
      else s)"

partial_function (option) block_loop :: "'m bus \<Rightarrow> nat \<Rightarrow> bool \<Rightarrow> u16 \<Rightarrow> 'm dmas \<Rightarrow> 'm dmas option" where
  "block_loop b c bit16 i s =
     (if i \<le> cb (ch c s) then block_loop b c bit16 (i + 1) (block_step b c bit16 i s) else Some s)"

definition dma_block_transfer :: "'m bus \<Rightarrow> nat \<Rightarrow> 'm dmas \<Rightarrow> 'm dmas option" where
  "dma_block_transfer b c s =
     (let bit16 = (if dma_advanced s then dma_transfer_size (ch c s) = 2 else 4 \<le> c)
      in map_option (\<lambda>s'. s'\<lparr>dma_req_is_soft := False\<rparr>)
           (block_loop b c bit16 0 (s\<lparr>dma_req_is_soft := True\<rparr>)))"

text \<open>
  The two loops of a memory-to-memory transfer run an \<open>int\<close> up to a count of 16 bits that a
  scatter/gather step may change, so the bound is read in every round.
\<close>

partial_function (option) m2m_read :: "'m bus \<Rightarrow> nat \<Rightarrow> 'm dmas \<Rightarrow> 'm dmas option" where
  "m2m_read b i s =
     (if i \<le> unat (cb (ch 0 s)) then
        m2m_read b (i + 1) (case dma_channel_read b 0 s of (v, s1) \<Rightarrow>
          s1\<lparr>dma_buffer := (dma_buffer s1)(i := ucast v)\<rparr>)
      else Some s)"

partial_function (option) m2m_write :: "'m bus \<Rightarrow> nat \<Rightarrow> 'm dmas \<Rightarrow> 'm dmas option" where
  "m2m_write b i s =
     (if i \<le> unat (cb (ch 1 s)) then
        m2m_write b (i + 1) (snd (dma_channel_write b 1 (ucast (dma_buffer s i)) s))
      else Some s)"

definition dma_mem_to_mem_transfer :: "'m bus \<Rightarrow> 'm dmas \<Rightarrow> (dma_error + 'm dmas) option" where
  "dma_mem_to_mem_transfer b s =
     (if mode (ch 0 s) AND 0x0c \<noteq> 8 then Some (Inl BadChannel0Mode)
      else if mode (ch 1 s) AND 0x0c \<noteq> 4 then Some (Inl BadChannel1Mode)
      else map_option (\<lambda>s'. Inr (s'\<lparr>dma_req_is_soft := False\<rparr>))
             (Option.bind (m2m_read b 0 (s\<lparr>dma_req_is_soft := True\<rparr>)) (m2m_write b 0)))"

section \<open>The byte and word ports\<close>

definition lo_hi :: "bool \<Rightarrow> u32 \<Rightarrow> u8" where
  "lo_hi lo v = (if lo then ucast v else ucast (drop_bit 8 v))"

definition dma_read :: "u16 \<Rightarrow> 'm dmas \<Rightarrow> u8 \<times> 'm dmas" where
  "dma_read addr s =
     (let p = unat (addr AND 0xf); c = unat (drop_bit 1 addr AND 3) in
      if p \<in> {0, 2, 4, 6} then (lo_hi (\<not> wp0 s) (ac (ch c s)), s\<lparr>wp0 := \<not> wp0 s\<rparr>)
      else if p \<in> {1, 3, 5, 7} then (lo_hi (\<not> wp0 s) (cc (ch c s)), s\<lparr>wp0 := \<not> wp0 s\<rparr>)
      else if p = 8 then
        (push_bit 4 (dma_stat_rq_pc s AND 0xf) OR (dma_stat s AND 0xf),
         s\<lparr>dma_stat := dma_stat s AND NOT 0xf\<rparr>)
      else if p = 0xd \<or> p = 0xe then (0, s)
      else (regs0 s ! p, s))"

definition write_mode :: "nat \<Rightarrow> u8 \<Rightarrow> 'm dmas \<Rightarrow> 'm dmas" where
  "write_mode c v s =
     mod_ch c (\<lambda>d. d\<lparr>mode := v, ps2_mode :=
       (if is_ps2 s then
          (ps2_mode d AND NOT 0x1c) OR (if v AND 0x20 \<noteq> 0 then 0x10 else 0) OR
          (if v AND 0xc = 8 then 4 else if v AND 0xc = 4 then 0xc else 0)
        else ps2_mode d)\<rparr>) s"

definition write_count :: "nat \<Rightarrow> bool \<Rightarrow> u8 \<Rightarrow> 'm dmas \<Rightarrow> 'm dmas" where
  "write_count c lo v s =
     mod_ch c (\<lambda>d. let n = (if lo then (cb d AND 0xff00) OR ucast v
                             else (cb d AND 0x00ff) OR push_bit 8 (ucast v))
                    in d\<lparr>cb := n, cc := ucast n\<rparr>) s"

definition write_address :: "nat \<Rightarrow> (u32 \<Rightarrow> u32) \<Rightarrow> 'm dmas \<Rightarrow> 'm dmas" where
  "write_address c f s = mod_ch c (\<lambda>d. d\<lparr>ab := f (ab d), ac := f (ab d)\<rparr>) s"

definition set_mask_bit :: "nat \<Rightarrow> bool \<Rightarrow> 'm dmas \<Rightarrow> 'm dmas" where
  "set_mask_bit c on s =
     s\<lparr>dma_m := (if on then dma_m s OR chan_bit c else dma_m s AND NOT (chan_bit c))\<rparr>"

text \<open>\<open>None\<close>: a request starts a transfer that does not end. \<open>Inl\<close>: \<open>fatal()\<close>.\<close>

definition dma_write :: "'m bus \<Rightarrow> u16 \<Rightarrow> u8 \<Rightarrow> 'm dmas \<Rightarrow> (dma_error + 'm dmas) option" where
  "dma_write b addr v s0 =
     (let p = unat (addr AND 0xf); c = unat (drop_bit 1 addr AND 3); k = unat (v AND 3);
          s = s0\<lparr>regs0 := (regs0 s0)[p := v]\<rparr> in
      if p \<in> {0, 2, 4, 6} then
        Some (Inr (write_address c
          (\<lambda>a. if \<not> wp0 s then (a AND 0xffffff00 AND dma_mask s) OR ucast v
               else (a AND 0xffff00ff AND dma_mask s) OR push_bit 8 (ucast v)) (s\<lparr>wp0 := \<not> wp0 s\<rparr>)))
      else if p \<in> {1, 3, 5, 7} then
        Some (Inr (write_count c (\<not> wp0 s) v (s\<lparr>wp0 := \<not> wp0 s\<rparr>)))
      else if p = 8 then Some (Inr (s\<lparr>dma_command0 := v\<rparr>))
      else if p = 9 then
        (if v AND 4 \<noteq> 0 then
           let s1 = s\<lparr>dma_stat_rq_pc := dma_stat_rq_pc s OR chan_bit k\<rparr>
           in if k = 0 \<and> dma_command0 s1 AND 1 \<noteq> 0 then dma_mem_to_mem_transfer b s1
              else map_option Inr (dma_block_transfer b k s1)
         else Some (Inr (s\<lparr>dma_stat_rq_pc := dma_stat_rq_pc s AND NOT (chan_bit k)\<rparr>)))
      else if p = 0xa then Some (Inr (set_mask_bit k (v AND 4 \<noteq> 0) s))
      else if p = 0xb then Some (Inr (write_mode k v s))
      else if p = 0xc then Some (Inr (s\<lparr>wp0 := False\<rparr>))
      else if p = 0xd then
        Some (Inr (s\<lparr>wp0 := False, dma_m := dma_m s OR 0xf, dma_stat_rq_pc := dma_stat_rq_pc s AND NOT 0x0f\<rparr>))
      else if p = 0xe then Some (Inr (s\<lparr>dma_m := dma_m s AND 0xf0\<rparr>))
      else Some (Inr (s\<lparr>dma_m := (dma_m s AND 0xf0) OR (v AND 0xf)\<rparr>)))"

definition dma16_read :: "u16 \<Rightarrow> 'm dmas \<Rightarrow> u8 \<times> 'm dmas" where
  "dma16_read addr s =
     (let p = unat (drop_bit 1 addr AND 0xf); c = unat (drop_bit 2 addr AND 3) + 4 in
      if p \<in> {0, 2, 4, 6} then
        (lo_hi (\<not> wp1 s) (if is_ps2 s then ac (ch c s) else drop_bit 1 (ac (ch c s))), s\<lparr>wp1 := \<not> wp1 s\<rparr>)
      else if p \<in> {1, 3, 5, 7} then (lo_hi (\<not> wp1 s) (cc (ch c s)), s\<lparr>wp1 := \<not> wp1 s\<rparr>)
      else if p = 8 then
        ((dma_stat_rq_pc s AND 0xf0) OR drop_bit 4 (dma_stat s), s\<lparr>dma_stat := dma_stat s AND NOT 0xf0\<rparr>)
      else (regs1 s ! p, s))"

definition dma16_write :: "'m bus \<Rightarrow> u16 \<Rightarrow> u8 \<Rightarrow> 'm dmas \<Rightarrow> 'm dmas option" where
  "dma16_write b addr v s0 =
     (let p = unat (drop_bit 1 addr AND 0xf); c = unat (drop_bit 2 addr AND 3) + 4; k = unat (v AND 3) + 4;
          w = (ucast v :: u32); s = s0\<lparr>regs1 := (regs1 s0)[p := v]\<rparr> in
      if p \<in> {0, 2, 4, 6} then
        Some (write_address c
          (\<lambda>a. if is_ps2 s then (if \<not> wp1 s then (a AND 0xffffff00 AND dma_mask s) OR w
                                 else (a AND 0xffff00ff AND dma_mask s) OR push_bit 8 w)
               else (if \<not> wp1 s then (a AND 0xfffffe00 AND dma_mask s) OR push_bit 1 w
                     else (a AND 0xfffe01ff AND dma_mask s) OR push_bit 9 w)) (s\<lparr>wp1 := \<not> wp1 s\<rparr>))
      else if p \<in> {1, 3, 5, 7} then Some (write_count c (\<not> wp1 s) v (s\<lparr>wp1 := \<not> wp1 s\<rparr>))
      else if p = 8 then Some s
      else if p = 9 then
        (if v AND 4 \<noteq> 0
         then dma_block_transfer b k (s\<lparr>dma_stat_rq_pc := dma_stat_rq_pc s OR chan_bit k\<rparr>)
         else Some (s\<lparr>dma_stat_rq_pc := dma_stat_rq_pc s AND NOT (chan_bit k)\<rparr>))
      else if p = 0xa then Some (set_mask_bit k (v AND 4 \<noteq> 0) s)
      else if p = 0xb then Some (write_mode k v s)
      else if p = 0xc then Some (s\<lparr>wp1 := False\<rparr>)
      else if p = 0xd then
        Some (s\<lparr>wp1 := False, dma_m := dma_m s OR 0xf0, dma_stat_rq_pc := dma_stat_rq_pc s AND NOT 0xf0\<rparr>)
      else if p = 0xe then Some (s\<lparr>dma_m := dma_m s AND 0x0f\<rparr>)
      else Some (s\<lparr>dma_m := (dma_m s AND 0x0f) OR push_bit 4 (v AND 0xf)\<rparr>))"

section \<open>The page registers\<close>

definition CHANNELS :: "nat list" where
  "CHANNELS = [8, 2, 3, 1, 8, 8, 8, 0]"

text \<open>The channel of a page register; 8 or more for a register no channel uses.\<close>

definition page_channel :: "u16 \<Rightarrow> nat" where
  "page_channel addr =
     (let a = addr AND 0x0f; c = CHANNELS ! unat (a AND 7) in if 8 \<le> a then c OR 4 else c)"

definition dma_page_write :: "u16 \<Rightarrow> u8 \<Rightarrow> 'm dmas \<Rightarrow> 'm dmas" where
  "dma_page_write addr v s0 =
     (let s = s0\<lparr>regs2 := (regs2 s0)[unat (addr AND 0x0f) := v]\<rparr>; c = page_channel addr in
      if c < 8 then
        let pg = (if 4 < c then v AND 0xfe else if dma_at s then v else v AND 0xf);
            keep = (if 4 < c then 0xff01ffff else 0xff00ffff);
            f = (\<lambda>a. (a AND keep AND dma_mask s) OR push_bit 16 (ucast pg))
        in mod_ch c (\<lambda>d. d\<lparr>page_l := v, page := pg, ab := f (ab d), ac := f (ac d)\<rparr>) s
      else s)"

definition dma_page_read :: "u16 \<Rightarrow> 'm dmas \<Rightarrow> u8" where
  "dma_page_read addr s =
     (if page_channel addr < 8 then page_l (ch (page_channel addr) s) else regs2 s ! unat (addr AND 0x0f))"

text \<open>The byte that enters the address is \<open>page\<close>, not the byte written.\<close>

definition dma_high_page_write :: "u16 \<Rightarrow> u8 \<Rightarrow> 'm dmas \<Rightarrow> 'm dmas" where
  "dma_high_page_write addr v s =
     (let c = page_channel addr in
      if c < 8 then
        mod_ch c (\<lambda>d. let f = (\<lambda>a. ((a AND 0xffffff) OR push_bit 24 (ucast (page d))) AND dma_mask s)
                       in d\<lparr>page_h := v, ab := f (ab d), ac := f (ac d)\<rparr>) s
      else s)"

definition dma_high_page_read :: "u16 \<Rightarrow> 'm dmas \<Rightarrow> u8" where
  "dma_high_page_read addr s = (if page_channel addr < 8 then page_h (ch (page_channel addr) s) else 0xff)"

definition dma_set_params :: "bool \<Rightarrow> u32 \<Rightarrow> 'm dmas \<Rightarrow> 'm dmas" where
  "dma_set_params advanced m s = s\<lparr>dma_advanced := advanced, dma_mask := m\<rparr>"

definition dma_set_mask :: "u32 \<Rightarrow> 'm dmas \<Rightarrow> 'm dmas" where
  "dma_set_mask m s =
     s\<lparr>dma_mask := m, dma := map (\<lambda>d. d\<lparr>ab := ab d AND m, ac := ac d AND m\<rparr>) (dma s)\<rparr>"

definition dma_set_at :: "bool \<Rightarrow> 'm dmas \<Rightarrow> 'm dmas" where
  "dma_set_at on s = s\<lparr>dma_at := on\<rparr>"

definition channel0 :: "nat \<Rightarrow> dma_t" where
  "channel0 c =
     \<lparr>mode = 0, page = 0, ps2_mode = 0, arb_level = 0, sg_command = 0, sg_status = 0, ptr0 = 0, ext_mode = 0,
      page_l = 0, page_h = 0, cb = 0, io_addr = 0, transfer_mode = (if c < 4 then 0x0101 else 0x0202),
      sgptr = 0, ptr_cur = 0, sgaddr = 0, ab = 0, ac = 0, cc = 0, size16 = (4 \<le> c), sgcount = 0, eot = False\<rparr>"

text \<open>\<open>dma_command\<close>, the page latches and the PS/2 registers are not reset.\<close>

definition dma_reset :: "bool \<Rightarrow> 'm dmas \<Rightarrow> 'm dmas" where
  "dma_reset is286 s =
     s\<lparr>wp0 := False, wp1 := False, dma_m := 0, dma_e := 0xff, regs0 := replicate 16 0, regs1 := replicate 16 0,
       dma := map channel0 [0..<8], dma_stat := 0, dma_stat_rq := 0, dma_stat_rq_pc := 0, dma_stat_adv_pend := 0,
       dma_req_is_soft := False, dma_advanced := False, dma_buffer := (\<lambda>i. 0), dma16_buffer := (\<lambda>i. 0),
       dma_sg_base := 0x0400, dma_mask := 0x00ffffff, dma_at := is286\<rparr>"

definition dma_init :: "bool \<Rightarrow> 'm dmas \<Rightarrow> 'm dmas" where
  "dma_init is286 s = (dma_reset is286 s)\<lparr>is_ps2 := False\<rparr>"

definition dma16_init :: "bool \<Rightarrow> 'm dmas \<Rightarrow> 'm dmas" where
  "dma16_init is286 s = dma_reset is286 s"

definition ps2_dma_init :: "bool \<Rightarrow> 'm dmas \<Rightarrow> 'm dmas" where
  "ps2_dma_init is286 s = (dma_reset is286 s)\<lparr>is_ps2 := True\<rparr>"

definition dma_set_sg_base :: "u8 \<Rightarrow> 'm dmas \<Rightarrow> 'm dmas" where
  "dma_set_sg_base v s = s\<lparr>dma_sg_base := push_bit 8 (ucast v)\<rparr>"

section \<open>The PS/2 extended interface\<close>

datatype ps2_dir = MemToIo | IoToMem | Verify

definition ps2_dir_of :: "u8 \<Rightarrow> ps2_dir" where
  "ps2_dir_of m = (if m AND 0xc = 4 then MemToIo else if m AND 0xc = 0xc then IoToMem else Verify)"

definition ps2_access :: "'m bus \<Rightarrow> ps2_dir \<Rightarrow> nat \<Rightarrow> 'm dmas \<Rightarrow> 'm dmas" where
  "ps2_access b dir c s =
     (let d = ch c s in
      case dir of
        MemToIo \<Rightarrow>
          (if size16 d then case dma_read16 b (ac d) c s of (v, s1) \<Rightarrow> mod_mach (outw b (io_addr d) v) s1
           else case dma_read8 b (ac d) c s of (v, s1) \<Rightarrow> mod_mach (outb b (io_addr d) v) s1)
      | IoToMem \<Rightarrow>
          (if size16 d then case inw b (io_addr d) (mach s) of (v, w) \<Rightarrow> dma_write16 b (ac d) v c (s\<lparr>mach := w\<rparr>)
           else case inb b (io_addr d) (mach s) of (v, w) \<Rightarrow> dma_write8 b (ac d) v c (s\<lparr>mach := w\<rparr>))
      | Verify \<Rightarrow> s)"

text \<open>A verify counts \<open>dma->cc\<close>, the count of channel 0.\<close>

definition ps2_counter :: "ps2_dir \<Rightarrow> nat \<Rightarrow> nat" where
  "ps2_counter dir c = (if dir = Verify then 0 else c)"

definition ps2_step :: "'m bus \<Rightarrow> ps2_dir \<Rightarrow> nat \<Rightarrow> 'm dmas \<Rightarrow> 'm dmas" where
  "ps2_step b dir c s =
     (let k = (if size16 (ch c s) then 2 else 1);
          s1 = mod_ch c (\<lambda>d. d\<lparr>ac := (if ps2_mode d AND 0x10 \<noteq> 0 then ac d - k else ac d + k)\<rparr>)
                 (ps2_access b dir c s)
      in mod_ch (ps2_counter dir c) (\<lambda>d. d\<lparr>cc := cc d - 1\<rparr>)
           (s1\<lparr>dma_stat_rq := dma_stat_rq s1 OR chan_bit c\<rparr>))"

partial_function (option) ps2_loop :: "'m bus \<Rightarrow> ps2_dir \<Rightarrow> nat \<Rightarrow> 'm dmas \<Rightarrow> 'm dmas option" where
  "ps2_loop b dir c s =
     (let s1 = ps2_step b dir c s
      in if 0 < sint (cc (ch (ps2_counter dir c) s1)) then ps2_loop b dir c s1 else Some s1)"

definition dma_ps2_run :: "'m bus \<Rightarrow> nat \<Rightarrow> 'm dmas \<Rightarrow> 'm dmas option" where
  "dma_ps2_run b c s =
     (let dir = ps2_dir_of (ps2_mode (ch c s)) in
      map_option (\<lambda>s1. let s2 = (if dir = IoToMem then mod_mach (cache_clean b) s1 else s1)
                       in s2\<lparr>dma_stat := dma_stat s2 OR chan_bit c\<rparr>)
        (ps2_loop b dir c s))"

definition ps2_request :: "'m bus \<Rightarrow> 'm dmas \<Rightarrow> 'm dmas option" where
  "ps2_request b s =
     (let c = xfr_channel s in if dma_m s AND chan_bit c = 0 then dma_ps2_run b c s else Some s)"

definition toggle_ptr :: "'m dmas \<Rightarrow> 'm dmas" where
  "toggle_ptr s = s\<lparr>byte_ptr := (byte_ptr s + 1) mod 2\<rparr>"

definition dma_ps2_read :: "'m bus \<Rightarrow> u16 \<Rightarrow> 'm dmas \<Rightarrow> (dma_error + u8 \<times> 'm dmas) option" where
  "dma_ps2_read b addr s =
     (let c = xfr_channel s; d = ch c s; cmd = xfr_command s; bp = byte_ptr s in
      if addr = 0x1a then
        (if cmd = 2 \<or> cmd = 3 then
           Some (Inr (if bp = 0 then (ucast (ac d), s\<lparr>byte_ptr := 1\<rparr>)
                      else if bp = 1 then (ucast (drop_bit 8 (ac d)), s\<lparr>byte_ptr := 2\<rparr>)
                      else if bp = 2 then (ucast (drop_bit 16 (ac d)), s\<lparr>byte_ptr := 0\<rparr>)
                      else (0xff, s)))
         else if cmd = 4 \<or> cmd = 5 then Some (Inr (lo_hi (bp = 0) (cc d), toggle_ptr s))
         else if cmd = 6 then
           Some (Inr (if bp \<noteq> 0 then
                        (drop_bit 4 (dma_stat_rq s AND 0xf0) OR (dma_stat s AND 0xf0),
                         toggle_ptr (s\<lparr>dma_stat := dma_stat s AND NOT 0xf0, dma_stat_rq := dma_stat_rq s AND NOT 0xf0\<rparr>))
                      else
                        ((dma_stat_rq s AND 0xf) OR push_bit 4 (dma_stat s AND 0xf),
                         toggle_ptr (s\<lparr>dma_stat := dma_stat s AND NOT 0xf, dma_stat_rq := dma_stat_rq s AND NOT 0xf\<rparr>))))
         else if cmd = 7 then Some (Inr (ps2_mode d, s))
         else if cmd = 8 then Some (Inr (arb_level d, s))
         else if cmd = 9 then Some (Inr (0xff, set_mask_bit c True s))
         else if cmd = 0xa then Some (Inr (0xff, set_mask_bit c False s))
         else if cmd = 0xb then map_option (\<lambda>s1. Inr (0xff, s1)) (ps2_request b s)
         else Some (Inl BadXfrRead))
      else Some (Inr (0xff, s)))"

definition ps2_write_mode :: "u8 \<Rightarrow> dma_t \<Rightarrow> dma_t" where
  "ps2_write_mode v d =
     d\<lparr>mode := (mode d AND NOT 0x2c) OR (if v AND 0x10 \<noteq> 0 then 0x20 else 0) OR
                (if v AND 0xc = 4 then 8 else if v AND 0xc = 0xc then 4 else 0) OR
                (if v AND 2 \<noteq> 0 then 0x10 else 0),
       ps2_mode := v, size16 := (v AND 0x40 \<noteq> 0)\<rparr>"

definition ps2_write_addr :: "nat \<Rightarrow> u32 \<Rightarrow> dma_t \<Rightarrow> dma_t" where
  "ps2_write_addr bp w d =
     (let a = (if bp = 0 then (ac d AND 0xffff00) OR w
               else if bp = 1 then (ac d AND 0xff00ff) OR push_bit 8 w
               else if bp = 2 then (ac d AND 0x00ffff) OR push_bit 16 w else ac d)
      in d\<lparr>ac := a, ab := a\<rparr>)"

definition dma_ps2_command :: "'m bus \<Rightarrow> 'm dmas \<Rightarrow> 'm dmas option" where
  "dma_ps2_command b s =
     (if xfr_command s = 9 then Some (set_mask_bit (xfr_channel s) True s)
      else if xfr_command s = 0xa then Some (set_mask_bit (xfr_channel s) False s)
      else if xfr_command s = 0xb then ps2_request b s
      else Some s)"

definition dma_ps2_write :: "'m bus \<Rightarrow> u16 \<Rightarrow> u8 \<Rightarrow> 'm dmas \<Rightarrow> (dma_error + 'm dmas) option" where
  "dma_ps2_write b addr v s =
     (let c = xfr_channel s; cmd = xfr_command s; bp = byte_ptr s; w = (ucast v :: u32) in
      if addr = 0x18 then
        map_option Inr (dma_ps2_command b
          (s\<lparr>xfr_channel := unat (v AND 7), xfr_command := unat (drop_bit 4 v), byte_ptr := 0\<rparr>))
      else if addr = 0x1a then
        (if cmd = 0 then
           Some (Inr (toggle_ptr (mod_ch c (\<lambda>d. d\<lparr>io_addr :=
             (if bp \<noteq> 0 then (io_addr d AND 0x00ff) OR push_bit 8 (ucast v)
              else (io_addr d AND 0xff00) OR ucast v)\<rparr>) s)))
         else if cmd = 2 then
           Some (Inr (mod_ch c (ps2_write_addr bp w)
             (s\<lparr>byte_ptr := (if bp = 0 then 1 else if bp = 1 then 2 else if bp = 2 then 0 else bp)\<rparr>)))
         else if cmd = 4 then
           Some (Inr (toggle_ptr (mod_ch c (\<lambda>d.
             let n = (if bp \<noteq> 0 then (cc d AND 0xff) OR push_bit 8 w else (cc d AND 0xff00) OR w)
             in d\<lparr>cc := n, cb := ucast n\<rparr>) s)))
         else if cmd = 7 then Some (Inr (mod_ch c (ps2_write_mode v) s))
         else if cmd = 8 then Some (Inr (mod_ch c (\<lambda>d. d\<lparr>arb_level := v\<rparr>) s))
         else if cmd = 9 \<or> cmd = 0xa \<or> cmd = 0xb then map_option Inr (dma_ps2_command b s)
         else Some (Inl BadXfrWrite))
      else Some (Inr s))"

end
