(* ===== verification/Dma_Transfers.thy ===== *)
theory Dma_Transfers
  imports Dma
begin

text \<open>
  What the DMA model of theory \<open>Dma\<close> does: the addresses and values of a device transfer on a channel
  of the two original controllers (\<open>plain\<close>: no scatter/gather, no PS/2 interface), for any bus; the
  page a channel stays in; the ports; software requests; runs of the PS/2 interface; and the registers
  that do not do what they are for. The concrete machine of the witnesses has a flat memory.
\<close>

section \<open>Access lemmas\<close>

text \<open>A PC with the two original controllers: no scatter/gather, no PS/2 interface.\<close>

definition plain :: "'m dmas \<Rightarrow> bool" where
  "plain s \<longleftrightarrow> length (dma s) = 8 \<and> \<not> dma_advanced s \<and> \<not> is_ps2 s"

lemma length_mod_ch [simp]: "length (dma (mod_ch c f s)) = length (dma s)"
  by (simp add: mod_ch_def)

lemma ch_mod_ch [simp]:
  "c < length (dma s) \<Longrightarrow> ch k (mod_ch c f s) = (if k = c then f (ch c s) else ch k s)"
  by (simp add: mod_ch_def)

lemma mod_ch_fields [simp]:
  "dma_e (mod_ch c f s) = dma_e s" "dma_m (mod_ch c f s) = dma_m s" "regs0 (mod_ch c f s) = regs0 s"
  "regs1 (mod_ch c f s) = regs1 s" "regs2 (mod_ch c f s) = regs2 s" "wp0 (mod_ch c f s) = wp0 s"
  "wp1 (mod_ch c f s) = wp1 s" "dma_stat (mod_ch c f s) = dma_stat s" "dma_stat_rq (mod_ch c f s) = dma_stat_rq s"
  "dma_stat_rq_pc (mod_ch c f s) = dma_stat_rq_pc s" "dma_stat_adv_pend (mod_ch c f s) = dma_stat_adv_pend s"
  "dma_command0 (mod_ch c f s) = dma_command0 s" "dma_command1 (mod_ch c f s) = dma_command1 s"
  "dma_req_is_soft (mod_ch c f s) = dma_req_is_soft s" "dma_advanced (mod_ch c f s) = dma_advanced s"
  "dma_at (mod_ch c f s) = dma_at s" "dma_buffer (mod_ch c f s) = dma_buffer s"
  "dma16_buffer (mod_ch c f s) = dma16_buffer s" "dma_sg_base (mod_ch c f s) = dma_sg_base s"
  "dma_mask (mod_ch c f s) = dma_mask s" "xfr_command (mod_ch c f s) = xfr_command s"
  "xfr_channel (mod_ch c f s) = xfr_channel s" "byte_ptr (mod_ch c f s) = byte_ptr s"
  "is_ps2 (mod_ch c f s) = is_ps2 s" "mem_size (mod_ch c f s) = mem_size s" "hung (mod_ch c f s) = hung s"
  "mach (mod_ch c f s) = mach s"
  by (simp_all add: mod_ch_def)

lemma mod_mach_fields [simp]:
  "dma (mod_mach f s) = dma s" "dma_e (mod_mach f s) = dma_e s" "dma_m (mod_mach f s) = dma_m s"
  "dma_stat (mod_mach f s) = dma_stat s" "dma_stat_rq (mod_mach f s) = dma_stat_rq s"
  "dma_stat_adv_pend (mod_mach f s) = dma_stat_adv_pend s"
  "dma_command0 (mod_mach f s) = dma_command0 s" "dma_command1 (mod_mach f s) = dma_command1 s"
  "dma_req_is_soft (mod_mach f s) = dma_req_is_soft s" "dma_advanced (mod_mach f s) = dma_advanced s"
  "dma_at (mod_mach f s) = dma_at s" "dma_mask (mod_mach f s) = dma_mask s" "is_ps2 (mod_mach f s) = is_ps2 s"
  "mach (mod_mach f s) = f (mach s)" "hung (mod_mach f s) = hung s"
  by (simp_all add: mod_mach_def)

lemma mod_ch_cong: "f (ch c s) = g (ch c s) \<Longrightarrow> mod_ch c f s = mod_ch c g s"
  by (simp add: mod_ch_def)

lemma mod_ch_mod_ch: "c < length (dma s) \<Longrightarrow> mod_ch c f (mod_ch c g s) = mod_ch c (f \<circ> g) s"
  by (simp add: mod_ch_def)

lemma chan_bit_eq_0 [simp]: "c < 8 \<Longrightarrow> chan_bit c \<noteq> 0"
  by (simp add: chan_bit_def)

lemma and_chan_bit: "(w AND chan_bit c = 0) \<longleftrightarrow> \<not> bit w c"
  by (simp add: chan_bit_def and_push_bit_eq_0 del: push_bit_of_1)

lemma bit_chan_bit [simp]: "bit (chan_bit c) k \<longleftrightarrow> k = c \<and> c < 8"
  by (simp add: chan_bit_def del: push_bit_of_1)

section \<open>One access of a plain channel\<close>

definition page_bits :: "dma_t \<Rightarrow> u32" where
  "page_bits d = (if size16 d then 0xfffe0000 else 0xffff0000)"

definition unit_step :: "dma_t \<Rightarrow> u32" where
  "unit_step d = (let k = (if size16 d then 2 else 1) in if mode d AND 0x20 \<noteq> 0 then - k else k)"

definition offset_bits :: "dma_t \<Rightarrow> u32" where
  "offset_bits d = (if size16 d then 0x1ffff else 0xffff)"

text \<open>The address after \<open>k\<close> units: the page is kept, the offset wraps inside it.\<close>

definition unit_addr :: "u32 \<Rightarrow> dma_t \<Rightarrow> nat \<Rightarrow> u32" where
  "unit_addr m d k = (ac d AND page_bits d AND m) OR ((ac d + of_nat k * unit_step d) AND offset_bits d)"

definition next_ac :: "u32 \<Rightarrow> dma_t \<Rightarrow> u32" where
  "next_ac m d = (ac d AND page_bits d AND m) OR ((ac d + unit_step d) AND offset_bits d)"

lemma next_address_plain:
  assumes "plain s" "c < 8"
  shows "next_address c s = mod_ch c (\<lambda>d. d\<lparr>ac := next_ac (dma_mask s) d\<rparr>) s"
  using assms
  by (auto simp: next_address_def plain_def Let_def move8_def move16_def next_ac_def page_bits_def
      offset_bits_def unit_step_def intro!: mod_ch_cong)

definition page_shift :: "dma_t \<Rightarrow> nat" where
  "page_shift d = (if size16 d then 17 else 16)"

lemma bit_offset_bits: "bit (offset_bits d) n \<longleftrightarrow> n < page_shift d"
proof -
  have "offset_bits d = mask (page_shift d)"
    by (simp add: offset_bits_def page_shift_def mask_eq_exp_minus_1)
  then show ?thesis by (auto simp: bit_mask_iff page_shift_def split: if_splits)
qed

lemma page_offset: "page_bits d = NOT (offset_bits d)"
  by (simp add: page_bits_def offset_bits_def)

lemma bit_page_bits: "bit (page_bits d) n \<longleftrightarrow> n < 32 \<and> page_shift d \<le> n"
  by (auto simp: page_offset bit_not_iff bit_offset_bits)

lemma offset_take: "x AND offset_bits d = take_bit (page_shift d) x"
  by (rule word_eq_by_bits) (auto simp: bit_and_iff bit_offset_bits bit_take_bit_iff)

lemma unit_addr_0:
  assumes "ac d AND page_bits d AND NOT m = 0"
  shows "unit_addr m d 0 = ac d"
proof (rule word_eq_by_bits)
  fix n assume n: "n < LENGTH(32)"
  have "\<not> bit (ac d AND page_bits d AND NOT m) n" using assms by simp
  then show "bit (unit_addr m d 0) n = bit (ac d) n"
    using n by (auto simp: unit_addr_def bit_simps bit_page_bits bit_offset_bits)
qed

lemma page_take: "take_bit (page_shift d) (x AND page_bits d AND m) = 0"
  by (rule word_eq_by_bits) (auto simp: bit_simps bit_page_bits)

lemma page_of_unit_addr: "unit_addr m d k AND page_bits d AND m = ac d AND page_bits d AND m"
  by (rule word_eq_by_bits) (auto simp: unit_addr_def bit_simps bit_page_bits bit_offset_bits)

lemma next_unit_addr:
  "next_ac m (d\<lparr>ac := unit_addr m d k, cc := n\<rparr>) = unit_addr m d (Suc k)"
proof -
  let ?p = "page_shift d" and ?x = "ac d + of_nat k * unit_step d"
  have eqs: "page_bits (d\<lparr>ac := a, cc := n\<rparr>) = page_bits d" "unit_step (d\<lparr>ac := a, cc := n\<rparr>) = unit_step d"
    "offset_bits (d\<lparr>ac := a, cc := n\<rparr>) = offset_bits d" for a
    by (simp_all add: page_bits_def offset_bits_def unit_step_def)
  have u: "take_bit ?p (unit_addr m d k) = take_bit ?p ?x"
    by (rule word_eq_by_bits) (auto simp: unit_addr_def bit_simps bit_page_bits bit_offset_bits)
  have "take_bit ?p (unit_addr m d k + unit_step d) = take_bit ?p (take_bit ?p ?x + take_bit ?p (unit_step d))"
    by (simp only: u [symmetric] take_bit_word_add)
  also have "\<dots> = take_bit ?p (ac d + of_nat (Suc k) * unit_step d)"
    unfolding take_bit_word_add by (simp add: distrib_right add_ac)
  finally have low: "take_bit ?p (unit_addr m d k + unit_step d) = take_bit ?p (ac d + of_nat (Suc k) * unit_step d)" .
  have ac: "ac (d\<lparr>ac := a, cc := n\<rparr>) = a" for a by simp
  have "next_ac m (d\<lparr>ac := unit_addr m d k, cc := n\<rparr>) =
      (ac d AND page_bits d AND m) OR take_bit ?p (unit_addr m d k + unit_step d)"
    by (simp only: next_ac_def eqs ac offset_take page_of_unit_addr)
  then show ?thesis by (simp only: low) (simp only: unit_addr_def offset_take)
qed

section \<open>Device transfers\<close>

text \<open>
  What one read does to the bus: the refresh hook of channel 0 on an XT (\<open>rf\<close>), then one or two
  bytes. And the reads a device makes one after the other.
\<close>

definition bus_read :: "'m bus \<Rightarrow> bool \<Rightarrow> bool \<Rightarrow> u32 \<Rightarrow> 'm \<Rightarrow> u16 \<times> 'm" where
  "bus_read b rf wide a w0 =
     (let w = (if rf then refreshread b w0 else w0) in
      case readb_phys b a w of (lo, w1) \<Rightarrow>
        if wide then case readb_phys b (a + 1) w1 of (hi, w2) \<Rightarrow> (ucast lo OR push_bit 8 (ucast hi), w2)
        else (ucast lo, w1))"

fun bus_reads :: "'m bus \<Rightarrow> bool \<Rightarrow> bool \<Rightarrow> u32 list \<Rightarrow> 'm \<Rightarrow> u16 list \<times> 'm" where
  "bus_reads b rf wide [] w = ([], w)"
| "bus_reads b rf wide (a # as) w =
     (case bus_read b rf wide a w of (v, w1) \<Rightarrow> case bus_reads b rf wide as w1 of (vs, w2) \<Rightarrow> (v # vs, w2))"

fun dma_reads :: "'m bus \<Rightarrow> nat \<Rightarrow> nat \<Rightarrow> 'm dmas \<Rightarrow> u32 list \<times> 'm dmas" where
  "dma_reads b c 0 s = ([], s)"
| "dma_reads b c (Suc n) s =
     (case dma_channel_read b c s of (v, s1) \<Rightarrow> case dma_reads b c n s1 of (vs, s2) \<Rightarrow> (v # vs, s2))"

definition refreshes :: "nat \<Rightarrow> 'm dmas \<Rightarrow> bool" where
  "refreshes c s \<longleftrightarrow> \<not> dma_at s \<and> c = 0"

lemma fetch_plain:
  assumes "plain s" "c < 8" "bus_read b (refreshes c s) (size16 (ch c s)) (ac (ch c s)) (mach s) = (v, w)"
  shows "fetch b c s = (v, mod_ch c (\<lambda>d. d\<lparr>ac := next_ac (dma_mask s) d\<rparr>)
    (s\<lparr>mach := w, dma_stat_rq := dma_stat_rq s OR chan_bit c\<rparr>))"
proof -
  define w0 where "w0 = (if refreshes c s then refreshread b (mach s) else mach s)"
  have na: "next_address c (s\<lparr>mach := w\<rparr>) = mod_ch c (\<lambda>d. d\<lparr>ac := next_ac (dma_mask s) d\<rparr>) (s\<lparr>mach := w\<rparr>)"
    using next_address_plain [of "s\<lparr>mach := w\<rparr>" c] assms(1,2) by (simp add: plain_def)
  have adv: "dma_advanced s = False" using assms(1) by (simp add: plain_def)
  have s0: "(if \<not> dma_at s \<and> c = 0 then mod_mach (refreshread b) s else s) = s\<lparr>mach := w0\<rparr>"
    by (simp add: w0_def refreshes_def mod_mach_def)
  have f: "dma (s\<lparr>mach := w0\<rparr>) = dma s" by simp
  have rd: "(if size16 (ch c s) then dma_read16 b (ac (ch c s)) c (s\<lparr>mach := w0\<rparr>)
      else case dma_read8 b (ac (ch c s)) c (s\<lparr>mach := w0\<rparr>) of (v, s') \<Rightarrow> (ucast v, s')) = (v, s\<lparr>mach := w\<rparr>)"
    using assms(3) unfolding bus_read_def w0_def [symmetric] Let_def
    by (simp add: dma_read16_def dma_read8_def adv split_def split: if_splits)
  show ?thesis
    unfolding fetch_def Let_def s0 f rd by (simp add: na) (simp add: mod_ch_def)
qed

lemma count_down_more:
  assumes "0 \<le> sint (cc (ch c s) - 1)" "c < length (dma s)"
  shows "count_down b c s = (False, mod_ch c (\<lambda>d. d\<lparr>cc := cc d - 1\<rparr>) s)"
  using assms by (simp add: count_down_def Let_def)

lemma count_down_end:
  assumes "\<not> dma_advanced s" "c < length (dma s)" "cc (ch c s) = 0"
  shows "count_down b c s = (True,
    mod_ch c (\<lambda>d. if mode d AND 0x10 \<noteq> 0 then d\<lparr>cc := ucast (cb d), ac := ab d\<rparr> else d\<lparr>cc := - 1\<rparr>)
      (s\<lparr>dma_stat := dma_stat s OR chan_bit c,
         dma_m := (if mode (ch c s) AND 0x10 \<noteq> 0 then dma_m s else dma_m s OR chan_bit c)\<rparr>))"
  using assms by (simp add: count_down_def Let_def) (simp add: mod_ch_def)

lemma read_plain:
  assumes "plain s" "c < 8" "may_transfer 8 c s" "\<not> bit (dma_stat_adv_pend s) c"
    and "bus_read b (refreshes c s) (size16 (ch c s)) (ac (ch c s)) (mach s) = (v, w)"
  shows "dma_channel_read b c s =
    (case count_down b c (mod_ch c (\<lambda>d. d\<lparr>ac := next_ac (dma_mask s) d\<rparr>)
       (s\<lparr>mach := w, dma_stat_rq := dma_stat_rq s OR chan_bit c\<rparr>)) of
       (tc, s2) \<Rightarrow> (if tc then ucast v OR DMA_OVER else ucast v, s2))"
proof -
  let ?t = "mod_ch c (\<lambda>d. d\<lparr>ac := next_ac (dma_mask s) d\<rparr>)
       (s\<lparr>mach := w, dma_stat_rq := dma_stat_rq s OR chan_bit c\<rparr>)"
  have "dma_advanced (snd (count_down b c ?t)) = False"
    using assms(1) by (simp add: count_down_def Let_def plain_def)
  then have "sg_interrupt b c (snd (count_down b c ?t)) = snd (count_down b c ?t)"
    by (simp add: sg_interrupt_def)
  then show ?thesis
    using assms(3,4) fetch_plain [OF assms(1,2,5)]
    by (simp add: dma_channel_read_def dma_channel_advance_def and_chan_bit split_def)
qed

text \<open>A channel whose next transfer would be the unit \<open>k\<close> of the \<open>N + 1\<close> it was programmed for.\<close>

definition advanced_by :: "nat \<Rightarrow> nat \<Rightarrow> 'm dmas \<Rightarrow> dma_t \<Rightarrow> dma_t" where
  "advanced_by N k s d = d\<lparr>ac := unit_addr (dma_mask s) d k, cc := word_of_nat (N - k)\<rparr>"

lemma may_transfer_mod [simp]:
  "may_transfer md c (s\<lparr>mach := w, dma_stat_rq := r\<rparr>) = may_transfer md c s"
  by (simp add: may_transfer_def)

lemma sint_of_count: "n < 0x10000 \<Longrightarrow> sint (word_of_nat n :: u32) = int n"
proof -
  assume "n < 0x10000"
  then have "signed_take_bit 31 (int n) = int n" by (simp add: signed_take_bit_int_eq_self)
  moreover have "sint (word_of_int (int n) :: u32) = signed_take_bit 31 (int n)"
    by (simp only: sint_sbintrunc') simp
  ultimately show ?thesis by simp
qed

lemma advanced_by_step:
  assumes "k < N"
  shows "(advanced_by N k s d)\<lparr>ac := next_ac (dma_mask s) (advanced_by N k s d), cc := cc (advanced_by N k s d) - 1\<rparr>
    = advanced_by N (Suc k) s d"
proof -
  have "word_of_nat (N - k) - (1::u32) = word_of_nat (N - Suc k)"
    using assms by (simp add: of_nat_diff Suc_le_eq)
  then show ?thesis by (simp add: advanced_by_def next_unit_addr)
qed

lemma advanced_by_same [simp]:
  "size16 (advanced_by N k s d) = size16 d" "mode (advanced_by N k s d) = mode d"
  "ac (advanced_by N k s d) = unit_addr (dma_mask s) d k" "cc (advanced_by N k s d) = word_of_nat (N - k)"
  "cb (advanced_by N k s d) = cb d" "ab (advanced_by N k s d) = ab d"
  by (simp_all add: advanced_by_def)

definition progressed :: "nat \<Rightarrow> nat \<Rightarrow> nat \<Rightarrow> 'm \<Rightarrow> u8 \<Rightarrow> 'm dmas \<Rightarrow> 'm dmas" where
  "progressed c N k w r s = mod_ch c (advanced_by N k s) (s\<lparr>mach := w, dma_stat_rq := r\<rparr>)"

lemma progressed_fields [simp]:
  "dma_mask (progressed c N k w r s) = dma_mask s" "mach (progressed c N k w r s) = w"
  "dma_stat_rq (progressed c N k w r s) = r" "dma_m (progressed c N k w r s) = dma_m s"
  "dma_stat (progressed c N k w r s) = dma_stat s" "dma_req_is_soft (progressed c N k w r s) = dma_req_is_soft s"
  "dma_stat_adv_pend (progressed c N k w r s) = dma_stat_adv_pend s"
  "refreshes j (progressed c N k w r s) = refreshes j s"
  by (simp_all add: progressed_def refreshes_def)

lemma progressed_ch [simp]:
  "plain s \<Longrightarrow> c < 8 \<Longrightarrow> ch j (progressed c N k w r s) = (if j = c then advanced_by N k s (ch c s) else ch j s)"
  by (simp add: progressed_def plain_def)

lemma progressed_plain [simp]: "plain s \<Longrightarrow> plain (progressed c N k w r s)"
  by (simp add: progressed_def plain_def)

lemma progressed_may [simp]:
  "plain s \<Longrightarrow> c < 8 \<Longrightarrow> may_transfer md c (progressed c N k w r s) = may_transfer md c s"
  by (simp add: may_transfer_def) (simp add: progressed_def)

lemma read_step:
  assumes "plain s" "c < 8" "may_transfer 8 c s" "\<not> bit (dma_stat_adv_pend s) c" "k < N" "N < 0x10000"
    and "bus_read b (refreshes c s) (size16 (ch c s)) (unit_addr (dma_mask s) (ch c s) k) w = (v, w')"
  shows "dma_channel_read b c (progressed c N k w r s) = (ucast v, progressed c N (Suc k) w' (r OR chan_bit c) s)"
proof -
  let ?s = "progressed c N k w r s"
  let ?t = "mod_ch c (\<lambda>d. d\<lparr>ac := next_ac (dma_mask s) d\<rparr>) (?s\<lparr>mach := w', dma_stat_rq := r OR chan_bit c\<rparr>)"
  have len: "length (dma ?s) = 8" using progressed_plain [OF assms(1), of c N k w r] by (simp add: plain_def)
  have "cc (ch c ?s) - 1 = word_of_nat (N - Suc k)"
    using assms by (simp add: of_nat_diff Suc_le_eq)
  then have "0 \<le> sint (cc (ch c ?t) - 1)" using assms(2,6) len by (simp add: sint_of_count)
  then have "count_down b c ?t = (False, mod_ch c (\<lambda>d. d\<lparr>cc := cc d - 1\<rparr>) ?t)"
    by (rule count_down_more) (use assms(2) len in simp)
  moreover have "mod_ch c (\<lambda>d. d\<lparr>cc := cc d - 1\<rparr>) ?t = progressed c N (Suc k) w' (r OR chan_bit c) s"
    using assms(1,2) advanced_by_step [OF assms(5), of s "ch c s"]
    by (simp add: progressed_def mod_ch_def plain_def)
  moreover have "plain ?s" "may_transfer 8 c ?s" "\<not> bit (dma_stat_adv_pend ?s) c"
    "bus_read b (refreshes c ?s) (size16 (ch c ?s)) (ac (ch c ?s)) (mach ?s) = (v, w')"
    using assms by simp_all
  ultimately show ?thesis using read_plain [of ?s c b v w'] assms(2) by simp
qed

lemma progressed_start:
  assumes "plain s" "c < 8" "cc (ch c s) = word_of_nat N" "ac (ch c s) AND page_bits (ch c s) AND NOT (dma_mask s) = 0"
  shows "progressed c N 0 (mach s) (dma_stat_rq s) s = s"
proof -
  have "advanced_by N 0 s (ch c s) = ch c s"
    using unit_addr_0 [OF assms(4)] assms(3) by (simp add: advanced_by_def)
  then show ?thesis using assms(1,2) by (simp add: progressed_def mod_ch_def plain_def)
qed

lemma reads_progress:
  assumes "plain s" "c < 8" "may_transfer 8 c s" "\<not> bit (dma_stat_adv_pend s) c" "N < 0x10000"
  shows "k + n \<le> N \<Longrightarrow>
    bus_reads b (refreshes c s) (size16 (ch c s)) (map (unit_addr (dma_mask s) (ch c s)) [k..<k + n]) w = (vs, w') \<Longrightarrow>
    \<exists>r'. dma_reads b c n (progressed c N k w r s) = (map ucast vs, progressed c N (k + n) w' r' s)"
proof (induction n arbitrary: k w r vs)
  case (Suc n)
  obtain v w1 where v: "bus_read b (refreshes c s) (size16 (ch c s)) (unit_addr (dma_mask s) (ch c s) k) w = (v, w1)"
    by fastforce
  obtain vs1 where vs1: "vs = v # vs1"
    "bus_reads b (refreshes c s) (size16 (ch c s)) (map (unit_addr (dma_mask s) (ch c s)) [Suc k..<Suc k + n]) w1 = (vs1, w')"
  proof -
    have "[k..<k + Suc n] = k # [Suc k..<Suc k + n]" by (simp add: upt_rec)
    then show ?thesis using Suc.prems(2) v that by (auto split: prod.splits)
  qed
  have "dma_channel_read b c (progressed c N k w r s) = (ucast v, progressed c N (Suc k) w1 (r OR chan_bit c) s)"
    by (rule read_step [OF assms(1-4) _ assms(5) v]) (use Suc.prems in simp)
  moreover obtain r' where "dma_reads b c n (progressed c N (Suc k) w1 (r OR chan_bit c) s) =
      (map ucast vs1, progressed c N (Suc k + n) w' r' s)"
    using Suc.IH [OF _ vs1(2)] Suc.prems(1) by auto
  ultimately show ?case using vs1(1) by (intro exI [of _ r']) simp
qed auto

lemma dma_reads_snoc:
  "dma_reads b c (Suc n) s = (case dma_reads b c n s of (vs, s1) \<Rightarrow>
     case dma_channel_read b c s1 of (v, s2) \<Rightarrow> (vs @ [v], s2))"
proof (induction n arbitrary: s)
  case (Suc n)
  show ?case by (subst dma_reads.simps(2), subst Suc.IH) (simp add: split_def)
qed (simp add: split_def)

lemma bus_reads_snoc:
  "bus_reads b rf wide (as @ [a]) w = (case bus_reads b rf wide as w of (vs, w1) \<Rightarrow>
     case bus_read b rf wide a w1 of (v, w2) \<Rightarrow> (vs @ [v], w2))"
  by (induction as arbitrary: w) (auto split: prod.splits)

text \<open>The state after the last unit.\<close>

definition finished :: "nat \<Rightarrow> 'm \<Rightarrow> 'm dmas \<Rightarrow> 'm dmas \<Rightarrow> bool" where
  "finished c w s s' \<longleftrightarrow> mach s' = w \<and> bit (dma_stat s') c \<and> (\<forall>k. k \<noteq> c \<longrightarrow> ch k s' = ch k s) \<and>
     (if mode (ch c s) AND 0x10 \<noteq> 0
      then cc (ch c s') = ucast (cb (ch c s)) \<and> ac (ch c s') = ab (ch c s) \<and> dma_m s' = dma_m s
      else dma_m s' = dma_m s OR chan_bit c)"

lemma masked_channel:
  assumes "bit (dma_m s) c" "\<not> dma_req_is_soft s"
  shows "\<not> may_transfer md c s"
  using assms by (simp add: may_transfer_def and_chan_bit)

subsection \<open>Writes\<close>

definition bus_write :: "'m bus \<Rightarrow> bool \<Rightarrow> bool \<Rightarrow> u32 \<Rightarrow> u16 \<Rightarrow> 'm \<Rightarrow> 'm" where
  "bus_write b iv wide a v w =
     (let put = (\<lambda>a x w. (if iv then invalidate b a a else (\<lambda>w. w)) (writeb_phys b a x w));
          w1 = put a (ucast v) w
      in if wide then put (a + 1) (ucast (drop_bit 8 v)) w1 else w1)"

fun bus_writes :: "'m bus \<Rightarrow> bool \<Rightarrow> bool \<Rightarrow> (u32 \<times> u16) list \<Rightarrow> 'm \<Rightarrow> 'm" where
  "bus_writes b iv wide [] w = w"
| "bus_writes b iv wide ((a, v) # xs) w = bus_writes b iv wide xs (bus_write b iv wide a v w)"

fun dma_writes :: "'m bus \<Rightarrow> nat \<Rightarrow> u16 list \<Rightarrow> 'm dmas \<Rightarrow> u32 list \<times> 'm dmas" where
  "dma_writes b c [] s = ([], s)"
| "dma_writes b c (v # vs) s =
     (case dma_channel_write b c v s of (r, s1) \<Rightarrow> case dma_writes b c vs s1 of (rs, s2) \<Rightarrow> (r # rs, s2))"

text \<open>The code moves the address of a word channel that counts down twice; other channels once.\<close>

definition moves_once :: "dma_t \<Rightarrow> bool" where
  "moves_once d \<longleftrightarrow> \<not> (size16 d \<and> mode d AND 0x20 \<noteq> 0)"

lemma clear_clear_bit: "\<not> bit w c \<Longrightarrow> w AND NOT (chan_bit c) = w"
  by (rule word_eq_by_bits) (auto simp: bit_simps)

definition write_state :: "'m bus \<Rightarrow> nat \<Rightarrow> u16 \<Rightarrow> 'm dmas \<Rightarrow> 'm dmas" where
  "write_state b c v s = s\<lparr>mach := bus_write b (dma_at s) (size16 (ch c s)) (ac (ch c s)) v (mach s),
     dma_stat_rq := dma_stat_rq s OR chan_bit c\<rparr>"

lemma write_access:
  assumes "\<not> dma_advanced s" "length (dma s) = 8" "c < 8"
  shows "(if size16 (ch c s) then dma_write16 b a v c s else dma_write8 b a (ucast v) c s) =
    s\<lparr>mach := bus_write b (dma_at s) (size16 (ch c s)) a v (mach s)\<rparr>"
  using assms by (simp add: dma_write16_def dma_write8_def bus_write_def Let_def mod_mach_def)

lemma write_plain:
  assumes "plain s" "c < 8" "may_transfer 4 c s" "\<not> bit (dma_stat_adv_pend s) c" "moves_once (ch c s)"
  shows "dma_channel_write b c v s =
    (let s5 = snd (count_down b c (mod_ch c (\<lambda>d. d\<lparr>ac := next_ac (dma_mask s) d\<rparr>) (write_state b c v s)))
     in if bit (dma_m s5) c then (DMA_OVER, s5) else (0, s5))"
proof -
  have na: "next_address c (s\<lparr>mach := w\<rparr>) = mod_ch c (\<lambda>d. d\<lparr>ac := next_ac (dma_mask s) d\<rparr>) (s\<lparr>mach := w\<rparr>)" for w
    using next_address_plain [of "s\<lparr>mach := w\<rparr>" c] assms(1,2) by (simp add: plain_def)
  have p: "\<not> dma_advanced s" "length (dma s) = 8" using assms(1) by (simp_all add: plain_def)
  have sgi: "sg_interrupt b c s' = s'" if "\<not> dma_advanced s'" for s' using that by (simp add: sg_interrupt_def)
  have adv: "dma_advanced (snd (count_down b c s')) = dma_advanced s'" if "\<not> dma_advanced s'" for s'
    using that by (simp add: count_down_def Let_def)
  have once: "(if size16 (ch c s) \<and> mode (ch c s) AND 0x20 \<noteq> 0 then move16 (-2) c x else x) = x" for x
    using assms(5) unfolding moves_once_def by (rule if_not_P)
  let ?w = "bus_write b (dma_at s) (size16 (ch c s)) (ac (ch c s)) v (mach s)"
  let ?g = "\<lambda>d. d\<lparr>ac := next_ac (dma_mask s) d\<rparr>"
  have eq: "(mod_ch c ?g (s\<lparr>mach := ?w\<rparr>))\<lparr>dma_stat_rq := dma_stat_rq s OR chan_bit c,
      dma_stat_adv_pend := dma_stat_adv_pend s\<rparr> = mod_ch c ?g (write_state b c v s)"
    by (simp add: mod_ch_def write_state_def)
  show ?thesis
    unfolding dma_channel_write_def Let_def write_access [OF p assms(2)] na once
    using assms(3,4) p(1) by (simp add: and_chan_bit clear_clear_bit eq) (simp add: sgi adv write_state_def)
qed

lemma write_step:
  assumes "plain s" "c < 8" "may_transfer 4 c s" "\<not> bit (dma_stat_adv_pend s) c" "moves_once (ch c s)"
    and "\<not> bit (dma_m s) c" "k < N" "N < 0x10000"
  shows "dma_channel_write b c v (progressed c N k w r s) =
    (0, progressed c N (Suc k) (bus_write b (dma_at s) (size16 (ch c s)) (unit_addr (dma_mask s) (ch c s) k) v w)
          (r OR chan_bit c) s)"
proof -
  let ?s = "progressed c N k w r s"
  let ?w = "bus_write b (dma_at s) (size16 (ch c s)) (unit_addr (dma_mask s) (ch c s) k) v w"
  let ?t = "mod_ch c (\<lambda>d. d\<lparr>ac := next_ac (dma_mask s) d\<rparr>) (write_state b c v ?s)"
  have at: "dma_at ?s = dma_at s" by (simp add: progressed_def)
  have len: "length (dma s) = 8" "\<not> dma_advanced s" using assms(1) by (simp_all add: plain_def)
  have "cc (ch c ?s) - 1 = word_of_nat (N - Suc k)"
    using assms by (simp add: of_nat_diff Suc_le_eq)
  then have nn: "0 \<le> sint (cc (ch c ?s) - 1)" using assms(8) by (simp add: sint_of_count)
  have t: "?t = mod_ch c (\<lambda>d. d\<lparr>ac := next_ac (dma_mask s) d\<rparr>) (progressed c N k ?w (r OR chan_bit c) s)"
    using assms(1,2) by (simp add: write_state_def at progressed_def mod_ch_def plain_def)
  have "count_down b c ?t = (False, mod_ch c (\<lambda>d. d\<lparr>cc := cc d - 1\<rparr>) ?t)"
    unfolding t using nn assms(2) len by (simp add: count_down_def Let_def progressed_def)
  moreover have "mod_ch c (\<lambda>d. d\<lparr>cc := cc d - 1\<rparr>) ?t = progressed c N (Suc k) ?w (r OR chan_bit c) s"
    unfolding t using len assms(2) advanced_by_step [OF assms(7), of s "ch c s"]
    by (simp add: progressed_def mod_ch_def)
  moreover have "plain ?s" "may_transfer 4 c ?s" "\<not> bit (dma_stat_adv_pend ?s) c" "moves_once (ch c ?s)"
    using assms by (simp_all add: moves_once_def)
  ultimately show ?thesis
    using write_plain [of ?s c b v] assms(2,6) by simp
qed

lemma write_last:
  assumes "plain s" "c < 8" "may_transfer 4 c s" "\<not> bit (dma_stat_adv_pend s) c" "moves_once (ch c s)"
    and "\<not> bit (dma_m s) c"
  shows "\<exists>s'. dma_channel_write b c v (progressed c N N w r s) =
      (if mode (ch c s) AND 0x10 \<noteq> 0 then 0 else DMA_OVER, s') \<and>
    finished c (bus_write b (dma_at s) (size16 (ch c s)) (unit_addr (dma_mask s) (ch c s) N) v w) s s'"
proof -
  let ?s = "progressed c N N w r s"
  let ?w = "bus_write b (dma_at s) (size16 (ch c s)) (unit_addr (dma_mask s) (ch c s) N) v w"
  let ?t = "mod_ch c (\<lambda>d. d\<lparr>ac := next_ac (dma_mask s) d\<rparr>) (write_state b c v ?s)"
  have at: "dma_at ?s = dma_at s" by (simp add: progressed_def)
  have len: "length (dma s) = 8" "\<not> dma_advanced s" using assms(1) by (simp_all add: plain_def)
  have t: "?t = mod_ch c (\<lambda>d. d\<lparr>ac := next_ac (dma_mask s) d\<rparr>) (progressed c N N ?w (r OR chan_bit c) s)"
    using assms(1,2) by (simp add: write_state_def at progressed_def mod_ch_def plain_def)
  have "finished c ?w s (snd (count_down b c ?t)) \<and>
      bit (dma_m (snd (count_down b c ?t))) c = (mode (ch c s) AND 0x10 = 0)"
    unfolding t using assms(2,6) len
    by (simp add: count_down_def Let_def progressed_def finished_def bit_or_iff)
  moreover have "plain ?s" "may_transfer 4 c ?s" "\<not> bit (dma_stat_adv_pend ?s) c" "moves_once (ch c ?s)"
    using assms by (simp_all add: moves_once_def)
  ultimately show ?thesis
    using write_plain [of ?s c b v] assms(2) by (auto simp: Let_def)
qed

lemma writes_progress:
  assumes "plain s" "c < 8" "may_transfer 4 c s" "\<not> bit (dma_stat_adv_pend s) c" "moves_once (ch c s)"
    and "\<not> bit (dma_m s) c" "N < 0x10000"
  shows "k + length vs \<le> N \<Longrightarrow>
    \<exists>r'. dma_writes b c vs (progressed c N k w r s) = (replicate (length vs) 0,
      progressed c N (k + length vs)
        (bus_writes b (dma_at s) (size16 (ch c s))
          (zip (map (unit_addr (dma_mask s) (ch c s)) [k..<k + length vs]) vs) w) r' s)"
proof (induction vs arbitrary: k w r)
  case (Cons v vs)
  let ?w1 = "bus_write b (dma_at s) (size16 (ch c s)) (unit_addr (dma_mask s) (ch c s) k) v w"
  have "dma_channel_write b c v (progressed c N k w r s) = (0, progressed c N (Suc k) ?w1 (r OR chan_bit c) s)"
    by (rule write_step [OF assms(1-6) _ assms(7)]) (use Cons.prems in simp)
  moreover obtain r' where "dma_writes b c vs (progressed c N (Suc k) ?w1 (r OR chan_bit c) s) =
      (replicate (length vs) 0, progressed c N (Suc k + length vs)
        (bus_writes b (dma_at s) (size16 (ch c s))
          (zip (map (unit_addr (dma_mask s) (ch c s)) [Suc k..<Suc k + length vs]) vs) ?w1) r' s)"
    using Cons.IH [of "Suc k" ?w1 "r OR chan_bit c"] Cons.prems by auto
  moreover have "[k..<k + length (v # vs)] = k # [Suc k..<Suc k + length vs]" by (simp add: upt_rec)
  ultimately show ?case by (intro exI [of _ r']) (simp only: dma_writes.simps prod.case list.map zip_Cons_Cons bus_writes.simps, simp)
qed auto

lemma dma_writes_snoc:
  "dma_writes b c (vs @ [v]) s = (case dma_writes b c vs s of (rs, s1) \<Rightarrow>
     case dma_channel_write b c v s1 of (r, s2) \<Rightarrow> (rs @ [r], s2))"
  by (induction vs arbitrary: s) (auto split: prod.splits)

lemma bus_writes_snoc: "bus_writes b iv wide (xs @ [(a, v)]) w = bus_write b iv wide a v (bus_writes b iv wide xs w)"
  by (induction xs arbitrary: w) auto

section \<open>The ports\<close>

fun dma_outs :: "'m bus \<Rightarrow> (u16 \<times> u8) list \<Rightarrow> 'm dmas \<Rightarrow> (dma_error + 'm dmas) option" where
  "dma_outs b [] s = Some (Inr s)"
| "dma_outs b ((a, v) # ws) s =
     Option.bind (dma_write b a v s) (\<lambda>r. case r of Inl e \<Rightarrow> Some (Inl e) | Inr s1 \<Rightarrow> dma_outs b ws s1)"

fun dma_ins :: "u16 list \<Rightarrow> 'm dmas \<Rightarrow> u8 list" where
  "dma_ins [] s = []"
| "dma_ins (a # as) s = (case dma_read a s of (v, s1) \<Rightarrow> v # dma_ins as s1)"

definition program_channel :: "nat \<Rightarrow> u8 \<Rightarrow> u8 \<Rightarrow> u8 \<Rightarrow> u8 \<Rightarrow> (u16 \<times> u8) list" where
  "program_channel c al ah nl nh =
     (let a = word_of_nat (2 * c) in [(0xc, 0), (a, al), (a, ah), (a + 1, nl), (a + 1, nh), (0xc, 0)])"

definition read_back :: "nat \<Rightarrow> u16 list" where
  "read_back c = (let a = word_of_nat (2 * c) in [a, a, a + 1, a + 1])"

text \<open>What the two writes of an address or a count leave in the register.\<close>

definition joined_addr :: "u32 \<Rightarrow> u32 \<Rightarrow> u8 \<Rightarrow> u8 \<Rightarrow> u32" where
  "joined_addr m w lo hi = (((w AND 0xffffff00 AND m) OR ucast lo) AND 0xffff00ff AND m) OR push_bit 8 (ucast hi)"

definition joined_count :: "u16 \<Rightarrow> u8 \<Rightarrow> u8 \<Rightarrow> u16" where
  "joined_count w lo hi = ((w AND 0xff00) OR ucast lo) AND 0x00ff OR push_bit 8 (ucast hi)"

lemma program_channel_ports:
  assumes "length (dma s) = 8" "c < 4"
  shows "dma_outs b (program_channel c al ah nl nh) s = Some (Inr
    (mod_ch c (\<lambda>d. d\<lparr>ab := joined_addr (dma_mask s) (ab d) al ah, ac := joined_addr (dma_mask s) (ab d) al ah,
                       cb := joined_count (cb d) nl nh, cc := ucast (joined_count (cb d) nl nh)\<rparr>)
      (s\<lparr>wp0 := False, regs0 := (regs0 s)[0xc := 0, 2 * c := al, 2 * c := ah, 2 * c + 1 := nl, 2 * c + 1 := nh, 0xc := 0]\<rparr>)))"
proof -
  have "c = 0 \<or> c = 1 \<or> c = 2 \<or> c = 3" using assms(2) by auto
  then show ?thesis
    using assms(1)
    by (elim disjE) (simp_all add: program_channel_def dma_write_def write_address_def write_count_def
        mod_ch_def Let_def joined_addr_def joined_count_def)
qed

lemma byte_masks:
  "(0xffffff00::u32) = NOT (mask 8)" "(0xffff00ff::u32) = NOT (push_bit 8 (mask 8))"
  "(0xffff0000::u32) = NOT (mask 16)" "(0xffff::u32) = mask 16"
  "(0xff00::u16) = NOT (mask 8)" "(0x00ff::u16) = mask 8"
  by (simp_all add: mask_eq_exp_minus_1 push_bit_eq_mult)

lemma joined_count_bytes:
  "ucast (joined_count w lo hi) = lo" "ucast (drop_bit 8 (joined_count w lo hi)) = hi"
  unfolding byte_masks joined_count_def by (auto intro!: word_eq_by_bits simp: bit_simps)

lemma joined_addr_bytes:
  assumes "m AND 0xffff = 0xffff"
  shows "ucast (joined_addr m w lo hi) = lo" "ucast (drop_bit 8 (joined_addr m w lo hi)) = hi"
    "joined_addr m w lo hi AND 0xffff0000 = w AND 0xffff0000 AND m"
proof -
  have m: "bit m n" if "n < 16" for n
  proof -
    have "bit (m AND 0xffff) n = bit (0xffff::u32) n" using assms by simp
    then show ?thesis using that unfolding byte_masks by (simp add: bit_simps)
  qed
  have top: "\<not> bit v n" if "8 \<le> n" for v :: u8 and n
    using that bit_imp_le_length [of v n] by auto
  show "ucast (joined_addr m w lo hi) = lo" "ucast (drop_bit 8 (joined_addr m w lo hi)) = hi"
    "joined_addr m w lo hi AND 0xffff0000 = w AND 0xffff0000 AND m"
    unfolding byte_masks joined_addr_def
    by (auto intro!: word_eq_by_bits simp: bit_simps m top)
qed

lemma read_back_bytes:
  assumes "c < 4" "\<not> wp0 s"
  shows "dma_ins (read_back c) s = [ucast (ac (ch c s)), ucast (drop_bit 8 (ac (ch c s))),
    ucast (cc (ch c s)), ucast (drop_bit 8 (cc (ch c s)))]"
proof -
  have "c = 0 \<or> c = 1 \<or> c = 2 \<or> c = 3" using assms(1) by auto
  then show ?thesis
    using assms(2) by (elim disjE) (simp_all add: read_back_def dma_read_def lo_hi_def Let_def)
qed

lemma ucast_count: "ucast (ucast (n :: u16) :: u32) = (ucast n :: u8)"
  "ucast (drop_bit 8 (ucast (n :: u16) :: u32)) = (ucast (drop_bit 8 n) :: u8)"
  by (auto intro!: word_eq_by_bits simp: bit_simps)

section \<open>What device accesses may touch\<close>

datatype dma_op = Read nat | ReadOnly nat | Write nat u16 | Advance nat

fun dma_op_ok :: "dma_op \<Rightarrow> bool" where
  "dma_op_ok (Read c) \<longleftrightarrow> c < 8"
| "dma_op_ok (ReadOnly c) \<longleftrightarrow> c < 8"
| "dma_op_ok (Write c v) \<longleftrightarrow> c < 8"
| "dma_op_ok (Advance c) \<longleftrightarrow> c < 8"

fun dma_op_step :: "'m bus \<Rightarrow> dma_op \<Rightarrow> 'm dmas \<Rightarrow> 'm dmas" where
  "dma_op_step b (Read c) s = snd (dma_channel_read b c s)"
| "dma_op_step b (ReadOnly c) s = snd (dma_channel_read_only b c s)"
| "dma_op_step b (Write c v) s = snd (dma_channel_write b c v s)"
| "dma_op_step b (Advance c) s = snd (dma_channel_advance b c s)"

definition programmed :: "dma_t \<Rightarrow> dma_t" where
  "programmed d = d\<lparr>ac := 0, cc := 0\<rparr>"

definition in_page :: "u32 \<Rightarrow> dma_t \<Rightarrow> dma_t \<Rightarrow> bool" where
  "in_page m d0 d \<longleftrightarrow> programmed d = programmed d0 \<and>
     ac d AND page_bits d0 AND m \<in> {ac d0 AND page_bits d0 AND m, ab d0 AND page_bits d0 AND m}"

definition settled :: "'m dmas \<Rightarrow> 'm dmas \<Rightarrow> bool" where
  "settled s0 s \<longleftrightarrow> plain s \<and> dma_mask s = dma_mask s0 \<and> (\<forall>k < 8. in_page (dma_mask s0) (ch k s0) (ch k s))"

lemma in_page_move:
  assumes "in_page m d0 d" "a AND page_bits d AND m = ac d AND page_bits d AND m"
  shows "in_page m d0 (d\<lparr>ac := a, cc := n\<rparr>)"
proof -
  have "size16 (programmed d) = size16 (programmed d0)" using assms(1) by (simp add: in_page_def)
  then have "size16 d = size16 d0" by (simp add: programmed_def)
  then have "page_bits d = page_bits d0" by (simp add: page_bits_def)
  then show ?thesis using assms by (auto simp: in_page_def programmed_def)
qed

lemma settled_mod:
  assumes "settled s0 s" "c < 8"
    and "in_page (dma_mask s0) (ch c s0) (ch c s) \<Longrightarrow> in_page (dma_mask s0) (ch c s0) (f (ch c s))"
  shows "settled s0 (mod_ch c f s)"
  using assms by (auto simp: settled_def plain_def)

lemma settled_cong:
  assumes "settled s0 s" "dma t = dma s" "dma_mask t = dma_mask s" "dma_advanced t = dma_advanced s" "is_ps2 t = is_ps2 s"
  shows "settled s0 t"
  using assms by (simp add: settled_def plain_def)

lemma next_ac_page: "next_ac m d AND page_bits d AND m = ac d AND page_bits d AND m"
  by (rule word_eq_by_bits) (auto simp: next_ac_def bit_simps bit_page_bits bit_offset_bits)

lemma in_page_next: "in_page m d0 d \<Longrightarrow> in_page m d0 (d\<lparr>ac := next_ac m d\<rparr>)"
  using in_page_move [of m d0 d "next_ac m d" "cc d"] next_ac_page [of m d] by simp

lemma in_page_count: "in_page m d0 d \<Longrightarrow> in_page m d0 (d\<lparr>cc := n\<rparr>)"
  by (simp add: in_page_def programmed_def)

lemma in_page_reload: "in_page m d0 d \<Longrightarrow> in_page m d0 (d\<lparr>cc := n, ac := ab d\<rparr>)"
proof -
  assume a: "in_page m d0 d"
  then have "ab (programmed d) = ab (programmed d0)" by (simp add: in_page_def)
  then have "ab d = ab d0" by (simp add: programmed_def)
  then show ?thesis using a by (simp add: in_page_def programmed_def)
qed

lemma settled_count_down:
  assumes "settled s0 s" "c < 8"
  shows "settled s0 (snd (count_down b c s))"
proof -
  have adv: "dma_advanced s = False" using assms(1) by (simp add: settled_def plain_def)
  have 1: "settled s0 (mod_ch c (\<lambda>d. d\<lparr>cc := cc d - 1\<rparr>) s)"
    by (rule settled_mod [OF assms]) (rule in_page_count)
  have 2: "settled s0 (mod_ch c (\<lambda>d. d\<lparr>cc := ucast (cb d), ac := ab d\<rparr>) (mod_ch c (\<lambda>d. d\<lparr>cc := cc d - 1\<rparr>) s))"
    by (rule settled_mod [OF 1 assms(2)]) (rule in_page_reload)
  show ?thesis
    using settled_cong [OF 1] settled_cong [OF 2] by (simp add: count_down_def Let_def adv 1)
qed

lemma settled_advance:
  assumes "settled s0 s" "c < 8"
  shows "settled s0 (snd (dma_channel_advance b c s))"
proof -
  let ?t = "snd (count_down b c s)"
  have t: "settled s0 ?t" by (rule settled_count_down [OF assms])
  then have "dma_advanced ?t = False" by (simp add: settled_def plain_def)
  then have "sg_interrupt b c ?t = ?t" by (simp add: sg_interrupt_def)
  then show ?thesis
    using assms(1) settled_cong [OF t] by (simp add: dma_channel_advance_def split_def Let_def)
qed

lemma settled_fetch:
  assumes "settled s0 s" "c < 8"
  shows "settled s0 (snd (fetch b c s))"
proof -
  obtain v w where vw: "bus_read b (refreshes c s) (size16 (ch c s)) (ac (ch c s)) (mach s) = (v, w)" by fastforce
  have p: "plain s" and m: "dma_mask s = dma_mask s0" using assms(1) by (simp_all add: settled_def)
  have "settled s0 (s\<lparr>mach := w, dma_stat_rq := dma_stat_rq s OR chan_bit c\<rparr>)"
    by (rule settled_cong [OF assms(1)]) simp_all
  then have "settled s0 (mod_ch c (\<lambda>d. d\<lparr>ac := next_ac (dma_mask s) d\<rparr>)
      (s\<lparr>mach := w, dma_stat_rq := dma_stat_rq s OR chan_bit c\<rparr>))"
    unfolding m by (rule settled_mod [OF _ assms(2)]) (rule in_page_next)
  then show ?thesis using fetch_plain [OF p assms(2) vw] by simp
qed

lemma settled_interrupt: "settled s0 s \<Longrightarrow> sg_interrupt b c s = s"
  by (simp add: sg_interrupt_def settled_def plain_def)

lemma settled_read:
  assumes "settled s0 s" "c < 8"
  shows "settled s0 (snd (dma_channel_read b c s))" "settled s0 (snd (dma_channel_read_only b c s))"
proof -
  let ?f = "snd (fetch b c (snd (dma_channel_advance b c s)))"
  have f: "settled s0 ?f" by (rule settled_fetch [OF settled_advance [OF assms] assms(2)])
  have cd: "settled s0 (snd (count_down b c ?f))" by (rule settled_count_down [OF f assms(2)])
  show "settled s0 (snd (dma_channel_read b c s))"
    using assms(1) cd settled_interrupt [OF cd] by (simp add: dma_channel_read_def split_def)
  show "settled s0 (snd (dma_channel_read_only b c s))"
    using assms(1) settled_cong [OF f] by (simp add: dma_channel_read_only_def split_def)
qed

lemma in_page_move16:
  assumes "in_page m d0 d" "size16 d"
  shows "in_page m d0 (d\<lparr>ac := (ac d AND 0xfffe0000 AND m) OR (x AND 0x1ffff)\<rparr>)"
proof -
  have b: "page_bits d = 0xfffe0000" "offset_bits d = 0x1ffff" using assms(2) by (simp_all add: page_bits_def offset_bits_def)
  have "((ac d AND page_bits d AND m) OR (x AND offset_bits d)) AND page_bits d AND m = ac d AND page_bits d AND m"
    by (rule word_eq_by_bits) (auto simp: bit_simps bit_page_bits bit_offset_bits)
  then show ?thesis using in_page_move [OF assms(1), of _ "cc d"] unfolding b by simp
qed

lemma settled_write:
  assumes "settled s0 s" "c < 8"
  shows "settled s0 (snd (dma_channel_write b c v s))"
proof -
  have p: "plain s" and m: "dma_mask s = dma_mask s0" using assms(1) by (simp_all add: settled_def)
  have adv: "\<not> dma_advanced s" "length (dma s) = 8" using p by (simp_all add: plain_def)
  let ?w = "bus_write b (dma_at s) (size16 (ch c s)) (ac (ch c s)) v (mach s)"
  let ?s2 = "mod_ch c (\<lambda>d. d\<lparr>ac := next_ac (dma_mask s0) d\<rparr>) (s\<lparr>mach := ?w\<rparr>)"
  let ?s3 = "if size16 (ch c s) \<and> mode (ch c s) AND 0x20 \<noteq> 0 then move16 (- 2) c ?s2 else ?s2"
  have na: "next_address c (s\<lparr>mach := ?w\<rparr>) = ?s2"
    using next_address_plain [of "s\<lparr>mach := ?w\<rparr>" c] p assms(2) m by (simp add: plain_def)
  have s1: "settled s0 (s\<lparr>mach := ?w\<rparr>)" by (rule settled_cong [OF assms(1)]) simp_all
  have s2: "settled s0 ?s2" by (rule settled_mod [OF s1 assms(2)]) (rule in_page_next)
  have m2: "dma_mask ?s2 = dma_mask s0" by (simp add: m)
  have "settled s0 ?s3"
  proof (cases "size16 (ch c s)")
    case True
    have "size16 (ch c ?s2)" using True adv(2) assms(2) by simp
    note sz = this
    have "settled s0 (move16 (- 2) c ?s2)"
      unfolding move16_def m2 by (rule settled_mod [OF s2 assms(2)], erule in_page_move16, rule sz)
    then show ?thesis using s2
      by (cases "size16 (ch c s) \<and> mode (ch c s) AND 0x20 \<noteq> 0") (simp_all only: if_True if_False simp_thms)
  qed (use s2 in simp)
  then have "settled s0 (?s3\<lparr>dma_stat_rq := r, dma_stat_adv_pend := q\<rparr>)" for r q
    by (rule settled_cong) simp_all
  note cd = settled_count_down [OF this assms(2)]
  show ?thesis
    unfolding dma_channel_write_def Let_def write_access [OF adv assms(2)] na
    using assms(1) cd settled_interrupt [OF cd] by (auto simp del: if_split)
qed

lemma settled_step: "settled s0 s \<Longrightarrow> dma_op_ok op \<Longrightarrow> settled s0 (dma_op_step b op s)"
  by (cases op) (simp_all add: settled_read settled_write settled_advance)

lemma settled_refl: "plain s \<Longrightarrow> settled s s"
  by (simp add: settled_def in_page_def)

section \<open>Software requests\<close>

lemma unat_u16: "unat (w::u16) < 0x10000"
proof -
  have "unat w < 2 ^ LENGTH(16)" by (rule unsigned_less)
  then show ?thesis by simp
qed

lemma settled_block_step:
  assumes "settled s0 s" "c < 8"
  shows "settled s0 (block_step b c bit16 i s)"
proof -
  have r: "settled s0 (snd (dma_channel_read b c s))" by (rule settled_read [OF assms])
  have w: "settled s0 (snd (dma_channel_write b c v s))" for v by (rule settled_write [OF assms])
  show ?thesis
    using assms(1) w settled_cong [OF r] by (simp add: block_step_def split_def)
qed

lemma settled_cb: "settled s0 s \<Longrightarrow> c < 8 \<Longrightarrow> cb (ch c s) = cb (ch c s0)"
proof -
  assume "settled s0 s" "c < 8"
  then have "cb (programmed (ch c s)) = cb (programmed (ch c s0))" by (simp add: settled_def in_page_def)
  then show ?thesis by (simp add: programmed_def)
qed

lemma block_loop_returns:
  assumes "cb (ch c s0) < 0xffff" "c < 8"
  shows "settled s0 s \<Longrightarrow> i \<le> cb (ch c s0) + 1 \<Longrightarrow> \<exists>s'. block_loop b c bit16 i s = Some s' \<and> settled s0 s'"
proof (induction "unat (cb (ch c s0)) + 1 - unat i" arbitrary: i s rule: less_induct)
  case less
  note cb = settled_cb [OF less.prems(1) assms(2)]
  show ?case
  proof (cases "i \<le> cb (ch c s0)")
    case True
    have lt: "i < 0xffff" using True assms(1) by (rule le_less_trans)
    have "unat (i + 1) = unat i + 1"
      using lt by (simp add: unat_word_ariths word_less_nat_alt)
    moreover have "unat i \<le> unat (cb (ch c s0))" using True by (simp add: word_le_nat_alt)
    moreover have "i + 1 \<le> cb (ch c s0) + 1"
      using True assms(1) by (simp add: word_le_nat_alt word_less_nat_alt unat_word_ariths)
    ultimately have "\<exists>s'. block_loop b c bit16 (i + 1) (block_step b c bit16 i s) = Some s' \<and> settled s0 s'"
      by (intro less.hyps settled_block_step [OF less.prems(1) assms(2)]) simp_all
    then show ?thesis using True cb by (subst block_loop.simps) simp
  next
    case False
    then show ?thesis using less.prems(1) cb by (subst block_loop.simps) simp
  qed
qed

lemma block_loop_spins:
  assumes "cb (ch c s0) = 0xffff" "c < 8" "settled s0 s"
  shows "block_loop b c bit16 i s = None"
proof (rule ccontr)
  assume "block_loop b c bit16 i s \<noteq> None"
  then obtain s' where "block_loop b c bit16 i s = Some s'" by auto
  then have "c < 8 \<longrightarrow> cb (ch c s0) = 0xffff \<longrightarrow> settled s0 s \<longrightarrow> False"
  proof (rule block_loop.raw_induct [rotated], goal_cases)
    case (1 f b c bit16 i s s')
    show ?case
    proof (intro impI)
      assume a: "c < 8" "cb (ch c s0) = 0xffff" "settled s0 s"
      have "i \<le> cb (ch c s)" using settled_cb [OF a(3,1)] a(2) unat_u16 [of i] by (simp add: word_le_nat_alt)
      then show False
        using 1(1) [of b c bit16 "i + 1" "block_step b c bit16 i s" s'] 1(2) a settled_block_step [OF a(3,1)] by simp
    qed
  qed
  then show False using assms by blast
qed

section \<open>Word channels that count down\<close>

section \<open>The PS/2 interface\<close>

lemma accesses_plain:
  assumes "\<not> dma_advanced s"
  shows "\<exists>v w. dma_read8 b a c s = (v, s\<lparr>mach := w\<rparr>)" "\<exists>v w. dma_read16 b a c s = (v, s\<lparr>mach := w\<rparr>)"
    "\<exists>w. dma_write8 b a x c s = s\<lparr>mach := w\<rparr>" "\<exists>w. dma_write16 b a y c s = s\<lparr>mach := w\<rparr>"
proof -
  have r: "dma_read8 b a c t = (fst (readb_phys b a (mach t)), t\<lparr>mach := snd (readb_phys b a (mach t))\<rparr>)"
    if "\<not> dma_advanced t" for a and t :: "'a dmas"
    using that by (simp add: dma_read8_def split_def)
  have w: "dma_write8 b a x c t = t\<lparr>mach := (if dma_at t then invalidate b a a (writeb_phys b a x (mach t))
      else writeb_phys b a x (mach t))\<rparr>" if "\<not> dma_advanced t" for a x and t :: "'a dmas"
    using that by (simp add: dma_write8_def mod_mach_def Let_def)
  show "\<exists>v w. dma_read8 b a c s = (v, s\<lparr>mach := w\<rparr>)" "\<exists>w. dma_write8 b a x c s = s\<lparr>mach := w\<rparr>"
    unfolding r [OF assms] w [OF assms] by blast+
  show "\<exists>v w. dma_read16 b a c s = (v, s\<lparr>mach := w\<rparr>)"
    using assms by (simp add: dma_read16_def r split_def) blast
  show "\<exists>w. dma_write16 b a y c s = s\<lparr>mach := w\<rparr>"
    using assms by (simp add: dma_write16_def w) blast
qed

lemma ps2_access_plain:
  assumes "\<not> dma_advanced s"
  shows "\<exists>w. ps2_access b dir c s = s\<lparr>mach := w\<rparr>"
proof (cases dir)
  case MemToIo
  obtain v w v' w' where "dma_read8 b (ac (ch c s)) c s = (v, s\<lparr>mach := w\<rparr>)"
    "dma_read16 b (ac (ch c s)) c s = (v', s\<lparr>mach := w'\<rparr>)"
    using accesses_plain(1,2) [OF assms] by blast
  then show ?thesis using MemToIo by (cases "size16 (ch c s)") (auto simp: ps2_access_def mod_mach_def Let_def)
next
  case IoToMem
  have "\<exists>w'. dma_write8 b a x c (s\<lparr>mach := w\<rparr>) = s\<lparr>mach := w'\<rparr>"
    "\<exists>w'. dma_write16 b a y c (s\<lparr>mach := w\<rparr>) = s\<lparr>mach := w'\<rparr>" for a x y w
    using accesses_plain(3,4) [of "s\<lparr>mach := w\<rparr>"] assms by simp_all
  then show ?thesis using IoToMem by (simp add: ps2_access_def split_def Let_def)
next
  case Verify
  then show ?thesis by (intro exI [of _ "mach s"]) (simp add: ps2_access_def)
qed

definition ps2_unit :: "dma_t \<Rightarrow> u32" where
  "ps2_unit d = (let k = (if size16 d then 2 else 1) in if ps2_mode d AND 0x10 \<noteq> 0 then - k else k)"

lemma ps2_unit_upd [simp]: "ps2_unit (d\<lparr>ac := a\<rparr>) = ps2_unit d" "ps2_unit (d\<lparr>cc := n\<rparr>) = ps2_unit d"
  by (simp_all add: ps2_unit_def)

text \<open>The channels after \<open>n\<close> units of a run of channel \<open>c\<close> that counts on channel \<open>k\<close>.\<close>

definition ps2_ran :: "nat \<Rightarrow> nat \<Rightarrow> nat \<Rightarrow> 'm dmas \<Rightarrow> 'm dmas \<Rightarrow> bool" where
  "ps2_ran c k n s s' \<longleftrightarrow> length (dma s') = 8 \<and> \<not> dma_advanced s' \<and>
     (\<forall>j < 8. ch j s' = (ch j s)\<lparr>ac := (if j = c then ac (ch j s) + of_nat n * ps2_unit (ch j s) else ac (ch j s)),
                              cc := (if j = k then cc (ch j s) - of_nat n else cc (ch j s))\<rparr>)"

lemma ps2_step_ran:
  assumes "ps2_ran c (ps2_counter dir c) n s t" "c < 8"
  shows "ps2_ran c (ps2_counter dir c) (Suc n) s (ps2_step b dir c t)"
proof -
  have l: "length (dma t) = 8" "\<not> dma_advanced t" using assms(1) by (simp_all add: ps2_ran_def)
  obtain w where w: "ps2_access b dir c t = t\<lparr>mach := w\<rparr>" using ps2_access_plain [OF l(2)] by blast
  have k: "ps2_counter dir c < 8" using assms(2) by (simp add: ps2_counter_def)
  have "ch c t = (ch c s)\<lparr>ac := ac (ch c s) + of_nat n * ps2_unit (ch c s),
      cc := (if c = ps2_counter dir c then cc (ch c s) - of_nat n else cc (ch c s))\<rparr>"
    using assms by (simp add: ps2_ran_def)
  then have u: "ps2_unit (ch c t) = ps2_unit (ch c s)" by (simp add: ps2_unit_def)
  have step: "ch j (ps2_step b dir c t) = (ch j t)\<lparr>
      ac := (if j = c then ac (ch j t) + ps2_unit (ch c t) else ac (ch j t)),
      cc := (if j = ps2_counter dir c then cc (ch j t) - 1 else cc (ch j t))\<rparr>" if "j < 8" for j
  proof -
    have a: "(if ps2_mode d AND 0x10 \<noteq> 0 then ac d - m else ac d + m) =
        ac d + (if ps2_mode d AND 0x10 \<noteq> 0 then - m else m)" for d and m :: u32 by simp
    show ?thesis
      using l k assms(2) that
      by (cases "j = c"; cases "j = ps2_counter dir c")
        (simp_all add: ps2_step_def w Let_def ps2_unit_def a del: if_split)
  qed
  have "length (dma (ps2_step b dir c t)) = 8" "\<not> dma_advanced (ps2_step b dir c t)"
    using l by (simp_all add: ps2_step_def w Let_def)
  moreover have "ch j (ps2_step b dir c t) = (ch j s)\<lparr>
      ac := (if j = c then ac (ch j s) + of_nat (Suc n) * ps2_unit (ch j s) else ac (ch j s)),
      cc := (if j = ps2_counter dir c then cc (ch j s) - of_nat (Suc n) else cc (ch j s))\<rparr>" if "j < 8" for j
    using assms(1) that by (simp add: step [OF that] u ps2_ran_def distrib_right algebra_simps)
  ultimately show ?thesis by (simp add: ps2_ran_def)
qed

lemma ps2_ran_0: "length (dma s) = 8 \<Longrightarrow> \<not> dma_advanced s \<Longrightarrow> ps2_ran c k 0 s s"
  by (simp add: ps2_ran_def)

lemma ps2_loop_runs:
  fixes s :: "'m dmas"
  assumes "c < 8" "cc (ch (ps2_counter dir c) s) = word_of_nat N" "N < 0x10000"
  shows "ps2_ran c (ps2_counter dir c) n s t \<Longrightarrow> n < max 1 N \<Longrightarrow>
    \<exists>s'. ps2_loop b dir c t = Some s' \<and> ps2_ran c (ps2_counter dir c) (max 1 N) s s'"
proof (induction "max 1 N - n" arbitrary: n t)
  case (Suc m)
  let ?k = "ps2_counter dir c"
  have r: "ps2_ran c ?k (Suc n) s (ps2_step b dir c t)" by (rule ps2_step_ran [OF Suc.prems(1) assms(1)])
  have k: "?k < 8" using assms(1) by (simp add: ps2_counter_def)
  have "cc (ch ?k (ps2_step b dir c t)) = word_of_nat N - word_of_nat (Suc n)"
    using r k assms(2) by (simp add: ps2_ran_def)
  moreover have "sint (word_of_nat N - word_of_nat (Suc n) :: u32) \<le> 0 \<longleftrightarrow> N \<le> Suc n"
  proof (cases "N = 0")
    case True
    then have "n = 0" using Suc.prems(2) by simp
    then show ?thesis using True by simp
  next
    case False
    then have "word_of_nat N - word_of_nat (Suc n) = (word_of_nat (N - Suc n) :: u32)"
      using Suc.prems(2) by (simp add: of_nat_diff)
    moreover have "sint (word_of_nat (N - Suc n) :: u32) = int (N - Suc n)"
      using assms(3) by (intro sint_of_count) simp
    ultimately show ?thesis by simp
  qed
  ultimately have g: "0 < sint (cc (ch ?k (ps2_step b dir c t))) \<longleftrightarrow> Suc n < N" by (simp add: not_le [symmetric])
  show ?case
  proof (cases "Suc n < N")
    case True
    then have "\<exists>s'. ps2_loop b dir c (ps2_step b dir c t) = Some s' \<and> ps2_ran c ?k (max 1 N) s s'"
      using Suc.hyps(2) Suc.prems(2) by (intro Suc.hyps(1) [OF _ r]) simp_all
    then show ?thesis using True g by (subst ps2_loop.simps) (simp add: Let_def)
  next
    case False
    then have "max 1 N = Suc n" using Suc.prems(2) by auto
    then show ?thesis using False g r by (subst ps2_loop.simps) (simp add: Let_def)
  qed
qed auto

section \<open>Registers that lose what is written\<close>

text \<open>A flat memory as the rest of the machine, and a PC built around it.\<close>

definition flat_bus :: "(u32 \<Rightarrow> u8) bus" where
  "flat_bus = \<lparr>readb_phys = (\<lambda>a w. (w a, w)), writeb_phys = (\<lambda>a v w. w(a := v)),
     read_phys = (\<lambda>a n w. (map (\<lambda>i. w (a + word_of_nat i)) [0..<n], w)),
     write_phys = (\<lambda>a bs w. fold (\<lambda>i w. w(a + word_of_nat i := bs ! i)) [0..<length bs] w),
     inb = (\<lambda>p w. (0xff, w)), inw = (\<lambda>p w. (0xffff, w)), outb = (\<lambda>p v w. w), outw = (\<lambda>p v w. w),
     picint13 = (\<lambda>w. w), refreshread = (\<lambda>w. w), invalidate = (\<lambda>a b w. w), cache_clean = (\<lambda>w. w)\<rparr>"

definition blank_dmas :: "'m \<Rightarrow> 'm dmas" where
  "blank_dmas w = \<lparr>dma = [], dma_e = 0, dma_m = 0, regs0 = replicate 16 0, regs1 = replicate 16 0,
     regs2 = replicate 16 0, wp0 = False, wp1 = False, dma_stat = 0, dma_stat_rq = 0, dma_stat_rq_pc = 0,
     dma_stat_adv_pend = 0, dma_command0 = 0, dma_command1 = 0, dma_req_is_soft = False, dma_advanced = False,
     dma_at = False, dma_buffer = (\<lambda>_. 0), dma16_buffer = (\<lambda>_. 0), dma_sg_base = 0, dma_mask = 0,
     xfr_command = 0, xfr_channel = 0, byte_ptr = 0, is_ps2 = False, mem_size = 1024, hung = False, mach = w\<rparr>"

text \<open>Channel \<open>c\<close> programmed with a mode, an address and a count.\<close>

definition pc_with :: "nat \<Rightarrow> u8 \<Rightarrow> u32 \<Rightarrow> u16 \<Rightarrow> (u32 \<Rightarrow> u8) dmas" where
  "pc_with c md a n = mod_ch c (\<lambda>d. d\<lparr>mode := md, ab := a, ac := a, cb := n, cc := ucast n\<rparr>)
     (dma_init True (blank_dmas (\<lambda>a. ucast a)))"

lemma pc_with_fields:
  assumes "c < 8"
  shows "ch c (pc_with c md a n) = (channel0 c)\<lparr>mode := md, ab := a, ac := a, cb := n, cc := ucast n\<rparr>"
    "dma_mask (pc_with c md a n) = 0xffffff" "mach (pc_with c md a n) = (\<lambda>a. ucast a)" "plain (pc_with c md a n)"
    "dma_stat_adv_pend (pc_with c md a n) = 0" "dma_m (pc_with c md a n) = 0" "dma_at (pc_with c md a n)"
    "may_transfer k c (pc_with c md a n) = (md AND 0x0c = k)"
proof -
  have "(0xff::u8) = mask 8" by (simp add: mask_eq_exp_minus_1)
  then have "bit (0xff::u8) c" using assms by (simp only: bit_mask_iff) simp
  then show "ch c (pc_with c md a n) = (channel0 c)\<lparr>mode := md, ab := a, ac := a, cb := n, cc := ucast n\<rparr>"
    "dma_mask (pc_with c md a n) = 0xffffff" "mach (pc_with c md a n) = (\<lambda>a. ucast a)" "plain (pc_with c md a n)"
    "dma_stat_adv_pend (pc_with c md a n) = 0" "dma_m (pc_with c md a n) = 0" "dma_at (pc_with c md a n)"
    "may_transfer k c (pc_with c md a n) = (md AND 0x0c = k)"
    using assms
  by (auto simp: pc_with_def dma_init_def dma_reset_def plain_def blank_dmas_def may_transfer_def and_chan_bit
      channel0_def)
qed

lemmas witness_simps = pc_with_fields channel0_def page_bits_def offset_bits_def unit_addr_def unit_step_def
  refreshes_def bus_read_def flat_bus_def moves_once_def

definition ps2_with :: "nat \<Rightarrow> u8 \<Rightarrow> u32 \<Rightarrow> (u32 \<Rightarrow> u8) dmas" where
  "ps2_with c md n = mod_ch c (\<lambda>d. d\<lparr>ps2_mode := md\<rparr>) (mod_ch 0 (\<lambda>d. d\<lparr>cc := n\<rparr>)
     (ps2_dma_init True (blank_dmas (\<lambda>a. ucast a))))"

section \<open>Properties\<close>

text \<open>
  Claim C4: On the two original controllers (neither the advanced nor the PS/2 mode), a channel set up for
  memory-to-device transfers, enabled, unmasked or requested by software, and programmed for \<open>n +
  1\<close> units, with its address inside the address mask, delivers to a device that reads \<open>n +
  1\<close> times exactly the bytes or words the bus holds at the consecutive unit addresses, which wrap
  inside the 64K or 128K page; terminal count comes with the last of them and no other; then the channel
  is masked, or with auto-initialisation reloaded, and no other channel changes.
\<close>

theorem dma_read_transfer:
  assumes "plain s" and "c < 8" and "may_transfer 8 c s" and "\<not> bit (dma_stat_adv_pend s) c"
    and "cc (ch c s) = word_of_nat n" and "n < 0x10000"
    and "ac (ch c s) AND page_bits (ch c s) AND NOT (dma_mask s) = 0"
    and "bus_reads b (refreshes c s) (size16 (ch c s)) (map (unit_addr (dma_mask s) (ch c s)) [0..<Suc n]) (mach s)
      = (vs @ [v], w)"
  shows "\<exists>s'. dma_reads b c (Suc n) s = (map ucast vs @ [ucast v OR DMA_OVER], s') \<and> finished c w s s'"
proof -
  let ?a = "unit_addr (dma_mask s) (ch c s)"
  obtain w1 where w1: "bus_reads b (refreshes c s) (size16 (ch c s)) (map ?a [0..<n]) (mach s) = (vs, w1)"
    "bus_read b (refreshes c s) (size16 (ch c s)) (?a n) w1 = (v, w)"
    using assms(8) by (auto simp: bus_reads_snoc split: prod.splits)
  obtain r' where r': "dma_reads b c n s = (map ucast vs, progressed c n n w1 r' s)"
    using reads_progress [OF assms(1-4,6), of 0 n b "mach s" vs w1 "dma_stat_rq s"] w1(1)
      progressed_start [OF assms(1,2,5,7)] by auto
  let ?s = "progressed c n n w1 r' s"
  let ?s' = "snd (dma_channel_read b c ?s)"
  let ?t = "mod_ch c (\<lambda>d. d\<lparr>ac := next_ac (dma_mask s) d\<rparr>) (?s\<lparr>mach := w, dma_stat_rq := r' OR chan_bit c\<rparr>)"
  have len: "length (dma ?s) = 8" "\<not> dma_advanced ?s"
    using progressed_plain [OF assms(1), of c n n w1 r'] by (simp_all add: plain_def)
  have cd: "fst (count_down b c ?t)"
    using count_down_end [of ?t c b] len assms(1,2) by simp
  have "finished c w s (snd (count_down b c ?t))"
    unfolding finished_def using count_down_end [of ?t c b] len assms(1,2) by (simp add: bit_or_iff)
  moreover have "dma_channel_read b c ?s = (ucast v OR DMA_OVER, snd (count_down b c ?t))"
    using read_plain [of ?s c b v w] assms(1-4) w1(2) cd by (simp add: split_def)
  ultimately show ?thesis
    using r' by (intro exI [of _ "snd (count_down b c ?t)"]) (simp only: dma_reads_snoc prod.case simp_thms)
qed

lemma dma_read_transfer_witness:
  "\<exists>s'. dma_reads flat_bus 2 (Suc 2) (pc_with 2 0x48 0x1fffe 2) =
      (map ucast [0xfe, 0xff :: u16] @ [ucast (0x00 :: u16) OR DMA_OVER], s') \<and>
    finished 2 (\<lambda>a. ucast a) (pc_with 2 0x48 0x1fffe 2) s'"
  by (rule dma_read_transfer) (simp_all add: witness_simps upt_rec)

text \<open>
  Claim C5: On the two original controllers (neither the advanced nor the PS/2 mode), a device that writes
  \<open>n + 1\<close> units to an unmasked channel that is set up for device-to-memory transfers,
  programmed for \<open>n + 1\<close> units inside the address mask, and moves its address once per unit
  (all but the 16-bit channels that count down), makes exactly those writes on the bus, at the consecutive
  unit addresses; the channel then is masked or reloaded. Terminal count is reported with the last unit,
  except with auto-initialisation, where a write never reports it, unlike a read.
\<close>

theorem dma_write_transfer:
  assumes "plain s" and "c < 8" and "may_transfer 4 c s" and "\<not> bit (dma_stat_adv_pend s) c"
    and "moves_once (ch c s)" and "\<not> bit (dma_m s) c"
    and "cc (ch c s) = word_of_nat (length vs)" and "length vs < 0x10000"
    and "ac (ch c s) AND page_bits (ch c s) AND NOT (dma_mask s) = 0"
  shows "\<exists>s'. dma_writes b c (vs @ [v]) s =
      (replicate (length vs) 0 @ [if mode (ch c s) AND 0x10 \<noteq> 0 then 0 else DMA_OVER], s') \<and>
    finished c (bus_writes b (dma_at s) (size16 (ch c s))
      (zip (map (unit_addr (dma_mask s) (ch c s)) [0..<Suc (length vs)]) (vs @ [v])) (mach s)) s s'"
proof -
  let ?n = "length vs" and ?a = "unit_addr (dma_mask s) (ch c s)"
  let ?w = "bus_writes b (dma_at s) (size16 (ch c s)) (zip (map ?a [0..<?n]) vs) (mach s)"
  obtain r' where r': "dma_writes b c vs s = (replicate ?n 0, progressed c ?n ?n ?w r' s)"
    using writes_progress [OF assms(1-6,8), of 0 vs b "mach s" "dma_stat_rq s"]
      progressed_start [OF assms(1,2,7,9)] by auto
  obtain s' where s': "dma_channel_write b c v (progressed c ?n ?n ?w r' s) =
      (if mode (ch c s) AND 0x10 \<noteq> 0 then 0 else DMA_OVER, s')"
    "finished c (bus_write b (dma_at s) (size16 (ch c s)) (?a ?n) v ?w) s s'"
    using write_last [OF assms(1-6)] by blast
  have "zip (map ?a [0..<Suc ?n]) (vs @ [v]) = zip (map ?a [0..<?n]) vs @ [(?a ?n, v)]" by simp
  then show ?thesis
    using r' s' by (intro exI [of _ s']) (simp only: dma_writes_snoc bus_writes_snoc prod.case simp_thms)
qed

lemma dma_write_transfer_witness:
  "\<exists>s'. dma_writes flat_bus 2 ([0x11, 0x22] @ [0x33]) (pc_with 2 0x44 0x1fffe 2) =
      (replicate (length [0x11, 0x22 :: u16]) 0 @
        [if mode (ch 2 (pc_with 2 0x44 0x1fffe 2)) AND 0x10 \<noteq> 0 then 0 else DMA_OVER], s') \<and>
    finished 2 (bus_writes flat_bus (dma_at (pc_with 2 0x44 0x1fffe 2)) (size16 (ch 2 (pc_with 2 0x44 0x1fffe 2)))
      (zip (map (unit_addr (dma_mask (pc_with 2 0x44 0x1fffe 2)) (ch 2 (pc_with 2 0x44 0x1fffe 2)))
        [0..<Suc (length [0x11, 0x22 :: u16])]) ([0x11, 0x22] @ [0x33])) (mach (pc_with 2 0x44 0x1fffe 2)))
      (pc_with 2 0x44 0x1fffe 2) s'"
  by (rule dma_write_transfer) (simp_all add: witness_simps)

text \<open>
  Claim C14: On the two original controllers (8 channels, neither the advanced nor the PS/2 mode),
  whatever sequence of reads, writes and advances devices make on the channels, no channel's current
  address leaves the 64K (128K for a 16-bit channel) page that its current or its base address named at
  the start. Only the current address and the current count of a channel move: its base address, base
  count, mode, page and every other field stay as programmed. Pages are compared under the address mask of
  the machine.
\<close>

theorem dma_page_never_crossed:
  assumes "plain s" and "list_all dma_op_ok ops" and "c < 8"
  shows "let d = ch c s; d' = ch c (fold (dma_op_step b) ops s) in
    programmed d' = programmed d \<and>
    ac d' AND page_bits d AND dma_mask s \<in> {ac d AND page_bits d AND dma_mask s, ab d AND page_bits d AND dma_mask s}"
proof -
  have "settled s (fold (dma_op_step b) ops t)" if "settled s t" for t
    using assms(2) that by (induction ops arbitrary: t) (simp_all add: settled_step)
  then have "settled s (fold (dma_op_step b) ops s)" using settled_refl [OF assms(1)] by blast
  then show ?thesis using assms(3) by (auto simp: settled_def in_page_def Let_def)
qed

lemma dma_page_never_crossed_witness:
  "let d = ch 2 (pc_with 2 0x48 0x1fffe 5); d' = ch 2 (fold (dma_op_step flat_bus) [Read 2, ReadOnly 2, Read 2] (pc_with 2 0x48 0x1fffe 5)) in
    programmed d' = programmed d \<and>
    ac d' AND page_bits d AND dma_mask (pc_with 2 0x48 0x1fffe 5) \<in>
      {ac d AND page_bits d AND dma_mask (pc_with 2 0x48 0x1fffe 5), ab d AND page_bits d AND dma_mask (pc_with 2 0x48 0x1fffe 5)}"
  by (rule dma_page_never_crossed) (simp_all add: plain_def pc_with_def dma_init_def dma_reset_def)

text \<open>
  Claim C30: Programming a byte channel 0 to 3 through the ports (clear the flip-flop, two address bytes,
  two count bytes), on a machine whose address mask keeps the low 16 bits, and reading the four bytes back
  gives the bytes written; base and current registers agree, the page is kept, and no other channel, mask
  or memory changes.
\<close>

theorem dma_program_roundtrip:
  assumes "length (dma s) = 8" and "c < 4" and "dma_mask s AND 0xffff = 0xffff"
  shows "\<exists>s'. dma_outs b (program_channel c al ah nl nh) s = Some (Inr s') \<and>
    dma_ins (read_back c) s' = [al, ah, nl, nh] \<and>
    ab (ch c s') AND 0xffff0000 = ab (ch c s) AND 0xffff0000 AND dma_mask s \<and>
    ac (ch c s') = ab (ch c s') \<and> cc (ch c s') = ucast (cb (ch c s')) \<and>
    (\<forall>k. k \<noteq> c \<longrightarrow> ch k s' = ch k s) \<and> dma_m s' = dma_m s \<and> mach s' = mach s"
  using assms
  by (simp add: program_channel_ports read_back_bytes joined_count_bytes joined_addr_bytes ucast_count)

lemma dma_program_roundtrip_witness:
  "\<exists>s'. dma_outs flat_bus (program_channel 2 0x34 0x12 0xff 0x01) (pc_with 2 0 0xab0000 0) = Some (Inr s') \<and>
    dma_ins (read_back 2) s' = [0x34, 0x12, 0xff, 0x01]"
proof -
  have "length (dma (pc_with 2 0 0xab0000 0)) = 8" "dma_mask (pc_with 2 0 0xab0000 0) AND 0xffff = 0xffff" by code_simp+
  then show ?thesis
    using dma_program_roundtrip [of "pc_with 2 0 0xab0000 0" 2 flat_bus "0x34" "0x12" "0xff" "0x01"] by auto
qed

text \<open>
  Claim C15: On the two original controllers (neither the advanced nor the PS/2 mode), a software request
  on a byte channel 0 to 3, which is a write of the request register at port 9 with bit 2 set (for channel
  0 with memory-to-memory transfers switched off, as they take another path), finishes if and only if the
  base count of the channel is not FFFFh: with the largest count the 16-bit loop variable wraps and the
  transfer never ends.
\<close>

theorem dma_software_request_returns:
  assumes "plain s" and "c < 4" and "c = 0 \<longrightarrow> dma_command0 s AND 1 = 0"
  shows "dma_write b 9 (4 OR word_of_nat c) s = None \<longleftrightarrow> cb (ch c s) = 0xffff"
proof -
  let ?s = "s\<lparr>regs0 := (regs0 s)[9 := 4 OR word_of_nat c], dma_stat_rq_pc := dma_stat_rq_pc s OR chan_bit c\<rparr>"
  have v: "(4 OR word_of_nat c :: u8) AND 4 \<noteq> 0" "unat ((4 OR word_of_nat c :: u8) AND 3) = c"
  proof -
    have "c = 0 \<or> c = 1 \<or> c = 2 \<or> c = 3" using assms(2) by auto
    then show "(4 OR word_of_nat c :: u8) AND 4 \<noteq> 0" "unat ((4 OR word_of_nat c :: u8) AND 3) = c" by auto
  qed
  have "dma_write b 9 (4 OR word_of_nat c) s = map_option Inr (dma_block_transfer b c ?s)"
    using v assms(3) by (auto simp: dma_write_def Let_def)
  moreover have set: "settled (?s\<lparr>dma_req_is_soft := True\<rparr>) (?s\<lparr>dma_req_is_soft := True\<rparr>)"
    using assms(1) by (intro settled_refl) (simp add: plain_def)
  moreover have "(dma_block_transfer b c ?s = None) \<longleftrightarrow> cb (ch c s) = 0xffff"
  proof (cases "cb (ch c s) = 0xffff")
    case True
    then show ?thesis using block_loop_spins [OF _ _ set, of c] assms(2) by (simp add: dma_block_transfer_def Let_def)
  next
    case False
    then have "cb (ch c s) < 0xffff" using unat_u16 [of "cb (ch c s)"] by (simp add: word_less_nat_alt word_unat_eq_iff)
    then obtain s' where "block_loop b c (if dma_advanced ?s then dma_transfer_size (ch c ?s) = 2 else 4 \<le> c) 0
        (?s\<lparr>dma_req_is_soft := True\<rparr>) = Some s'"
      using block_loop_returns [OF _ _ set, of c 0] assms(2) by fastforce
    then show ?thesis using False by (simp add: dma_block_transfer_def Let_def)
  qed
  ultimately show ?thesis by simp
qed

lemma dma_software_request_returns_witness:
  "dma_write flat_bus 9 (4 OR word_of_nat 1) (pc_with 1 0x88 0 0xffff) = None \<longleftrightarrow> cb (ch 1 (pc_with 1 0x88 0 0xffff)) = 0xffff"
  by (rule dma_software_request_returns) (simp_all add: plain_def pc_with_def dma_init_def dma_reset_def)

text \<open>
  Claim C37: A run of the PS/2 interface, outside the advanced mode and for a 16-bit count, always ends;
  it moves the address by one unit per step and makes as many steps as the count of the channel it counts
  on (at least one), which for a memory verify is channel 0 whatever channel was asked for: that channel's
  count is used up and its own is not. It sets the status bit of the channel asked for, and no other field
  of any channel changes.
\<close>

theorem dma_ps2_run_units:
  assumes "length (dma s) = 8" and "\<not> dma_advanced s" and "c < 8"
    and "k = ps2_counter (ps2_dir_of (ps2_mode (ch c s))) c"
    and "cc (ch k s) = word_of_nat n" and "n < 0x10000"
  shows "\<exists>s'. dma_ps2_run b c s = Some s' \<and> bit (dma_stat s') c \<and>
    (\<forall>j < 8. ch j s' = (ch j s)\<lparr>
        ac := (if j = c then ac (ch c s) + of_nat (max 1 n) * ps2_unit (ch c s) else ac (ch j s)),
        cc := (if j = k then cc (ch j s) - of_nat (max 1 n) else cc (ch j s))\<rparr>)"
proof -
  let ?dir = "ps2_dir_of (ps2_mode (ch c s))"
  obtain t where t: "ps2_loop b ?dir c s = Some t" "ps2_ran c k (max 1 n) s t"
    using ps2_loop_runs [OF assms(3), where dir = ?dir and s = s and N = n and n = 0 and t = s and b = b]
      ps2_ran_0 [OF assms(1,2)] assms(4-6) by (auto simp: less_max_iff_disj)
  let ?s = "(if ?dir = IoToMem then mod_mach (cache_clean b) t else t)"
  have "dma_ps2_run b c s = Some (?s\<lparr>dma_stat := dma_stat ?s OR chan_bit c\<rparr>)"
    by (simp add: dma_ps2_run_def t(1) Let_def)
  moreover have "ch j ?s = ch j t" for j by simp
  ultimately show ?thesis using t(2) assms(3) by (simp add: ps2_ran_def bit_or_iff)
qed

lemma dma_ps2_run_units_witness:
  "\<exists>s'. dma_ps2_run flat_bus 3 (ps2_with 3 0 4) = Some s' \<and> bit (dma_stat s') 3 \<and>
    cc (ch 0 s') = 0 \<and> cc (ch 3 s') = 0 \<and> ac (ch 3 s') = 4"
proof -
  let ?s = "ps2_with 3 0 4"
  have s: "length (dma ?s) = 8 \<and> \<not> dma_advanced ?s \<and> 0 = ps2_counter (ps2_dir_of (ps2_mode (ch 3 ?s))) 3 \<and>
      cc (ch 0 ?s) = word_of_nat 4 \<and> cc (ch 3 ?s) = 0 \<and> ac (ch 3 ?s) = 0 \<and> ps2_unit (ch 3 ?s) = 1" by code_simp
  then obtain s' where s': "dma_ps2_run flat_bus 3 ?s = Some s'" "bit (dma_stat s') 3"
    "\<forall>j < 8. ch j s' = (ch j ?s)\<lparr>
        ac := (if j = 3 then ac (ch 3 ?s) + of_nat (max 1 4) * ps2_unit (ch 3 ?s) else ac (ch j ?s)),
        cc := (if j = 0 then cc (ch j ?s) - of_nat (max 1 4) else cc (ch j ?s))\<rparr>"
    using dma_ps2_run_units [of ?s 3 0 4 flat_bus] by auto
  have "ch 0 s' = (ch 0 ?s)\<lparr>ac := ac (ch 0 ?s), cc := cc (ch 0 ?s) - of_nat (max 1 4)\<rparr>"
    "ch 3 s' = (ch 3 ?s)\<lparr>ac := ac (ch 3 ?s) + of_nat (max 1 4) * ps2_unit (ch 3 ?s), cc := cc (ch 3 ?s)\<rparr>"
    using s'(3) by simp_all
  then show ?thesis using s s'(1,2) by simp
qed

text \<open>
  A write on a word channel that counts down moves the address by two words instead of one,
  so every second word of the buffer is skipped.
\<close>

theorem dma_word_write_moves_twice:
  assumes "plain s" and "c < 8" and "may_transfer 4 c s" and "size16 (ch c s)" and "mode (ch c s) AND 0x20 \<noteq> 0"
    and "0 \<le> sint (cc (ch c s) - 1)"
  shows "ac (ch c (snd (dma_channel_write b c v s))) =
    (ac (ch c s) AND 0xfffe0000 AND dma_mask s) OR ((ac (ch c s) - 4) AND 0x1ffff)"
proof -
  have p: "\<not> dma_advanced s" "length (dma s) = 8" using assms(1) by (simp_all add: plain_def)
  let ?w = "bus_write b (dma_at s) (size16 (ch c s)) (ac (ch c s)) v (mach s)"
  let ?s2 = "mod_ch c (\<lambda>d. d\<lparr>ac := next_ac (dma_mask s) d\<rparr>) (s\<lparr>mach := ?w\<rparr>)"
  let ?s3 = "move16 (- 2) c ?s2"
  let ?s4 = "?s3\<lparr>dma_stat_rq := dma_stat_rq ?s3 OR chan_bit c,
      dma_stat_adv_pend := dma_stat_adv_pend ?s3 AND NOT (chan_bit c)\<rparr>"
  have na: "next_address c (s\<lparr>mach := ?w\<rparr>) = ?s2"
    using next_address_plain [of "s\<lparr>mach := ?w\<rparr>" c] assms(1,2) by (simp add: plain_def)
  have fields: "cc (ch c ?s4) = cc (ch c s)" "length (dma ?s4) = 8" "dma_advanced ?s4 = False"
    using p assms(2) by (simp_all add: move16_def)
  have cd: "count_down b c ?s4 = (False, mod_ch c (\<lambda>d. d\<lparr>cc := cc d - 1\<rparr>) ?s4)"
    by (rule count_down_more) (use fields assms(2,6) in simp_all)
  have ac4: "ac (ch c ?s4) = (ac (ch c s) AND 0xfffe0000 AND dma_mask s) OR ((ac (ch c s) - 4) AND 0x1ffff)"
  proof -
    let ?d = "ch c s" let ?m = "dma_mask s"
    have b: "page_bits ?d = 0xfffe0000" "offset_bits ?d = 0x1ffff" "unit_step ?d = - 2" "page_shift ?d = 17"
      using assms(4,5) by (simp_all add: page_bits_def offset_bits_def unit_step_def page_shift_def)
    have "take_bit 17 (next_ac ?m ?d) = take_bit 17 (ac ?d - 2)"
      by (rule word_eq_by_bits) (auto simp: next_ac_def bit_simps bit_page_bits bit_offset_bits b(3,4))
    then have "take_bit 17 (next_ac ?m ?d + (- 2)) = take_bit 17 (take_bit 17 (ac ?d - 2) + take_bit 17 (- 2))"
      by (simp only: take_bit_word_add [of 17 "next_ac ?m ?d" "- 2", symmetric])
    then have "take_bit 17 (next_ac ?m ?d - 2) = take_bit 17 (ac ?d - 4)"
      unfolding take_bit_word_add by simp
    then have "(next_ac ?m ?d - 2) AND 0x1ffff = (ac ?d - 4) AND 0x1ffff"
      using offset_take [of _ ?d] unfolding b by simp
    moreover have "next_ac ?m ?d AND 0xfffe0000 AND ?m = ac ?d AND 0xfffe0000 AND ?m"
      using next_ac_page [of ?m ?d] unfolding b .
    ultimately show ?thesis using p assms(2) by (simp add: move16_def)
  qed
  define s5 where "s5 = snd (count_down b c ?s4)"
  have s5: "s5 = mod_ch c (\<lambda>d. d\<lparr>cc := cc d - 1\<rparr>) ?s4" using cd by (simp only: s5_def snd_conv)
  have adv: "dma_advanced s5 = False" unfolding s5 mod_ch_fields by (rule fields(3))
  have "dma_channel_write b c v s = (let s5 = snd (count_down b c ?s4)
      in if dma_m s5 AND chan_bit c \<noteq> 0 then (DMA_OVER, sg_interrupt b c s5) else (0, s5))"
    unfolding dma_channel_write_def Let_def write_access [OF p assms(2)] na using assms(3-5) by simp
  then have "snd (dma_channel_write b c v s) = s5"
    using adv by (simp add: s5_def [symmetric] Let_def sg_interrupt_def)
  moreover have "ac (ch c s5) = ac (ch c ?s4)"
    unfolding s5 by (subst ch_mod_ch) (use fields(2) assms(2) in simp_all)
  ultimately show ?thesis using ac4 by (simp only:)
qed

lemma dma_word_write_moves_twice_witness:
  "ac (ch 5 (snd (dma_channel_write flat_bus 5 7 (pc_with 5 0x64 0x20 9)))) =
    (ac (ch 5 (pc_with 5 0x64 0x20 9)) AND 0xfffe0000 AND dma_mask (pc_with 5 0x64 0x20 9)) OR
    ((ac (ch 5 (pc_with 5 0x64 0x20 9)) - 4) AND 0x1ffff)"
  by (rule dma_word_write_moves_twice; code_simp)

text \<open>
  Writing a high page register stores the byte but puts the low page register, not the byte
  written, into bits 31 to 24 of the channel's address.
\<close>

theorem dma_high_page_takes_page:
  assumes "length (dma s) = 8" and "page_channel addr = c" and "c < 8"
  shows "let s' = dma_high_page_write addr v s in
    dma_high_page_read addr s' = v \<and>
    drop_bit 24 (ac (ch c s')) = ucast (page (ch c s)) AND drop_bit 24 (dma_mask s)"
proof -
  have "drop_bit 24 (((a AND 0xffffff) OR push_bit 24 (ucast p)) AND m) = ucast p AND drop_bit 24 m"
    for a m :: u32 and p :: u8
  proof -
    have top: "bit p n \<Longrightarrow> n < 8" for n using bit_imp_le_length [of p n] by simp
    have "(0xffffff::u32) = mask 24" by (simp add: mask_eq_exp_minus_1)
    then show ?thesis by (auto intro!: word_eq_by_bits simp: bit_simps dest: top)
  qed
  then show ?thesis
    using assms by (simp add: dma_high_page_write_def dma_high_page_read_def Let_def)
qed

lemma dma_high_page_takes_page_witness:
  "let s' = dma_high_page_write 0x482 0x55 (pc_with 3 0 0 0) in
    dma_high_page_read 0x482 s' = 0x55 \<and>
    drop_bit 24 (ac (ch 3 s')) = ucast (page (ch 3 (pc_with 3 0 0 0))) AND drop_bit 24 (dma_mask (pc_with 3 0 0 0))"
  by (rule dma_high_page_takes_page; code_simp)

text \<open>
  The scatter/gather interrupt status reports the interrupt of channel 7 and of no other
  channel.
\<close>

theorem dma_sg_int_status_last_only:
  "dma_sg_int_status_read s = (if sg_status (ch 7 s) AND 8 \<noteq> 0 then 0x80 else 0)"
proof -
  have "[0..<8] = [0, 1, 2, 3, 4, 5, 6, 7 :: nat]" by code_simp
  then show ?thesis by (simp add: dma_sg_int_status_read_def)
qed

text \<open>
  The extended mode register gives a channel the 8-bit transfer mode when the whole value
  written is at most 2 and the 16-bit mode otherwise, whatever its mode bits say.
\<close>

theorem dma_ext_mode_by_channel:
  assumes "length (dma s) = 8" and "c = unat (v AND 3) + (if addr = 0x4d6 then 4 else 0)"
  shows "transfer_mode (ch c (dma_ext_mode_write addr v s)) = (if v \<le> 2 then 0x0101 else 0x0202)"
proof -
  have "unat (v AND 3) < 4"
  proof -
    have "v AND 3 = take_bit 2 v" by (simp add: take_bit_eq_mask mask_eq_exp_minus_1)
    then show ?thesis by (simp add: unsigned_take_bit_eq take_bit_nat_less_exp [of 2, simplified])
  qed
  then have "c < 8" using assms(2) by simp
  then show ?thesis using assms by (simp add: dma_ext_mode_write_def Let_def not_le)
qed

lemma dma_ext_mode_by_channel_witness:
  "transfer_mode (ch 3 (dma_ext_mode_write 0x40b 3 (pc_with 3 0 0 0))) = (if (3::u8) \<le> 2 then 0x0101 else 0x0202)"
  by (rule dma_ext_mode_by_channel; code_simp)

end
