(* ===== verification/Fifo8.thy ===== *)
theory Fifo8
  imports Prelude
begin

text \<open>
  The byte FIFO of \<open>src/src/utils/fifo8.c\<close>: a ring buffer with a head index and a fill
  count, used by the SCSI, network and pointing device code. The record \<open>fifo8\<close> is the C
  struct; \<open>data\<close> is \<open>None\<close> for the NULL pointer that \<open>fifo8_destroy\<close> leaves. Arithmetic is
  on 32-bit words, as in the source, so \<open>head + num\<close> wraps; the well-formedness predicate
  bounds the capacity by \<open>2 ^ 31\<close>, below which it cannot. An \<open>assert\<close> that fails, a division
  by a zero capacity and an access outside the buffer are error values.

  The abstraction is the list of stored bytes, oldest first. The interface
  \<open>bounded_fifo\<close> states what a client may rely on; its lemma says that any sequence of
  operations behaves like the same sequence on a list.
\<close>

section \<open>The code\<close>

record fifo8 =
  data :: "u8 list option"
  capacity :: u32
  head :: u32
  num :: u32

datatype fifo_error = AssertFailed | DivisionByZero | OutOfBounds | NullData

definition fifo8_reset :: "fifo8 \<Rightarrow> fifo8" where
  "fifo8_reset f = f\<lparr>num := 0, head := 0\<rparr>"

definition fifo8_create :: "u32 \<Rightarrow> fifo8" where
  "fifo8_create cap =
     fifo8_reset \<lparr>data = Some (replicate (unat cap) 0), capacity = cap, head = 0, num = 0\<rparr>"

definition fifo8_destroy :: "fifo8 \<Rightarrow> fifo8" where
  "fifo8_destroy f = (case data f of Some _ \<Rightarrow> f\<lparr>data := None\<rparr> | None \<Rightarrow> f)"

definition fifo8_store :: "u32 \<Rightarrow> u8 list \<Rightarrow> fifo8 \<Rightarrow> fifo_error + fifo8" where
  "fifo8_store i ys f =
     (case data f of
        None \<Rightarrow> Inl NullData
      | Some d \<Rightarrow> (case poke (unat i) ys d of
                     None \<Rightarrow> Inl OutOfBounds
                   | Some d' \<Rightarrow> Inr (f\<lparr>data := Some d'\<rparr>)))"

definition fifo8_load :: "u32 \<Rightarrow> u32 \<Rightarrow> fifo8 \<Rightarrow> fifo_error + u8 list" where
  "fifo8_load i n f =
     (case data f of
        None \<Rightarrow> Inl NullData
      | Some d \<Rightarrow> (case peek (unat i) (unat n) d of
                     None \<Rightarrow> Inl OutOfBounds
                   | Some ys \<Rightarrow> Inr ys))"

definition fifo8_push :: "fifo8 \<Rightarrow> u8 \<Rightarrow> fifo_error + fifo8" where
  "fifo8_push f b =
     (if \<not> num f < capacity f then Inl AssertFailed
      else bindE (fifo8_store ((head f + num f) mod capacity f) [b] f)
             (\<lambda>f'. Inr (f'\<lparr>num := num f' + 1\<rparr>)))"

definition fifo8_push_all :: "fifo8 \<Rightarrow> u8 list \<Rightarrow> fifo_error + fifo8" where
  "fifo8_push_all f ys =
     (let n = of_nat (length ys) :: u32 in
      if \<not> num f + n \<le> capacity f then Inl AssertFailed
      else if capacity f = 0 then Inl DivisionByZero
      else
        let start = (head f + num f) mod capacity f in
        if start + n \<le> capacity f then
          bindE (fifo8_store start ys f) (\<lambda>f'. Inr (f'\<lparr>num := num f' + n\<rparr>))
        else
          let avail = capacity f - start in
          bindE (fifo8_store start (take (unat avail) ys) f)
            (\<lambda>f1. bindE (fifo8_store 0 (drop (unat avail) ys) f1)
              (\<lambda>f2. Inr (f2\<lparr>num := num f2 + n\<rparr>))))"

definition fifo8_pop :: "fifo8 \<Rightarrow> fifo_error + u8 \<times> fifo8" where
  "fifo8_pop f =
     (if \<not> 0 < num f then Inl AssertFailed
      else bindE (fifo8_load (head f) 1 f)
        (\<lambda>ys. if capacity f = 0 then Inl DivisionByZero
              else Inr (hd ys, f\<lparr>head := (head f + 1) mod capacity f, num := num f - 1\<rparr>)))"

definition fifo8_peekpop_buf :: "fifo8 \<Rightarrow> u32 \<Rightarrow> bool \<Rightarrow> fifo_error + u8 list \<times> fifo8" where
  "fifo8_peekpop_buf f mx do_pop =
     (if \<not> (0 < mx \<and> mx \<le> num f) then Inl AssertFailed
      else
        let n = min (capacity f - head f) mx in
        bindE (fifo8_load (head f) n f)
          (\<lambda>ys. if do_pop then
                  if capacity f = 0 then Inl DivisionByZero
                  else Inr (ys, f\<lparr>head := (head f + n) mod capacity f, num := num f - n\<rparr>)
                else Inr (ys, f)))"

definition fifo8_peek_bufptr :: "fifo8 \<Rightarrow> u32 \<Rightarrow> fifo_error + u8 list \<times> fifo8" where
  "fifo8_peek_bufptr f mx = fifo8_peekpop_buf f mx False"

definition fifo8_pop_bufptr :: "fifo8 \<Rightarrow> u32 \<Rightarrow> fifo_error + u8 list \<times> fifo8" where
  "fifo8_pop_bufptr f mx = fifo8_peekpop_buf f mx True"

text \<open>
  \<open>fifo8_pop_buf\<close> returns the bytes it copies to \<open>dest\<close>; the C result is their number
  \<open>n1 + n2\<close>. With a NULL \<open>dest\<close> (\<open>fifo8_drop\<close>) they are discarded.
\<close>

definition fifo8_pop_buf :: "fifo8 \<Rightarrow> u32 \<Rightarrow> fifo_error + u8 list \<times> fifo8" where
  "fifo8_pop_buf f destlen =
     (if destlen = 0 then Inr ([], f)
      else bindE (fifo8_pop_bufptr f destlen)
        (\<lambda>(b1, f1).
           let n1 = of_nat (length b1) :: u32; len = min (destlen - n1) (num f1) in
           if len \<noteq> 0 then bindE (fifo8_pop_bufptr f1 len) (\<lambda>(b2, f2). Inr (b1 @ b2, f2))
           else Inr (b1, f1)))"

definition fifo8_drop :: "fifo8 \<Rightarrow> u32 \<Rightarrow> fifo_error + fifo8" where
  "fifo8_drop f len =
     bindE (fifo8_pop_buf f len)
       (\<lambda>(b, f'). if len - of_nat (length b) = 0 then Inr f' else Inl AssertFailed)"

definition fifo8_is_empty :: "fifo8 \<Rightarrow> bool" where
  "fifo8_is_empty f \<longleftrightarrow> num f = 0"

definition fifo8_is_full :: "fifo8 \<Rightarrow> bool" where
  "fifo8_is_full f \<longleftrightarrow> num f = capacity f"

definition fifo8_num_free :: "fifo8 \<Rightarrow> u32" where
  "fifo8_num_free f = capacity f - num f"

definition fifo8_num_used :: "fifo8 \<Rightarrow> u32" where
  "fifo8_num_used f = num f"

section \<open>Abstraction\<close>

definition fifo8_wf :: "fifo8 \<Rightarrow> bool" where
  "fifo8_wf f \<longleftrightarrow>
     (case data f of None \<Rightarrow> False | Some d \<Rightarrow> length d = unat (capacity f)) \<and>
     unat (head f) < unat (capacity f) \<and> unat (num f) \<le> unat (capacity f) \<and>
     unat (capacity f) \<le> 2 ^ 31"

definition contents :: "fifo8 \<Rightarrow> u8 list" where
  "contents f = (case data f of None \<Rightarrow> [] | Some d \<Rightarrow> ring d (unat (head f)) (unat (num f)))"

definition room :: "fifo8 \<Rightarrow> nat" where
  "room f = unat (capacity f)"

lemma fifo8_wfE:
  assumes "fifo8_wf f"
  obtains d where "data f = Some d" "length d = unat (capacity f)"
    "unat (head f) < unat (capacity f)" "unat (num f) \<le> unat (capacity f)"
    "unat (capacity f) \<le> 2 ^ 31" "contents f = ring d (unat (head f)) (unat (num f))"
  using assms by (auto simp: fifo8_wf_def contents_def split: option.splits)

lemma length_contents: "fifo8_wf f \<Longrightarrow> length (contents f) = unat (num f)"
  by (auto elim!: fifo8_wfE)

lemma unat_add_small:
  "unat (a::u32) + unat b < 2 ^ 32 \<Longrightarrow> unat (a + b) = unat a + unat b"
  by (simp add: unat_word_ariths)

lemma unat_ring_index:
  "unat (a::u32) + unat b < 2 ^ 32 \<Longrightarrow> unat ((a + b) mod c) = (unat a + unat b) mod unat c"
  by (simp add: unat_mod unat_add_small)

lemma create_wf: "0 < cap \<Longrightarrow> unat cap \<le> 2 ^ 31 \<Longrightarrow> fifo8_wf (fifo8_create cap)"
  by (simp add: fifo8_create_def fifo8_reset_def fifo8_wf_def word_less_nat_alt)

lemma create_contents: "contents (fifo8_create cap) = []"
  by (simp add: fifo8_create_def fifo8_reset_def contents_def)

lemma create_room: "room (fifo8_create cap) = unat cap"
  by (simp add: fifo8_create_def fifo8_reset_def room_def)

lemma reset_wf: "fifo8_wf f \<Longrightarrow> fifo8_wf (fifo8_reset f) \<and> contents (fifo8_reset f) = []"
  by (auto simp: fifo8_reset_def fifo8_wf_def contents_def split: option.splits)

section \<open>Each operation on the abstraction\<close>

lemma push_ok:
  assumes "fifo8_wf f" "length (contents f) < room f"
  shows "\<exists>f'. fifo8_push f b = Inr f' \<and> fifo8_wf f' \<and> contents f' = contents f @ [b] \<and> room f' = room f"
  using assms(1)
proof (cases rule: fifo8_wfE)
  case (1 d)
  have lt: "unat (num f) < unat (capacity f)"
    using assms by (simp add: length_contents room_def)
  let ?i = "(unat (head f) + unat (num f)) mod length d"
  have ix: "unat ((head f + num f) mod capacity f) = ?i"
    using 1 lt by (simp add: unat_ring_index)
  have "?i < length d" using 1 by (intro mod_less_divisor) linarith
  then have pk: "poke ?i [b] d = Some (d[?i := b])"
    by (simp add: poke_Cons)
  have n1: "unat (num f + 1) = Suc (unat (num f))"
    using lt 1 by (subst unat_add_small) auto
  have "fifo8_push f b = Inr (f\<lparr>data := Some (d[?i := b]), num := num f + 1\<rparr>)"
    using lt 1 pk by (simp add: fifo8_push_def fifo8_store_def ix word_less_nat_alt)
  then show ?thesis
    using 1 lt ring_push [of "unat (num f)" d "unat (head f)" b]
    by (simp add: fifo8_wf_def contents_def room_def n1)
qed

lemma push_full:
  assumes "fifo8_wf f" "room f \<le> length (contents f)"
  shows "fifo8_push f b = Inl AssertFailed"
  using assms by (simp add: fifo8_push_def length_contents room_def word_less_nat_alt)

lemma push_all_ok:
  assumes "fifo8_wf f" "length (contents f) + length ys \<le> room f"
  shows "\<exists>f'. fifo8_push_all f ys = Inr f' \<and> fifo8_wf f' \<and> contents f' = contents f @ ys \<and> room f' = room f"
  using assms(1)
proof (cases rule: fifo8_wfE)
  case (1 d)
  define n where "n = (of_nat (length ys) :: u32)"
  define start where "start = (head f + num f) mod capacity f"
  let ?h = "unat (head f)" and ?m = "unat (num f)" and ?c = "unat (capacity f)"
  have le: "?m + length ys \<le> ?c"
    using assms by (simp add: length_contents room_def)
  have n: "unat n = length ys"
    using le 1 by (simp add: n_def unat_of_nat)
  have mn: "unat (num f + n) = ?m + length ys"
    using le 1 n by (subst unat_add_small) auto
  have st: "unat start = (?h + ?m) mod length d"
    using 1 by (simp add: start_def unat_ring_index)
  have st_lt: "unat start < ?c" using 1 st by (simp only: st) (intro mod_less_divisor, linarith)
  have sn: "unat (start + n) = unat start + length ys"
    using st_lt le 1 n by (subst unat_add_small) auto
  have c0: "capacity f \<noteq> 0" using 1 by auto
  have assert: "num f + n \<le> capacity f" using mn le by (simp add: word_le_nat_alt)
  show ?thesis
  proof (cases "start + n \<le> capacity f")
    case True
    then have "unat start + length ys \<le> length d" using sn 1 by (simp add: word_le_nat_alt)
    then obtain d' where pk: "poke (unat start) ys d = Some d'" by (simp add: poke_def)
    have "fifo8_push_all f ys = Inr (f\<lparr>data := Some d', num := num f + n\<rparr>)"
      using True assert c0 pk 1(1)
      by (simp add: fifo8_push_all_def fifo8_store_def Let_def flip: n_def start_def)
    then show ?thesis
      using 1 ring_poke [of ?h ?m d ys d'] pk le length_poke [OF pk]
      by (simp add: fifo8_wf_def contents_def room_def mn st)
  next
    case False
    define a where "a = unat (capacity f - start)"
    have a: "a = ?c - unat start"
      using st_lt by (simp add: a_def unat_sub word_le_nat_alt)
    have big: "?c < unat start + length ys" using False sn by (simp add: word_le_nat_alt)
    have "unat start + length (take a ys) \<le> length d" using a st_lt 1 by simp
    then obtain d1 where p1: "poke (unat start) (take a ys) d = Some d1"
      by (simp add: poke_def)
    have "length (drop a ys) \<le> length d1" using le length_poke [OF p1] 1 by simp
    then obtain d2 where p2: "poke 0 (drop a ys) d1 = Some d2"
      by (simp add: poke_def)
    have la: "length (take a ys) = a" using a big st_lt by simp
    have r1: "ring d1 ?h (?m + a) = ring d ?h ?m @ take a ys"
      using ring_poke [of ?h ?m d "take a ys" d1] p1 le la 1 by (simp add: st)
    have z: "(?h + (?m + a)) mod length d1 = 0"
    proof -
      have "(?h + (?m + a)) mod length d = ((?h + ?m) mod length d + a) mod length d"
        by (simp add: mod_add_left_eq add.assoc)
      then show ?thesis using a st st_lt 1 length_poke [OF p1] by simp
    qed
    have "length ys = a + length (drop a ys)" using la by simp
    then have r2: "ring d2 ?h (?m + length ys) = ring d ?h ?m @ ys"
      using ring_poke [of ?h "?m + a" d1 "drop a ys" d2] p2 le r1 z length_poke [OF p1] 1
      by (simp add: add.assoc)
    have "fifo8_push_all f ys = Inr (f\<lparr>data := Some d2, num := num f + n\<rparr>)"
      using False assert c0 p1 p2 1(1)
      by (simp add: fifo8_push_all_def fifo8_store_def Let_def flip: n_def start_def a_def)
    then show ?thesis
      using 1 le r2 length_poke [OF p1] length_poke [OF p2]
      by (simp add: fifo8_wf_def contents_def room_def mn)
  qed
qed

lemma push_all_full:
  assumes "fifo8_wf f" "room f < length (contents f) + length ys" "length ys < 2 ^ 31"
  shows "fifo8_push_all f ys = Inl AssertFailed"
  using assms(1)
proof (cases rule: fifo8_wfE)
  case (1 d)
  have n: "unat (of_nat (length ys) :: u32) = length ys"
    using assms(3) by (simp add: unat_of_nat)
  have "unat (num f + of_nat (length ys)) = unat (num f) + length ys"
    using assms(3) 1 n by (subst unat_add_small) auto
  then show ?thesis
    using assms by (simp add: fifo8_push_all_def Let_def length_contents room_def word_le_nat_alt)
qed

lemma pop_ok:
  assumes "fifo8_wf f" "contents f = x # xs"
  shows "\<exists>f'. fifo8_pop f = Inr (x, f') \<and> fifo8_wf f' \<and> contents f' = xs \<and> room f' = room f"
  using assms(1)
proof (cases rule: fifo8_wfE)
  case (1 d)
  let ?h = "unat (head f)" and ?m = "unat (num f)"
  have m: "0 < ?m" using assms length_contents [OF assms(1)] by (cases ?m) auto
  have hd: "d ! ?h = x" and tl: "ring d (Suc ?h mod length d) (?m - 1) = xs"
    using ring_pop [of ?m ?h d] m 1 assms(2) by auto
  have ld: "peek ?h 1 d = Some [d ! ?h]"
    using 1 by (simp add: peek_def take_Suc_conv_app_nth hd_drop_conv_nth take_Suc)
  have h1: "unat ((head f + 1) mod capacity f) = Suc ?h mod length d"
    using 1 by (subst unat_ring_index) auto
  have m1: "unat (num f - 1) = ?m - 1"
    using m by (subst unat_sub) (auto simp: word_le_nat_alt)
  have c0: "capacity f \<noteq> 0" using 1 by auto
  have "fifo8_pop f = Inr (x, f\<lparr>head := (head f + 1) mod capacity f, num := num f - 1\<rparr>)"
    using m 1(1) ld c0 hd by (simp add: fifo8_pop_def fifo8_load_def word_less_nat_alt)
  moreover have "Suc ?h mod length d < length d" using 1 by (intro mod_less_divisor) linarith
  ultimately show ?thesis
    using 1 tl by (simp add: fifo8_wf_def contents_def room_def h1 m1)
qed

lemma pop_empty: "fifo8_wf f \<Longrightarrow> contents f = [] \<Longrightarrow> fifo8_pop f = Inl AssertFailed"
  using length_contents [of f] by (simp add: fifo8_pop_def word_less_nat_alt unat_eq_0)

lemma pop_bufptr_ok:
  assumes "fifo8_wf f" "0 < mx" "unat mx \<le> length (contents f)"
  defines "n \<equiv> min (unat (capacity f) - unat (head f)) (unat mx)"
  shows "\<exists>f'. fifo8_pop_bufptr f mx = Inr (take n (contents f), f') \<and> fifo8_wf f' \<and>
    contents f' = drop n (contents f) \<and> room f' = room f"
  using assms(1)
proof (cases rule: fifo8_wfE)
  case (1 d)
  let ?h = "unat (head f)" and ?m = "unat (num f)" and ?c = "unat (capacity f)"
  have mx: "unat mx \<le> ?m" using assms by (simp add: length_contents)
  have ch: "unat (capacity f - head f) = ?c - ?h"
    using 1 by (simp add: unat_sub word_le_nat_alt)
  have n: "unat (min (capacity f - head f) mx) = n"
    by (simp add: n_def min_def word_le_nat_alt ch)
  have nc: "?h + n \<le> ?c" and nm: "n \<le> ?m" using 1 mx by (auto simp: n_def)
  have hn: "unat ((head f + min (capacity f - head f) mx) mod capacity f) = (?h + n) mod length d"
    using 1 nc by (subst unat_ring_index) (simp_all add: n)
  have mn: "unat (num f - min (capacity f - head f) mx) = ?m - n"
    using nm n by (subst unat_sub) (auto simp: word_le_nat_alt)
  have c0: "capacity f \<noteq> 0" using 1 by auto
  let ?f = "f\<lparr>head := (head f + min (capacity f - head f) mx) mod capacity f,
    num := num f - min (capacity f - head f) mx\<rparr>"
  have "take n (drop ?h d) = take n (contents f)"
    using ring_take [of n ?m ?h d] nc nm 1 by simp
  then have "fifo8_pop_bufptr f mx = Inr (take n (contents f), ?f)"
    using assms mx c0 1(1,2) nc
    by (simp add: fifo8_pop_bufptr_def fifo8_peekpop_buf_def fifo8_load_def Let_def n peek_def
        word_le_nat_alt)
  moreover have "(?h + n) mod length d < length d" using 1 by (intro mod_less_divisor) linarith
  ultimately show ?thesis
    using 1 ring_drop [OF nm, of d ?h] by (simp add: fifo8_wf_def contents_def room_def hn mn)
qed

lemma pop_buf_ok:
  assumes "fifo8_wf f" "unat len \<le> length (contents f)"
  shows "\<exists>f'. fifo8_pop_buf f len = Inr (take (unat len) (contents f), f') \<and> fifo8_wf f' \<and>
    contents f' = drop (unat len) (contents f) \<and> room f' = room f"
proof (cases "len = 0")
  case True
  then show ?thesis using assms by (simp add: fifo8_pop_buf_def)
next
  case False
  define k where "k = min (unat (capacity f) - unat (head f)) (unat len)"
  obtain f1 where f1: "fifo8_pop_bufptr f len = Inr (take k (contents f), f1)" "fifo8_wf f1"
    "contents f1 = drop k (contents f)" "room f1 = room f"
    using pop_bufptr_ok [OF assms(1), of len] assms False by (auto simp: k_def word_neq_0_conv)
  define n1 where "n1 = (of_nat (length (take k (contents f))) :: u32)"
  have kl: "k \<le> unat len" by (simp add: k_def)
  have n1: "unat n1 = k"
    using assms kl unsigned_less [of len, where ?'a = nat] by (simp add: n1_def unat_of_nat min_absorb2)
  then have sub: "unat (len - n1) = unat len - k"
    using kl by (subst unat_sub) (auto simp: word_le_nat_alt)
  have num1: "unat (num f1) = length (contents f) - k"
    using f1 length_contents by force
  then have "len - n1 \<le> num f1"
    unfolding word_le_nat_alt sub using assms(2) by linarith
  then have mn: "min (len - n1) (num f1) = len - n1" by (rule min_absorb1)
  show ?thesis
  proof (cases "len - n1 = 0")
    case True
    have "fifo8_pop_buf f len = Inr (take k (contents f), f1)"
      using f1(1) False mn True
      by (simp only: fifo8_pop_buf_def Let_def bindE_simps prod.case if_False n1_def [symmetric])
        simp
    moreover have "k = unat len" using True sub kl by simp
    ultimately show ?thesis using f1 by simp
  next
    case rest: False
    have le1: "unat (len - n1) \<le> length (contents f1)" using sub f1 assms by simp
    have hd1: "unat (head f1) = 0"
      \<comment> \<open>the first piece ended at the end of the buffer\<close>
    proof -
      have "unat (len - n1) \<noteq> 0" using rest by (simp add: unat_eq_0)
      then have "k < unat len" using sub by simp
      then have k: "k = unat (capacity f) - unat (head f)" by (simp add: k_def)
      from assms(1) show ?thesis
      proof (cases rule: fifo8_wfE)
        case (1 d)
        have mm: "unat (min (capacity f - head f) len) = k"
          using 1 by (simp add: k_def min_def word_le_nat_alt unat_sub)
        have "head f1 = (head f + min (capacity f - head f) len) mod capacity f"
          using f1(1) by (auto simp: fifo8_pop_bufptr_def fifo8_peekpop_buf_def Let_def bindE_Inr_iff
              split: if_splits)
        then have "unat (head f1) = (unat (head f) + k) mod unat (capacity f)"
          using 1 k by (simp only:) (subst unat_ring_index, simp_all add: mm)
        then show ?thesis using 1 k by simp
      qed
    qed
    have "min (unat (capacity f1) - unat (head f1)) (unat (len - n1)) = unat len - k"
      using hd1 sub f1(4) assms length_contents [OF assms(1)]
      by (auto simp: room_def fifo8_wf_def split: option.splits)
    then obtain f2 where f2: "fifo8_pop_bufptr f1 (len - n1) =
        Inr (take (unat len - k) (contents f1), f2)" "fifo8_wf f2"
      "contents f2 = drop (unat len - k) (contents f1)" "room f2 = room f1"
      using pop_bufptr_ok [OF f1(2) rest [unfolded word_neq_0_conv] le1] by auto
    have "fifo8_pop_buf f len = Inr (take k (contents f) @ take (unat len - k) (contents f1), f2)"
      using f1(1) f2(1) False mn rest
      by (simp add: fifo8_pop_buf_def Let_def del: length_take flip: n1_def)
    then show ?thesis
      using f1 f2 kl take_add [of k "unat len - k" "contents f"] by simp
  qed
qed

lemma pop_buf_short:
  assumes "fifo8_wf f" "length (contents f) < unat len"
  shows "fifo8_pop_buf f len = Inl AssertFailed"
proof -
  have "len \<noteq> 0" "\<not> len \<le> num f"
    using assms by (auto simp: length_contents word_le_nat_alt)
  then show ?thesis
    by (simp add: fifo8_pop_buf_def fifo8_pop_bufptr_def fifo8_peekpop_buf_def)
qed

lemma drop_ok:
  assumes "fifo8_wf f" "unat len \<le> length (contents f)"
  shows "\<exists>f'. fifo8_drop f len = Inr f' \<and> fifo8_wf f' \<and>
    contents f' = drop (unat len) (contents f) \<and> room f' = room f"
  using pop_buf_ok [OF assms] assms(2) by (auto simp: fifo8_drop_def min_absorb2)

lemma peek_bufptr_ok:
  assumes "fifo8_wf f" "0 < mx" "unat mx \<le> length (contents f)"
  shows "fifo8_peek_bufptr f mx =
    Inr (take (min (unat (capacity f) - unat (head f)) (unat mx)) (contents f), f)"
  using pop_bufptr_ok [OF assms]
  by (auto simp: fifo8_peek_bufptr_def fifo8_pop_bufptr_def fifo8_peekpop_buf_def Let_def
      bindE_Inr_iff split: if_splits)

lemma used_free:
  assumes "fifo8_wf f"
  shows "unat (fifo8_num_used f) = length (contents f)"
    and "unat (fifo8_num_free f) = room f - length (contents f)"
    and "fifo8_is_empty f \<longleftrightarrow> contents f = []"
    and "fifo8_is_full f \<longleftrightarrow> length (contents f) = room f"
  using assms length_contents [OF assms]
  by (auto simp: fifo8_num_used_def fifo8_num_free_def fifo8_is_empty_def fifo8_is_full_def
      fifo8_wf_def room_def unat_sub word_le_nat_alt unat_eq_0
      simp flip: word_unat_eq_iff length_0_conv)

section \<open>The interface to clients\<close>

datatype fifo_op = Push u8 | PushAll "u8 list" | Pop | PopBuf u32

text \<open>The contract: the same operation on the list of stored bytes; \<open>None\<close> where it may not
  be called.\<close>

fun list_step :: "nat \<Rightarrow> fifo_op \<Rightarrow> u8 list \<Rightarrow> (u8 list \<times> u8 list) option" where
  "list_step c (Push x) xs = (if length xs < c then Some ([], xs @ [x]) else None)"
| "list_step c (PushAll ys) xs =
     (if length xs + length ys \<le> c then Some ([], xs @ ys) else None)"
| "list_step c Pop xs = (case xs of [] \<Rightarrow> None | x # xs' \<Rightarrow> Some ([x], xs'))"
| "list_step c (PopBuf n) xs =
     (if unat n \<le> length xs then Some (take (unat n) xs, drop (unat n) xs) else None)"

fun list_exec :: "nat \<Rightarrow> fifo_op list \<Rightarrow> u8 list \<Rightarrow> (u8 list \<times> u8 list) option" where
  "list_exec c [] xs = Some ([], xs)"
| "list_exec c (p # ps) xs =
     (case list_step c p xs of
        None \<Rightarrow> None
      | Some (out, xs') \<Rightarrow> map_option (\<lambda>(out', ys). (out @ out', ys)) (list_exec c ps xs'))"

text \<open>A sequence of calls of an implementation, with all the bytes it delivers.\<close>

fun fifo_step ::
  "('q \<Rightarrow> u8 \<Rightarrow> 'e + 'q) \<Rightarrow> ('q \<Rightarrow> u8 list \<Rightarrow> 'e + 'q) \<Rightarrow> ('q \<Rightarrow> 'e + u8 \<times> 'q) \<Rightarrow>
   ('q \<Rightarrow> u32 \<Rightarrow> 'e + u8 list \<times> 'q) \<Rightarrow> fifo_op \<Rightarrow> 'q \<Rightarrow> 'e + u8 list \<times> 'q" where
  "fifo_step psh psha pp ppb (Push x) q = bindE (psh q x) (\<lambda>q'. Inr ([], q'))"
| "fifo_step psh psha pp ppb (PushAll ys) q = bindE (psha q ys) (\<lambda>q'. Inr ([], q'))"
| "fifo_step psh psha pp ppb Pop q = bindE (pp q) (\<lambda>(x, q'). Inr ([x], q'))"
| "fifo_step psh psha pp ppb (PopBuf n) q = ppb q n"

fun fifo_exec ::
  "(fifo_op \<Rightarrow> 'q \<Rightarrow> 'e + u8 list \<times> 'q) \<Rightarrow> fifo_op list \<Rightarrow> 'q \<Rightarrow> 'e + u8 list \<times> 'q" where
  "fifo_exec st [] q = Inr ([], q)"
| "fifo_exec st (p # ps) q =
     bindE (st p q) (\<lambda>(out, q'). bindE (fifo_exec st ps q') (\<lambda>(out', q''). Inr (out @ out', q'')))"

text \<open>Block lengths a caller can pass without the 32-bit sum of the assertion wrapping.\<close>

fun op_sized :: "fifo_op \<Rightarrow> bool" where
  "op_sized (PushAll ys) \<longleftrightarrow> length ys < 2 ^ 31"
| "op_sized _ \<longleftrightarrow> True"

locale bounded_fifo =
  fixes psh :: "'q \<Rightarrow> u8 \<Rightarrow> 'e + 'q"
    and psha :: "'q \<Rightarrow> u8 list \<Rightarrow> 'e + 'q"
    and pp :: "'q \<Rightarrow> 'e + u8 \<times> 'q"
    and ppb :: "'q \<Rightarrow> u32 \<Rightarrow> 'e + u8 list \<times> 'q"
    and bytes :: "'q \<Rightarrow> u8 list"
    and cap :: "'q \<Rightarrow> nat"
    and invar :: "'q \<Rightarrow> bool"
    and fail :: 'e
  assumes psh: "invar q \<Longrightarrow> length (bytes q) < cap q \<Longrightarrow>
      \<exists>q'. psh q x = Inr q' \<and> invar q' \<and> bytes q' = bytes q @ [x] \<and> cap q' = cap q"
    and psh_full: "invar q \<Longrightarrow> cap q \<le> length (bytes q) \<Longrightarrow> psh q x = Inl fail"
    and psha: "invar q \<Longrightarrow> length (bytes q) + length ys \<le> cap q \<Longrightarrow>
      \<exists>q'. psha q ys = Inr q' \<and> invar q' \<and> bytes q' = bytes q @ ys \<and> cap q' = cap q"
    and psha_full: "invar q \<Longrightarrow> cap q < length (bytes q) + length ys \<Longrightarrow> length ys < 2 ^ 31 \<Longrightarrow>
      psha q ys = Inl fail"
    and pp: "invar q \<Longrightarrow> bytes q = x # xs \<Longrightarrow>
      \<exists>q'. pp q = Inr (x, q') \<and> invar q' \<and> bytes q' = xs \<and> cap q' = cap q"
    and pp_empty: "invar q \<Longrightarrow> bytes q = [] \<Longrightarrow> pp q = Inl fail"
    and ppb: "invar q \<Longrightarrow> unat n \<le> length (bytes q) \<Longrightarrow>
      \<exists>q'. ppb q n = Inr (take (unat n) (bytes q), q') \<and> invar q' \<and>
        bytes q' = drop (unat n) (bytes q) \<and> cap q' = cap q"
    and ppb_short: "invar q \<Longrightarrow> length (bytes q) < unat n \<Longrightarrow> ppb q n = Inl fail"
begin

lemma step_ok:
  assumes "invar q" "list_step (cap q) p (bytes q) = Some (out, xs)"
  shows "\<exists>q'. fifo_step psh psha pp ppb p q = Inr (out, q') \<and> invar q' \<and> bytes q' = xs \<and>
    cap q' = cap q"
proof (cases p)
  case (Push x)
  then show ?thesis using assms psh [OF assms(1), of x] by (auto split: if_splits)
next
  case (PushAll ys)
  then show ?thesis using assms psha [OF assms(1), of ys] by (auto split: if_splits)
next
  case Pop
  then show ?thesis using assms pp [OF assms(1)] by (auto split: list.splits)
next
  case (PopBuf n)
  then show ?thesis using assms ppb [OF assms(1), of n] by (auto split: if_splits)
qed

lemma step_fail:
  assumes "invar q" "op_sized p" "list_step (cap q) p (bytes q) = None"
  shows "fifo_step psh psha pp ppb p q = Inl fail"
proof (cases p)
  case (Push x)
  then show ?thesis using assms psh_full [OF assms(1), of x] by (auto split: if_splits)
next
  case (PushAll ys)
  then show ?thesis using assms psha_full [OF assms(1), of ys] by (auto split: if_splits)
next
  case Pop
  then show ?thesis using assms pp_empty [OF assms(1)] by (auto split: list.splits)
next
  case (PopBuf n)
  then show ?thesis using assms ppb_short [OF assms(1), of n] by (auto split: if_splits)
qed

lemma exec_refines:
  assumes "invar q" "list_all op_sized ps"
  shows "case list_exec (cap q) ps (bytes q) of
      None \<Rightarrow> fifo_exec (fifo_step psh psha pp ppb) ps q = Inl fail
    | Some (out, xs) \<Rightarrow> \<exists>q'. fifo_exec (fifo_step psh psha pp ppb) ps q = Inr (out, q') \<and>
        bytes q' = xs \<and> invar q'"
  using assms
proof (induction ps arbitrary: q)
  case Nil
  then show ?case by simp
next
  case (Cons p ps)
  show ?case
  proof (cases "list_step (cap q) p (bytes q)")
    case None
    then show ?thesis using step_fail [of q p] Cons.prems by auto
  next
    case (Some r)
    obtain out xs where r: "r = (out, xs)" by (cases r)
    then obtain q' where q': "fifo_step psh psha pp ppb p q = Inr (out, q')" "invar q'"
      "bytes q' = xs" "cap q' = cap q"
      using step_ok [OF Cons.prems(1)] Some by blast
    show ?thesis
      using Cons.IH [OF q'(2)] Cons.prems(2) q' Some r by (auto split: option.splits)
  qed
qed

end

interpretation f8: bounded_fifo fifo8_push fifo8_push_all fifo8_pop fifo8_pop_buf contents room fifo8_wf AssertFailed
  using push_ok push_full push_all_ok push_all_full pop_ok pop_empty pop_buf_ok pop_buf_short
  by unfold_locales blast+

section \<open>Properties\<close>

text \<open>
  Claim C3: A FIFO created with a capacity of 1 to \<open>2^31\<close> bytes refines a bounded queue of bytes: any
  sequence of pushes, block pushes (each of less than \<open>2^31\<close> bytes), pops and block pops delivers the bytes, and
  leaves the contents, that the same sequence gives on a list; and where the queue would overflow or
  underflow it stops at an assertion, never at a division by zero, outside the array or at missing storage.
\<close>

theorem fifo8_refines_queue:
  assumes "0 < n" and "unat n \<le> 2 ^ 31" and "list_all op_sized ps"
  shows "case list_exec (unat n) ps [] of
      None \<Rightarrow> fifo_exec (fifo_step fifo8_push fifo8_push_all fifo8_pop fifo8_pop_buf) ps (fifo8_create n) = Inl AssertFailed
    | Some (out, xs) \<Rightarrow> \<exists>f. fifo_exec (fifo_step fifo8_push fifo8_push_all fifo8_pop fifo8_pop_buf) ps
        (fifo8_create n) = Inr (out, f) \<and> contents f = xs \<and> fifo8_wf f"
  using f8.exec_refines [OF create_wf [OF assms(1,2)] assms(3)] by (simp add: create_contents create_room)

lemma fifo8_refines_queue_witness:
  "fifo_exec (fifo_step fifo8_push fifo8_push_all fifo8_pop fifo8_pop_buf) [Push 7, PushAll [8], PopBuf 2, Pop] (fifo8_create 2)
     = Inl AssertFailed \<and>
   (\<exists>f. fifo_exec (fifo_step fifo8_push fifo8_push_all fifo8_pop fifo8_pop_buf) [Push 7, PushAll [8], Pop] (fifo8_create 2)
     = Inr ([7], f) \<and> contents f = [8])"
  using fifo8_refines_queue [of 2 "[Push 7, PushAll [8], PopBuf 2, Pop]"] fifo8_refines_queue [of 2 "[Push 7, PushAll [8], Pop]"]
  by auto

end
