(* ===== verification/Mem.thy ===== *)
theory Mem
  imports Prelude
begin

text \<open>
  Physical memory: \<open>src/src/mem/mem.c\<close> with the types and constants of
  \<open>src/src/include/86box/mem.h\<close>. Mappings live in a store indexed by address and are chained through
  \<open>prev\<close> and \<open>next\<close>; a walk over that list is a partial function, whose value is \<open>None\<close> when the
  list is cyclic. The lookup tables hold one entry per 4K granule: what the source keeps in the
  parallel arrays \<open>_mem_exec\<close>, \<open>write_mapping\<close>, \<open>read_mapping\<close>, \<open>write_mapping_bus\<close> and
  \<open>read_mapping_bus\<close> is one record \<open>granule\<close> here, and an index beyond them is the error \<open>OutOfTable\<close>.

  Host memory is a function from 64-bit addresses, so that the pointer arithmetic of the software
  lookups wraps as on the host. The handlers a mapping names are those of this file (\<open>RamFn\<close>,
  \<open>RemappedFn\<close>, \<open>Remapped2Fn\<close>) or a device's (\<open>DevFn\<close>); the latter are a parameter, a record
  \<open>devices\<close> of functions on the whole state, whose extension \<open>more\<close> is the state of the devices.
  The build is the default one: a 64-bit host, the old recompiler (\<open>USE_DYNAREC\<close> without
  \<open>USE_NEW_DYNAREC\<close>, whose \<open>codegen_flush\<close> is empty), no debug registers, no GDB stub, no log.
  A store through a NULL \<open>page->mem\<close> sets \<open>host_fault\<close>; an index beyond \<open>pages\<close> is not told apart.
\<close>

section \<open>State\<close>

datatype mem_fn = NoFn | RamFn | RemappedFn | Remapped2Fn | DevFn nat

record mem_mapping =
  m_prev :: ptr
  m_next :: ptr
  m_enable :: bool
  m_base :: u32
  m_size :: u32
  m_base_ignore :: u32
  m_mask :: u32
  m_read_b :: mem_fn
  m_read_w :: mem_fn
  m_read_l :: mem_fn
  m_write_b :: mem_fn
  m_write_w :: mem_fn
  m_write_l :: mem_fn
  m_exec :: u64
  m_flags :: u32
  m_priv :: ptr

record page_t =
  pg_write :: bool
  pg_mem :: u64
  pg_dirty_mask :: "u64 list"
  pg_block :: "ptr list"

record granule =
  g_exec :: u64
  g_write :: ptr
  g_read :: ptr
  g_write_bus :: ptr
  g_read_bus :: ptr

text \<open>The software lookups from virtual pages to host addresses; \<open>None\<close> in a slot is \<open>0xffffffff\<close>.\<close>

record tlb =
  readlookup :: "u32 \<Rightarrow> u32 option"
  readlookup2 :: "u32 \<Rightarrow> u64"
  readlookupp :: "u32 \<Rightarrow> u8"
  readlnext :: u32
  writelookup :: "u32 \<Rightarrow> u32 option"
  writelookup2 :: "u32 \<Rightarrow> u64"
  writelookupp :: "u32 \<Rightarrow> u8"
  writelnext :: u32
  page_lookup :: "u32 \<Rightarrow> nat option"
  page_lookupp :: "u32 \<Rightarrow> u8"
  pccache :: u32
  pccache2 :: u64
  mmuflush :: i32
  high_page :: bool
  uncached :: bool

text \<open>What the file reads of the processor and the recompiler.\<close>

record cpu_view =
  cpu_use_exec :: bool
  in_smm :: bool
  cx_smac :: bool
  is286 :: bool
  is6117 :: bool
  cpu_16bitbus :: bool
  es_di :: u32
  es_edi :: u32
  cachesize :: u32
  recomp_page :: u32
  codegen_in_recompile :: bool

record mem =
  host :: "u64 \<Rightarrow> u8"
  host_fault :: bool
  ram :: u64
  page_ff :: u64
  mem_kb :: u32
  rammask :: u32
  maps :: "ptr \<Rightarrow> mem_mapping"
  base_mapping :: ptr
  last_mapping :: ptr
  gran :: "nat \<Rightarrow> granule"
  mem_wp :: "nat \<Rightarrow> u8"
  mem_wp_bus :: "nat \<Rightarrow> u8"
  mem_state :: "nat \<Rightarrow> u16 list"
  pages :: "nat \<Rightarrow> page_t"
  pages_sz :: nat
  tlb :: tlb
  cpu :: cpu_view
  mem_logical_addr :: u32
  mmu_perm :: i32
  cycles :: i32
  mem_a20_key :: u32
  mem_a20_alt :: u32
  mem_a20_state :: u32
  remap_start_addr :: u32
  remap_start_addr2 :: u32

datatype mem_error = OutOfTable | OutOfStates | NoMemory | FatalNullBase | FatalNullLast | FatalBasePrev | FatalLastNext

abbreviation LOOKUP_INV :: u64 where "LOOKUP_INV \<equiv> - 1"

abbreviation mod_tlb :: "(tlb \<Rightarrow> tlb) \<Rightarrow> 'w mem_scheme \<Rightarrow> 'w mem_scheme" where
  "mod_tlb f s \<equiv> s\<lparr>tlb := f (tlb s)\<rparr>"

abbreviation mod_map :: "ptr \<Rightarrow> (mem_mapping \<Rightarrow> mem_mapping) \<Rightarrow> 'w mem_scheme \<Rightarrow> 'w mem_scheme" where
  "mod_map m f s \<equiv> s\<lparr>maps := (maps s)(m := f (maps s m))\<rparr>"

section \<open>Host memory\<close>

definition host_readw :: "u64 \<Rightarrow> 'w mem_scheme \<Rightarrow> u16" where
  "host_readw p s = ucast (host s p) OR push_bit 8 (ucast (host s (p + 1)))"

definition host_readl :: "u64 \<Rightarrow> 'w mem_scheme \<Rightarrow> u32" where
  "host_readl p s = ucast (host_readw p s) OR push_bit 16 (ucast (host_readw (p + 2) s))"

definition host_writeb :: "u64 \<Rightarrow> u8 \<Rightarrow> 'w mem_scheme \<Rightarrow> 'w mem_scheme" where
  "host_writeb p v s = s\<lparr>host := (host s)(p := v)\<rparr>"

definition host_writew :: "u64 \<Rightarrow> u16 \<Rightarrow> 'w mem_scheme \<Rightarrow> 'w mem_scheme" where
  "host_writew p v s = host_writeb (p + 1) (ucast (drop_bit 8 v)) (host_writeb p (ucast v) s)"

definition host_writel :: "u64 \<Rightarrow> u32 \<Rightarrow> 'w mem_scheme \<Rightarrow> 'w mem_scheme" where
  "host_writel p v s = host_writew (p + 2) (ucast (drop_bit 16 v)) (host_writew p (ucast v) s)"

definition ram_at :: "u32 \<Rightarrow> 'w mem_scheme \<Rightarrow> u64" where
  "ram_at a s = ram s + ucast a"

section \<open>The software lookups\<close>

abbreviation lookup_slots :: "u32 list" where
  "lookup_slots \<equiv> map word_of_nat [0..<256]"

definition resetreadlookup :: "'w mem_scheme \<Rightarrow> 'w mem_scheme" where
  "resetreadlookup = mod_tlb (\<lambda>t. t\<lparr>page_lookup := (\<lambda>_. None),
     readlookup := (\<lambda>c. if c < 256 then None else readlookup t c),
     writelookup := (\<lambda>c. if c < 256 then None else writelookup t c),
     readlookup2 := (\<lambda>_. LOOKUP_INV), readlookupp := (\<lambda>_. 4),
     writelookup2 := (\<lambda>_. LOOKUP_INV), writelookupp := (\<lambda>_. 4),
     readlnext := 0, writelnext := 0, pccache := 0xffffffff, high_page := False\<rparr>)"

definition flush_read_slot :: "u32 \<Rightarrow> tlb \<Rightarrow> tlb" where
  "flush_read_slot c t = (case readlookup t c of
     None \<Rightarrow> t
   | Some v \<Rightarrow> t\<lparr>readlookup2 := (readlookup2 t)(v := LOOKUP_INV),
                 readlookupp := (readlookupp t)(v := 4),
                 readlookup := (readlookup t)(c := None)\<rparr>)"

definition flush_write_slot :: "u32 \<Rightarrow> tlb \<Rightarrow> tlb" where
  "flush_write_slot c t = (case writelookup t c of
     None \<Rightarrow> t
   | Some v \<Rightarrow> t\<lparr>page_lookup := (page_lookup t)(v := None),
                 page_lookupp := (page_lookupp t)(v := 4),
                 writelookup2 := (writelookup2 t)(v := LOOKUP_INV),
                 writelookupp := (writelookupp t)(v := 4),
                 writelookup := (writelookup t)(c := None)\<rparr>)"

definition flushmmucache_nopc :: "'w mem_scheme \<Rightarrow> 'w mem_scheme" where
  "flushmmucache_nopc = mod_tlb (fold (\<lambda>c t. flush_write_slot c (flush_read_slot c t)) lookup_slots)"

definition flushmmucache_pc :: "'w mem_scheme \<Rightarrow> 'w mem_scheme" where
  "flushmmucache_pc = mod_tlb (\<lambda>t. t\<lparr>mmuflush := mmuflush t + 1, pccache := 0xffffffff,
     pccache2 := 0xffffffff\<rparr>)"

definition flushmmucache_write :: "'w mem_scheme \<Rightarrow> 'w mem_scheme" where
  "flushmmucache_write = mod_tlb (\<lambda>t. let t1 = fold flush_write_slot lookup_slots t
     in t1\<lparr>mmuflush := mmuflush t1 + 1\<rparr>)"

definition flushmmucache :: "'w mem_scheme \<Rightarrow> 'w mem_scheme" where
  "flushmmucache = mod_tlb (\<lambda>t.
     let t1 = fold (\<lambda>c t. flush_write_slot c (flush_read_slot c t)) lookup_slots t
     in t1\<lparr>mmuflush := mmuflush t1 + 1, pccache := 0xffffffff, pccache2 := 0xffffffff\<rparr>)"

text \<open>The host address that, plus a virtual address of the page, is the byte in RAM.\<close>

definition lookup_host :: "u32 \<Rightarrow> u32 \<Rightarrow> 'w mem_scheme \<Rightarrow> u64" where
  "lookup_host virt phys s = ram s + (ucast (phys AND NOT 0xfff) - ucast (virt AND NOT 0xfff))"

definition flush_write_page_slot :: "nat \<Rightarrow> u64 \<Rightarrow> u32 \<Rightarrow> tlb \<Rightarrow> tlb" where
  "flush_write_page_slot page_target target c t = (case writelookup t c of
     None \<Rightarrow> t
   | Some v \<Rightarrow>
       if writelookup2 t v = target \<or> page_lookup t v = Some page_target
       then t\<lparr>writelookup2 := (writelookup2 t)(v := LOOKUP_INV),
              page_lookup := (page_lookup t)(v := None),
              writelookup := (writelookup t)(c := None)\<rparr>
       else t)"

definition mem_flush_write_page :: "u32 \<Rightarrow> u32 \<Rightarrow> 'w mem_scheme \<Rightarrow> 'w mem_scheme" where
  "mem_flush_write_page addr virt s =
     (let target = ram s + (ucast (addr AND NOT 0xfff) - ucast (virt AND NOT 0xfff))
      in mod_tlb (fold (flush_write_page_slot (unat (drop_bit 12 addr)) target) lookup_slots) s)"

definition addreadlookup :: "u32 \<Rightarrow> u32 \<Rightarrow> 'w mem_scheme \<Rightarrow> 'w mem_scheme" where
  "addreadlookup virt phys s =
     (let v = drop_bit 12 virt; t = tlb s; k = readlnext t in
      if virt = 0xffffffff \<or> readlookup2 t v \<noteq> LOOKUP_INV then s
      else
        let t1 = (case readlookup t k of
                    None \<Rightarrow> t
                  | Some old \<Rightarrow>
                      t\<lparr>uncached := (uncached t \<or> old = drop_bit 12 (es_di (cpu s))
                                      \<or> old = drop_bit 12 (es_edi (cpu s))),
                        readlookup2 := (readlookup2 t)(old := LOOKUP_INV)\<rparr>)
        in s\<lparr>tlb := t1\<lparr>readlookup2 := (readlookup2 t1)(v := lookup_host virt phys s),
                       readlookupp := (readlookupp t1)(v := ucast (mmu_perm s)),
                       readlookup := (readlookup t1)(k := Some v),
                       readlnext := (k + 1) AND (cachesize (cpu s) - 1)\<rparr>,
             cycles := cycles s - 9\<rparr>)"

definition page_has_block :: "u32 \<Rightarrow> 'w mem_scheme \<Rightarrow> bool" where
  "page_has_block phys s \<longleftrightarrow>
     (\<exists>b \<in> set (pg_block (pages s (unat (drop_bit 12 phys)))). b \<noteq> NULL)
     \<or> phys AND NOT 0xfff = recomp_page (cpu s)"

definition addwritelookup :: "u32 \<Rightarrow> u32 \<Rightarrow> 'w mem_scheme \<Rightarrow> 'w mem_scheme" where
  "addwritelookup virt phys s =
     (let v = drop_bit 12 virt; t = tlb s; k = writelnext t in
      if virt = 0xffffffff \<or> page_lookup t v \<noteq> None then s
      else
        let t1 = (case writelookup t k of
                    None \<Rightarrow> t
                  | Some old \<Rightarrow> t\<lparr>page_lookup := (page_lookup t)(old := None),
                                 writelookup2 := (writelookup2 t)(old := LOOKUP_INV)\<rparr>);
            t2 = (if page_has_block phys s
                  then t1\<lparr>page_lookup := (page_lookup t1)(v := Some (unat (drop_bit 12 phys))),
                          page_lookupp := (page_lookupp t1)(v := ucast (mmu_perm s))\<rparr>
                  else t1\<lparr>writelookup2 := (writelookup2 t1)(v := lookup_host virt phys s)\<rparr>)
        in s\<lparr>tlb := t2\<lparr>writelookupp := (writelookupp t2)(v := ucast (mmu_perm s)),
                       writelookup := (writelookup t2)(k := Some v),
                       writelnext := (k + 1) AND (cachesize (cpu s) - 1)\<rparr>,
             cycles := cycles s - 9\<rparr>)"

section \<open>Pages of RAM\<close>

definition PAGE_MASK_INDEX :: "u32 \<Rightarrow> nat" where
  "PAGE_MASK_INDEX addr = unat (drop_bit 10 addr AND 3)"

definition dirty_bit :: "u32 \<Rightarrow> u64" where
  "dirty_bit addr = push_bit (unat (drop_bit 4 addr AND 63)) 1"

text \<open>The dirty bits a wider store sets: the next one as well when the store reaches into it.\<close>

definition spill :: "bool \<Rightarrow> u64 \<Rightarrow> u64" where
  "spill over m = (if over then m OR push_bit 1 m else m)"

definition mark_dirty :: "nat \<Rightarrow> nat \<Rightarrow> u64 \<Rightarrow> 'w mem_scheme \<Rightarrow> 'w mem_scheme" where
  "mark_dirty i k m s = s\<lparr>pages := (pages s)(i := (pages s i)
     \<lparr>pg_dirty_mask := (pg_dirty_mask (pages s i))[k := pg_dirty_mask (pages s i) ! k OR m]\<rparr>)\<rparr>"

definition store_fault :: "u64 \<Rightarrow> 'w mem_scheme \<Rightarrow> 'w mem_scheme" where
  "store_fault p s = (if p = 0 then s\<lparr>host_fault := True\<rparr> else s)"

text \<open>When a store to a page has an effect: a store of the value already there is skipped.\<close>

definition page_changes :: "nat \<Rightarrow> bool \<Rightarrow> 'w mem_scheme \<Rightarrow> bool" where
  "page_changes i differs s \<longleftrightarrow>
     pg_mem (pages s i) = 0 \<or> pg_mem (pages s i) = page_ff s \<or> differs \<or> codegen_in_recompile (cpu s)"

definition page_at :: "nat \<Rightarrow> u32 \<Rightarrow> 'w mem_scheme \<Rightarrow> u64" where
  "page_at i addr s = pg_mem (pages s i) + ucast (addr AND 0xfff)"

fun mem_write_ramb_page :: "u32 \<Rightarrow> u8 \<Rightarrow> nat option \<Rightarrow> 'w mem_scheme \<Rightarrow> 'w mem_scheme" where
  "mem_write_ramb_page addr val None s = s"
| "mem_write_ramb_page addr val (Some i) s =
     (if page_changes i (val \<noteq> host s (page_at i addr s)) s
      then store_fault (pg_mem (pages s i))
             (host_writeb (page_at i addr s) val (mark_dirty i (PAGE_MASK_INDEX addr) (dirty_bit addr) s))
      else s)"

fun mem_write_ramw_page :: "u32 \<Rightarrow> u16 \<Rightarrow> nat option \<Rightarrow> 'w mem_scheme \<Rightarrow> 'w mem_scheme" where
  "mem_write_ramw_page addr val None s = s"
| "mem_write_ramw_page addr val (Some i) s =
     (if page_changes i (val \<noteq> host_readw (page_at i addr s) s) s
      then store_fault (pg_mem (pages s i))
             (host_writew (page_at i addr s) val
               (mark_dirty i (PAGE_MASK_INDEX addr) (spill (addr AND 0xf = 0xf) (dirty_bit addr)) s))
      else s)"

fun mem_write_raml_page :: "u32 \<Rightarrow> u32 \<Rightarrow> nat option \<Rightarrow> 'w mem_scheme \<Rightarrow> 'w mem_scheme" where
  "mem_write_raml_page addr val None s = s"
| "mem_write_raml_page addr val (Some i) s =
     (if page_changes i (val \<noteq> host_readl (page_at i addr s) s) s
      then store_fault (pg_mem (pages s i))
             (host_writel (page_at i addr s) val
               (mark_dirty i (PAGE_MASK_INDEX addr) (spill (0xd \<le> addr AND 0xf) (dirty_bit addr)) s))
      else s)"

definition invalidate_page :: "u32 \<Rightarrow> 'w mem_scheme \<Rightarrow> 'w mem_scheme" where
  "invalidate_page a s =
     (let i = unat (drop_bit 12 a) in
      if i < pages_sz s
      then s\<lparr>pages := (pages s)(i := (pages s i)\<lparr>pg_dirty_mask := [- 1, - 1, - 1, - 1]\<rparr>)\<rparr> else s)"

partial_function (option) invalidate_loop ::
  "u32 \<Rightarrow> u32 \<Rightarrow> 'w mem_scheme \<Rightarrow> 'w mem_scheme option" where
  "invalidate_loop a e s =
     (if a \<le> e then invalidate_loop (a + 0x1000) e (invalidate_page a s) else Some s)"

definition mem_invalidate_range :: "u32 \<Rightarrow> u32 \<Rightarrow> 'w mem_scheme \<Rightarrow> 'w mem_scheme option" where
  "mem_invalidate_range a e s = invalidate_loop (a AND NOT 63) ((e + 63) AND NOT 63) s"

section \<open>RAM handlers\<close>

definition note_read :: "u32 \<Rightarrow> 'w mem_scheme \<Rightarrow> 'w mem_scheme" where
  "note_read addr s = (if cpu_use_exec (cpu s) then addreadlookup (mem_logical_addr s) addr s else s)"

definition mem_read_ram :: "u32 \<Rightarrow> 'w mem_scheme \<Rightarrow> u8 \<times> 'w mem_scheme" where
  "mem_read_ram addr s = (let s1 = note_read addr s in (host s1 (ram_at addr s1), s1))"

definition mem_read_ramw :: "u32 \<Rightarrow> 'w mem_scheme \<Rightarrow> u16 \<times> 'w mem_scheme" where
  "mem_read_ramw addr s = (let s1 = note_read addr s in (host_readw (ram_at addr s1) s1, s1))"

definition mem_read_raml :: "u32 \<Rightarrow> 'w mem_scheme \<Rightarrow> u32 \<times> 'w mem_scheme" where
  "mem_read_raml addr s = (let s1 = note_read addr s in (host_readl (ram_at addr s1) s1, s1))"

text \<open>
  The write handlers of plain and of remapped RAM are the same routine: \<open>old\<close> is the address that
  selects the page, \<open>addr\<close> the one in RAM, and the two differ only for remapped RAM.
\<close>

definition write_ram_at :: "u32 \<Rightarrow> u32 \<Rightarrow> u8 \<Rightarrow> 'w mem_scheme \<Rightarrow> 'w mem_scheme" where
  "write_ram_at old addr val s =
     (if cpu_use_exec (cpu s)
      then mem_write_ramb_page addr val (Some (unat (drop_bit 12 old))) (addwritelookup (mem_logical_addr s) addr s)
      else host_writeb (ram_at addr s) val s)"

definition write_ramw_at :: "u32 \<Rightarrow> u32 \<Rightarrow> u16 \<Rightarrow> 'w mem_scheme \<Rightarrow> 'w mem_scheme" where
  "write_ramw_at old addr val s =
     (if cpu_use_exec (cpu s)
      then mem_write_ramw_page addr val (Some (unat (drop_bit 12 old))) (addwritelookup (mem_logical_addr s) addr s)
      else host_writew (ram_at addr s) val s)"

definition write_raml_at :: "u32 \<Rightarrow> u32 \<Rightarrow> u32 \<Rightarrow> 'w mem_scheme \<Rightarrow> 'w mem_scheme" where
  "write_raml_at old addr val s =
     (if cpu_use_exec (cpu s)
      then mem_write_raml_page addr val (Some (unat (drop_bit 12 old))) (addwritelookup (mem_logical_addr s) addr s)
      else host_writel (ram_at addr s) val s)"

definition mem_write_ram :: "u32 \<Rightarrow> u8 \<Rightarrow> 'w mem_scheme \<Rightarrow> 'w mem_scheme" where
  "mem_write_ram addr val s = write_ram_at addr addr val s"

definition mem_write_ramw :: "u32 \<Rightarrow> u16 \<Rightarrow> 'w mem_scheme \<Rightarrow> 'w mem_scheme" where
  "mem_write_ramw addr val s = write_ramw_at addr addr val s"

definition mem_write_raml :: "u32 \<Rightarrow> u32 \<Rightarrow> 'w mem_scheme \<Rightarrow> 'w mem_scheme" where
  "mem_write_raml addr val s = write_raml_at addr addr val s"

definition remapped :: "u32 \<Rightarrow> 'w mem_scheme \<Rightarrow> u32" where
  "remapped addr s = 0xA0000 + (addr - remap_start_addr s)"

definition remapped2 :: "u32 \<Rightarrow> 'w mem_scheme \<Rightarrow> u32" where
  "remapped2 addr s = 0xD0000 + (addr - remap_start_addr2 s)"

definition mem_read_remapped :: "u32 \<Rightarrow> 'w mem_scheme \<Rightarrow> u8 \<times> 'w mem_scheme" where
  "mem_read_remapped addr s = mem_read_ram (remapped addr s) s"

definition mem_read_remappedw :: "u32 \<Rightarrow> 'w mem_scheme \<Rightarrow> u16 \<times> 'w mem_scheme" where
  "mem_read_remappedw addr s = mem_read_ramw (remapped addr s) s"

definition mem_read_remappedl :: "u32 \<Rightarrow> 'w mem_scheme \<Rightarrow> u32 \<times> 'w mem_scheme" where
  "mem_read_remappedl addr s = mem_read_raml (remapped addr s) s"

definition mem_read_remapped2 :: "u32 \<Rightarrow> 'w mem_scheme \<Rightarrow> u8 \<times> 'w mem_scheme" where
  "mem_read_remapped2 addr s = mem_read_ram (remapped2 addr s) s"

definition mem_read_remappedw2 :: "u32 \<Rightarrow> 'w mem_scheme \<Rightarrow> u16 \<times> 'w mem_scheme" where
  "mem_read_remappedw2 addr s = mem_read_ramw (remapped2 addr s) s"

definition mem_read_remappedl2 :: "u32 \<Rightarrow> 'w mem_scheme \<Rightarrow> u32 \<times> 'w mem_scheme" where
  "mem_read_remappedl2 addr s = mem_read_raml (remapped2 addr s) s"

definition mem_write_remapped :: "u32 \<Rightarrow> u8 \<Rightarrow> 'w mem_scheme \<Rightarrow> 'w mem_scheme" where
  "mem_write_remapped addr val s = write_ram_at addr (remapped addr s) val s"

definition mem_write_remappedw :: "u32 \<Rightarrow> u16 \<Rightarrow> 'w mem_scheme \<Rightarrow> 'w mem_scheme" where
  "mem_write_remappedw addr val s = write_ramw_at addr (remapped addr s) val s"

definition mem_write_remappedl :: "u32 \<Rightarrow> u32 \<Rightarrow> 'w mem_scheme \<Rightarrow> 'w mem_scheme" where
  "mem_write_remappedl addr val s = write_raml_at addr (remapped addr s) val s"

definition mem_write_remapped2 :: "u32 \<Rightarrow> u8 \<Rightarrow> 'w mem_scheme \<Rightarrow> 'w mem_scheme" where
  "mem_write_remapped2 addr val s = write_ram_at addr (remapped2 addr s) val s"

definition mem_write_remappedw2 :: "u32 \<Rightarrow> u16 \<Rightarrow> 'w mem_scheme \<Rightarrow> 'w mem_scheme" where
  "mem_write_remappedw2 addr val s = write_ramw_at addr (remapped2 addr s) val s"

definition mem_write_remappedl2 :: "u32 \<Rightarrow> u32 \<Rightarrow> 'w mem_scheme \<Rightarrow> 'w mem_scheme" where
  "mem_write_remappedl2 addr val s = write_raml_at addr (remapped2 addr s) val s"

section \<open>Calls through a mapping\<close>

record 's devices =
  dev_read_b :: "nat \<Rightarrow> u32 \<Rightarrow> ptr \<Rightarrow> 's \<Rightarrow> u8 \<times> 's"
  dev_read_w :: "nat \<Rightarrow> u32 \<Rightarrow> ptr \<Rightarrow> 's \<Rightarrow> u16 \<times> 's"
  dev_read_l :: "nat \<Rightarrow> u32 \<Rightarrow> ptr \<Rightarrow> 's \<Rightarrow> u32 \<times> 's"
  dev_write_b :: "nat \<Rightarrow> u32 \<Rightarrow> u8 \<Rightarrow> ptr \<Rightarrow> 's \<Rightarrow> 's"
  dev_write_w :: "nat \<Rightarrow> u32 \<Rightarrow> u16 \<Rightarrow> ptr \<Rightarrow> 's \<Rightarrow> 's"
  dev_write_l :: "nat \<Rightarrow> u32 \<Rightarrow> u32 \<Rightarrow> ptr \<Rightarrow> 's \<Rightarrow> 's"

fun call_read_b :: "'w mem_scheme devices \<Rightarrow> mem_fn \<Rightarrow> u32 \<Rightarrow> ptr \<Rightarrow> 'w mem_scheme \<Rightarrow> u8 \<times> 'w mem_scheme" where
  "call_read_b D NoFn a p s = (0xff, s)"
| "call_read_b D RamFn a p s = mem_read_ram a s"
| "call_read_b D RemappedFn a p s = mem_read_remapped a s"
| "call_read_b D Remapped2Fn a p s = mem_read_remapped2 a s"
| "call_read_b D (DevFn k) a p s = dev_read_b D k a p s"

fun call_read_w :: "'w mem_scheme devices \<Rightarrow> mem_fn \<Rightarrow> u32 \<Rightarrow> ptr \<Rightarrow> 'w mem_scheme \<Rightarrow> u16 \<times> 'w mem_scheme" where
  "call_read_w D NoFn a p s = (0xffff, s)"
| "call_read_w D RamFn a p s = mem_read_ramw a s"
| "call_read_w D RemappedFn a p s = mem_read_remappedw a s"
| "call_read_w D Remapped2Fn a p s = mem_read_remappedw2 a s"
| "call_read_w D (DevFn k) a p s = dev_read_w D k a p s"

fun call_read_l :: "'w mem_scheme devices \<Rightarrow> mem_fn \<Rightarrow> u32 \<Rightarrow> ptr \<Rightarrow> 'w mem_scheme \<Rightarrow> u32 \<times> 'w mem_scheme" where
  "call_read_l D NoFn a p s = (0xffffffff, s)"
| "call_read_l D RamFn a p s = mem_read_raml a s"
| "call_read_l D RemappedFn a p s = mem_read_remappedl a s"
| "call_read_l D Remapped2Fn a p s = mem_read_remappedl2 a s"
| "call_read_l D (DevFn k) a p s = dev_read_l D k a p s"

fun call_write_b :: "'w mem_scheme devices \<Rightarrow> mem_fn \<Rightarrow> u32 \<Rightarrow> u8 \<Rightarrow> ptr \<Rightarrow> 'w mem_scheme \<Rightarrow> 'w mem_scheme" where
  "call_write_b D NoFn a v p s = s"
| "call_write_b D RamFn a v p s = mem_write_ram a v s"
| "call_write_b D RemappedFn a v p s = mem_write_remapped a v s"
| "call_write_b D Remapped2Fn a v p s = mem_write_remapped2 a v s"
| "call_write_b D (DevFn k) a v p s = dev_write_b D k a v p s"

fun call_write_w :: "'w mem_scheme devices \<Rightarrow> mem_fn \<Rightarrow> u32 \<Rightarrow> u16 \<Rightarrow> ptr \<Rightarrow> 'w mem_scheme \<Rightarrow> 'w mem_scheme" where
  "call_write_w D NoFn a v p s = s"
| "call_write_w D RamFn a v p s = mem_write_ramw a v s"
| "call_write_w D RemappedFn a v p s = mem_write_remappedw a v s"
| "call_write_w D Remapped2Fn a v p s = mem_write_remappedw2 a v s"
| "call_write_w D (DevFn k) a v p s = dev_write_w D k a v p s"

fun call_write_l :: "'w mem_scheme devices \<Rightarrow> mem_fn \<Rightarrow> u32 \<Rightarrow> u32 \<Rightarrow> ptr \<Rightarrow> 'w mem_scheme \<Rightarrow> 'w mem_scheme" where
  "call_write_l D NoFn a v p s = s"
| "call_write_l D RamFn a v p s = mem_write_raml a v s"
| "call_write_l D RemappedFn a v p s = mem_write_remappedl a v s"
| "call_write_l D Remapped2Fn a v p s = mem_write_remappedl2 a v s"
| "call_write_l D (DevFn k) a v p s = dev_write_l D k a v p s"

section \<open>Access from the bus\<close>

text \<open>
  The accesses of bus masters, DMA and the recompiled loads of the paging unit, by physical address.
  \<open>fast\<close> is the test of the code for a mapping whose host memory may be used directly.
\<close>

definition no_logical :: "'w mem_scheme \<Rightarrow> 'w mem_scheme" where
  "no_logical s = s\<lparr>mem_logical_addr := 0xffffffff\<rparr>"

definition bus_read_map :: "u32 \<Rightarrow> 'w mem_scheme \<Rightarrow> ptr" where
  "bus_read_map addr s = g_read_bus (gran s (unat (drop_bit 12 addr)))"

definition bus_write_map :: "u32 \<Rightarrow> 'w mem_scheme \<Rightarrow> ptr" where
  "bus_write_map addr s = g_write_bus (gran s (unat (drop_bit 12 addr)))"

definition exec_host :: "ptr \<Rightarrow> u32 \<Rightarrow> 'w mem_scheme \<Rightarrow> u64" where
  "exec_host m addr s = m_exec (maps s m) + ucast ((addr - m_base (maps s m)) AND m_mask (maps s m))"

definition fast :: "ptr \<Rightarrow> 'w mem_scheme \<Rightarrow> bool" where
  "fast m s \<longleftrightarrow> cpu_use_exec (cpu s) \<and> m_exec (maps s m) \<noteq> 0"

definition mem_readb_phys :: "'w mem_scheme devices \<Rightarrow> u32 \<Rightarrow> 'w mem_scheme \<Rightarrow> u8 \<times> 'w mem_scheme" where
  "mem_readb_phys D addr s0 =
     (let m = bus_read_map addr s0; s = no_logical s0; d = maps s m in
      if m = NULL then (0xff, s)
      else if fast m s then (host s (exec_host m addr s), s)
      else if m_read_b d \<noteq> NoFn then call_read_b D (m_read_b d) addr (m_priv d) s
      else (0xff, s))"

definition mem_readw_phys :: "'w mem_scheme devices \<Rightarrow> u32 \<Rightarrow> 'w mem_scheme \<Rightarrow> u16 \<times> 'w mem_scheme" where
  "mem_readw_phys D addr s0 =
     (let m = bus_read_map addr s0; s = no_logical s0; d = maps s m; inside = (addr AND 0xfff \<le> 0xffe) in
      if m \<noteq> NULL \<and> fast m s \<and> inside then (host_readw (exec_host m addr s) s, s)
      else if m \<noteq> NULL \<and> inside \<and> m_read_w d \<noteq> NoFn then call_read_w D (m_read_w d) addr (m_priv d) s
      else case mem_readb_phys D (addr + 1) s of (hi, s1) \<Rightarrow>
           case mem_readb_phys D addr s1 of (lo, s2) \<Rightarrow> (push_bit 8 (ucast hi) OR ucast lo, s2))"

definition mem_readl_phys :: "'w mem_scheme devices \<Rightarrow> u32 \<Rightarrow> 'w mem_scheme \<Rightarrow> u32 \<times> 'w mem_scheme" where
  "mem_readl_phys D addr s0 =
     (let m = bus_read_map addr s0; s = no_logical s0; d = maps s m; inside = (addr AND 0xfff \<le> 0xffc) in
      if m \<noteq> NULL \<and> fast m s \<and> inside then (host_readl (exec_host m addr s) s, s)
      else if m \<noteq> NULL \<and> inside \<and> m_read_l d \<noteq> NoFn then call_read_l D (m_read_l d) addr (m_priv d) s
      else case mem_readw_phys D (addr + 2) s of (hi, s1) \<Rightarrow>
           case mem_readw_phys D addr s1 of (lo, s2) \<Rightarrow> (push_bit 16 (ucast hi) OR ucast lo, s2))"

text \<open>The bytes stored at \<open>dest\<close>; any other size stores nothing.\<close>

definition mem_read_phys :: "'w mem_scheme devices \<Rightarrow> u32 \<Rightarrow> nat \<Rightarrow> 'w mem_scheme \<Rightarrow> u8 list \<times> 'w mem_scheme" where
  "mem_read_phys D addr n s =
     (if n = 4 then case mem_readl_phys D addr s of (v, s1) \<Rightarrow>
        ([ucast v, ucast (drop_bit 8 v), ucast (drop_bit 16 v), ucast (drop_bit 24 v)], s1)
      else if n = 2 then case mem_readw_phys D addr s of (v, s1) \<Rightarrow> ([ucast v, ucast (drop_bit 8 v)], s1)
      else if n = 1 then case mem_readb_phys D addr s of (v, s1) \<Rightarrow> ([v], s1)
      else ([], s))"

definition mem_writeb_phys :: "'w mem_scheme devices \<Rightarrow> u32 \<Rightarrow> u8 \<Rightarrow> 'w mem_scheme \<Rightarrow> 'w mem_scheme" where
  "mem_writeb_phys D addr val s0 =
     (let m = bus_write_map addr s0; s = no_logical s0; d = maps s m in
      if m = NULL then s
      else if fast m s then host_writeb (exec_host m addr s) val s
      else if m_write_b d \<noteq> NoFn then call_write_b D (m_write_b d) addr val (m_priv d) s
      else s)"

definition mem_writew_phys :: "'w mem_scheme devices \<Rightarrow> u32 \<Rightarrow> u16 \<Rightarrow> 'w mem_scheme \<Rightarrow> 'w mem_scheme" where
  "mem_writew_phys D addr val s0 =
     (let m = bus_write_map addr s0; s = no_logical s0; d = maps s m; inside = (addr AND 0xfff \<le> 0xffe) in
      if m \<noteq> NULL \<and> fast m s \<and> inside then host_writew (exec_host m addr s) val s
      else if m \<noteq> NULL \<and> inside \<and> m_write_w d \<noteq> NoFn then call_write_w D (m_write_w d) addr val (m_priv d) s
      else mem_writeb_phys D (addr + 1) (ucast (drop_bit 8 val)) (mem_writeb_phys D addr (ucast val) s))"

definition mem_writel_phys :: "'w mem_scheme devices \<Rightarrow> u32 \<Rightarrow> u32 \<Rightarrow> 'w mem_scheme \<Rightarrow> 'w mem_scheme" where
  "mem_writel_phys D addr val s0 =
     (let m = bus_write_map addr s0; s = no_logical s0; d = maps s m; inside = (addr AND 0xfff \<le> 0xffc) in
      if m \<noteq> NULL \<and> fast m s \<and> inside then host_writel (exec_host m addr s) val s
      else if m \<noteq> NULL \<and> inside \<and> m_write_l d \<noteq> NoFn then call_write_l D (m_write_l d) addr val (m_priv d) s
      else mem_writew_phys D (addr + 2) (ucast (drop_bit 16 val)) (mem_writew_phys D addr (ucast val) s))"

definition mem_write_phys :: "'w mem_scheme devices \<Rightarrow> u32 \<Rightarrow> u8 list \<Rightarrow> 'w mem_scheme \<Rightarrow> 'w mem_scheme" where
  "mem_write_phys D addr src s = (case src of
     [b0, b1, b2, b3] \<Rightarrow> mem_writel_phys D addr
       (ucast b0 OR push_bit 8 (ucast b1) OR push_bit 16 (ucast b2) OR push_bit 24 (ucast b3)) s
   | [b0, b1] \<Rightarrow> mem_writew_phys D addr (ucast b0 OR push_bit 8 (ucast b1)) s
   | [b0] \<Rightarrow> mem_writeb_phys D addr b0 s
   | _ \<Rightarrow> s)"

section \<open>The mapping list\<close>

text \<open>Lists of results: \<open>then_do\<close> runs the rest of a routine after a call that returned normally.\<close>

definition then_do :: "('e + 's) option \<Rightarrow> ('s \<Rightarrow> ('e + 't) option) \<Rightarrow> ('e + 't) option" where
  "then_do r k = (case r of None \<Rightarrow> None | Some (Inl e) \<Rightarrow> Some (Inl e) | Some (Inr s) \<Rightarrow> k s)"

abbreviation MEM_MAPPINGS_NO :: nat where "MEM_MAPPINGS_NO \<equiv> 0x100000"

definition mem_mapping_access_allowed :: "u32 \<Rightarrow> u16 \<Rightarrow> bool" where
  "mem_mapping_access_allowed flags access =
     (if access AND 16 = 0 then
        if access AND 8 \<noteq> 0 then flags AND 64 \<noteq> 0
        else if access AND 4 \<noteq> 0 then flags AND 32 \<noteq> 0
        else if access AND 1 = 0 then
          (if flags AND 8 \<noteq> 0
           then (if access AND 2 \<noteq> 0 then flags AND 16 \<noteq> 0 else flags AND 16 = 0)
           else True)
          \<and> flags AND 2 = 0 \<and> flags AND 32 = 0
        else flags AND 1 = 0 \<and> flags AND 32 = 0
      else if access AND 8 \<noteq> 0 then flags AND 64 \<noteq> 0
      else if access AND 4 \<noteq> 0 then flags AND 32 \<noteq> 0
      else False)"

text \<open>The five-bit fields of \<open>state_t\<close>, and which of the four states applies.\<close>

definition state_x :: "u16 \<Rightarrow> u16" where "state_x v = v AND 31"
definition state_w :: "u16 \<Rightarrow> u16" where "state_w v = drop_bit 5 v AND 31"
definition state_r :: "u16 \<Rightarrow> u16" where "state_r v = drop_bit 10 v AND 31"

definition state_index :: "'w mem_scheme \<Rightarrow> nat" where
  "state_index s = (if in_smm (cpu s) \<or> cx_smac (cpu s) then 1 else 0)"

definition has_read :: "mem_mapping \<Rightarrow> bool" where
  "has_read d \<longleftrightarrow> m_read_b d \<noteq> NoFn \<or> m_read_w d \<noteq> NoFn \<or> m_read_l d \<noteq> NoFn"

definition has_write :: "mem_mapping \<Rightarrow> bool" where
  "has_write d \<longleftrightarrow> m_write_b d \<noteq> NoFn \<or> m_write_w d \<noteq> NoFn \<or> m_write_l d \<noteq> NoFn"

text \<open>The addresses a loop with step \<open>MEM_GRANULARITY_SIZE\<close> from \<open>lo\<close> below \<open>hi\<close> visits.\<close>

definition granules :: "nat \<Rightarrow> nat \<Rightarrow> nat list" where
  "granules lo hi = map (\<lambda>k. lo + 0x1000 * k) [0..<(hi - lo + 0xfff) div 0x1000]"

definition in_table :: "nat list \<Rightarrow> bool" where
  "in_table cs \<longleftrightarrow> list_all (\<lambda>c. c div 0x1000 < MEM_MAPPINGS_NO) cs"

definition empty_granule :: granule where
  "empty_granule = \<lparr>g_exec = 0, g_write = NULL, g_read = NULL, g_write_bus = NULL, g_read_bus = NULL\<rparr>"

definition clear_granule :: "nat \<Rightarrow> 'w mem_scheme \<Rightarrow> 'w mem_scheme" where
  "clear_granule c s = s\<lparr>gran := (gran s)(c div 0x1000 := empty_granule)\<rparr>"

text \<open>What mapping \<open>m\<close> puts into the table entry of the granule at \<open>c\<close>: for the CPU, then for the bus.\<close>

definition enter :: "ptr \<Rightarrow> nat \<Rightarrow> 'w mem_scheme \<Rightarrow> granule \<Rightarrow> granule" where
  "enter m c s g =
     (let d = maps s m; i = c div 0x1000; n = state_index s;
          st = mem_state s i ! n; sb = mem_state s i ! (n + 2);
          g1 = (if m_exec d \<noteq> 0 \<and> mem_mapping_access_allowed (m_flags d) (state_x st)
                then g\<lparr>g_exec := m_exec d + (of_nat c - ucast (m_base d))\<rparr> else g);
          g2 = (if mem_wp s i = 0 \<and> has_write d \<and> mem_mapping_access_allowed (m_flags d) (state_w st)
                then g1\<lparr>g_write := m\<rparr> else g1);
          g3 = (if has_read d \<and> mem_mapping_access_allowed (m_flags d) (state_r st)
                then g2\<lparr>g_read := m\<rparr> else g2);
          g4 = (if mem_wp_bus s i = 0 \<and> has_write d \<and> mem_mapping_access_allowed (m_flags d) (state_w sb)
                then g3\<lparr>g_write_bus := m\<rparr> else g3)
      in if has_read d \<and> mem_mapping_access_allowed (m_flags d) (state_r sb)
         then g4\<lparr>g_read_bus := m\<rparr> else g4)"

definition enter_granule :: "ptr \<Rightarrow> nat \<Rightarrow> 'w mem_scheme \<Rightarrow> 'w mem_scheme" where
  "enter_granule m c s = s\<lparr>gran := (gran s)(c div 0x1000 := enter m c s (gran s (c div 0x1000)))\<rparr>"

text \<open>The addresses at which a mapping is entered when the range is recalculated, its aliases included.\<close>

definition map_granules :: "nat \<Rightarrow> nat \<Rightarrow> mem_mapping \<Rightarrow> nat list" where
  "map_granules base len d =
     (let b = unat (m_base d); e = b + unat (m_size d) in
      if m_enable d \<and> b < base + len \<and> base < e then
        let i_a = unat (NOT (m_base_ignore d)) + 1; i_e = unat (m_base_ignore d);
            start0 = (if b < base then b else base); start = (if start0 < b then b else start0);
            stop = (if e < base + len then e else base + len)
        in concat (map (\<lambda>k. granules (start + k * i_a) (stop + k * i_a)) [0..<i_e div i_a + 1])
      else [])"

partial_function (option) recalc_walk ::
  "nat \<Rightarrow> nat \<Rightarrow> ptr \<Rightarrow> 'w mem_scheme \<Rightarrow> (mem_error + 'w mem_scheme) option" where
  "recalc_walk base len m s =
     (if m = NULL then Some (Inr s)
      else let cs = map_granules base len (maps s m) in
           if in_table cs then recalc_walk base len (m_next (maps s m)) (fold (enter_granule m) cs s)
           else Some (Inl OutOfTable))"

definition mem_mapping_recalc :: "nat \<Rightarrow> nat \<Rightarrow> 'w mem_scheme \<Rightarrow> (mem_error + 'w mem_scheme) option" where
  "mem_mapping_recalc base len s =
     (if len = 0 \<or> base_mapping s = NULL then Some (Inr s)
      else let cs = granules base (base + len) in
           if in_table cs
           then map_option (map_sum id flushmmucache_nopc)
                  (recalc_walk base len (base_mapping s) (fold clear_granule cs s))
           else Some (Inl OutOfTable))"

definition mem_mapping_do_recalc :: "ptr \<Rightarrow> 'w mem_scheme \<Rightarrow> (mem_error + 'w mem_scheme) option" where
  "mem_mapping_do_recalc m s =
     mem_mapping_recalc (unat (m_base (maps s m))) (unat (m_size (maps s m))) s"

definition set_wp_granule :: "u8 \<Rightarrow> u8 \<Rightarrow> nat \<Rightarrow> 'w mem_scheme \<Rightarrow> 'w mem_scheme" where
  "set_wp_granule flags wp c s =
     s\<lparr>mem_wp_bus := (if flags AND 4 \<noteq> 0 then (mem_wp_bus s)(c div 0x1000 := wp) else mem_wp_bus s),
       mem_wp := (if flags AND 1 \<noteq> 0 then (mem_wp s)(c div 0x1000 := wp) else mem_wp s)\<rparr>"

definition mem_set_wp :: "nat \<Rightarrow> nat \<Rightarrow> u8 \<Rightarrow> u8 \<Rightarrow> 'w mem_scheme \<Rightarrow> (mem_error + 'w mem_scheme) option" where
  "mem_set_wp base len flags wp s =
     (let cs = granules base (base + len) in
      if in_table cs then mem_mapping_recalc base len (fold (set_wp_granule flags wp) cs s)
      else Some (Inl OutOfTable))"

text \<open>The six handlers of a mapping, as the calls pass them.\<close>

record handlers =
  h_read_b :: mem_fn
  h_read_w :: mem_fn
  h_read_l :: mem_fn
  h_write_b :: mem_fn
  h_write_w :: mem_fn
  h_write_l :: mem_fn

definition put_write_handlers :: "handlers \<Rightarrow> mem_mapping \<Rightarrow> mem_mapping" where
  "put_write_handlers h d = d\<lparr>m_write_b := h_write_b h, m_write_w := h_write_w h, m_write_l := h_write_l h\<rparr>"

definition put_handlers :: "handlers \<Rightarrow> mem_mapping \<Rightarrow> mem_mapping" where
  "put_handlers h d =
     put_write_handlers h (d\<lparr>m_read_b := h_read_b h, m_read_w := h_read_w h, m_read_l := h_read_l h\<rparr>)"

definition mem_mapping_set ::
  "ptr \<Rightarrow> u32 \<Rightarrow> u32 \<Rightarrow> handlers \<Rightarrow> u64 \<Rightarrow> u32 \<Rightarrow> ptr \<Rightarrow> 'w mem_scheme \<Rightarrow> (mem_error + 'w mem_scheme) option" where
  "mem_mapping_set m base len h exec fl priv s =
     (let s1 = mod_map m (\<lambda>d. (put_handlers h d)\<lparr>m_enable := (len \<noteq> 0), m_base := base, m_size := len,
                 m_mask := (if len \<noteq> 0 then 0xffffffff else 0), m_exec := exec, m_flags := fl,
                 m_priv := priv, m_next := NULL\<rparr>) s
      in if len \<noteq> 0 then mem_mapping_recalc (unat base) (unat len) s1 else Some (Inr s1))"

definition link_last :: "ptr \<Rightarrow> 'w mem_scheme \<Rightarrow> 'w mem_scheme" where
  "link_last m s =
     (let s1 = (if base_mapping s = NULL then s\<lparr>base_mapping := m\<rparr> else s);
          s2 = (if last_mapping s1 = NULL then mod_map m (\<lambda>d. d\<lparr>m_prev := NULL\<rparr>) s1
                else mod_map (last_mapping s1) (\<lambda>d. d\<lparr>m_next := m\<rparr>)
                       (mod_map m (\<lambda>d. d\<lparr>m_prev := last_mapping s1\<rparr>) s1))
      in s2\<lparr>last_mapping := m\<rparr>)"

definition mem_mapping_add ::
  "ptr \<Rightarrow> u32 \<Rightarrow> u32 \<Rightarrow> handlers \<Rightarrow> u64 \<Rightarrow> u32 \<Rightarrow> ptr \<Rightarrow> 'w mem_scheme \<Rightarrow> (mem_error + 'w mem_scheme) option" where
  "mem_mapping_add m base len h exec fl priv s =
     (if base_mapping s = NULL \<and> last_mapping s \<noteq> NULL then Some (Inl FatalNullBase)
      else if base_mapping s \<noteq> NULL \<and> last_mapping s = NULL then Some (Inl FatalNullLast)
      else if base_mapping s \<noteq> NULL \<and> m_prev (maps s (base_mapping s)) \<noteq> NULL then Some (Inl FatalBasePrev)
      else if last_mapping s \<noteq> NULL \<and> m_next (maps s (last_mapping s)) \<noteq> NULL then Some (Inl FatalLastNext)
      else mem_mapping_set m base len h exec fl priv (link_last m s))"

definition mem_mapping_set_handler :: "ptr \<Rightarrow> handlers \<Rightarrow> 'w mem_scheme \<Rightarrow> (mem_error + 'w mem_scheme) option" where
  "mem_mapping_set_handler m h s = mem_mapping_do_recalc m (mod_map m (put_handlers h) s)"

definition mem_mapping_set_write_handler :: "ptr \<Rightarrow> handlers \<Rightarrow> 'w mem_scheme \<Rightarrow> (mem_error + 'w mem_scheme) option" where
  "mem_mapping_set_write_handler m h s = mem_mapping_do_recalc m (mod_map m (put_write_handlers h) s)"

definition mem_mapping_disable :: "ptr \<Rightarrow> 'w mem_scheme \<Rightarrow> (mem_error + 'w mem_scheme) option" where
  "mem_mapping_disable m s = mem_mapping_do_recalc m (mod_map m (\<lambda>d. d\<lparr>m_enable := False\<rparr>) s)"

definition mem_mapping_enable :: "ptr \<Rightarrow> 'w mem_scheme \<Rightarrow> (mem_error + 'w mem_scheme) option" where
  "mem_mapping_enable m s = mem_mapping_do_recalc m (mod_map m (\<lambda>d. d\<lparr>m_enable := True\<rparr>) s)"

definition mem_mapping_set_addr :: "ptr \<Rightarrow> u32 \<Rightarrow> u32 \<Rightarrow> 'w mem_scheme \<Rightarrow> (mem_error + 'w mem_scheme) option" where
  "mem_mapping_set_addr m base len s =
     then_do (mem_mapping_do_recalc m (mod_map m (\<lambda>d. d\<lparr>m_enable := False\<rparr>) s))
       (\<lambda>s1. mem_mapping_do_recalc m (mod_map m (\<lambda>d. d\<lparr>m_enable := True, m_base := base, m_size := len\<rparr>) s1))"

definition mem_mapping_set_base_ignore :: "ptr \<Rightarrow> u32 \<Rightarrow> 'w mem_scheme \<Rightarrow> (mem_error + 'w mem_scheme) option" where
  "mem_mapping_set_base_ignore m ignore s =
     then_do (mem_mapping_do_recalc m (mod_map m (\<lambda>d. d\<lparr>m_enable := False\<rparr>) s))
       (\<lambda>s1. mem_mapping_do_recalc m (mod_map m (\<lambda>d. d\<lparr>m_enable := True, m_base_ignore := ignore\<rparr>) s1))"

definition mem_mapping_set_exec :: "ptr \<Rightarrow> u64 \<Rightarrow> 'w mem_scheme \<Rightarrow> (mem_error + 'w mem_scheme) option" where
  "mem_mapping_set_exec m exec s = mem_mapping_do_recalc m (mod_map m (\<lambda>d. d\<lparr>m_exec := exec\<rparr>) s)"

definition mem_mapping_set_mask :: "ptr \<Rightarrow> u32 \<Rightarrow> 'w mem_scheme \<Rightarrow> (mem_error + 'w mem_scheme) option" where
  "mem_mapping_set_mask m msk s = mem_mapping_do_recalc m (mod_map m (\<lambda>d. d\<lparr>m_mask := msk\<rparr>) s)"

definition mem_mapping_set_p :: "ptr \<Rightarrow> ptr \<Rightarrow> 'w mem_scheme \<Rightarrow> 'w mem_scheme" where
  "mem_mapping_set_p m p s = mod_map m (\<lambda>d. d\<lparr>m_priv := p\<rparr>) s"

section \<open>Access states\<close>

definition access_smstate :: "nat \<Rightarrow> u16 \<Rightarrow> u16" where
  "access_smstate mode access0 =
     (if mode = 0 then access0 AND 0x6f7b
      else let access = (if mode = 1 then (if access0 \<noteq> 0 then 1 else 0) else access0) in
        if mode = 3 then
          (if access AND 1 \<noteq> 0 then 0x0004 else 0) OR (if access AND 4 \<noteq> 0 then 0x1000 else 0)
          OR (if access AND 2 \<noteq> 0 then 0x0080 else 0)
        else [0, 0x1084, 0x0004, 0x4010] ! unat (access AND 7))"

definition set_state_granule :: "u8 \<Rightarrow> u16 \<Rightarrow> u16 \<Rightarrow> u32 \<Rightarrow> 'w mem_scheme \<Rightarrow> 'w mem_scheme" where
  "set_state_granule bitmap msk sm a s =
     (let i = unat (drop_bit 12 a) in
      s\<lparr>mem_state := (mem_state s)(i := map (\<lambda>n. if bit bitmap n
          then (mem_state s i ! n AND msk) OR sm else mem_state s i ! n) [0..<4])\<rparr>)"

partial_function (option) set_state_loop ::
  "(u32 \<Rightarrow> 'w mem_scheme \<Rightarrow> 'w mem_scheme) \<Rightarrow> u32 \<Rightarrow> u32 \<Rightarrow> u32 \<Rightarrow> 'w mem_scheme \<Rightarrow> 'w mem_scheme option" where
  "set_state_loop f base len c s =
     (if c < len then set_state_loop f base len (c + 0x1000) (f (c + base) s) else Some s)"

definition mem_set_access :: "u8 \<Rightarrow> nat \<Rightarrow> u32 \<Rightarrow> u32 \<Rightarrow> u16 \<Rightarrow> 'w mem_scheme \<Rightarrow> (mem_error + 'w mem_scheme) option" where
  "mem_set_access bitmap mode base len access s =
     (if mode \<noteq> 0 \<and> mode \<noteq> 1 \<and> mode \<noteq> 3 \<and> 4 \<le> access AND 7 then Some (Inl OutOfStates)
      else
        let msk = (if mode \<noteq> 0 then 0x2d6b else 0x1084) in
        case set_state_loop (set_state_granule bitmap msk (access_smstate mode access)) base len 0 s of
          None \<Rightarrow> None
        | Some s1 \<Rightarrow> mem_mapping_recalc (unat base) (unat len) s1)"

definition mem_set_mem_state_both :: "u32 \<Rightarrow> u32 \<Rightarrow> u16 \<Rightarrow> 'w mem_scheme \<Rightarrow> (mem_error + 'w mem_scheme) option" where
  "mem_set_mem_state_both base len access = mem_set_access 15 0 base len access"

section \<open>The A20 line\<close>

definition full_rammask :: "'w mem_scheme \<Rightarrow> u32" where
  "full_rammask s = (let m = (if cpu_16bitbus (cpu s) then 0xffffff else 0xffffffff)
                     in if is6117 (cpu s) then m OR 0x03000000 else m)"

definition mem_a20_init :: "'w mem_scheme \<Rightarrow> 'w mem_scheme" where
  "mem_a20_init s =
     (if is286 (cpu s)
      then flushmmucache (s\<lparr>mem_a20_key := 0, mem_a20_alt := 0, mem_a20_state := 0, rammask := full_rammask s\<rparr>)
      else (flushmmucache (s\<lparr>rammask := 0xfffff\<rparr>))\<lparr>mem_a20_key := 0, mem_a20_alt := 0, mem_a20_state := 0\<rparr>)"

definition mem_a20_recalc :: "'w mem_scheme \<Rightarrow> 'w mem_scheme" where
  "mem_a20_recalc s =
     (if \<not> is286 (cpu s)
      then (flushmmucache (s\<lparr>rammask := 0xfffff\<rparr>))\<lparr>mem_a20_key := 0, mem_a20_alt := 0, mem_a20_state := 0\<rparr>
      else
        let state = mem_a20_key s OR mem_a20_alt s;
            s1 = (if state \<noteq> 0 \<and> mem_a20_state s = 0
                  then flushmmucache (s\<lparr>rammask := full_rammask s\<rparr>)
                  else if state = 0 \<and> mem_a20_state s \<noteq> 0
                  then flushmmucache (s\<lparr>rammask :=
                         (let m = (if cpu_16bitbus (cpu s) then 0xefffff else 0xffefffff)
                          in if is6117 (cpu s) then m OR 0x03000000 else m)\<rparr>)
                  else s)
        in s1\<lparr>mem_a20_state := state\<rparr>)"

section \<open>Set-up of the machine's RAM\<close>

definition ram_low_mapping :: ptr where "ram_low_mapping = 1"
definition ram_mid_mapping :: ptr where "ram_mid_mapping = 2"
definition ram_mid_mapping2 :: ptr where "ram_mid_mapping2 = 3"
definition ram_high_mapping :: ptr where "ram_high_mapping = 4"
definition ram_remapped_mapping :: ptr where "ram_remapped_mapping = 5"
definition ram_remapped_mapping2 :: ptr where "ram_remapped_mapping2 = 6"

definition mem_addr_is_ram :: "u32 \<Rightarrow> 'w mem_scheme \<Rightarrow> bool" where
  "mem_addr_is_ram addr s =
     (g_read (gran s (unat (drop_bit 12 addr))) \<in> {ram_low_mapping, ram_high_mapping, ram_mid_mapping,
        ram_mid_mapping2, ram_remapped_mapping})"

definition same_handlers :: "mem_fn \<Rightarrow> handlers" where
  "same_handlers f = \<lparr>h_read_b = f, h_read_w = f, h_read_l = f, h_write_b = f, h_write_w = f, h_write_l = f\<rparr>"

definition mem_add_ram_mapping :: "ptr \<Rightarrow> u32 \<Rightarrow> u32 \<Rightarrow> 'w mem_scheme \<Rightarrow> (mem_error + 'w mem_scheme) option" where
  "mem_add_ram_mapping m base len s =
     mem_mapping_add m base len (same_handlers RamFn) (ram s + ucast base) 2 NULL s"

definition mem_init_ram_mapping :: "ptr \<Rightarrow> u32 \<Rightarrow> u32 \<Rightarrow> 'w mem_scheme \<Rightarrow> (mem_error + 'w mem_scheme) option" where
  "mem_init_ram_mapping m base len s =
     then_do (mem_set_mem_state_both base len 0x0421 s) (mem_add_ram_mapping m base len)"

partial_function (option) close_maps :: "ptr \<Rightarrow> 'w mem_scheme \<Rightarrow> 'w mem_scheme option" where
  "close_maps m s =
     (if m = NULL then Some s
      else close_maps (m_next (maps s m)) (mod_map m (\<lambda>d. d\<lparr>m_prev := NULL, m_next := NULL\<rparr>) s))"

definition mem_close :: "'w mem_scheme \<Rightarrow> 'w mem_scheme option" where
  "mem_close s = map_option (\<lambda>s'. s'\<lparr>base_mapping := NULL, last_mapping := NULL\<rparr>)
     (close_maps (base_mapping s) s)"

definition mem_zero :: "nat \<Rightarrow> 'w mem_scheme \<Rightarrow> 'w mem_scheme" where
  "mem_zero n s = s\<lparr>host := (\<lambda>p. if unat (p - ram s) < n + 16 then 0 else host s p)\<rparr>"

text \<open>
  \<open>mem_reset\<close>: \<open>block\<close> is the address of the host memory that \<open>plat_mmap\<close> returns, 0 when it fails.
  The MTRR areas it frees belong to no modelled routine.
\<close>

definition reset_pages :: "'w mem_scheme \<Rightarrow> 'w mem_scheme" where
  "reset_pages s =
     (let m = (if is286 (cpu s)
               then (if cpu_16bitbus (cpu s) then (if is6117 (cpu s) then 32768 else 8192) else 1048576)
               else 256)
      in s\<lparr>pages_sz := m,
           tlb := (tlb s)\<lparr>page_lookup := (\<lambda>_. None), page_lookupp := (\<lambda>_. 4)\<rparr>,
           pages := (\<lambda>c. if c < m
             then \<lparr>pg_write = True,
                    pg_mem = (if push_bit 10 (mem_kb s) \<le> word_of_nat (c * 0x1000) then page_ff s
                              else ram s + word_of_nat (c * 0x1000)),
                    pg_dirty_mask = [0, 0, 0, 0], pg_block = [NULL, NULL, NULL, NULL]\<rparr>
             else pages s c)\<rparr>)"

definition reset_tables :: "'w mem_scheme \<Rightarrow> 'w mem_scheme" where
  "reset_tables s = s\<lparr>gran := (\<lambda>_. empty_granule), mem_wp := (\<lambda>_. 0), mem_wp_bus := (\<lambda>_. 0),
     base_mapping := NULL, last_mapping := NULL, mem_state := (\<lambda>_. [0, 0, 0, 0])\<rparr>"

definition reset_high :: "'w mem_scheme \<Rightarrow> (mem_error + 'w mem_scheme) option" where
  "reset_high s =
     (if mem_kb s \<le> 1024 then Some (Inr s)
      else if cpu_16bitbus (cpu s) \<and> \<not> is6117 (cpu s) \<and> 16256 < mem_kb s
      then mem_init_ram_mapping ram_high_mapping 0x100000 ((16256 - 1024) * 1024) s
      else if cpu_16bitbus (cpu s) \<and> is6117 (cpu s) \<and> 65408 < mem_kb s
      then mem_init_ram_mapping ram_high_mapping 0x100000 ((65408 - 1024) * 1024) s
      else mem_init_ram_mapping ram_high_mapping 0x100000 ((mem_kb s - 1024) * 1024) s)"

definition reset_mid :: "'w mem_scheme \<Rightarrow> (mem_error + 'w mem_scheme) option" where
  "reset_mid s =
     (if mem_kb s \<le> 768 then Some (Inr s)
      else then_do (mem_add_ram_mapping ram_mid_mapping 0xa0000 0x60000 s)
        (\<lambda>s1. then_do (mem_add_ram_mapping ram_mid_mapping2 0xa0000 0x60000 s1)
        (mem_mapping_disable ram_mid_mapping2)))"

definition reset_remapped :: "ptr \<Rightarrow> mem_fn \<Rightarrow> u64 \<Rightarrow> 'w mem_scheme \<Rightarrow> (mem_error + 'w mem_scheme) option" where
  "reset_remapped m f off s =
     then_do (mem_mapping_add m (mem_kb s * 1024) (256 * 1024) (same_handlers f) (ram s + off) 2 NULL s)
       (mem_mapping_disable m)"

definition mem_reset :: "u64 \<Rightarrow> 'w mem_scheme \<Rightarrow> (mem_error + 'w mem_scheme) option" where
  "mem_reset block s =
     (if block = 0 then Some (Inl NoMemory)
      else
        let s1 = s\<lparr>host := (\<lambda>p. if unat (p - page_ff s) < 4096 then 0xff else host s p), ram := block\<rparr>;
            s2 = reset_tables (reset_pages (mem_zero (1024 * unat (mem_kb s)) s1))
        in then_do (mem_init_ram_mapping ram_low_mapping 0
                     (if 640 < mem_kb s then 0xa0000 else mem_kb s * 1024) s2)
           (\<lambda>s3. then_do (reset_high s3)
           (\<lambda>s4. then_do (reset_mid s4)
           (\<lambda>s5. then_do (reset_remapped ram_remapped_mapping RemappedFn 0xa0000 s5)
           (\<lambda>s6. then_do (reset_remapped ram_remapped_mapping2 Remapped2Fn 0xd0000 s6)
           (\<lambda>s7. Some (Inr (mem_a20_init s7))))))))"

end
