(* ===== verification/Mem_Tables.thy ===== *)
theory Mem_Tables
  imports Mem
begin

text \<open>
  The lookup tables of \<open>mem.c\<close> against their specification: each entry names the last mapping in the
  list that covers the page and may serve the access. \<open>mem_mapping_recalc\<close> clears its range, but it
  enters a mapping from the mapping's own base, below the range as well. So the tables stay exact
  after every operation on the list only as long as a mapping that shares a page with an earlier one
  reaches at least as far (\<open>ordered\<close>); the example at the end shows what happens otherwise.
\<close>

section \<open>Loops over granules\<close>

lemma granules_aligned:
  assumes "0x1000 dvd lo" "c \<in> set (granules lo hi)"
  shows "0x1000 dvd c" "lo \<le> c" "c < hi"
  using assms by (auto simp: granules_def)

lemma granules_pages:
  assumes "0x1000 dvd lo"
  shows "(\<lambda>c. c div 0x1000) ` set (granules lo hi) = {p. lo \<le> p * 0x1000 \<and> p * 0x1000 < hi}"
proof (intro set_eqI iffI)
  fix p assume "p \<in> (\<lambda>c. c div 0x1000) ` set (granules lo hi)"
  then obtain c where "c \<in> set (granules lo hi)" "p = c div 0x1000" by auto
  then show "p \<in> {p. lo \<le> p * 0x1000 \<and> p * 0x1000 < hi}"
    using granules_aligned [OF assms] by fastforce
next
  fix p assume p: "p \<in> {p. lo \<le> p * 0x1000 \<and> p * 0x1000 < hi}"
  obtain b where b: "lo = 0x1000 * b" using assms by (elim dvdE)
  have "p * 0x1000 = lo + 0x1000 * (p - b)" "p - b < (hi - lo + 0xfff) div 0x1000"
    using p b by auto
  then have "p * 0x1000 \<in> set (granules lo hi)" by (auto simp: granules_def)
  then show "p \<in> (\<lambda>c. c div 0x1000) ` set (granules lo hi)" by force
qed

lemma granules_distinct: "distinct (map (\<lambda>c. c div 0x1000) (granules lo hi))"
  by (simp add: granules_def distinct_map inj_on_def)

lemma granules_in_table:
  assumes "0x1000 dvd lo" "hi \<le> 0x100000000"
  shows "in_table (granules lo hi)"
  using granules_aligned [OF assms(1), of _ hi] assms(2) by (fastforce simp: in_table_def list_all_iff)

lemma gran_update_same [simp]: "s\<lparr>gran := gran s\<rparr> = s"
  by simp

text \<open>A loop that updates one table entry per granule.\<close>

lemma fold_granules:
  assumes "\<And>c s. step c s = s\<lparr>gran := (gran s)(c div 0x1000 := f c s (gran s (c div 0x1000)))\<rparr>"
    and "\<And>c s g. f c (s\<lparr>gran := g\<rparr>) = f c s"
    and "distinct (map (\<lambda>c. c div 0x1000) cs)" "\<forall>c \<in> set cs. 0x1000 dvd c"
  shows "fold step cs s = s\<lparr>gran := (\<lambda>p. if p \<in> (\<lambda>c. c div 0x1000) ` set cs
           then f (p * 0x1000) s (gran s p) else gran s p)\<rparr>"
  using assms(3,4)
proof (induction cs arbitrary: s)
  case (Cons c cs)
  have "(c div 0x1000) * 0x1000 = c" using Cons.prems(2) by simp
  with Cons show ?case
    by (auto simp: assms(1,2) fun_eq_iff intro!: arg_cong [where f = "\<lambda>g. s\<lparr>gran := g\<rparr>"])
qed simp

lemma enter_gran [simp]: "enter m c (s\<lparr>gran := g\<rparr>) = enter m c s"
  by (simp add: enter_def state_index_def fun_eq_iff)

lemma fold_enter:
  assumes "0x1000 dvd lo"
  shows "fold (enter_granule m) (granules lo hi) s = s\<lparr>gran := (\<lambda>p.
     if lo \<le> p * 0x1000 \<and> p * 0x1000 < hi then enter m (p * 0x1000) s (gran s p) else gran s p)\<rparr>"
proof -
  have "fold (enter_granule m) (granules lo hi) s =
      s\<lparr>gran := (\<lambda>p. if p \<in> (\<lambda>c. c div 0x1000) ` set (granules lo hi)
           then enter m (p * 0x1000) s (gran s p) else gran s p)\<rparr>"
    using granules_distinct granules_aligned(1) [OF assms]
    by (intro fold_granules [where f = "enter m"]) (auto simp: enter_granule_def)
  then show ?thesis by (simp only: granules_pages [OF assms] mem_Collect_eq)
qed

lemma fold_clear:
  assumes "0x1000 dvd lo"
  shows "fold clear_granule (granules lo hi) s = s\<lparr>gran := (\<lambda>p.
     if lo \<le> p * 0x1000 \<and> p * 0x1000 < hi then empty_granule else gran s p)\<rparr>"
proof -
  have "fold clear_granule (granules lo hi) s =
      s\<lparr>gran := (\<lambda>p. if p \<in> (\<lambda>c. c div 0x1000) ` set (granules lo hi) then empty_granule else gran s p)\<rparr>"
    using granules_distinct granules_aligned(1) [OF assms]
    by (intro fold_granules [where f = "\<lambda>_ _ _. empty_granule"]) (auto simp: clear_granule_def)
  then show ?thesis by (simp only: granules_pages [OF assms] mem_Collect_eq)
qed

section \<open>The specification of the tables\<close>

definition covers :: "mem_mapping \<Rightarrow> nat \<Rightarrow> bool" where
  "covers d p \<longleftrightarrow> m_enable d \<and> unat (m_base d) \<le> p * 0x1000 \<and> p * 0x1000 < unat (m_base d) + unat (m_size d)"

definition spec_granule :: "'w mem_scheme \<Rightarrow> ptr list \<Rightarrow> nat \<Rightarrow> granule" where
  "spec_granule s ms p =
     fold (\<lambda>m g. if covers (maps s m) p then enter m (p * 0x1000) s g else g) ms empty_granule"

text \<open>The last mapping of the list that satisfies \<open>P\<close>, \<open>NULL\<close> when there is none.\<close>

definition pick :: "(ptr \<Rightarrow> bool) \<Rightarrow> 'a \<Rightarrow> (ptr \<Rightarrow> 'a) \<Rightarrow> ptr list \<Rightarrow> 'a" where
  "pick P x f ms = (if filter P ms = [] then x else f (last (filter P ms)))"

definition winner :: "(ptr \<Rightarrow> bool) \<Rightarrow> ptr list \<Rightarrow> ptr" where
  "winner P ms = (if filter P ms = [] then NULL else last (filter P ms))"

lemma pick_snoc [simp]: "pick P x f (ms @ [m]) = (if P m then f m else pick P x f ms)"
  by (simp add: pick_def)

lemma pick_Nil [simp]: "pick P x f [] = x"
  by (simp add: pick_def)

lemma winner_pick: "winner P ms = pick P NULL (\<lambda>m. m) ms"
  by (simp add: winner_def pick_def)

text \<open>Choosing again among those that reach a bound, when later ones reach it whenever earlier ones do.\<close>

lemma pick_again:
  "sorted_wrt (\<lambda>m n. P m \<and> P n \<and> R m \<longrightarrow> R n) ms \<Longrightarrow>
   pick (\<lambda>m. P m \<and> R m) (pick P x f ms) f ms = pick P x f ms"
proof (induction ms rule: rev_induct)
  case (snoc m ms)
  then have ih: "pick (\<lambda>m. P m \<and> R m) (pick P x f ms) f ms = pick P x f ms"
    and le: "\<forall>k \<in> set ms. P k \<and> P m \<and> R k \<longrightarrow> R m" by (auto simp: sorted_wrt_append)
  show ?case
  proof (cases "P m \<and> \<not> R m")
    case True
    then have "filter (\<lambda>m. P m \<and> R m) ms = []" using le by (auto simp: filter_empty_conv)
    then show ?thesis using True by (simp add: pick_def)
  qed (use ih in auto)
qed simp

lemma winner_snoc [simp]: "winner P (ms @ [m]) = (if P m then m else winner P ms)"
  by (simp add: winner_def)

lemma winner_Nil [simp]: "winner P [] = NULL"
  by (simp add: winner_def)

text \<open>The accesses the code lets a mapping serve at page \<open>p\<close>, in access state \<open>n\<close>.\<close>

definition may_read :: "nat \<Rightarrow> 'w mem_scheme \<Rightarrow> nat \<Rightarrow> ptr \<Rightarrow> bool" where
  "may_read n s p m \<longleftrightarrow> covers (maps s m) p \<and> has_read (maps s m)
     \<and> mem_mapping_access_allowed (m_flags (maps s m)) (state_r (mem_state s p ! n))"

definition may_write :: "nat \<Rightarrow> (nat \<Rightarrow> u8) \<Rightarrow> 'w mem_scheme \<Rightarrow> nat \<Rightarrow> ptr \<Rightarrow> bool" where
  "may_write n wp s p m \<longleftrightarrow> covers (maps s m) p \<and> has_write (maps s m) \<and> wp p = 0
     \<and> mem_mapping_access_allowed (m_flags (maps s m)) (state_w (mem_state s p ! n))"

definition may_exec :: "nat \<Rightarrow> 'w mem_scheme \<Rightarrow> nat \<Rightarrow> ptr \<Rightarrow> bool" where
  "may_exec n s p m \<longleftrightarrow> covers (maps s m) p \<and> m_exec (maps s m) \<noteq> 0
     \<and> mem_mapping_access_allowed (m_flags (maps s m)) (state_x (mem_state s p ! n))"

definition page_exec :: "'w mem_scheme \<Rightarrow> nat \<Rightarrow> ptr \<Rightarrow> u64" where
  "page_exec s p m = (if m = NULL then 0
     else m_exec (maps s m) + (of_nat (p * 0x1000) - ucast (m_base (maps s m))))"

lemma enter_fields:
  fixes s :: "'w mem_scheme"
  defines "n \<equiv> state_index s"
  shows "covers (maps s m) p \<Longrightarrow> g_read (enter m (p * 0x1000) s g) = (if may_read n s p m then m else g_read g)"
    "covers (maps s m) p \<Longrightarrow> g_read_bus (enter m (p * 0x1000) s g) = (if may_read (n + 2) s p m then m else g_read_bus g)"
    "covers (maps s m) p \<Longrightarrow> g_write (enter m (p * 0x1000) s g) = (if may_write n (mem_wp s) s p m then m else g_write g)"
    "covers (maps s m) p \<Longrightarrow> g_write_bus (enter m (p * 0x1000) s g)
       = (if may_write (n + 2) (mem_wp_bus s) s p m then m else g_write_bus g)"
    "m \<noteq> NULL \<Longrightarrow> covers (maps s m) p \<Longrightarrow>
       g_exec (enter m (p * 0x1000) s g) = (if may_exec n s p m then page_exec s p m else g_exec g)"
  by (simp_all add: n_def enter_def Let_def may_read_def may_write_def may_exec_def page_exec_def
      if_distrib [of g_read] if_distrib [of g_read_bus] if_distrib [of g_write]
      if_distrib [of g_write_bus] if_distrib [of g_exec] conj_ac cong: if_cong split del: if_split) auto

text \<open>A mapping the tables can hold exactly: page aligned, without aliases, inside 4 GB.\<close>

definition plain_mapping :: "mem_mapping \<Rightarrow> bool" where
  "plain_mapping d \<longleftrightarrow> 0x1000 dvd unat (m_base d) \<and> m_base_ignore d = 0
     \<and> unat (m_base d) + unat (m_size d) \<le> 0x100000000"

fun chain :: "(ptr \<Rightarrow> mem_mapping) \<Rightarrow> ptr \<Rightarrow> ptr list \<Rightarrow> bool" where
  "chain h p [] \<longleftrightarrow> p = NULL"
| "chain h p (m # ms) \<longleftrightarrow> p = m \<and> m \<noteq> NULL \<and> chain h (m_next (h m)) ms"

definition map_end :: "mem_mapping \<Rightarrow> nat" where
  "map_end d = unat (m_base d) + unat (m_size d)"

lemma map_granules_plain:
  assumes "plain_mapping d"
  shows "map_granules base len d = (if m_enable d \<and> unat (m_base d) < base + len \<and> base < map_end d
     then granules (unat (m_base d)) (min (map_end d) (base + len)) else [])"
  using assms by (auto simp: map_granules_def plain_mapping_def map_end_def Let_def)

text \<open>The pages at which the recalculation of a range enters a mapping: not only those of the range.\<close>

definition entered :: "nat \<Rightarrow> nat \<Rightarrow> mem_mapping \<Rightarrow> nat \<Rightarrow> bool" where
  "entered base len d p \<longleftrightarrow> covers d p \<and> p * 0x1000 < base + len \<and> base < map_end d"

lemma fold_enter_mapping:
  assumes "plain_mapping (maps s m)" "base + len \<le> 0x100000000"
  shows "in_table (map_granules base len (maps s m))"
    and "fold (enter_granule m) (map_granules base len (maps s m)) s = s\<lparr>gran := (\<lambda>p.
       if entered base len (maps s m) p then enter m (p * 0x1000) s (gran s p) else gran s p)\<rparr>"
proof -
  let ?d = "maps s m"
  have a: "0x1000 dvd unat (m_base ?d)" using assms by (simp add: plain_mapping_def)
  show "in_table (map_granules base len ?d)"
    using granules_in_table [OF a, of "min (map_end ?d) (base + len)"] assms(2)
    by (simp add: map_granules_plain [OF assms(1)]) (simp add: in_table_def)
  show "fold (enter_granule m) (map_granules base len ?d) s = s\<lparr>gran := (\<lambda>p.
       if entered base len ?d p then enter m (p * 0x1000) s (gran s p) else gran s p)\<rparr>"
  proof (cases "m_enable ?d \<and> unat (m_base ?d) < base + len \<and> base < map_end ?d")
    case True
    then have "entered base len ?d p \<longleftrightarrow> unat (m_base ?d) \<le> p * 0x1000 \<and> p * 0x1000 < min (map_end ?d) (base + len)" for p
      by (auto simp: entered_def covers_def map_end_def)
    then show ?thesis
      using True by (simp only: map_granules_plain [OF assms(1)] if_True simp_thms fold_enter [OF a])
  next
    case False
    then have "\<not> entered base len ?d p" for p by (auto simp: entered_def covers_def map_end_def)
    then show ?thesis
      using False by (auto simp: map_granules_plain [OF assms(1)] cong: if_cong)
  qed
qed

definition enter_list :: "nat \<Rightarrow> nat \<Rightarrow> 'w mem_scheme \<Rightarrow> nat \<Rightarrow> ptr list \<Rightarrow> granule \<Rightarrow> granule" where
  "enter_list base len s p ms =
     fold (\<lambda>m g. if entered base len (maps s m) p then enter m (p * 0x1000) s g else g) ms"

lemma enter_list_simps [simp]:
  "enter_list base len s p [] g = g"
  "enter_list base len s p (m # ms) g = enter_list base len s p ms
     (if entered base len (maps s m) p then enter m (p * 0x1000) s g else g)"
  "enter_list base len (s\<lparr>gran := h\<rparr>) p ms = enter_list base len s p ms"
  by (simp_all add: enter_list_def cong: if_cong)

lemma recalc_walk_chain:
  assumes "chain (maps s) p ms" "\<forall>m \<in> set ms. plain_mapping (maps s m)" "base + len \<le> 0x100000000"
  shows "recalc_walk base len p s = Some (Inr (s\<lparr>gran := (\<lambda>p. enter_list base len s p ms (gran s p))\<rparr>))"
  using assms(1,2)
proof (induction ms arbitrary: p s)
  case Nil
  then show ?case by (subst recalc_walk.simps) simp
next
  case (Cons m ms)
  from Cons.prems have m: "p = m" "m \<noteq> NULL" "plain_mapping (maps s m)" by auto
  note step = fold_enter_mapping [OF m(3) assms(3)]
  let ?s = "fold (enter_granule m) (map_granules base len (maps s m)) s"
  have maps: "maps ?s = maps s" by (simp add: step(2))
  have "recalc_walk base len p s = recalc_walk base len (m_next (maps s m)) ?s"
    using m step(1) by (subst recalc_walk.simps) simp
  also have "\<dots> = Some (Inr (?s\<lparr>gran := (\<lambda>p. enter_list base len ?s p ms (gran ?s p))\<rparr>))"
    using Cons.prems by (intro Cons.IH) (simp_all only: maps, auto)
  finally show ?case unfolding step(2) by simp
qed

lemma mem_mapping_recalc_chain:
  assumes "chain (maps s) (base_mapping s) ms" "\<forall>m \<in> set ms. plain_mapping (maps s m)"
    "0x1000 dvd base" "base + len \<le> 0x100000000"
  shows "mem_mapping_recalc base len s = Some (Inr (
     if len = 0 \<or> ms = [] then s
     else flushmmucache_nopc (s\<lparr>gran := (\<lambda>p. enter_list base len s p ms
            (if base \<le> p * 0x1000 \<and> p * 0x1000 < base + len then empty_granule else gran s p))\<rparr>)))"
proof -
  have "base_mapping s = NULL \<longleftrightarrow> ms = []" using assms(1) by (cases ms) auto
  moreover have "in_table (granules base (base + len))" using granules_in_table assms(3,4) by blast
  moreover have "recalc_walk base len (base_mapping s) (fold clear_granule (granules base (base + len)) s)
    = Some (Inr (s\<lparr>gran := (\<lambda>p. enter_list base len s p ms
            (if base \<le> p * 0x1000 \<and> p * 0x1000 < base + len then empty_granule else gran s p))\<rparr>))"
    unfolding fold_clear [OF assms(3)]
    by (subst recalc_walk_chain [where ms = ms]) (use assms in simp_all)
  ultimately show ?thesis by (simp add: mem_mapping_recalc_def Let_def)
qed

text \<open>In the range, and from there up, this is the specification.\<close>

lemma enter_list_in_range:
  assumes "base \<le> p * 0x1000" "p * 0x1000 < base + len"
  shows "enter_list base len s p ms empty_granule = spec_granule s ms p"
proof -
  have "entered base len d p \<longleftrightarrow> covers d p" for d
    using assms by (auto simp: entered_def covers_def map_end_def)
  then show ?thesis by (simp add: enter_list_def spec_granule_def)
qed

lemma enter_list_above: "base + len \<le> p * 0x1000 \<Longrightarrow> enter_list base len s p ms g = g"
proof -
  assume "base + len \<le> p * 0x1000"
  then have "\<not> entered base len d p" for d by (auto simp: entered_def)
  then show ?thesis by (induction ms arbitrary: g) simp_all
qed

section \<open>When entering again is harmless\<close>

text \<open>Two mappings that may serve the same kind of access at the same page.\<close>

definition clash :: "'w mem_scheme \<Rightarrow> nat \<Rightarrow> ptr \<Rightarrow> ptr \<Rightarrow> bool" where
  "clash s p m k \<longleftrightarrow> (let n = state_index s in
     may_read n s p m \<and> may_read n s p k \<or> may_read (n + 2) s p m \<and> may_read (n + 2) s p k
   \<or> may_write n (mem_wp s) s p m \<and> may_write n (mem_wp s) s p k
   \<or> may_write (n + 2) (mem_wp_bus s) s p m \<and> may_write (n + 2) (mem_wp_bus s) s p k
   \<or> may_exec n s p m \<and> may_exec n s p k)"

text \<open>Where two mappings clash, the later one in the list reaches at least as far.\<close>

definition ordered :: "'w mem_scheme \<Rightarrow> ptr list \<Rightarrow> bool" where
  "ordered s ms \<longleftrightarrow> sorted_wrt (\<lambda>m k. \<forall>p. clash s p m k \<longrightarrow> map_end (maps s m) \<le> map_end (maps s k)) ms"

lemma enter_list_fields:
  fixes s :: "'w mem_scheme" and p base len :: nat and g :: granule
  assumes "NULL \<notin> set ms"
  defines "n \<equiv> state_index s"
    and "R \<equiv> \<lambda>m. p * 0x1000 < base + len \<and> base < map_end (maps s m)"
    and "G \<equiv> enter_list base len s p ms g"
  shows "g_read G = pick (\<lambda>m. may_read n s p m \<and> R m) (g_read g) (\<lambda>m. m) ms"
    and "g_read_bus G = pick (\<lambda>m. may_read (n + 2) s p m \<and> R m) (g_read_bus g) (\<lambda>m. m) ms"
    and "g_write G = pick (\<lambda>m. may_write n (mem_wp s) s p m \<and> R m) (g_write g) (\<lambda>m. m) ms"
    and "g_write_bus G = pick (\<lambda>m. may_write (n + 2) (mem_wp_bus s) s p m \<and> R m) (g_write_bus g) (\<lambda>m. m) ms"
    and "g_exec G = pick (\<lambda>m. may_exec n s p m \<and> R m) (g_exec g) (page_exec s p) ms"
proof -
  have e: "entered base len (maps s m) p \<longleftrightarrow> covers (maps s m) p \<and> R m" for m
    by (auto simp: entered_def R_def)
  have not: "\<not> covers (maps s m) p \<Longrightarrow> \<not> may_read k s p m \<and> \<not> may_write k wp s p m \<and> \<not> may_exec k s p m" for m k wp
    by (simp add: may_read_def may_write_def may_exec_def)
  have "g_read G = pick (\<lambda>m. may_read n s p m \<and> R m) (g_read g) (\<lambda>m. m) ms
    \<and> g_read_bus G = pick (\<lambda>m. may_read (n + 2) s p m \<and> R m) (g_read_bus g) (\<lambda>m. m) ms
    \<and> g_write G = pick (\<lambda>m. may_write n (mem_wp s) s p m \<and> R m) (g_write g) (\<lambda>m. m) ms
    \<and> g_write_bus G = pick (\<lambda>m. may_write (n + 2) (mem_wp_bus s) s p m \<and> R m) (g_write_bus g) (\<lambda>m. m) ms
    \<and> g_exec G = pick (\<lambda>m. may_exec n s p m \<and> R m) (g_exec g) (page_exec s p) ms"
    using assms(1) unfolding G_def
  proof (induction ms rule: rev_induct)
    case (snoc m ms)
    then have m: "m \<noteq> NULL" by auto
    show ?case
    proof (cases "covers (maps s m) p \<and> R m")
      case True
      then show ?thesis using snoc m
        by (simp add: enter_list_def e enter_fields n_def)
    next
      case False
      then show ?thesis using snoc not [of m] by (auto simp: enter_list_def e)
    qed
  qed simp
  then show "g_read G = pick (\<lambda>m. may_read n s p m \<and> R m) (g_read g) (\<lambda>m. m) ms"
    "g_read_bus G = pick (\<lambda>m. may_read (n + 2) s p m \<and> R m) (g_read_bus g) (\<lambda>m. m) ms"
    "g_write G = pick (\<lambda>m. may_write n (mem_wp s) s p m \<and> R m) (g_write g) (\<lambda>m. m) ms"
    "g_write_bus G = pick (\<lambda>m. may_write (n + 2) (mem_wp_bus s) s p m \<and> R m) (g_write_bus g) (\<lambda>m. m) ms"
    "g_exec G = pick (\<lambda>m. may_exec n s p m \<and> R m) (g_exec g) (page_exec s p) ms"
    by blast+
qed

text \<open>The specification, entry by entry.\<close>

lemma spec_granule_fields:
  fixes s :: "'w mem_scheme" and p :: nat
  assumes "NULL \<notin> set ms"
  defines "n \<equiv> state_index s" and "G \<equiv> spec_granule s ms p"
  shows "g_read G = pick (may_read n s p) NULL (\<lambda>m. m) ms"
    and "g_read_bus G = pick (may_read (n + 2) s p) NULL (\<lambda>m. m) ms"
    and "g_write G = pick (may_write n (mem_wp s) s p) NULL (\<lambda>m. m) ms"
    and "g_write_bus G = pick (may_write (n + 2) (mem_wp_bus s) s p) NULL (\<lambda>m. m) ms"
    and "g_exec G = pick (may_exec n s p) 0 (page_exec s p) ms"
proof -
  let ?b = "p * 0x1000"
  have r: "(may_read k s p m \<and> ?b < ?b + 1 \<and> ?b < map_end (maps s m)) = may_read k s p m"
    "(may_write k wp s p m \<and> ?b < ?b + 1 \<and> ?b < map_end (maps s m)) = may_write k wp s p m"
    "(may_exec k s p m \<and> ?b < ?b + 1 \<and> ?b < map_end (maps s m)) = may_exec k s p m" for k m wp
    by (auto simp: may_read_def may_write_def may_exec_def covers_def map_end_def)
  have "G = enter_list ?b 1 s p ms empty_granule"
    unfolding G_def by (rule enter_list_in_range [symmetric]) simp_all
  then show "g_read G = pick (may_read n s p) NULL (\<lambda>m. m) ms"
    "g_read_bus G = pick (may_read (n + 2) s p) NULL (\<lambda>m. m) ms"
    "g_write G = pick (may_write n (mem_wp s) s p) NULL (\<lambda>m. m) ms"
    "g_write_bus G = pick (may_write (n + 2) (mem_wp_bus s) s p) NULL (\<lambda>m. m) ms"
    "g_exec G = pick (may_exec n s p) 0 (page_exec s p) ms"
    using enter_list_fields [OF assms(1), where s = s and p = p and base = ?b and len = 1 and g = empty_granule]
    by (simp_all only: r n_def) (simp_all add: empty_granule_def)
qed

lemma enter_list_again:
  assumes "NULL \<notin> set ms" "ordered s ms"
  shows "enter_list base len s p ms (spec_granule s ms p) = spec_granule s ms p"
proof -
  have again: "pick (\<lambda>m. P m \<and> p * 0x1000 < base + len \<and> base < map_end (maps s m)) (pick P x f ms) f ms = pick P x f ms"
    if "\<And>m k. P m \<Longrightarrow> P k \<Longrightarrow> clash s p m k" for P :: "ptr \<Rightarrow> bool" and x :: 'z and f
  proof (rule pick_again)
    show "sorted_wrt (\<lambda>m k. P m \<and> P k \<and> (p * 0x1000 < base + len \<and> base < map_end (maps s m))
        \<longrightarrow> p * 0x1000 < base + len \<and> base < map_end (maps s k)) ms"
      using assms(2) that unfolding ordered_def by (elim sorted_wrt_mono_rel [rotated]) fastforce
  qed
  note e = enter_list_fields [OF assms(1), where s = s and p = p and base = base and len = len]
  note f = spec_granule_fields [OF assms(1), where s = s and p = p]
  show ?thesis
  proof (rule granule.equality)
    show "g_exec (enter_list base len s p ms (spec_granule s ms p)) = g_exec (spec_granule s ms p)"
      unfolding e f by (rule again) (simp add: clash_def Let_def)
    show "g_write (enter_list base len s p ms (spec_granule s ms p)) = g_write (spec_granule s ms p)"
      unfolding e f by (rule again) (simp add: clash_def Let_def)
    show "g_read (enter_list base len s p ms (spec_granule s ms p)) = g_read (spec_granule s ms p)"
      unfolding e f by (rule again) (simp add: clash_def Let_def)
    show "g_write_bus (enter_list base len s p ms (spec_granule s ms p)) = g_write_bus (spec_granule s ms p)"
      unfolding e f by (rule again) (simp add: clash_def Let_def)
    show "g_read_bus (enter_list base len s p ms (spec_granule s ms p)) = g_read_bus (spec_granule s ms p)"
      unfolding e f by (rule again) (simp add: clash_def Let_def)
  qed simp
qed

section \<open>Operations keep the tables exact\<close>

text \<open>
  \<open>linked\<close>: the list is \<open>ms\<close>, and its mappings are plain. \<open>mapped\<close>: they are also ordered, and the
  tables agree with the specification.
\<close>

definition linked :: "'w mem_scheme \<Rightarrow> ptr list \<Rightarrow> bool" where
  "linked s ms \<longleftrightarrow> chain (maps s) (base_mapping s) ms \<and> distinct ms
     \<and> last_mapping s = (if ms = [] then NULL else last ms)
     \<and> (ms \<noteq> [] \<longrightarrow> m_prev (maps s (hd ms)) = NULL) \<and> (\<forall>m \<in> set ms. plain_mapping (maps s m))"

definition mapped :: "'w mem_scheme \<Rightarrow> ptr list \<Rightarrow> bool" where
  "mapped s ms \<longleftrightarrow> linked s ms \<and> ordered s ms \<and> (\<forall>p. gran s p = spec_granule s ms p)"

lemma chain_unique: "chain h p ms \<Longrightarrow> chain h p ns \<Longrightarrow> ms = ns"
proof (induction ms arbitrary: p ns)
  case Nil
  then show ?case by (cases ns) auto
next
  case (Cons m ms)
  then show ?case by (cases ns) auto
qed

lemma chain_not_NULL: "chain h p ms \<Longrightarrow> NULL \<notin> set ms"
  by (induction ms arbitrary: p) auto

lemma chain_ends:
  assumes "chain h p ms"
  shows "p = NULL \<longleftrightarrow> ms = []"
    and "ms \<noteq> [] \<Longrightarrow> hd ms = p \<and> last ms \<noteq> NULL \<and> m_next (h (last ms)) = NULL"
proof -
  show "p = NULL \<longleftrightarrow> ms = []" using assms by (cases ms) auto
  show "ms \<noteq> [] \<Longrightarrow> hd ms = p \<and> last ms \<noteq> NULL \<and> m_next (h (last ms)) = NULL"
    using assms
  proof (induction ms arbitrary: p)
    case (Cons m ms)
    then show ?case by (cases ms) auto
  qed simp
qed

lemma chain_cong: "(\<And>m. m \<in> set ms \<Longrightarrow> m_next (h' m) = m_next (h m)) \<Longrightarrow> chain h' p ms = chain h p ms"
  by (induction ms arbitrary: p) auto

lemma chain_snoc:
  "chain h p ms \<Longrightarrow> distinct ms \<Longrightarrow> m \<notin> set ms \<Longrightarrow> m \<noteq> NULL \<Longrightarrow> ms \<noteq> [] \<Longrightarrow>
   chain (h(last ms := (h (last ms))\<lparr>m_next := m\<rparr>, m := d\<lparr>m_next := NULL\<rparr>)) p (ms @ [m])"
proof (induction ms arbitrary: p)
  case (Cons n ms)
  then show ?case
    by (cases "ms = []") (auto simp: last_in_set dest: last_in_set)
qed simp

text \<open>Two mappings that have the same effect on the tables.\<close>

definition same_effect :: "mem_mapping \<Rightarrow> mem_mapping \<Rightarrow> bool" where
  "same_effect d d' \<longleftrightarrow> m_enable d = m_enable d' \<and> m_base d = m_base d' \<and> m_size d = m_size d'
     \<and> m_exec d = m_exec d' \<and> m_flags d = m_flags d' \<and> has_read d = has_read d' \<and> has_write d = has_write d'"

lemma same_effect_refl [simp]: "same_effect d d"
  by (simp add: same_effect_def)

lemma same_effect_covers: "same_effect d d' \<Longrightarrow> covers d = covers d'"
  by (simp add: same_effect_def covers_def fun_eq_iff)

lemma enter_cong:
  assumes "same_effect (maps s' m) (maps s m)" "cpu s' = cpu s"
    "mem_state s' (c div 0x1000) = mem_state s (c div 0x1000)"
    "mem_wp s' (c div 0x1000) = mem_wp s (c div 0x1000)"
    "mem_wp_bus s' (c div 0x1000) = mem_wp_bus s (c div 0x1000)"
  shows "enter m c s' = enter m c s"
  using assms by (intro ext) (simp only: enter_def state_index_def same_effect_def Let_def simp_thms)

lemma spec_granule_cong:
  assumes "\<And>m. m \<in> set ms \<Longrightarrow> covers (maps s' m) p = covers (maps s m) p"
    "\<And>m. m \<in> set ms \<Longrightarrow> covers (maps s m) p \<Longrightarrow> same_effect (maps s' m) (maps s m)"
    "cpu s' = cpu s" "mem_state s' p = mem_state s p" "mem_wp s' p = mem_wp s p"
    "mem_wp_bus s' p = mem_wp_bus s p"
  shows "spec_granule s' ms p = spec_granule s ms p"
  unfolding spec_granule_def
  using assms by (intro fold_cong refl) (auto simp: fun_eq_iff intro!: enter_cong [THEN fun_cong])

lemma same_effect_may:
  assumes "same_effect (maps s' m) (maps s m)" "mem_state s' = mem_state s"
  shows "may_read n s' p m = may_read n s p m" "may_write n wp s' p m = may_write n wp s p m"
    "may_exec n s' p m = may_exec n s p m"
  using assms(1) unfolding may_read_def may_write_def may_exec_def covers_def same_effect_def assms(2)
  by simp_all

lemma ordered_cong:
  assumes "\<And>m. m \<in> set ms \<Longrightarrow> same_effect (maps s' m) (maps s m)"
    "cpu s' = cpu s" "mem_state s' = mem_state s" "mem_wp s' = mem_wp s" "mem_wp_bus s' = mem_wp_bus s"
  shows "ordered s' ms = ordered s ms"
proof -
  have i: "state_index s' = state_index s" using assms(2) by (simp add: state_index_def)
  have "clash s' p m k = clash s p m k" if "m \<in> set ms" "k \<in> set ms" for p m k
    unfolding clash_def Let_def i assms(4,5)
    by (simp only: same_effect_may [OF assms(1) [OF that(1)] assms(3)] same_effect_may [OF assms(1) [OF that(2)] assms(3)])
  moreover have "map_end (maps s' m) = map_end (maps s m)" if "m \<in> set ms" for m
    using assms(1) [OF that] by (simp add: map_end_def same_effect_def)
  ultimately show ?thesis
    unfolding ordered_def by (intro iffI; elim sorted_wrt_mono_rel [rotated]) auto
qed

lemma ordered_tables [simp]:
  "ordered (s\<lparr>gran := g\<rparr>) ms = ordered s ms" "ordered (s\<lparr>tlb := t\<rparr>) ms = ordered s ms"
  "ordered (flushmmucache_nopc s) ms = ordered s ms"
  by (rule ordered_cong; simp add: flushmmucache_nopc_def)+

lemma spec_granule_tables [simp]:
  "spec_granule (s\<lparr>gran := g\<rparr>) = spec_granule s" "spec_granule (s\<lparr>tlb := t\<rparr>) = spec_granule s"
  by (intro ext spec_granule_cong; simp)+

lemma linked_tables [simp]:
  "linked (s\<lparr>gran := g\<rparr>) ms = linked s ms" "linked (s\<lparr>tlb := t\<rparr>) ms = linked s ms"
  by (simp_all add: linked_def)

lemma flush_nopc_tlb: "flushmmucache_nopc s = s\<lparr>tlb := tlb (flushmmucache_nopc s)\<rparr>"
  by (simp add: flushmmucache_nopc_def)

lemma linked_maps [simp]:
  "linked (flushmmucache_nopc s) ms = linked s ms"
  "spec_granule (flushmmucache_nopc s) = spec_granule s"
  "gran (flushmmucache_nopc s) = gran s"
  by (simp_all add: flushmmucache_nopc_def)

text \<open>Recalculating a range repairs the tables if they were exact outside it and the list is ordered.\<close>

definition after_recalc :: "nat \<Rightarrow> nat \<Rightarrow> ptr list \<Rightarrow> 'w mem_scheme \<Rightarrow> 'w mem_scheme" where
  "after_recalc base len ms s =
     (if len = 0 \<or> ms = [] then s
      else flushmmucache_nopc (s\<lparr>gran := (\<lambda>p. enter_list base len s p ms
             (if base \<le> p * 0x1000 \<and> p * 0x1000 < base + len then empty_granule else gran s p))\<rparr>))"

lemma after_recalc_same [simp]:
  "linked (after_recalc base len ms s) ns = linked s ns" "ordered (after_recalc base len ms s) ns = ordered s ns"
  by (simp_all add: after_recalc_def)

lemma recalc_linked:
  assumes "linked s ms" "0x1000 dvd base" "base + len \<le> 0x100000000"
  shows "mem_mapping_recalc base len s = Some (Inr (after_recalc base len ms s))"
  using mem_mapping_recalc_chain [OF _ _ assms(2,3), of s ms] assms(1)
  by (simp add: linked_def after_recalc_def)

lemma recalc_mapped:
  assumes "linked s ms" "ordered s ms"
    and out: "\<And>p. ms = [] \<or> \<not> (base \<le> p * 0x1000 \<and> p * 0x1000 < base + len) \<Longrightarrow> gran s p = spec_granule s ms p"
  shows "mapped (after_recalc base len ms s) ms"
proof (cases "len = 0 \<or> ms = []")
  case True
  then show ?thesis using assms by (auto simp: mapped_def after_recalc_def)
next
  case False
  have nn: "NULL \<notin> set ms" using assms(1) chain_not_NULL by (auto simp: linked_def)
  have "enter_list base len s p ms (if base \<le> p * 0x1000 \<and> p * 0x1000 < base + len then empty_granule else gran s p)
      = spec_granule s ms p" for p
  proof (cases "base \<le> p * 0x1000 \<and> p * 0x1000 < base + len")
    case True
    then show ?thesis using enter_list_in_range [of base p len s ms] by simp
  next
    case out_p: False
    then have "gran s p = spec_granule s ms p" using out [of p] by blast
    then show ?thesis using enter_list_again [OF nn assms(2), of base len p] by (simp only: out_p if_False)
  qed
  then show ?thesis using assms(1,2) False by (simp add: mapped_def after_recalc_def)
qed

lemma do_recalc_linked:
  assumes "linked s ms" "m \<in> set ms"
  shows "mem_mapping_do_recalc m s =
    Some (Inr (after_recalc (unat (m_base (maps s m))) (unat (m_size (maps s m))) ms s))"
  using assms recalc_linked [OF assms(1)] by (auto simp: mem_mapping_do_recalc_def linked_def plain_mapping_def)

text \<open>A mapping is changed in place, and the range of its new address is recalculated.\<close>

definition keeps_links :: "(mem_mapping \<Rightarrow> mem_mapping) \<Rightarrow> bool" where
  "keeps_links f \<longleftrightarrow> (\<forall>d. m_next (f d) = m_next d \<and> m_prev (f d) = m_prev d)"

lemma linked_mod_map:
  assumes "linked s ms" "keeps_links f" "plain_mapping (f (maps s m))"
  shows "linked (mod_map m f s) ms"
  using assms chain_cong [of ms "(maps s)(m := f (maps s m))" "maps s"]
  by (auto simp: linked_def keeps_links_def)

lemma change_mapping:
  assumes s: "mapped s ms" and m: "m \<in> set ms" and f: "keeps_links f" "plain_mapping (f (maps s m))"
    and out: "\<And>p. covers (maps s m) p \<Longrightarrow> covers ((f (maps s m))\<lparr>m_enable := True\<rparr>) p"
  shows "\<exists>s'. mem_mapping_do_recalc m (mod_map m f s) = Some (Inr s') \<and> linked s' ms
           \<and> ordered s' ms = ordered (mod_map m f s) ms \<and> (ordered s' ms \<longrightarrow> mapped s' ms)
           \<and> maps s' = (maps s)(m := f (maps s m))"
proof -
  let ?s = "mod_map m f s" and ?d = "f (maps s m)"
  let ?t = "after_recalc (unat (m_base ?d)) (unat (m_size ?d)) ms ?s"
  have l: "linked ?s ms" using s f linked_mod_map by (auto simp: mapped_def)
  have "mapped ?t ms" if "ordered ?s ms"
  proof (rule recalc_mapped [OF l that])
    fix p assume "ms = [] \<or> \<not> (unat (m_base ?d) \<le> p * 0x1000 \<and> p * 0x1000 < unat (m_base ?d) + unat (m_size ?d))"
    then have p: "\<not> covers ?d p" "\<not> covers (?d\<lparr>m_enable := True\<rparr>) p"
      using m by (auto simp: covers_def)
    then have "spec_granule ?s ms p = spec_granule s ms p"
      using out [of p] by (intro spec_granule_cong) (auto split: if_splits)
    then show "gran ?s p = spec_granule ?s ms p" using s by (simp add: mapped_def)
  qed
  moreover have "mem_mapping_do_recalc m ?s = Some (Inr ?t)"
    using do_recalc_linked [OF l m] by simp
  moreover have "maps ?t = maps ?s" by (simp add: after_recalc_def flushmmucache_nopc_def)
  ultimately show ?thesis using l by auto
qed

lemma keeps_links_fields:
  "keeps_links (\<lambda>d. d\<lparr>m_enable := e\<rparr>)" "keeps_links (\<lambda>d. d\<lparr>m_exec := x\<rparr>)"
  "keeps_links (\<lambda>d. d\<lparr>m_mask := k\<rparr>)" "keeps_links (put_handlers h)" "keeps_links (put_write_handlers h)"
  "keeps_links (\<lambda>d. d\<lparr>m_enable := e, m_base := b, m_size := z\<rparr>)"
  by (simp_all add: keeps_links_def put_handlers_def put_write_handlers_def)

lemma same_place_fields:
  "covers (put_handlers h d) = covers d" "covers (put_write_handlers h d) = covers d"
  "plain_mapping (put_handlers h d) = plain_mapping d" "plain_mapping (put_write_handlers h d) = plain_mapping d"
  "covers (d\<lparr>m_exec := x\<rparr>) = covers d" "covers (d\<lparr>m_mask := k\<rparr>) = covers d"
  "plain_mapping (d\<lparr>m_exec := x\<rparr>) = plain_mapping d" "plain_mapping (d\<lparr>m_mask := k\<rparr>) = plain_mapping d"
  "plain_mapping (d\<lparr>m_enable := e\<rparr>) = plain_mapping d" "plain_mapping (d\<lparr>m_priv := q\<rparr>) = plain_mapping d"
  by (simp_all add: covers_def plain_mapping_def put_handlers_def put_write_handlers_def fun_eq_iff)

lemma covers_enabled: "covers d p \<Longrightarrow> covers (d\<lparr>m_enable := True\<rparr>) p"
  by (simp add: covers_def)

text \<open>
  The outcome of an operation: it returns, without an error, in a state whose list is \<open>ms\<close> and whose
  tables are exact if the list is ordered.
\<close>

definition yields :: "(mem_error + 'w mem_scheme) option \<Rightarrow> ptr list \<Rightarrow> bool" where
  "yields r ms \<longleftrightarrow> (\<exists>s'. r = Some (Inr s') \<and> linked s' ms \<and> (ordered s' ms \<longrightarrow> mapped s' ms))"

lemma yields_Some [simp]: "yields (Some (Inr s)) ms \<longleftrightarrow> linked s ms \<and> (ordered s ms \<longrightarrow> mapped s ms)"
  by (simp add: yields_def)

lemma change_in_place:
  assumes "mapped s ms" "m \<in> set ms" "keeps_links f" "plain_mapping (f (maps s m)) = plain_mapping (maps s m)"
    "\<And>p. covers (maps s m) p \<Longrightarrow> covers ((f (maps s m))\<lparr>m_enable := True\<rparr>) p"
  shows "yields (mem_mapping_do_recalc m (mod_map m f s)) ms"
proof -
  have "plain_mapping (f (maps s m))" using assms by (auto simp: mapped_def linked_def)
  from change_mapping [OF assms(1-3) this assms(5)] show ?thesis by (auto simp: yields_def)
qed

lemma disable_mapped: "mapped s ms \<Longrightarrow> m \<in> set ms \<Longrightarrow> yields (mem_mapping_disable m s) ms"
  unfolding mem_mapping_disable_def
  by (rule change_in_place) (auto simp: keeps_links_fields same_place_fields covers_def)

lemma enable_mapped: "mapped s ms \<Longrightarrow> m \<in> set ms \<Longrightarrow> yields (mem_mapping_enable m s) ms"
  unfolding mem_mapping_enable_def
  by (rule change_in_place) (auto simp: keeps_links_fields same_place_fields covers_def)

lemma set_exec_mapped: "mapped s ms \<Longrightarrow> m \<in> set ms \<Longrightarrow> yields (mem_mapping_set_exec m x s) ms"
  unfolding mem_mapping_set_exec_def
  by (rule change_in_place) (auto simp: keeps_links_fields same_place_fields covers_def)

lemma set_mask_mapped: "mapped s ms \<Longrightarrow> m \<in> set ms \<Longrightarrow> yields (mem_mapping_set_mask m k s) ms"
  unfolding mem_mapping_set_mask_def
  by (rule change_in_place) (auto simp: keeps_links_fields same_place_fields covers_def)

lemma set_handler_mapped: "mapped s ms \<Longrightarrow> m \<in> set ms \<Longrightarrow> yields (mem_mapping_set_handler m h s) ms"
  unfolding mem_mapping_set_handler_def
  by (rule change_in_place) (auto simp: keeps_links_fields same_place_fields intro!: covers_enabled)

lemma set_write_handler_mapped:
  "mapped s ms \<Longrightarrow> m \<in> set ms \<Longrightarrow> yields (mem_mapping_set_write_handler m h s) ms"
  unfolding mem_mapping_set_write_handler_def
  by (rule change_in_place) (auto simp: keeps_links_fields same_place_fields intro!: covers_enabled)

lemma may_disable:
  fixes s :: "'w mem_scheme" and m :: ptr
  defines "s' \<equiv> mod_map m (\<lambda>d. d\<lparr>m_enable := False\<rparr>) s"
  shows "may_read n s' p k \<longleftrightarrow> k \<noteq> m \<and> may_read n s p k"
    "may_write n wp s' p k \<longleftrightarrow> k \<noteq> m \<and> may_write n wp s p k"
    "may_exec n s' p k \<longleftrightarrow> k \<noteq> m \<and> may_exec n s p k"
  by (simp_all add: s'_def may_read_def may_write_def may_exec_def covers_def)

lemma ordered_disable:
  assumes "ordered s ms"
  shows "ordered (mod_map m (\<lambda>d. d\<lparr>m_enable := False\<rparr>) s) ms"
proof -
  let ?s = "mod_map m (\<lambda>d. d\<lparr>m_enable := False\<rparr>) s"
  have i: "state_index ?s = state_index s" "mem_wp ?s = mem_wp s" "mem_wp_bus ?s = mem_wp_bus s"
    by (simp_all add: state_index_def)
  have c: "clash ?s p k l \<Longrightarrow> clash s p k l" for p k l
    unfolding clash_def Let_def i may_disable by blast
  have e: "map_end (maps ?s k) = map_end (maps s k)" for k
    by (simp add: map_end_def)
  show ?thesis
    using assms unfolding ordered_def e by (elim sorted_wrt_mono_rel [rotated]) (blast intro: c)
qed

lemma set_addr_mapped:
  assumes s: "mapped s ms" and m: "m \<in> set ms"
    and new: "0x1000 dvd unat base" "unat base + unat len \<le> 0x100000000"
  shows "yields (mem_mapping_set_addr m base len s) ms"
proof -
  have "plain_mapping ((maps s m)\<lparr>m_enable := False\<rparr>)"
    using s m by (auto simp: same_place_fields mapped_def linked_def)
  from change_mapping [OF s m keeps_links_fields(1) this]
  obtain s1 where s1: "mem_mapping_do_recalc m (mod_map m (\<lambda>d. d\<lparr>m_enable := False\<rparr>) s) = Some (Inr s1)"
    "mapped s1 ms" "maps s1 = (maps s)(m := (maps s m)\<lparr>m_enable := False\<rparr>)"
    using ordered_disable [of s ms m] s by (auto simp: covers_def mapped_def)
  have "plain_mapping (maps s m)" using s m by (auto simp: mapped_def linked_def)
  then have "plain_mapping ((maps s1 m)\<lparr>m_enable := True, m_base := base, m_size := len\<rparr>)"
    using new by (simp add: s1(3) plain_mapping_def)
  from change_mapping [OF s1(2) m keeps_links_fields(6) this]
  show ?thesis
    by (auto simp: mem_mapping_set_addr_def then_do_def s1(1) yields_def covers_def s1(3))
qed

lemma set_p_mapped: "mapped s ms \<Longrightarrow> mapped (mem_mapping_set_p m q s) ms"
proof -
  assume s: "mapped s ms"
  let ?s = "mem_mapping_set_p m q s"
  have "linked ?s ms" using s chain_cong [of ms "maps ?s" "maps s"]
    by (auto simp: mapped_def linked_def mem_mapping_set_p_def same_place_fields)
  moreover have "same_effect (maps ?s k) (maps s k)" for k
    by (simp add: mem_mapping_set_p_def same_effect_def has_read_def has_write_def)
  then have "spec_granule ?s ms p = spec_granule s ms p" for p
    by (intro spec_granule_cong same_effect_covers [THEN fun_cong]) (simp_all only:, simp_all add: mem_mapping_set_p_def)
  moreover have "ordered ?s ms = ordered s ms"
    using \<open>\<And>k. same_effect (maps ?s k) (maps s k)\<close> by (rule ordered_cong) (simp_all add: mem_mapping_set_p_def)
  ultimately show ?thesis using s by (simp add: mapped_def mem_mapping_set_p_def)
qed

lemma spec_granule_snoc:
  "spec_granule s (ms @ [m]) p =
     (if covers (maps s m) p then enter m (p * 0x1000) s (spec_granule s ms p) else spec_granule s ms p)"
  by (simp add: spec_granule_def)

text \<open>The state in which \<open>mem_mapping_set\<close> of a new mapping recalculates.\<close>

definition new_mapping ::
  "ptr \<Rightarrow> u32 \<Rightarrow> u32 \<Rightarrow> handlers \<Rightarrow> u64 \<Rightarrow> u32 \<Rightarrow> ptr \<Rightarrow> mem_mapping \<Rightarrow> mem_mapping" where
  "new_mapping m base len h exec fl q d = (put_handlers h d)\<lparr>m_enable := (len \<noteq> 0), m_base := base,
     m_size := len, m_mask := (if len \<noteq> 0 then 0xffffffff else 0), m_exec := exec, m_flags := fl,
     m_priv := q, m_next := NULL\<rparr>"

lemma link_new:
  assumes s: "linked s ms" and m: "m \<notin> set ms" "m \<noteq> NULL" "m_base_ignore (maps s m) = 0"
    and new: "0x1000 dvd unat base" "unat base + unat len \<le> 0x100000000"
  shows "linked (mod_map m (new_mapping m base len h exec fl q) (link_last m s)) (ms @ [m])"
proof (cases "ms = []")
  case True
  then show ?thesis using assms
    by (auto simp: linked_def link_last_def new_mapping_def plain_mapping_def put_handlers_def put_write_handlers_def)
next
  case False
  define h' where "h' = (maps s)(last ms := (maps s (last ms))\<lparr>m_next := m\<rparr>)"
  have l: "last ms \<in> set ms" "last ms \<noteq> NULL" "last ms \<noteq> m" "hd ms \<noteq> m" "base_mapping s \<noteq> NULL"
    using False s m chain_ends [of "maps s" "base_mapping s" ms] hd_in_set [of ms]
    by (auto simp: linked_def)
  let ?d = "new_mapping m base len h exec fl q ((maps s m)\<lparr>m_prev := last ms\<rparr>)"
  have maps: "maps (mod_map m (new_mapping m base len h exec fl q) (link_last m s)) = h'(m := ?d)"
    using s False l by (auto simp: link_last_def linked_def h'_def fun_eq_iff)
  have "?d = ?d\<lparr>m_next := NULL\<rparr>" by (simp add: new_mapping_def)
  then have "chain (h'(m := ?d)) (base_mapping s) (ms @ [m])"
    using chain_snoc [of "maps s" "base_mapping s" ms m ?d] s m False
    by (auto simp: linked_def h'_def)
  moreover have "plain_mapping ?d"
    using m new by (simp add: plain_mapping_def new_mapping_def put_handlers_def put_write_handlers_def)
  moreover have "plain_mapping (h' k)" if "k \<in> set ms" for k
    using s that by (auto simp: h'_def linked_def plain_mapping_def)
  moreover have "m_prev (h' (hd ms)) = NULL"
    using s False by (auto simp: h'_def linked_def)
  moreover have "base_mapping (mod_map m (new_mapping m base len h exec fl q) (link_last m s)) = base_mapping s"
    "last_mapping (mod_map m (new_mapping m base len h exec fl q) (link_last m s)) = m"
    using l by (simp_all add: link_last_def Let_def)
  ultimately show ?thesis
    using s m l False unfolding linked_def maps by (auto simp: hd_append)
qed

lemma add_result:
  fixes s :: "'w mem_scheme" and h :: handlers and exec :: u64 and fl :: u32 and q :: ptr
  assumes s: "mapped s ms" and m: "m \<notin> set ms" "m \<noteq> NULL" "m_base_ignore (maps s m) = 0"
    and new: "0x1000 dvd unat base" "unat base + unat len \<le> 0x100000000"
  defines "s1 \<equiv> after_recalc (unat base) (unat len) (ms @ [m])
    (mod_map m (new_mapping m base len h exec fl q) (link_last m s))"
  shows "mem_mapping_add m base len h exec fl q s = Some (Inr s1)" "linked s1 (ms @ [m])"
    "ordered s1 (ms @ [m]) \<Longrightarrow> mapped s1 (ms @ [m])"
proof -
  have l: "linked s ms" using s by (simp add: mapped_def)
  let ?s = "mod_map m (new_mapping m base len h exec fl q) (link_last m s)"
  note l' = link_new [OF l m new, of h exec fl q]
  have sane: "(base_mapping s = NULL) = (last_mapping s = NULL)"
    "base_mapping s \<noteq> NULL \<Longrightarrow> m_prev (maps s (base_mapping s)) = NULL"
    "last_mapping s \<noteq> NULL \<Longrightarrow> m_next (maps s (last_mapping s)) = NULL"
    using l chain_ends [of "maps s" "base_mapping s" ms] by (auto simp: linked_def)
  have eq: "mem_mapping_add m base len h exec fl q s =
    (if len \<noteq> 0 then mem_mapping_recalc (unat base) (unat len) ?s else Some (Inr ?s))"
    using sane by (auto simp: mem_mapping_add_def mem_mapping_set_def new_mapping_def Let_def)
  have "gran ?s p = spec_granule ?s (ms @ [m]) p"
    if "\<not> (unat base \<le> p * 0x1000 \<and> p * 0x1000 < unat base + unat len)" for p
  proof -
    have "\<not> covers (maps ?s m) p"
      using that by (auto simp: covers_def new_mapping_def put_handlers_def)
    moreover have "spec_granule ?s ms p = spec_granule s ms p"
    proof (rule spec_granule_cong)
      fix k assume "k \<in> set ms"
      then have "k \<noteq> m" using m by auto
      then have e: "same_effect (maps ?s k) (maps s k)"
        by (auto simp: link_last_def Let_def same_effect_def has_read_def has_write_def)
      then show "same_effect (maps ?s k) (maps s k)" "covers (maps ?s k) p = covers (maps s k) p"
        using same_effect_covers by auto
    qed (simp_all add: link_last_def Let_def)
    moreover have "gran ?s p = gran s p" by (simp add: link_last_def Let_def)
    ultimately show ?thesis using s unfolding spec_granule_snoc by (simp add: mapped_def)
  qed
  then have "mapped (after_recalc (unat base) (unat len) (ms @ [m]) ?s) (ms @ [m])" if "ordered ?s (ms @ [m])"
    by (intro recalc_mapped [OF l' that]) auto
  moreover have "len = 0 \<Longrightarrow> after_recalc (unat base) (unat len) (ms @ [m]) ?s = ?s"
    by (simp add: after_recalc_def)
  ultimately show "mem_mapping_add m base len h exec fl q s = Some (Inr s1)" "linked s1 (ms @ [m])"
    "ordered s1 (ms @ [m]) \<Longrightarrow> mapped s1 (ms @ [m])"
    using recalc_linked [OF l' new] l' unfolding eq s1_def by auto
qed

lemma add_mapped:
  assumes "mapped s ms" "m \<notin> set ms" "m \<noteq> NULL" "m_base_ignore (maps s m) = 0"
    "0x1000 dvd unat base" "unat base + unat len \<le> 0x100000000"
  shows "yields (mem_mapping_add m base len h exec fl q s) (ms @ [m])"
  using add_result [OF assms] by (auto simp: yields_def)

section \<open>Write protection and access states\<close>

lemma fold_set_wp:
  "fold (set_wp_granule flags wp) cs s = s\<lparr>
     mem_wp_bus := (\<lambda>p. if flags AND 4 \<noteq> 0 \<and> p \<in> (\<lambda>c. c div 0x1000) ` set cs then wp else mem_wp_bus s p),
     mem_wp := (\<lambda>p. if flags AND 1 \<noteq> 0 \<and> p \<in> (\<lambda>c. c div 0x1000) ` set cs then wp else mem_wp s p)\<rparr>"
proof (induction cs arbitrary: s)
  case (Cons c cs)
  have "set_wp_granule flags wp c s = s\<lparr>
     mem_wp_bus := (\<lambda>p. if flags AND 4 \<noteq> 0 \<and> p = c div 0x1000 then wp else mem_wp_bus s p),
     mem_wp := (\<lambda>p. if flags AND 1 \<noteq> 0 \<and> p = c div 0x1000 then wp else mem_wp s p)\<rparr>"
    by (auto simp: set_wp_granule_def fun_eq_iff)
  then show ?case by (simp add: Cons.IH cong: if_cong) (rule mem.equality, auto simp: fun_eq_iff)
qed simp

text \<open>The effect of a change that leaves the list alone and is followed by a recalculation of its range.\<close>

lemma recalc_range:
  assumes s: "mapped s ms" and s': "maps s' = maps s" "base_mapping s' = base_mapping s"
    "last_mapping s' = last_mapping s" "gran s' = gran s" "cpu s' = cpu s"
    and out: "\<And>p. \<not> (base \<le> p * 0x1000 \<and> p * 0x1000 < base + len) \<Longrightarrow>
      mem_state s' p = mem_state s p \<and> mem_wp s' p = mem_wp s p \<and> mem_wp_bus s' p = mem_wp_bus s p"
    and b: "0x1000 dvd base" "base + len \<le> 0x100000000"
  shows "yields (mem_mapping_recalc base len s') ms"
proof -
  have l: "linked s' ms" using s s' by (simp add: mapped_def linked_def)
  have "mapped (after_recalc base len ms s') ms" if "ordered s' ms"
  proof (rule recalc_mapped [OF l that])
    fix p assume p: "ms = [] \<or> \<not> (base \<le> p * 0x1000 \<and> p * 0x1000 < base + len)"
    have "gran s' p = spec_granule s ms p" using s s'(4) by (simp add: mapped_def)
    also have "\<dots> = spec_granule s' ms p"
    proof (cases "ms = []")
      case False
      then show ?thesis using p out [of p] s' by (intro spec_granule_cong [symmetric]) auto
    qed (simp add: spec_granule_def)
    finally show "gran s' p = spec_granule s' ms p" .
  qed
  then show ?thesis using recalc_linked [OF l b] l by (simp add: yields_def)
qed

lemma set_wp_mapped:
  assumes s: "mapped s ms" and b: "0x1000 dvd base" "base + len \<le> 0x100000000"
  shows "yields (mem_set_wp base len flags wp s) ms"
proof -
  have "in_table (granules base (base + len))" using granules_in_table b by blast
  then show ?thesis
    unfolding mem_set_wp_def Let_def fold_set_wp granules_pages [OF b(1)]
    by (simp, intro recalc_range [OF s _ _ _ _ _ _ b]) auto
qed

lemma set_state_loop_granules:
  assumes "k * 0x1000 < unat len + 0x1000" "unat len \<le> 0xfffff000"
  shows "set_state_loop f base len (word_of_nat (k * 0x1000)) s =
    Some (fold f (map (\<lambda>j. word_of_nat (j * 0x1000) + base) [k..<(unat len + 0xfff) div 0x1000]) s)"
  using assms(1)
proof (induction "(unat len + 0xfff) div 0x1000 - k" arbitrary: k s)
  case 0
  then have "unat len \<le> k * 0x1000" "k * 0x1000 < 0x100000000" using assms(2) by auto
  then have "unat (word_of_nat (k * 0x1000) :: u32) = k * 0x1000"
    by (simp only: unat_of_nat) (simp add: take_bit_nat_eq_self)
  then have "\<not> (word_of_nat (k * 0x1000) :: u32) < len"
    using \<open>unat len \<le> k * 0x1000\<close> by (simp only: word_less_nat_alt)
  then show ?case using 0 by (subst set_state_loop.simps) simp
next
  case (Suc n)
  then have k: "k * 0x1000 < unat len" "k < (unat len + 0xfff) div 0x1000" by auto
  then have "unat (word_of_nat (k * 0x1000) :: u32) = k * 0x1000" using assms(2)
    by (simp only: unat_of_nat) (simp add: take_bit_nat_eq_self)
  then have "(word_of_nat (k * 0x1000) :: u32) < len"
    using k by (simp only: word_less_nat_alt)
  then have "set_state_loop f base len (word_of_nat (k * 0x1000)) s =
      set_state_loop f base len (word_of_nat (Suc k * 0x1000)) (f (word_of_nat (k * 0x1000) + base) s)"
    by (subst set_state_loop.simps) (simp add: algebra_simps)
  also have "\<dots> = Some (fold f (map (\<lambda>j. word_of_nat (j * 0x1000) + base) [Suc k..<(unat len + 0xfff) div 0x1000])
      (f (word_of_nat (k * 0x1000) + base) s))"
    using Suc k by (intro Suc.hyps(1)) auto
  finally show ?case using k by (simp add: upt_conv_Cons)
qed

definition set_states :: "u8 \<Rightarrow> u16 \<Rightarrow> u16 \<Rightarrow> u16 list \<Rightarrow> u16 list" where
  "set_states bitmap msk sm st = map (\<lambda>n. if bit bitmap n then (st ! n AND msk) OR sm else st ! n) [0..<4]"

lemma fold_set_state:
  assumes "distinct (map (\<lambda>a. unat (drop_bit 12 a)) as)"
  shows "fold (set_state_granule bitmap msk sm) as s = s\<lparr>mem_state := (\<lambda>p.
     if p \<in> (\<lambda>a. unat (drop_bit 12 a)) ` set as then set_states bitmap msk sm (mem_state s p) else mem_state s p)\<rparr>"
  using assms
proof (induction as arbitrary: s)
  case (Cons a as)
  then show ?case
    by (auto simp: set_state_granule_def set_states_def Let_def fun_eq_iff cong: if_cong
        intro!: arg_cong [where f = "\<lambda>g. s\<lparr>mem_state := g\<rparr>"])
qed simp

lemma page_number:
  assumes "0x1000 dvd unat base" "j * 0x1000 + unat (base::u32) < 0x100000000"
  shows "unat (drop_bit 12 (word_of_nat (j * 0x1000) + base)) = j + unat base div 0x1000"
proof -
  have "unat (word_of_nat (j * 0x1000) + base) = j * 0x1000 + unat base"
    using assms(2) by (simp add: unat_word_ariths unat_of_nat take_bit_nat_eq_self mod_less)
  moreover have "unat (drop_bit 12 w) = unat w div 0x1000" for w :: u32
    unfolding unat_drop_bit_eq by (simp add: drop_bit_eq_div)
  ultimately show ?thesis using assms(1) by auto
qed

lemma set_state_loop_result:
  assumes "0x1000 dvd unat base" "unat base + unat len \<le> 0x100000000" "unat len \<le> 0xfffff000"
  shows "set_state_loop (set_state_granule bitmap msk sm) base len 0 s = Some (s\<lparr>mem_state := (\<lambda>p.
     if unat base \<le> p * 0x1000 \<and> p * 0x1000 < unat base + unat len
     then set_states bitmap msk sm (mem_state s p) else mem_state s p)\<rparr>)"
proof -
  let ?n = "(unat len + 0xfff) div 0x1000"
  let ?as = "map (\<lambda>j. word_of_nat (j * 0x1000) + base) [0..<?n]"
  obtain b where b: "unat base = b * 0x1000" using assms(1) by (elim dvdE) simp
  have pg: "map (\<lambda>a. unat (drop_bit 12 a)) ?as = map (\<lambda>j. j + b) [0..<?n]"
    using page_number [OF assms(1)] assms(2) b by auto
  then have "distinct (map (\<lambda>a. unat (drop_bit 12 a)) ?as)"
    by (simp only:) (simp add: distinct_map inj_on_def)
  moreover have "p \<in> (\<lambda>a. unat (drop_bit 12 a)) ` set ?as \<longleftrightarrow>
      unat base \<le> p * 0x1000 \<and> p * 0x1000 < unat base + unat len" for p
  proof -
    have "(\<lambda>a. unat (drop_bit 12 a)) ` set ?as = set (map (\<lambda>j. j + b) [0..<?n])"
      by (simp only: pg [symmetric] set_map)
    also have "p \<in> \<dots> \<longleftrightarrow> b \<le> p \<and> p < b + ?n"
      by (auto simp: image_iff intro: bexI [where x = "p - b"])
    finally show ?thesis unfolding b by auto
  qed
  ultimately show ?thesis
    using set_state_loop_granules [of 0 len "set_state_granule bitmap msk sm" base s] assms(3)
    by (simp add: fold_set_state cong: if_cong)
qed

lemma set_access_mapped:
  assumes s: "mapped s ms" and b: "0x1000 dvd unat base" "unat base + unat len \<le> 0x100000000"
    and n: "unat len \<le> 0xfffff000" "mode \<in> {0, 1, 3} \<or> access AND 7 < 4"
  shows "yields (mem_set_access bitmap mode base len access s) ms"
proof -
  have "\<not> (mode \<noteq> 0 \<and> mode \<noteq> 1 \<and> mode \<noteq> 3 \<and> 4 \<le> access AND 7)"
    using n(2) by (auto simp: not_le)
  then show ?thesis
    unfolding mem_set_access_def Let_def set_state_loop_result [OF b n(1)]
    by (simp only: if_False option.case, intro recalc_range [OF s _ _ _ _ _ _ b]) auto
qed

text \<open>What the tables should say of page \<open>p\<close> when the list is \<open>ms\<close>.\<close>

definition exact :: "'w mem_scheme \<Rightarrow> ptr list \<Rightarrow> nat \<Rightarrow> bool" where
  "exact s ms p \<longleftrightarrow>
     g_read (gran s p) = winner (may_read (state_index s) s p) ms
   \<and> g_write (gran s p) = winner (may_write (state_index s) (mem_wp s) s p) ms
   \<and> g_read_bus (gran s p) = winner (may_read (state_index s + 2) s p) ms
   \<and> g_write_bus (gran s p) = winner (may_write (state_index s + 2) (mem_wp_bus s) s p) ms
   \<and> g_exec (gran s p) = page_exec s p (winner (may_exec (state_index s) s p) ms)"

lemma mapped_exact:
  assumes "mapped s ms"
  shows "exact s ms p"
proof -
  have "NULL \<notin> set ms" "gran s p = spec_granule s ms p"
    using assms chain_not_NULL by (auto simp: mapped_def linked_def)
  moreover have "page_exec s p (pick P NULL (\<lambda>m. m) ms) = pick P 0 (page_exec s p) ms" for P
    by (simp add: pick_def page_exec_def)
  ultimately show ?thesis
    unfolding exact_def winner_pick by (simp only: spec_granule_fields simp_thms)
qed

section \<open>The mapping list as a machine\<close>

datatype map_op =
    Add ptr u32 u32 handlers u64 u32 ptr
  | Disable ptr
  | Enable ptr
  | SetAddr ptr u32 u32
  | SetExec ptr u64
  | SetMask ptr u32
  | SetHandler ptr handlers
  | SetWriteHandler ptr handlers
  | SetPriv ptr ptr
  | SetWp nat nat u8 u8
  | SetAccess u8 nat u32 u32 u16

fun map_run :: "map_op \<Rightarrow> 'w mem_scheme \<Rightarrow> (mem_error + 'w mem_scheme) option" where
  "map_run (Add m b n h x fl q) s = mem_mapping_add m b n h x fl q s"
| "map_run (Disable m) s = mem_mapping_disable m s"
| "map_run (Enable m) s = mem_mapping_enable m s"
| "map_run (SetAddr m b n) s = mem_mapping_set_addr m b n s"
| "map_run (SetExec m x) s = mem_mapping_set_exec m x s"
| "map_run (SetMask m k) s = mem_mapping_set_mask m k s"
| "map_run (SetHandler m h) s = mem_mapping_set_handler m h s"
| "map_run (SetWriteHandler m h) s = mem_mapping_set_write_handler m h s"
| "map_run (SetPriv m q) s = Some (Inr (mem_mapping_set_p m q s))"
| "map_run (SetWp b n fl wp) s = mem_set_wp b n fl wp s"
| "map_run (SetAccess bm mode b n a) s = mem_set_access bm mode b n a s"

definition listed :: "'w mem_scheme \<Rightarrow> ptr \<Rightarrow> bool" where
  "listed s m \<longleftrightarrow> (\<exists>ms. chain (maps s) (base_mapping s) ms \<and> m \<in> set ms)"

definition good_range :: "u32 \<Rightarrow> u32 \<Rightarrow> bool" where
  "good_range b n \<longleftrightarrow> 0x1000 dvd unat b \<and> unat b + unat n \<le> 0x100000000"

text \<open>
  The calls the devices make: a mapping is added once, at a page aligned address inside 4 GB, and
  the other calls are made on mappings that have been added. Aliases (\<open>base_ignore\<close>) are excluded.
\<close>

fun map_ok :: "map_op \<Rightarrow> 'w mem_scheme \<Rightarrow> bool" where
  "map_ok (Add m b n h x fl q) s \<longleftrightarrow> m \<noteq> NULL \<and> \<not> listed s m \<and> m_base_ignore (maps s m) = 0 \<and> good_range b n"
| "map_ok (Disable m) s \<longleftrightarrow> listed s m"
| "map_ok (Enable m) s \<longleftrightarrow> listed s m"
| "map_ok (SetAddr m b n) s \<longleftrightarrow> listed s m \<and> good_range b n"
| "map_ok (SetExec m x) s \<longleftrightarrow> listed s m"
| "map_ok (SetMask m k) s \<longleftrightarrow> listed s m"
| "map_ok (SetHandler m h) s \<longleftrightarrow> listed s m"
| "map_ok (SetWriteHandler m h) s \<longleftrightarrow> listed s m"
| "map_ok (SetPriv m q) s \<longleftrightarrow> True"
| "map_ok (SetWp b n fl wp) s \<longleftrightarrow> 0x1000 dvd b \<and> b + n \<le> 0x100000000"
| "map_ok (SetAccess bm mode b n a) s \<longleftrightarrow> good_range b n \<and> unat n \<le> 0xfffff000 \<and> (mode \<in> {0, 1, 3} \<or> a AND 7 < 4)"

text \<open>
  The condition under which the recalculations do no harm, on the state after the call: where two
  mappings may serve the same access, the later one in the list reaches at least as far.
\<close>

definition tidy :: "'w mem_scheme \<Rightarrow> bool" where
  "tidy s \<longleftrightarrow> (\<exists>ms. chain (maps s) (base_mapping s) ms \<and> ordered s ms)"

definition stays_tidy :: "map_op \<Rightarrow> 'w mem_scheme \<Rightarrow> bool" where
  "stays_tidy op s \<longleftrightarrow> map_ok op s \<and> (\<forall>s'. map_run op s = Some (Inr s') \<longrightarrow> tidy s')"

definition map_step :: "map_op \<Rightarrow> 'w mem_scheme \<Rightarrow> 'w mem_scheme option" where
  "map_step op s = outcome (map_run op s)"

definition no_maps :: "'w mem_scheme \<Rightarrow> bool" where
  "no_maps s \<longleftrightarrow> base_mapping s = NULL \<and> last_mapping s = NULL \<and> (\<forall>p. gran s p = empty_granule)"

definition map_inv :: "'w mem_scheme \<Rightarrow> bool" where
  "map_inv s \<longleftrightarrow> (\<exists>ms. mapped s ms)"

lemma listed_iff: "mapped s ms \<Longrightarrow> listed s m \<longleftrightarrow> m \<in> set ms"
  unfolding listed_def mapped_def linked_def by (metis chain_unique)

lemma map_run_mapped:
  assumes "mapped s ms" "map_ok op s"
  shows "\<exists>ms'. yields (map_run op s) ms'"
  using assms(2)
proof (cases op)
  case (Add m b n h x fl q)
  then show ?thesis using assms add_mapped [of s ms m b n h x fl q]
    by (auto simp: listed_iff good_range_def)
next
  case (SetAddr m b n)
  then show ?thesis using assms set_addr_mapped [of s ms m b n] by (auto simp: listed_iff good_range_def)
next
  case (SetPriv m q)
  then show ?thesis using assms set_p_mapped [of s ms m q] by (auto simp: mapped_def intro!: exI [of _ ms])
next
  case (SetWp b n fl wp)
  then show ?thesis using assms set_wp_mapped [of s ms b n fl wp] by auto
next
  case (SetAccess bm mode b n a)
  then show ?thesis using assms set_access_mapped [of s ms b n mode a bm] by (auto simp: good_range_def)
qed (use assms in \<open>auto simp: listed_iff intro!: exI [of _ ms] disable_mapped enable_mapped
      set_exec_mapped set_mask_mapped set_handler_mapped set_write_handler_mapped\<close>)

interpretation map_machine: safe_machine no_maps stays_tidy map_step map_inv
proof unfold_locales
  fix s :: "'w mem_scheme"
  assume "no_maps s"
  then have "mapped s []" by (simp add: no_maps_def mapped_def linked_def ordered_def spec_granule_def)
  then show "map_inv s" by (auto simp: map_inv_def)
next
  fix s :: "'w mem_scheme" and op
  assume "map_inv s" "stays_tidy op s"
  then obtain ms0 where "mapped s ms0" "map_ok op s" "\<And>s'. map_run op s = Some (Inr s') \<Longrightarrow> tidy s'"
    by (auto simp: map_inv_def stays_tidy_def)
  moreover obtain s' ms where s': "map_run op s = Some (Inr s')" "linked s' ms" "ordered s' ms \<longrightarrow> mapped s' ms"
    using map_run_mapped [OF calculation(1,2)] unfolding yields_def by blast
  ultimately have "tidy s'" by blast
  then have "ordered s' ms"
    using s'(2) chain_unique unfolding tidy_def linked_def by metis
  with s' show "\<exists>s'. map_step op s = Some s' \<and> map_inv s'"
    by (auto simp: map_step_def map_inv_def outcome_def)
qed

text \<open>
  Claim C21: From an empty map, after any sequence of the calls that add, move, enable, disable or change
  mappings, or change access states and write protection, each entry of the five lookup tables names the
  mapping it should: the last one in the list that covers the page, has a handler (or host memory) for the
  access, and may serve it in the access state in force. No entry is stale, although each call
  recalculates only a part of the tables. The conditions on the calls: a mapping is added once, is not
  NULL and has no aliases (\<open>base_ignore\<close> is 0 and \<open>mem_mapping_set_base_ignore\<close>
  is not called; with aliases entries do go stale); the other calls get mappings that have been added;
  ranges start at a page and end inside 4 GB; \<open>mem_set_access\<close> gets at most 4 GB - 4K and an
  access state below 4 in the modes that index by it. And after each call, where two mappings may serve
  the same access, the later one reaches at least as far.
\<close>

theorem mem_tables_exact:
  assumes "reachable no_maps stays_tidy map_step s"
  shows "\<exists>ms. chain (maps s) (base_mapping s) ms \<and> (\<forall>p. exact s ms p)"
  using map_machine.reachable_inv [OF assms] mapped_exact by (auto simp: map_inv_def mapped_def linked_def)

text \<open>
  Claim C25: In any state that the calls of the exactness property reach under its conditions, each such
  call returns: it stops at no \<open>fatal()\<close>, does not run out of the tables and does not loop.
  The conditions on the call: a mapping is added only if it is not NULL, not in the list and without
  aliases (\<open>base_ignore\<close> 0), the other calls get a mapping of the list, ranges start at a
  page and end inside 4 GB, and \<open>mem_set_access\<close> gets at most 4 GB - 4K and an access state
  below 4 in the modes that index by it. The new state is again one of those if where two mappings may
  serve the same access the later one reaches at least as far.
\<close>

theorem mem_mapping_calls_return:
  assumes "reachable no_maps stays_tidy map_step s" "map_ok op s"
  shows "\<exists>s'. map_run op s = Some (Inr s') \<and> (tidy s' \<longrightarrow> reachable no_maps stays_tidy map_step s')"
proof -
  obtain ms where "mapped s ms" using map_machine.reachable_inv [OF assms(1)] by (auto simp: map_inv_def)
  from map_run_mapped [OF this assms(2)] obtain s' where "map_run op s = Some (Inr s')"
    by (auto simp: yields_def)
  moreover from this have "tidy s' \<Longrightarrow> reachable no_maps stays_tidy map_step s'"
    using assms by (intro reachable.reachable_step [OF assms(1)]) (auto simp: stays_tidy_def map_step_def outcome_def)
  ultimately show ?thesis by blast
qed

section \<open>Entering again below the range\<close>

text \<open>
  Claim C39: With two mappings in the list, both page aligned, inside 4 GB and without aliases, a mapping
  that a recalculated range reaches is entered again from its own base, also below the range, and takes
  those pages from a later mapping that was in force there: after the recalculation of a non-empty
  page-aligned range inside 4 GB that \<open>b\<close> does not reach, the earlier mapping
  \<open>a\<close> serves the bus reads of page \<open>p\<close>, although \<open>p\<close> lies below the
  range and \<open>b\<close> is the last mapping that may serve it.
\<close>

theorem mem_recalc_reenters_below:
  assumes "chain (maps s) (base_mapping s) [a, b]" "plain_mapping (maps s a)" "plain_mapping (maps s b)"
    and "may_read (state_index s + 2) s p a" "may_read (state_index s + 2) s p b"
    and "p * 0x1000 < base" "map_end (maps s b) \<le> base" "base < map_end (maps s a)"
    and "0x1000 dvd base" "base + len \<le> 0x100000000" "0 < len"
  shows "winner (may_read (state_index s + 2) s p) [a, b] = b
    \<and> (\<exists>s'. mem_mapping_recalc base len s = Some (Inr s') \<and> g_read_bus (gran s' p) = a)"
proof -
  have nn: "NULL \<notin> set [a, b]" using assms(1) by simp
  have "mem_mapping_recalc base len s = Some (Inr (after_recalc base len [a, b] s))"
    using mem_mapping_recalc_chain [OF assms(1) _ assms(9,10)] assms(2,3) by (simp add: after_recalc_def)
  moreover have "gran (after_recalc base len [a, b] s) p = enter_list base len s p [a, b] (gran s p)"
    using assms(6,11) by (simp add: after_recalc_def del: enter_list_simps(2))
  moreover have "g_read_bus (enter_list base len s p [a, b] (gran s p)) = a"
    unfolding enter_list_fields(2) [OF nn] using assms by (simp add: pick_def)
  ultimately show ?thesis using assms(5) by (simp add: winner_def)
qed

end
