(* ===== verification/Mem_Ram.thy ===== *)
theory Mem_Ram
  imports Mem_Tables
begin

text \<open>
  What the model of \<open>mem.c\<close> does with RAM: accesses from the bus, the memory map after a reset, the
  software lookups and their flushes, the dirty marks of the recompiler's pages, and the aliases that
  the tables mishandle. At the end, the concrete machines of the witnesses.
\<close>

section \<open>RAM behind the bus\<close>

text \<open>A mapping as \<open>mem_add_ram_mapping\<close> makes it, and a page the bus reads and writes through one.\<close>

definition ram_map :: "'w mem_scheme \<Rightarrow> mem_mapping \<Rightarrow> bool" where
  "ram_map s d \<longleftrightarrow> m_read_b d = RamFn \<and> m_read_w d = RamFn \<and> m_read_l d = RamFn
     \<and> m_write_b d = RamFn \<and> m_write_w d = RamFn \<and> m_write_l d = RamFn
     \<and> m_exec d = ram s + ucast (m_base d) \<and> m_exec d \<noteq> 0 \<and> m_mask d = 0xffffffff"

definition ram_page :: "'w mem_scheme \<Rightarrow> nat \<Rightarrow> bool" where
  "ram_page s p \<longleftrightarrow> (let m = g_read_bus (gran s p); w = g_write_bus (gran s p) in
     m \<noteq> NULL \<and> w \<noteq> NULL \<and> ram_map s (maps s m) \<and> ram_map s (maps s w)
     \<and> unat (m_base (maps s m)) \<le> p * 0x1000 \<and> unat (m_base (maps s w)) \<le> p * 0x1000)"

definition ram_addr :: "'w mem_scheme \<Rightarrow> u32 \<Rightarrow> bool" where
  "ram_addr s a \<longleftrightarrow> ram_page s (unat (drop_bit 12 a))"

lemma page_le: "unat (drop_bit 12 (a::u32)) * 0x1000 \<le> unat a"
proof -
  have "unat (drop_bit 12 a) = unat a div 0x1000"
    unfolding unat_drop_bit_eq by (simp add: drop_bit_eq_div)
  then show ?thesis by simp
qed

lemma unat_ucast64 [simp]: "unat (ucast (w::u32) :: u64) = unat w"
proof -
  have "unat w < 2 ^ LENGTH(32)" by (rule unsigned_less)
  then show ?thesis by (simp add: unsigned_ucast_eq take_bit_nat_eq_self)
qed

lemma ucast64_of_nat: "(ucast (w::u32) :: u64) = of_nat (unat w)"
  by (simp add: of_nat_unat)

lemma ucast_add_diff:
  assumes "unat (b::u32) \<le> unat a"
  shows "ucast b + ucast (a - b) = (ucast a :: u64)"
proof -
  have "unat (a - b) = unat a - unat b" using assms by (simp add: unat_sub word_le_nat_alt)
  then show ?thesis using assms by (simp add: ucast64_of_nat del: of_nat_unat flip: of_nat_add)
qed

lemma exec_host_ram:
  assumes "ram_map s (maps s m)" "unat (m_base (maps s m)) \<le> unat a"
  shows "exec_host m a s = ram_at a s"
proof -
  have "(0xffffffff :: u32) = - 1" by simp
  then have "(a - m_base (maps s m)) AND 0xffffffff = a - m_base (maps s m)" by (simp only: word_and_max)
  then show ?thesis
    using assms ucast_add_diff [OF assms(2)] by (simp add: exec_host_def ram_map_def ram_at_def add.assoc)
qed

lemma no_logical_fields [simp]:
  "host (no_logical s) = host s" "ram (no_logical s) = ram s" "maps (no_logical s) = maps s"
  "gran (no_logical s) = gran s" "cpu (no_logical s) = cpu s" "no_logical (no_logical s) = no_logical s"
  "mem_logical_addr (no_logical s) = 0xffffffff"
  by (simp_all add: no_logical_def)

lemma bus_map_no_logical [simp]:
  "bus_read_map a (no_logical s) = bus_read_map a s" "bus_write_map a (no_logical s) = bus_write_map a s"
  "fast m (no_logical s) = fast m s" "exec_host m a (no_logical s) = exec_host m a s"
  "ram_at a (no_logical s) = ram_at a s" "host_readw p (no_logical s) = host_readw p s"
  "host_readl p (no_logical s) = host_readl p s"
  by (simp_all add: bus_read_map_def bus_write_map_def fast_def exec_host_def ram_at_def
      host_readw_def host_readl_def)

lemma note_read_bus [simp]: "note_read a (no_logical s) = no_logical s"
  by (simp add: note_read_def addreadlookup_def)

lemma ram_addr_maps:
  assumes "ram_addr s a"
  shows "bus_read_map a s \<noteq> NULL" "bus_write_map a s \<noteq> NULL"
    and "ram_map s (maps s (bus_read_map a s))" "ram_map s (maps s (bus_write_map a s))"
    and "exec_host (bus_read_map a s) a s = ram_at a s" "exec_host (bus_write_map a s) a s = ram_at a s"
  using assms page_le [of a]
  by (auto simp: ram_addr_def ram_page_def Let_def bus_read_map_def bus_write_map_def intro!: exec_host_ram)

lemma fast_ram: "ram_map s (maps s m) \<Longrightarrow> fast m s = cpu_use_exec (cpu s)"
  by (auto simp: fast_def ram_map_def)

lemma readb_ram:
  assumes "ram_addr s a"
  shows "mem_readb_phys D a s = (host s (ram_at a s), no_logical s)"
  using ram_addr_maps [OF assms]
  by (simp add: mem_readb_phys_def Let_def fast_ram) (simp add: ram_map_def mem_read_ram_def)

lemma writeb_ram:
  assumes "ram_addr s a"
  shows "mem_writeb_phys D a v s = host_writeb (ram_at a s) v (no_logical s)"
  using ram_addr_maps [OF assms]
  by (simp add: mem_writeb_phys_def Let_def fast_ram)
    (simp add: ram_map_def mem_write_ram_def write_ram_at_def)

lemma host_writeb_fields [simp]:
  "ram (host_writeb p v s) = ram s" "maps (host_writeb p v s) = maps s" "gran (host_writeb p v s) = gran s"
  "cpu (host_writeb p v s) = cpu s" "host (host_writeb p v s) = (host s)(p := v)"
  "no_logical (host_writeb p v s) = host_writeb p v (no_logical s)"
  by (simp_all add: host_writeb_def no_logical_def)

lemma ram_addr_frame [simp]:
  "ram_addr (host_writeb p v s) a = ram_addr s a" "ram_addr (no_logical s) a = ram_addr s a"
  "ram_at a (host_writeb p v s) = ram_at a s"
  by (simp_all add: ram_addr_def ram_page_def ram_map_def ram_at_def)

text \<open>The bytes of RAM from an address, and storing them: what wider accesses amount to.\<close>

definition ram_bytes :: "u32 \<Rightarrow> nat \<Rightarrow> 'w mem_scheme \<Rightarrow> u8 list" where
  "ram_bytes a n s = map (\<lambda>k. host s (ram_at a s + of_nat k)) [0..<n]"

fun put_bytes :: "u64 \<Rightarrow> u8 list \<Rightarrow> 'w mem_scheme \<Rightarrow> 'w mem_scheme" where
  "put_bytes p [] s = s"
| "put_bytes p (b # bs) s = put_bytes (p + 1) bs (host_writeb p b s)"

definition ram_range :: "'w mem_scheme \<Rightarrow> u32 \<Rightarrow> nat \<Rightarrow> bool" where
  "ram_range s a n \<longleftrightarrow> unat a + n \<le> 0x100000000 \<and> (\<forall>k<n. ram_addr s (a + of_nat k))"

lemma ram_at_add:
  assumes "unat a + n < 0x100000000"
  shows "ram_at (a + of_nat n) s = ram_at a s + of_nat n"
proof -
  have n: "n < 0x100000000" using assms by simp
  have "unat (a + of_nat n) = unat a + n"
    using assms n by (simp add: unat_word_ariths unat_of_nat take_bit_nat_eq_self mod_less)
  then show ?thesis by (simp add: ram_at_def ucast64_of_nat del: of_nat_unat)
qed

lemma ram_range_addr: "ram_range s a n \<Longrightarrow> k < n \<Longrightarrow> ram_addr s (a + of_nat k)"
  by (simp add: ram_range_def)

lemma readw_ram:
  assumes "ram_range s a 2"
  shows "mem_readw_phys D a s = (host_readw (ram_at a s) s, no_logical s)"
proof -
  have a: "ram_addr s a" "ram_addr s (a + 1)" "ram_at (a + 1) s = ram_at a s + 1"
    using ram_range_addr [OF assms, of 0] ram_range_addr [OF assms, of 1] ram_at_add [of a 1 s] assms
    by (auto simp: ram_range_def)
  show ?thesis
    using ram_addr_maps [OF a(1)]
    by (simp add: mem_readw_phys_def Let_def fast_ram readb_ram a)
      (auto simp: ram_map_def mem_read_ramw_def host_readw_def or.commute)
qed

lemma ram_range_sub: "ram_range s a n \<Longrightarrow> k + m \<le> n \<Longrightarrow> 0 < m \<Longrightarrow> ram_range s (a + of_nat k) m"
proof -
  assume r: "ram_range s a n" and k: "k + m \<le> n" "0 < m"
  have "unat (a + of_nat k) = unat a + k"
    using r k by (simp add: ram_range_def unat_word_ariths unat_of_nat take_bit_nat_eq_self mod_less)
  moreover have "ram_addr s (a + of_nat k + of_nat j)" if "j < m" for j
    using ram_range_addr [OF r, of "k + j"] that k by (simp add: add.assoc)
  ultimately show ?thesis using r k by (simp add: ram_range_def)
qed

lemma ram_range_frame [simp]:
  "ram_range (host_writeb p v s) a n = ram_range s a n" "ram_range (no_logical s) a n = ram_range s a n"
  by (simp_all add: ram_range_def)

lemma host_writew_frame [simp]:
  "ram_range (host_writew p w s) a n = ram_range s a n" "ram_at a (host_writew p w s) = ram_at a s"
  "no_logical (host_writew p w s) = host_writew p w (no_logical s)"
  by (simp_all add: host_writew_def)

lemma readl_ram:
  assumes "ram_range s a 4"
  shows "mem_readl_phys D a s = (host_readl (ram_at a s) s, no_logical s)"
proof -
  have a: "ram_addr s a" "ram_range s a 2" "ram_range s (a + 2) 2" "ram_at (a + 2) s = ram_at a s + 2"
    using ram_range_addr [OF assms, of 0] ram_range_sub [OF assms, of 0 2] ram_range_sub [OF assms, of 2 2]
      ram_at_add [of a 2 s] assms by (auto simp: ram_range_def)
  show ?thesis
    using ram_addr_maps [OF a(1)]
    by (simp add: mem_readl_phys_def Let_def fast_ram readw_ram a)
      (auto simp: ram_map_def mem_read_raml_def host_readl_def or.commute)
qed

lemma writew_ram:
  assumes "ram_range s a 2"
  shows "mem_writew_phys D a v s = host_writew (ram_at a s) v (no_logical s)"
proof -
  have a: "ram_addr s a" "ram_addr s (a + 1)" "ram_at (a + 1) s = ram_at a s + 1"
    using ram_range_addr [OF assms, of 0] ram_range_addr [OF assms, of 1] ram_at_add [of a 1 s] assms
    by (auto simp: ram_range_def)
  show ?thesis
    using ram_addr_maps [OF a(1)]
    by (simp add: mem_writew_phys_def Let_def fast_ram writeb_ram a)
      (auto simp: ram_map_def mem_write_ramw_def write_ramw_at_def host_writew_def)
qed

lemma writel_ram:
  assumes "ram_range s a 4"
  shows "mem_writel_phys D a v s = host_writel (ram_at a s) v (no_logical s)"
proof -
  have a: "ram_addr s a" "ram_range s a 2" "ram_range s (a + 2) 2" "ram_at (a + 2) s = ram_at a s + 2"
    using ram_range_addr [OF assms, of 0] ram_range_sub [OF assms, of 0 2] ram_range_sub [OF assms, of 2 2]
      ram_at_add [of a 2 s] assms by (auto simp: ram_range_def)
  show ?thesis
    using ram_addr_maps [OF a(1)]
    by (simp add: mem_writel_phys_def Let_def fast_ram writew_ram a)
      (auto simp: ram_map_def mem_write_raml_def write_raml_at_def host_writel_def)
qed

lemma host_readw_bytes:
  "ucast (host_readw p s) = host s p" "ucast (drop_bit 8 (host_readw p s)) = host s (p + 1)"
  by (rule word_eq_by_bits, auto simp: host_readw_def bit_simps dest: bit_imp_le_length)+

lemma host_readl_bytes:
  "ucast (host_readl p s) = host s p" "ucast (drop_bit 8 (host_readl p s)) = host s (p + 1)"
  "ucast (drop_bit 16 (host_readl p s)) = host s (p + 2)" "ucast (drop_bit 24 (host_readl p s)) = host s (p + 3)"
  by (rule word_eq_by_bits, auto simp: host_readl_def host_readw_def bit_simps algebra_simps dest: bit_imp_le_length)+

lemma writew_bytes: "host_writew p (ucast b0 OR push_bit 8 (ucast b1)) s = put_bytes p [b0, b1] s"
proof -
  have "ucast (ucast b0 OR push_bit 8 (ucast b1) :: u16) = b0"
    "ucast (drop_bit 8 (ucast b0 OR push_bit 8 (ucast b1) :: u16)) = b1"
    by (rule word_eq_by_bits, auto simp: bit_simps dest: bit_imp_le_length)+
  then show ?thesis by (simp add: host_writew_def)
qed

lemma writel_bytes:
  "host_writel p (ucast b0 OR push_bit 8 (ucast b1) OR push_bit 16 (ucast b2) OR push_bit 24 (ucast b3)) s
   = put_bytes p [b0, b1, b2, b3] s"
proof -
  let ?v = "ucast b0 OR push_bit 8 (ucast b1) OR push_bit 16 (ucast b2) OR push_bit 24 (ucast b3) :: u32"
  have "ucast ?v = (ucast b0 OR push_bit 8 (ucast b1) :: u16)"
    "ucast (drop_bit 16 ?v) = (ucast b2 OR push_bit 8 (ucast b3) :: u16)"
    by (rule word_eq_by_bits, auto simp: bit_simps dest: bit_imp_le_length)+
  then have "host_writel p ?v s = put_bytes (p + 2) [b2, b3] (put_bytes p [b0, b1] s)"
    by (simp only: host_writel_def writew_bytes)
  then show ?thesis by (simp add: add.assoc)
qed

lemma read_phys_ram:
  assumes "ram_range s a n" "n \<in> {1, 2, 4}"
  shows "mem_read_phys D a n s = (ram_bytes a n s, no_logical s)"
  using assms readb_ram [of s a] ram_range_addr [OF assms(1), of 0]
  by (auto simp: mem_read_phys_def ram_bytes_def readw_ram readl_ram host_readw_bytes host_readl_bytes
      upt_conv_Cons add.assoc)

lemma write_phys_ram:
  assumes "ram_range s a (length bs)" "length bs \<in> {1, 2, 4}"
  shows "mem_write_phys D a bs s = put_bytes (ram_at a s) bs (no_logical s)"
proof -
  consider b where "bs = [b]" | b0 b1 where "bs = [b0, b1]" | b0 b1 b2 b3 where "bs = [b0, b1, b2, b3]"
    using assms(2) by (auto simp: numeral_eq_Suc length_Suc_conv)
  then show ?thesis
  proof cases
    case 1
    then show ?thesis using ram_range_addr [OF assms(1), of 0] by (simp add: mem_write_phys_def writeb_ram)
  next
    case 2
    then have "ram_range s a 2" using assms(1) by (simp add: numeral_2_eq_2)
    then show ?thesis unfolding 2 by (simp add: mem_write_phys_def writew_ram writew_bytes del: put_bytes.simps)
  next
    case 3
    then have "ram_range s a 4" using assms(1) by (simp add: numeral_eq_Suc)
    then show ?thesis unfolding 3 by (simp add: mem_write_phys_def writel_ram writel_bytes del: put_bytes.simps)
  qed
qed

lemma put_bytes_frame [simp]:
  "ram (put_bytes p bs s) = ram s" "maps (put_bytes p bs s) = maps s" "gran (put_bytes p bs s) = gran s"
  "cpu (put_bytes p bs s) = cpu s" "ram_at a (put_bytes p bs s) = ram_at a s"
  "ram_addr (put_bytes p bs s) a = ram_addr s a" "ram_range (put_bytes p bs s) a n = ram_range s a n"
  "no_logical (put_bytes p bs s) = put_bytes p bs (no_logical s)"
  by (induction bs arbitrary: p s) (simp_all add: ram_at_def)

lemma host_put_bytes:
  "length bs \<le> 2 ^ 32 \<Longrightarrow> host (put_bytes p bs s) q =
     (if unat (q - p) < length bs then bs ! unat (q - p) else host s q)"
proof (induction bs arbitrary: p s)
  case (Cons b bs)
  show ?case
  proof (cases "q = p")
    case True
    have "unat (- 1 :: u64) = 2 ^ 64 - 1" by (simp add: unsigned_minus_1_eq_mask mask_eq_exp_minus_1)
    then show ?thesis using Cons True by (simp add: not_less)
  next
    case False
    then have "unat (q - p) = Suc (unat (q - (p + 1)))"
      using unat_minus_one [of "q - p"] unat_gt_0 [of "q - p"] by (simp add: diff_diff_eq)
    then show ?thesis using Cons False by simp
  qed
qed simp

section \<open>The state after a call\<close>

text \<open>Mappings without their links, and the part of the state that the mapping calls leave alone.\<close>

definition unlinked :: "'w mem_scheme \<Rightarrow> ptr \<Rightarrow> mem_mapping" where
  "unlinked s m = (maps s m)\<lparr>m_prev := NULL, m_next := NULL\<rparr>"

lemma unlinked_fields:
  "m_base_ignore (maps s m) = m_base_ignore (unlinked s m)" "covers (maps s m) = covers (unlinked s m)"
  "has_read (maps s m) = has_read (unlinked s m)" "has_write (maps s m) = has_write (unlinked s m)"
  "m_flags (maps s m) = m_flags (unlinked s m)" "m_base (maps s m) = m_base (unlinked s m)"
  "ram_map t (maps s m) = ram_map t (unlinked s m)" "map_end (maps s m) = map_end (unlinked s m)"
  by (simp_all add: unlinked_def covers_def has_read_def has_write_def ram_map_def map_end_def fun_eq_iff)

text \<open>
  A sufficient condition for an ordered list: of each two mappings one is disabled, or the later one
  reaches at least as far, or it ends where the earlier one starts or below.
\<close>

definition apart :: "mem_mapping \<Rightarrow> mem_mapping \<Rightarrow> bool" where
  "apart d e \<longleftrightarrow> \<not> m_enable d \<or> \<not> m_enable e \<or> map_end d \<le> map_end e \<or> map_end e \<le> unat (m_base d)"

definition laid_out :: "'w mem_scheme \<Rightarrow> ptr list \<Rightarrow> bool" where
  "laid_out s ms \<longleftrightarrow> mapped s ms \<and> sorted_wrt (\<lambda>m k. apart (unlinked s m) (unlinked s k)) ms"

lemma clash_covers: "clash s p m k \<Longrightarrow> covers (maps s m) p \<and> covers (maps s k) p"
  by (auto simp: clash_def Let_def may_read_def may_write_def may_exec_def)

lemma ordered_apart:
  assumes "sorted_wrt (\<lambda>m k. apart (unlinked s m) (unlinked s k)) ms"
  shows "ordered s ms"
  unfolding ordered_def
proof (rule sorted_wrt_mono_rel [OF _ assms], intro allI impI)
  fix m k p assume a: "apart (unlinked s m) (unlinked s k)" and "clash s p m k"
  then have "covers (unlinked s m) p" "covers (unlinked s k) p"
    using clash_covers by (auto simp flip: unlinked_fields(2))
  then show "map_end (maps s m) \<le> map_end (maps s k)"
    using a unfolding unlinked_fields(8) by (auto simp: apart_def covers_def map_end_def)
qed

lemma laid_outI:
  assumes "sorted_wrt (\<lambda>m k. apart (unlinked s m) (unlinked s k)) ms" "ordered s ms \<Longrightarrow> mapped s ms"
  shows "laid_out s ms"
  using assms ordered_apart [OF assms(1)] by (simp add: laid_out_def)

definition same_rest :: "'w mem_scheme \<Rightarrow> 'w mem_scheme \<Rightarrow> bool" where
  "same_rest s s' \<longleftrightarrow> s' = s\<lparr>maps := maps s', base_mapping := base_mapping s', last_mapping := last_mapping s',
     gran := gran s', tlb := tlb s', mem_state := mem_state s'\<rparr>"

lemma same_restD:
  assumes "same_rest s s'"
  shows "ram s' = ram s" "host s' = host s" "cpu s' = cpu s" "mem_kb s' = mem_kb s" "mem_wp s' = mem_wp s"
    "mem_wp_bus s' = mem_wp_bus s" "pages s' = pages s" "pages_sz s' = pages_sz s" "page_ff s' = page_ff s"
  by (subst assms [unfolded same_rest_def], simp)+

lemma same_rest_refl [simp]: "same_rest s s"
  by (simp add: same_rest_def)

lemma same_rest_trans:
  assumes "same_rest s s1" "same_rest s1 s2"
  shows "same_rest s s2"
  unfolding same_rest_def
  by (subst assms(2) [unfolded same_rest_def], subst (1) assms(1) [unfolded same_rest_def]) simp

text \<open>A new mapping, links aside.\<close>

definition fresh :: "u32 \<Rightarrow> u32 \<Rightarrow> handlers \<Rightarrow> u64 \<Rightarrow> u32 \<Rightarrow> ptr \<Rightarrow> mem_mapping" where
  "fresh base len h exec fl q = \<lparr>m_prev = NULL, m_next = NULL, m_enable = (len \<noteq> 0), m_base = base,
     m_size = len, m_base_ignore = 0, m_mask = (if len \<noteq> 0 then 0xffffffff else 0), m_read_b = h_read_b h,
     m_read_w = h_read_w h, m_read_l = h_read_l h, m_write_b = h_write_b h, m_write_w = h_write_w h,
     m_write_l = h_write_l h, m_exec = exec, m_flags = fl, m_priv = q\<rparr>"

lemma after_recalc_fields [simp]:
  "maps (after_recalc b n ms s) = maps s" "mem_state (after_recalc b n ms s) = mem_state s"
  "base_mapping (after_recalc b n ms s) = base_mapping s" "last_mapping (after_recalc b n ms s) = last_mapping s"
  by (simp_all add: after_recalc_def flushmmucache_nopc_def)

lemma same_rest_after_recalc: "same_rest s s' \<Longrightarrow> same_rest s (after_recalc b n ms s')"
  by (rule same_rest_trans, assumption) (simp add: same_rest_def after_recalc_def flushmmucache_nopc_def)

lemma add_step:
  assumes "laid_out s ms" "m \<notin> set ms" "m \<noteq> NULL" "m_base_ignore (maps s m) = 0" "good_range base len"
    and new: "\<forall>k \<in> set ms. apart (unlinked s k) (fresh base len h exec fl q)"
  obtains s' where "mem_mapping_add m base len h exec fl q s = Some (Inr s')" "laid_out s' (ms @ [m])"
    "unlinked s' = (unlinked s)(m := fresh base len h exec fl q)" "same_rest s s'" "mem_state s' = mem_state s"
proof
  let ?s = "mod_map m (new_mapping m base len h exec fl q) (link_last m s)"
  let ?t = "after_recalc (unat base) (unat len) (ms @ [m]) ?s"
  have s: "mapped s ms" using assms(1) by (simp add: laid_out_def)
  note add = add_result [OF s assms(2-4), of base len h exec fl q] assms(5) [unfolded good_range_def]
  show "mem_mapping_add m base len h exec fl q s = Some (Inr ?t)" using add by auto
  show "same_rest s ?t"
    by (rule same_rest_after_recalc) (simp add: same_rest_def link_last_def Let_def)
  show "mem_state ?t = mem_state s" by (simp add: link_last_def Let_def)
  have "k \<noteq> m \<Longrightarrow> unlinked ?t k = unlinked s k" for k
    by (simp add: unlinked_def link_last_def Let_def)
  moreover have "m_base_ignore (maps (link_last m s) m) = 0"
    using assms(4) by (auto simp: link_last_def Let_def)
  then have "unlinked ?t m = fresh base len h exec fl q"
    by (simp add: unlinked_def fresh_def new_mapping_def put_handlers_def put_write_handlers_def)
  ultimately show u: "unlinked ?t = (unlinked s)(m := fresh base len h exec fl q)" by (auto simp: fun_eq_iff)
  have "sorted_wrt (\<lambda>k l. apart (unlinked ?t k) (unlinked ?t l)) (ms @ [m])"
    using assms(1,2) new unfolding u laid_out_def
    by (auto simp: sorted_wrt_append elim!: sorted_wrt_mono_rel [rotated])
  then show "laid_out ?t (ms @ [m])" by (rule laid_outI) (use add in auto)
qed

lemma disable_step:
  assumes "laid_out s ms" "m \<in> set ms"
  obtains s' where "mem_mapping_disable m s = Some (Inr s')" "laid_out s' ms"
    "unlinked s' = (unlinked s)(m := (unlinked s m)\<lparr>m_enable := False\<rparr>)" "same_rest s s'" "mem_state s' = mem_state s"
proof -
  let ?s = "mod_map m (\<lambda>d. d\<lparr>m_enable := False\<rparr>) s"
  let ?t = "after_recalc (unat (m_base (maps s m))) (unat (m_size (maps s m))) ms ?s"
  have s: "mapped s ms" using assms(1) by (simp add: laid_out_def)
  then have "linked s ms" "plain_mapping (maps s m)" using assms by (auto simp: mapped_def linked_def)
  then have "linked ?s ms" by (intro linked_mod_map) (auto simp: keeps_links_fields same_place_fields)
  from do_recalc_linked [OF this assms(2)]
  have t: "mem_mapping_disable m s = Some (Inr ?t)" by (simp add: mem_mapping_disable_def)
  show thesis
  proof (rule that [OF t])
    show "same_rest s ?t" by (rule same_rest_after_recalc) (simp add: same_rest_def)
    show u: "unlinked ?t = (unlinked s)(m := (unlinked s m)\<lparr>m_enable := False\<rparr>)"
      by (auto simp: unlinked_def fun_eq_iff)
    have "sorted_wrt (\<lambda>k l. apart (unlinked ?t k) (unlinked ?t l)) ms"
      using assms(1) unfolding u laid_out_def by (auto simp: apart_def map_end_def elim!: sorted_wrt_mono_rel [rotated])
    then show "laid_out ?t ms"
      by (rule laid_outI) (use disable_mapped [OF s assms(2)] in \<open>unfold t yields_Some, blast\<close>)
  qed simp
qed

lemma set_access_step:
  assumes "laid_out s ms" "good_range base len" "unat len \<le> 0xfffff000" "mode \<in> {0, 1, 3} \<or> access AND 7 < 4"
  obtains s' where "mem_set_access bitmap mode base len access s = Some (Inr s')" "laid_out s' ms"
    "unlinked s' = unlinked s" "same_rest s s'"
    "mem_state s' = (\<lambda>p. if unat base \<le> p * 0x1000 \<and> p * 0x1000 < unat base + unat len
       then set_states bitmap (if mode \<noteq> 0 then 0x2d6b else 0x1084) (access_smstate mode access) (mem_state s p)
       else mem_state s p)"
proof -
  have b: "0x1000 dvd unat base" "unat base + unat len \<le> 0x100000000" using assms(2) by (simp_all add: good_range_def)
  have s: "mapped s ms" using assms(1) by (simp add: laid_out_def)
  have no: "\<not> (mode \<noteq> 0 \<and> mode \<noteq> 1 \<and> mode \<noteq> 3 \<and> 4 \<le> access AND 7)"
    using assms(4) by (auto simp: not_le)
  let ?s = "s\<lparr>mem_state := (\<lambda>p. if unat base \<le> p * 0x1000 \<and> p * 0x1000 < unat base + unat len
       then set_states bitmap (if mode \<noteq> 0 then 0x2d6b else 0x1084) (access_smstate mode access) (mem_state s p)
       else mem_state s p)\<rparr>"
  let ?t = "after_recalc (unat base) (unat len) ms ?s"
  have "linked ?s ms" using s by (simp add: mapped_def linked_def)
  from recalc_linked [OF this b]
  have t: "mem_set_access bitmap mode base len access s = Some (Inr ?t)"
    unfolding mem_set_access_def Let_def set_state_loop_result [OF b assms(3)]
    by (simp only: no if_False option.case)
  show thesis
  proof (rule that [OF t])
    show u: "unlinked ?t = unlinked s" by (simp add: unlinked_def fun_eq_iff)
    show "laid_out ?t ms"
      by (rule laid_outI)
        (use assms(1) set_access_mapped [OF s b assms(3,4), of bitmap] in \<open>unfold t yields_Some u laid_out_def, blast+\<close>)
    show "same_rest s ?t" by (rule same_rest_after_recalc) (simp add: same_rest_def)
  qed (simp_all add: unlinked_def fun_eq_iff)
qed

section \<open>The memory map after a reset\<close>

text \<open>A RAM block: its access states become internal, and a mapping is added for it.\<close>

definition internal :: "u32 \<Rightarrow> u32 \<Rightarrow> (nat \<Rightarrow> u16 list) \<Rightarrow> nat \<Rightarrow> u16 list" where
  "internal base len st p = (if unat base \<le> p * 0x1000 \<and> p * 0x1000 < unat base + unat len
     then set_states 15 0x1084 0x0421 (st p) else st p)"

lemma init_ram_step:
  assumes "laid_out s ms" "m \<notin> set ms" "m \<noteq> NULL" "m_base_ignore (unlinked s m) = 0" "good_range base len"
    "unat len \<le> 0xfffff000"
    and new: "\<forall>k \<in> set ms. apart (unlinked s k) (fresh base len (same_handlers RamFn) (ram s + ucast base) 2 NULL)"
  obtains s' where "mem_init_ram_mapping m base len s = Some (Inr s')" "laid_out s' (ms @ [m])"
    "unlinked s' = (unlinked s)(m := fresh base len (same_handlers RamFn) (ram s + ucast base) 2 NULL)"
    "same_rest s s'" "mem_state s' = internal base len (mem_state s)"
proof -
  have "(0::nat) \<in> {0, 1, 3} \<or> (0x0421 :: u16) AND 7 < 4" by simp
  from set_access_step [OF assms(1,5,6) this, of 15]
  obtain s1 where s1: "mem_set_access 15 0 base len 0x0421 s = Some (Inr s1)" "laid_out s1 ms"
    "unlinked s1 = unlinked s" "same_rest s s1"
    and st: "mem_state s1 = (\<lambda>p. if unat base \<le> p * 0x1000 \<and> p * 0x1000 < unat base + unat len
       then set_states 15 (if (0::nat) \<noteq> 0 then 0x2d6b else 0x1084) (access_smstate 0 0x0421) (mem_state s p)
       else mem_state s p)"
    .
  have st1: "mem_state s1 = internal base len (mem_state s)"
    by (simp add: st internal_def access_smstate_def fun_eq_iff)
  have "m_base_ignore (maps s1 m) = 0" using assms(4) s1(3) by (simp add: unlinked_fields(1))
  from add_step [OF s1(2) assms(2,3) this assms(5) new [folded s1(3)]]
  obtain s2 where s2: "mem_mapping_add m base len (same_handlers RamFn) (ram s + ucast base) 2 NULL s1 = Some (Inr s2)"
    "laid_out s2 (ms @ [m])"
    "unlinked s2 = (unlinked s1)(m := fresh base len (same_handlers RamFn) (ram s + ucast base) 2 NULL)"
    "same_rest s1 s2" "mem_state s2 = mem_state s1"
    .
  show thesis
  proof (rule that [of s2])
    show "mem_init_ram_mapping m base len s = Some (Inr s2)"
      using s1(1) s2(1) same_restD(1) [OF s1(4)]
      by (simp add: mem_init_ram_mapping_def mem_set_mem_state_both_def then_do_def mem_add_ram_mapping_def)
    show "same_rest s s2" using s1(4) s2(4) by (rule same_rest_trans)
  qed (simp_all add: s1 s2 st1)
qed

lemma reset_remapped_step:
  assumes "laid_out s ms" "m \<notin> set ms" "m \<noteq> NULL" "m_base_ignore (unlinked s m) = 0"
    "good_range (mem_kb s * 1024) (256 * 1024)"
    and new: "\<forall>k \<in> set ms. apart (unlinked s k) (fresh (mem_kb s * 1024) (256 * 1024) (same_handlers f) (ram s + off) 2 NULL)"
  obtains s' d where "reset_remapped m f off s = Some (Inr s')" "laid_out s' (ms @ [m])"
    "unlinked s' = (unlinked s)(m := d)" "\<not> m_enable d" "same_rest s s'" "mem_state s' = mem_state s"
proof -
  have "m_base_ignore (maps s m) = 0" using assms(4) by (simp add: unlinked_fields(1))
  from add_step [OF assms(1-3) this assms(5) new]
  obtain s1 where s1: "mem_mapping_add m (mem_kb s * 1024) (256 * 1024) (same_handlers f) (ram s + off) 2 NULL s = Some (Inr s1)"
    "laid_out s1 (ms @ [m])"
    "unlinked s1 = (unlinked s)(m := fresh (mem_kb s * 1024) (256 * 1024) (same_handlers f) (ram s + off) 2 NULL)"
    "same_rest s s1" "mem_state s1 = mem_state s"
    .
  have "m \<in> set (ms @ [m])" by simp
  from disable_step [OF s1(2) this]
  obtain s2 where s2: "mem_mapping_disable m s1 = Some (Inr s2)" "laid_out s2 (ms @ [m])"
    "unlinked s2 = (unlinked s1)(m := (unlinked s1 m)\<lparr>m_enable := False\<rparr>)" "same_rest s1 s2"
    "mem_state s2 = mem_state s1" .
  show thesis
  proof (rule that)
    show "reset_remapped m f off s = Some (Inr s2)"
      using s1(1) s2(1) by (simp only: reset_remapped_def then_do_def option.case sum.case)
    show "same_rest s s2" using s1(4) s2(4) by (rule same_rest_trans)
    show "unlinked s2 = (unlinked s)(m := (unlinked s1 m)\<lparr>m_enable := False\<rparr>)"
      by (simp add: s2(3) s1(3) fun_eq_iff)
  qed (simp_all add: s1(5) s2)
qed

lemma reset_mid_step:
  assumes "laid_out s ms" "{2, 3} \<inter> set ms = {}" "m_base_ignore (unlinked s 2) = 0" "m_base_ignore (unlinked s 3) = 0"
    "768 < mem_kb s" and new: "\<forall>k \<in> set ms. apart (unlinked s k) (fresh 0xa0000 0x60000 (same_handlers RamFn) (ram s + 0xa0000) 2 NULL)"
  obtains s' d where "reset_mid s = Some (Inr s')" "laid_out s' (ms @ [2, 3])"
    "unlinked s' = (unlinked s)(2 := fresh 0xa0000 0x60000 (same_handlers RamFn) (ram s + 0xa0000) 2 NULL, 3 := d)"
    "\<not> m_enable d" "same_rest s s'" "mem_state s' = mem_state s"
proof -
  have g: "good_range 0xa0000 0x60000" by (simp add: good_range_def)
  have "2 \<notin> set ms" "2 \<noteq> NULL" "m_base_ignore (maps s 2) = 0" using assms by (auto simp: unlinked_fields(1))
  from add_step [OF assms(1) this g new]
  obtain s1 where s1: "mem_mapping_add 2 0xa0000 0x60000 (same_handlers RamFn) (ram s + 0xa0000) 2 NULL s = Some (Inr s1)"
    "laid_out s1 (ms @ [2])"
    "unlinked s1 = (unlinked s)(2 := fresh 0xa0000 0x60000 (same_handlers RamFn) (ram s + 0xa0000) 2 NULL)"
    "same_rest s s1" "mem_state s1 = mem_state s"
    .
  have i3: "3 \<notin> set (ms @ [2])" "3 \<noteq> NULL" "m_base_ignore (maps s1 3) = 0"
    using assms s1(3) by (auto simp: unlinked_fields(1))
  have new3: "\<forall>k \<in> set (ms @ [2]). apart (unlinked s1 k) (fresh 0xa0000 0x60000 (same_handlers RamFn) (ram s + 0xa0000) 2 NULL)"
    using new by (simp add: s1(3) apart_def)
  from add_step [OF s1(2) i3 g new3]
  obtain s2 where s2: "mem_mapping_add 3 0xa0000 0x60000 (same_handlers RamFn) (ram s + 0xa0000) 2 NULL s1 = Some (Inr s2)"
    "laid_out s2 ((ms @ [2]) @ [3])"
    "unlinked s2 = (unlinked s1)(3 := fresh 0xa0000 0x60000 (same_handlers RamFn) (ram s + 0xa0000) 2 NULL)"
    "same_rest s1 s2" "mem_state s2 = mem_state s1"
    .
  have "3 \<in> set ((ms @ [2]) @ [3])" by simp
  from disable_step [OF s2(2) this]
  obtain s3 where s3: "mem_mapping_disable 3 s2 = Some (Inr s3)" "laid_out s3 ((ms @ [2]) @ [3])"
    "unlinked s3 = (unlinked s2)(3 := (unlinked s2 3)\<lparr>m_enable := False\<rparr>)" "same_rest s2 s3"
    "mem_state s3 = mem_state s2" .
  have "same_rest s s3" using same_rest_trans [OF same_rest_trans [OF s1(4) s2(4)] s3(4)] .
  moreover have "reset_mid s = Some (Inr s3)"
    using s1(1) s2(1) s3(1) assms(5) same_restD(1) [OF s1(4)]
    by (simp add: reset_mid_def then_do_def mem_add_ram_mapping_def ram_mid_mapping_def ram_mid_mapping2_def)
  moreover have "unlinked s3 = (unlinked s)(2 := fresh 0xa0000 0x60000 (same_handlers RamFn) (ram s + 0xa0000) 2 NULL,
      3 := (unlinked s2 3)\<lparr>m_enable := False\<rparr>)"
    by (simp add: s3(3) s2(3) s1(3) fun_eq_iff)
  ultimately show thesis
    using s3(2,5) s2(5) s1(5) by (intro that [of s3 "(unlinked s2 3)\<lparr>m_enable := False\<rparr>"]) simp_all
qed

text \<open>The configurations covered: a 32-bit bus, more than 1 MB in whole pages, the remapped block below 4 GB.\<close>

definition reset_ok :: "u64 \<Rightarrow> 'w mem_scheme \<Rightarrow> bool" where
  "reset_ok block s \<longleftrightarrow> block \<noteq> 0 \<and> unat block + 2 ^ 32 < 2 ^ 64
     \<and> 1024 < unat (mem_kb s) \<and> unat (mem_kb s) \<le> 0x3fff00 \<and> 4 dvd unat (mem_kb s)
     \<and> is286 (cpu s) \<and> \<not> cpu_16bitbus (cpu s) \<and> \<not> in_smm (cpu s) \<and> \<not> cx_smac (cpu s)
     \<and> (\<forall>m \<in> {1, 2, 3, 4, 5, 6}. m_base_ignore (maps s m) = 0)"

definition cleared :: "u64 \<Rightarrow> 'w mem_scheme \<Rightarrow> 'w mem_scheme" where
  "cleared block s = reset_tables (reset_pages (mem_zero (1024 * unat (mem_kb s))
     (s\<lparr>host := (\<lambda>p. if unat (p - page_ff s) < 4096 then 0xff else host s p), ram := block\<rparr>)))"

lemma cleared_fields:
  "ram (cleared block s) = block" "cpu (cleared block s) = cpu s" "mem_kb (cleared block s) = mem_kb s"
  "unlinked (cleared block s) = unlinked s" "mem_wp (cleared block s) = (\<lambda>_. 0)"
  "mem_wp_bus (cleared block s) = (\<lambda>_. 0)" "mem_state (cleared block s) = (\<lambda>_. [0, 0, 0, 0])"
  "laid_out (cleared block s) []"
  "unat (p - block) < 1024 * unat (mem_kb s) \<Longrightarrow> host (cleared block s) p = 0"
  by (simp_all add: cleared_def reset_tables_def reset_pages_def mem_zero_def Let_def unlinked_def fun_eq_iff
      laid_out_def mapped_def ordered_def linked_def spec_granule_def)

lemma kb_words:
  assumes "1024 < unat (k::u32)" "unat k \<le> 0x3fff00" "4 dvd unat k"
  shows "unat (k * 1024) = unat k * 1024" "unat ((k - 1024) * 1024) = (unat k - 1024) * 1024"
    "good_range (k * 1024) (256 * 1024)" "good_range 0x100000 ((k - 1024) * 1024)"
    "640 < k" "1024 < k" "768 < k"
proof -
  have le: "1024 \<le> k" using assms(1) by (simp add: word_le_nat_alt)
  have kb: "unat (j * 1024) = unat j * 1024" if "unat j \<le> 0x3fff00" for j :: u32
    using that by (simp add: unat_word_ariths mod_less)
  show a: "unat (k * 1024) = unat k * 1024" by (rule kb [OF assms(2)])
  have "unat (k - 1024) = unat k - 1024" using unat_sub [OF le] by simp
  then show b: "unat ((k - 1024) * 1024) = (unat k - 1024) * 1024"
    using kb [of "k - 1024"] assms(2) by simp
  obtain j where j: "unat k = 4 * j" using assms(3) by (elim dvdE)
  then have "unat k * 1024 = 0x1000 * j" by simp
  then show "good_range (k * 1024) (256 * 1024)"
    using a assms by (simp add: good_range_def)
  show "good_range 0x100000 ((k - 1024) * 1024)"
    using b assms by (simp add: good_range_def)
  show "640 < k" "1024 < k" "768 < k" using assms(1) by (simp_all add: word_less_nat_alt)
qed

text \<open>The mappings a reset leaves: low, high and middle RAM; the other three are disabled.\<close>

definition reset_maps :: "u64 \<Rightarrow> u32 \<Rightarrow> 'w mem_scheme \<Rightarrow> bool" where
  "reset_maps block k s \<longleftrightarrow>
     unlinked s 1 = fresh 0 0xa0000 (same_handlers RamFn) block 2 NULL
   \<and> unlinked s 4 = fresh 0x100000 ((k - 1024) * 1024) (same_handlers RamFn) (block + 0x100000) 2 NULL
   \<and> unlinked s 2 = fresh 0xa0000 0x60000 (same_handlers RamFn) (block + 0xa0000) 2 NULL
   \<and> \<not> m_enable (unlinked s 3) \<and> \<not> m_enable (unlinked s 5) \<and> \<not> m_enable (unlinked s 6)"

lemma apart_fresh:
  "apart (fresh b n h x fl q) (fresh b' n' h' x' fl' q') \<longleftrightarrow>
     n = 0 \<or> n' = 0 \<or> unat b + unat n \<le> unat b' + unat n' \<or> unat b' + unat n' \<le> unat b"
  by (auto simp: apart_def fresh_def map_end_def)

lemma apart_disabled: "\<not> m_enable d \<Longrightarrow> apart d e" "\<not> m_enable e \<Longrightarrow> apart d e"
  by (simp_all add: apart_def)

lemma mem_reset_result:
  assumes ok: "reset_ok block s"
  obtains s' where "mem_reset block s = Some (Inr (mem_a20_init s'))" "laid_out s' [1, 4, 2, 3, 5, 6]"
    "same_rest (cleared block s) s'" "reset_maps block (mem_kb s) s'"
    "mem_state s' = internal 0x100000 ((mem_kb s - 1024) * 1024) (internal 0 0xa0000 (\<lambda>_. [0, 0, 0, 0]))"
proof -
  let ?k = "mem_kb s" and ?H = "same_handlers RamFn"
  note k = kb_words [of ?k] and ok' = ok [unfolded reset_ok_def]
  have ign: "m_base_ignore (unlinked s m) = 0" if "m \<in> {1, 2, 3, 4, 5, 6}" for m
    using ok' that by (auto simp: unlinked_def)
  let ?s2 = "cleared block s"
  have g0: "good_range 0 0xa0000" "unat (0xa0000 :: u32) \<le> 0xfffff000" by (simp_all add: good_range_def)
  have i1: "1 \<notin> set []" "(1::nat) \<noteq> NULL" "m_base_ignore (unlinked ?s2 1) = 0"
    using ign by (simp_all add: cleared_fields)
  have a1: "\<forall>k \<in> set []. apart (unlinked ?s2 k) (fresh 0 0xa0000 ?H (ram ?s2 + ucast (0::u32)) 2 NULL)" by simp
  from init_ram_step [OF cleared_fields(8) i1 g0 a1]
  obtain s3 where s3: "mem_init_ram_mapping 1 0 0xa0000 ?s2 = Some (Inr s3)" "laid_out s3 ([] @ [1])"
    "unlinked s3 = (unlinked ?s2)(1 := fresh 0 0xa0000 ?H (ram ?s2 + ucast (0::u32)) 2 NULL)"
    "same_rest ?s2 s3" "mem_state s3 = internal 0 0xa0000 (mem_state ?s2)" .
  note r3 = same_restD [OF s3(4)]
  have g4: "good_range 0x100000 ((?k - 1024) * 1024)" "unat ((?k - 1024) * 1024) \<le> 0xfffff000"
    using k ok' by auto
  have i4: "4 \<notin> set ([] @ [1::nat])" "(4::nat) \<noteq> NULL" "m_base_ignore (unlinked s3 4) = 0"
    using ign by (simp_all add: s3 cleared_fields)
  have a4: "\<forall>j \<in> set ([] @ [1]). apart (unlinked s3 j)
      (fresh 0x100000 ((?k - 1024) * 1024) ?H (ram s3 + ucast (0x100000::u32)) 2 NULL)"
    by (simp add: s3 apart_fresh)
  from init_ram_step [OF s3(2) i4 g4 a4]
  obtain s4 where s4: "mem_init_ram_mapping 4 0x100000 ((?k - 1024) * 1024) s3 = Some (Inr s4)"
    "laid_out s4 (([] @ [1]) @ [4])"
    "unlinked s4 = (unlinked s3)(4 := fresh 0x100000 ((?k - 1024) * 1024) ?H (ram s3 + ucast (0x100000::u32)) 2 NULL)"
    "same_rest s3 s4" "mem_state s4 = internal 0x100000 ((?k - 1024) * 1024) (mem_state s3)" .
  note q4 = same_rest_trans [OF s3(4) s4(4)]
  note r4 = same_restD [OF q4]
  have i2: "{2, 3} \<inter> set (([] @ [1]) @ [4]) = ({} :: nat set)" "m_base_ignore (unlinked s4 2) = 0"
    "m_base_ignore (unlinked s4 3) = 0" "768 < mem_kb s4"
    using ign k ok' by (simp_all add: s3 s4 cleared_fields r4)
  have a2: "\<forall>j \<in> set (([] @ [1]) @ [4]). apart (unlinked s4 j) (fresh 0xa0000 0x60000 ?H (ram s4 + 0xa0000) 2 NULL)"
    by (simp add: s3 s4 apart_fresh)
  from reset_mid_step [OF s4(2) i2 a2]
  obtain s5 d3 where s5: "reset_mid s4 = Some (Inr s5)" "laid_out s5 ((([] @ [1]) @ [4]) @ [2, 3])"
    "unlinked s5 = (unlinked s4)(2 := fresh 0xa0000 0x60000 ?H (ram s4 + 0xa0000) 2 NULL, 3 := d3)"
    "\<not> m_enable d3" "same_rest s4 s5" "mem_state s5 = mem_state s4" .
  note q5 = same_rest_trans [OF q4 s5(5)]
  note r5 = same_restD [OF q5]
  have i5: "5 \<notin> set ((([] @ [1]) @ [4]) @ [2, 3::nat])" "(5::nat) \<noteq> NULL" "m_base_ignore (unlinked s5 5) = 0"
    "good_range (mem_kb s5 * 1024) (256 * 1024)"
    using ign k ok' by (simp_all add: s3 s4 s5 cleared_fields r5)
  have top: "unat (?k * 1024) = unat ?k * 1024" "unat ((?k - 1024) * 1024) = (unat ?k - 1024) * 1024" "1024 < unat ?k"
    using k ok' by auto
  have a5: "\<forall>j \<in> set ((([] @ [1]) @ [4]) @ [2, 3]). apart (unlinked s5 j)
      (fresh (mem_kb s5 * 1024) (256 * 1024) (same_handlers f) (ram s5 + off) 2 NULL)" for f off
    using top by (simp add: s3 s4 s5 apart_fresh apart_disabled r5 cleared_fields) arith
  from reset_remapped_step [OF s5(2) i5 a5, of RemappedFn "0xa0000"]
  obtain s6 d5 where s6: "reset_remapped 5 RemappedFn 0xa0000 s5 = Some (Inr s6)"
    "laid_out s6 (((([] @ [1]) @ [4]) @ [2, 3]) @ [5])" "unlinked s6 = (unlinked s5)(5 := d5)" "\<not> m_enable d5"
    "same_rest s5 s6" "mem_state s6 = mem_state s5" .
  note q6 = same_rest_trans [OF q5 s6(5)]
  note r6 = same_restD [OF q6]
  have i6: "6 \<notin> set (((([] @ [1]) @ [4]) @ [2, 3]) @ [5::nat])" "(6::nat) \<noteq> NULL" "m_base_ignore (unlinked s6 6) = 0"
    "good_range (mem_kb s6 * 1024) (256 * 1024)"
    using ign k ok' by (simp_all add: s3 s4 s5 s6 cleared_fields r6)
  have a6: "\<forall>j \<in> set (((([] @ [1]) @ [4]) @ [2, 3]) @ [5]). apart (unlinked s6 j)
      (fresh (mem_kb s6 * 1024) (256 * 1024) (same_handlers f) (ram s6 + off) 2 NULL)" for f off
    using top by (simp add: s3 s4 s5 s6 apart_fresh apart_disabled r6 cleared_fields) arith
  from reset_remapped_step [OF s6(2) i6 a6, of Remapped2Fn "0xd0000"]
  obtain s7 d6 where s7: "reset_remapped 6 Remapped2Fn 0xd0000 s6 = Some (Inr s7)"
    "laid_out s7 ((((([] @ [1]) @ [4]) @ [2, 3]) @ [5]) @ [6])" "unlinked s7 = (unlinked s6)(6 := d6)" "\<not> m_enable d6"
    "same_rest s6 s7" "mem_state s7 = mem_state s6" .
  have high: "reset_high s3 = Some (Inr s4)"
    using s4(1) k(6) ok' r3 by (simp add: reset_high_def cleared_fields ram_high_mapping_def not_le)
  have "mem_reset block s = Some (Inr (mem_a20_init s7))"
    using ok' k(5) s3(1) high s5(1) s6(1) s7(1)
    by (simp add: mem_reset_def then_do_def cleared_def Let_def ram_low_mapping_def
        ram_remapped_mapping_def ram_remapped_mapping2_def)
  moreover have "reset_maps block ?k s7"
    using s5(4) s6(4) s7(4)
    by (simp add: reset_maps_def s7(3) s6(3) s5(3) s4(3) s3(3) cleared_fields r3 r4)
  moreover have "mem_state s7 = internal 0x100000 ((?k - 1024) * 1024) (internal 0 0xa0000 (\<lambda>_. [0, 0, 0, 0]))"
    by (simp add: s7(6) s6(6) s5(6) s4(5) s3(5) cleared_fields)
  ultimately show thesis
    using s7(2) same_rest_trans [OF q6 s7(5)] by (intro that [of s7]) simp_all
qed

definition is_ram :: "u32 \<Rightarrow> nat \<Rightarrow> bool" where
  "is_ram k p \<longleftrightarrow> p * 0x1000 < 0xa0000 \<or> 0x100000 \<le> p * 0x1000 \<and> p * 0x1000 < 1024 * unat k"

lemma allowed_internal:
  "mem_mapping_access_allowed 2 (state_r 0x0421)" "mem_mapping_access_allowed 2 (state_w 0x0421)"
  "\<not> mem_mapping_access_allowed 2 (state_r 0)" "\<not> mem_mapping_access_allowed 2 (state_w 0)"
  by (simp_all add: mem_mapping_access_allowed_def state_r_def state_w_def)

lemma reset_states:
  assumes "1024 < unat (k::u32)" "unat k \<le> 0x3fff00" "4 dvd unat k" "n < 4"
  shows "internal 0x100000 ((k - 1024) * 1024) (internal 0 0xa0000 (\<lambda>_. [0, 0, 0, 0])) p ! n =
    (if is_ram k p then 0x0421 else 0)"
proof -
  have "set_states 15 0x1084 0x0421 [0, 0, 0, 0] = [0x0421, 0x0421, 0x0421, 0x0421]"
    by (simp add: set_states_def upt_conv_Cons bit_numeral_rec)
  moreover have "n = 0 \<or> n = 1 \<or> n = 2 \<or> n = 3" using assms(4) by auto
  ultimately show ?thesis
    using assms(1) kb_words(2) [OF assms(1-3)] by (auto simp: internal_def is_ram_def)
qed

lemma reset_winner:
  assumes ok: "reset_ok block s0" and k: "mem_kb s0 = k" and maps: "reset_maps block k s"
    and st: "mem_state s = internal 0x100000 ((k - 1024) * 1024) (internal 0 0xa0000 (\<lambda>_. [0, 0, 0, 0]))"
    and n: "n < 4" and wp: "wp p = 0"
  defines "w \<equiv> if p * 0x1000 < 0xa0000 then 1 else if is_ram k p then 4 else NULL"
  shows "winner (may_read n s p) [1, 4, 2, 3, 5, 6] = w" "winner (may_write n wp s p) [1, 4, 2, 3, 5, 6] = w"
proof -
  note ok' = ok [unfolded reset_ok_def k]
  have st': "mem_state s p ! n = (if is_ram k p then 0x0421 else 0)"
    unfolding st using ok' n by (intro reset_states) auto
  have len: "unat ((k - 1024) * 1024) = (unat k - 1024) * 1024" "1024 < unat k"
    using kb_words(2) [of k] ok' by auto
  have cov: "covers (unlinked s 1) p \<longleftrightarrow> p * 0x1000 < 0xa0000"
    "covers (unlinked s 4) p \<longleftrightarrow> 0x100000 \<le> p * 0x1000 \<and> p * 0x1000 < 1024 * unat k"
    "covers (unlinked s 2) p \<longleftrightarrow> 0xa0000 \<le> p * 0x1000 \<and> p * 0x1000 < 0x100000"
    "\<not> covers (unlinked s 3) p" "\<not> covers (unlinked s 5) p" "\<not> covers (unlinked s 6) p"
    using maps len by (auto simp: reset_maps_def covers_def fresh_def)
  have h: "has_read (unlinked s m)" "has_write (unlinked s m)" "m_flags (unlinked s m) = 2" if "m \<in> {1, 2, 4}" for m
    using maps that by (auto simp: reset_maps_def fresh_def has_read_def has_write_def same_handlers_def)
  have yes: "may_read n s p m \<longleftrightarrow> is_ram k p \<and> covers (unlinked s m) p"
    "may_write n wp s p m \<longleftrightarrow> is_ram k p \<and> covers (unlinked s m) p" if "m \<in> {1, 2, 4}" for m
    using h [OF that] by (simp_all add: may_read_def may_write_def unlinked_fields st' allowed_internal wp)
  have no: "\<not> may_read n s p m" "\<not> may_write n wp s p m" if "\<not> covers (unlinked s m) p" for m
    using that by (simp_all add: may_read_def may_write_def unlinked_fields)
  have two: "\<not> (is_ram k p \<and> covers (unlinked s 2) p)" using cov(3) by (auto simp: is_ram_def)
  show "winner (may_read n s p) [1, 4, 2, 3, 5, 6] = w"
    using two by (auto simp: winner_def w_def yes(1) no(1) cov is_ram_def simp del: One_nat_def)
  show "winner (may_write n wp s p) [1, 4, 2, 3, 5, 6] = w"
    using two by (auto simp: winner_def w_def yes(2) no(2) cov is_ram_def simp del: One_nat_def)
qed

lemma a20_init_fields [simp]:
  "gran (mem_a20_init s) = gran s" "maps (mem_a20_init s) = maps s" "ram (mem_a20_init s) = ram s"
  "host (mem_a20_init s) = host s" "cpu (mem_a20_init s) = cpu s"
  "unlinked (mem_a20_init s) = unlinked s" "ram_map (mem_a20_init s) = ram_map s"
  by (simp_all add: mem_a20_init_def flushmmucache_def unlinked_def ram_map_def fun_eq_iff)

text \<open>
  Claim C22: \<open>mem_reset\<close> on a machine with a 286 or later CPU, a 32-bit bus and more than 1
  MB of memory, in whole pages and up to 4 GB - 256K, outside system management mode, its memory block
  allocated and no aliases left in its own six mappings, returns with the memory map of a PC: RAM, zero,
  below 640K and from 1 MB to the end of memory, for reads and writes from the bus in both execution
  modes; nothing answers between 640K and 1 MB or above the end, where a read floats to FFh.
\<close>

theorem mem_reset_memory_map:
  assumes "reset_ok block s"
  shows "\<exists>s'. mem_reset block s = Some (Inr s') \<and> rammask s' = 0xffffffff \<and> cpu s' = cpu s \<and>
    (\<forall>a D. if is_ram (mem_kb s) (unat (drop_bit 12 a))
           then ram_addr s' a \<and> fst (mem_readb_phys D a s') = 0
           else bus_write_map a s' = NULL \<and> fst (mem_readb_phys D a s') = 0xff)"
proof -
  let ?k = "mem_kb s"
  note ok = assms [unfolded reset_ok_def]
  from mem_reset_result [OF assms]
  obtain s7 where s7: "mem_reset block s = Some (Inr (mem_a20_init s7))" "laid_out s7 [1, 4, 2, 3, 5, 6]"
    "same_rest (cleared block s) s7" "reset_maps block ?k s7"
    "mem_state s7 = internal 0x100000 ((?k - 1024) * 1024) (internal 0 0xa0000 (\<lambda>_. [0, 0, 0, 0]))" .
  from s7(2) have m7: "mapped s7 [1, 4, 2, 3, 5, 6]" by (simp only: laid_out_def)
  note rest = same_restD [OF s7(3), unfolded cleared_fields]
  have n: "state_index s7 = 0" using ok rest by (simp add: state_index_def)
  have e: "g_read_bus (gran s7 p) = winner (may_read 2 s7 p) [1, 4, 2, 3, 5, 6]"
    "g_write_bus (gran s7 p) = winner (may_write 2 (mem_wp_bus s7) s7 p) [1, 4, 2, 3, 5, 6]" for p
    using mapped_exact [OF m7, of p] unfolding exact_def n add_0 by blast+
  have wp: "mem_wp_bus s7 p = 0" for p using rest(6) by simp
  have two: "(2::nat) < 4" by simp
  note g = e [unfolded reset_winner(1) [OF assms refl s7(4,5) two wp] reset_winner(2) [OF assms refl s7(4,5) two wp]]
  let ?s = "mem_a20_init s7"
  have "if is_ram ?k (unat (drop_bit 12 a)) then ram_addr ?s a \<and> fst (mem_readb_phys D a ?s) = 0
    else bus_write_map a ?s = NULL \<and> fst (mem_readb_phys D a ?s) = 0xff" for a D
  proof (cases "is_ram ?k (unat (drop_bit 12 a))")
    case True
    let ?p = "unat (drop_bit 12 a)"
    have nz: "block + ucast x \<noteq> 0" for x :: u32
    proof -
      have "unat x < 2 ^ LENGTH(32)" by (rule unsigned_less)
      then have "unat (block + ucast x) = unat block + unat x"
        using ok by (simp add: unat_word_ariths mod_less)
      moreover have "0 < unat block" using ok by (simp add: unat_gt_0)
      ultimately show ?thesis by auto
    qed
    have "unat ((?k - 1024) * 1024) \<noteq> 0" using kb_words(2) [of ?k] ok by auto
    then have len: "(?k - 1024) * 1024 \<noteq> 0" by (metis unsigned_0)
    have m: "ram_map s7 (unlinked s7 1)" "ram_map s7 (unlinked s7 4)"
      "m_base (unlinked s7 1) = 0" "m_base (unlinked s7 4) = 0x100000"
      using s7(4) nz [of 0] nz [of "0x100000"] rest(1) len
      by (simp_all add: reset_maps_def ram_map_def fresh_def same_handlers_def)
    have "ram_page ?s ?p"
    proof (cases "?p * 0x1000 < 0xa0000")
      case True
      then show ?thesis using m by (simp add: ram_page_def g unlinked_fields del: One_nat_def)
    next
      case False
      then have "0x100000 \<le> ?p * 0x1000" using \<open>is_ram ?k ?p\<close> by (simp add: is_ram_def)
      then show ?thesis using m False \<open>is_ram ?k ?p\<close> by (simp add: ram_page_def g unlinked_fields)
    qed
    then have r: "ram_addr ?s a" by (simp add: ram_addr_def)
    have "unat a < 1024 * unat ?k"
    proof -
      have "unat a < unat (drop_bit 12 a) * 0x1000 + 0x1000"
        unfolding unat_drop_bit_eq by (simp add: drop_bit_eq_div)
      moreover obtain j where "unat ?k = 4 * j" using ok by (auto elim: dvdE)
      ultimately show ?thesis using True ok by (auto simp: is_ram_def)
    qed
    then have "host s7 (ram_at a s7) = 0"
      unfolding rest(2) ram_at_def rest(1) by (intro cleared_fields(9)) simp
    then show ?thesis using True r by (simp add: readb_ram ram_at_def)
  next
    case False
    then show ?thesis
      using g [of "unat (drop_bit 12 a)"]
      by (auto simp: bus_write_map_def mem_readb_phys_def bus_read_map_def is_ram_def)
  qed
  moreover have "rammask ?s = 0xffffffff"
    using ok rest(3) by (simp add: mem_a20_init_def full_rammask_def flushmmucache_def)
  ultimately show ?thesis using s7(1) rest(3) by auto
qed

section \<open>Software lookups\<close>

text \<open>Every lookup in use is listed in a slot, so that a flush, which goes by the slots, finds it.\<close>

definition lookups_listed :: "tlb \<Rightarrow> bool" where
  "lookups_listed t \<longleftrightarrow> readlnext t < 256 \<and> writelnext t < 256
     \<and> (\<forall>v. readlookup2 t v \<noteq> LOOKUP_INV \<longrightarrow> (\<exists>c<256. readlookup t c = Some v))
     \<and> (\<forall>v. writelookup2 t v \<noteq> LOOKUP_INV \<or> page_lookup t v \<noteq> None \<longrightarrow> (\<exists>c<256. writelookup t c = Some v))"

definition no_lookups :: "tlb \<Rightarrow> bool" where
  "no_lookups t \<longleftrightarrow> (\<forall>v. readlookup2 t v = LOOKUP_INV \<and> writelookup2 t v = LOOKUP_INV \<and> page_lookup t v = None)"

lemma slots_set: "set lookup_slots = {c. c < 256}"
proof (intro set_eqI iffI)
  fix c :: u32 assume "c \<in> {c. c < 256}"
  then have "c = word_of_nat (unat c)" "unat c < 256" by (simp_all add: word_less_nat_alt)
  then show "c \<in> set lookup_slots" unfolding set_map set_upt by (metis atLeast0LessThan image_eqI lessThan_iff)
qed (auto simp: word_less_nat_alt unat_of_nat take_bit_nat_eq_self)

lemma listedD:
  assumes "lookups_listed t"
  shows "readlookup2 t v \<noteq> LOOKUP_INV \<Longrightarrow> \<exists>c<256. readlookup t c = Some v"
    and "writelookup2 t v \<noteq> LOOKUP_INV \<or> page_lookup t v \<noteq> None \<Longrightarrow> \<exists>c<256. writelookup t c = Some v"
  using assms by (auto simp: lookups_listed_def)

lemma flush_read_slot_fields:
  "readlookup2 (flush_read_slot c t) v = (if readlookup t c = Some v then LOOKUP_INV else readlookup2 t v)"
  "readlookup (flush_read_slot c t) d = (if d = c then None else readlookup t d)"
  "writelookup2 (flush_read_slot c t) = writelookup2 t" "writelookup (flush_read_slot c t) = writelookup t"
  "page_lookup (flush_read_slot c t) = page_lookup t" "readlnext (flush_read_slot c t) = readlnext t"
  "writelnext (flush_read_slot c t) = writelnext t"
  by (auto simp: flush_read_slot_def split: option.splits)

lemma flush_write_slot_fields:
  "writelookup2 (flush_write_slot c t) v = (if writelookup t c = Some v then LOOKUP_INV else writelookup2 t v)"
  "page_lookup (flush_write_slot c t) v = (if writelookup t c = Some v then None else page_lookup t v)"
  "writelookup (flush_write_slot c t) d = (if d = c then None else writelookup t d)"
  "readlookup2 (flush_write_slot c t) = readlookup2 t" "readlookup (flush_write_slot c t) = readlookup t"
  "readlnext (flush_write_slot c t) = readlnext t" "writelnext (flush_write_slot c t) = writelnext t"
  by (auto simp: flush_write_slot_def split: option.splits)

lemmas flush_slot_fields = flush_read_slot_fields flush_write_slot_fields

text \<open>Flushing a list of slots leaves only lookups that another slot lists.\<close>

lemma flush_slots:
  fixes cs :: "u32 list"
  assumes "\<forall>v. readlookup2 t v \<noteq> LOOKUP_INV \<longrightarrow> (\<exists>c \<in> R. readlookup t c = Some v)"
    and "\<forall>v. writelookup2 t v \<noteq> LOOKUP_INV \<or> page_lookup t v \<noteq> None \<longrightarrow> (\<exists>c \<in> W. writelookup t c = Some v)"
  defines "t' \<equiv> fold (\<lambda>c t. flush_write_slot c (flush_read_slot c t)) cs t"
  shows "(\<forall>v. readlookup2 t' v \<noteq> LOOKUP_INV \<longrightarrow> (\<exists>c \<in> R - set cs. readlookup t' c = Some v))
     \<and> (\<forall>v. writelookup2 t' v \<noteq> LOOKUP_INV \<or> page_lookup t' v \<noteq> None \<longrightarrow> (\<exists>c \<in> W - set cs. writelookup t' c = Some v))
     \<and> readlnext t' = readlnext t \<and> writelnext t' = writelnext t"
  unfolding t'_def using assms(1,2)
proof (induction cs arbitrary: t R W)
  case (Cons c cs)
  let ?t = "flush_write_slot c (flush_read_slot c t)"
  have r: "\<forall>v. readlookup2 ?t v \<noteq> LOOKUP_INV \<longrightarrow> (\<exists>d \<in> R - {c}. readlookup ?t d = Some v)"
    using Cons.prems(1) by (simp add: flush_slot_fields) (metis Diff_iff singletonD)
  have w: "\<forall>v. writelookup2 ?t v \<noteq> LOOKUP_INV \<or> page_lookup ?t v \<noteq> None \<longrightarrow> (\<exists>d \<in> W - {c}. writelookup ?t d = Some v)"
    using Cons.prems(2) by (simp add: flush_slot_fields) (metis Diff_iff singletonD)
  have n: "readlnext ?t = readlnext t \<and> writelnext ?t = writelnext t"
    by (simp add: flush_slot_fields)
  have "R - set (c # cs) = R - {c} - set cs" "W - set (c # cs) = W - {c} - set cs" by auto
  then show ?case using Cons.IH [OF r w] n by simp
qed simp

lemma flush_all_slots:
  assumes "lookups_listed t"
  defines "t' \<equiv> fold (\<lambda>c t. flush_write_slot c (flush_read_slot c t)) lookup_slots t"
  shows "no_lookups t'" "lookups_listed t'"
proof -
  note f = flush_slots [of t "{c. c < 256}" "{c. c < 256}" lookup_slots, folded t'_def]
  have n: "readlnext t' = readlnext t" "writelnext t' = writelnext t"
    "\<forall>v. readlookup2 t' v = LOOKUP_INV \<and> writelookup2 t' v = LOOKUP_INV \<and> page_lookup t' v = None"
    using f assms(1) unfolding slots_set by (auto simp: lookups_listed_def)
  then show "no_lookups t'" "lookups_listed t'"
    using assms(1) by (auto simp: no_lookups_def lookups_listed_def)
qed

lemma flush_write_slot_listed: "lookups_listed t \<Longrightarrow> lookups_listed (flush_write_slot c t)"
  by (simp add: lookups_listed_def flush_slot_fields) metis

lemma flush_write_page_slot_listed: "lookups_listed t \<Longrightarrow> lookups_listed (flush_write_page_slot i q c t)"
  by (simp add: lookups_listed_def flush_write_page_slot_def split: option.splits) (metis option.inject)

lemma fold_listed: "(\<And>c t. lookups_listed t \<Longrightarrow> lookups_listed (f c t)) \<Longrightarrow> lookups_listed t \<Longrightarrow> lookups_listed (fold f cs t)"
  by (induction cs arbitrary: t) auto

lemma lookups_listed_other [simp]:
  "lookups_listed (t\<lparr>mmuflush := n\<rparr>) = lookups_listed t" "lookups_listed (t\<lparr>pccache := a\<rparr>) = lookups_listed t"
  "lookups_listed (t\<lparr>pccache2 := b\<rparr>) = lookups_listed t" "no_lookups (t\<lparr>mmuflush := n\<rparr>) = no_lookups t"
  "no_lookups (t\<lparr>pccache := a\<rparr>) = no_lookups t" "no_lookups (t\<lparr>pccache2 := b\<rparr>) = no_lookups t"
  by (simp_all add: lookups_listed_def no_lookups_def)

lemma next_slot:
  assumes "c = 1 \<or> c = 2 \<or> c = 4 \<or> c = 8 \<or> c = 16 \<or> c = 32 \<or> c = 64 \<or> c = 128 \<or> c = (256 :: u32)"
  shows "(k + 1) AND (c - 1) < 256"
proof -
  have "(k + 1) AND (c - 1) \<le> c - 1" by (simp add: word_and_le1)
  moreover have "c - 1 < 256" using assms by auto
  ultimately show ?thesis by (rule le_less_trans)
qed

definition cache_ok :: "'w mem_scheme \<Rightarrow> bool" where
  "cache_ok s \<longleftrightarrow> cachesize (cpu s) \<in> {1, 2, 4, 8, 16, 32, 64, 128, 256}"

lemma addreadlookup_fields:
  fixes s :: "'w mem_scheme" and phys :: u32
  assumes "virt \<noteq> 0xffffffff" "readlookup2 (tlb s) (drop_bit 12 virt) = LOOKUP_INV"
  defines "t \<equiv> tlb s" and "t' \<equiv> tlb (addreadlookup virt phys s)"
  shows "readlookup2 t' v = (if v = drop_bit 12 virt then lookup_host virt phys s
           else if readlookup t (readlnext t) = Some v then LOOKUP_INV else readlookup2 t v)"
    "readlookup t' = (readlookup t)(readlnext t := Some (drop_bit 12 virt))"
    "readlnext t' = (readlnext t + 1) AND (cachesize (cpu s) - 1)"
    "writelookup t' = writelookup t" "writelookup2 t' = writelookup2 t" "page_lookup t' = page_lookup t"
    "writelnext t' = writelnext t"
  using assms(1,2) by (auto simp: t_def t'_def addreadlookup_def Let_def split: option.splits)

lemma addwritelookup_fields:
  fixes s :: "'w mem_scheme" and phys :: u32
  assumes "virt \<noteq> 0xffffffff" "page_lookup (tlb s) (drop_bit 12 virt) = None"
  defines "t \<equiv> tlb s" and "t' \<equiv> tlb (addwritelookup virt phys s)"
  shows "v \<noteq> drop_bit 12 virt \<Longrightarrow> writelookup2 t' v
           = (if writelookup t (writelnext t) = Some v then LOOKUP_INV else writelookup2 t v)"
    "v \<noteq> drop_bit 12 virt \<Longrightarrow> page_lookup t' v
           = (if writelookup t (writelnext t) = Some v then None else page_lookup t v)"
    "writelookup t' = (writelookup t)(writelnext t := Some (drop_bit 12 virt))"
    "writelnext t' = (writelnext t + 1) AND (cachesize (cpu s) - 1)"
    "readlookup t' = readlookup t" "readlookup2 t' = readlookup2 t" "readlnext t' = readlnext t"
  using assms(1,2) by (auto simp: t_def t'_def addwritelookup_def Let_def split: option.splits)

lemma addreadlookup_listed:
  assumes l: "lookups_listed (tlb s)" and c: "cache_ok s"
  shows "lookups_listed (tlb (addreadlookup virt phys s))"
proof (cases "virt = 0xffffffff \<or> readlookup2 (tlb s) (drop_bit 12 virt) \<noteq> LOOKUP_INV")
  case True
  then show ?thesis using l by (simp add: addreadlookup_def Let_def)
next
  case False
  then have e: "virt \<noteq> 0xffffffff" "readlookup2 (tlb s) (drop_bit 12 virt) = LOOKUP_INV" by auto
  let ?t = "tlb s" and ?t' = "tlb (addreadlookup virt phys s)"
  note f = addreadlookup_fields [OF e, of phys]
  have n: "readlnext ?t' < 256" "writelnext ?t' < 256" "readlnext ?t < 256"
    using l c next_slot [of "cachesize (cpu s)" "readlnext ?t"] by (auto simp: f lookups_listed_def cache_ok_def)
  have "\<exists>c<256. readlookup ?t' c = Some v" if v: "readlookup2 ?t' v \<noteq> LOOKUP_INV" for v
  proof (cases "v = drop_bit 12 virt")
    case True
    then show ?thesis using n(3) by (intro exI [of _ "readlnext ?t"]) (simp add: f)
  next
    case False
    then have v': "readlookup2 ?t v \<noteq> LOOKUP_INV" "readlookup ?t (readlnext ?t) \<noteq> Some v"
      using v by (auto simp: f split: if_splits)
    from listedD(1) [OF l v'(1)] obtain d where "d < 256" "readlookup ?t d = Some v" by auto
    then show ?thesis using v'(2) by (intro exI [of _ d]) (auto simp: f)
  qed
  then show ?thesis using n listedD(2) [OF l] unfolding lookups_listed_def f(4-7) by blast
qed

lemma addwritelookup_listed:
  assumes l: "lookups_listed (tlb s)" and c: "cache_ok s"
  shows "lookups_listed (tlb (addwritelookup virt phys s))"
proof (cases "virt = 0xffffffff \<or> page_lookup (tlb s) (drop_bit 12 virt) \<noteq> None")
  case True
  then show ?thesis using l by (auto simp: addwritelookup_def Let_def)
next
  case False
  then have e: "virt \<noteq> 0xffffffff" "page_lookup (tlb s) (drop_bit 12 virt) = None" by auto
  let ?t = "tlb s" and ?t' = "tlb (addwritelookup virt phys s)"
  note f = addwritelookup_fields [OF e, where phys = phys]
  have n: "writelnext ?t' < 256" "readlnext ?t' < 256" "writelnext ?t < 256"
    using l c next_slot [of "cachesize (cpu s)" "writelnext ?t"] by (auto simp: f lookups_listed_def cache_ok_def)
  have "\<exists>c<256. writelookup ?t' c = Some v"
    if v: "writelookup2 ?t' v \<noteq> LOOKUP_INV \<or> page_lookup ?t' v \<noteq> None" for v
  proof (cases "v = drop_bit 12 virt")
    case True
    then show ?thesis using n(3) by (intro exI [of _ "writelnext ?t"]) (simp add: f)
  next
    case False
    then have v': "writelookup2 ?t v \<noteq> LOOKUP_INV \<or> page_lookup ?t v \<noteq> None"
      "writelookup ?t (writelnext ?t) \<noteq> Some v"
      using v by (auto simp: f split: if_splits)
    from listedD(2) [OF l v'(1)] obtain d where "d < 256" "writelookup ?t d = Some v" by auto
    then show ?thesis using v'(2) by (intro exI [of _ d]) (auto simp: f)
  qed
  then show ?thesis using n listedD(1) [OF l] unfolding lookups_listed_def f(5-7) by blast
qed

datatype lookup_op =
    AddRead u32 u32
  | AddWrite u32 u32
  | FlushPage u32 u32
  | FlushWrite
  | FlushPc
  | FlushNoPc
  | FlushAll

fun lookup_run :: "lookup_op \<Rightarrow> 'w mem_scheme \<Rightarrow> 'w mem_scheme" where
  "lookup_run (AddRead v p) s = addreadlookup v p s"
| "lookup_run (AddWrite v p) s = addwritelookup v p s"
| "lookup_run (FlushPage a v) s = mem_flush_write_page a v s"
| "lookup_run FlushWrite s = flushmmucache_write s"
| "lookup_run FlushPc s = flushmmucache_pc s"
| "lookup_run FlushNoPc s = flushmmucache_nopc s"
| "lookup_run FlushAll s = flushmmucache s"

definition lookups_reset :: "'w mem_scheme \<Rightarrow> bool" where
  "lookups_reset s \<longleftrightarrow> cache_ok s \<and> (\<exists>s0. s = resetreadlookup s0)"

definition lookup_inv :: "'w mem_scheme \<Rightarrow> bool" where
  "lookup_inv s \<longleftrightarrow> lookups_listed (tlb s) \<and> cache_ok s"

lemma lookup_run_inv:
  assumes "lookup_inv s"
  shows "lookup_inv (lookup_run op s)"
proof -
  have l: "lookups_listed (tlb s)" and c: "cache_ok s" using assms by (simp_all add: lookup_inv_def)
  have "cache_ok (lookup_run op s)"
    using c by (cases op) (auto simp: cache_ok_def addreadlookup_def addwritelookup_def Let_def
      mem_flush_write_page_def flushmmucache_write_def flushmmucache_pc_def flushmmucache_nopc_def flushmmucache_def)
  moreover have "lookups_listed (tlb (lookup_run op s))"
  proof (cases op)
    case (FlushPage a v)
    then show ?thesis using l fold_listed [OF flush_write_page_slot_listed]
      by (simp add: mem_flush_write_page_def Let_def)
  next
    case FlushWrite
    then show ?thesis using l fold_listed [OF flush_write_slot_listed]
      by (simp add: flushmmucache_write_def Let_def)
  qed (use l c flush_all_slots(2) [OF l] in \<open>simp_all add: addreadlookup_listed addwritelookup_listed
      flushmmucache_pc_def flushmmucache_nopc_def flushmmucache_def Let_def\<close>)
  ultimately show ?thesis by (simp add: lookup_inv_def)
qed

interpretation lookup_machine: safe_machine lookups_reset "\<lambda>_ _. True" "\<lambda>op s. Some (lookup_run op s)" lookup_inv
proof unfold_locales
  fix s :: "'w mem_scheme"
  assume "lookups_reset s"
  then show "lookup_inv s"
    by (auto simp: lookups_reset_def lookup_inv_def lookups_listed_def resetreadlookup_def)
qed (simp add: lookup_run_inv)

lemma recalc_walk_tlb: "recalc_walk b n p s = Some (Inr s') \<Longrightarrow> tlb s' = tlb s"
proof -
  have g: "tlb (fold (enter_granule m) cs s) = tlb s" for m cs and s :: "'b mem_scheme"
    by (induction cs arbitrary: s) (simp_all add: enter_granule_def)
  have "recalc_walk b n p s = Some r \<Longrightarrow> (\<forall>s'. r = Inr s' \<longrightarrow> tlb s' = tlb s)" for r
  proof (rule recalc_walk.raw_induct [rotated], assumption, goal_cases)
    case (1 walk base len m s r)
    then show ?case by (auto simp: Let_def g split: if_splits)
  qed
  then show "recalc_walk b n p s = Some (Inr s') \<Longrightarrow> tlb s' = tlb s" by auto
qed

text \<open>
  Claim C23: Whatever lookups have been added, evicted and flushed since they were reset, with a lookup
  cache of 1 to 256 slots (a power of two), a flush leaves none valid, neither for reads nor for writes,
  so no translation outlives it; and every recalculation of the mapping tables over a non-empty range,
  with a mapping in the list, that returns without error ends with such a flush.
\<close>

theorem lookup_flush_complete:
  assumes "reachable lookups_reset (\<lambda>_ _. True) (\<lambda>op s. Some (lookup_run op s)) s"
  shows "no_lookups (tlb (flushmmucache s)) \<and> no_lookups (tlb (flushmmucache_nopc s))
    \<and> (\<forall>base len s'. base_mapping s \<noteq> NULL \<and> len \<noteq> 0 \<and> mem_mapping_recalc base len s = Some (Inr s')
         \<longrightarrow> no_lookups (tlb s'))"
proof -
  have l: "lookups_listed (tlb s)"
    using lookup_machine.reachable_inv [OF assms] by (simp add: lookup_inv_def)
  note f = flush_all_slots(1) [OF l]
  have "no_lookups (tlb s')"
    if r: "base_mapping s \<noteq> NULL" "len \<noteq> 0" "mem_mapping_recalc base len s = Some (Inr s')" for base len s'
  proof -
    have c: "tlb (fold clear_granule cs s) = tlb s" for cs
      by (induction cs rule: rev_induct) (simp_all add: clear_granule_def)
    obtain s1 where s1: "recalc_walk base len (base_mapping s) (fold clear_granule (granules base (base + len)) s) = Some (Inr s1)"
      "s' = flushmmucache_nopc s1"
      using r by (auto simp: mem_mapping_recalc_def Let_def map_sum_def split: if_splits sum.splits) (metis obj_sumE)
    have "tlb s1 = tlb s" using recalc_walk_tlb [OF s1(1)] c by simp
    then show ?thesis using f s1(2) by (simp add: flushmmucache_nopc_def)
  qed
  then show ?thesis using f by (auto simp: flushmmucache_def flushmmucache_nopc_def Let_def)
qed

section \<open>Reading back RAM\<close>

text \<open>
  Claim C24: An access of 1, 2 or 4 bytes from the bus, all of them below 4 GB and in pages that RAM
  mappings serve for reads and writes, in either execution mode and across page boundaries, moves the
  bytes at its address in order, low byte first: a read returns them, a write stores them, and a read
  after the write returns what was written.
\<close>

theorem mem_phys_ram:
  assumes "ram_range s a (length bs)" "length bs \<in> {1, 2, 4}"
  shows "mem_read_phys D a (length bs) s = (ram_bytes a (length bs) s, no_logical s)
    \<and> mem_write_phys D a bs s = put_bytes (ram_at a s) bs (no_logical s)
    \<and> fst (mem_read_phys D a (length bs) (mem_write_phys D a bs s)) = bs"
proof -
  have w: "mem_write_phys D a bs s = put_bytes (ram_at a s) bs (no_logical s)"
    by (rule write_phys_ram [OF assms])
  have "length bs \<le> 4" using assms(2) by auto
  then have "ram_bytes a (length bs) (put_bytes (ram_at a s) bs (no_logical s)) = bs"
  proof (intro nth_equalityI)
    fix i assume "i < length (ram_bytes a (length bs) (put_bytes (ram_at a s) bs (no_logical s)))"
    then have i: "i < length bs" by (simp add: ram_bytes_def)
    then have "unat (of_nat i :: u64) = i"
      using \<open>length bs \<le> 4\<close> by (simp add: unat_of_nat take_bit_nat_eq_self)
    then have "host (put_bytes q bs t) (q + of_nat i) = bs ! i" for q and t :: "'a mem_scheme"
      using i \<open>length bs \<le> 4\<close> by (simp add: host_put_bytes)
    then show "ram_bytes a (length bs) (put_bytes (ram_at a s) bs (no_logical s)) ! i = bs ! i"
      using i by (simp add: ram_bytes_def del: put_bytes.simps)
  qed (simp add: ram_bytes_def)
  then show ?thesis using assms by (simp add: w read_phys_ram)
qed

section \<open>Aliases\<close>

text \<open>
  a mapping with \<open>base_ignore\<close> is entered at its aliases too, but a call that disables it
  recalculates only the range of its base: the entries of the aliases stay as they are and go on
  naming the disabled mapping.
\<close>

theorem mem_alias_survives_disable:
  assumes "chain (maps s) (base_mapping s) [m]" "good_range (m_base (maps s m)) (m_size (maps s m))"
    and "\<not> (unat (m_base (maps s m)) \<le> p * 0x1000 \<and> p * 0x1000 < unat (m_base (maps s m)) + unat (m_size (maps s m)))"
  shows "\<exists>s'. mem_mapping_disable m s = Some (Inr s') \<and> \<not> m_enable (maps s' m) \<and> gran s' p = gran s p"
proof -
  let ?s = "mod_map m (\<lambda>d. d\<lparr>m_enable := False\<rparr>) s"
  let ?b = "unat (m_base (maps s m))" and ?n = "unat (m_size (maps s m))"
  let ?c = "fold clear_granule (granules ?b (?b + ?n)) ?s"
  have b: "0x1000 dvd ?b" "?b + ?n \<le> 0x100000000" using assms(2) by (simp_all add: good_range_def)
  have c: "?c = ?s\<lparr>gran := (\<lambda>p. if ?b \<le> p * 0x1000 \<and> p * 0x1000 < ?b + ?n then empty_granule else gran s p)\<rparr>"
    unfolding fold_clear [OF b(1)] by (simp cong: if_cong)
  have m: "base_mapping s = m" "m \<noteq> NULL" "m_next (maps s m) = NULL" using assms(1) by auto
  have "recalc_walk ?b ?n m ?c = Some (Inr ?c)"
    using m unfolding c by (subst recalc_walk.simps, subst recalc_walk.simps)
      (simp add: map_granules_def in_table_def Let_def)
  then have "mem_mapping_recalc ?b ?n ?s = Some (Inr (if ?n = 0 then ?s else flushmmucache_nopc ?c))"
    using m granules_in_table [OF b] by (simp add: mem_mapping_recalc_def Let_def)
  then have "mem_mapping_disable m s = Some (Inr (if ?n = 0 then ?s else flushmmucache_nopc ?c))"
    by (simp add: mem_mapping_disable_def mem_mapping_do_recalc_def)
  moreover have "gran ?c p = gran s p" unfolding c using assms(3) by auto
  moreover have "maps ?c m = (maps s m)\<lparr>m_enable := False\<rparr>" unfolding c by simp
  ultimately show ?thesis by (auto simp: flushmmucache_nopc_def)
qed

section \<open>Dirty marks for the recompiler\<close>

definition is_dirty :: "'w mem_scheme \<Rightarrow> nat \<Rightarrow> u32 \<Rightarrow> bool" where
  "is_dirty s i addr \<longleftrightarrow>
     bit (pg_dirty_mask (pages s i) ! PAGE_MASK_INDEX addr) (unat (drop_bit 4 addr AND 63))"

lemma dirty_index: "PAGE_MASK_INDEX addr < 4"
proof -
  have "drop_bit 10 addr AND 3 \<le> 3" by (rule word_and_le1)
  then show ?thesis by (simp add: PAGE_MASK_INDEX_def word_le_nat_alt)
qed

lemma dirty_mark:
  assumes "length (pg_dirty_mask (pages s i)) = 4"
  shows "is_dirty (mark_dirty i k m s) i addr \<longleftrightarrow>
    is_dirty s i addr \<or> k = PAGE_MASK_INDEX addr \<and> bit m (unat (drop_bit 4 addr AND 63))"
  using assms dirty_index [of addr]
  by (cases "k = PAGE_MASK_INDEX addr") (auto simp: is_dirty_def mark_dirty_def bit_or_iff)

lemma dirty_frame [simp]:
  "is_dirty (host_writeb p v s) i addr = is_dirty s i addr" "is_dirty (host_writew p w s) i addr = is_dirty s i addr"
  "is_dirty (store_fault q s) i addr = is_dirty s i addr"
  by (simp_all add: is_dirty_def host_writew_def host_writeb_def store_fault_def)


lemma unat_low_bits:
  "unat (w AND 3) = unat (w::u32) mod 4" "unat (w AND 0xf) = unat w mod 16" "unat (w AND 63) = unat w mod 64"
  "unat (w AND 0x3ff) = unat w mod 1024" "unat (w AND 0xfff) = unat w mod 4096"
  using take_bit_eq_mask [of 2 "unat w"] take_bit_eq_mask [of 4 "unat w"] take_bit_eq_mask [of 6 "unat w"]
    take_bit_eq_mask [of 10 "unat w"] take_bit_eq_mask [of 12 "unat w"]
  by (simp_all add: unsigned_and_eq take_bit_eq_mod mask_eq_exp_minus_1)

lemma unat_drop: "unat (drop_bit n (w::u32)) = unat w div 2 ^ n"
  unfolding unat_drop_bit_eq by (simp add: drop_bit_eq_div)

lemma dirty_position:
  "PAGE_MASK_INDEX addr = unat addr div 1024 mod 4" "unat (drop_bit 4 addr AND 63) = unat addr div 16 mod 64"
  by (simp_all add: PAGE_MASK_INDEX_def unat_low_bits unat_drop [of 10, simplified] unat_drop [of 4, simplified]
      del: drop_bit_numeral_bit0)

lemma is_dirty_spill:
  assumes "length (pg_dirty_mask (pages s i)) = 4" "unat addr mod 4096 \<noteq> 4095" "over \<longleftrightarrow> unat addr mod 16 = 15"
  shows "is_dirty (mark_dirty i (PAGE_MASK_INDEX addr) (spill over (dirty_bit addr)) s) i addr"
    and "is_dirty (mark_dirty i (PAGE_MASK_INDEX addr) (spill over (dirty_bit addr)) s) i (addr + 1) \<longleftrightarrow>
      unat addr mod 1024 \<noteq> 1023 \<or> is_dirty s i (addr + 1)"
proof -
  let ?a = "unat addr" and ?k = "PAGE_MASK_INDEX addr" and ?k' = "PAGE_MASK_INDEX (addr + 1)"
  let ?b = "?a div 16 mod 64" and ?b' = "unat (drop_bit 4 (addr + 1) AND 63)"
  have nx: "unat (addr + 1) = ?a + 1"
  proof -
    have "unat addr < 2 ^ LENGTH(32)" by (rule unsigned_less)
    moreover have "?a \<noteq> 2 ^ 32 - 1" using assms(2) by auto
    ultimately show ?thesis by (simp add: unat_word_ariths mod_less)
  qed
  have bits: "bit (spill over (dirty_bit addr)) n \<longleftrightarrow> n = ?b \<or> over \<and> n = ?b + 1 \<and> n < 64" for n
  proof -
    have d: "bit (dirty_bit addr) n \<longleftrightarrow> n = ?b" for n
      unfolding dirty_bit_def dirty_position(2) bit_push_bit_one by auto
    have "bit (push_bit 1 (dirty_bit addr)) n \<longleftrightarrow> n = ?b + 1 \<and> n < 64"
      unfolding bit_push_bit_iff d by auto
    then show ?thesis by (simp only: spill_def bit_or_iff d split: if_split) auto
  qed
  show "is_dirty (mark_dirty i ?k (spill over (dirty_bit addr)) s) i addr"
    unfolding dirty_mark [OF assms(1)] bits by (simp add: dirty_position(2))
  have pos: "?k' = (?a + 1) div 1024 mod 4" "?b' = (?a + 1) div 16 mod 64" "?k = ?a div 1024 mod 4"
    by (simp_all only: dirty_position nx)
  show "is_dirty (mark_dirty i ?k (spill over (dirty_bit addr)) s) i (addr + 1) \<longleftrightarrow>
      ?a mod 1024 \<noteq> 1023 \<or> is_dirty s i (addr + 1)"
  proof (cases "?a mod 1024 = 1023")
    case True
    then have "(?a + 1) div 1024 = ?a div 1024 + 1" by (simp add: div_Suc mod_Suc)
    moreover have "Suc q mod 4 \<noteq> q mod 4" for q :: nat by presburger
    ultimately have "?k \<noteq> ?k'" unfolding pos by (metis Suc_eq_plus1)
    then show ?thesis unfolding dirty_mark [OF assms(1)] using True by simp
  next
    case False
    then have "(?a + 1) div 1024 = ?a div 1024" by (auto simp: div_Suc mod_Suc)
    then have "?k = ?k'" unfolding pos by simp
    moreover have "?a mod 1024 = 16 * ?b + ?a mod 16"
      using mod_mult2_eq [of ?a 16 64] by simp
    then have "?b' = ?b \<or> over \<and> ?b' = ?b + 1"
      unfolding pos assms(3) using False by (auto simp: div_Suc mod_Suc)
    moreover have "?b' < 64" unfolding pos by simp
    ultimately show ?thesis unfolding dirty_mark [OF assms(1)] bits using False by auto
  qed
qed

text \<open>
  a 16-bit store that changes RAM behind the recompiler's pages marks the block of its first
  byte dirty, and that of its second byte too, except when the address ends a 1 KB part of the page:
  there the mark is shifted out of the 64-bit mask, and code in the next block is not seen to change.
\<close>

theorem mem_word_store_marks:
  assumes "length (pg_dirty_mask (pages s i)) = 4" "addr AND 0xfff \<noteq> 0xfff"
    "pg_mem (pages s i) \<noteq> 0" "pg_mem (pages s i) \<noteq> page_ff s" "val \<noteq> host_readw (page_at i addr s) s"
  defines "s' \<equiv> mem_write_ramw_page addr val (Some i) s"
  shows "host_readw (page_at i addr s) s' = val \<and> is_dirty s' i addr
    \<and> (is_dirty s' i (addr + 1) \<longleftrightarrow> addr AND 0x3ff \<noteq> 0x3ff \<or> is_dirty s i (addr + 1))"
proof -
  have u: "w = v \<longleftrightarrow> unat w = unat v" for w v :: u32 by (simp add: word_unat_eq_iff)
  have a: "unat addr mod 4096 \<noteq> 4095" "(addr AND 0xf = 0xf) \<longleftrightarrow> unat addr mod 16 = 15"
    "(addr AND 0x3ff \<noteq> 0x3ff) \<longleftrightarrow> unat addr mod 1024 \<noteq> 1023"
    using assms(2) by (simp_all add: u unat_low_bits)
  have s': "s' = host_writew (page_at i addr s) val
      (mark_dirty i (PAGE_MASK_INDEX addr) (spill (addr AND 0xf = 0xf) (dirty_bit addr)) s)"
    using assms(3-5) by (simp add: s'_def page_changes_def store_fault_def)
  have "host_readw p (host_writew p v t) = v" for p v and t :: "'a mem_scheme"
    by (rule word_eq_by_bits) (auto simp: host_readw_def host_writew_def bit_simps dest: bit_imp_le_length)
  then show ?thesis
    using is_dirty_spill [OF assms(1) a(1,2)] by (simp add: s' a(3))
qed

section \<open>Concrete machines\<close>

definition blank_tlb :: tlb where
  "blank_tlb = \<lparr>readlookup = (\<lambda>_. None), readlookup2 = (\<lambda>_. LOOKUP_INV), readlookupp = (\<lambda>_. 4), readlnext = 0,
     writelookup = (\<lambda>_. None), writelookup2 = (\<lambda>_. LOOKUP_INV), writelookupp = (\<lambda>_. 4), writelnext = 0,
     page_lookup = (\<lambda>_. None), page_lookupp = (\<lambda>_. 4), pccache = 0xffffffff, pccache2 = 0, mmuflush = 0,
     high_page = False, uncached = False\<rparr>"

text \<open>A 386 with 4 MB and no mappings.\<close>

definition blank_mem :: mem where
  "blank_mem = \<lparr>host = (\<lambda>_. 0xee), host_fault = False, ram = 0x100000000, page_ff = 0x200000000, mem_kb = 4096,
     rammask = 0xffffffff, maps = (\<lambda>_. fresh 0 0 (same_handlers NoFn) 0 0 0), base_mapping = NULL,
     last_mapping = NULL, gran = (\<lambda>_. empty_granule), mem_wp = (\<lambda>_. 0), mem_wp_bus = (\<lambda>_. 0),
     mem_state = (\<lambda>_. [0, 0, 0, 0]),
     pages = (\<lambda>i. \<lparr>pg_write = True, pg_mem = 0x100000000 + of_nat (0x1000 * i), pg_dirty_mask = [0, 0, 0, 0],
       pg_block = [NULL, NULL, NULL, NULL]\<rparr>), pages_sz = 1024, tlb = blank_tlb,
     cpu = \<lparr>cpu_use_exec = True, in_smm = False, cx_smac = False, is286 = True, is6117 = False,
       cpu_16bitbus = False, es_di = 0, es_edi = 0, cachesize = 256, recomp_page = 0xffffffff,
       codegen_in_recompile = False\<rparr>,
     mem_logical_addr = 0, mmu_perm = 4, cycles = 0, mem_a20_key = 0, mem_a20_alt = 0, mem_a20_state = 0,
     remap_start_addr = 0, remap_start_addr2 = 0\<rparr>"

text \<open>Devices that read as ones and ignore writes.\<close>

definition idle_devices :: "mem devices" where
  "idle_devices = \<lparr>dev_read_b = (\<lambda>_ _ _ s. (0xff, s)), dev_read_w = (\<lambda>_ _ _ s. (0xffff, s)),
     dev_read_l = (\<lambda>_ _ _ s. (0xffffffff, s)), dev_write_b = (\<lambda>_ _ _ _ s. s),
     dev_write_w = (\<lambda>_ _ _ _ s. s), dev_write_l = (\<lambda>_ _ _ _ s. s)\<rparr>"

theorem mem_reset_memory_map_witness:
  "\<exists>s'. mem_reset 0x100000000 blank_mem = Some (Inr s')
     \<and> fst (mem_readb_phys idle_devices 0x12345 s') = 0 \<and> fst (mem_readb_phys idle_devices 0xa0000 s') = 0xff
     \<and> fst (mem_readb_phys idle_devices 0x3fffff s') = 0 \<and> fst (mem_readb_phys idle_devices 0x400000 s') = 0xff"
proof -
  have "reset_ok 0x100000000 blank_mem" by (simp add: reset_ok_def blank_mem_def fresh_def)
  from mem_reset_memory_map [OF this] obtain s' where s': "mem_reset 0x100000000 blank_mem = Some (Inr s')"
    "\<And>a. if is_ram 4096 (unat (drop_bit 12 a)) then ram_addr s' a \<and> fst (mem_readb_phys idle_devices a s') = 0
         else bus_write_map a s' = NULL \<and> fst (mem_readb_phys idle_devices a s') = 0xff"
    by (auto simp: blank_mem_def)
  show ?thesis
    using s'(1) s'(2) [of "0x12345"] s'(2) [of "0xa0000"] s'(2) [of "0x3fffff"] s'(2) [of "0x400000"]
    by (simp add: is_ram_def)
qed

definition ram_mem :: mem where
  "ram_mem = blank_mem\<lparr>
     maps := (\<lambda>_. fresh 0 0x2000 (same_handlers RamFn) 0x100000000 2 NULL),
     gran := (\<lambda>p. if p < 2 then \<lparr>g_exec = 0x100000000 + of_nat (0x1000 * p), g_write = 1, g_read = 1,
       g_write_bus = 1, g_read_bus = 1\<rparr> else empty_granule)\<rparr>"

theorem mem_phys_ram_witness:
  "fst (mem_read_phys idle_devices 0xffe 4 (mem_write_phys idle_devices 0xffe [1, 2, 3, 4] ram_mem)) = [1, 2, 3, 4]"
proof -
  have pg: "ram_page ram_mem 0" "ram_page ram_mem 1"
    by (simp_all add: ram_page_def ram_mem_def blank_mem_def ram_map_def fresh_def same_handlers_def)
  have "ram_addr ram_mem (0xffe + of_nat k)" if "k < 4" for k
  proof -
    have "k = 0 \<or> k = 1 \<or> k = 2 \<or> k = 3" using that by auto
    then show ?thesis using pg by (auto simp: ram_addr_def)
  qed
  then have "ram_range ram_mem 0xffe (length [1, 2, 3, 4 :: u8])" by (simp add: ram_range_def)
  moreover have l: "length [1, 2, 3, 4 :: u8] = 4" by simp
  ultimately show ?thesis using mem_phys_ram [of ram_mem "0xffe" "[1, 2, 3, 4]" idle_devices] unfolding l by blast
qed

text \<open>A mapping at 1000h whose bit 31 of the address is ignored, entered at both places.\<close>

definition alias_mem :: mem where
  "alias_mem = blank_mem\<lparr>base_mapping := 1, last_mapping := 1,
     maps := (\<lambda>_. (fresh 0x1000 0x1000 (same_handlers (DevFn 7)) 0 1 NULL)\<lparr>m_base_ignore := 0x80000000\<rparr>),
     gran := (\<lambda>p. if p = 1 \<or> p = 0x80001 then empty_granule\<lparr>g_read := 1, g_read_bus := 1, g_write := 1,
       g_write_bus := 1\<rparr> else empty_granule)\<rparr>"

theorem mem_alias_survives_disable_witness:
  "map_granules 0x1000 0x1000 (maps alias_mem 1) = [0x1000, 0x80001000] \<and>
   (\<exists>s'. mem_mapping_disable 1 alias_mem = Some (Inr s') \<and> \<not> m_enable (maps s' 1) \<and> g_read (gran s' 0x80001) = 1)"
proof -
  have "chain (maps alias_mem) (base_mapping alias_mem) [1]"
    "good_range (m_base (maps alias_mem 1)) (m_size (maps alias_mem 1))"
    "\<not> (unat (m_base (maps alias_mem 1)) \<le> 0x80001 * 0x1000
        \<and> 0x80001 * 0x1000 < unat (m_base (maps alias_mem 1)) + unat (m_size (maps alias_mem 1)))"
    by (simp_all add: alias_mem_def fresh_def good_range_def)
  from mem_alias_survives_disable [OF this] show ?thesis
    by (auto simp: alias_mem_def fresh_def map_granules_def granules_def upt_conv_Cons)
qed

theorem mem_word_store_marks_witness:
  "is_dirty (mem_write_ramw_page 0x3ff 0x1234 (Some 0) blank_mem) 0 0x3ff \<and>
   \<not> is_dirty (mem_write_ramw_page 0x3ff 0x1234 (Some 0) blank_mem) 0 0x400"
proof -
  have "\<not> is_dirty blank_mem 0 (0x3ff + 1)"
    by (simp add: is_dirty_def blank_mem_def PAGE_MASK_INDEX_def)
  then show ?thesis
    using mem_word_store_marks [of blank_mem 0 "0x3ff" "0x1234"]
    by (simp add: blank_mem_def host_readw_def page_at_def)
qed

theorem lookup_flush_complete_witness:
  "no_lookups (tlb (flushmmucache (addreadlookup 0x5000 0x6000 (resetreadlookup blank_mem))))"
proof -
  have "lookups_reset (resetreadlookup blank_mem)"
    unfolding lookups_reset_def
    by (intro conjI exI [of _ blank_mem] refl) (simp add: cache_ok_def resetreadlookup_def blank_mem_def)
  then have r: "reachable lookups_reset (\<lambda>_ _. True) (\<lambda>op s. Some (lookup_run op s)) (resetreadlookup blank_mem)"
    by (rule reachable_init)
  have "reachable lookups_reset (\<lambda>_ _. True) (\<lambda>op s. Some (lookup_run op s))
      (addreadlookup 0x5000 0x6000 (resetreadlookup blank_mem))"
    by (rule reachable_step [OF r, where op = "AddRead 0x5000 0x6000"]) (simp_all only: lookup_run.simps)
  from lookup_flush_complete [OF this] show ?thesis by blast
qed

definition dev_map :: "ptr \<Rightarrow> u32 \<Rightarrow> map_op" where
  "dev_map m base = Add m base 0x2000 (same_handlers (DevFn m)) 0 1 NULL"

lemma blank_mapped: "mapped blank_mem []" "laid_out blank_mem []" "no_maps blank_mem" "m_base_ignore (maps blank_mem m) = 0"
  by (simp_all add: laid_out_def mapped_def ordered_def linked_def no_maps_def spec_granule_def blank_mem_def fresh_def)

lemma laid_out_tidy: "laid_out s ms \<Longrightarrow> tidy s"
  by (auto simp: laid_out_def tidy_def mapped_def linked_def)

lemma first_dev:
  obtains s1 where "mem_mapping_add 1 0 0x2000 (same_handlers (DevFn 1)) 0 1 NULL blank_mem = Some (Inr s1)"
    "laid_out s1 [1]" "unlinked s1 = (unlinked blank_mem)(1 := fresh 0 0x2000 (same_handlers (DevFn 1)) 0 1 NULL)"
    "same_rest blank_mem s1" "mem_state s1 = mem_state blank_mem"
proof -
  have g: "good_range 0 0x2000" by (simp add: good_range_def)
  have i: "1 \<notin> set []" "(1::nat) \<noteq> NULL" by simp_all
  have n: "\<forall>k \<in> set []. apart (unlinked blank_mem k) (fresh 0 0x2000 (same_handlers (DevFn 1)) 0 1 NULL)" by simp
  from add_step [OF blank_mapped(2) i blank_mapped(4) g n] show thesis using that by auto
qed

theorem mem_mapping_calls_return_witness:
  "\<exists>s' :: mem. map_run (dev_map 1 0) blank_mem = Some (Inr s') \<and> reachable no_maps stays_tidy map_step s'"
proof -
  have "map_ok (dev_map 1 0) blank_mem"
    using blank_mapped by (simp add: dev_map_def listed_iff good_range_def)
  from mem_mapping_calls_return [OF reachable_init [of no_maps, OF blank_mapped(3)] this]
  obtain s' where "map_run (dev_map 1 0) blank_mem = Some (Inr s')"
    "tidy s' \<longrightarrow> reachable no_maps stays_tidy map_step s'" by blast
  moreover from first_dev obtain s1 where
    "mem_mapping_add 1 0 0x2000 (same_handlers (DevFn 1)) 0 1 NULL blank_mem = Some (Inr s1)" "laid_out s1 [1]" .
  ultimately show ?thesis using laid_out_tidy [of s1] by (auto simp: dev_map_def)
qed

text \<open>Two mappings that overlap in page 1: the one added last is found there.\<close>

theorem mem_tables_exact_witness:
  "\<exists>s :: mem. reachable no_maps stays_tidy map_step s \<and> (\<exists>ms. chain (maps s) (base_mapping s) ms \<and> (\<forall>p. exact s ms p))
     \<and> g_read_bus (gran s 0) = 1 \<and> g_read_bus (gran s 1) = 2 \<and> g_read_bus (gran s 2) = 2 \<and> g_read_bus (gran s 3) = NULL"
proof -
  let ?f = "\<lambda>m b. fresh b 0x2000 (same_handlers (DevFn m)) 0 1 NULL"
  have g: "good_range 0 0x2000" "good_range 0x1000 0x2000" by (simp_all add: good_range_def)
  from first_dev obtain s1 where
    s1: "mem_mapping_add 1 0 0x2000 (same_handlers (DevFn 1)) 0 1 NULL blank_mem = Some (Inr s1)"
    "laid_out s1 [1]" "unlinked s1 = (unlinked blank_mem)(1 := ?f 1 0)" "same_rest blank_mem s1"
    "mem_state s1 = mem_state blank_mem" .
  have i: "2 \<notin> set [1::nat]" "(2::nat) \<noteq> NULL" "m_base_ignore (maps s1 2) = 0"
    by (simp_all add: unlinked_fields s1(3)) (simp add: unlinked_def blank_mapped)
  have n: "\<forall>k \<in> set [1]. apart (unlinked s1 k) (?f 2 0x1000)" by (simp add: s1(3) apart_fresh)
  from add_step [OF s1(2) i g(2) n]
  obtain s2 where s2: "mem_mapping_add 2 0x1000 0x2000 (same_handlers (DevFn 2)) 0 1 NULL s1 = Some (Inr s2)"
    "laid_out s2 ([1] @ [2])" "unlinked s2 = (unlinked s1)(2 := ?f 2 0x1000)" "same_rest s1 s2"
    "mem_state s2 = mem_state s1" .
  have m1: "mapped s1 [1]" using s1(2) by (simp add: laid_out_def)
  have "reachable no_maps stays_tidy map_step s1"
    using reachable_step [OF reachable_init [of no_maps, OF blank_mapped(3)], of stays_tidy "dev_map 1 0" map_step s1]
      s1(1) blank_mapped g(1) laid_out_tidy [OF s1(2)]
    by (simp add: dev_map_def map_step_def outcome_def stays_tidy_def listed_iff)
  then have r: "reachable no_maps stays_tidy map_step s2"
    using reachable_step [of no_maps stays_tidy map_step s1 "dev_map 2 0x1000" s2]
      s2(1) i m1 g(2) laid_out_tidy [OF s2(2)]
    by (simp add: dev_map_def map_step_def outcome_def stays_tidy_def listed_iff)
  from mem_tables_exact [OF r] obtain ms where ms: "chain (maps s2) (base_mapping s2) ms" "\<forall>p. exact s2 ms p" by auto
  have "ms = [1, 2]" using chain_unique [OF ms(1)] s2(2) by (simp add: laid_out_def mapped_def linked_def)
  then have e: "g_read_bus (gran s2 p) = winner (may_read (state_index s2 + 2) s2 p) [1, 2]" for p
    using ms(2) by (simp add: exact_def)
  have "cpu s2 = cpu blank_mem" using same_restD(3) s1(4) s2(4) by metis
  then have n: "state_index s2 = 0" by (simp add: state_index_def blank_mem_def)
  have u: "unlinked s2 1 = ?f 1 0" "unlinked s2 2 = ?f 2 0x1000" by (simp_all add: s2(3) s1(3))
  have "may_read 2 s2 p 1 \<longleftrightarrow> p < 2" "may_read 2 s2 p 2 \<longleftrightarrow> 1 \<le> p \<and> p < 3" for p
    unfolding may_read_def unlinked_fields u s2(5) s1(5)
    by (auto simp: covers_def fresh_def has_read_def same_handlers_def blank_mem_def
        mem_mapping_access_allowed_def state_r_def)
  then have "g_read_bus (gran s2 p) = (if 1 \<le> p \<and> p < 3 then 2 else if p < 2 then 1 else NULL)" for p
    unfolding e n add_0 by (simp add: winner_def)
  with r ms show ?thesis by (intro exI [of _ s2]) auto
qed


text \<open>A long mapping and a later, shorter one inside it; then a range above the short one is recalculated.\<close>

definition nested_mem :: mem where
  "nested_mem = blank_mem\<lparr>base_mapping := 1, last_mapping := 2,
     maps := (\<lambda>m. if m = 1 then (fresh 0 0x3000 (same_handlers (DevFn 1)) 0 1 NULL)\<lparr>m_next := 2\<rparr>
                  else (fresh 0 0x1000 (same_handlers (DevFn 2)) 0 1 NULL)\<lparr>m_prev := 1\<rparr>)\<rparr>"

theorem mem_recalc_reenters_below_witness:
  "\<exists>s'. mem_mapping_recalc 0x2000 0x1000 nested_mem = Some (Inr s') \<and> g_read_bus (gran s' 0) = 1"
proof -
  have i: "state_index nested_mem = 0" by (simp add: state_index_def nested_mem_def blank_mem_def)
  have r: "may_read (state_index nested_mem + 2) nested_mem 0 m" if "m \<in> {1, 2}" for m
    using that unfolding i by (auto simp: nested_mem_def may_read_def covers_def fresh_def has_read_def
        same_handlers_def blank_mem_def mem_mapping_access_allowed_def state_r_def)
  have m: "chain (maps nested_mem) (base_mapping nested_mem) [1, 2]"
    "plain_mapping (maps nested_mem 1)" "plain_mapping (maps nested_mem 2)"
    by (simp_all add: nested_mem_def fresh_def plain_mapping_def)
  have e: "map_end (maps nested_mem 2) \<le> 0x2000" "0x2000 < map_end (maps nested_mem 1)"
    by (simp_all add: nested_mem_def fresh_def map_end_def)
  have b: "(0::nat) * 0x1000 < 0x2000" "0x1000 dvd (0x2000::nat)" "0x2000 + 0x1000 \<le> (0x100000000::nat)"
    "0 < (0x1000::nat)" by simp_all
  from mem_recalc_reenters_below [OF m r r b(1) e b(2-4)] show ?thesis by blast
qed

end
