(* ===== verification/X86_Flags.thy ===== *)
theory X86_Flags
  imports Prelude
begin

text \<open>
  The lazy flags of the x86 interpreter: \<open>src/src/cpu/x86_flags.h\<close>, with the table of
  \<open>makeznptable\<close> in \<open>src/src/cpu/x86.c\<close>. An instruction does not compute the arithmetic flags; it
  stores its kind, operands and result (\<open>flags_op\<close>, \<open>flags_op1\<close>, \<open>flags_op2\<close>, \<open>flags_res\<close>), and
  \<open>CF_SET\<close> and the others compute a flag when it is read. \<open>flags_rebuild\<close> writes them all to
  \<open>flags\<close>.

  \<open>flags_op\<close> has the constants of the build with the new recompiler (\<open>USE_NEW_DYNAREC\<close>). The other
  build has fewer, and computes the flags of ADC and SBB at once: \<open>setadc8_old\<close> and its siblings.
  A C truth value is a \<open>bool\<close>. A shift by 32 or more, undefined in C, gives 0 here; the instructions
  shift by 1 to 31. \<open>tempc\<close>, an \<open>int\<close> that is 0 or 1, is a word.

  \<open>X86_Flags_Spec\<close> gives the reference and the proofs.
\<close>

section \<open>The code\<close>

datatype flags_op = FLAGS_UNKNOWN
  | FLAGS_ZN8 | FLAGS_ZN16 | FLAGS_ZN32
  | FLAGS_ADD8 | FLAGS_ADD16 | FLAGS_ADD32
  | FLAGS_SUB8 | FLAGS_SUB16 | FLAGS_SUB32
  | FLAGS_SHL8 | FLAGS_SHL16 | FLAGS_SHL32
  | FLAGS_SHR8 | FLAGS_SHR16 | FLAGS_SHR32
  | FLAGS_SAR8 | FLAGS_SAR16 | FLAGS_SAR32
  | FLAGS_ROL8 | FLAGS_ROL16 | FLAGS_ROL32
  | FLAGS_ROR8 | FLAGS_ROR16 | FLAGS_ROR32
  | FLAGS_INC8 | FLAGS_INC16 | FLAGS_INC32
  | FLAGS_DEC8 | FLAGS_DEC16 | FLAGS_DEC32
  | FLAGS_ADC8 | FLAGS_ADC16 | FLAGS_ADC32
  | FLAGS_SBC8 | FLAGS_SBC16 | FLAGS_SBC32

record x86_flags =
  flags_op :: flags_op
  flags_res :: u32
  flags_op1 :: u32
  flags_op2 :: u32
  flags :: u16
  tempc :: u32

abbreviation C_FLAG :: u16 where "C_FLAG \<equiv> 0x0001"
abbreviation P_FLAG :: u16 where "P_FLAG \<equiv> 0x0004"
abbreviation A_FLAG :: u16 where "A_FLAG \<equiv> 0x0010"
abbreviation Z_FLAG :: u16 where "Z_FLAG \<equiv> 0x0040"
abbreviation N_FLAG :: u16 where "N_FLAG \<equiv> 0x0080"
abbreviation V_FLAG :: u16 where "V_FLAG \<equiv> 0x0800"

text \<open>The entries of \<open>znptable8\<close> and \<open>znptable16\<close>, as \<open>makeznptable\<close> fills them in.\<close>

definition low_ones :: "'a::len word \<Rightarrow> nat" where
  "low_ones c = length (filter (\<lambda>e. c AND push_bit e 1 \<noteq> 0) [0..<8])"

definition znptable8 :: "u8 \<Rightarrow> u16" where
  "znptable8 c = (if odd (low_ones c) then 0 else P_FLAG) OR (if c = 0 then Z_FLAG else 0)
     OR (if c AND 0x80 \<noteq> 0 then N_FLAG else 0)"

definition znptable16 :: "u16 \<Rightarrow> u16" where
  "znptable16 c = (if odd (low_ones c) then 0 else P_FLAG) OR (if c = 0 then Z_FLAG else 0)
     OR (if c AND 0x8000 \<noteq> 0 then N_FLAG else 0)"

definition ZF_SET :: "'w x86_flags_scheme \<Rightarrow> bool" where
  "ZF_SET s = (case flags_op s of
     FLAGS_UNKNOWN \<Rightarrow> flags s AND Z_FLAG \<noteq> 0
   | FLAGS_ROL8 \<Rightarrow> flags s AND Z_FLAG \<noteq> 0
   | FLAGS_ROL16 \<Rightarrow> flags s AND Z_FLAG \<noteq> 0
   | FLAGS_ROL32 \<Rightarrow> flags s AND Z_FLAG \<noteq> 0
   | FLAGS_ROR8 \<Rightarrow> flags s AND Z_FLAG \<noteq> 0
   | FLAGS_ROR16 \<Rightarrow> flags s AND Z_FLAG \<noteq> 0
   | FLAGS_ROR32 \<Rightarrow> flags s AND Z_FLAG \<noteq> 0
   | _ \<Rightarrow> flags_res s = 0)"

definition NF_SET :: "'w x86_flags_scheme \<Rightarrow> bool" where
  "NF_SET s = (case flags_op s of
     FLAGS_UNKNOWN \<Rightarrow> flags s AND N_FLAG \<noteq> 0
   | FLAGS_ROL8 \<Rightarrow> flags s AND N_FLAG \<noteq> 0
   | FLAGS_ROL16 \<Rightarrow> flags s AND N_FLAG \<noteq> 0
   | FLAGS_ROL32 \<Rightarrow> flags s AND N_FLAG \<noteq> 0
   | FLAGS_ROR8 \<Rightarrow> flags s AND N_FLAG \<noteq> 0
   | FLAGS_ROR16 \<Rightarrow> flags s AND N_FLAG \<noteq> 0
   | FLAGS_ROR32 \<Rightarrow> flags s AND N_FLAG \<noteq> 0
   | FLAGS_ZN8 \<Rightarrow> flags_res s AND 0x80 \<noteq> 0
   | FLAGS_ADD8 \<Rightarrow> flags_res s AND 0x80 \<noteq> 0
   | FLAGS_SUB8 \<Rightarrow> flags_res s AND 0x80 \<noteq> 0
   | FLAGS_SHL8 \<Rightarrow> flags_res s AND 0x80 \<noteq> 0
   | FLAGS_SHR8 \<Rightarrow> flags_res s AND 0x80 \<noteq> 0
   | FLAGS_SAR8 \<Rightarrow> flags_res s AND 0x80 \<noteq> 0
   | FLAGS_INC8 \<Rightarrow> flags_res s AND 0x80 \<noteq> 0
   | FLAGS_DEC8 \<Rightarrow> flags_res s AND 0x80 \<noteq> 0
   | FLAGS_ADC8 \<Rightarrow> flags_res s AND 0x80 \<noteq> 0
   | FLAGS_SBC8 \<Rightarrow> flags_res s AND 0x80 \<noteq> 0
   | FLAGS_ZN16 \<Rightarrow> flags_res s AND 0x8000 \<noteq> 0
   | FLAGS_ADD16 \<Rightarrow> flags_res s AND 0x8000 \<noteq> 0
   | FLAGS_SUB16 \<Rightarrow> flags_res s AND 0x8000 \<noteq> 0
   | FLAGS_SHL16 \<Rightarrow> flags_res s AND 0x8000 \<noteq> 0
   | FLAGS_SHR16 \<Rightarrow> flags_res s AND 0x8000 \<noteq> 0
   | FLAGS_SAR16 \<Rightarrow> flags_res s AND 0x8000 \<noteq> 0
   | FLAGS_INC16 \<Rightarrow> flags_res s AND 0x8000 \<noteq> 0
   | FLAGS_DEC16 \<Rightarrow> flags_res s AND 0x8000 \<noteq> 0
   | FLAGS_ADC16 \<Rightarrow> flags_res s AND 0x8000 \<noteq> 0
   | FLAGS_SBC16 \<Rightarrow> flags_res s AND 0x8000 \<noteq> 0
   | FLAGS_ZN32 \<Rightarrow> flags_res s AND 0x80000000 \<noteq> 0
   | FLAGS_ADD32 \<Rightarrow> flags_res s AND 0x80000000 \<noteq> 0
   | FLAGS_SUB32 \<Rightarrow> flags_res s AND 0x80000000 \<noteq> 0
   | FLAGS_SHL32 \<Rightarrow> flags_res s AND 0x80000000 \<noteq> 0
   | FLAGS_SHR32 \<Rightarrow> flags_res s AND 0x80000000 \<noteq> 0
   | FLAGS_SAR32 \<Rightarrow> flags_res s AND 0x80000000 \<noteq> 0
   | FLAGS_INC32 \<Rightarrow> flags_res s AND 0x80000000 \<noteq> 0
   | FLAGS_DEC32 \<Rightarrow> flags_res s AND 0x80000000 \<noteq> 0
   | FLAGS_ADC32 \<Rightarrow> flags_res s AND 0x80000000 \<noteq> 0
   | FLAGS_SBC32 \<Rightarrow> flags_res s AND 0x80000000 \<noteq> 0)"

definition PF_SET :: "'w x86_flags_scheme \<Rightarrow> bool" where
  "PF_SET s = (case flags_op s of
     FLAGS_UNKNOWN \<Rightarrow> flags s AND P_FLAG \<noteq> 0
   | FLAGS_ROL8 \<Rightarrow> flags s AND P_FLAG \<noteq> 0
   | FLAGS_ROL16 \<Rightarrow> flags s AND P_FLAG \<noteq> 0
   | FLAGS_ROL32 \<Rightarrow> flags s AND P_FLAG \<noteq> 0
   | FLAGS_ROR8 \<Rightarrow> flags s AND P_FLAG \<noteq> 0
   | FLAGS_ROR16 \<Rightarrow> flags s AND P_FLAG \<noteq> 0
   | FLAGS_ROR32 \<Rightarrow> flags s AND P_FLAG \<noteq> 0
   | _ \<Rightarrow> znptable8 (ucast (flags_res s AND 0xff)) AND P_FLAG \<noteq> 0)"

text \<open>The overflow flag, by the top bit \<open>m\<close> of the operand size.\<close>

definition overflow_add :: "u32 \<Rightarrow> 'w x86_flags_scheme \<Rightarrow> bool" where
  "overflow_add m s \<longleftrightarrow> (flags_op1 s XOR flags_op2 s) AND m = 0 \<and> (flags_op1 s XOR flags_res s) AND m \<noteq> 0"

definition overflow_sub :: "u32 \<Rightarrow> 'w x86_flags_scheme \<Rightarrow> bool" where
  "overflow_sub m s \<longleftrightarrow> (flags_op1 s XOR flags_op2 s) AND (flags_op1 s XOR flags_res s) AND m \<noteq> 0"

definition overflow_shl :: "u32 \<Rightarrow> 'w x86_flags_scheme \<Rightarrow> bool" where
  "overflow_shl m s \<longleftrightarrow> (push_bit (unat (flags_op2 s)) (flags_op1 s)
     XOR push_bit (unat (flags_op2 s - 1)) (flags_op1 s)) AND m \<noteq> 0"

definition overflow_shr :: "u32 \<Rightarrow> 'w x86_flags_scheme \<Rightarrow> bool" where
  "overflow_shr m s \<longleftrightarrow> flags_op2 s = 1 \<and> flags_op1 s AND m \<noteq> 0"

definition overflow_rol :: "nat \<Rightarrow> 'w x86_flags_scheme \<Rightarrow> bool" where
  "overflow_rol n s \<longleftrightarrow> (flags_res s XOR drop_bit n (flags_res s)) AND 1 \<noteq> 0"

definition overflow_ror :: "u32 \<Rightarrow> 'w x86_flags_scheme \<Rightarrow> bool" where
  "overflow_ror m s \<longleftrightarrow> (flags_res s XOR drop_bit 1 (flags_res s)) AND m \<noteq> 0"

definition VF_SET :: "'w x86_flags_scheme \<Rightarrow> bool" where
  "VF_SET s = (case flags_op s of
     FLAGS_UNKNOWN \<Rightarrow> flags s AND V_FLAG \<noteq> 0
   | FLAGS_ZN8 \<Rightarrow> False | FLAGS_ZN16 \<Rightarrow> False | FLAGS_ZN32 \<Rightarrow> False
   | FLAGS_SAR8 \<Rightarrow> False | FLAGS_SAR16 \<Rightarrow> False | FLAGS_SAR32 \<Rightarrow> False
   | FLAGS_ADC8 \<Rightarrow> overflow_add 0x80 s | FLAGS_ADD8 \<Rightarrow> overflow_add 0x80 s | FLAGS_INC8 \<Rightarrow> overflow_add 0x80 s
   | FLAGS_ADC16 \<Rightarrow> overflow_add 0x8000 s | FLAGS_ADD16 \<Rightarrow> overflow_add 0x8000 s | FLAGS_INC16 \<Rightarrow> overflow_add 0x8000 s
   | FLAGS_ADC32 \<Rightarrow> overflow_add 0x80000000 s
   | FLAGS_ADD32 \<Rightarrow> overflow_add 0x80000000 s
   | FLAGS_INC32 \<Rightarrow> overflow_add 0x80000000 s
   | FLAGS_SBC8 \<Rightarrow> overflow_sub 0x80 s | FLAGS_SUB8 \<Rightarrow> overflow_sub 0x80 s | FLAGS_DEC8 \<Rightarrow> overflow_sub 0x80 s
   | FLAGS_SBC16 \<Rightarrow> overflow_sub 0x8000 s | FLAGS_SUB16 \<Rightarrow> overflow_sub 0x8000 s | FLAGS_DEC16 \<Rightarrow> overflow_sub 0x8000 s
   | FLAGS_SBC32 \<Rightarrow> overflow_sub 0x80000000 s
   | FLAGS_SUB32 \<Rightarrow> overflow_sub 0x80000000 s
   | FLAGS_DEC32 \<Rightarrow> overflow_sub 0x80000000 s
   | FLAGS_SHL8 \<Rightarrow> overflow_shl 0x80 s
   | FLAGS_SHL16 \<Rightarrow> overflow_shl 0x8000 s
   | FLAGS_SHL32 \<Rightarrow> overflow_shl 0x80000000 s
   | FLAGS_SHR8 \<Rightarrow> overflow_shr 0x80 s
   | FLAGS_SHR16 \<Rightarrow> overflow_shr 0x8000 s
   | FLAGS_SHR32 \<Rightarrow> overflow_shr 0x80000000 s
   | FLAGS_ROL8 \<Rightarrow> overflow_rol 7 s
   | FLAGS_ROL16 \<Rightarrow> overflow_rol 15 s
   | FLAGS_ROL32 \<Rightarrow> overflow_rol 31 s
   | FLAGS_ROR8 \<Rightarrow> overflow_ror 0x40 s
   | FLAGS_ROR16 \<Rightarrow> overflow_ror 0x4000 s
   | FLAGS_ROR32 \<Rightarrow> overflow_ror 0x40000000 s)"

text \<open>The nibbles of the operands and of the result.\<close>

abbreviation nib :: "u32 \<Rightarrow> u32" where "nib w \<equiv> w AND 0xf"

definition half_adc :: "u32 \<Rightarrow> 'w x86_flags_scheme \<Rightarrow> bool" where
  "half_adc full s \<longleftrightarrow> nib (flags_res s) < nib (flags_op1 s)
     \<or> nib (flags_res s) = nib (flags_op1 s) \<and> flags_op2 s = full"

definition half_sbc :: "'w x86_flags_scheme \<Rightarrow> bool" where
  "half_sbc s \<longleftrightarrow> nib (flags_op1 s) < nib (flags_op2 s)
     \<or> nib (flags_op1 s) = nib (flags_op2 s) \<and> nib (flags_res s) \<noteq> 0"

definition AF_SET :: "'w x86_flags_scheme \<Rightarrow> bool" where
  "AF_SET s = (case flags_op s of
     FLAGS_UNKNOWN \<Rightarrow> flags s AND A_FLAG \<noteq> 0
   | FLAGS_ROL8 \<Rightarrow> flags s AND A_FLAG \<noteq> 0
   | FLAGS_ROL16 \<Rightarrow> flags s AND A_FLAG \<noteq> 0
   | FLAGS_ROL32 \<Rightarrow> flags s AND A_FLAG \<noteq> 0
   | FLAGS_ROR8 \<Rightarrow> flags s AND A_FLAG \<noteq> 0
   | FLAGS_ROR16 \<Rightarrow> flags s AND A_FLAG \<noteq> 0
   | FLAGS_ROR32 \<Rightarrow> flags s AND A_FLAG \<noteq> 0
   | FLAGS_ZN8 \<Rightarrow> False | FLAGS_ZN16 \<Rightarrow> False | FLAGS_ZN32 \<Rightarrow> False
   | FLAGS_SHL8 \<Rightarrow> False | FLAGS_SHL16 \<Rightarrow> False | FLAGS_SHL32 \<Rightarrow> False
   | FLAGS_SHR8 \<Rightarrow> False | FLAGS_SHR16 \<Rightarrow> False | FLAGS_SHR32 \<Rightarrow> False
   | FLAGS_SAR8 \<Rightarrow> False | FLAGS_SAR16 \<Rightarrow> False | FLAGS_SAR32 \<Rightarrow> False
   | FLAGS_ADD8 \<Rightarrow> (nib (flags_op1 s) + nib (flags_op2 s)) AND 0x10 \<noteq> 0
   | FLAGS_ADD16 \<Rightarrow> (nib (flags_op1 s) + nib (flags_op2 s)) AND 0x10 \<noteq> 0
   | FLAGS_ADD32 \<Rightarrow> (nib (flags_op1 s) + nib (flags_op2 s)) AND 0x10 \<noteq> 0
   | FLAGS_INC8 \<Rightarrow> (nib (flags_op1 s) + nib (flags_op2 s)) AND 0x10 \<noteq> 0
   | FLAGS_INC16 \<Rightarrow> (nib (flags_op1 s) + nib (flags_op2 s)) AND 0x10 \<noteq> 0
   | FLAGS_INC32 \<Rightarrow> (nib (flags_op1 s) + nib (flags_op2 s)) AND 0x10 \<noteq> 0
   | FLAGS_ADC8 \<Rightarrow> half_adc 0xff s
   | FLAGS_ADC16 \<Rightarrow> half_adc 0xffff s
   | FLAGS_ADC32 \<Rightarrow> half_adc 0xffffffff s
   | FLAGS_SUB8 \<Rightarrow> (nib (flags_op1 s) - nib (flags_op2 s)) AND 0x10 \<noteq> 0
   | FLAGS_SUB16 \<Rightarrow> (nib (flags_op1 s) - nib (flags_op2 s)) AND 0x10 \<noteq> 0
   | FLAGS_SUB32 \<Rightarrow> (nib (flags_op1 s) - nib (flags_op2 s)) AND 0x10 \<noteq> 0
   | FLAGS_DEC8 \<Rightarrow> (nib (flags_op1 s) - nib (flags_op2 s)) AND 0x10 \<noteq> 0
   | FLAGS_DEC16 \<Rightarrow> (nib (flags_op1 s) - nib (flags_op2 s)) AND 0x10 \<noteq> 0
   | FLAGS_DEC32 \<Rightarrow> (nib (flags_op1 s) - nib (flags_op2 s)) AND 0x10 \<noteq> 0
   | FLAGS_SBC8 \<Rightarrow> half_sbc s | FLAGS_SBC16 \<Rightarrow> half_sbc s | FLAGS_SBC32 \<Rightarrow> half_sbc s)"

definition carry_adc :: "u32 \<Rightarrow> 'w x86_flags_scheme \<Rightarrow> bool" where
  "carry_adc full s \<longleftrightarrow> flags_res s < flags_op1 s \<or> flags_res s = flags_op1 s \<and> flags_op2 s = full"

definition carry_sbc :: "'w x86_flags_scheme \<Rightarrow> bool" where
  "carry_sbc s \<longleftrightarrow> flags_op1 s < flags_op2 s \<or> flags_op1 s = flags_op2 s \<and> flags_res s \<noteq> 0"

definition carry_shl :: "u32 \<Rightarrow> 'w x86_flags_scheme \<Rightarrow> bool" where
  "carry_shl m s \<longleftrightarrow> push_bit (unat (flags_op2 s - 1)) (flags_op1 s) AND m \<noteq> 0"

definition carry_shr :: "'w x86_flags_scheme \<Rightarrow> bool" where
  "carry_shr s \<longleftrightarrow> drop_bit (unat (flags_op2 s - 1)) (flags_op1 s) AND 1 \<noteq> 0"

text \<open>The operand sign-extended to \<open>int\<close>.\<close>

definition carry_sar :: "u32 \<Rightarrow> 'w x86_flags_scheme \<Rightarrow> bool" where
  "carry_sar extended s \<longleftrightarrow> signed_drop_bit (unat (flags_op2 s - 1)) extended AND 1 \<noteq> 0"

definition CF_SET :: "'w x86_flags_scheme \<Rightarrow> bool" where
  "CF_SET s = (case flags_op s of
     FLAGS_UNKNOWN \<Rightarrow> flags s AND C_FLAG \<noteq> 0
   | FLAGS_INC8 \<Rightarrow> flags s AND C_FLAG \<noteq> 0
   | FLAGS_INC16 \<Rightarrow> flags s AND C_FLAG \<noteq> 0
   | FLAGS_INC32 \<Rightarrow> flags s AND C_FLAG \<noteq> 0
   | FLAGS_DEC8 \<Rightarrow> flags s AND C_FLAG \<noteq> 0
   | FLAGS_DEC16 \<Rightarrow> flags s AND C_FLAG \<noteq> 0
   | FLAGS_DEC32 \<Rightarrow> flags s AND C_FLAG \<noteq> 0
   | FLAGS_ZN8 \<Rightarrow> False | FLAGS_ZN16 \<Rightarrow> False | FLAGS_ZN32 \<Rightarrow> False
   | FLAGS_ADD8 \<Rightarrow> (flags_op1 s + flags_op2 s) AND 0x100 \<noteq> 0
   | FLAGS_ADD16 \<Rightarrow> (flags_op1 s + flags_op2 s) AND 0x10000 \<noteq> 0
   | FLAGS_ADD32 \<Rightarrow> flags_res s < flags_op1 s
   | FLAGS_ADC8 \<Rightarrow> carry_adc 0xff s
   | FLAGS_ADC16 \<Rightarrow> carry_adc 0xffff s
   | FLAGS_ADC32 \<Rightarrow> carry_adc 0xffffffff s
   | FLAGS_SUB8 \<Rightarrow> flags_op1 s < flags_op2 s
   | FLAGS_SUB16 \<Rightarrow> flags_op1 s < flags_op2 s
   | FLAGS_SUB32 \<Rightarrow> flags_op1 s < flags_op2 s
   | FLAGS_SBC8 \<Rightarrow> carry_sbc s | FLAGS_SBC16 \<Rightarrow> carry_sbc s | FLAGS_SBC32 \<Rightarrow> carry_sbc s
   | FLAGS_SHL8 \<Rightarrow> carry_shl 0x80 s
   | FLAGS_SHL16 \<Rightarrow> carry_shl 0x8000 s
   | FLAGS_SHL32 \<Rightarrow> carry_shl 0x80000000 s
   | FLAGS_SHR8 \<Rightarrow> carry_shr s | FLAGS_SHR16 \<Rightarrow> carry_shr s | FLAGS_SHR32 \<Rightarrow> carry_shr s
   | FLAGS_SAR8 \<Rightarrow> carry_sar (scast (ucast (flags_op1 s) :: u8)) s
   | FLAGS_SAR16 \<Rightarrow> carry_sar (scast (ucast (flags_op1 s) :: u16)) s
   | FLAGS_SAR32 \<Rightarrow> carry_sar (flags_op1 s) s
   | FLAGS_ROL8 \<Rightarrow> flags_res s AND 1 \<noteq> 0
   | FLAGS_ROL16 \<Rightarrow> flags_res s AND 1 \<noteq> 0
   | FLAGS_ROL32 \<Rightarrow> flags_res s AND 1 \<noteq> 0
   | FLAGS_ROR8 \<Rightarrow> flags_res s AND 0x80 \<noteq> 0
   | FLAGS_ROR16 \<Rightarrow> flags_res s AND 0x8000 \<noteq> 0
   | FLAGS_ROR32 \<Rightarrow> flags_res s AND 0x80000000 \<noteq> 0)"

definition set_if :: "bool \<Rightarrow> u16 \<Rightarrow> u16 \<Rightarrow> u16" where
  "set_if b m w = (if b then w OR m else w)"

definition flags_rebuild :: "'w x86_flags_scheme \<Rightarrow> 'w x86_flags_scheme" where
  "flags_rebuild s = (if flags_op s \<noteq> FLAGS_UNKNOWN then
     let tempf = set_if (CF_SET s) C_FLAG 0;
         tempf = set_if (PF_SET s) P_FLAG tempf;
         tempf = set_if (AF_SET s) A_FLAG tempf;
         tempf = set_if (ZF_SET s) Z_FLAG tempf;
         tempf = set_if (NF_SET s) N_FLAG tempf;
         tempf = set_if (VF_SET s) V_FLAG tempf
     in s\<lparr>flags := (flags s AND NOT 0x8d5) OR tempf, flags_op := FLAGS_UNKNOWN\<rparr>
     else s)"

definition flags_extract :: "'w x86_flags_scheme \<Rightarrow> 'w x86_flags_scheme" where
  "flags_extract s = s\<lparr>flags_op := FLAGS_UNKNOWN\<rparr>"

definition flags_rebuild_c :: "'w x86_flags_scheme \<Rightarrow> 'w x86_flags_scheme" where
  "flags_rebuild_c s = (if flags_op s \<noteq> FLAGS_UNKNOWN then
     if CF_SET s then s\<lparr>flags := flags s OR C_FLAG\<rparr> else s\<lparr>flags := flags s AND NOT C_FLAG\<rparr>
     else s)"

definition flags_res_valid :: "'w x86_flags_scheme \<Rightarrow> bool" where
  "flags_res_valid s \<longleftrightarrow> flags_op s \<notin> {FLAGS_UNKNOWN, FLAGS_ROL8, FLAGS_ROL16, FLAGS_ROL32,
     FLAGS_ROR8, FLAGS_ROR16, FLAGS_ROR32}"

definition setznp8 :: "u8 \<Rightarrow> 'w x86_flags_scheme \<Rightarrow> 'w x86_flags_scheme" where
  "setznp8 val s = s\<lparr>flags_op := FLAGS_ZN8, flags_res := ucast val\<rparr>"

definition setznp16 :: "u16 \<Rightarrow> 'w x86_flags_scheme \<Rightarrow> 'w x86_flags_scheme" where
  "setznp16 val s = s\<lparr>flags_op := FLAGS_ZN16, flags_res := ucast val\<rparr>"

definition setznp32 :: "u32 \<Rightarrow> 'w x86_flags_scheme \<Rightarrow> 'w x86_flags_scheme" where
  "setznp32 val s = s\<lparr>flags_op := FLAGS_ZN32, flags_res := val\<rparr>"

definition set_flags_shift :: "flags_op \<Rightarrow> u32 \<Rightarrow> u32 \<Rightarrow> u32 \<Rightarrow> 'w x86_flags_scheme \<Rightarrow> 'w x86_flags_scheme" where
  "set_flags_shift op orig shift res s =
     s\<lparr>flags_op := op, flags_res := res, flags_op1 := orig, flags_op2 := shift\<rparr>"

definition set_flags_rotate :: "flags_op \<Rightarrow> u32 \<Rightarrow> 'w x86_flags_scheme \<Rightarrow> 'w x86_flags_scheme" where
  "set_flags_rotate op res s = s\<lparr>flags_op := op, flags_res := res\<rparr>"

definition set_flags_arith :: "flags_op \<Rightarrow> u32 \<Rightarrow> u32 \<Rightarrow> u32 \<Rightarrow> 'w x86_flags_scheme \<Rightarrow> 'w x86_flags_scheme" where
  "set_flags_arith op a b res s =
     s\<lparr>flags_op1 := a, flags_op2 := b, flags_res := res, flags_op := op\<rparr>"

definition setadd8 :: "u8 \<Rightarrow> u8 \<Rightarrow> 'w x86_flags_scheme \<Rightarrow> 'w x86_flags_scheme" where
  "setadd8 a b s = set_flags_arith FLAGS_ADD8 (ucast a) (ucast b) (((ucast a) + (ucast b)) AND 0xff) s"

definition setadd16 :: "u16 \<Rightarrow> u16 \<Rightarrow> 'w x86_flags_scheme \<Rightarrow> 'w x86_flags_scheme" where
  "setadd16 a b s = set_flags_arith FLAGS_ADD16 (ucast a) (ucast b) (((ucast a) + (ucast b)) AND 0xffff) s"

definition setadd32 :: "u32 \<Rightarrow> u32 \<Rightarrow> 'w x86_flags_scheme \<Rightarrow> 'w x86_flags_scheme" where
  "setadd32 a b s = set_flags_arith FLAGS_ADD32 a b ((a + b)) s"

definition setadd8nc :: "u8 \<Rightarrow> u8 \<Rightarrow> 'w x86_flags_scheme \<Rightarrow> 'w x86_flags_scheme" where
  "setadd8nc a b s = set_flags_arith FLAGS_INC8 (ucast a) (ucast b) (((ucast a) + (ucast b)) AND 0xff) (flags_rebuild_c s)"

definition setadd16nc :: "u16 \<Rightarrow> u16 \<Rightarrow> 'w x86_flags_scheme \<Rightarrow> 'w x86_flags_scheme" where
  "setadd16nc a b s = set_flags_arith FLAGS_INC16 (ucast a) (ucast b) (((ucast a) + (ucast b)) AND 0xffff) (flags_rebuild_c s)"

definition setadd32nc :: "u32 \<Rightarrow> u32 \<Rightarrow> 'w x86_flags_scheme \<Rightarrow> 'w x86_flags_scheme" where
  "setadd32nc a b s = set_flags_arith FLAGS_INC32 a b ((a + b)) (flags_rebuild_c s)"

definition setsub8 :: "u8 \<Rightarrow> u8 \<Rightarrow> 'w x86_flags_scheme \<Rightarrow> 'w x86_flags_scheme" where
  "setsub8 a b s = set_flags_arith FLAGS_SUB8 (ucast a) (ucast b) (((ucast a) - (ucast b)) AND 0xff) s"

definition setsub16 :: "u16 \<Rightarrow> u16 \<Rightarrow> 'w x86_flags_scheme \<Rightarrow> 'w x86_flags_scheme" where
  "setsub16 a b s = set_flags_arith FLAGS_SUB16 (ucast a) (ucast b) (((ucast a) - (ucast b)) AND 0xffff) s"

definition setsub32 :: "u32 \<Rightarrow> u32 \<Rightarrow> 'w x86_flags_scheme \<Rightarrow> 'w x86_flags_scheme" where
  "setsub32 a b s = set_flags_arith FLAGS_SUB32 a b ((a - b)) s"

definition setsub8nc :: "u8 \<Rightarrow> u8 \<Rightarrow> 'w x86_flags_scheme \<Rightarrow> 'w x86_flags_scheme" where
  "setsub8nc a b s = set_flags_arith FLAGS_DEC8 (ucast a) (ucast b) (((ucast a) - (ucast b)) AND 0xff) (flags_rebuild_c s)"

definition setsub16nc :: "u16 \<Rightarrow> u16 \<Rightarrow> 'w x86_flags_scheme \<Rightarrow> 'w x86_flags_scheme" where
  "setsub16nc a b s = set_flags_arith FLAGS_DEC16 (ucast a) (ucast b) (((ucast a) - (ucast b)) AND 0xffff) (flags_rebuild_c s)"

definition setsub32nc :: "u32 \<Rightarrow> u32 \<Rightarrow> 'w x86_flags_scheme \<Rightarrow> 'w x86_flags_scheme" where
  "setsub32nc a b s = set_flags_arith FLAGS_DEC32 a b ((a - b)) (flags_rebuild_c s)"

definition setadc8 :: "u8 \<Rightarrow> u8 \<Rightarrow> 'w x86_flags_scheme \<Rightarrow> 'w x86_flags_scheme" where
  "setadc8 a b s = set_flags_arith FLAGS_ADC8 (ucast a) (ucast b) (((ucast a) + (ucast b) + tempc s) AND 0xff) s"

definition setadc16 :: "u16 \<Rightarrow> u16 \<Rightarrow> 'w x86_flags_scheme \<Rightarrow> 'w x86_flags_scheme" where
  "setadc16 a b s = set_flags_arith FLAGS_ADC16 (ucast a) (ucast b) (((ucast a) + (ucast b) + tempc s) AND 0xffff) s"

definition setadc32 :: "u32 \<Rightarrow> u32 \<Rightarrow> 'w x86_flags_scheme \<Rightarrow> 'w x86_flags_scheme" where
  "setadc32 a b s = set_flags_arith FLAGS_ADC32 a b ((a + b + tempc s)) s"

definition setsbc8 :: "u8 \<Rightarrow> u8 \<Rightarrow> 'w x86_flags_scheme \<Rightarrow> 'w x86_flags_scheme" where
  "setsbc8 a b s = set_flags_arith FLAGS_SBC8 (ucast a) (ucast b) (((ucast a) - ((ucast b) + tempc s)) AND 0xff) s"

definition setsbc16 :: "u16 \<Rightarrow> u16 \<Rightarrow> 'w x86_flags_scheme \<Rightarrow> 'w x86_flags_scheme" where
  "setsbc16 a b s = set_flags_arith FLAGS_SBC16 (ucast a) (ucast b) (((ucast a) - ((ucast b) + tempc s)) AND 0xffff) s"

definition setsbc32 :: "u32 \<Rightarrow> u32 \<Rightarrow> 'w x86_flags_scheme \<Rightarrow> 'w x86_flags_scheme" where
  "setsbc32 a b s = set_flags_arith FLAGS_SBC32 a b ((a - (b + tempc s))) s"

text \<open>The other build: the flags of ADC and SBB at once. \<open>c\<close> is as wide as in the source.\<close>

definition set_now :: "u16 \<Rightarrow> bool \<Rightarrow> bool \<Rightarrow> bool \<Rightarrow> 'w x86_flags_scheme \<Rightarrow> 'w x86_flags_scheme" where
  "set_now znp carry over half s = s\<lparr>flags_op := FLAGS_UNKNOWN,
     flags := set_if half A_FLAG (set_if over V_FLAG (set_if carry C_FLAG ((flags s AND NOT 0x8d5) OR znp)))\<rparr>"

definition setadc8_old :: "u8 \<Rightarrow> u8 \<Rightarrow> 'w x86_flags_scheme \<Rightarrow> 'w x86_flags_scheme" where
  "setadc8_old a b s = (let c = ucast a + ucast b + ucast (tempc s) :: u16 in
     set_now (znptable8 (ucast (c AND 0xff))) (c AND 0x100 \<noteq> 0)
       ((a XOR b) AND 0x80 = 0 \<and> (ucast a XOR c) AND 0x80 \<noteq> 0)
       ((nib (ucast a) + nib (ucast b) + tempc s) AND 0x10 \<noteq> 0) s)"

definition setadc16_old :: "u16 \<Rightarrow> u16 \<Rightarrow> 'w x86_flags_scheme \<Rightarrow> 'w x86_flags_scheme" where
  "setadc16_old a b s = (let c = ucast a + ucast b + tempc s :: u32 in
     set_now (znptable16 (ucast (c AND 0xffff))) (c AND 0x10000 \<noteq> 0)
       ((a XOR b) AND 0x8000 = 0 \<and> (ucast a XOR c) AND 0x8000 \<noteq> 0)
       ((nib (ucast a) + nib (ucast b) + tempc s) AND 0x10 \<noteq> 0) s)"

definition znp32 :: "u32 \<Rightarrow> u16" where
  "znp32 c = (if c AND 0x80000000 \<noteq> 0 then N_FLAG else if c = 0 then Z_FLAG else 0)
     OR (znptable8 (ucast (c AND 0xff)) AND P_FLAG)"

definition setadc32_old :: "u32 \<Rightarrow> u32 \<Rightarrow> 'w x86_flags_scheme \<Rightarrow> 'w x86_flags_scheme" where
  "setadc32_old a b s = (let c = a + b + tempc s in
     set_now (znp32 c) (c < a \<or> c = a \<and> tempc s \<noteq> 0)
       ((a XOR b) AND 0x80000000 = 0 \<and> (a XOR c) AND 0x80000000 \<noteq> 0)
       ((nib a + nib b + tempc s) AND 0x10 \<noteq> 0) s)"

definition setsbc8_old :: "u8 \<Rightarrow> u8 \<Rightarrow> 'w x86_flags_scheme \<Rightarrow> 'w x86_flags_scheme" where
  "setsbc8_old a b s = (let c = ucast a - (ucast b + ucast (tempc s)) :: u16 in
     set_now (znptable8 (ucast (c AND 0xff))) (c AND 0x100 \<noteq> 0)
       ((ucast a XOR ucast b) AND (ucast a XOR c) AND 0x80 \<noteq> 0)
       ((nib (ucast a) - (nib (ucast b) + tempc s)) AND 0x10 \<noteq> 0) s)"

definition setsbc16_old :: "u16 \<Rightarrow> u16 \<Rightarrow> 'w x86_flags_scheme \<Rightarrow> 'w x86_flags_scheme" where
  "setsbc16_old a b s = (let c = ucast a - (ucast b + tempc s) :: u32 in
     set_now ((znptable16 (ucast (c AND 0xffff)) AND NOT 4) OR (znptable8 (ucast (c AND 0xff)) AND 4))
       (c AND 0x10000 \<noteq> 0) ((ucast a XOR ucast b) AND (ucast a XOR c) AND 0x8000 \<noteq> 0)
       ((nib (ucast a) - (nib (ucast b) + tempc s)) AND 0x10 \<noteq> 0) s)"

definition setsbc32_old :: "u32 \<Rightarrow> u32 \<Rightarrow> 'w x86_flags_scheme \<Rightarrow> 'w x86_flags_scheme" where
  "setsbc32_old a b s = (let c = a - (b + tempc s) in
     set_now (znp32 c) (a < c \<or> c = a \<and> tempc s \<noteq> 0)
       ((a XOR b) AND (a XOR c) AND 0x80000000 \<noteq> 0)
       ((nib a - (nib b + tempc s)) AND 0x10 \<noteq> 0) s)"

end
