(* ===== verification/X86_Flags_Spec.thy ===== *)
theory X86_Flags_Spec
  imports X86_Flags
begin

text \<open>
  The lazy flags of \<open>X86_Flags\<close> against the manual's definition of each flag, over a word of any
  length: \<open>add_flags\<close>, \<open>sub_flags\<close>, \<open>logic_flags\<close>, \<open>shl_flags\<close>, \<open>shr_flags\<close>, \<open>sar_flags\<close>,
  \<open>rol_flags\<close> and \<open>ror_flags\<close>. \<open>arch\<close> is what the getters of the code show of a state, and a lemma
  \<open>setadd8_arch\<close> says that they show the reference after \<open>setadd8\<close>. The code computes a flag from
  32-bit copies of the operands; \<open>holds\<close> relates these to the operands at their own width, so that
  the arithmetic is proved once for all widths.
\<close>

section \<open>The reference\<close>

record arch_flags =
  cf :: bool
  pf :: bool
  af :: bool
  zf :: bool
  sf :: bool
  vf :: bool

definition arch :: "'w x86_flags_scheme \<Rightarrow> arch_flags" where
  "arch s = \<lparr>cf = CF_SET s, pf = PF_SET s, af = AF_SET s, zf = ZF_SET s, sf = NF_SET s, vf = VF_SET s\<rparr>"

definition even_parity :: "'a::len word \<Rightarrow> bool" where
  "even_parity r \<longleftrightarrow> even (card {e. e < 8 \<and> bit r e})"

definition add_flags :: "'a::len word \<Rightarrow> 'a word \<Rightarrow> bool \<Rightarrow> arch_flags" where
  "add_flags a b c = (let r = a + b + of_bool c in
     \<lparr>cf = 2 ^ LENGTH('a) \<le> unat a + unat b + of_bool c, pf = even_parity r,
      af = 16 \<le> unat a mod 16 + unat b mod 16 + of_bool c, zf = (r = 0), sf = (sint r < 0),
      vf = (sint r \<noteq> sint a + sint b + of_bool c)\<rparr>)"

definition sub_flags :: "'a::len word \<Rightarrow> 'a word \<Rightarrow> bool \<Rightarrow> arch_flags" where
  "sub_flags a b c = (let r = a - b - of_bool c in
     \<lparr>cf = unat a < unat b + of_bool c, pf = even_parity r,
      af = unat a mod 16 < unat b mod 16 + of_bool c, zf = (r = 0), sf = (sint r < 0),
      vf = (sint r \<noteq> sint a - sint b - of_bool c)\<rparr>)"

section \<open>Words as numbers\<close>

lemma bit_unat: "bit (w::'a::len word) k \<longleftrightarrow> odd (unat w div 2 ^ k)"
proof -
  have "bit w k \<longleftrightarrow> bit (unat w) k" by (simp add: bit_unsigned_iff)
  then show ?thesis by (simp only: bit_iff_odd)
qed

text \<open>Half the range of a word, kept folded in the arithmetic.\<close>

definition half_range :: "'a::len itself \<Rightarrow> nat" where
  "half_range _ = 2 ^ (LENGTH('a) - 1)"

lemma half_range: "(2::nat) ^ LENGTH('a::len) = 2 * half_range TYPE('a)" "0 < half_range TYPE('a)"
proof -
  have "Suc (LENGTH('a) - 1) = LENGTH('a)" by simp
  then show "(2::nat) ^ LENGTH('a) = 2 * half_range TYPE('a)" unfolding half_range_def by (metis power_Suc)
qed (simp add: half_range_def)

lemma unat_bound: "unat (w::'a::len word) < 2 * half_range TYPE('a)"
proof -
  have "unat w < 2 ^ LENGTH('a)" by (rule unsigned_less)
  then show ?thesis by (simp only: half_range)
qed

lemma top_bit: "bit (w::'a::len word) (LENGTH('a) - 1) \<longleftrightarrow> half_range TYPE('a) \<le> unat w"
proof -
  let ?H = "half_range TYPE('a)"
  have "unat w div ?H < 2" using unat_bound [of w] by (simp add: less_mult_imp_div_less)
  then have "unat w div ?H = 0 \<or> unat w div ?H = 1" by linarith
  moreover have "unat w div ?H = 0 \<longleftrightarrow> unat w < ?H"
    using half_range(2) [where 'a = 'a] by (simp add: div_eq_0_iff)
  moreover have "bit w (LENGTH('a) - 1) \<longleftrightarrow> odd (unat w div ?H)" unfolding bit_unat half_range_def ..
  ultimately show ?thesis by (auto simp: not_less [symmetric])
qed

lemma sint_unat:
  "sint (w::'a::len word) = int (unat w) - (if half_range TYPE('a) \<le> unat w then 2 * int (half_range TYPE('a)) else 0)"
proof -
  have l: "Suc (LENGTH('a) - 1) = LENGTH('a)" by simp
  have "sint w = take_bit (Suc (LENGTH('a) - 1)) (uint w) - 2 ^ Suc (LENGTH('a) - 1) * of_bool (bit (uint w) (LENGTH('a) - 1))"
    by (simp add: sint_uint signed_take_bit_eq_take_bit_minus)
  also have "take_bit (Suc (LENGTH('a) - 1)) (uint w) = uint w" unfolding l by (simp add: take_bit_int_eq_self)
  also have "bit (uint w) (LENGTH('a) - 1) = bit w (LENGTH('a) - 1)" by (simp add: bit_unsigned_iff)
  also have "(2::int) ^ Suc (LENGTH('a) - 1) = 2 * int (half_range TYPE('a))"
    unfolding half_range_def by (simp del: Suc_pred Suc_diff_1)
  finally show ?thesis unfolding top_bit by simp
qed

lemma sint_neg: "sint (w::'a::len word) < 0 \<longleftrightarrow> bit w (LENGTH('a) - 1)"
  using unat_bound [of w] unfolding sint_unat top_bit by (auto simp del: of_nat_unat)

text \<open>The unsigned value of a sum and of a difference, with a carry.\<close>

lemma unat_sum:
  fixes a b :: "'a::len word" and c :: bool
  shows "unat (a + b + of_bool c) = (let t = unat a + unat b + of_bool c; n = 2 * half_range TYPE('a)
    in if t < n then t else t - n)"
proof -
  have "unat (a + b + of_bool c) = (unat a + unat b + of_bool c) mod 2 ^ LENGTH('a)"
    by (simp add: unat_word_ariths mod_simps)
  then show ?thesis
    using unat_bound [of a] unat_bound [of b] unfolding half_range Let_def
    by (cases c) (auto simp: not_less le_mod_geq)
qed

lemma unat_difference:
  fixes a b :: "'a::len word" and c :: bool
  shows "unat (a - b - of_bool c) = (let t = unat b + of_bool c; n = 2 * half_range TYPE('a)
    in if t \<le> unat a then unat a - t else unat a + n - t)"
proof -
  let ?r = "a - b - of_bool c"
  have "?r + b + of_bool c = a" by simp
  then have "unat a = (let t = unat ?r + unat b + of_bool c; n = 2 * half_range TYPE('a) in if t < n then t else t - n)"
    using unat_sum [of ?r b c] by simp
  then show ?thesis using unat_bound [of ?r] unat_bound [of a] unat_bound [of b]
    unfolding Let_def by (cases c) (auto split: if_splits)
qed

lemma overflow_of_sum:
  fixes a b :: "'a::len word" and c :: bool
  defines "r \<equiv> a + b + of_bool c" and "m \<equiv> LENGTH('a) - 1"
  shows "(bit a m = bit b m \<and> bit a m \<noteq> bit r m) \<longleftrightarrow> sint r \<noteq> sint a + sint b + of_bool c"
  using unat_sum [of a b c] unat_bound [of a] unat_bound [of b] unat_bound [of r]
  unfolding r_def [symmetric] m_def top_bit sint_unat Let_def
  by (cases c) (auto split: if_splits)

lemma overflow_of_difference:
  fixes a b :: "'a::len word" and c :: bool
  defines "r \<equiv> a - b - of_bool c" and "m \<equiv> LENGTH('a) - 1"
  shows "(bit a m \<noteq> bit b m \<and> bit a m \<noteq> bit r m) \<longleftrightarrow> sint r \<noteq> sint a - sint b - of_bool c"
  using unat_difference [of a b c] unat_bound [of a] unat_bound [of b] unat_bound [of r]
  unfolding r_def [symmetric] m_def top_bit sint_unat Let_def
  by (cases c) (auto split: if_splits)

text \<open>Carries, as the code finds them in the result, and half carries.\<close>

lemma carry_of_sum:
  fixes a b :: "'a::len word" and c :: bool
  defines "r \<equiv> a + b + of_bool c"
  shows "(unat r < unat a \<or> unat r = unat a \<and> unat b = 2 ^ LENGTH('a) - 1) \<longleftrightarrow> 2 ^ LENGTH('a) \<le> unat a + unat b + of_bool c"
proof -
  have "R = (if A + B + C < 2 * H then A + B + C else A + B + C - 2 * H) \<Longrightarrow> A < 2 * H \<Longrightarrow> B < 2 * H \<Longrightarrow>
      0 < H \<Longrightarrow> C \<le> 1 \<Longrightarrow> (R < A \<or> R = A \<and> B = 2 * H - 1) = (2 * H \<le> A + B + C)" for A B C H R :: nat
    by (cases H) (auto split: if_splits)
  from this [OF unat_sum [of a b c, unfolded Let_def] unat_bound unat_bound half_range(2)]
  show ?thesis unfolding half_range(1) r_def by (cases c) simp_all
qed

lemma carry_of_difference:
  fixes a b :: "'a::len word" and c :: bool
  defines "r \<equiv> a - b - of_bool c"
  shows "(unat a < unat b \<or> unat a = unat b \<and> unat r \<noteq> 0) \<longleftrightarrow> unat a < unat b + of_bool c"
proof -
  have "R = (if B + C \<le> A then A - (B + C) else A + 2 * H - (B + C)) \<Longrightarrow> A < 2 * H \<Longrightarrow> B < 2 * H \<Longrightarrow>
      0 < H \<Longrightarrow> C \<le> 1 \<Longrightarrow> (A < B \<or> A = B \<and> R \<noteq> 0) = (A < B + C)" for A B C H R :: nat
    by (cases H) (auto split: if_splits)
  from this [OF unat_difference [of a b c, unfolded Let_def] unat_bound unat_bound half_range(2)]
  show ?thesis unfolding r_def by (cases c) simp_all
qed

lemma unat_nib: "unat (nib w) = unat w mod 16"
proof -
  have m: "(0xf :: u32) = mask 4" by (simp add: mask_eq_exp_minus_1)
  have "nib w = take_bit 4 w" unfolding take_bit_eq_mask m ..
  then have "unat (nib w) = take_bit 4 (unat w)" by (simp only: unsigned_take_bit_eq)
  then show ?thesis by (simp add: take_bit_eq_mod)
qed

lemma unat_of_small: "n < 0x100000000 \<Longrightarrow> unat (of_nat n :: u32) = n"
  by (simp add: unat_of_nat take_bit_nat_eq_self)

lemma half_sum:
  assumes "unat (x::u32) < 16" "unat (y::u32) < 16" "unat (z::u32) \<le> 1"
  shows "(x + y + z) AND 0x10 \<noteq> 0 \<longleftrightarrow> 16 \<le> unat x + unat y + unat z"
proof -
  let ?t = "unat x + unat y + unat z"
  have "x + y + z = of_nat ?t" by simp
  moreover have "?t < 32" using assms by simp
  ultimately have "unat (x + y + z) = ?t" using unat_of_small [of ?t] by simp
  moreover have "?t div 16 = of_bool (16 \<le> ?t)" using assms by (auto simp: div_eq_0_iff)
  ultimately show ?thesis unfolding mask_bits by (simp add: bit_unat)
qed

lemma half_difference:
  assumes "unat (x::u32) < 16" "unat (y::u32) \<le> 16"
  shows "(x - y) AND 0x10 \<noteq> 0 \<longleftrightarrow> unat x < unat y"
proof (cases "unat x < unat y")
  case True
  then have "unat (x - y) = 0x100000000 + unat x - unat y"
    using unat_difference [of x y False] unat_bound [of x] by (simp add: half_range_def)
  moreover have "(0x100000000 + unat x - unat y) div 16 = 0xfffffff" using assms True by simp
  ultimately show ?thesis using True unfolding mask_bits by (simp add: bit_unat)
next
  case False
  then have "unat (x - y) = unat x - unat y" by (simp add: unat_sub word_le_nat_alt)
  then show ?thesis using False assms unfolding mask_bits by (simp add: bit_unat)
qed

text \<open>Operands of any width, held in 32 bits.\<close>

lemma unat_up:
  assumes "LENGTH('a::len) \<le> 32"
  shows "unat (ucast (w :: 'a word) :: u32) = unat w"
proof -
  have "unat w < 2 ^ LENGTH('a)" by (rule unsigned_less)
  also have "\<dots> \<le> 2 ^ 32" using assms by (rule power_increasing) simp
  finally show ?thesis by (simp add: unsigned_ucast_eq take_bit_nat_eq_self)
qed


lemma ucast_of_nat:
  assumes "LENGTH('a::len) \<le> 32"
  shows "ucast (of_nat n :: u32) = (of_nat n :: 'a word)"
proof -
  have "2 ^ LENGTH('a) dvd (2::nat) ^ 32" using assms by (rule le_imp_power_dvd)
  then show ?thesis
    by (simp add: word_unat_eq_iff unsigned_ucast_eq unat_of_nat take_bit_eq_mod mod_mod_cancel)
qed

lemma down_add:
  fixes x y :: u32
  assumes "LENGTH('a::len) \<le> 32"
  shows "ucast (x + y) = (ucast x + ucast y :: 'a word)"
  using ucast_of_nat [OF assms, of "unat x + unat y"] ucast_of_nat [OF assms, of "unat x"]
    ucast_of_nat [OF assms, of "unat y"] by simp

lemma down_diff:
  fixes x y :: u32
  assumes "LENGTH('a::len) \<le> 32"
  shows "ucast (x - y) = (ucast x - ucast y :: 'a word)"
  using down_add [OF assms, of "x - y" y] by (simp add: eq_diff_eq)

lemma down_up:
  assumes "LENGTH('a::len) \<le> 32"
  shows "ucast (ucast (w :: 'a word) :: u32) = w"
  using ucast_of_nat [OF assms, of "unat w"] by simp

lemma low_bits: "(x :: u32) AND mask LENGTH('a::len) = ucast (ucast x :: 'a word)"
  by (rule bit_word_eqI) (auto simp: bit_simps)

lemma bit_up: "LENGTH('a) \<le> 32 \<Longrightarrow> bit (ucast (w :: 'a::len word) :: u32) k \<longleftrightarrow> bit w k"
  by (auto simp: bit_simps dest: bit_imp_le_length)

lemma low_ones: "low_ones (c::'a::len word) = card {e. e < 8 \<and> bit c e}"
proof -
  have "low_ones c = card (set (filter (bit c) [0..<8]))"
    unfolding low_ones_def mask_bits not_not by (intro distinct_card [symmetric] distinct_filter) simp
  also have "set (filter (bit c) [0..<8]) = {e. e < 8 \<and> bit c e}" by auto
  finally show ?thesis .
qed

lemma bit_set_if: "bit (set_if b m w) k \<longleftrightarrow> bit w k \<or> b \<and> bit m k"
  by (auto simp: set_if_def bit_or_iff)

lemma bit_flags:
  "bit C_FLAG k \<longleftrightarrow> k = 0" "bit P_FLAG k \<longleftrightarrow> k = 2" "bit A_FLAG k \<longleftrightarrow> k = 4"
  "bit Z_FLAG k \<longleftrightarrow> k = 6" "bit N_FLAG k \<longleftrightarrow> k = 7" "bit V_FLAG k \<longleftrightarrow> k = 11"
  using bit_push_bit_one [of 2 k, where 'a = 16] bit_push_bit_one [of 4 k, where 'a = 16]
    bit_push_bit_one [of 6 k, where 'a = 16] bit_push_bit_one [of 7 k, where 'a = 16]
    bit_push_bit_one [of 11 k, where 'a = 16]
  by (simp_all add: bit_1_iff del: bit_push_bit_one bit_numeral_word_iff)

lemma znptable8_bits:
  "bit (znptable8 c) 2 = even (low_ones c)" "bit (znptable8 c) 6 = (c = 0)" "bit (znptable8 c) 7 = bit c 7"
  "k \<notin> {2, 6, 7} \<Longrightarrow> \<not> bit (znptable8 c) k"
  by (auto simp: znptable8_def mask_bits bit_or_iff bit_flags simp del: bit_numeral_word_iff)

lemma parity:
  assumes "LENGTH('a) \<le> 32"
  shows "znptable8 (ucast (ucast (r :: 'a::len word) AND 0xff :: u32)) AND P_FLAG \<noteq> 0 \<longleftrightarrow> even_parity r"
proof -
  have m: "(0xff :: u32) = mask 8" by (simp add: mask_eq_exp_minus_1)
  have "{e. e < 8 \<and> bit (ucast (ucast r AND 0xff :: u32) :: u8) e} = {e. e < 8 \<and> bit r e}"
    unfolding m by (auto simp: bit_ucast_iff bit_and_iff bit_mask_iff bit_up [OF assms])
  then show ?thesis unfolding mask_bits not_not znptable8_bits low_ones even_parity_def by simp
qed
text \<open>
  The getters on a state that holds operands and result of one width: \<open>a\<close>, \<open>b\<close>, \<open>r\<close> in 32 bits.
\<close>

definition holds :: "'w x86_flags_scheme \<Rightarrow> 'a::len word \<Rightarrow> 'a word \<Rightarrow> 'a word \<Rightarrow> bool" where
  "holds s a b r \<longleftrightarrow> LENGTH('a) \<le> 32 \<and> 8 \<le> LENGTH('a)
     \<and> flags_op1 s = ucast a \<and> flags_op2 s = ucast b \<and> flags_res s = ucast r"

abbreviation top_mask :: "'a::len itself \<Rightarrow> u32" where
  "top_mask _ \<equiv> 2 ^ (LENGTH('a) - 1)"

lemma holds_add:
  assumes h: "holds s a b (a + b + of_bool c)"
  shows "overflow_add (top_mask TYPE('a)) s \<longleftrightarrow> vf (add_flags (a::'a::len word) b c)"
    "carry_adc (ucast (- 1 :: 'a word)) s \<longleftrightarrow> cf (add_flags a b c)"
    "(nib (flags_op1 s) + nib (flags_op2 s) + of_bool c) AND 0x10 \<noteq> 0 \<longleftrightarrow> af (add_flags a b c)"
proof -
  note h' = h [unfolded holds_def]
  have l: "LENGTH('a) \<le> 32" using h' by simp
  note up = unat_up [OF l]
  have "overflow_add (top_mask TYPE('a)) s \<longleftrightarrow> bit a (LENGTH('a) - 1) = bit b (LENGTH('a) - 1)
      \<and> bit a (LENGTH('a) - 1) \<noteq> bit (a + b + of_bool c) (LENGTH('a) - 1)"
    unfolding overflow_add_def and_mask_bit not_not bit_xor_iff using h' by (simp add: bit_up [OF l] del: One_nat_def)
  then show "overflow_add (top_mask TYPE('a)) s \<longleftrightarrow> vf (add_flags a b c)"
    unfolding overflow_of_sum by (simp add: add_flags_def Let_def)
  have "unat (- 1 :: 'a word) = 2 ^ LENGTH('a) - 1" by (simp add: unsigned_minus_1_eq_mask mask_eq_exp_minus_1)
  then show "carry_adc (ucast (- 1 :: 'a word)) s \<longleftrightarrow> cf (add_flags a b c)"
    using carry_of_sum [of a b c] h'
    by (simp add: carry_adc_def word_less_nat_alt word_unat_eq_iff [where 'a = 32] up add_flags_def Let_def)
  have "unat (of_bool c :: u32) = of_bool c" by simp
  then show "(nib (flags_op1 s) + nib (flags_op2 s) + of_bool c) AND 0x10 \<noteq> 0 \<longleftrightarrow> af (add_flags a b c)"
    using h' by (subst half_sum) (auto simp: unat_nib up add_flags_def Let_def)
qed

lemma holds_sub:
  assumes h: "holds s a b (a - b - of_bool c)"
  shows "overflow_sub (top_mask TYPE('a)) s \<longleftrightarrow> vf (sub_flags (a::'a::len word) b c)"
    "carry_sbc s \<longleftrightarrow> cf (sub_flags a b c)"
    "(nib (flags_op1 s) - (nib (flags_op2 s) + of_bool c)) AND 0x10 \<noteq> 0 \<longleftrightarrow> af (sub_flags a b c)"
proof -
  note h' = h [unfolded holds_def]
  have l: "LENGTH('a) \<le> 32" using h' by simp
  note up = unat_up [OF l]
  have "overflow_sub (top_mask TYPE('a)) s \<longleftrightarrow>
      bit ((flags_op1 s XOR flags_op2 s) AND (flags_op1 s XOR flags_res s)) (LENGTH('a) - 1)"
    unfolding overflow_sub_def and.assoc [symmetric] and_mask_bit by simp
  also have "\<dots> \<longleftrightarrow> bit a (LENGTH('a) - 1) \<noteq> bit b (LENGTH('a) - 1)
      \<and> bit a (LENGTH('a) - 1) \<noteq> bit (a - b - of_bool c) (LENGTH('a) - 1)"
    unfolding bit_and_iff bit_xor_iff using h' by (simp add: bit_up [OF l] del: One_nat_def)
  finally show "overflow_sub (top_mask TYPE('a)) s \<longleftrightarrow> vf (sub_flags a b c)"
    unfolding overflow_of_difference by (simp add: sub_flags_def Let_def)
  show "carry_sbc s \<longleftrightarrow> cf (sub_flags a b c)"
    using carry_of_difference [of a b c] h'
    by (simp add: carry_sbc_def word_less_nat_alt word_unat_eq_iff [where 'a = 32] up sub_flags_def Let_def)
  have "unat (nib (flags_op2 s) + of_bool c) = unat b mod 16 + of_bool c"
    using h' unat_of_small [of "unat b mod 16 + 1"] by (cases c) (simp_all add: unat_nib up unat_word_ariths)
  then show "(nib (flags_op1 s) - (nib (flags_op2 s) + of_bool c)) AND 0x10 \<noteq> 0 \<longleftrightarrow> af (sub_flags a b c)"
    using h' by (subst half_difference) (auto simp: unat_nib up sub_flags_def Let_def)
qed

text \<open>What the getters of the sign, zero and parity flags find.\<close>

lemma holds_result:
  assumes h: "holds s a b (r::'a::len word)"
  shows "flags_res s = 0 \<longleftrightarrow> r = 0" "flags_res s AND top_mask TYPE('a) \<noteq> 0 \<longleftrightarrow> sint r < 0"
    "znptable8 (ucast (flags_res s AND 0xff)) AND P_FLAG \<noteq> 0 \<longleftrightarrow> even_parity r"
proof -
  have l: "LENGTH('a) \<le> 32" and r: "flags_res s = ucast r" using h by (auto simp: holds_def)
  show "flags_res s = 0 \<longleftrightarrow> r = 0"
    unfolding r word_unat_eq_iff [where 'a = 32] unat_up [OF l] by (simp add: word_unat_eq_iff)
  show "flags_res s AND top_mask TYPE('a) \<noteq> 0 \<longleftrightarrow> sint r < 0"
    unfolding r and_mask_bit not_not bit_up [OF l] sint_neg ..
  show "znptable8 (ucast (flags_res s AND 0xff)) AND P_FLAG \<noteq> 0 \<longleftrightarrow> even_parity r"
    unfolding r by (rule parity [OF l])
qed


text \<open>The masks of the code at each width.\<close>

lemma width_masks:
  "top_mask TYPE(8) = 0x80" "top_mask TYPE(16) = 0x8000" "top_mask TYPE(32) = 0x80000000"
  "ucast (- 1 :: u8) = (0xff :: u32)" "ucast (- 1 :: u16) = (0xffff :: u32)" "ucast (- 1 :: u32) = (0xffffffff :: u32)"
  "(x :: u32) AND 0xff = ucast (ucast x :: u8)" "x AND 0xffff = ucast (ucast x :: u16)"
proof -
  have "(0xff :: u32) = mask LENGTH(8)" "(0xffff :: u32) = mask LENGTH(16)" by (simp_all add: mask_eq_exp_minus_1)
  then show "x AND 0xff = ucast (ucast x :: u8)" "x AND 0xffff = ucast (ucast x :: u16)"
    unfolding low_bits by (simp_all only: low_bits)
qed (simp_all add: word_unat_eq_iff [where 'a = 32] unat_up unsigned_minus_1_eq_mask mask_eq_exp_minus_1)

lemma narrow [simp]:
  "ucast (x + y :: u32) = (ucast x + ucast y :: u8)" "ucast (x + y :: u32) = (ucast x + ucast y :: u16)"
  "ucast (x - y :: u32) = (ucast x - ucast y :: u8)" "ucast (x - y :: u32) = (ucast x - ucast y :: u16)"
  "ucast (ucast (a :: u8) :: u32) = a" "ucast (ucast (b :: u16) :: u32) = b"
  "ucast (of_bool c :: u32) = (of_bool c :: u8)" "ucast (of_bool c :: u32) = (of_bool c :: u16)"
  by (simp_all add: down_add down_diff down_up)

lemma carry_bit:
  fixes x y :: "'a::len word"
  assumes l: "LENGTH('a) < 32"
  shows "(ucast x + ucast y :: u32) AND 2 ^ LENGTH('a) \<noteq> 0 \<longleftrightarrow> 2 ^ LENGTH('a) \<le> unat x + unat y"
proof -
  let ?n = "2 ^ LENGTH('a) :: nat" and ?t = "unat x + unat y"
  have b: "?t < 2 * ?n" using unat_bound [of x] unat_bound [of y] half_range(1) [where 'a = 'a] by simp
  also have "\<dots> \<le> 2 ^ 32" using power_increasing [of "Suc LENGTH('a)" 32 "2::nat"] l by simp
  finally have "unat (ucast x + ucast y :: u32) = ?t"
    using unat_up [where w = x] unat_up [where w = y] l by (simp add: unat_word_ariths)
  moreover have "?t div ?n = of_bool (?n \<le> ?t)"
  proof (cases "?n \<le> ?t")
    case True
    then have "?t div ?n = Suc ((?t - ?n) div ?n)" by (simp add: le_div_geq)
    then show ?thesis using True b by simp
  qed simp
  ultimately show ?thesis unfolding and_mask_bit not_not bit_unat by simp
qed

lemma carry_out:
  fixes a b :: u8 and c d :: u16
  shows "(ucast (a :: u8) + ucast b :: u32) AND 0x100 \<noteq> 0 \<longleftrightarrow> 256 \<le> unat a + unat b"
  "(ucast (c :: u16) + ucast d :: u32) AND 0x10000 \<noteq> 0 \<longleftrightarrow> 65536 \<le> unat c + unat d"
  using carry_bit [of a b] carry_bit [of c d] by simp_all

lemma set_flags_arith_fields [simp]:
  "flags_op (set_flags_arith op a b r s) = op" "flags_op1 (set_flags_arith op a b r s) = a"
  "flags_op2 (set_flags_arith op a b r s) = b" "flags_res (set_flags_arith op a b r s) = r"
  "flags (set_flags_arith op a b r s) = flags s" "tempc (set_flags_arith op a b r s) = tempc s"
  by (simp_all add: set_flags_arith_def)

text \<open>The getters that look at the result.\<close>

definition by_result :: "'w x86_flags_scheme \<Rightarrow> u32 \<Rightarrow> bool" where
  "by_result s m \<longleftrightarrow> ZF_SET s = (flags_res s = 0) \<and> NF_SET s = (flags_res s AND m \<noteq> 0)
     \<and> PF_SET s = (znptable8 (ucast (flags_res s AND 0xff)) AND P_FLAG \<noteq> 0)"

lemma by_result_arith:
  "op \<in> {FLAGS_ADD8, FLAGS_SUB8, FLAGS_INC8, FLAGS_DEC8, FLAGS_ADC8, FLAGS_SBC8} \<Longrightarrow>
     by_result (set_flags_arith op a b r s) 0x80"
  "op \<in> {FLAGS_ADD16, FLAGS_SUB16, FLAGS_INC16, FLAGS_DEC16, FLAGS_ADC16, FLAGS_SBC16} \<Longrightarrow>
     by_result (set_flags_arith op a b r s) 0x8000"
  "op \<in> {FLAGS_ADD32, FLAGS_SUB32, FLAGS_INC32, FLAGS_DEC32, FLAGS_ADC32, FLAGS_SBC32} \<Longrightarrow>
     by_result (set_flags_arith op a b r s) 0x80000000"
  by (auto simp: by_result_def ZF_SET_def NF_SET_def PF_SET_def)

lemma arch_add_nc:
  assumes h: "holds s a b (a + b + of_bool c)" and "by_result s (top_mask TYPE('a))"
    and "VF_SET s = overflow_add (top_mask TYPE('a)) s"
  shows "arch s = (add_flags (a::'a::len word) b c)\<lparr>cf := CF_SET s, af := AF_SET s\<rparr>"
  using assms(2-) holds_add(1) [OF h] holds_result [OF h]
  by (simp add: arch_def by_result_def) (simp add: add_flags_def Let_def)

lemma arch_sub_nc:
  assumes h: "holds s a b (a - b - of_bool c)" and "by_result s (top_mask TYPE('a))"
    and "VF_SET s = overflow_sub (top_mask TYPE('a)) s"
  shows "arch s = (sub_flags (a::'a::len word) b c)\<lparr>cf := CF_SET s, af := AF_SET s\<rparr>"
  using assms(2-) holds_sub(1) [OF h] holds_result [OF h]
  by (simp add: arch_def by_result_def) (simp add: sub_flags_def Let_def)


lemma no_minus_1: "\<not> (b = 0 \<and> b = (- 1 :: u32))"
  by auto

lemma arch_add:
  assumes "holds s a b (a + b + of_bool c)" "by_result s (top_mask TYPE('a))"
    "VF_SET s = overflow_add (top_mask TYPE('a)) s" "CF_SET s = cf (add_flags a b c)"
  shows "arch s = (add_flags (a::'a::len word) b c)\<lparr>af := AF_SET s\<rparr>"
  using arch_add_nc [OF assms(1-3)] assms(4) by (simp add: add_flags_def Let_def)

lemma arch_sub:
  assumes "holds s a b (a - b - of_bool c)" "by_result s (top_mask TYPE('a))"
    "VF_SET s = overflow_sub (top_mask TYPE('a)) s" "CF_SET s = cf (sub_flags a b c)"
  shows "arch s = (sub_flags (a::'a::len word) b c)\<lparr>af := AF_SET s\<rparr>"
  using arch_sub_nc [OF assms(1-3)] assms(4) by (simp add: sub_flags_def Let_def)

text \<open>\<open>flags_rebuild_c\<close> leaves the carry where the getter of INC and DEC looks.\<close>

lemma rebuilt_c: "flags (flags_rebuild_c s) AND C_FLAG \<noteq> 0 \<longleftrightarrow> CF_SET s"
  by (auto simp: flags_rebuild_c_def mask_bits bit_or_iff bit_and_iff bit_not_iff bit_1_iff)
    (auto simp: CF_SET_def mask_bits)

lemma kept_carry:
  "op \<in> {FLAGS_INC8, FLAGS_INC16, FLAGS_INC32, FLAGS_DEC8, FLAGS_DEC16, FLAGS_DEC32} \<Longrightarrow>
   CF_SET (set_flags_arith op a b r (flags_rebuild_c s)) = CF_SET s"
  by (subst CF_SET_def) (auto simp: rebuilt_c)

lemma setadd8_arch: "arch (setadd8 a b s) = add_flags a b False"
proof -
  let ?s = "setadd8 a b s"
  have h: "holds ?s a b (a + b + of_bool False)"
    by (simp add: holds_def setadd8_def width_masks)
  have "CF_SET ?s = cf (add_flags a b False)"
    using holds_add(2) [OF h] no_minus_1
    by (simp add: CF_SET_def setadd8_def carry_out add_flags_def Let_def carry_adc_def)
  from arch_add [OF h _ _ this] holds_add(3) [OF h] show ?thesis
    by (simp add: width_masks VF_SET_def AF_SET_def setadd8_def by_result_arith)
qed

lemma setadd16_arch: "arch (setadd16 a b s) = add_flags a b False"
proof -
  let ?s = "setadd16 a b s"
  have h: "holds ?s a b (a + b + of_bool False)"
    by (simp add: holds_def setadd16_def width_masks)
  have "CF_SET ?s = cf (add_flags a b False)"
    using holds_add(2) [OF h] no_minus_1
    by (simp add: CF_SET_def setadd16_def carry_out add_flags_def Let_def carry_adc_def)
  from arch_add [OF h _ _ this] holds_add(3) [OF h] show ?thesis
    by (simp add: width_masks VF_SET_def AF_SET_def setadd16_def by_result_arith)
qed

lemma setadd32_arch: "arch (setadd32 a b s) = add_flags a b False"
proof -
  let ?s = "setadd32 a b s"
  have h: "holds ?s a b (a + b + of_bool False)"
    by (simp add: holds_def setadd32_def width_masks)
  have "CF_SET ?s = cf (add_flags a b False)"
    using holds_add(2) [OF h] no_minus_1
    by (simp add: CF_SET_def setadd32_def carry_out add_flags_def Let_def carry_adc_def)
  from arch_add [OF h _ _ this] holds_add(3) [OF h] show ?thesis
    by (simp add: width_masks VF_SET_def AF_SET_def setadd32_def by_result_arith)
qed

lemma setsub8_arch: "arch (setsub8 a b s) = sub_flags a b False"
proof -
  let ?s = "setsub8 a b s"
  have h: "holds ?s a b (a - b - of_bool False)"
    by (simp add: holds_def setsub8_def width_masks)
  have "CF_SET ?s = cf (sub_flags a b False)"
    using holds_sub(2) [OF h]
    by (simp add: CF_SET_def setsub8_def sub_flags_def Let_def word_less_nat_alt unat_up)
  from arch_sub [OF h _ _ this] holds_sub(3) [OF h] show ?thesis
    by (simp add: width_masks VF_SET_def AF_SET_def setsub8_def by_result_arith)
qed

lemma setsub16_arch: "arch (setsub16 a b s) = sub_flags a b False"
proof -
  let ?s = "setsub16 a b s"
  have h: "holds ?s a b (a - b - of_bool False)"
    by (simp add: holds_def setsub16_def width_masks)
  have "CF_SET ?s = cf (sub_flags a b False)"
    using holds_sub(2) [OF h]
    by (simp add: CF_SET_def setsub16_def sub_flags_def Let_def word_less_nat_alt unat_up)
  from arch_sub [OF h _ _ this] holds_sub(3) [OF h] show ?thesis
    by (simp add: width_masks VF_SET_def AF_SET_def setsub16_def by_result_arith)
qed

lemma setsub32_arch: "arch (setsub32 a b s) = sub_flags a b False"
proof -
  let ?s = "setsub32 a b s"
  have h: "holds ?s a b (a - b - of_bool False)"
    by (simp add: holds_def setsub32_def width_masks)
  have "CF_SET ?s = cf (sub_flags a b False)"
    using holds_sub(2) [OF h]
    by (simp add: CF_SET_def setsub32_def sub_flags_def Let_def word_less_nat_alt unat_up)
  from arch_sub [OF h _ _ this] holds_sub(3) [OF h] show ?thesis
    by (simp add: width_masks VF_SET_def AF_SET_def setsub32_def by_result_arith)
qed

lemma setadd8nc_arch: "arch (setadd8nc a b s) = (add_flags a b False)\<lparr>cf := CF_SET s\<rparr>"
proof -
  let ?s = "setadd8nc a b s"
  have h: "holds ?s a b (a + b + of_bool False)"
    by (simp add: holds_def setadd8nc_def width_masks)
  from arch_add_nc [OF h] holds_add(3) [OF h] show ?thesis
    by (simp add: width_masks VF_SET_def AF_SET_def setadd8nc_def by_result_arith kept_carry)
qed

lemma setadd16nc_arch: "arch (setadd16nc a b s) = (add_flags a b False)\<lparr>cf := CF_SET s\<rparr>"
proof -
  let ?s = "setadd16nc a b s"
  have h: "holds ?s a b (a + b + of_bool False)"
    by (simp add: holds_def setadd16nc_def width_masks)
  from arch_add_nc [OF h] holds_add(3) [OF h] show ?thesis
    by (simp add: width_masks VF_SET_def AF_SET_def setadd16nc_def by_result_arith kept_carry)
qed

lemma setadd32nc_arch: "arch (setadd32nc a b s) = (add_flags a b False)\<lparr>cf := CF_SET s\<rparr>"
proof -
  let ?s = "setadd32nc a b s"
  have h: "holds ?s a b (a + b + of_bool False)"
    by (simp add: holds_def setadd32nc_def width_masks)
  from arch_add_nc [OF h] holds_add(3) [OF h] show ?thesis
    by (simp add: width_masks VF_SET_def AF_SET_def setadd32nc_def by_result_arith kept_carry)
qed

lemma setsub8nc_arch: "arch (setsub8nc a b s) = (sub_flags a b False)\<lparr>cf := CF_SET s\<rparr>"
proof -
  let ?s = "setsub8nc a b s"
  have h: "holds ?s a b (a - b - of_bool False)"
    by (simp add: holds_def setsub8nc_def width_masks)
  from arch_sub_nc [OF h] holds_sub(3) [OF h] show ?thesis
    by (simp add: width_masks VF_SET_def AF_SET_def setsub8nc_def by_result_arith kept_carry)
qed

lemma setsub16nc_arch: "arch (setsub16nc a b s) = (sub_flags a b False)\<lparr>cf := CF_SET s\<rparr>"
proof -
  let ?s = "setsub16nc a b s"
  have h: "holds ?s a b (a - b - of_bool False)"
    by (simp add: holds_def setsub16nc_def width_masks)
  from arch_sub_nc [OF h] holds_sub(3) [OF h] show ?thesis
    by (simp add: width_masks VF_SET_def AF_SET_def setsub16nc_def by_result_arith kept_carry)
qed

lemma setsub32nc_arch: "arch (setsub32nc a b s) = (sub_flags a b False)\<lparr>cf := CF_SET s\<rparr>"
proof -
  let ?s = "setsub32nc a b s"
  have h: "holds ?s a b (a - b - of_bool False)"
    by (simp add: holds_def setsub32nc_def width_masks)
  from arch_sub_nc [OF h] holds_sub(3) [OF h] show ?thesis
    by (simp add: width_masks VF_SET_def AF_SET_def setsub32nc_def by_result_arith kept_carry)
qed

section \<open>With a carry\<close>

lemma full32: "(0xffffffff :: u32) = - 1"
  by simp

lemma unat_sum_nibble:
  fixes a b :: "'a::len word"
  assumes "4 \<le> LENGTH('a)"
  shows "unat (a + b + of_bool c) mod 16 = (unat a mod 16 + unat b mod 16 + of_bool c) mod 16"
proof -
  have "(2::nat) ^ 4 dvd 2 ^ LENGTH('a)" using assms by (rule le_imp_power_dvd)
  then have d: "16 dvd (2::nat) ^ LENGTH('a)" by simp
  have "unat (a + b + of_bool c) = (unat a + unat b + of_bool c) mod 2 ^ LENGTH('a)"
    by (simp add: unat_word_ariths mod_simps)
  also have "\<dots> mod 16 = (unat a + unat b + of_bool c) mod 16" by (rule mod_mod_cancel [OF d])
  also have "\<dots> = (unat a mod 16 + unat b mod 16 + of_bool c) mod 16"
    by (metis mod_add_eq mod_add_left_eq)
  finally show ?thesis .
qed

lemma holds_half_adc:
  fixes a b :: "'a::len word"
  assumes h: "holds s a b (a + b + of_bool c)"
  shows "half_adc (ucast (- 1 :: 'a word)) s \<longleftrightarrow>
    af (add_flags a b c) \<and> \<not> (c \<and> unat b mod 16 = 15 \<and> b \<noteq> - 1)"
proof -
  note h' = h [unfolded holds_def]
  have l: "LENGTH('a) \<le> 32" "4 \<le> LENGTH('a)" using h' by auto
  note up = unat_up [OF l(1)]
  have "(2::nat) ^ 4 dvd 2 ^ LENGTH('a)" using l(2) by (rule le_imp_power_dvd)
  then obtain q where "(2::nat) ^ LENGTH('a) = 16 * q" by (auto elim: dvdE)
  moreover from this have "0 < q" by (cases q) auto
  ultimately have "unat (- 1 :: 'a word) mod 16 = 15"
    by (cases q) (simp_all add: unsigned_minus_1_eq_mask mask_eq_exp_minus_1 algebra_simps)
  then have m: "b = - 1 \<Longrightarrow> unat b mod 16 = 15" by simp
  have "ucast b = (ucast (- 1 :: 'a word) :: u32) \<longleftrightarrow> b = - 1"
    using up [of b] up [of "- 1"] by (auto simp: word_unat_eq_iff)
  then have "half_adc (ucast (- 1 :: 'a word)) s \<longleftrightarrow>
      unat (a + b + of_bool c) mod 16 < unat a mod 16 \<or> unat (a + b + of_bool c) mod 16 = unat a mod 16 \<and> b = - 1"
    using h' by (simp add: half_adc_def word_less_nat_alt word_unat_eq_iff [of "nib (ucast _)"] unat_nib up)
  also have "\<dots> \<longleftrightarrow> af (add_flags a b c) \<and> \<not> (c \<and> unat b mod 16 = 15 \<and> b \<noteq> - 1)"
  proof -
    have "x < 16 \<Longrightarrow> y < 16 \<Longrightarrow> (B \<Longrightarrow> y = 15) \<Longrightarrow>
      ((x + y + of_bool c) mod 16 < x \<or> (x + y + of_bool c) mod 16 = x \<and> B) \<longleftrightarrow>
      16 \<le> x + y + of_bool c \<and> \<not> (c \<and> y = 15 \<and> \<not> B)" for x y :: nat and B
      by (cases c; cases "x + y + of_bool c < 16") (auto simp: le_mod_geq not_less)
    from this [of "unat a mod 16" "unat b mod 16" "b = - 1"] m show ?thesis
      unfolding unat_sum_nibble [OF l(2)] by (simp add: add_flags_def Let_def)
  qed
  finally show ?thesis .
qed

lemma holds_half_sbc:
  fixes a b :: "'a::len word"
  assumes h: "holds s a b (a - b - of_bool c)"
  shows "half_sbc s \<longleftrightarrow> af (sub_flags a b c)"
proof -
  note h' = h [unfolded holds_def]
  let ?r = "a - b - of_bool c"
  have l: "LENGTH('a) \<le> 32" "4 \<le> LENGTH('a)" using h' by auto
  have x: "unat a mod 16 = (unat ?r mod 16 + unat b mod 16 + of_bool c) mod 16"
    using unat_sum_nibble [OF l(2), of ?r b c] by simp
  have "half_sbc s \<longleftrightarrow> unat a mod 16 < unat b mod 16 \<or> unat a mod 16 = unat b mod 16 \<and> unat ?r mod 16 \<noteq> 0"
    using h' by (simp add: half_sbc_def word_less_nat_alt word_unat_eq_iff [of "nib (ucast _)"] unat_nib unat_up [OF l(1)])
  also have "\<dots> \<longleftrightarrow> unat a mod 16 < unat b mod 16 + of_bool c"
  proof -
    have "z < 16 \<Longrightarrow> y < 16 \<Longrightarrow> x = (z + y + of_bool c) mod 16 \<Longrightarrow>
      (x < y \<or> x = y \<and> z \<noteq> 0) \<longleftrightarrow> x < y + of_bool c" for x y z :: nat
      by (cases c; cases "z + y + of_bool c < 16") (auto simp: le_mod_geq not_less)
    from this [OF _ _ x] show ?thesis by simp
  qed
  finally show ?thesis by (simp add: sub_flags_def Let_def)
qed

text \<open>The half carry that the lazy ADC misses.\<close>

definition adc_lost_half :: "'a::len word \<Rightarrow> bool \<Rightarrow> bool" where
  "adc_lost_half b c \<longleftrightarrow> c \<and> unat b mod 16 = 15 \<and> b \<noteq> - 1"

lemma setadc8_arch:
  assumes "tempc s = of_bool c"
  shows "arch (setadc8 a b s) = (add_flags a b c)\<lparr>af := af (add_flags a b c) \<and> \<not> adc_lost_half b c\<rparr>"
proof -
  let ?s = "setadc8 a b s"
  have h: "holds ?s a b (a + b + of_bool c)"
    by (simp add: holds_def setadc8_def width_masks assms)
  have "CF_SET ?s = cf (add_flags a b c)"
    using holds_add(2) [OF h] by (simp add: CF_SET_def setadc8_def width_masks full32)
  from arch_add [OF h _ _ this] holds_half_adc [OF h] show ?thesis
    by (simp add: width_masks VF_SET_def AF_SET_def setadc8_def by_result_arith adc_lost_half_def full32 assms)
qed

lemma setadc16_arch:
  assumes "tempc s = of_bool c"
  shows "arch (setadc16 a b s) = (add_flags a b c)\<lparr>af := af (add_flags a b c) \<and> \<not> adc_lost_half b c\<rparr>"
proof -
  let ?s = "setadc16 a b s"
  have h: "holds ?s a b (a + b + of_bool c)"
    by (simp add: holds_def setadc16_def width_masks assms)
  have "CF_SET ?s = cf (add_flags a b c)"
    using holds_add(2) [OF h] by (simp add: CF_SET_def setadc16_def width_masks full32)
  from arch_add [OF h _ _ this] holds_half_adc [OF h] show ?thesis
    by (simp add: width_masks VF_SET_def AF_SET_def setadc16_def by_result_arith adc_lost_half_def full32 assms)
qed

lemma setadc32_arch:
  assumes "tempc s = of_bool c"
  shows "arch (setadc32 a b s) = (add_flags a b c)\<lparr>af := af (add_flags a b c) \<and> \<not> adc_lost_half b c\<rparr>"
proof -
  let ?s = "setadc32 a b s"
  have h: "holds ?s a b (a + b + of_bool c)"
    by (simp add: holds_def setadc32_def width_masks assms)
  have "CF_SET ?s = cf (add_flags a b c)"
    using holds_add(2) [OF h] by (simp add: CF_SET_def setadc32_def width_masks full32)
  from arch_add [OF h _ _ this] holds_half_adc [OF h] show ?thesis
    by (simp add: width_masks VF_SET_def AF_SET_def setadc32_def by_result_arith adc_lost_half_def full32 assms)
qed

lemma setsbc8_arch:
  assumes "tempc s = of_bool c"
  shows "arch (setsbc8 a b s) = sub_flags a b c"
proof -
  let ?s = "setsbc8 a b s"
  have h: "holds ?s a b (a - b - of_bool c)"
    by (simp add: holds_def setsbc8_def width_masks assms diff_diff_eq)
  have "CF_SET ?s = cf (sub_flags a b c)"
    using holds_sub(2) [OF h] by (simp add: CF_SET_def setsbc8_def)
  from arch_sub [OF h _ _ this] holds_half_sbc [OF h] show ?thesis
    by (simp add: width_masks VF_SET_def AF_SET_def setsbc8_def by_result_arith)
qed

lemma setsbc16_arch:
  assumes "tempc s = of_bool c"
  shows "arch (setsbc16 a b s) = sub_flags a b c"
proof -
  let ?s = "setsbc16 a b s"
  have h: "holds ?s a b (a - b - of_bool c)"
    by (simp add: holds_def setsbc16_def width_masks assms diff_diff_eq)
  have "CF_SET ?s = cf (sub_flags a b c)"
    using holds_sub(2) [OF h] by (simp add: CF_SET_def setsbc16_def)
  from arch_sub [OF h _ _ this] holds_half_sbc [OF h] show ?thesis
    by (simp add: width_masks VF_SET_def AF_SET_def setsbc16_def by_result_arith)
qed

lemma setsbc32_arch:
  assumes "tempc s = of_bool c"
  shows "arch (setsbc32 a b s) = sub_flags a b c"
proof -
  let ?s = "setsbc32 a b s"
  have h: "holds ?s a b (a - b - of_bool c)"
    by (simp add: holds_def setsbc32_def width_masks assms diff_diff_eq)
  have "CF_SET ?s = cf (sub_flags a b c)"
    using holds_sub(2) [OF h] by (simp add: CF_SET_def setsbc32_def)
  from arch_sub [OF h _ _ this] holds_half_sbc [OF h] show ?thesis
    by (simp add: width_masks VF_SET_def AF_SET_def setsbc32_def by_result_arith)
qed


section \<open>Logic, shifts and rotations\<close>

definition logic_flags :: "'a::len word \<Rightarrow> arch_flags" where
  "logic_flags r = \<lparr>cf = False, pf = even_parity r, af = False, zf = (r = 0), sf = (sint r < 0), vf = False\<rparr>"

definition shl_flags :: "'a::len word \<Rightarrow> nat \<Rightarrow> arch_flags" where
  "shl_flags a n = (let r = push_bit n a; out = n \<le> LENGTH('a) \<and> bit a (LENGTH('a) - n) in
     (logic_flags r)\<lparr>cf := out, vf := (out \<noteq> (sint r < 0))\<rparr>)"

definition shr_flags :: "'a::len word \<Rightarrow> nat \<Rightarrow> arch_flags" where
  "shr_flags a n = (logic_flags (drop_bit n a))\<lparr>cf := bit a (n - 1), vf := (n = 1 \<and> sint a < 0)\<rparr>"

definition sar_flags :: "'a::len word \<Rightarrow> nat \<Rightarrow> arch_flags" where
  "sar_flags a n = (logic_flags (signed_drop_bit n a))\<lparr>cf := bit (signed_drop_bit (n - 1) a) 0\<rparr>"

definition rol_flags :: "'a::len word \<Rightarrow> arch_flags \<Rightarrow> arch_flags" where
  "rol_flags r f = f\<lparr>cf := bit r 0, vf := (bit r 0 \<noteq> (sint r < 0))\<rparr>"

definition ror_flags :: "'a::len word \<Rightarrow> arch_flags \<Rightarrow> arch_flags" where
  "ror_flags r f = f\<lparr>cf := (sint r < 0), vf := (bit r (LENGTH('a) - 2) \<noteq> (sint r < 0))\<rparr>"

lemma arch_result:
  assumes r: "flags_res s = ucast (r::'a::len word)" and l: "LENGTH('a) \<le> 32"
    and "by_result s (top_mask TYPE('a))"
  shows "arch s = (logic_flags r)\<lparr>cf := CF_SET s, af := AF_SET s, vf := VF_SET s\<rparr>"
proof -
  have "(ucast r :: u32) = 0 \<longleftrightarrow> r = 0"
    unfolding word_unat_eq_iff [where 'a = 32] unat_up [OF l] by (simp add: word_unat_eq_iff)
  moreover have "(ucast r :: u32) AND top_mask TYPE('a) \<noteq> 0 \<longleftrightarrow> sint r < 0"
    unfolding and_mask_bit not_not bit_up [OF l] sint_neg ..
  ultimately show ?thesis
    using assms(3) parity [OF l, of r] by (simp add: by_result_def arch_def logic_flags_def r)
qed

lemma set_flags_fields [simp]:
  "flags_op (set_flags_shift op a n r s) = op" "flags_op1 (set_flags_shift op a n r s) = a"
  "flags_op2 (set_flags_shift op a n r s) = n" "flags_res (set_flags_shift op a n r s) = r"
  "flags (set_flags_shift op a n r s) = flags s"
  "flags_op (set_flags_rotate op r s) = op" "flags_res (set_flags_rotate op r s) = r"
  "flags (set_flags_rotate op r s) = flags s"
  by (simp_all add: set_flags_shift_def set_flags_rotate_def)

lemma by_result_shift:
  "op \<in> {FLAGS_SHL8, FLAGS_SHR8, FLAGS_SAR8} \<Longrightarrow> by_result (set_flags_shift op a n r s) 0x80"
  "op \<in> {FLAGS_SHL16, FLAGS_SHR16, FLAGS_SAR16} \<Longrightarrow> by_result (set_flags_shift op a n r s) 0x8000"
  "op \<in> {FLAGS_SHL32, FLAGS_SHR32, FLAGS_SAR32} \<Longrightarrow> by_result (set_flags_shift op a n r s) 0x80000000"
  by (auto simp: by_result_def ZF_SET_def NF_SET_def PF_SET_def)

lemma by_result_znp:
  "by_result (setznp8 v s) 0x80" "by_result (setznp16 w s) 0x8000" "by_result (setznp32 x s) 0x80000000"
  by (simp_all add: by_result_def ZF_SET_def NF_SET_def PF_SET_def setznp8_def setznp16_def setznp32_def)

lemma setznp_arch:
  "arch (setznp8 v s) = logic_flags v" "arch (setznp16 w s) = logic_flags w" "arch (setznp32 x s) = logic_flags x"
  using arch_result [of "setznp8 v s" v] arch_result [of "setznp16 w s" w] arch_result [of "setznp32 x s" x]
    by_result_znp(1) [of v s] by_result_znp(2) [of w s] by_result_znp(3) [of x s]
  by (simp_all add: width_masks setznp8_def setznp16_def setznp32_def CF_SET_def AF_SET_def VF_SET_def logic_flags_def)

text \<open>Shift counts from 1 to 31.\<close>

lemma shift_count:
  assumes "1 \<le> unat (n::u32)"
  shows "unat (n - 1) = unat n - 1"
  using assms by (simp add: unat_sub word_le_nat_alt)

lemma shl_bits:
  assumes l: "LENGTH('a) \<le> 32" and s: "flags_op1 s = ucast (a::'a::len word)" and n: "1 \<le> unat (flags_op2 s)"
  shows "carry_shl (top_mask TYPE('a)) s \<longleftrightarrow> cf (shl_flags a (unat (flags_op2 s)))"
    "overflow_shl (top_mask TYPE('a)) s \<longleftrightarrow> vf (shl_flags a (unat (flags_op2 s)))"
proof -
  let ?n = "unat (flags_op2 s)" and ?t = "LENGTH('a) - 1"
  have out: "bit (push_bit (?n - 1) (ucast a :: u32)) ?t \<longleftrightarrow> ?n \<le> LENGTH('a) \<and> bit a (LENGTH('a) - ?n)"
    using l n by (auto simp: bit_push_bit_iff bit_up [OF l] not_le)
  have top: "bit (push_bit ?n (ucast a :: u32)) ?t \<longleftrightarrow> sint (push_bit ?n a) < 0"
    unfolding sint_neg using l by (auto simp: bit_push_bit_iff bit_up [OF l])
  show "carry_shl (top_mask TYPE('a)) s \<longleftrightarrow> cf (shl_flags a ?n)"
    unfolding carry_shl_def and_mask_bit not_not shift_count [OF n] s out by (simp add: shl_flags_def Let_def)
  show "overflow_shl (top_mask TYPE('a)) s \<longleftrightarrow> vf (shl_flags a ?n)"
    unfolding overflow_shl_def and_mask_bit not_not shift_count [OF n] s bit_xor_iff out top
    by (simp add: shl_flags_def Let_def) blast
qed

lemma shr_bits:
  assumes l: "LENGTH('a) \<le> 32" and s: "flags_op1 s = ucast (a::'a::len word)" and n: "1 \<le> unat (flags_op2 s)"
  shows "carry_shr s \<longleftrightarrow> cf (shr_flags a (unat (flags_op2 s)))"
    "overflow_shr (top_mask TYPE('a)) s \<longleftrightarrow> vf (shr_flags a (unat (flags_op2 s)))"
proof -
  have "unat (flags_op2 s) = 1 \<longleftrightarrow> flags_op2 s = 1" by (simp add: word_unat_eq_iff)
  then show "carry_shr s \<longleftrightarrow> cf (shr_flags a (unat (flags_op2 s)))"
    "overflow_shr (top_mask TYPE('a)) s \<longleftrightarrow> vf (shr_flags a (unat (flags_op2 s)))"
    unfolding carry_shr_def overflow_shr_def and_mask_bit mask_bits not_not shift_count [OF n] s
    by (simp_all add: shr_flags_def sint_neg bit_drop_bit_eq bit_up [OF l] del: One_nat_def)
qed

lemma sar_bits:
  assumes l: "LENGTH('a) \<le> 32" and n: "1 \<le> unat (flags_op2 s)"
  shows "carry_sar (scast (a::'a::len word)) s \<longleftrightarrow> cf (sar_flags a (unat (flags_op2 s)))"
  unfolding carry_sar_def mask_bits not_not shift_count [OF n] using l
  by (simp add: sar_flags_def bit_signed_drop_bit_iff bit_signed_iff logic_flags_def)

lemma shift8_arch:
  fixes a :: u8
  assumes "1 \<le> unat n"
  shows "arch (set_flags_shift FLAGS_SHL8 (ucast a) n (ucast (push_bit (unat n) a)) s) = shl_flags a (unat n)"
    "arch (set_flags_shift FLAGS_SHR8 (ucast a) n (ucast (drop_bit (unat n) a)) s) = shr_flags a (unat n)"
    "arch (set_flags_shift FLAGS_SAR8 (ucast a) n (ucast (signed_drop_bit (unat n) a)) s) = sar_flags a (unat n)"
proof -
  let ?l = "set_flags_shift FLAGS_SHL8 (ucast a) n (ucast (push_bit (unat n) a)) s"
  let ?r = "set_flags_shift FLAGS_SHR8 (ucast a) n (ucast (drop_bit (unat n) a)) s"
  let ?a = "set_flags_shift FLAGS_SAR8 (ucast a) n (ucast (signed_drop_bit (unat n) a)) s"
  show "arch ?l = shl_flags a (unat n)"
    using arch_result [of ?l "push_bit (unat n) a"] shl_bits [of ?l a] assms
    by (simp add: width_masks by_result_shift CF_SET_def AF_SET_def VF_SET_def)
      (simp add: shl_flags_def logic_flags_def Let_def)
  show "arch ?r = shr_flags a (unat n)"
    using arch_result [of ?r "drop_bit (unat n) a"] shr_bits [of ?r a] assms
    by (simp add: width_masks by_result_shift CF_SET_def AF_SET_def VF_SET_def)
      (simp add: shr_flags_def logic_flags_def)
  show "arch ?a = sar_flags a (unat n)"
    using arch_result [of ?a "signed_drop_bit (unat n) a"] sar_bits [of ?a a] assms
    by (simp add: width_masks by_result_shift CF_SET_def AF_SET_def VF_SET_def)
      (simp add: sar_flags_def logic_flags_def)
qed

lemma shift16_arch:
  fixes a :: u16
  assumes "1 \<le> unat n"
  shows "arch (set_flags_shift FLAGS_SHL16 (ucast a) n (ucast (push_bit (unat n) a)) s) = shl_flags a (unat n)"
    "arch (set_flags_shift FLAGS_SHR16 (ucast a) n (ucast (drop_bit (unat n) a)) s) = shr_flags a (unat n)"
    "arch (set_flags_shift FLAGS_SAR16 (ucast a) n (ucast (signed_drop_bit (unat n) a)) s) = sar_flags a (unat n)"
proof -
  let ?l = "set_flags_shift FLAGS_SHL16 (ucast a) n (ucast (push_bit (unat n) a)) s"
  let ?r = "set_flags_shift FLAGS_SHR16 (ucast a) n (ucast (drop_bit (unat n) a)) s"
  let ?a = "set_flags_shift FLAGS_SAR16 (ucast a) n (ucast (signed_drop_bit (unat n) a)) s"
  show "arch ?l = shl_flags a (unat n)"
    using arch_result [of ?l "push_bit (unat n) a"] shl_bits [of ?l a] assms
    by (simp add: width_masks by_result_shift CF_SET_def AF_SET_def VF_SET_def)
      (simp add: shl_flags_def logic_flags_def Let_def)
  show "arch ?r = shr_flags a (unat n)"
    using arch_result [of ?r "drop_bit (unat n) a"] shr_bits [of ?r a] assms
    by (simp add: width_masks by_result_shift CF_SET_def AF_SET_def VF_SET_def)
      (simp add: shr_flags_def logic_flags_def)
  show "arch ?a = sar_flags a (unat n)"
    using arch_result [of ?a "signed_drop_bit (unat n) a"] sar_bits [of ?a a] assms
    by (simp add: width_masks by_result_shift CF_SET_def AF_SET_def VF_SET_def)
      (simp add: sar_flags_def logic_flags_def)
qed

lemma shift32_arch:
  fixes a :: u32
  assumes "1 \<le> unat n"
  shows "arch (set_flags_shift FLAGS_SHL32 a n (push_bit (unat n) a) s) = shl_flags a (unat n)"
    "arch (set_flags_shift FLAGS_SHR32 a n (drop_bit (unat n) a) s) = shr_flags a (unat n)"
    "arch (set_flags_shift FLAGS_SAR32 a n (signed_drop_bit (unat n) a) s) = sar_flags a (unat n)"
proof -
  let ?l = "set_flags_shift FLAGS_SHL32 a n (push_bit (unat n) a) s"
  let ?r = "set_flags_shift FLAGS_SHR32 a n (drop_bit (unat n) a) s"
  let ?a = "set_flags_shift FLAGS_SAR32 a n (signed_drop_bit (unat n) a) s"
  show "arch ?l = shl_flags a (unat n)"
    using arch_result [of ?l "push_bit (unat n) a"] shl_bits [of ?l a] assms
    by (simp add: width_masks by_result_shift CF_SET_def AF_SET_def VF_SET_def)
      (simp add: shl_flags_def logic_flags_def Let_def)
  show "arch ?r = shr_flags a (unat n)"
    using arch_result [of ?r "drop_bit (unat n) a"] shr_bits [of ?r a] assms
    by (simp add: width_masks by_result_shift CF_SET_def AF_SET_def VF_SET_def)
      (simp add: shr_flags_def logic_flags_def)
  show "arch ?a = sar_flags a (unat n)"
    using arch_result [of ?a "signed_drop_bit (unat n) a"] sar_bits [of ?a a] assms
    by (simp add: width_masks by_result_shift CF_SET_def AF_SET_def VF_SET_def)
      (simp add: sar_flags_def logic_flags_def)
qed


text \<open>Rotations leave the other flags in \<open>flags\<close>, where \<open>flags_rebuild\<close> has put them.\<close>

lemma arch_unknown:
  "flags_op s = FLAGS_UNKNOWN \<Longrightarrow> arch s = \<lparr>cf = bit (flags s) 0, pf = bit (flags s) 2, af = bit (flags s) 4,
     zf = bit (flags s) 6, sf = bit (flags s) 7, vf = bit (flags s) 11\<rparr>"
  using and_mask_bit [of "flags s" 11]
  by (simp add: arch_def CF_SET_def PF_SET_def AF_SET_def ZF_SET_def NF_SET_def VF_SET_def mask_bits)

lemma rotate_bits:
  assumes l: "LENGTH('a) \<le> 32" and r: "flags_res s = ucast (r::'a::len word)"
  shows "overflow_rol (LENGTH('a) - 1) s \<longleftrightarrow> bit r 0 \<noteq> (sint r < 0)"
    "2 \<le> LENGTH('a) \<Longrightarrow> overflow_ror (2 ^ (LENGTH('a) - 2)) s \<longleftrightarrow> bit r (LENGTH('a) - 2) \<noteq> (sint r < 0)"
    "flags_res s AND 1 \<noteq> 0 \<longleftrightarrow> bit r 0" "flags_res s AND top_mask TYPE('a) \<noteq> 0 \<longleftrightarrow> sint r < 0"
proof -
  show "overflow_rol (LENGTH('a) - 1) s \<longleftrightarrow> bit r 0 \<noteq> (sint r < 0)"
    unfolding overflow_rol_def mask_bits not_not bit_xor_iff bit_drop_bit_eq r o_def bit_up [OF l] sint_neg
    by simp
  show "overflow_ror (2 ^ (LENGTH('a) - 2)) s \<longleftrightarrow> bit r (LENGTH('a) - 2) \<noteq> (sint r < 0)" if "2 \<le> LENGTH('a)"
  proof -
    have "Suc (LENGTH('a) - 2) = LENGTH('a) - 1" using that by simp
    then show ?thesis
      unfolding overflow_ror_def and_mask_bit not_not bit_xor_iff bit_drop_bit_eq r o_def bit_up [OF l] sint_neg
      by simp
  qed
qed (simp_all add: r mask_bits and_mask_bit bit_up [OF l] sint_neg del: One_nat_def)

lemma rotate_arch:
  assumes "flags_op s = FLAGS_UNKNOWN"
  shows "arch (set_flags_rotate FLAGS_ROL8 (ucast (a::u8)) s) = rol_flags a (arch s)"
    "arch (set_flags_rotate FLAGS_ROL16 (ucast (b::u16)) s) = rol_flags b (arch s)"
    "arch (set_flags_rotate FLAGS_ROL32 c s) = rol_flags c (arch s)"
    "arch (set_flags_rotate FLAGS_ROR8 (ucast (a::u8)) s) = ror_flags a (arch s)"
    "arch (set_flags_rotate FLAGS_ROR16 (ucast (b::u16)) s) = ror_flags b (arch s)"
    "arch (set_flags_rotate FLAGS_ROR32 c s) = ror_flags c (arch s)"
  unfolding arch_unknown [OF assms]
  using rotate_bits [of "set_flags_rotate FLAGS_ROL8 (ucast a) s" a] rotate_bits [of "set_flags_rotate FLAGS_ROL16 (ucast b) s" b]
    rotate_bits [of "set_flags_rotate FLAGS_ROL32 c s" c]
    rotate_bits [of "set_flags_rotate FLAGS_ROR8 (ucast a) s" a] rotate_bits [of "set_flags_rotate FLAGS_ROR16 (ucast b) s" b]
    rotate_bits [of "set_flags_rotate FLAGS_ROR32 c s" c]
  by (simp_all add: width_masks arch_def rol_flags_def ror_flags_def CF_SET_def PF_SET_def AF_SET_def ZF_SET_def
      NF_SET_def VF_SET_def mask_bits)

section \<open>Rebuilding\<close>

lemma bit_arith_flags: "bit (0x8d5 :: u16) k \<longleftrightarrow> k \<in> {0, 2, 4, 6, 7, 11}"
proof -
  have "(0x8d5 :: u16) = C_FLAG OR P_FLAG OR A_FLAG OR Z_FLAG OR N_FLAG OR V_FLAG" by simp
  then show ?thesis by (simp only: bit_or_iff bit_flags insert_iff empty_iff simp_thms)
qed

lemma bit_cleared: "bit (w AND NOT (0x8d5 :: u16)) k \<longleftrightarrow> bit w k \<and> k \<notin> {0, 2, 4, 6, 7, 11}"
  unfolding bit_and_iff bit_not_iff bit_arith_flags by (auto dest: bit_imp_possible_bit)

lemma flags_rebuild_bits:
  assumes "flags_op s \<noteq> FLAGS_UNKNOWN"
  shows "bit (flags (flags_rebuild s)) k \<longleftrightarrow>
    (if k = 0 then CF_SET s else if k = 2 then PF_SET s else if k = 4 then AF_SET s else if k = 6 then ZF_SET s
     else if k = 7 then NF_SET s else if k = 11 then VF_SET s else bit (flags s) k)"
proof -
  have e: "flags (flags_rebuild s) = (flags s AND NOT 0x8d5) OR set_if (VF_SET s) V_FLAG (set_if (NF_SET s) N_FLAG
      (set_if (ZF_SET s) Z_FLAG (set_if (AF_SET s) A_FLAG (set_if (PF_SET s) P_FLAG (set_if (CF_SET s) C_FLAG 0)))))"
    using assms by (simp add: flags_rebuild_def Let_def)
  show ?thesis unfolding e bit_or_iff bit_set_if bit_flags bit_cleared bit_0_eq bot_apply by auto
qed

lemma flags_op_rebuild: "flags_op (flags_rebuild s) = FLAGS_UNKNOWN"
  by (simp add: flags_rebuild_def Let_def)

lemma arch_rebuild: "arch (flags_rebuild s) = arch s"
proof (cases "flags_op s = FLAGS_UNKNOWN")
  case False
  then show ?thesis
    unfolding arch_unknown [OF flags_op_rebuild] flags_rebuild_bits [OF False] by (simp add: arch_def)
qed (simp add: flags_rebuild_def)

section \<open>ADC and SBB of the other build\<close>

lemma arch_set_now:
  assumes "\<And>k. bit znp k \<Longrightarrow> k \<in> {2, 6, 7}"
  shows "arch (set_now znp carry over half s) =
    \<lparr>cf = carry, pf = bit znp 2, af = half, zf = bit znp 6, sf = bit znp 7, vf = over\<rparr>"
proof -
  have "bit (flags (set_now znp carry over half s)) k \<longleftrightarrow>
      bit (flags s) k \<and> k \<notin> {0, 2, 4, 6, 7, 11} \<or> bit znp k \<or> carry \<and> k = 0 \<or> over \<and> k = 11 \<or> half \<and> k = 4" for k
  proof -
    have e: "flags (set_now znp carry over half s) =
        set_if half A_FLAG (set_if over V_FLAG (set_if carry C_FLAG ((flags s AND NOT 0x8d5) OR znp)))"
      by (simp add: set_now_def)
    show ?thesis unfolding e bit_or_iff bit_set_if bit_flags bit_cleared by auto
  qed
  moreover have "flags_op (set_now znp carry over half s) = FLAGS_UNKNOWN" by (simp add: set_now_def)
  moreover have "\<not> bit znp 0" "\<not> bit znp 4" "\<not> bit znp 11" using assms by force+
  ultimately show ?thesis by (simp add: arch_unknown)
qed

text \<open>Bit \<open>n\<close> of a sum or difference formed in a wider word.\<close>

lemma wide_sum:
  fixes x y :: "'a::len word"
  assumes "LENGTH('a) < LENGTH('b::len)"
  shows "bit (ucast x + ucast y + of_bool c :: 'b word) LENGTH('a) \<longleftrightarrow> 2 ^ LENGTH('a) \<le> unat x + unat y + of_bool c"
    "k < LENGTH('a) \<Longrightarrow> bit (ucast x + ucast y + of_bool c :: 'b word) k \<longleftrightarrow> bit (x + y + of_bool c) k"
proof -
  let ?n = "2 ^ LENGTH('a) :: nat" and ?t = "unat x + unat y + of_bool c"
  have b: "?t < 2 * ?n" using unat_bound [of x] unat_bound [of y] half_range(1) [where 'a = 'a] by (cases c) auto
  also have "\<dots> \<le> 2 ^ LENGTH('b)" using power_increasing [of "Suc LENGTH('a)" "LENGTH('b)" "2::nat"] assms by simp
  finally have t: "?t < 2 ^ LENGTH('b)" .
  have "ucast x + ucast y + of_bool c = (of_nat ?t :: 'b word)" by simp
  then have u: "unat (ucast x + ucast y + of_bool c :: 'b word) = ?t"
    using t by (simp only: unat_of_nat) (simp add: take_bit_nat_eq_self)
  have "?t div ?n = of_bool (?n \<le> ?t)"
  proof (cases "?n \<le> ?t")
    case True
    then have "?t div ?n = Suc ((?t - ?n) div ?n)" by (simp add: le_div_geq)
    then show ?thesis using True b by simp
  qed simp
  then show "bit (ucast x + ucast y + of_bool c :: 'b word) LENGTH('a) \<longleftrightarrow> ?n \<le> ?t"
    unfolding bit_unat u by simp
  assume k: "k < LENGTH('a)"
  have "bit (x + y + of_bool c) k \<longleftrightarrow> bit (?t mod ?n) k"
    using bit_unat [of "x + y + of_bool c" k] by (simp add: unat_word_ariths mod_simps bit_iff_odd)
  also have "\<dots> \<longleftrightarrow> bit ?t k" using k by (simp add: bit_take_bit_iff flip: take_bit_eq_mod)
  finally show "bit (ucast x + ucast y + of_bool c :: 'b word) k \<longleftrightarrow> bit (x + y + of_bool c) k"
    unfolding bit_unat u by (simp add: bit_iff_odd)
qed


lemma narrow_of_nat:
  assumes "LENGTH('a::len) \<le> LENGTH('b::len)"
  shows "ucast (of_nat n :: 'b word) = (of_nat n :: 'a word)"
proof -
  have "2 ^ LENGTH('a) dvd (2::nat) ^ LENGTH('b)" using assms by (rule le_imp_power_dvd)
  then show ?thesis
    by (simp add: word_unat_eq_iff unsigned_ucast_eq unat_of_nat take_bit_eq_mod mod_mod_cancel)
qed

lemma narrow_sum:
  fixes v w :: "'b::len word"
  assumes "LENGTH('a::len) \<le> LENGTH('b)"
  shows "ucast (v + w) = (ucast v + ucast w :: 'a word)" "ucast (v - w) = (ucast v - ucast w :: 'a word)"
proof -
  have *: "ucast (v + w) = (ucast v + ucast w :: 'a word)" for v w :: "'b word"
    using narrow_of_nat [OF assms, of "unat v + unat w"] narrow_of_nat [OF assms, of "unat v"]
      narrow_of_nat [OF assms, of "unat w"] by simp
  then show "ucast (v + w) = (ucast v + ucast w :: 'a word)" .
  show "ucast (v - w) = (ucast v - ucast w :: 'a word)" using * [of "v - w" w] by (simp add: eq_diff_eq)
qed

lemma wide_difference:
  fixes x y :: "'a::len word"
  assumes l: "LENGTH('a) < LENGTH('b::len)"
  shows "bit (ucast x - (ucast y + of_bool c) :: 'b word) LENGTH('a) \<longleftrightarrow> unat x < unat y + of_bool c"
    "k < LENGTH('a) \<Longrightarrow> bit (ucast x - (ucast y + of_bool c) :: 'b word) k \<longleftrightarrow> bit (x - y - of_bool c) k"
proof -
  let ?n = "2 ^ LENGTH('a) :: nat" and ?t = "unat y + of_bool c"
  let ?w = "ucast x - (ucast y + of_bool c) :: 'b word"
  have ux: "unat (ucast v :: 'b word) = unat v" for v :: "'a word"
  proof -
    have "unat v < 2 ^ LENGTH('a)" by (rule unsigned_less)
    also have "\<dots> \<le> 2 ^ LENGTH('b)" using l by (intro power_increasing) simp_all
    finally show ?thesis by (simp add: unsigned_ucast_eq take_bit_nat_eq_self)
  qed
  have we: "?w = ucast x - ucast y - of_bool c" by (simp add: diff_diff_eq)
  have w: "unat ?w = (if ?t \<le> unat x then unat x - ?t else unat x + 2 ^ LENGTH('b) - ?t)"
    using unat_difference [of "ucast x :: 'b word" "ucast y" c]
    unfolding we ux Let_def half_range(1) [symmetric] .
  have x: "unat x < ?n" "unat y < ?n" by (rule unsigned_less)+
  obtain q where q: "(2::nat) ^ LENGTH('b) = ?n * (2 * q)" "0 < q"
  proof
    show "(2::nat) ^ LENGTH('b) = ?n * (2 * 2 ^ (LENGTH('b) - LENGTH('a) - 1))"
      using l by (simp flip: power_Suc power_add)
  qed simp
  show "bit ?w LENGTH('a) \<longleftrightarrow> unat x < ?t"
  proof (cases "?t \<le> unat x")
    case True
    then have "(unat x - ?t) div ?n = 0" using x by (intro div_less) linarith
    then show ?thesis using True unfolding bit_unat w by simp
  next
    case False
    define d where "d = ?t - unat x"
    have c: "of_bool c \<le> (1::nat)" by simp
    have d: "?t = unat x + d" "1 \<le> d" using False unfolding d_def by linarith+
    moreover have "?t \<le> ?n" using x(2) c by linarith
    ultimately have d3: "d \<le> ?n" unfolding d_def by linarith
    obtain m where m: "2 * q = Suc m" using q(2) by (cases q) auto
    have "unat x + 2 ^ LENGTH('b) - ?t = ?n * m + (?n - d)"
      unfolding q(1) m d(1) using d3 by simp
    moreover have "(?n * m + (?n - d)) div ?n = m" using d(2) by simp
    moreover have "odd m" using m by presburger
    ultimately show ?thesis unfolding bit_unat w using False by simp
  qed
  assume k: "k < LENGTH('a)"
  have "(ucast ?w :: 'a word) = x - y - of_bool c"
  proof -
    have rt: "(ucast (ucast v :: 'b word) :: 'a word) = v" for v :: "'a word"
      using l by (intro bit_word_eqI) (auto simp: bit_ucast_iff)
    have o: "(ucast (of_bool c :: 'b word) :: 'a word) = of_bool c" by (cases c) (simp_all add: rt [of 1, simplified])
    have "LENGTH('a) \<le> LENGTH('b)" using l by simp
    then show ?thesis by (simp only: narrow_sum rt o diff_diff_eq)
  qed
  moreover have "bit ?w k \<longleftrightarrow> bit (ucast ?w :: 'a word) k" using k by (simp add: bit_ucast_iff)
  ultimately show "bit ?w k \<longleftrightarrow> bit (x - y - of_bool c) k" by simp
qed

lemma znp_bits:
  "bit (znptable8 r) 2 = even_parity r" "bit (znptable8 r) 6 = (r = 0)" "bit (znptable8 r) 7 = (sint r < 0)"
  "bit (znptable8 r) k \<Longrightarrow> k \<in> {2, 6, 7}"
  using znptable8_bits(4) [of k r] by (auto simp: znptable8_bits(1-3) even_parity_def low_ones sint_neg)

lemma znp16_bits:
  "bit (znptable16 r) 2 = even_parity r" "bit (znptable16 r) 6 = (r = 0)" "bit (znptable16 r) 7 = (sint r < 0)"
  "bit (znptable16 r) k \<Longrightarrow> k \<in> {2, 6, 7}"
proof -
  have m: "(0x8000 :: u16) = 2 ^ 15" by simp
  have b: "bit (znptable16 r) k \<longleftrightarrow> even (low_ones r) \<and> k = 2 \<or> r = 0 \<and> k = 6 \<or> bit r 15 \<and> k = 7" for k
    unfolding znptable16_def m and_mask_bit by (simp add: bit_or_iff bit_flags del: bit_numeral_word_iff)
  show "bit (znptable16 r) 2 = even_parity r" "bit (znptable16 r) 6 = (r = 0)" "bit (znptable16 r) 7 = (sint r < 0)"
    "bit (znptable16 r) k \<Longrightarrow> k \<in> {2, 6, 7}"
    unfolding b by (auto simp: even_parity_def low_ones sint_neg)
qed

lemma arch_set_znp:
  "arch (set_now (znptable8 r) carry over half s) =
    \<lparr>cf = carry, pf = even_parity r, af = half, zf = (r = 0), sf = (sint r < 0), vf = over\<rparr>"
  "arch (set_now (znptable16 q) carry over half s) =
    \<lparr>cf = carry, pf = even_parity q, af = half, zf = (q = 0), sf = (sint q < 0), vf = over\<rparr>"
  by (subst arch_set_now; auto simp: znp_bits(1-3) znp16_bits(1-3) dest: znp_bits(4) znp16_bits(4))+

lemma low_parity: "bit (znptable8 (ucast (w AND 0xff :: 'a::len word))) 2 \<longleftrightarrow> even_parity w" if "8 \<le> LENGTH('a)"
proof -
  have m: "(0xff :: 'a word) = mask 8" by (simp add: mask_eq_exp_minus_1)
  have "{e. e < 8 \<and> bit (ucast (w AND 0xff) :: u8) e} = {e. e < 8 \<and> bit w e}"
    using that unfolding m by (auto simp: bit_ucast_iff bit_and_iff bit_mask_iff)
  then show ?thesis unfolding znptable8_bits low_ones even_parity_def by simp
qed

lemma znp32_bits:
  "bit (znp32 r) 2 = even_parity r" "bit (znp32 r) 6 = (r = 0)" "bit (znp32 r) 7 = (sint r < 0)"
  "bit (znp32 r) k \<Longrightarrow> k \<in> {2, 6, 7}"
proof -
  have m: "(0x80000000 :: u32) = 2 ^ 31" by simp
  have b: "bit (znp32 r) k \<longleftrightarrow> bit r 31 \<and> k = 7 \<or> r = 0 \<and> k = 6 \<or> even_parity r \<and> k = 2" for k
    using low_parity [of r] unfolding znp32_def m and_mask_bit
    by (auto simp: bit_or_iff bit_and_iff bit_flags simp del: bit_numeral_word_iff)
  show "bit (znp32 r) 2 = even_parity r" "bit (znp32 r) 6 = (r = 0)" "bit (znp32 r) 7 = (sint r < 0)"
    "bit (znp32 r) k \<Longrightarrow> k \<in> {2, 6, 7}"
    unfolding b by (auto simp: sint_neg)
qed

lemma arch_set_znp32:
  "arch (set_now (znp32 r) carry over half s) =
    \<lparr>cf = carry, pf = even_parity r, af = half, zf = (r = 0), sf = (sint r < 0), vf = over\<rparr>"
  by (subst arch_set_now; auto simp: znp32_bits(1-3) dest: znp32_bits(4))

lemma masked:
  "ucast (w AND 0xff :: u16) = (ucast w :: u8)" "ucast (x AND 0xffff :: u32) = (ucast x :: u16)"
  "ucast (x AND 0xff :: u32) = (ucast x :: u8)"
proof -
  have m: "(0xff :: u16) = mask 8" "(0xff :: u32) = mask 8" "(0xffff :: u32) = mask 16"
    by (simp_all add: mask_eq_exp_minus_1)
  show "ucast (w AND 0xff :: u16) = (ucast w :: u8)" "ucast (x AND 0xffff :: u32) = (ucast x :: u16)"
    "ucast (x AND 0xff :: u32) = (ucast x :: u8)"
    unfolding m by (rule bit_word_eqI; simp add: bit_ucast_iff bit_and_iff bit_mask_iff)+
qed

lemma half_old:
  assumes "4 \<le> LENGTH('a)" "LENGTH('a) \<le> 32"
  shows "(nib (ucast (a :: 'a::len word)) + nib (ucast b) + of_bool c) AND 0x10 \<noteq> 0 \<longleftrightarrow> af (add_flags a b c)"
    "(nib (ucast a) - (nib (ucast b) + of_bool c)) AND 0x10 \<noteq> 0 \<longleftrightarrow> af (sub_flags a b c)"
proof -
  note up = unat_up [OF assms(2)]
  show "(nib (ucast a) + nib (ucast b) + of_bool c) AND 0x10 \<noteq> 0 \<longleftrightarrow> af (add_flags a b c)"
    by (subst half_sum) (auto simp: unat_nib up add_flags_def Let_def)
  have "unat (nib (ucast b) + of_bool c) = unat b mod 16 + of_bool c"
    using unat_of_small [of "unat b mod 16 + 1"] by (cases c) (simp_all add: unat_nib up unat_word_ariths)
  then show "(nib (ucast a) - (nib (ucast b) + of_bool c)) AND 0x10 \<noteq> 0 \<longleftrightarrow> af (sub_flags a b c)"
    by (subst half_difference) (auto simp: unat_nib up sub_flags_def Let_def)
qed

lemma narrow8: "ucast (ucast (a :: u8) :: u16) = a" "ucast (of_bool c :: u16) = (of_bool c :: u8)"
  by (auto intro!: bit_word_eqI simp: bit_ucast_iff)

lemma setadc8_old_arch:
  assumes t: "tempc s = of_bool c"
  shows "arch (setadc8_old a b s) = add_flags a b c"
proof -
  let ?c = "ucast a + ucast b + of_bool c :: u16"
  have "(ucast (tempc s) :: u16) = of_bool c" by (simp add: t)
  then have e: "setadc8_old a b s = set_now (znptable8 (a + b + of_bool c)) (bit ?c 8)
     (bit a 7 = bit b 7 \<and> bit a 7 \<noteq> bit (a + b + of_bool c) 7) (af (add_flags a b c)) s"
    using wide_sum(2) [of 7 a b c, where 'b = 16]
      half_old(1) [of a b c] and_mask_bit [of ?c 8] and_mask_bit [of "ucast a XOR ?c" 7] and_mask_bit [of "a XOR b" 7]
    by (simp add: setadc8_old_def masked narrow_sum narrow8 t bit_xor_iff bit_ucast_iff)
  show ?thesis
    unfolding e arch_set_znp
    using overflow_of_sum [of a b c] wide_sum(1) [of a b c, where 'b = 16] by (simp add: add_flags_def Let_def)
qed

lemma setadc16_old_arch:
  assumes t: "tempc s = of_bool c"
  shows "arch (setadc16_old a b s) = add_flags a b c"
proof -
  let ?c = "ucast a + ucast b + of_bool c :: u32"
  have e: "setadc16_old a b s = set_now (znptable16 (a + b + of_bool c)) (bit ?c 16)
     (bit a 15 = bit b 15 \<and> bit a 15 \<noteq> bit (a + b + of_bool c) 15) (af (add_flags a b c)) s"
    using wide_sum(2) [of 15 a b c, where 'b = 32]
      half_old(1) [of a b c] and_mask_bit [of ?c 16] and_mask_bit [of "ucast a XOR ?c" 15] and_mask_bit [of "a XOR b" 15]
    by (simp add: setadc16_old_def masked t bit_xor_iff bit_ucast_iff)
  show ?thesis
    unfolding e arch_set_znp
    using overflow_of_sum [of a b c] wide_sum(1) [of a b c, where 'b = 32] by (simp add: add_flags_def Let_def)
qed

lemma setadc32_old_arch:
  assumes t: "tempc s = of_bool c"
  shows "arch (setadc32_old a b s) = add_flags a b c"
proof -
  let ?r = "a + b + of_bool c :: u32"
  have "?r = a \<Longrightarrow> unat b = 2 ^ 32 - 1 \<longleftrightarrow> c"
  proof -
    assume "?r = a"
    then have "b + of_bool c = 0" by (simp add: add.assoc)
    then have "b = (if c then - 1 else 0)" by (auto simp: add_eq_0_iff2)
    then show ?thesis by (simp add: unsigned_minus_1_eq_mask mask_eq_exp_minus_1)
  qed
  then have "?r < a \<or> ?r = a \<and> c \<longleftrightarrow> cf (add_flags a b c)"
    using carry_of_sum [of a b c] by (auto simp: word_less_nat_alt word_unat_eq_iff add_flags_def Let_def)
  then have e: "setadc32_old a b s = set_now (znp32 ?r) (cf (add_flags a b c))
     (bit a 31 = bit b 31 \<and> bit a 31 \<noteq> bit ?r 31) (af (add_flags a b c)) s"
    using half_old(1) [of a b c] and_mask_bit [of "a XOR ?r" 31] and_mask_bit [of "a XOR b" 31]
    by (simp add: setadc32_old_def t bit_xor_iff Let_def)
  show ?thesis
    unfolding e arch_set_znp32
    using overflow_of_sum [of a b c] by (simp add: add_flags_def Let_def)
qed

lemma mask_and3: "(x :: 'a::len word) AND y AND 2 ^ k \<noteq> 0 \<longleftrightarrow> bit x k \<and> bit y k"
  unfolding and.assoc [symmetric] and_mask_bit by (simp add: bit_and_iff)

lemma setsbc8_old_arch:
  assumes t: "tempc s = of_bool c"
  shows "arch (setsbc8_old a b s) = sub_flags a b c"
proof -
  let ?c = "ucast a - (ucast b + of_bool c) :: u16"
  have "(ucast (tempc s) :: u16) = of_bool c" by (simp add: t)
  then have e: "setsbc8_old a b s = set_now (znptable8 (a - b - of_bool c)) (bit ?c 8)
     (bit a 7 \<noteq> bit b 7 \<and> bit a 7 \<noteq> bit (a - b - of_bool c) 7) (af (sub_flags a b c)) s"
    using wide_difference(2) [of 7 a b c, where 'b = 16]
      half_old(2) [of a b c] and_mask_bit [of ?c 8] mask_and3 [of "ucast a XOR ucast b" "ucast a XOR ?c" 7]
    by (simp add: setsbc8_old_def masked narrow_sum narrow8 t bit_xor_iff bit_ucast_iff diff_diff_eq)
  show ?thesis
    unfolding e arch_set_znp
    using overflow_of_difference [of a b c] wide_difference(1) [of a b c, where 'b = 16] by (simp add: sub_flags_def Let_def)
qed

lemma setsbc16_old_arch:
  assumes t: "tempc s = of_bool c"
  shows "arch (setsbc16_old a b s) = sub_flags a b c"
proof -
  let ?c = "ucast a - (ucast b + of_bool c) :: u32" and ?r = "a - b - of_bool c"
  let ?z = "(znptable16 ?r AND NOT 4) OR (znptable8 (ucast (?c AND 0xff)) AND 4)"
  have z: "bit ?z k \<longleftrightarrow> bit (znptable16 ?r) k" for k
  proof -
    have "bit (znptable8 (ucast (?c AND 0xff))) 2 \<longleftrightarrow> even_parity ?r"
    proof -
      have "bit ?c e \<longleftrightarrow> bit ?r e" if "e < 8" for e
        using wide_difference(2) [of e a b c, where 'b = 32] that by simp
      then have "{e. e < 8 \<and> bit ?c e} = {e. e < 8 \<and> bit ?r e}" by blast
      then show ?thesis using low_parity [of ?c] by (simp add: even_parity_def)
    qed
    moreover have "bit ?z k \<longleftrightarrow> bit (znptable16 ?r) k \<and> k \<noteq> 2 \<or> bit (znptable8 (ucast (?c AND 0xff))) k \<and> k = 2"
      unfolding bit_or_iff bit_and_iff bit_not_iff bit_flags by (auto dest: bit_imp_possible_bit)
    ultimately show ?thesis using znp16_bits(1) [of ?r] by auto
  qed
  then have zn: "?z = znptable16 ?r" by (intro bit_word_eqI) blast
  have e: "setsbc16_old a b s = set_now ?z (bit ?c 16)
     (bit a 15 \<noteq> bit b 15 \<and> bit a 15 \<noteq> bit ?r 15) (af (sub_flags a b c)) s"
    using wide_difference(2) [of 15 a b c, where 'b = 32]
      half_old(2) [of a b c] and_mask_bit [of ?c 16] mask_and3 [of "ucast a XOR ucast b" "ucast a XOR ?c" 15]
    by (simp add: setsbc16_old_def masked t bit_xor_iff bit_ucast_iff diff_diff_eq)
  show ?thesis
    unfolding e zn arch_set_znp
    using overflow_of_difference [of a b c] wide_difference(1) [of a b c, where 'b = 32] by (simp add: sub_flags_def Let_def)
qed

lemma setsbc32_old_arch:
  assumes t: "tempc s = of_bool c"
  shows "arch (setsbc32_old a b s) = sub_flags a b c"
proof -
  let ?r = "a - b - of_bool c :: u32"
  have "a < ?r \<or> ?r = a \<and> c \<longleftrightarrow> cf (sub_flags a b c)"
    using unat_difference [of a b c] unat_bound [of b] unat_bound [of a]
    by (cases c) (auto simp: half_range_def Let_def word_less_nat_alt word_unat_eq_iff sub_flags_def split: if_splits)
  then have e: "setsbc32_old a b s = set_now (znp32 ?r) (cf (sub_flags a b c))
     (bit a 31 \<noteq> bit b 31 \<and> bit a 31 \<noteq> bit ?r 31) (af (sub_flags a b c)) s"
    using half_old(2) [of a b c] mask_and3 [of "a XOR b" "a XOR ?r" 31]
    by (simp add: setsbc32_old_def t bit_xor_iff diff_diff_eq Let_def)
  show ?thesis
    unfolding e arch_set_znp32
    using overflow_of_difference [of a b c] by (simp add: sub_flags_def Let_def)
qed


end
