(* ===== verification/X86_Cpu.thy ===== *)
theory X86_Cpu
  imports X86_Flags_Spec
begin

text \<open>
  The state of the 286/386 interpreter (\<open>src/src/cpu/386.c\<close> with \<open>386_common.h\<close> and \<open>cpu.h\<close>), the
  decoding of an effective address, and the operands of an instruction: registers, immediate
  bytes, and memory behind the segment checks.

  A linear access is a function of the argument \<open>B\<close>; \<open>Mmu_2386\<close> has the ones of the program
  (\<open>readmembl_2386\<close> and the others). Its state is the field \<open>mem\<close>. An access may raise a fault, so
  it takes and returns \<open>abrt\<close> and \<open>abrt_error\<close>. The pending flush that selects the page tables of
  an instruction fetch, the debug registers and the cycle counts are left out.

  A handler returns the state and how it ended: \<open>return 0\<close>, \<open>return 1\<close>, \<open>x86_int(n)\<close> followed by
  \<open>return 1\<close>, or an operation that C leaves undefined (a division that overflows). A macro that may return from the handler takes the rest of the handler
  as its last argument. \<open>regs\<close> is the array of the eight registers; the code indexes it by three
  bits, and \<open>getr8\<close> never takes its branch for the registers of 64-bit mode.
\<close>

section \<open>State\<close>

datatype seg_reg = ES | CS | SS | DS | FS | GS

record x86seg =
  seg_base :: u32
  seg_access :: u8
  seg_sel :: u16
  limit_low :: u32
  limit_high :: u32

record 'm x86_cpu = x86_flags +
  regs :: "nat \<Rightarrow> u32"
  ea_seg :: seg_reg
  eaaddr :: u32
  easeg :: u32
  pc :: u32
  cpu_rm :: nat
  cpu_mod :: nat
  cpu_reg :: nat
  ssegs :: u8
  abrt :: u8
  abrt_error :: u32
  segs :: "seg_reg \<Rightarrow> x86seg"
  msw :: u16
  eflags :: u16
  op32 :: u32
  oldpc :: u32
  trap :: u32
  use32 :: u32
  cpu_16bitbus :: bool
  is486 :: bool
  cpu_isintel :: bool
  cpu_iscyrix :: bool
  is6117 :: bool
  use_new_dynarec :: bool
  mem :: 'm

datatype op_exit = Ret0 | Ret1 | Int_ret1 nat | C_undefined

type_synonym 'm op_result = "'m x86_cpu \<times> op_exit"

abbreviation VM_FLAG :: u16 where "VM_FLAG \<equiv> 0x0002"

definition protected_mode :: "'m x86_cpu \<Rightarrow> bool" where
  "protected_mode s \<longleftrightarrow> msw s AND 1 \<noteq> 0 \<and> eflags s AND VM_FLAG = 0"

section \<open>Registers\<close>

definition low_byte :: "u32 \<Rightarrow> u8" where "low_byte w = ucast w"
definition high_byte :: "u32 \<Rightarrow> u8" where "high_byte w = ucast (drop_bit 8 w)"

definition set_low_byte :: "u8 \<Rightarrow> u32 \<Rightarrow> u32" where
  "set_low_byte v w = (w AND 0xffffff00) OR ucast v"

definition set_high_byte :: "u8 \<Rightarrow> u32 \<Rightarrow> u32" where
  "set_high_byte v w = (w AND 0xffff00ff) OR push_bit 8 (ucast v)"

definition set_low_word :: "u16 \<Rightarrow> u32 \<Rightarrow> u32" where
  "set_low_word v w = (w AND 0xffff0000) OR ucast v"

definition getr8 :: "nat \<Rightarrow> 'm x86_cpu \<Rightarrow> u8" where
  "getr8 r s = (if bit r 2 then high_byte (regs s (r mod 4)) else low_byte (regs s r))"

definition setr8 :: "nat \<Rightarrow> u8 \<Rightarrow> 'm x86_cpu \<Rightarrow> 'm x86_cpu" where
  "setr8 r v s = (if bit r 2
     then s\<lparr>regs := (regs s)(r mod 4 := set_high_byte v (regs s (r mod 4)))\<rparr>
     else s\<lparr>regs := (regs s)(r := set_low_byte v (regs s r))\<rparr>)"

definition getr16 :: "nat \<Rightarrow> 'm x86_cpu \<Rightarrow> u16" where
  "getr16 r s = ucast (regs s r)"

definition setr16 :: "nat \<Rightarrow> u16 \<Rightarrow> 'm x86_cpu \<Rightarrow> 'm x86_cpu" where
  "setr16 r v s = s\<lparr>regs := (regs s)(r := set_low_word v (regs s r))\<rparr>"

definition getr32 :: "nat \<Rightarrow> 'm x86_cpu \<Rightarrow> u32" where
  "getr32 r s = regs s r"

definition setr32 :: "nat \<Rightarrow> u32 \<Rightarrow> 'm x86_cpu \<Rightarrow> 'm x86_cpu" where
  "setr32 r v s = s\<lparr>regs := (regs s)(r := v)\<rparr>"

abbreviation (input) AL :: nat where "AL \<equiv> 0"
abbreviation (input) AH :: nat where "AH \<equiv> 4"
abbreviation (input) AX :: nat where "AX \<equiv> 0"
abbreviation (input) EAX :: nat where "EAX \<equiv> 0"
abbreviation (input) CL :: nat where "CL \<equiv> 1"
abbreviation (input) DX :: nat where "DX \<equiv> 2"
abbreviation (input) EDX :: nat where "EDX \<equiv> 2"

section \<open>Faults and checks\<close>

definition x86gpf :: "u16 \<Rightarrow> 'm x86_cpu \<Rightarrow> 'm x86_cpu" where
  "x86gpf err s = s\<lparr>abrt := 0x0d, abrt_error := ucast err\<rparr>"

definition x86ss :: "u16 \<Rightarrow> 'm x86_cpu \<Rightarrow> 'm x86_cpu" where
  "x86ss err s = s\<lparr>abrt := 0x0c, abrt_error := ucast err\<rparr>"

definition x86np :: "u16 \<Rightarrow> 'm x86_cpu \<Rightarrow> 'm x86_cpu" where
  "x86np err s = s\<lparr>abrt := 0x0b, abrt_error := ucast err\<rparr>"

text \<open>\<open>if (cpu_state.abrt) return 1;\<close>\<close>

definition unless_abrt :: "'m x86_cpu \<Rightarrow> ('m x86_cpu \<Rightarrow> 'm op_result) \<Rightarrow> 'm op_result" where
  "unless_abrt s k = (if abrt s \<noteq> 0 then (s, Ret1) else k s)"

definition SEG_CHECK_READ :: "seg_reg \<Rightarrow> 'm x86_cpu \<Rightarrow> ('m x86_cpu \<Rightarrow> 'm op_result) \<Rightarrow> 'm op_result" where
  "SEG_CHECK_READ seg s k = (if seg_base (segs s seg) = 0xffffffff then (x86gpf 0 s, Ret1) else k s)"

definition SEG_CHECK_WRITE :: "seg_reg \<Rightarrow> 'm x86_cpu \<Rightarrow> ('m x86_cpu \<Rightarrow> 'm op_result) \<Rightarrow> 'm op_result" where
  "SEG_CHECK_WRITE seg s k = (if seg_base (segs s seg) = 0xffffffff then (x86gpf 0 s, Ret1) else k s)"

text \<open>The fault of a checked access, if it has one.\<close>

definition not_present :: "seg_reg \<Rightarrow> 'm x86_cpu \<Rightarrow> 'm x86_cpu option" where
  "not_present seg s = (if protected_mode s \<and> seg_access (segs s seg) AND 0x80 = 0
     then Some (if seg = SS then x86ss (seg_sel (segs s seg) AND 0xfffc) s
                else x86np (seg_sel (segs s seg) AND 0xfffc) s)
     else None)"

definition CHECK_READ :: "seg_reg \<Rightarrow> u32 \<Rightarrow> u32 \<Rightarrow> 'm x86_cpu \<Rightarrow> 'm x86_cpu option" where
  "CHECK_READ seg low high s =
     (if low < limit_low (segs s seg) \<or> high > limit_high (segs s seg)
         \<or> protected_mode s \<and> seg_access (segs s seg) AND 10 = 8
      then Some (x86gpf 0 s) else not_present seg s)"

definition CHECK_WRITE_COMMON :: "seg_reg \<Rightarrow> u32 \<Rightarrow> u32 \<Rightarrow> 'm x86_cpu \<Rightarrow> 'm x86_cpu option" where
  "CHECK_WRITE_COMMON seg low high s =
     (if low < limit_low (segs s seg) \<or> high > limit_high (segs s seg)
         \<or> seg_access (segs s seg) AND 2 = 0
         \<or> protected_mode s \<and> seg_access (segs s seg) AND 8 \<noteq> 0
      then Some (x86gpf 0 s) else not_present seg s)"

section \<open>Memory\<close>

type_synonym 'm bus_state = "'m \<times> u8 \<times> u32"

record 'm cpu_bus =
  readmembl :: "u32 \<Rightarrow> 'm bus_state \<Rightarrow> u8 \<times> 'm bus_state"
  readmemwl :: "u32 \<Rightarrow> 'm bus_state \<Rightarrow> u16 \<times> 'm bus_state"
  readmemll :: "u32 \<Rightarrow> 'm bus_state \<Rightarrow> u32 \<times> 'm bus_state"
  writemembl :: "u32 \<Rightarrow> u8 \<Rightarrow> 'm bus_state \<Rightarrow> 'm bus_state"
  writememwl :: "u32 \<Rightarrow> u16 \<Rightarrow> 'm bus_state \<Rightarrow> 'm bus_state"
  writememll :: "u32 \<Rightarrow> u32 \<Rightarrow> 'm bus_state \<Rightarrow> 'm bus_state"

definition bus_of :: "'m x86_cpu \<Rightarrow> 'm bus_state" where
  "bus_of s = (mem s, abrt s, abrt_error s)"

definition put_bus :: "'m bus_state \<Rightarrow> 'm x86_cpu \<Rightarrow> 'm x86_cpu" where
  "put_bus b s = (case b of (m, a, e) \<Rightarrow> s\<lparr>mem := m, abrt := a, abrt_error := e\<rparr>)"

definition via :: "('m bus_state \<Rightarrow> 'a \<times> 'm bus_state) \<Rightarrow> 'm x86_cpu \<Rightarrow> 'a \<times> 'm x86_cpu" where
  "via f s = (case f (bus_of s) of (v, b) \<Rightarrow> (v, put_bus b s))"

text \<open>The bytes of the instruction; \<open>fastreadb\<close> returns 0 after a fault.\<close>

definition fetched :: "('m bus_state \<Rightarrow> 'a::len word \<times> 'm bus_state) \<Rightarrow> 'm x86_cpu \<Rightarrow> 'a word \<times> 'm x86_cpu" where
  "fetched f s = (case via f s of (v, s') \<Rightarrow> (if abrt s' \<noteq> 0 then 0 else v, s'))"

definition fastreadb :: "'m cpu_bus \<Rightarrow> u32 \<Rightarrow> 'm x86_cpu \<Rightarrow> u8 \<times> 'm x86_cpu" where
  "fastreadb B a = fetched (readmembl B a)"

definition fastreadw :: "'m cpu_bus \<Rightarrow> u32 \<Rightarrow> 'm x86_cpu \<Rightarrow> u16 \<times> 'm x86_cpu" where
  "fastreadw B a = fetched (readmemwl B a)"

definition fastreadl :: "'m cpu_bus \<Rightarrow> u32 \<Rightarrow> 'm x86_cpu \<Rightarrow> u32 \<times> 'm x86_cpu" where
  "fastreadl B a = fetched (readmemll B a)"

definition cs :: "'m x86_cpu \<Rightarrow> u32" where "cs s = seg_base (segs s CS)"
definition ss :: "'m x86_cpu \<Rightarrow> u32" where "ss s = seg_base (segs s SS)"

definition getbyte :: "'m cpu_bus \<Rightarrow> 'm x86_cpu \<Rightarrow> u8 \<times> 'm x86_cpu" where
  "getbyte B s = (let s = s\<lparr>pc := pc s + 1\<rparr> in fastreadb B (cs s + (pc s - 1)) s)"

definition getword :: "'m cpu_bus \<Rightarrow> 'm x86_cpu \<Rightarrow> u16 \<times> 'm x86_cpu" where
  "getword B s = (let s = s\<lparr>pc := pc s + 2\<rparr> in fastreadw B (cs s + (pc s - 2)) s)"

definition getlong :: "'m cpu_bus \<Rightarrow> 'm x86_cpu \<Rightarrow> u32 \<times> 'm x86_cpu" where
  "getlong B s = (let s = s\<lparr>pc := pc s + 4\<rparr> in fastreadl B (cs s + (pc s - 4)) s)"

text \<open>The bytes already fetched with the opcode.\<close>

definition getbytef :: "u32 \<Rightarrow> 'm x86_cpu \<Rightarrow> u8 \<times> 'm x86_cpu" where
  "getbytef fetchdat s = (ucast fetchdat, s\<lparr>pc := pc s + 1\<rparr>)"

definition getwordf :: "u32 \<Rightarrow> 'm x86_cpu \<Rightarrow> u16 \<times> 'm x86_cpu" where
  "getwordf fetchdat s = (ucast fetchdat, s\<lparr>pc := pc s + 2\<rparr>)"

section \<open>Effective addresses\<close>

definition use_ss :: "'m x86_cpu \<Rightarrow> 'm x86_cpu" where
  "use_ss s = s\<lparr>easeg := ss s, ea_seg := SS\<rparr>"

definition sib_base :: "'m cpu_bus \<Rightarrow> u8 \<Rightarrow> 'm x86_cpu \<Rightarrow> 'm x86_cpu" where
  "sib_base B sib s = (let base = regs s (unat (sib AND 7)) in
     if cpu_mod s = 0 then s\<lparr>eaaddr := base, pc := pc s + 1\<rparr>
     else if cpu_mod s = 1 then
       (let s = s\<lparr>pc := pc s + 1\<rparr>; (d, s) = getbyte B s in s\<lparr>eaaddr := scast d + base\<rparr>)
     else if cpu_mod s = 2 then
       (let (d, s) = fastreadl B (cs s + pc s + 1) s in s\<lparr>eaaddr := d + base, pc := pc s + 5\<rparr>)
     else s)"

definition fetch_ea_32_long :: "'m cpu_bus \<Rightarrow> u32 \<Rightarrow> 'm x86_cpu \<Rightarrow> 'm x86_cpu" where
  "fetch_ea_32_long B rmdat s = (let s = s\<lparr>easeg := seg_base (segs s (ea_seg s))\<rparr> in
     if cpu_rm s = 4 then
       (let sib = ucast (drop_bit 8 rmdat) :: u8;
            s = sib_base B sib s;
            s = (if sib AND 7 = 5 \<and> cpu_mod s = 0 then (let (d, s) = getlong B s in s\<lparr>eaaddr := d\<rparr>)
                 else if sib AND 6 = 4 \<and> ssegs s = 0 then use_ss s else s);
            x = unat (drop_bit 3 sib AND 7)
        in if x \<noteq> 4 then s\<lparr>eaaddr := eaaddr s + push_bit (unat (drop_bit 6 sib)) (regs s x)\<rparr> else s)
     else
       (let s = s\<lparr>eaaddr := regs s (cpu_rm s)\<rparr> in
        if cpu_mod s \<noteq> 0 then
          (let s = (if cpu_rm s = 5 \<and> ssegs s = 0 then use_ss s else s) in
           if cpu_mod s = 1 then
             s\<lparr>eaaddr := eaaddr s + scast (ucast (drop_bit 8 rmdat) :: u8), pc := pc s + 1\<rparr>
           else (let (d, s) = getlong B s in s\<lparr>eaaddr := eaaddr s + d\<rparr>))
        else if cpu_rm s = 5 then (let (d, s) = getlong B s in s\<lparr>eaaddr := d\<rparr>)
        else s))"

text \<open>The tables \<open>mod1add\<close> and \<open>mod1seg\<close>: BX 3, BP 5, SI 6, DI 7.\<close>

definition mod1add :: "nat \<Rightarrow> 'm x86_cpu \<Rightarrow> u32" where
  "mod1add rm s = (let
     first = (if rm = 0 \<or> rm = 1 \<or> rm = 7 then getr16 3 s
              else if rm = 2 \<or> rm = 3 \<or> rm = 6 then getr16 5 s
              else if rm = 4 then getr16 6 s else getr16 7 s);
     second = (if rm = 0 \<or> rm = 2 then getr16 6 s else if rm = 1 \<or> rm = 3 then getr16 7 s else 0)
     in ucast first + ucast second)"

definition fetch_ea_16_long :: "'m cpu_bus \<Rightarrow> u32 \<Rightarrow> 'm x86_cpu \<Rightarrow> 'm x86_cpu" where
  "fetch_ea_16_long B rmdat s = (let s = s\<lparr>easeg := seg_base (segs s (ea_seg s))\<rparr> in
     if cpu_mod s = 0 \<and> cpu_rm s = 6 then (let (d, s) = getword B s in s\<lparr>eaaddr := ucast d\<rparr>)
     else
       (let s = (if cpu_mod s = 0 then s\<lparr>eaaddr := 0\<rparr>
                 else if cpu_mod s = 1 then
                   s\<lparr>eaaddr := ucast (scast (ucast (drop_bit 8 rmdat) :: u8) :: u16), pc := pc s + 1\<rparr>
                 else if cpu_mod s = 2 then (let (d, s) = getword B s in s\<lparr>eaaddr := ucast d\<rparr>)
                 else s);
            s = s\<lparr>eaaddr := eaaddr s + mod1add (cpu_rm s) s\<rparr>;
            s = (if cpu_rm s \<in> {2, 3, 6} \<and> ssegs s = 0 then use_ss s else s)
        in s\<lparr>eaaddr := eaaddr s AND 0xffff\<rparr>))"

definition decode_modrm :: "u32 \<Rightarrow> 'm x86_cpu \<Rightarrow> 'm x86_cpu" where
  "decode_modrm rmdat s = s\<lparr>pc := pc s + 1, cpu_mod := unat (drop_bit 6 rmdat AND 3),
     cpu_reg := unat (drop_bit 3 rmdat AND 7), cpu_rm := unat (rmdat AND 7)\<rparr>"

definition fetch_ea_16 :: "'m cpu_bus \<Rightarrow> u32 \<Rightarrow> 'm x86_cpu \<Rightarrow> ('m x86_cpu \<Rightarrow> 'm op_result) \<Rightarrow> 'm op_result" where
  "fetch_ea_16 B rmdat s k = (let s = decode_modrm rmdat s in
     if cpu_mod s \<noteq> 3 then unless_abrt (fetch_ea_16_long B rmdat s) k else k s)"

definition fetch_ea_32 :: "'m cpu_bus \<Rightarrow> u32 \<Rightarrow> 'm x86_cpu \<Rightarrow> ('m x86_cpu \<Rightarrow> 'm op_result) \<Rightarrow> 'm op_result" where
  "fetch_ea_32 B rmdat s k = (let s = decode_modrm rmdat s in
     unless_abrt (if cpu_mod s \<noteq> 3 then fetch_ea_32_long B rmdat s else s) k)"

section \<open>Operands\<close>

definition geteab :: "'m cpu_bus \<Rightarrow> 'm x86_cpu \<Rightarrow> u8 \<times> 'm x86_cpu" where
  "geteab B s = (if cpu_mod s = 3 then (getr8 (cpu_rm s) s, s)
     else via (readmembl B (easeg s + eaaddr s)) s)"

definition geteaw :: "'m cpu_bus \<Rightarrow> 'm x86_cpu \<Rightarrow> u16 \<times> 'm x86_cpu" where
  "geteaw B s = (if cpu_mod s = 3 then (getr16 (cpu_rm s) s, s)
     else via (readmemwl B (easeg s + eaaddr s)) s)"

definition geteal :: "'m cpu_bus \<Rightarrow> 'm x86_cpu \<Rightarrow> u32 \<times> 'm x86_cpu" where
  "geteal B s = (if cpu_mod s = 3 then (getr32 (cpu_rm s) s, s)
     else via (readmemll B (easeg s + eaaddr s)) s)"

text \<open>
  A store whose check fails returns 1 from the handler with \<open>abrt\<close> set; every handler also
  returns 1 right after a store that leaves \<open>abrt\<close> set, so the two are one case here.
\<close>

definition checked_store :: "u32 \<Rightarrow> ('m bus_state \<Rightarrow> 'm bus_state) \<Rightarrow> 'm x86_cpu \<Rightarrow> 'm x86_cpu" where
  "checked_store n f s = (case CHECK_WRITE_COMMON (ea_seg s) (eaaddr s) (eaaddr s + n) s of
     Some s' \<Rightarrow> s' | None \<Rightarrow> put_bus (f (bus_of s)) s)"

definition seteab :: "'m cpu_bus \<Rightarrow> u8 \<Rightarrow> 'm x86_cpu \<Rightarrow> 'm x86_cpu" where
  "seteab B v s = (if cpu_mod s \<noteq> 3 then checked_store 0 (writemembl B (easeg s + eaaddr s) v) s
     else setr8 (cpu_rm s) v s)"

definition seteaw :: "'m cpu_bus \<Rightarrow> u16 \<Rightarrow> 'm x86_cpu \<Rightarrow> 'm x86_cpu" where
  "seteaw B v s = (if cpu_mod s \<noteq> 3 then checked_store 1 (writememwl B (easeg s + eaaddr s) v) s
     else setr16 (cpu_rm s) v s)"

definition seteal :: "'m cpu_bus \<Rightarrow> u32 \<Rightarrow> 'm x86_cpu \<Rightarrow> 'm x86_cpu" where
  "seteal B v s = (if cpu_mod s \<noteq> 3 then checked_store 3 (writememll B (easeg s + eaaddr s) v) s
     else setr32 (cpu_rm s) v s)"

end
