(* ===== verification/X86_Arith.thy ===== *)
theory X86_Arith
  imports X86_Cpu
begin

text \<open>
  The arithmetic instructions of the interpreter: \<open>src/src/cpu/x86_ops_arith.h\<close> and
  \<open>x86_ops_inc_dec.h\<close>. The source writes each handler three times with macros, for bytes, words
  and double words, and each of these twice, for 16- and 32-bit addresses. Here a handler is one
  definition over the operand size, a record of the operand access routines and of the flag
  setters (\<open>byte_size\<close>, \<open>word_size\<close>, \<open>long_size\<close>), and over the address decoder \<open>fetch_ea\<close>.
\<close>

section \<open>The operations\<close>

datatype arith = op_ADD | op_OR | op_ADC | op_SBB | op_AND | op_SUB | op_XOR | op_CMP

record ('a, 'm) op_size =
  getea :: "'m cpu_bus \<Rightarrow> 'm x86_cpu \<Rightarrow> 'a \<times> 'm x86_cpu"
  setea :: "'m cpu_bus \<Rightarrow> 'a \<Rightarrow> 'm x86_cpu \<Rightarrow> 'm x86_cpu"
  getr :: "nat \<Rightarrow> 'm x86_cpu \<Rightarrow> 'a"
  setr :: "nat \<Rightarrow> 'a \<Rightarrow> 'm x86_cpu \<Rightarrow> 'm x86_cpu"
  set_add :: "'a \<Rightarrow> 'a \<Rightarrow> 'm x86_cpu \<Rightarrow> 'm x86_cpu"
  set_sub :: "'a \<Rightarrow> 'a \<Rightarrow> 'm x86_cpu \<Rightarrow> 'm x86_cpu"
  set_adc :: "'a \<Rightarrow> 'a \<Rightarrow> 'm x86_cpu \<Rightarrow> 'm x86_cpu"
  set_sbc :: "'a \<Rightarrow> 'a \<Rightarrow> 'm x86_cpu \<Rightarrow> 'm x86_cpu"
  set_add_nc :: "'a \<Rightarrow> 'a \<Rightarrow> 'm x86_cpu \<Rightarrow> 'm x86_cpu"
  set_sub_nc :: "'a \<Rightarrow> 'a \<Rightarrow> 'm x86_cpu \<Rightarrow> 'm x86_cpu"
  set_znp :: "'a \<Rightarrow> 'm x86_cpu \<Rightarrow> 'm x86_cpu"

definition byte_size :: "(u8, 'm) op_size" where
  "byte_size = \<lparr>getea = geteab, setea = seteab, getr = getr8, setr = setr8,
     set_add = setadd8, set_sub = setsub8,
     set_adc = (\<lambda>dst src s. if use_new_dynarec s then setadc8 dst src s else setadc8_old dst src s),
     set_sbc = (\<lambda>dst src s. if use_new_dynarec s then setsbc8 dst src s else setsbc8_old dst src s),
     set_add_nc = setadd8nc, set_sub_nc = setsub8nc, set_znp = setznp8\<rparr>"

definition word_size :: "(u16, 'm) op_size" where
  "word_size = \<lparr>getea = geteaw, setea = seteaw, getr = getr16, setr = setr16,
     set_add = setadd16, set_sub = setsub16,
     set_adc = (\<lambda>dst src s. if use_new_dynarec s then setadc16 dst src s else setadc16_old dst src s),
     set_sbc = (\<lambda>dst src s. if use_new_dynarec s then setsbc16 dst src s else setsbc16_old dst src s),
     set_add_nc = setadd16nc, set_sub_nc = setsub16nc, set_znp = setznp16\<rparr>"

definition long_size :: "(u32, 'm) op_size" where
  "long_size = \<lparr>getea = geteal, setea = seteal, getr = getr32, setr = setr32,
     set_add = setadd32, set_sub = setsub32,
     set_adc = (\<lambda>dst src s. if use_new_dynarec s then setadc32 dst src s else setadc32_old dst src s),
     set_sbc = (\<lambda>dst src s. if use_new_dynarec s then setsbc32 dst src s else setsbc32_old dst src s),
     set_add_nc = setadd32nc, set_sub_nc = setsub32nc, set_znp = setznp32\<rparr>"

text \<open>The operands of the macro \<open>OP_ARITH\<close>: the value stored and the flags set.\<close>

fun operation :: "arith \<Rightarrow> 'a::len word \<Rightarrow> 'a word \<Rightarrow> u32 \<Rightarrow> 'a word" where
  "operation op_ADD dst src _ = dst + src"
| "operation op_ADC dst src c = dst + src + ucast c"
| "operation op_SUB dst src _ = dst - src"
| "operation op_SBB dst src c = dst - (src + ucast c)"
| "operation op_OR dst src _ = dst OR src"
| "operation op_AND dst src _ = dst AND src"
| "operation op_XOR dst src _ = dst XOR src"
| "operation op_CMP dst src _ = dst"

fun setflags :: "('a::len word, 'm) op_size \<Rightarrow> arith \<Rightarrow> 'a word \<Rightarrow> 'a word \<Rightarrow> 'm x86_cpu \<Rightarrow> 'm x86_cpu" where
  "setflags W op_ADD dst src s = set_add W dst src s"
| "setflags W op_ADC dst src s = set_adc W dst src s"
| "setflags W op_SUB dst src s = set_sub W dst src s"
| "setflags W op_SBB dst src s = set_sbc W dst src s"
| "setflags W op_OR dst src s = set_znp W (dst OR src) s"
| "setflags W op_AND dst src s = set_znp W (dst AND src) s"
| "setflags W op_XOR dst src s = set_znp W (dst XOR src) s"
| "setflags W op_CMP dst src s = set_sub W dst src s"

definition gettempc :: "arith \<Rightarrow> bool" where
  "gettempc op \<longleftrightarrow> op \<in> {op_ADC, op_SBB}"

definition load_tempc :: "arith \<Rightarrow> 'm x86_cpu \<Rightarrow> 'm x86_cpu" where
  "load_tempc op s = (if gettempc op then s\<lparr>tempc := if CF_SET s then 1 else 0\<rparr> else s)"

type_synonym 'm decoder = "u32 \<Rightarrow> 'm x86_cpu \<Rightarrow> ('m x86_cpu \<Rightarrow> 'm op_result) \<Rightarrow> 'm op_result"

section \<open>The handlers of OP_ARITH\<close>

definition check_read_mem :: "'m x86_cpu \<Rightarrow> ('m x86_cpu \<Rightarrow> 'm op_result) \<Rightarrow> 'm op_result" where
  "check_read_mem s k = (if cpu_mod s \<noteq> 3 then SEG_CHECK_READ (ea_seg s) s k else k s)"

definition check_write_mem :: "'m x86_cpu \<Rightarrow> ('m x86_cpu \<Rightarrow> 'm op_result) \<Rightarrow> 'm op_result" where
  "check_write_mem s k = (if cpu_mod s \<noteq> 3 then SEG_CHECK_WRITE (ea_seg s) s k else k s)"

definition op_rmw :: "('a::len word, 'm) op_size \<Rightarrow> 'm cpu_bus \<Rightarrow> 'm decoder \<Rightarrow> arith \<Rightarrow> u32 \<Rightarrow> 'm x86_cpu \<Rightarrow> 'm op_result" where
  "op_rmw W B fetch_ea op fetchdat s = fetch_ea fetchdat (load_tempc op s) (\<lambda>s.
     if cpu_mod s = 3 then
       (let dst = getr W (cpu_rm s) s; src = getr W (cpu_reg s) s;
            s = setflags W op dst src s
        in (setr W (cpu_rm s) (operation op dst src (tempc s)) s, Ret0))
     else SEG_CHECK_WRITE (ea_seg s) s (\<lambda>s. case getea W B s of (dst, s) \<Rightarrow>
       unless_abrt s (\<lambda>s. let src = getr W (cpu_reg s) s in
         unless_abrt (setea W B (operation op dst src (tempc s)) s) (\<lambda>s.
           (setflags W op dst src s, Ret0)))))"

definition op_rm :: "('a::len word, 'm) op_size \<Rightarrow> 'm cpu_bus \<Rightarrow> 'm decoder \<Rightarrow> arith \<Rightarrow> u32 \<Rightarrow> 'm x86_cpu \<Rightarrow> 'm op_result" where
  "op_rm W B fetch_ea op fetchdat s = fetch_ea fetchdat (load_tempc op s) (\<lambda>s.
     check_read_mem s (\<lambda>s. let dst = getr W (cpu_reg s) s in case getea W B s of (src, s) \<Rightarrow>
       unless_abrt s (\<lambda>s. let s = setflags W op dst src s in
         (setr W (cpu_reg s) (operation op dst src (tempc s)) s, Ret0))))"

definition op_AL_imm :: "arith \<Rightarrow> u32 \<Rightarrow> 'm x86_cpu \<Rightarrow> 'm op_result" where
  "op_AL_imm op fetchdat s = (let dst = getr8 AL s; (src, s) = getbytef fetchdat s;
     s = setflags byte_size op dst src (load_tempc op s)
     in (setr8 AL (operation op dst src (tempc s)) s, Ret0))"

definition op_AX_imm :: "arith \<Rightarrow> u32 \<Rightarrow> 'm x86_cpu \<Rightarrow> 'm op_result" where
  "op_AX_imm op fetchdat s = (let dst = getr16 AX s; (src, s) = getwordf fetchdat s;
     s = setflags word_size op dst src (load_tempc op s)
     in (setr16 AX (operation op dst src (tempc s)) s, Ret0))"

definition op_EAX_imm :: "'m cpu_bus \<Rightarrow> arith \<Rightarrow> 'm x86_cpu \<Rightarrow> 'm op_result" where
  "op_EAX_imm B op s = (let dst = getr32 EAX s in case getlong B s of (src, s) \<Rightarrow>
     unless_abrt s (\<lambda>s. let s = setflags long_size op dst src (load_tempc op s)
       in (setr32 EAX (operation op dst src (tempc s)) s, Ret0)))"

section \<open>CMP and TEST\<close>

definition opCMP_rmw :: "('a::len word, 'm) op_size \<Rightarrow> 'm cpu_bus \<Rightarrow> 'm decoder \<Rightarrow> u32 \<Rightarrow> 'm x86_cpu \<Rightarrow> 'm op_result" where
  "opCMP_rmw W B fetch_ea fetchdat s = fetch_ea fetchdat s (\<lambda>s. check_read_mem s (\<lambda>s.
     case getea W B s of (dst, s) \<Rightarrow> unless_abrt s (\<lambda>s.
       (set_sub W dst (getr W (cpu_reg s) s) s, Ret0))))"

definition opCMP_rm :: "('a::len word, 'm) op_size \<Rightarrow> 'm cpu_bus \<Rightarrow> 'm decoder \<Rightarrow> u32 \<Rightarrow> 'm x86_cpu \<Rightarrow> 'm op_result" where
  "opCMP_rm W B fetch_ea fetchdat s = fetch_ea fetchdat s (\<lambda>s. check_read_mem s (\<lambda>s.
     case getea W B s of (src, s) \<Rightarrow> unless_abrt s (\<lambda>s.
       (set_sub W (getr W (cpu_reg s) s) src s, Ret0))))"

definition opCMP_AL_imm :: "u32 \<Rightarrow> 'm x86_cpu \<Rightarrow> 'm op_result" where
  "opCMP_AL_imm fetchdat s = (let (src, s) = getbytef fetchdat s in (setsub8 (getr8 AL s) src s, Ret0))"

definition opCMP_AX_imm :: "u32 \<Rightarrow> 'm x86_cpu \<Rightarrow> 'm op_result" where
  "opCMP_AX_imm fetchdat s = (let (src, s) = getwordf fetchdat s in (setsub16 (getr16 AX s) src s, Ret0))"

definition opCMP_EAX_imm :: "'m cpu_bus \<Rightarrow> 'm x86_cpu \<Rightarrow> 'm op_result" where
  "opCMP_EAX_imm B s = (case getlong B s of (src, s) \<Rightarrow>
     unless_abrt s (\<lambda>s. (setsub32 (getr32 EAX s) src s, Ret0)))"

definition opTEST :: "('a::len word, 'm) op_size \<Rightarrow> 'm cpu_bus \<Rightarrow> 'm decoder \<Rightarrow> u32 \<Rightarrow> 'm x86_cpu \<Rightarrow> 'm op_result" where
  "opTEST W B fetch_ea fetchdat s = fetch_ea fetchdat s (\<lambda>s. check_read_mem s (\<lambda>s.
     case getea W B s of (temp, s) \<Rightarrow> unless_abrt s (\<lambda>s.
       (set_znp W (temp AND getr W (cpu_reg s) s) s, Ret0))))"

definition opTEST_AL :: "u32 \<Rightarrow> 'm x86_cpu \<Rightarrow> 'm op_result" where
  "opTEST_AL fetchdat s = (let (temp, s) = getbytef fetchdat s in (setznp8 (getr8 AL s AND temp) s, Ret0))"

definition opTEST_AX :: "u32 \<Rightarrow> 'm x86_cpu \<Rightarrow> 'm op_result" where
  "opTEST_AX fetchdat s = (let (temp, s) = getwordf fetchdat s in (setznp16 (getr16 AX s AND temp) s, Ret0))"

definition opTEST_EAX :: "'m cpu_bus \<Rightarrow> 'm x86_cpu \<Rightarrow> 'm op_result" where
  "opTEST_EAX B s = (case getlong B s of (temp, s) \<Rightarrow>
     unless_abrt s (\<lambda>s. (setznp32 (getr32 EAX s AND temp) s, Ret0)))"

section \<open>The immediate group\<close>

definition arith_of :: "u32 \<Rightarrow> arith" where
  "arith_of rmdat = [op_ADD, op_OR, op_ADC, op_SBB, op_AND, op_SUB, op_XOR, op_CMP] ! unat (drop_bit 3 rmdat AND 7)"

text \<open>The macro \<open>ARITH_MULTI\<close>. ADC and SBB read the carry after the operand, unlike \<open>OP_ARITH\<close>.\<close>

definition ARITH_MULTI :: "('a::len word, 'm) op_size \<Rightarrow> 'm cpu_bus \<Rightarrow> u32 \<Rightarrow> 'a word \<Rightarrow> 'm x86_cpu \<Rightarrow> 'm op_result" where
  "ARITH_MULTI W B rmdat src s = (case getea W B s of (dst, s) \<Rightarrow> unless_abrt s (\<lambda>s.
     let op = arith_of rmdat in
     if op = op_CMP then (set_sub W dst src s, Ret0)
     else (let s = load_tempc op s in
       unless_abrt (setea W B (operation op dst src (tempc s)) s) (\<lambda>s. (setflags W op dst src s, Ret0)))))"

definition op80 :: "'m cpu_bus \<Rightarrow> 'm decoder \<Rightarrow> u32 \<Rightarrow> 'm x86_cpu \<Rightarrow> 'm op_result" where
  "op80 B fetch_ea fetchdat s = fetch_ea fetchdat s (\<lambda>s. check_write_mem s (\<lambda>s.
     case getbyte B s of (src, s) \<Rightarrow> unless_abrt s (ARITH_MULTI byte_size B fetchdat src)))"

definition op81_w :: "'m cpu_bus \<Rightarrow> 'm decoder \<Rightarrow> u32 \<Rightarrow> 'm x86_cpu \<Rightarrow> 'm op_result" where
  "op81_w B fetch_ea fetchdat s = fetch_ea fetchdat s (\<lambda>s. check_write_mem s (\<lambda>s.
     case getword B s of (src, s) \<Rightarrow> unless_abrt s (ARITH_MULTI word_size B fetchdat src)))"

definition op81_l :: "'m cpu_bus \<Rightarrow> 'm decoder \<Rightarrow> u32 \<Rightarrow> 'm x86_cpu \<Rightarrow> 'm op_result" where
  "op81_l B fetch_ea fetchdat s = fetch_ea fetchdat s (\<lambda>s. check_write_mem s (\<lambda>s.
     case getlong B s of (src, s) \<Rightarrow> unless_abrt s (ARITH_MULTI long_size B fetchdat src)))"

definition op83_w :: "'m cpu_bus \<Rightarrow> 'm decoder \<Rightarrow> u32 \<Rightarrow> 'm x86_cpu \<Rightarrow> 'm op_result" where
  "op83_w B fetch_ea fetchdat s = fetch_ea fetchdat s (\<lambda>s. check_write_mem s (\<lambda>s.
     case getbyte B s of (i, s) \<Rightarrow> unless_abrt s (let src = ucast i :: u16 in
       ARITH_MULTI word_size B fetchdat (if src AND 0x80 \<noteq> 0 then src OR 0xff00 else src))))"

definition op83_l :: "'m cpu_bus \<Rightarrow> 'm decoder \<Rightarrow> u32 \<Rightarrow> 'm x86_cpu \<Rightarrow> 'm op_result" where
  "op83_l B fetch_ea fetchdat s = fetch_ea fetchdat s (\<lambda>s. check_write_mem s (\<lambda>s.
     case getbyte B s of (i, s) \<Rightarrow> unless_abrt s (let src = ucast i :: u32 in
       ARITH_MULTI long_size B fetchdat (if src AND 0x80 \<noteq> 0 then src OR 0xffffff00 else src))))"

section \<open>INC and DEC\<close>

definition opINC :: "('a::len word, 'm) op_size \<Rightarrow> nat \<Rightarrow> 'm x86_cpu \<Rightarrow> 'm op_result" where
  "opINC W reg s = (let s = set_add_nc W (getr W reg s) 1 s in (setr W reg (getr W reg s + 1) s, Ret0))"

definition opDEC :: "('a::len word, 'm) op_size \<Rightarrow> nat \<Rightarrow> 'm x86_cpu \<Rightarrow> 'm op_result" where
  "opDEC W reg s = (let s = set_sub_nc W (getr W reg s) 1 s in (setr W reg (getr W reg s - 1) s, Ret0))"

definition opINCDEC_b :: "'m cpu_bus \<Rightarrow> 'm decoder \<Rightarrow> u32 \<Rightarrow> 'm x86_cpu \<Rightarrow> 'm op_result" where
  "opINCDEC_b B fetch_ea fetchdat s = fetch_ea fetchdat s (\<lambda>s. check_write_mem s (\<lambda>s.
     case geteab B s of (temp, s) \<Rightarrow> unless_abrt s (\<lambda>s.
       if fetchdat AND 0x38 \<noteq> 0 then
         unless_abrt (seteab B (temp - 1) s) (\<lambda>s. (setsub8nc temp 1 s, Ret0))
       else unless_abrt (seteab B (temp + 1) s) (\<lambda>s. (setadd8nc temp 1 s, Ret0)))))"

end
