(* ===== verification/X86_Shift.thy ===== *)
theory X86_Shift
  imports X86_Arith
begin

text \<open>
  The shift and rotate instructions: \<open>src/src/cpu/x86_ops_shift.h\<close>. The macros \<open>OP_SHIFT_b\<close>,
  \<open>OP_SHIFT_w\<close> and \<open>OP_SHIFT_l\<close> exist twice, for the build with the new recompiler, which keeps the
  flags of a rotation lazily, and for the other, which sets them at once; \<open>op_shift\<close> has both.
  A left shift by more than the size of the operand, done by the code at the size of \<open>int\<close> and then
  cut off, gives 0.
\<close>

record shift_ops =
  ROL_op :: flags_op
  ROR_op :: flags_op
  SHL_op :: flags_op
  SHR_op :: flags_op
  SAR_op :: flags_op

definition byte_ops :: shift_ops where
  "byte_ops = \<lparr>ROL_op = FLAGS_ROL8, ROR_op = FLAGS_ROR8, SHL_op = FLAGS_SHL8, SHR_op = FLAGS_SHR8, SAR_op = FLAGS_SAR8\<rparr>"

definition word_ops :: shift_ops where
  "word_ops = \<lparr>ROL_op = FLAGS_ROL16, ROR_op = FLAGS_ROR16, SHL_op = FLAGS_SHL16, SHR_op = FLAGS_SHR16, SAR_op = FLAGS_SAR16\<rparr>"

definition long_ops :: shift_ops where
  "long_ops = \<lparr>ROL_op = FLAGS_ROL32, ROR_op = FLAGS_ROR32, SHL_op = FLAGS_SHL32, SHR_op = FLAGS_SHR32, SAR_op = FLAGS_SAR32\<rparr>"

definition rol :: "nat \<Rightarrow> 'a::len word \<Rightarrow> 'a word" where
  "rol c temp = push_bit (c mod LENGTH('a)) temp OR drop_bit (LENGTH('a) - c mod LENGTH('a)) temp"

definition ror :: "nat \<Rightarrow> 'a::len word \<Rightarrow> 'a word" where
  "ror c temp = drop_bit (c mod LENGTH('a)) temp OR push_bit (LENGTH('a) - c mod LENGTH('a)) temp"

text \<open>The loops of RCL and RCR, with the carry \<open>temp2\<close>.\<close>

fun rcl_loop :: "nat \<Rightarrow> bool \<Rightarrow> 'a::len word \<Rightarrow> bool \<times> 'a word" where
  "rcl_loop 0 carry temp = (carry, temp)"
| "rcl_loop (Suc c) carry temp =
     rcl_loop c (temp AND push_bit (LENGTH('a) - 1) 1 \<noteq> 0) (push_bit 1 temp OR (if carry then 1 else 0))"

fun rcr_loop :: "nat \<Rightarrow> bool \<Rightarrow> 'a::len word \<Rightarrow> bool \<times> 'a word" where
  "rcr_loop 0 carry temp = (carry, temp)"
| "rcr_loop (Suc c) carry temp =
     rcr_loop c (temp AND 1 \<noteq> 0) (drop_bit 1 temp OR (if carry then push_bit (LENGTH('a) - 1) 1 else 0))"

text \<open>Carry and overflow written to \<open>flags\<close>.\<close>

definition put_CV :: "bool \<Rightarrow> bool \<Rightarrow> 'm x86_cpu \<Rightarrow> 'm x86_cpu" where
  "put_CV c v s = (let s = s\<lparr>flags := flags s AND NOT (C_FLAG OR V_FLAG)\<rparr>;
     s = (if c then s\<lparr>flags := flags s OR C_FLAG\<rparr> else s)
     in if v then s\<lparr>flags := flags s OR V_FLAG\<rparr> else s)"

definition rol_setflags :: "shift_ops \<Rightarrow> 'a::len word \<Rightarrow> 'm x86_cpu \<Rightarrow> 'm x86_cpu" where
  "rol_setflags S temp s = (if use_new_dynarec s then set_flags_rotate (ROL_op S) (ucast temp) s
     else put_CV (temp AND 1 \<noteq> 0) ((temp XOR drop_bit (LENGTH('a) - 1) temp) AND 1 \<noteq> 0) s)"

definition ror_setflags :: "shift_ops \<Rightarrow> 'a::len word \<Rightarrow> 'm x86_cpu \<Rightarrow> 'm x86_cpu" where
  "ror_setflags S temp s = (if use_new_dynarec s then set_flags_rotate (ROR_op S) (ucast temp) s
     else put_CV (temp AND push_bit (LENGTH('a) - 1) 1 \<noteq> 0)
       ((temp XOR drop_bit 1 temp) AND push_bit (LENGTH('a) - 2) 1 \<noteq> 0) s)"

definition rcl_setflags :: "bool \<Rightarrow> 'a::len word \<Rightarrow> 'm x86_cpu \<Rightarrow> 'm x86_cpu" where
  "rcl_setflags carry temp s = put_CV carry (of_bool carry XOR drop_bit (LENGTH('a) - 1) temp \<noteq> 0) s"

definition rcr_setflags :: "bool \<Rightarrow> 'a::len word \<Rightarrow> 'm x86_cpu \<Rightarrow> 'm x86_cpu" where
  "rcr_setflags carry temp s = put_CV carry ((temp XOR drop_bit 1 temp) AND push_bit (LENGTH('a) - 2) 1 \<noteq> 0) s"

definition op_shift :: "('a::len word, 'm) op_size \<Rightarrow> shift_ops \<Rightarrow> 'm cpu_bus \<Rightarrow> nat \<Rightarrow> u32 \<Rightarrow> 'a word \<Rightarrow> 'm x86_cpu \<Rightarrow> 'm op_result" where
  "op_shift W S B c rmdat temp s = (if c = 0 then (s, Ret0) else
     let s = flags_rebuild s; op = rmdat AND 0x38 in
     if op = 0x00 then unless_abrt (setea W B (rol c temp) s) (\<lambda>s. (rol_setflags S (rol c temp) s, Ret0))
     else if op = 0x08 then unless_abrt (setea W B (ror c temp) s) (\<lambda>s. (ror_setflags S (ror c temp) s, Ret0))
     else if op = 0x10 then (case rcl_loop c (flags s AND C_FLAG \<noteq> 0) temp of (carry, temp) \<Rightarrow>
       unless_abrt (setea W B temp s) (\<lambda>s. (rcl_setflags carry temp s, Ret0)))
     else if op = 0x18 then (case rcr_loop c (flags s AND C_FLAG \<noteq> 0) temp of (carry, temp) \<Rightarrow>
       unless_abrt (setea W B temp s) (\<lambda>s. (rcr_setflags carry temp s, Ret0)))
     else if op = 0x28 then unless_abrt (setea W B (drop_bit c temp) s) (\<lambda>s.
       (set_flags_shift (SHR_op S) (ucast temp) (of_nat c) (ucast (drop_bit c temp)) s, Ret0))
     else if op = 0x38 then unless_abrt (setea W B (signed_drop_bit c temp) s) (\<lambda>s.
       (set_flags_shift (SAR_op S) (ucast temp) (of_nat c) (ucast (signed_drop_bit c temp)) s, Ret0))
     else unless_abrt (setea W B (push_bit c temp) s) (\<lambda>s.
       (set_flags_shift (SHL_op S) (ucast temp) (of_nat c) (ucast (push_bit c temp)) s, Ret0)))"

text \<open>The count is an immediate byte (\<open>opC0\<close>, \<open>opC1\<close>), 1 (\<open>opD0\<close>, \<open>opD1\<close>) or CL (\<open>opD2\<close>, \<open>opD3\<close>).\<close>

definition op_shift_imm :: "('a::len word, 'm) op_size \<Rightarrow> shift_ops \<Rightarrow> 'm cpu_bus \<Rightarrow> 'm decoder \<Rightarrow> u32 \<Rightarrow> 'm x86_cpu \<Rightarrow> 'm op_result" where
  "op_shift_imm W S B fetch_ea fetchdat s = fetch_ea fetchdat s (\<lambda>s. check_write_mem s (\<lambda>s.
     case via (readmembl B (cs s + pc s)) s of (c, s) \<Rightarrow> let s = s\<lparr>pc := pc s + 1\<rparr> in
     case getea W B s of (temp, s) \<Rightarrow>
       unless_abrt s (op_shift W S B (unat (c AND 31)) fetchdat temp)))"

definition op_shift_1 :: "('a::len word, 'm) op_size \<Rightarrow> shift_ops \<Rightarrow> 'm cpu_bus \<Rightarrow> 'm decoder \<Rightarrow> u32 \<Rightarrow> 'm x86_cpu \<Rightarrow> 'm op_result" where
  "op_shift_1 W S B fetch_ea fetchdat s = fetch_ea fetchdat s (\<lambda>s. check_write_mem s (\<lambda>s.
     case getea W B s of (temp, s) \<Rightarrow> unless_abrt s (op_shift W S B 1 fetchdat temp)))"

definition op_shift_CL :: "('a::len word, 'm) op_size \<Rightarrow> shift_ops \<Rightarrow> 'm cpu_bus \<Rightarrow> 'm decoder \<Rightarrow> u32 \<Rightarrow> 'm x86_cpu \<Rightarrow> 'm op_result" where
  "op_shift_CL W S B fetch_ea fetchdat s = fetch_ea fetchdat s (\<lambda>s. check_write_mem s (\<lambda>s.
     let c = getr8 CL s AND 31 in case getea W B s of (temp, s) \<Rightarrow>
     unless_abrt s (op_shift W S B (unat c) fetchdat temp)))"

section \<open>Double shifts\<close>

definition put_carry :: "bool \<Rightarrow> 'm x86_cpu \<Rightarrow> 'm x86_cpu" where
  "put_carry c s = (if c then s\<lparr>flags := flags s OR C_FLAG\<rparr> else s)"

definition shld_w :: "nat \<Rightarrow> u16 \<Rightarrow> u16 \<Rightarrow> u16" where
  "shld_w count tempw reg = (let templ = push_bit 16 (ucast tempw) OR ucast reg :: u32 in
     if count \<le> 16 then ucast (drop_bit (16 - count) templ) else ucast (drop_bit 16 (push_bit count templ)))"

definition shld_l :: "nat \<Rightarrow> u32 \<Rightarrow> u32 \<Rightarrow> u32" where
  "shld_l count templ reg = push_bit count templ OR drop_bit (32 - count) reg"

definition shrd_w :: "nat \<Rightarrow> u16 \<Rightarrow> u16 \<Rightarrow> u16" where
  "shrd_w count tempw reg = (let templ = ucast tempw OR push_bit 16 (ucast reg) :: u32 in ucast (drop_bit count templ))"

definition shrd_l :: "nat \<Rightarrow> u32 \<Rightarrow> u32 \<Rightarrow> u32" where
  "shrd_l count templ reg = drop_bit count templ OR push_bit (32 - count) reg"

definition shld_carry :: "nat \<Rightarrow> 'a::len word \<Rightarrow> bool" where
  "shld_carry count temp \<longleftrightarrow> push_bit (count - 1) temp AND push_bit (LENGTH('a) - 1) 1 \<noteq> 0"

definition shrd_carry :: "nat \<Rightarrow> 'a::len word \<Rightarrow> bool" where
  "shrd_carry count temp \<longleftrightarrow> drop_bit (count - 1) temp AND 1 \<noteq> 0"

text \<open>The macros \<open>SHLD_w\<close>, \<open>SHLD_l\<close>, \<open>SHRD_w\<close> and \<open>SHRD_l\<close>, by the value and the carry they compute.\<close>

definition SHxD :: "('a::len word, 'm) op_size \<Rightarrow> (nat \<Rightarrow> 'a word \<Rightarrow> 'a word \<Rightarrow> 'a word) \<Rightarrow> (nat \<Rightarrow> 'a word \<Rightarrow> bool)
    \<Rightarrow> 'm cpu_bus \<Rightarrow> nat \<Rightarrow> 'm x86_cpu \<Rightarrow> 'm op_result" where
  "SHxD W shifted carry B count s = (if count \<noteq> 0 then
     case getea W B s of (temp, s) \<Rightarrow> unless_abrt s (\<lambda>s.
       let v = shifted count temp (getr W (cpu_reg s) s) in
       unless_abrt (setea W B v s) (\<lambda>s.
         (put_carry (carry count temp) (flags_rebuild (set_znp W v s)), Ret0)))
     else (s, Ret0))"

definition opSHxD_i :: "('m cpu_bus \<Rightarrow> nat \<Rightarrow> 'm x86_cpu \<Rightarrow> 'm op_result) \<Rightarrow> 'm cpu_bus \<Rightarrow> 'm decoder \<Rightarrow> u32 \<Rightarrow> 'm x86_cpu \<Rightarrow> 'm op_result" where
  "opSHxD_i shxd B fetch_ea fetchdat s = fetch_ea fetchdat s (\<lambda>s. check_write_mem s (\<lambda>s.
     case getbyte B s of (c, s) \<Rightarrow> shxd B (unat (c AND 31)) s))"

definition opSHxD_CL :: "('m cpu_bus \<Rightarrow> nat \<Rightarrow> 'm x86_cpu \<Rightarrow> 'm op_result) \<Rightarrow> 'm cpu_bus \<Rightarrow> 'm decoder \<Rightarrow> u32 \<Rightarrow> 'm x86_cpu \<Rightarrow> 'm op_result" where
  "opSHxD_CL shxd B fetch_ea fetchdat s = fetch_ea fetchdat s (\<lambda>s. check_write_mem s (\<lambda>s.
     shxd B (unat (getr8 CL s AND 31)) s))"

definition SHLD_w :: "'m cpu_bus \<Rightarrow> nat \<Rightarrow> 'm x86_cpu \<Rightarrow> 'm op_result" where
  "SHLD_w = SHxD word_size shld_w shld_carry"

definition SHLD_l :: "'m cpu_bus \<Rightarrow> nat \<Rightarrow> 'm x86_cpu \<Rightarrow> 'm op_result" where
  "SHLD_l = SHxD long_size shld_l shld_carry"

definition SHRD_w :: "'m cpu_bus \<Rightarrow> nat \<Rightarrow> 'm x86_cpu \<Rightarrow> 'm op_result" where
  "SHRD_w = SHxD word_size shrd_w shrd_carry"

definition SHRD_l :: "'m cpu_bus \<Rightarrow> nat \<Rightarrow> 'm x86_cpu \<Rightarrow> 'm op_result" where
  "SHRD_l = SHxD long_size shrd_l shrd_carry"

end
