(* ===== verification/X86_Integer.thy ===== *)
theory X86_Integer
  imports X86_Shift "HOL-Library.Signed_Division"
begin

text \<open>
  The other integer instructions of the interpreter that read or set the arithmetic flags:
  multiplication and division (\<open>src/src/cpu/x86_ops_misc.h\<close>, \<open>x86_ops_mul.h\<close>, \<open>divl\<close> and \<open>idivl\<close> of
  \<open>386_common.c\<close>), decimal adjustment (\<open>x86_ops_bcd.h\<close>), sign extension, conditional jumps and
  loops (\<open>x86_ops_jump.h\<close>), SETcc (\<open>x86_ops_set.h\<close>), the flag instructions (\<open>x86_ops_flag_2386.h\<close>)
  and XCHG (\<open>x86_ops_xchg.h\<close>). The default cases of the switches over three bits are unreachable.
  \<open>sdiv\<close> and \<open>smod\<close> are C's division, which rounds towards 0.
\<close>

section \<open>Conditions\<close>

datatype condition = c_O | c_NO | c_B | c_NB | c_E | c_NE | c_BE | c_NBE | c_S | c_NS | c_P | c_NP | c_L | c_NL | c_LE | c_NLE

fun cond :: "condition \<Rightarrow> 'm x86_cpu \<Rightarrow> bool" where
  "cond c_O s = VF_SET s"
| "cond c_NO s = (\<not> VF_SET s)"
| "cond c_B s = CF_SET s"
| "cond c_NB s = (\<not> CF_SET s)"
| "cond c_E s = ZF_SET s"
| "cond c_NE s = (\<not> ZF_SET s)"
| "cond c_BE s = (CF_SET s \<or> ZF_SET s)"
| "cond c_NBE s = (\<not> CF_SET s \<and> \<not> ZF_SET s)"
| "cond c_S s = NF_SET s"
| "cond c_NS s = (\<not> NF_SET s)"
| "cond c_P s = PF_SET s"
| "cond c_NP s = (\<not> PF_SET s)"
| "cond c_L s = (NF_SET s \<noteq> VF_SET s)"
| "cond c_NL s = (NF_SET s = VF_SET s)"
| "cond c_LE s = (NF_SET s \<noteq> VF_SET s \<or> ZF_SET s)"
| "cond c_NLE s = (NF_SET s = VF_SET s \<and> \<not> ZF_SET s)"

definition opSET :: "condition \<Rightarrow> 'm cpu_bus \<Rightarrow> 'm decoder \<Rightarrow> u32 \<Rightarrow> 'm x86_cpu \<Rightarrow> 'm op_result" where
  "opSET c B fetch_ea fetchdat s = fetch_ea fetchdat s (\<lambda>s. check_read_mem s (\<lambda>s.
     unless_abrt (seteab B (if cond c s then 1 else 0) s) (\<lambda>s. (s, Ret0))))"

definition jump_short :: "u8 \<Rightarrow> 'm x86_cpu \<Rightarrow> 'm op_result" where
  "jump_short offset s = (let s = s\<lparr>pc := pc s + scast offset\<rparr> in
     (if op32 s AND 0x100 = 0 then s\<lparr>pc := pc s AND 0xffff\<rparr> else s, Ret1))"

definition opJ :: "condition \<Rightarrow> u32 \<Rightarrow> 'm x86_cpu \<Rightarrow> 'm op_result" where
  "opJ c fetchdat s = (case getbytef fetchdat s of (offset, s) \<Rightarrow>
     if cond c s then jump_short offset s else (s, Ret0))"

definition opJ_w :: "condition \<Rightarrow> u32 \<Rightarrow> 'm x86_cpu \<Rightarrow> 'm op_result" where
  "opJ_w c fetchdat s = (case getwordf fetchdat s of (offset, s) \<Rightarrow>
     if cond c s then (s\<lparr>pc := (pc s + scast offset) AND 0xffff\<rparr>, Ret1) else (s, Ret0))"

definition opJ_l :: "condition \<Rightarrow> 'm cpu_bus \<Rightarrow> 'm x86_cpu \<Rightarrow> 'm op_result" where
  "opJ_l c B s = (case getlong B s of (offset, s) \<Rightarrow> unless_abrt s (\<lambda>s.
     if cond c s then (s\<lparr>pc := pc s + offset\<rparr>, Ret1) else (s, Ret0)))"

text \<open>The loop instructions at 16 and 32 bits, by the condition they test besides the counter.\<close>

definition op_loop :: "('a::len word, 'm) op_size \<Rightarrow> ('m x86_cpu \<Rightarrow> bool) \<Rightarrow> u32 \<Rightarrow> 'm x86_cpu \<Rightarrow> 'm op_result" where
  "op_loop W test fetchdat s = (case getbytef fetchdat s of (offset, s) \<Rightarrow>
     let s = setr W CL (getr W CL s - 1) s in
     if getr W CL s \<noteq> 0 \<and> test s then jump_short offset s else (s, Ret0))"

definition opLOOPNE :: "('a::len word, 'm) op_size \<Rightarrow> u32 \<Rightarrow> 'm x86_cpu \<Rightarrow> 'm op_result" where
  "opLOOPNE W = op_loop W (\<lambda>s. \<not> ZF_SET s)"

definition opLOOPE :: "('a::len word, 'm) op_size \<Rightarrow> u32 \<Rightarrow> 'm x86_cpu \<Rightarrow> 'm op_result" where
  "opLOOPE W = op_loop W ZF_SET"

definition opLOOP :: "('a::len word, 'm) op_size \<Rightarrow> u32 \<Rightarrow> 'm x86_cpu \<Rightarrow> 'm op_result" where
  "opLOOP W = op_loop W (\<lambda>s. True)"

definition opJCXZ :: "('a::len word, 'm) op_size \<Rightarrow> u32 \<Rightarrow> 'm x86_cpu \<Rightarrow> 'm op_result" where
  "opJCXZ W fetchdat s = (case getbytef fetchdat s of (offset, s) \<Rightarrow>
     if getr W CL s = 0 then jump_short offset s else (s, Ret0))"

section \<open>Flag instructions\<close>

abbreviation D_FLAG :: u16 where "D_FLAG \<equiv> 0x0400"

definition opCMC :: "'m x86_cpu \<Rightarrow> 'm op_result" where
  "opCMC s = (let s = flags_rebuild s in (s\<lparr>flags := flags s XOR C_FLAG\<rparr>, Ret0))"

definition opCLC :: "'m x86_cpu \<Rightarrow> 'm op_result" where
  "opCLC s = (let s = flags_rebuild s in (s\<lparr>flags := flags s AND NOT C_FLAG\<rparr>, Ret0))"

definition opSTC :: "'m x86_cpu \<Rightarrow> 'm op_result" where
  "opSTC s = (let s = flags_rebuild s in (s\<lparr>flags := flags s OR C_FLAG\<rparr>, Ret0))"

definition opCLD :: "'m x86_cpu \<Rightarrow> 'm op_result" where
  "opCLD s = (s\<lparr>flags := flags s AND NOT D_FLAG\<rparr>, Ret0)"

definition opSTD :: "'m x86_cpu \<Rightarrow> 'm op_result" where
  "opSTD s = (s\<lparr>flags := flags s OR D_FLAG\<rparr>, Ret0)"

definition opSAHF :: "'m x86_cpu \<Rightarrow> 'm op_result" where
  "opSAHF s = (let s = flags_rebuild s in
     (s\<lparr>flags := (flags s AND 0xff00) OR (ucast (getr8 AH s) AND 0xd5) OR 2\<rparr>, Ret0))"

definition opLAHF :: "'m x86_cpu \<Rightarrow> 'm op_result" where
  "opLAHF s = (let s = flags_rebuild s in (setr8 AH (ucast (flags s AND 0xff)) s, Ret0))"

section \<open>Sign extension and exchange\<close>

definition opCBW :: "'m x86_cpu \<Rightarrow> 'm op_result" where
  "opCBW s = (setr8 AH (if getr8 AL s AND 0x80 \<noteq> 0 then 0xff else 0) s, Ret0)"

definition opCWDE :: "'m x86_cpu \<Rightarrow> 'm op_result" where
  "opCWDE s = (setr32 EAX (if getr16 AX s AND 0x8000 \<noteq> 0 then 0xffff0000 OR ucast (getr16 AX s) else ucast (getr16 AX s)) s, Ret0)"

definition opCWD :: "'m x86_cpu \<Rightarrow> 'm op_result" where
  "opCWD s = (setr16 DX (if getr16 AX s AND 0x8000 \<noteq> 0 then 0xffff else 0) s, Ret0)"

definition opCDQ :: "'m x86_cpu \<Rightarrow> 'm op_result" where
  "opCDQ s = (setr32 EDX (if getr32 EAX s AND 0x80000000 \<noteq> 0 then 0xffffffff else 0) s, Ret0)"

definition opSETALC :: "'m x86_cpu \<Rightarrow> 'm op_result" where
  "opSETALC s = (setr8 AL (if CF_SET s then 0xff else 0) s, Ret0)"

definition opXCHG :: "('a::len word, 'm) op_size \<Rightarrow> 'm cpu_bus \<Rightarrow> 'm decoder \<Rightarrow> u32 \<Rightarrow> 'm x86_cpu \<Rightarrow> 'm op_result" where
  "opXCHG W B fetch_ea fetchdat s = fetch_ea fetchdat s (\<lambda>s. check_write_mem s (\<lambda>s.
     case getea W B s of (temp, s) \<Rightarrow> unless_abrt s (\<lambda>s.
       unless_abrt (setea W B (getr W (cpu_reg s) s) s) (\<lambda>s. (setr W (cpu_reg s) temp s, Ret0)))))"

definition opXCHG_regs :: "('a::len word, 'm) op_size \<Rightarrow> nat \<Rightarrow> 'm x86_cpu \<Rightarrow> 'm op_result" where
  "opXCHG_regs W r s = (let temp = getr W AX s; s = setr W AX (getr W r s) s in (setr W r temp s, Ret0))"


section \<open>Multiplication and division\<close>

text \<open>Carry and overflow together.\<close>

definition put_CV_both :: "bool \<Rightarrow> 'm x86_cpu \<Rightarrow> 'm x86_cpu" where
  "put_CV_both b s = (let s = flags_rebuild s in
     if b then s\<lparr>flags := flags s OR (C_FLAG OR V_FLAG)\<rparr> else s\<lparr>flags := flags s AND NOT (C_FLAG OR V_FLAG)\<rparr>)"

definition opTEST_imm :: "('a::len word, 'm) op_size \<Rightarrow> ('m x86_cpu \<Rightarrow> 'a word \<times> 'm x86_cpu) \<Rightarrow> 'a word \<Rightarrow> 'm x86_cpu \<Rightarrow> 'm op_result" where
  "opTEST_imm W imm dst s = (case imm s of (src, s) \<Rightarrow> unless_abrt s (\<lambda>s. (set_znp W (src AND dst) s, Ret0)))"

definition opNOT :: "('a::len word, 'm) op_size \<Rightarrow> 'm cpu_bus \<Rightarrow> 'a word \<Rightarrow> 'm x86_cpu \<Rightarrow> 'm op_result" where
  "opNOT W B dst s = check_write_mem s (\<lambda>s. unless_abrt (setea W B (NOT dst) s) (\<lambda>s. (s, Ret0)))"

definition opNEG :: "('a::len word, 'm) op_size \<Rightarrow> 'm cpu_bus \<Rightarrow> 'a word \<Rightarrow> 'm x86_cpu \<Rightarrow> 'm op_result" where
  "opNEG W B dst s = check_write_mem s (\<lambda>s. unless_abrt (setea W B (0 - dst) s) (\<lambda>s. (set_sub W 0 dst s, Ret0)))"

text \<open>The flags of a division, on processors other than the Cyrix ones and the M6117.\<close>

definition div8_flags :: "'m x86_cpu \<Rightarrow> 'm x86_cpu" where
  "div8_flags s = (if \<not> cpu_iscyrix s \<and> \<not> is6117 s then
     let s = flags_rebuild s; s = s\<lparr>flags := flags s OR 0x8d5\<rparr> in s\<lparr>flags := flags s AND NOT 1\<rparr> else s)"

definition div_flags :: "('m x86_cpu \<Rightarrow> 'm x86_cpu) \<Rightarrow> 'm x86_cpu \<Rightarrow> 'm x86_cpu" where
  "div_flags setznp s = (if \<not> cpu_iscyrix s \<and> \<not> is6117 s then setznp s else s)"

definition mul8 :: "u8 \<Rightarrow> 'm x86_cpu \<Rightarrow> 'm op_result" where
  "mul8 dst s = (let s = setr16 AX (ucast (getr8 AL s) * ucast dst) s in (put_CV_both (getr8 AH s \<noteq> 0) s, Ret0))"

definition imul8 :: "u8 \<Rightarrow> 'm x86_cpu \<Rightarrow> 'm op_result" where
  "imul8 dst s = (let tempws = sint (getr8 AL s) * sint dst; s = setr16 AX (word_of_int tempws) s;
     h = sint (getr16 AX s) div 2 ^ 7 in (put_CV_both (h \<noteq> 0 \<and> h \<noteq> - 1) s, Ret0))"

definition div8 :: "u8 \<Rightarrow> 'm x86_cpu \<Rightarrow> 'm op_result" where
  "div8 dst s = (let src16 = getr16 AX s; tempw = (if dst \<noteq> 0 then src16 div ucast dst else 0) in
     if dst \<noteq> 0 \<and> tempw AND 0xff00 = 0 then
       (div8_flags (setr8 AL (ucast (src16 div ucast dst)) (setr8 AH (ucast (src16 mod ucast dst)) s)), Ret0)
     else (s, Int_ret1 0))"

definition idiv8 :: "u8 \<Rightarrow> 'm x86_cpu \<Rightarrow> 'm op_result" where
  "idiv8 dst s = (let tempws = sint (getr16 AX s); tempws2 = (if dst \<noteq> 0 then tempws sdiv sint dst else 0);
     temps = word_of_int tempws2 :: u8 in
     if dst \<noteq> 0 \<and> sint temps = tempws2 then
       (div8_flags (setr8 AL (word_of_int tempws2) (setr8 AH (word_of_int (tempws smod sint dst)) s)), Ret0)
     else (s, Int_ret1 0))"

text \<open>The code multiplies two words as \<open>int\<close>; the product is taken modulo \<open>2^32\<close>.\<close>

definition mul16 :: "u16 \<Rightarrow> 'm x86_cpu \<Rightarrow> 'm op_result" where
  "mul16 dst s = (let templ = ucast (getr16 AX s) * ucast dst :: u32;
     s = setr16 DX (ucast (drop_bit 16 templ)) (setr16 AX (ucast templ) s) in (put_CV_both (getr16 DX s \<noteq> 0) s, Ret0))"

definition imul16 :: "u16 \<Rightarrow> 'm x86_cpu \<Rightarrow> 'm op_result" where
  "imul16 dst s = (let templ = word_of_int (sint (getr16 AX s) * sint dst) :: u32;
     s = setr16 DX (ucast (drop_bit 16 templ)) (setr16 AX (ucast templ) s); h = sint templ div 2 ^ 15
     in (put_CV_both (h \<noteq> 0 \<and> h \<noteq> - 1) s, Ret0))"

definition pair16 :: "'m x86_cpu \<Rightarrow> u32" where
  "pair16 s = push_bit 16 (ucast (getr16 DX s)) OR ucast (getr16 AX s)"

definition div16 :: "u16 \<Rightarrow> 'm x86_cpu \<Rightarrow> 'm op_result" where
  "div16 dst s = (let templ = pair16 s; templ2 = (if dst \<noteq> 0 then templ div ucast dst else 0) in
     if dst \<noteq> 0 \<and> templ2 AND 0xffff0000 = 0 then
       (let s = setr16 AX (ucast (templ div ucast dst)) (setr16 DX (ucast (templ mod ucast dst)) s)
        in (div_flags (setznp16 (getr16 AX s)) s, Ret0))
     else (s, Int_ret1 0))"

definition idiv16 :: "u16 \<Rightarrow> 'm x86_cpu \<Rightarrow> 'm op_result" where
  "idiv16 dst s = (let tempws = sint (pair16 s) in
     if tempws = - (2 ^ 31) \<and> dst = 0xffff then (s, C_undefined)
     else let tempws2 = (if dst \<noteq> 0 then tempws sdiv sint dst else 0); temps16 = word_of_int tempws2 :: u16 in
     if dst \<noteq> 0 \<and> sint temps16 = tempws2 then
       (let s = setr16 AX (word_of_int tempws2) (setr16 DX (word_of_int (tempws smod sint dst)) s)
        in (div_flags (setznp16 (getr16 AX s)) s, Ret0))
     else (s, Int_ret1 0))"

definition mul32 :: "u32 \<Rightarrow> 'm x86_cpu \<Rightarrow> 'm op_result" where
  "mul32 dst s = (let temp64 = ucast (getr32 EAX s) * ucast dst :: u64;
     s = setr32 EDX (ucast (drop_bit 32 temp64)) (setr32 EAX (ucast temp64) s) in (put_CV_both (getr32 EDX s \<noteq> 0) s, Ret0))"

definition imul32 :: "u32 \<Rightarrow> 'm x86_cpu \<Rightarrow> 'm op_result" where
  "imul32 dst s = (let temp64 = word_of_int (sint (getr32 EAX s) * sint dst) :: u64;
     s = setr32 EDX (ucast (drop_bit 32 temp64)) (setr32 EAX (ucast temp64) s); h = sint temp64 div 2 ^ 31
     in (put_CV_both (h \<noteq> 0 \<and> h \<noteq> - 1) s, Ret0))"

definition pair32 :: "'m x86_cpu \<Rightarrow> u64" where
  "pair32 s = push_bit 32 (ucast (getr32 EDX s)) OR ucast (getr32 EAX s)"

definition divl :: "u32 \<Rightarrow> 'm x86_cpu \<Rightarrow> 'm op_result" where
  "divl val s = (if val = 0 then (s, Int_ret1 0) else
     let num = pair32 s; quo = num div ucast val; rem = ucast (num mod ucast val) :: u32; quo32 = ucast quo :: u32 in
     if quo \<noteq> ucast quo32 then (s, Int_ret1 0)
     else (setr32 EAX quo32 (setr32 EDX rem s), Ret0))"

definition idivl :: "u32 \<Rightarrow> 'm x86_cpu \<Rightarrow> 'm op_result" where
  "idivl val s = (if val = 0 then (s, Int_ret1 0) else
     let num = sint (pair32 s) in
     if num = - (2 ^ 63) \<and> val = 0xffffffff then (s, C_undefined) else
     let quo = num sdiv sint val; rem = word_of_int (num smod sint val) :: u32; quo32 = word_of_int quo :: u32 in
     if quo \<noteq> sint quo32 then (s, Int_ret1 0)
     else (setr32 EAX quo32 (setr32 EDX rem s), Ret0))"

definition div32 :: "u32 \<Rightarrow> 'm x86_cpu \<Rightarrow> 'm op_result" where
  "div32 dst s = (case divl dst s of (s, e) \<Rightarrow>
     if e = Ret0 then (div_flags (setznp32 (getr32 EAX s)) s, Ret0) else (s, e))"

definition idiv32 :: "u32 \<Rightarrow> 'm x86_cpu \<Rightarrow> 'm op_result" where
  "idiv32 dst s = (case idivl dst s of (s, e) \<Rightarrow>
     if e = Ret0 then (div_flags (setznp32 (getr32 EAX s)) s, Ret0) else (s, e))"

text \<open>The group: TEST, NOT, NEG, MUL, IMUL, DIV, IDIV.\<close>

definition group3 :: "('a::len word, 'm) op_size \<Rightarrow> ('m x86_cpu \<Rightarrow> 'a word \<times> 'm x86_cpu) \<Rightarrow> ('a word \<Rightarrow> 'm x86_cpu \<Rightarrow> 'm op_result)
    \<Rightarrow> ('a word \<Rightarrow> 'm x86_cpu \<Rightarrow> 'm op_result) \<Rightarrow> ('a word \<Rightarrow> 'm x86_cpu \<Rightarrow> 'm op_result) \<Rightarrow> ('a word \<Rightarrow> 'm x86_cpu \<Rightarrow> 'm op_result)
    \<Rightarrow> 'm cpu_bus \<Rightarrow> u32 \<Rightarrow> 'm x86_cpu \<Rightarrow> 'm op_result" where
  "group3 W imm mul imul division idiv B rmdat s = (case getea W B s of (dst, s) \<Rightarrow> unless_abrt s (\<lambda>s.
     let op = rmdat AND 0x38 in
     if op = 0x00 \<or> op = 0x08 then opTEST_imm W imm dst s
     else if op = 0x10 then opNOT W B dst s
     else if op = 0x18 then opNEG W B dst s
     else if op = 0x20 then mul dst s
     else if op = 0x28 then imul dst s
     else if op = 0x30 then division dst s
     else idiv dst s))"

text \<open>The byte of TEST is read with \<open>readmemb\<close>.\<close>

definition test_byte :: "'m cpu_bus \<Rightarrow> 'm x86_cpu \<Rightarrow> u8 \<times> 'm x86_cpu" where
  "test_byte B s = (case via (readmembl B (cs s + pc s)) s of (src, s) \<Rightarrow> (src, s\<lparr>pc := pc s + 1\<rparr>))"

definition opF6_a16 :: "'m cpu_bus \<Rightarrow> u32 \<Rightarrow> 'm x86_cpu \<Rightarrow> 'm op_result" where
  "opF6_a16 B fetchdat s = fetch_ea_16 B fetchdat s (\<lambda>s.
     if cpu_mod s \<noteq> 3 then SEG_CHECK_READ (ea_seg s) s (\<lambda>s.
       case CHECK_READ (ea_seg s) (eaaddr s) (eaaddr s) s of
         Some s' \<Rightarrow> (s', Ret1)
       | None \<Rightarrow> group3 byte_size (test_byte B) mul8 imul8 div8 idiv8 B fetchdat s)
     else group3 byte_size (test_byte B) mul8 imul8 div8 idiv8 B fetchdat s)"

definition opF6_a32 :: "'m cpu_bus \<Rightarrow> u32 \<Rightarrow> 'm x86_cpu \<Rightarrow> 'm op_result" where
  "opF6_a32 B fetchdat s = fetch_ea_32 B fetchdat s (\<lambda>s. check_read_mem s
     (group3 byte_size (test_byte B) mul8 imul8 div8 idiv8 B fetchdat))"

definition opF7_w :: "'m cpu_bus \<Rightarrow> 'm decoder \<Rightarrow> u32 \<Rightarrow> 'm x86_cpu \<Rightarrow> 'm op_result" where
  "opF7_w B fetch_ea fetchdat s = fetch_ea fetchdat s (\<lambda>s. check_read_mem s
     (group3 word_size (getword B) mul16 imul16 div16 idiv16 B fetchdat))"

definition opF7_l :: "'m cpu_bus \<Rightarrow> 'm decoder \<Rightarrow> u32 \<Rightarrow> 'm x86_cpu \<Rightarrow> 'm op_result" where
  "opF7_l B fetch_ea fetchdat s = fetch_ea fetchdat s (\<lambda>s. check_read_mem s
     (group3 long_size (getlong B) mul32 imul32 div32 idiv32 B fetchdat))"

text \<open>
  IMUL with two and three operands. \<open>imul_flags\<close> tests that the product fits; the immediate forms
  set the flags before the register, the others after.
\<close>

definition imul_flags :: "'a::len itself \<Rightarrow> int \<Rightarrow> 'm x86_cpu \<Rightarrow> 'm x86_cpu" where
  "imul_flags _ p s = (let h = p div 2 ^ (LENGTH('a) - 1) in put_CV_both (h \<noteq> 0 \<and> h \<noteq> - 1) s)"

definition opIMUL_imm :: "('a::len word, 'm) op_size \<Rightarrow> ('m x86_cpu \<Rightarrow> 'a word \<times> 'm x86_cpu) \<Rightarrow> 'm cpu_bus \<Rightarrow> 'm decoder \<Rightarrow> u32 \<Rightarrow> 'm x86_cpu \<Rightarrow> 'm op_result" where
  "opIMUL_imm W imm B fetch_ea fetchdat s = fetch_ea fetchdat s (\<lambda>s. check_read_mem s (\<lambda>s.
     case getea W B s of (a, s) \<Rightarrow> unless_abrt s (\<lambda>s. case imm s of (b, s) \<Rightarrow> unless_abrt s (\<lambda>s.
       let p = sint a * sint b in
       (setr W (cpu_reg s) (word_of_int p) (imul_flags TYPE('a) p s), Ret0)))))"

definition opIMUL_reg :: "('a::len word, 'm) op_size \<Rightarrow> 'm cpu_bus \<Rightarrow> 'm decoder \<Rightarrow> u32 \<Rightarrow> 'm x86_cpu \<Rightarrow> 'm op_result" where
  "opIMUL_reg W B fetch_ea fetchdat s = fetch_ea fetchdat s (\<lambda>s. check_read_mem s (\<lambda>s.
     let a = getr W (cpu_reg s) s in case getea W B s of (b, s) \<Rightarrow>
       unless_abrt s (\<lambda>s. let p = sint a * sint b in
       (imul_flags TYPE('a) p (setr W (cpu_reg s) (word_of_int p) s), Ret0))))"

text \<open>A byte immediate, sign-extended.\<close>

definition imm_ib_w :: "'m cpu_bus \<Rightarrow> 'm x86_cpu \<Rightarrow> u16 \<times> 'm x86_cpu" where
  "imm_ib_w B s = (case getbyte B s of (b, s) \<Rightarrow> let v = ucast b :: u16 in (if v AND 0x80 \<noteq> 0 then v OR 0xff00 else v, s))"

definition imm_ib_l :: "'m cpu_bus \<Rightarrow> 'm x86_cpu \<Rightarrow> u32 \<times> 'm x86_cpu" where
  "imm_ib_l B s = (case getbyte B s of (b, s) \<Rightarrow> let v = ucast b :: u32 in (if v AND 0x80 \<noteq> 0 then v OR 0xffffff00 else v, s))"

section \<open>Decimal adjustment\<close>

definition opAAA :: "'m x86_cpu \<Rightarrow> 'm op_result" where
  "opAAA s = (let s = flags_rebuild s;
     s = (if flags s AND A_FLAG \<noteq> 0 \<or> getr8 AL s AND 0xf > 9 then
            (let s = setr16 AX (getr16 AX s + 6) s; s = setr8 AH (getr8 AH s + 1) s
             in s\<lparr>flags := flags s OR (A_FLAG OR C_FLAG)\<rparr>)
          else s\<lparr>flags := flags s AND NOT (A_FLAG OR C_FLAG)\<rparr>)
     in (setr8 AL (getr8 AL s AND 0xf) s, Ret0))"

definition opAAS :: "'m x86_cpu \<Rightarrow> 'm op_result" where
  "opAAS s = (let s = flags_rebuild s;
     s = (if flags s AND A_FLAG \<noteq> 0 \<or> getr8 AL s AND 0xf > 9 then
            (let s = setr16 AX (getr16 AX s - 6) s; s = setr8 AH (getr8 AH s - 1) s
             in s\<lparr>flags := flags s OR (A_FLAG OR C_FLAG)\<rparr>)
          else s\<lparr>flags := flags s AND NOT (A_FLAG OR C_FLAG)\<rparr>)
     in (setr8 AL (getr8 AL s AND 0xf) s, Ret0))"

definition opAAD :: "u32 \<Rightarrow> 'm x86_cpu \<Rightarrow> 'm op_result" where
  "opAAD fetchdat s = (case getbytef fetchdat s of (imm, s) \<Rightarrow>
     let base = (if \<not> cpu_isintel s then 10 else imm);
         s = setr8 AL (getr8 AH s * base + getr8 AL s) s; s = setr8 AH 0 s
     in (setznp8 (getr8 AL s) s, Ret0))"

definition opAAM :: "u32 \<Rightarrow> 'm x86_cpu \<Rightarrow> 'm op_result" where
  "opAAM fetchdat s = (case getbytef fetchdat s of (imm, s) \<Rightarrow>
     let base = (if imm = 0 \<or> \<not> cpu_isintel s then 10 else imm);
         s = setr8 AH (getr8 AL s div base) s; s = setr8 AL (getr8 AL s mod base) s
     in (setznp8 (getr8 AL s) s, Ret0))"

text \<open>The end of DAA and DAS: sign, zero and parity of AL, carry and half carry as computed.\<close>

definition adjusted_flags :: "'m x86_cpu \<Rightarrow> 'm x86_cpu" where
  "adjusted_flags s = (let tempw = flags s AND (C_FLAG OR A_FLAG); s = flags_rebuild (setznp8 (getr8 AL s) s)
     in s\<lparr>flags := (flags s AND NOT (C_FLAG OR A_FLAG)) OR tempw\<rparr>)"

definition opDAA :: "'m x86_cpu \<Rightarrow> 'm op_result" where
  "opDAA s = (let s = flags_rebuild s; old_AL = ucast (getr8 AL s) :: u16; old_CF = flags s AND C_FLAG;
     s = s\<lparr>flags := flags s AND NOT C_FLAG\<rparr>;
     s = (if getr8 AL s AND 0xf > 9 \<or> flags s AND A_FLAG \<noteq> 0 then
            (let tempi = ucast (getr8 AL s) + 6 :: u32; s = setr8 AL (getr8 AL s + 6) s;
                 s = (if old_CF \<noteq> 0 \<or> tempi AND 0x100 \<noteq> 0 then s\<lparr>flags := flags s OR C_FLAG\<rparr> else s)
             in s\<lparr>flags := flags s OR A_FLAG\<rparr>)
          else s\<lparr>flags := flags s AND NOT A_FLAG\<rparr>);
     s = (if old_AL > 0x99 \<or> old_CF \<noteq> 0 then
            (let s = setr8 AL (getr8 AL s + 0x60) s in s\<lparr>flags := flags s OR C_FLAG\<rparr>)
          else s\<lparr>flags := flags s AND NOT C_FLAG\<rparr>)
     in (adjusted_flags s, Ret0))"

definition opDAS :: "'m x86_cpu \<Rightarrow> 'm op_result" where
  "opDAS s = (let s = flags_rebuild s; old_AL = ucast (getr8 AL s) :: u16; old_CF = flags s AND C_FLAG;
     s = s\<lparr>flags := flags s AND NOT C_FLAG\<rparr>;
     s = (if getr8 AL s AND 0xf > 9 \<or> flags s AND A_FLAG \<noteq> 0 then
            (let tempi = ucast (getr8 AL s) - 6 :: u32; s = setr8 AL (getr8 AL s - 6) s;
                 s = (if old_CF \<noteq> 0 \<or> tempi AND 0x100 \<noteq> 0 then s\<lparr>flags := flags s OR C_FLAG\<rparr> else s)
             in s\<lparr>flags := flags s OR A_FLAG\<rparr>)
          else s\<lparr>flags := flags s AND NOT A_FLAG\<rparr>);
     s = (if old_AL > 0x99 \<or> old_CF \<noteq> 0 then
            (let s = setr8 AL (getr8 AL s - 0x60) s in s\<lparr>flags := flags s OR C_FLAG\<rparr>)
          else s)
     in (adjusted_flags s, Ret0))"

end
