(* ===== verification/X86_Dispatch.thy ===== *)
theory X86_Dispatch
  imports X86_Integer
begin

text \<open>
  The step of the 286/386 interpreter: the fetch and dispatch of \<open>exec386_2386\<close> in
  \<open>src/src/cpu/386.c\<close>, the opcode tables \<open>ops_386\<close> and \<open>ops_386_0f\<close> of \<open>386_ops.h\<close>, and the
  read-ahead of \<open>386_common.h\<close>. An entry of a table that the model does not have is None: memory
  moves, the stack, strings, segments, ports, the coprocessor and the prefixes. The debug registers,
  the cycle counts and what follows an instruction (delivery of a fault, of a trap or of an
  interrupt) are left out.
\<close>

type_synonym 'm handler = "u32 \<Rightarrow> 'm x86_cpu \<Rightarrow> 'm op_result"

section \<open>Tables\<close>

text \<open>A row of \<open>ADD\<close>, \<open>OR\<close>, ..., \<open>CMP\<close>: six forms of an operation.\<close>

definition arith_row :: "'m cpu_bus \<Rightarrow> bool \<Rightarrow> 'm decoder \<Rightarrow> arith \<Rightarrow> nat \<Rightarrow> 'm handler" where
  "arith_row B data32 fetch_ea op form = (
     if form = 0 then op_rmw byte_size B fetch_ea op
     else if form = 1 then (if data32 then op_rmw long_size B fetch_ea op else op_rmw word_size B fetch_ea op)
     else if form = 2 then op_rm byte_size B fetch_ea op
     else if form = 3 then (if data32 then op_rm long_size B fetch_ea op else op_rm word_size B fetch_ea op)
     else if form = 4 then op_AL_imm op
     else if data32 then (\<lambda>_. op_EAX_imm B op) else op_AX_imm op)"

definition cmp_row :: "'m cpu_bus \<Rightarrow> bool \<Rightarrow> 'm decoder \<Rightarrow> nat \<Rightarrow> 'm handler" where
  "cmp_row B data32 fetch_ea form = (
     if form = 0 then opCMP_rmw byte_size B fetch_ea
     else if form = 1 then (if data32 then opCMP_rmw long_size B fetch_ea else opCMP_rmw word_size B fetch_ea)
     else if form = 2 then opCMP_rm byte_size B fetch_ea
     else if form = 3 then (if data32 then opCMP_rm long_size B fetch_ea else opCMP_rm word_size B fetch_ea)
     else if form = 4 then opCMP_AL_imm
     else if data32 then (\<lambda>_. opCMP_EAX_imm B) else opCMP_AX_imm)"

definition conditions :: "condition list" where
  "conditions = [c_O, c_NO, c_B, c_NB, c_E, c_NE, c_BE, c_NBE, c_S, c_NS, c_P, c_NP, c_L, c_NL, c_LE, c_NLE]"

definition operations :: "arith list" where
  "operations = [op_ADD, op_OR, op_ADC, op_SBB, op_AND, op_SUB, op_XOR]"

definition ops_386 :: "'m cpu_bus \<Rightarrow> bool \<Rightarrow> bool \<Rightarrow> nat \<Rightarrow> 'm handler option" where
  "ops_386 B data32 addr32 opcode = (let fetch_ea = (if addr32 then fetch_ea_32 B else fetch_ea_16 B) in
     if opcode < 0x38 \<and> opcode mod 8 < 6 then
       Some (arith_row B data32 fetch_ea (operations ! (opcode div 8)) (opcode mod 8))
     else if opcode < 0x40 \<and> opcode mod 8 < 6 then Some (cmp_row B data32 fetch_ea (opcode mod 8))
     else if opcode = 0x27 then Some (\<lambda>_. opDAA)
     else if opcode = 0x2f then Some (\<lambda>_. opDAS)
     else if opcode = 0x37 then Some (\<lambda>_. opAAA)
     else if opcode = 0x3f then Some (\<lambda>_. opAAS)
     else if 0x40 \<le> opcode \<and> opcode < 0x48 then
       Some (\<lambda>_. if data32 then opINC long_size (opcode - 0x40) else opINC word_size (opcode - 0x40))
     else if 0x48 \<le> opcode \<and> opcode < 0x50 then
       Some (\<lambda>_. if data32 then opDEC long_size (opcode - 0x48) else opDEC word_size (opcode - 0x48))
     else if opcode = 0x69 then
       Some (if data32 then opIMUL_imm long_size (getlong B) B fetch_ea else opIMUL_imm word_size (getword B) B fetch_ea)
     else if opcode = 0x6b then
       Some (if data32 then opIMUL_imm long_size (imm_ib_l B) B fetch_ea else opIMUL_imm word_size (imm_ib_w B) B fetch_ea)
     else if 0x70 \<le> opcode \<and> opcode < 0x80 then Some (opJ (conditions ! (opcode - 0x70)))
     else if opcode = 0x80 \<or> opcode = 0x82 then Some (op80 B fetch_ea)
     else if opcode = 0x81 then Some (if data32 then op81_l B fetch_ea else op81_w B fetch_ea)
     else if opcode = 0x83 then Some (if data32 then op83_l B fetch_ea else op83_w B fetch_ea)
     else if opcode = 0x84 then Some (opTEST byte_size B fetch_ea)
     else if opcode = 0x85 then Some (if data32 then opTEST long_size B fetch_ea else opTEST word_size B fetch_ea)
     else if opcode = 0x86 then Some (opXCHG byte_size B fetch_ea)
     else if opcode = 0x87 then Some (if data32 then opXCHG long_size B fetch_ea else opXCHG word_size B fetch_ea)
     else if 0x91 \<le> opcode \<and> opcode < 0x98 then
       Some (\<lambda>_. if data32 then opXCHG_regs long_size (opcode - 0x90) else opXCHG_regs word_size (opcode - 0x90))
     else if opcode = 0x98 then Some (\<lambda>_. if data32 then opCWDE else opCBW)
     else if opcode = 0x99 then Some (\<lambda>_. if data32 then opCDQ else opCWD)
     else if opcode = 0x9e then Some (\<lambda>_. opSAHF)
     else if opcode = 0x9f then Some (\<lambda>_. opLAHF)
     else if opcode = 0xa8 then Some opTEST_AL
     else if opcode = 0xa9 then Some (if data32 then (\<lambda>_. opTEST_EAX B) else opTEST_AX)
     else if opcode = 0xc0 then Some (op_shift_imm byte_size byte_ops B fetch_ea)
     else if opcode = 0xc1 then
       Some (if data32 then op_shift_imm long_size long_ops B fetch_ea else op_shift_imm word_size word_ops B fetch_ea)
     else if opcode = 0xd0 then Some (op_shift_1 byte_size byte_ops B fetch_ea)
     else if opcode = 0xd1 then
       Some (if data32 then op_shift_1 long_size long_ops B fetch_ea else op_shift_1 word_size word_ops B fetch_ea)
     else if opcode = 0xd2 then Some (op_shift_CL byte_size byte_ops B fetch_ea)
     else if opcode = 0xd3 then
       Some (if data32 then op_shift_CL long_size long_ops B fetch_ea else op_shift_CL word_size word_ops B fetch_ea)
     else if opcode = 0xd4 then Some opAAM
     else if opcode = 0xd5 then Some opAAD
     else if opcode = 0xd6 then Some (\<lambda>_. opSETALC)
     else if opcode = 0xe0 then Some (if addr32 then opLOOPNE long_size else opLOOPNE word_size)
     else if opcode = 0xe1 then Some (if addr32 then opLOOPE long_size else opLOOPE word_size)
     else if opcode = 0xe2 then Some (if addr32 then opLOOP long_size else opLOOP word_size)
     else if opcode = 0xe3 then Some (if addr32 then opJCXZ long_size else opJCXZ word_size)
     else if opcode = 0xf5 then Some (\<lambda>_. opCMC)
     else if opcode = 0xf6 then Some (if addr32 then opF6_a32 B else opF6_a16 B)
     else if opcode = 0xf7 then Some (if data32 then opF7_l B fetch_ea else opF7_w B fetch_ea)
     else if opcode = 0xf8 then Some (\<lambda>_. opCLC)
     else if opcode = 0xf9 then Some (\<lambda>_. opSTC)
     else if opcode = 0xfc then Some (\<lambda>_. opCLD)
     else if opcode = 0xfd then Some (\<lambda>_. opSTD)
     else if opcode = 0xfe then Some (opINCDEC_b B fetch_ea)
     else None)"

definition ops_386_0f :: "'m cpu_bus \<Rightarrow> bool \<Rightarrow> bool \<Rightarrow> nat \<Rightarrow> 'm handler option" where
  "ops_386_0f B data32 addr32 opcode = (let fetch_ea = (if addr32 then fetch_ea_32 B else fetch_ea_16 B) in
     if 0x80 \<le> opcode \<and> opcode < 0x90 then
       Some (if data32 then (\<lambda>_. opJ_l (conditions ! (opcode - 0x80)) B) else opJ_w (conditions ! (opcode - 0x80)))
     else if 0x90 \<le> opcode \<and> opcode < 0xa0 then Some (opSET (conditions ! (opcode - 0x90)) B fetch_ea)
     else if opcode = 0xa4 then Some (opSHxD_i (if data32 then SHLD_l else SHLD_w) B fetch_ea)
     else if opcode = 0xa5 then Some (opSHxD_CL (if data32 then SHLD_l else SHLD_w) B fetch_ea)
     else if opcode = 0xac then Some (opSHxD_i (if data32 then SHRD_l else SHRD_w) B fetch_ea)
     else if opcode = 0xad then Some (opSHxD_CL (if data32 then SHRD_l else SHRD_w) B fetch_ea)
     else if opcode = 0xaf then Some (if data32 then opIMUL_reg long_size B fetch_ea else opIMUL_reg word_size B fetch_ea)
     else None)"

text \<open>\<open>op0F_w_a16\<close> and its siblings.\<close>

definition op0F :: "'m cpu_bus \<Rightarrow> bool \<Rightarrow> bool \<Rightarrow> u32 \<Rightarrow> 'm x86_cpu \<Rightarrow> 'm op_result option" where
  "op0F B data32 addr32 fetchdat s = (let opcode = unat (fetchdat AND 0xff); s = s\<lparr>pc := pc s + 1\<rparr> in
     case ops_386_0f B data32 addr32 opcode of None \<Rightarrow> None | Some h \<Rightarrow> Some (h (drop_bit 8 fetchdat) s))"

section \<open>Fetch\<close>

definition opcode_has_modrm :: "nat list" where
  "opcode_has_modrm = [
    1, 1, 1, 1, 0, 0, 0, 0, 1, 1, 1, 1, 0, 0, 0, 0, 1, 1, 1, 1, 0, 0, 0, 0, 1, 1, 1, 1, 0, 0, 0, 0,
    1, 1, 1, 1, 0, 0, 0, 0, 1, 1, 1, 1, 0, 0, 0, 0, 1, 1, 1, 1, 0, 0, 0, 0, 1, 1, 1, 1, 0, 0, 0, 0,
    0, 0, 0, 0, 0, 0, 0, 0, 0, 0, 0, 0, 0, 0, 0, 0, 0, 0, 0, 0, 0, 0, 0, 0, 0, 0, 0, 0, 0, 0, 0, 0,
    0, 0, 1, 1, 0, 0, 0, 0, 0, 1, 0, 1, 0, 0, 0, 0, 0, 0, 0, 0, 0, 0, 0, 0, 0, 0, 0, 0, 0, 0, 0, 0,
    1, 1, 1, 1, 1, 1, 1, 1, 1, 1, 1, 1, 1, 1, 1, 1, 0, 0, 0, 0, 0, 0, 0, 0, 0, 0, 0, 0, 0, 0, 0, 0,
    0, 0, 0, 0, 0, 0, 0, 0, 0, 0, 0, 0, 0, 0, 0, 0, 0, 0, 0, 0, 0, 0, 0, 0, 0, 0, 0, 0, 0, 0, 0, 0,
    1, 1, 0, 0, 1, 1, 1, 1, 0, 0, 0, 0, 0, 0, 0, 0, 1, 1, 1, 1, 0, 0, 0, 0, 1, 1, 1, 1, 1, 1, 1, 1,
    0, 0, 0, 0, 0, 0, 0, 0, 0, 0, 0, 0, 0, 0, 0, 0, 0, 0, 0, 0, 0, 0, 1, 1, 0, 0, 0, 0, 0, 0, 1, 1]"

definition opcode_length :: "nat list" where
  "opcode_length = [
    3, 3, 3, 3, 3, 3, 1, 1, 3, 3, 3, 3, 3, 3, 1, 3, 3, 3, 3, 3, 3, 3, 1, 1, 3, 3, 3, 3, 3, 3, 1, 1,
    3, 3, 3, 3, 3, 3, 1, 1, 3, 3, 3, 3, 3, 3, 1, 1, 3, 3, 3, 3, 3, 3, 1, 1, 3, 3, 3, 3, 3, 3, 1, 1,
    1, 1, 1, 1, 1, 1, 1, 1, 1, 1, 1, 1, 1, 1, 1, 1, 1, 1, 1, 1, 1, 1, 1, 1, 1, 1, 1, 1, 1, 1, 1, 1,
    1, 1, 3, 3, 1, 1, 1, 1, 3, 3, 2, 3, 1, 1, 1, 1, 2, 2, 2, 2, 2, 2, 2, 2, 2, 2, 2, 2, 2, 2, 2, 2,
    3, 3, 3, 3, 3, 3, 3, 3, 3, 3, 3, 3, 3, 3, 3, 3, 1, 1, 1, 1, 1, 1, 1, 1, 1, 1, 3, 1, 1, 1, 1, 1,
    3, 3, 3, 3, 1, 1, 1, 1, 2, 3, 1, 1, 1, 1, 1, 1, 2, 2, 2, 2, 2, 2, 2, 2, 3, 3, 3, 3, 3, 3, 3, 3,
    3, 3, 3, 1, 3, 3, 3, 3, 3, 1, 3, 1, 1, 2, 1, 1, 3, 3, 3, 3, 2, 2, 1, 1, 3, 3, 3, 3, 3, 3, 3, 3,
    2, 2, 2, 2, 2, 2, 2, 2, 3, 3, 3, 2, 1, 1, 1, 1, 1, 1, 1, 1, 1, 1, 3, 3, 1, 1, 1, 1, 1, 1, 3, 3]"

definition fastreadw_fetch :: "'m cpu_bus \<Rightarrow> u32 \<Rightarrow> 'm x86_cpu \<Rightarrow> u16 \<times> 'm x86_cpu" where
  "fastreadw_fetch B a s = (if a AND 0xfff > 0xffe then
       (case fastreadb B a s of (v, s) \<Rightarrow>
          if abrt s = 0 \<and> opcode_length ! unat v > 1
          then (case fastreadb B (a + 1) s of (v', s) \<Rightarrow> (ucast v OR push_bit 8 (ucast v'), s))
          else (ucast v, s))
     else if abrt s \<noteq> 0 then (0, s) else via (readmemwl B a) s)"

definition fastreadl_fetch :: "'m cpu_bus \<Rightarrow> u32 \<Rightarrow> 'm x86_cpu \<Rightarrow> u32 \<times> 'm x86_cpu" where
  "fastreadl_fetch B a s = (if cpu_16bitbus s \<or> a AND 0xfff > 0xffc then
       (case fastreadw_fetch B a s of (v, s) \<Rightarrow>
          if abrt s = 0 \<and> opcode_length ! unat (v AND 0xff) > 2
          then (case fastreadw B (a + 2) s of (v', s) \<Rightarrow> (ucast v OR push_bit 16 (ucast v'), s))
          else (ucast v, s))
     else if abrt s \<noteq> 0 then (0, s) else via (readmemll B a) s)"

section \<open>The step\<close>

abbreviation T_FLAG :: u16 where "T_FLAG \<equiv> 0x0100"

definition CHECK_READ_CS :: "u32 \<Rightarrow> 'm x86_cpu \<Rightarrow> 'm x86_cpu" where
  "CHECK_READ_CS bytes s = (
     if protected_mode s \<and> seg_access (segs s CS) AND 0x80 = 0 then x86np (seg_sel (segs s CS) AND 0xfffc) s
     else if pc s < limit_low (segs s CS) \<or> pc s + bytes - 1 > limit_high (segs s CS) then x86gpf 0 s
     else s)"

definition opcode_bytes :: "u32 \<Rightarrow> nat" where
  "opcode_bytes fetchdat = (let op = unat (fetchdat AND 0xff); ol = opcode_length ! op in
     if ol = 3 \<and> opcode_has_modrm ! op \<noteq> 0 \<and> drop_bit 14 fetchdat AND 3 = 3 then 2 else ol)"

text \<open>The call through \<open>x86_2386_opcodes\<close>, indexed by the opcode and \<open>op32\<close>.\<close>

definition dispatch :: "'m cpu_bus \<Rightarrow> u32 \<Rightarrow> 'm x86_cpu \<Rightarrow> 'm op_result option" where
  "dispatch B fetchdat s = (let opcode = unat (fetchdat AND 0xff); fetchdat = drop_bit 8 fetchdat;
     s = s\<lparr>trap := trap s OR (if flags s AND T_FLAG \<noteq> 0 then 1 else 0)\<rparr>; s = s\<lparr>pc := pc s + 1\<rparr>;
     data32 = (op32 s AND 0x100 \<noteq> 0); addr32 = (op32 s AND 0x200 \<noteq> 0) in
     if opcode = 0x0f then op0F B data32 addr32 fetchdat s
     else case ops_386 B data32 addr32 opcode of None \<Rightarrow> None | Some h \<Rightarrow> Some (h fetchdat s))"

definition wrap_pc :: "'m x86_cpu \<Rightarrow> 'm x86_cpu" where
  "wrap_pc s = (if \<not> use_new_dynarec s \<and> use32 s = 0 then s\<lparr>pc := pc s AND 0xffff\<rparr> else s)"

definition exec_step :: "'m cpu_bus \<Rightarrow> 'm x86_cpu \<Rightarrow> 'm op_result option" where
  "exec_step B s = (let s = s\<lparr>oldpc := pc s, op32 := use32 s, ea_seg := DS, ssegs := 0\<rparr> in
     case fastreadl_fetch B (cs s + pc s) s of (fetchdat, s) \<Rightarrow>
     let s = CHECK_READ_CS (of_nat (min (opcode_bytes fetchdat) (if cpu_16bitbus s then 2 else 4))) s in
     if abrt s = 0 then
       (case dispatch B fetchdat s of None \<Rightarrow> None | Some (s, e) \<Rightarrow> Some (wrap_pc s, e))
     else Some (wrap_pc s, Ret1))"

text \<open>The loop, up to a fault, an interrupt instruction or an instruction that the model does not have.\<close>

fun run :: "'m cpu_bus \<Rightarrow> nat \<Rightarrow> 'm x86_cpu \<Rightarrow> 'm x86_cpu option" where
  "run B 0 s = Some s"
| "run B (Suc n) s = (case exec_step B s of None \<Rightarrow> None
     | Some (s, e) \<Rightarrow> if abrt s = 0 \<and> e \<in> {Ret0, Ret1} then run B n s else Some s)"

end
