(* ===== verification/X86_Cpu_Spec.thy ===== *)
theory X86_Cpu_Spec
  imports X86_Cpu
begin

text \<open>
  Two properties every handler should have, with rules for the routines of \<open>X86_Cpu\<close> that handlers
  are built from. A handler is \<open>flag_blind\<close> if two states that show the same flags give
  the same result and again show the same flags: how the flags are kept is not observable. It is
  \<open>precise\<close> if a fault leaves registers and flags as they were, so that the instruction can be
  run again.
\<close>

named_theorems blind \<open>handlers do not observe how the flags are kept\<close>
named_theorems restart \<open>handlers leave registers and flags alone when they fault\<close>

section \<open>Fields\<close>

definition sys_flags :: "'w x86_flags_scheme \<Rightarrow> u16" where
  "sys_flags s = flags s AND NOT 0x8d5"

lemma getters_cong:
  fixes s :: "'w x86_flags_scheme" and t :: "'v x86_flags_scheme"
  assumes "x86_flags.truncate s = x86_flags.truncate t"
  shows "arch s = arch t" "sys_flags s = sys_flags t" "CF_SET s = CF_SET t"
  using assms
  by (cases s; cases t; simp add: x86_flags.defs arch_def sys_flags_def CF_SET_def PF_SET_def AF_SET_def
      ZF_SET_def NF_SET_def VF_SET_def overflow_add_def overflow_sub_def overflow_shl_def overflow_shr_def
      overflow_rol_def overflow_ror_def half_adc_def half_sbc_def carry_adc_def carry_sbc_def carry_shl_def
      carry_shr_def carry_sar_def cong: flags_op.case_cong)+


lemma truncate_update [simp]:
  fixes s :: "'m x86_cpu"
  shows "x86_flags.truncate (s\<lparr>regs := v0\<rparr>) = x86_flags.truncate s"
    "x86_flags.truncate (s\<lparr>ea_seg := v1\<rparr>) = x86_flags.truncate s"
    "x86_flags.truncate (s\<lparr>eaaddr := v2\<rparr>) = x86_flags.truncate s"
    "x86_flags.truncate (s\<lparr>easeg := v3\<rparr>) = x86_flags.truncate s"
    "x86_flags.truncate (s\<lparr>pc := v4\<rparr>) = x86_flags.truncate s"
    "x86_flags.truncate (s\<lparr>cpu_rm := v5\<rparr>) = x86_flags.truncate s"
    "x86_flags.truncate (s\<lparr>cpu_mod := v6\<rparr>) = x86_flags.truncate s"
    "x86_flags.truncate (s\<lparr>cpu_reg := v7\<rparr>) = x86_flags.truncate s"
    "x86_flags.truncate (s\<lparr>ssegs := v8\<rparr>) = x86_flags.truncate s"
    "x86_flags.truncate (s\<lparr>abrt := v9\<rparr>) = x86_flags.truncate s"
    "x86_flags.truncate (s\<lparr>abrt_error := v10\<rparr>) = x86_flags.truncate s"
    "x86_flags.truncate (s\<lparr>segs := v11\<rparr>) = x86_flags.truncate s"
    "x86_flags.truncate (s\<lparr>msw := v12\<rparr>) = x86_flags.truncate s"
    "x86_flags.truncate (s\<lparr>eflags := v13\<rparr>) = x86_flags.truncate s"
    "x86_flags.truncate (s\<lparr>op32 := v16\<rparr>) = x86_flags.truncate s"
    "x86_flags.truncate (s\<lparr>oldpc := v17\<rparr>) = x86_flags.truncate s"
    "x86_flags.truncate (s\<lparr>trap := v18\<rparr>) = x86_flags.truncate s"
    "x86_flags.truncate (s\<lparr>mem := v14\<rparr>) = x86_flags.truncate s"
  by (simp_all add: x86_flags.defs)

lemmas view_update [simp] = getters_cong [OF truncate_update(1)] getters_cong [OF truncate_update(2)] getters_cong [OF truncate_update(3)]
  getters_cong [OF truncate_update(4)] getters_cong [OF truncate_update(5)] getters_cong [OF truncate_update(6)]
  getters_cong [OF truncate_update(7)] getters_cong [OF truncate_update(8)] getters_cong [OF truncate_update(9)]
  getters_cong [OF truncate_update(10)] getters_cong [OF truncate_update(11)] getters_cong [OF truncate_update(12)]
  getters_cong [OF truncate_update(13)] getters_cong [OF truncate_update(14)] getters_cong [OF truncate_update(15)]
  getters_cong [OF truncate_update(16)] getters_cong [OF truncate_update(17)] getters_cong [OF truncate_update(18)]

lemma view_tempc [simp]: "arch (s\<lparr>tempc := c\<rparr>) = arch s" "sys_flags (s\<lparr>tempc := c\<rparr>) = sys_flags s"
  "CF_SET (s\<lparr>tempc := c\<rparr>) = CF_SET s"
  by (simp_all add: arch_def sys_flags_def CF_SET_def PF_SET_def AF_SET_def
      ZF_SET_def NF_SET_def VF_SET_def overflow_add_def overflow_sub_def overflow_shl_def overflow_shr_def
      overflow_rol_def overflow_ror_def half_adc_def half_sbc_def carry_adc_def carry_sbc_def carry_shl_def
      carry_shr_def carry_sar_def cong: flags_op.case_cong)

section \<open>States that show the same flags\<close>

definition same_flags :: "'w x86_flags_scheme \<Rightarrow> 'w x86_flags_scheme \<Rightarrow> bool" where
  "same_flags s t \<longleftrightarrow> arch s = arch t \<and> sys_flags s = sys_flags t \<and> tempc s = tempc t
     \<and> x86_flags.more s = x86_flags.more t"

lemma same_flags_refl [simp, intro]: "same_flags s s"
  by (simp add: same_flags_def)

lemma same_flags_sym: "same_flags s t \<Longrightarrow> same_flags t s"
  by (simp add: same_flags_def)

lemma same_flags_trans [trans]: "same_flags s t \<Longrightarrow> same_flags t u \<Longrightarrow> same_flags s u"
  by (simp add: same_flags_def)

lemma same_flags_CF: "same_flags s t \<Longrightarrow> CF_SET s = CF_SET t"
  by (simp add: same_flags_def arch_def)

lemma same_flags_shape:
  fixes s :: "'m x86_cpu"
  assumes "same_flags s t"
  obtains p r a b f where
    "t = s\<lparr>flags_op := p, flags_res := r, flags_op1 := a, flags_op2 := b, flags := f\<rparr>"
proof
  show "t = s\<lparr>flags_op := flags_op t, flags_res := flags_res t, flags_op1 := flags_op1 t,
      flags_op2 := flags_op2 t, flags := flags t\<rparr>"
    using assms by (cases s; cases t; simp add: same_flags_def)
qed

lemma same_flags_fields:
  fixes s :: "'m x86_cpu"
  assumes "same_flags s t"
  shows "regs s = regs t"
    "ea_seg s = ea_seg t"
    "eaaddr s = eaaddr t"
    "easeg s = easeg t"
    "pc s = pc t"
    "cpu_rm s = cpu_rm t"
    "cpu_mod s = cpu_mod t"
    "cpu_reg s = cpu_reg t"
    "ssegs s = ssegs t"
    "abrt s = abrt t"
    "abrt_error s = abrt_error t"
    "segs s = segs t"
    "msw s = msw t"
    "eflags s = eflags t"
    "mem s = mem t"
    "op32 s = op32 t"
    "is486 s = is486 t"
    "cpu_isintel s = cpu_isintel t"
    "cpu_iscyrix s = cpu_iscyrix t"
    "is6117 s = is6117 t"
    "use_new_dynarec s = use_new_dynarec t"
    "tempc s = tempc t"
    "oldpc s = oldpc t"
    "trap s = trap t"
    "use32 s = use32 t"
    "cpu_16bitbus s = cpu_16bitbus t"
  by (rule same_flags_shape [OF assms]; simp)+

lemma more_update:
  fixes s :: "'m x86_cpu"
  assumes "same_flags s t"
  shows "x86_flags.more (s\<lparr>regs := v0\<rparr>) = x86_flags.more (t\<lparr>regs := v0\<rparr>)"
    "x86_flags.more (s\<lparr>ea_seg := v1\<rparr>) = x86_flags.more (t\<lparr>ea_seg := v1\<rparr>)"
    "x86_flags.more (s\<lparr>eaaddr := v2\<rparr>) = x86_flags.more (t\<lparr>eaaddr := v2\<rparr>)"
    "x86_flags.more (s\<lparr>easeg := v3\<rparr>) = x86_flags.more (t\<lparr>easeg := v3\<rparr>)"
    "x86_flags.more (s\<lparr>pc := v4\<rparr>) = x86_flags.more (t\<lparr>pc := v4\<rparr>)"
    "x86_flags.more (s\<lparr>cpu_rm := v5\<rparr>) = x86_flags.more (t\<lparr>cpu_rm := v5\<rparr>)"
    "x86_flags.more (s\<lparr>cpu_mod := v6\<rparr>) = x86_flags.more (t\<lparr>cpu_mod := v6\<rparr>)"
    "x86_flags.more (s\<lparr>cpu_reg := v7\<rparr>) = x86_flags.more (t\<lparr>cpu_reg := v7\<rparr>)"
    "x86_flags.more (s\<lparr>ssegs := v8\<rparr>) = x86_flags.more (t\<lparr>ssegs := v8\<rparr>)"
    "x86_flags.more (s\<lparr>abrt := v9\<rparr>) = x86_flags.more (t\<lparr>abrt := v9\<rparr>)"
    "x86_flags.more (s\<lparr>abrt_error := v10\<rparr>) = x86_flags.more (t\<lparr>abrt_error := v10\<rparr>)"
    "x86_flags.more (s\<lparr>segs := v11\<rparr>) = x86_flags.more (t\<lparr>segs := v11\<rparr>)"
    "x86_flags.more (s\<lparr>msw := v12\<rparr>) = x86_flags.more (t\<lparr>msw := v12\<rparr>)"
    "x86_flags.more (s\<lparr>eflags := v13\<rparr>) = x86_flags.more (t\<lparr>eflags := v13\<rparr>)"
    "x86_flags.more (s\<lparr>op32 := v16\<rparr>) = x86_flags.more (t\<lparr>op32 := v16\<rparr>)"
    "x86_flags.more (s\<lparr>oldpc := v17\<rparr>) = x86_flags.more (t\<lparr>oldpc := v17\<rparr>)"
    "x86_flags.more (s\<lparr>trap := v18\<rparr>) = x86_flags.more (t\<lparr>trap := v18\<rparr>)"
    "x86_flags.more (s\<lparr>mem := v14\<rparr>) = x86_flags.more (t\<lparr>mem := v14\<rparr>)"
  by (rule same_flags_shape [OF assms], cases s, simp)+

lemma same_flags_update [simp]:
  fixes s :: "'m x86_cpu"
  assumes "same_flags s t"
  shows "same_flags (s\<lparr>regs := v0\<rparr>) (t\<lparr>regs := v0\<rparr>)"
    "same_flags (s\<lparr>ea_seg := v1\<rparr>) (t\<lparr>ea_seg := v1\<rparr>)"
    "same_flags (s\<lparr>eaaddr := v2\<rparr>) (t\<lparr>eaaddr := v2\<rparr>)"
    "same_flags (s\<lparr>easeg := v3\<rparr>) (t\<lparr>easeg := v3\<rparr>)"
    "same_flags (s\<lparr>pc := v4\<rparr>) (t\<lparr>pc := v4\<rparr>)"
    "same_flags (s\<lparr>cpu_rm := v5\<rparr>) (t\<lparr>cpu_rm := v5\<rparr>)"
    "same_flags (s\<lparr>cpu_mod := v6\<rparr>) (t\<lparr>cpu_mod := v6\<rparr>)"
    "same_flags (s\<lparr>cpu_reg := v7\<rparr>) (t\<lparr>cpu_reg := v7\<rparr>)"
    "same_flags (s\<lparr>ssegs := v8\<rparr>) (t\<lparr>ssegs := v8\<rparr>)"
    "same_flags (s\<lparr>abrt := v9\<rparr>) (t\<lparr>abrt := v9\<rparr>)"
    "same_flags (s\<lparr>abrt_error := v10\<rparr>) (t\<lparr>abrt_error := v10\<rparr>)"
    "same_flags (s\<lparr>segs := v11\<rparr>) (t\<lparr>segs := v11\<rparr>)"
    "same_flags (s\<lparr>msw := v12\<rparr>) (t\<lparr>msw := v12\<rparr>)"
    "same_flags (s\<lparr>eflags := v13\<rparr>) (t\<lparr>eflags := v13\<rparr>)"
    "same_flags (s\<lparr>op32 := v16\<rparr>) (t\<lparr>op32 := v16\<rparr>)"
    "same_flags (s\<lparr>oldpc := v17\<rparr>) (t\<lparr>oldpc := v17\<rparr>)"
    "same_flags (s\<lparr>trap := v18\<rparr>) (t\<lparr>trap := v18\<rparr>)"
    "same_flags (s\<lparr>mem := v14\<rparr>) (t\<lparr>mem := v14\<rparr>)"
    "same_flags (s\<lparr>tempc := v15\<rparr>) (t\<lparr>tempc := v15\<rparr>)"
  using assms more_update [OF assms] unfolding same_flags_def by simp_all


section \<open>Handlers that do not observe how the flags are kept\<close>

lemma same_flags_eqs:
  fixes s :: "'m x86_cpu"
  assumes "same_flags s t"
  shows "regs s = regs t \<and> ea_seg s = ea_seg t \<and> eaaddr s = eaaddr t \<and> easeg s = easeg t \<and> pc s = pc t \<and> cpu_rm s = cpu_rm t \<and> cpu_mod s = cpu_mod t \<and> cpu_reg s = cpu_reg t
    \<and> ssegs s = ssegs t \<and> abrt s = abrt t \<and> abrt_error s = abrt_error t \<and> segs s = segs t \<and> msw s = msw t \<and> eflags s = eflags t \<and> mem s = mem t
    \<and> op32 s = op32 t \<and> is486 s = is486 t \<and> cpu_isintel s = cpu_isintel t \<and> cpu_iscyrix s = cpu_iscyrix t \<and> is6117 s = is6117 t \<and> use_new_dynarec s = use_new_dynarec t \<and> tempc s = tempc t
    \<and> oldpc s = oldpc t \<and> trap s = trap t \<and> use32 s = use32 t \<and> cpu_16bitbus s = cpu_16bitbus t"
  using same_flags_fields [OF assms] by simp

definition same_result :: "'m op_result \<Rightarrow> 'm op_result \<Rightarrow> bool" where
  "same_result p q \<longleftrightarrow> snd p = snd q \<and> same_flags (fst p) (fst q)"

definition same_value :: "'a \<times> 'm x86_cpu \<Rightarrow> 'a \<times> 'm x86_cpu \<Rightarrow> bool" where
  "same_value p q \<longleftrightarrow> fst p = fst q \<and> same_flags (snd p) (snd q)"

definition flag_blind :: "('m x86_cpu \<Rightarrow> 'm op_result) \<Rightarrow> bool" where
  "flag_blind h \<longleftrightarrow> (\<forall>s t. same_flags s t \<longrightarrow> same_result (h s) (h t))"

lemma flag_blindI [intro?]: "(\<And>s t. same_flags s t \<Longrightarrow> same_result (h s) (h t)) \<Longrightarrow> flag_blind h"
  by (simp add: flag_blind_def)

text \<open>Rules for the constructs of the definitions, one for each kind of goal.\<close>

lemma same_flags_fieldI [blind]:
  fixes s :: "'m x86_cpu"
  shows "same_flags s t \<Longrightarrow> v0 = w0 \<Longrightarrow> same_flags (s\<lparr>regs := v0\<rparr>) (t\<lparr>regs := w0\<rparr>)"
    "same_flags s t \<Longrightarrow> v1 = w1 \<Longrightarrow> same_flags (s\<lparr>ea_seg := v1\<rparr>) (t\<lparr>ea_seg := w1\<rparr>)"
    "same_flags s t \<Longrightarrow> v2 = w2 \<Longrightarrow> same_flags (s\<lparr>eaaddr := v2\<rparr>) (t\<lparr>eaaddr := w2\<rparr>)"
    "same_flags s t \<Longrightarrow> v3 = w3 \<Longrightarrow> same_flags (s\<lparr>easeg := v3\<rparr>) (t\<lparr>easeg := w3\<rparr>)"
    "same_flags s t \<Longrightarrow> v4 = w4 \<Longrightarrow> same_flags (s\<lparr>pc := v4\<rparr>) (t\<lparr>pc := w4\<rparr>)"
    "same_flags s t \<Longrightarrow> v5 = w5 \<Longrightarrow> same_flags (s\<lparr>cpu_rm := v5\<rparr>) (t\<lparr>cpu_rm := w5\<rparr>)"
    "same_flags s t \<Longrightarrow> v6 = w6 \<Longrightarrow> same_flags (s\<lparr>cpu_mod := v6\<rparr>) (t\<lparr>cpu_mod := w6\<rparr>)"
    "same_flags s t \<Longrightarrow> v7 = w7 \<Longrightarrow> same_flags (s\<lparr>cpu_reg := v7\<rparr>) (t\<lparr>cpu_reg := w7\<rparr>)"
    "same_flags s t \<Longrightarrow> v8 = w8 \<Longrightarrow> same_flags (s\<lparr>ssegs := v8\<rparr>) (t\<lparr>ssegs := w8\<rparr>)"
    "same_flags s t \<Longrightarrow> v9 = w9 \<Longrightarrow> same_flags (s\<lparr>abrt := v9\<rparr>) (t\<lparr>abrt := w9\<rparr>)"
    "same_flags s t \<Longrightarrow> v10 = w10 \<Longrightarrow> same_flags (s\<lparr>abrt_error := v10\<rparr>) (t\<lparr>abrt_error := w10\<rparr>)"
    "same_flags s t \<Longrightarrow> v11 = w11 \<Longrightarrow> same_flags (s\<lparr>segs := v11\<rparr>) (t\<lparr>segs := w11\<rparr>)"
    "same_flags s t \<Longrightarrow> v12 = w12 \<Longrightarrow> same_flags (s\<lparr>msw := v12\<rparr>) (t\<lparr>msw := w12\<rparr>)"
    "same_flags s t \<Longrightarrow> v13 = w13 \<Longrightarrow> same_flags (s\<lparr>eflags := v13\<rparr>) (t\<lparr>eflags := w13\<rparr>)"
    "same_flags s t \<Longrightarrow> v16 = w16 \<Longrightarrow> same_flags (s\<lparr>op32 := v16\<rparr>) (t\<lparr>op32 := w16\<rparr>)"
    "same_flags s t \<Longrightarrow> v17 = w17 \<Longrightarrow> same_flags (s\<lparr>oldpc := v17\<rparr>) (t\<lparr>oldpc := w17\<rparr>)"
    "same_flags s t \<Longrightarrow> v18 = w18 \<Longrightarrow> same_flags (s\<lparr>trap := v18\<rparr>) (t\<lparr>trap := w18\<rparr>)"
    "same_flags s t \<Longrightarrow> v14 = w14 \<Longrightarrow> same_flags (s\<lparr>mem := v14\<rparr>) (t\<lparr>mem := w14\<rparr>)"
    "same_flags s t \<Longrightarrow> v15 = w15 \<Longrightarrow> same_flags (s\<lparr>tempc := v15\<rparr>) (t\<lparr>tempc := w15\<rparr>)"
  by simp_all

lemma same_flags_ifI [blind]:
  fixes s :: "'m x86_cpu"
  shows "b = c \<Longrightarrow> same_flags s t \<Longrightarrow> same_flags s' t' \<Longrightarrow> same_flags (if b then s else s') (if c then t else t')"
  by simp

lemma same_result_ifI [blind]:
  "b = c \<Longrightarrow> same_result s t \<Longrightarrow> same_result s' t' \<Longrightarrow> same_result (if b then s else s') (if c then t else t')"
  by simp

lemma same_flags_letI [blind]:
  fixes s :: "'m x86_cpu" and k :: "'m x86_cpu \<Rightarrow> 'm x86_cpu"
  shows "same_flags s t \<Longrightarrow> (\<And>s t. same_flags s t \<Longrightarrow> same_flags (k s) (l t)) \<Longrightarrow> same_flags (Let s k) (Let t l)"
  by simp

lemma same_flags_let_wordI [blind]:
  fixes a :: "'a::len word" and k :: "'a word \<Rightarrow> 'm x86_cpu" and n :: nat and k' :: "nat \<Rightarrow> 'm x86_cpu"
  shows "a = b \<Longrightarrow> (\<And>b. same_flags (k b) (l b)) \<Longrightarrow> same_flags (Let a k) (Let b l)"
    "n = m \<Longrightarrow> (\<And>m. same_flags (k' m) (l' m)) \<Longrightarrow> same_flags (Let n k') (Let m l')"
  by simp_all

lemma same_result_letI [blind]:
  fixes k :: "'m x86_cpu \<Rightarrow> 'm op_result"
  shows "same_flags s t \<Longrightarrow> (\<And>s t. same_flags s t \<Longrightarrow> same_result (k s) (l t)) \<Longrightarrow> same_result (Let s k) (Let t l)"
  by simp

lemma same_result_let_wordI [blind]:
  fixes a :: "'a::len word"
  shows "a = b \<Longrightarrow> (\<And>b. same_result (k b) (l b)) \<Longrightarrow> same_result (Let a k) (Let b l)"
  by simp

lemma same_flags_caseI [blind]:
  fixes k :: "'a \<Rightarrow> 'm x86_cpu \<Rightarrow> 'm x86_cpu"
  assumes "same_value p q" "\<And>v s t. same_flags s t \<Longrightarrow> same_flags (k v s) (l v t)"
  shows "same_flags (case p of (v, s) \<Rightarrow> k v s) (case q of (v, t) \<Rightarrow> l v t)"
  using assms by (cases p; cases q; simp add: same_value_def)

lemma same_flags_let_caseI [blind]:
  fixes k :: "'a \<Rightarrow> 'm x86_cpu \<Rightarrow> 'm x86_cpu"
  assumes "same_value p q" "\<And>v s t. same_flags s t \<Longrightarrow> same_flags (k v s) (l v t)"
  shows "same_flags (let (v, s) = p in k v s) (let (v, t) = q in l v t)"
  using assms by (cases p; cases q; simp add: same_value_def)

lemma same_result_caseI [blind]:
  assumes "same_value p q" "\<And>v s t. same_flags s t \<Longrightarrow> same_result (k v s) (l v t)"
  shows "same_result (case p of (v, s) \<Rightarrow> k v s) (case q of (v, t) \<Rightarrow> l v t)"
  using assms by (cases p; cases q; simp add: same_value_def)

lemma same_result_let_caseI [blind]:
  assumes "same_value p q" "\<And>v s t. same_flags s t \<Longrightarrow> same_result (k v s) (l v t)"
  shows "same_result (let (v, s) = p in k v s) (let (v, t) = q in l v t)"
  using assms by (cases p; cases q; simp add: same_value_def)

lemma same_result_endI [blind]: "same_flags s t \<Longrightarrow> same_result (s, e) (t, e)"
  by (simp add: same_result_def)

lemma same_value_endI [blind]: "a = b \<Longrightarrow> same_flags s t \<Longrightarrow> same_value (a, s) (b, t)"
  by (simp add: same_value_def)

lemma same_value_ifI [blind]:
  "b = c \<Longrightarrow> same_value s t \<Longrightarrow> same_value s' t' \<Longrightarrow> same_value (if b then s else s') (if c then t else t')"
  by simp

lemma same_value_letI [blind]:
  fixes k :: "'m x86_cpu \<Rightarrow> 'a \<times> 'm x86_cpu"
  shows "same_flags s t \<Longrightarrow> (\<And>s t. same_flags s t \<Longrightarrow> same_value (k s) (l t)) \<Longrightarrow> same_value (Let s k) (Let t l)"
  by simp

lemma same_value_caseI [blind]:
  assumes "same_value p q" "\<And>v s t. same_flags s t \<Longrightarrow> same_value (k v s) (l v t)"
  shows "same_value (case p of (v, s) \<Rightarrow> k v s) (case q of (v, t) \<Rightarrow> l v t)"
  using assms by (cases p; cases q; simp add: same_value_def)

lemma same_unless_abrtI [blind]:
  assumes "same_flags s t" "\<And>s t. same_flags s t \<Longrightarrow> same_result (k s) (l t)"
  shows "same_result (unless_abrt s k) (unless_abrt t l)"
  using assms same_flags_fields(10) [OF assms(1)] by (simp add: unless_abrt_def same_result_def)

text \<open>The routines of \<open>X86_Cpu\<close>.\<close>

lemma same_put_bus [blind]: "same_flags s t \<Longrightarrow> a = b \<Longrightarrow> same_flags (put_bus a s) (put_bus b t)"
  by (simp add: put_bus_def split: prod.split)

lemma same_bus_of: "same_flags s t \<Longrightarrow> bus_of s = bus_of t"
  by (simp add: bus_of_def same_flags_fields)

lemma same_via [blind]:
  assumes "f = g" "same_flags s t"
  shows "same_value (via f s) (via g t)"
  unfolding via_def same_bus_of [OF assms(2)] assms(1)
  using same_put_bus [OF assms(2)] by (cases "g (bus_of t)") (simp add: same_value_def)

lemma same_fetched [blind]:
  assumes "f = g" "same_flags s t"
  shows "same_value (fetched f s) (fetched g t)"
  unfolding fetched_def by (intro blind assms) (assumption | (drule same_flags_eqs, simp))+

lemma same_fastread [blind]:
  "a = b \<Longrightarrow> same_flags s t \<Longrightarrow> same_value (fastreadb B a s) (fastreadb B b t)"
  "a = b \<Longrightarrow> same_flags s t \<Longrightarrow> same_value (fastreadw B a s) (fastreadw B b t)"
  "a = b \<Longrightarrow> same_flags s t \<Longrightarrow> same_value (fastreadl B a s) (fastreadl B b t)"
  unfolding fastreadb_def fastreadw_def fastreadl_def by (auto intro: blind)

lemma same_getbyte [blind]:
  "same_flags s t \<Longrightarrow> same_value (getbyte B s) (getbyte B t)"
  "same_flags s t \<Longrightarrow> same_value (getword B s) (getword B t)"
  "same_flags s t \<Longrightarrow> same_value (getlong B s) (getlong B t)"
  unfolding getbyte_def getword_def getlong_def cs_def
  by (intro blind, (assumption | (drule same_flags_eqs, (simp; fail)))+)+

lemma same_getbytef [blind]:
  "same_flags s t \<Longrightarrow> same_value (getbytef r s) (getbytef r t)"
  "same_flags s t \<Longrightarrow> same_value (getwordf r s) (getwordf r t)"
  unfolding getbytef_def getwordf_def by (intro blind, (assumption | (drule same_flags_eqs, (simp; fail)))+)+

lemma same_use_ss [blind]: "same_flags s t \<Longrightarrow> same_flags (use_ss s) (use_ss t)"
  unfolding use_ss_def ss_def by (intro blind, (assumption | (drule same_flags_eqs, (simp; fail)))+)+

lemma same_sib_base [blind]: "same_flags s t \<Longrightarrow> same_flags (sib_base B sib s) (sib_base B sib t)"
  unfolding sib_base_def cs_def by (intro blind, (assumption | (drule same_flags_eqs, (simp; fail)))+)+

lemma same_fetch_ea_32_long [blind]:
  "same_flags s t \<Longrightarrow> same_flags (fetch_ea_32_long B r s) (fetch_ea_32_long B r t)"
  unfolding fetch_ea_32_long_def by (intro blind, (assumption | (drule same_flags_eqs, (simp; fail)))+)+


lemma same_mod1add: "same_flags s t \<Longrightarrow> mod1add r s = mod1add r t"
  unfolding mod1add_def getr16_def by (simp add: same_flags_fields)

lemma same_fetch_ea_16_long [blind]:
  "same_flags s t \<Longrightarrow> same_flags (fetch_ea_16_long B r s) (fetch_ea_16_long B r t)"
  unfolding fetch_ea_16_long_def
  by (intro blind, (assumption | (frule same_mod1add, drule same_flags_eqs, (simp; fail)))+)+

lemma same_decode_modrm [blind]: "same_flags s t \<Longrightarrow> same_flags (decode_modrm r s) (decode_modrm r t)"
  unfolding decode_modrm_def by (intro blind, (assumption | (drule same_flags_eqs, (simp; fail)))+)+

lemma same_fetch_ea [blind]:
  assumes "same_flags s t" "\<And>s t. same_flags s t \<Longrightarrow> same_result (k s) (l t)"
  shows "same_result (fetch_ea_16 B r s k) (fetch_ea_16 B r t l)" "same_result (fetch_ea_32 B r s k) (fetch_ea_32 B r t l)"
  unfolding fetch_ea_16_def fetch_ea_32_def
  by (intro blind, (rule assms | assumption | (drule same_flags_eqs, (simp; fail)))+)+

lemma same_faults [blind]:
  assumes "same_flags s t"
  shows "same_flags (x86gpf e s) (x86gpf e t)" "same_flags (x86ss e s) (x86ss e t)" "same_flags (x86np e s) (x86np e t)"
  unfolding x86gpf_def x86ss_def x86np_def by (intro blind assms refl)+

lemma same_seg_check [blind]:
  assumes "same_flags s t" "g = h" "\<And>s t. same_flags s t \<Longrightarrow> same_result (k s) (l t)"
  shows "same_result (SEG_CHECK_READ g s k) (SEG_CHECK_READ h t l)" "same_result (SEG_CHECK_WRITE g s k) (SEG_CHECK_WRITE h t l)"
  unfolding SEG_CHECK_READ_def SEG_CHECK_WRITE_def assms(2) using assms(1,3) same_flags_fields(12) [OF assms(1)]
  by (auto intro!: blind)

lemma same_getr [blind]:
  assumes "same_flags s t"
  shows "q = r \<Longrightarrow> getr8 q s = getr8 r t" "q = r \<Longrightarrow> getr16 q s = getr16 r t" "q = r \<Longrightarrow> getr32 q s = getr32 r t"
  using same_flags_fields [OF assms] by (simp_all add: getr8_def getr16_def getr32_def)

lemma same_and [blind]: "a = b \<Longrightarrow> c = d \<Longrightarrow> a AND c = b AND (d :: 'a::len word)"
  by simp

lemma same_setr [blind]:
  "same_flags s t \<Longrightarrow> q = r \<Longrightarrow> v = w \<Longrightarrow> same_flags (setr8 q v s) (setr8 r w t)"
  "same_flags s t \<Longrightarrow> q = r \<Longrightarrow> v' = w' \<Longrightarrow> same_flags (setr16 q v' s) (setr16 r w' t)"
  "same_flags s t \<Longrightarrow> q = r \<Longrightarrow> x = y \<Longrightarrow> same_flags (setr32 q x s) (setr32 r y t)"
  unfolding setr8_def setr16_def setr32_def
  by (intro blind, (assumption | (drule same_flags_eqs, (simp; fail)))+)+

lemma same_getea [blind]:
  "same_flags s t \<Longrightarrow> same_value (geteab B s) (geteab B t)"
  "same_flags s t \<Longrightarrow> same_value (geteaw B s) (geteaw B t)"
  "same_flags s t \<Longrightarrow> same_value (geteal B s) (geteal B t)"
  unfolding geteab_def geteaw_def geteal_def
  by (intro blind, (assumption | (drule same_flags_eqs, (simp; fail)))+)+

lemma same_checked_store [blind]:
  assumes st: "same_flags s t" and "f = g"
  shows "same_flags (checked_store n f s) (checked_store n g t)"
proof -
  note [simp] = same_flags_fields [OF st]
  have np: "rel_option same_flags (not_present g s) (not_present g t)" for g
    unfolding not_present_def protected_mode_def using same_faults [OF st] by simp
  have "rel_option same_flags (CHECK_WRITE_COMMON (ea_seg s) (eaaddr s) (eaaddr s + n) s)
      (CHECK_WRITE_COMMON (ea_seg t) (eaaddr t) (eaaddr t + n) t)"
    unfolding CHECK_WRITE_COMMON_def protected_mode_def using np same_faults(1) [OF st] by simp
  then show ?thesis unfolding checked_store_def assms(2)
    by cases (simp_all add: same_bus_of [OF st] same_put_bus [OF st])
qed

lemma same_setea [blind]:
  "same_flags s t \<Longrightarrow> v = w \<Longrightarrow> same_flags (seteab B v s) (seteab B w t)"
  "same_flags s t \<Longrightarrow> v' = w' \<Longrightarrow> same_flags (seteaw B v' s) (seteaw B w' t)"
  "same_flags s t \<Longrightarrow> x = y \<Longrightarrow> same_flags (seteal B x s) (seteal B y t)"
  unfolding seteab_def seteaw_def seteal_def
  by (intro blind, (assumption | (drule same_flags_eqs, (simp; fail)))+)+


section \<open>Handlers that can be restarted after a fault\<close>

definition same_view :: "'m x86_cpu \<Rightarrow> 'm x86_cpu \<Rightarrow> bool" where
  "same_view s t \<longleftrightarrow> regs s = regs t \<and> oldpc s = oldpc t \<and> arch s = arch t \<and> sys_flags s = sys_flags t"

definition keeps :: "'m x86_cpu \<Rightarrow> 'm op_result \<Rightarrow> bool" where
  "keeps s0 r \<longleftrightarrow> (abrt (fst r) \<noteq> 0 \<longrightarrow> same_view s0 (fst r))"

definition precise :: "('m x86_cpu \<Rightarrow> 'm op_result) \<Rightarrow> bool" where
  "precise h \<longleftrightarrow> (\<forall>s. abrt s = 0 \<longrightarrow> keeps s (h s))"

lemma same_view_refl [simp]: "same_view s s"
  by (simp add: same_view_def)

lemma preciseI: "(\<And>s. abrt s = 0 \<Longrightarrow> keeps s (h s)) \<Longrightarrow> precise h"
  by (simp add: precise_def)

lemma same_view_update [simp]:
  "same_view s0 (s\<lparr>ea_seg := v0\<rparr>) = same_view s0 s"
  "same_view s0 (s\<lparr>op32 := v16\<rparr>) = same_view s0 s"
  "same_view s0 (s\<lparr>trap := v18\<rparr>) = same_view s0 s"
  "same_view s0 (s\<lparr>eaaddr := v1\<rparr>) = same_view s0 s"
  "same_view s0 (s\<lparr>easeg := v2\<rparr>) = same_view s0 s"
  "same_view s0 (s\<lparr>pc := v3\<rparr>) = same_view s0 s"
  "same_view s0 (s\<lparr>cpu_rm := v4\<rparr>) = same_view s0 s"
  "same_view s0 (s\<lparr>cpu_mod := v5\<rparr>) = same_view s0 s"
  "same_view s0 (s\<lparr>cpu_reg := v6\<rparr>) = same_view s0 s"
  "same_view s0 (s\<lparr>ssegs := v7\<rparr>) = same_view s0 s"
  "same_view s0 (s\<lparr>abrt := v8\<rparr>) = same_view s0 s"
  "same_view s0 (s\<lparr>abrt_error := v9\<rparr>) = same_view s0 s"
  "same_view s0 (s\<lparr>segs := v10\<rparr>) = same_view s0 s"
  "same_view s0 (s\<lparr>msw := v11\<rparr>) = same_view s0 s"
  "same_view s0 (s\<lparr>eflags := v12\<rparr>) = same_view s0 s"
  "same_view s0 (s\<lparr>mem := v13\<rparr>) = same_view s0 s"
  "same_view s0 (s\<lparr>tempc := v14\<rparr>) = same_view s0 s"
  by (simp_all add: same_view_def)

lemma same_view_put_bus [simp]: "same_view s0 (put_bus b s) = same_view s0 s"
  by (simp add: put_bus_def split: prod.split)

lemma same_view_via [simp]: "same_view s0 (snd (via f s)) = same_view s0 s"
  by (simp add: via_def split: prod.split)

lemma same_view_fetched [simp]: "same_view s0 (snd (fetched f s)) = same_view s0 s"
  by (simp add: fetched_def split_beta)

lemma same_view_fetch [simp]:
  "same_view s0 (snd (fastreadb B a s)) = same_view s0 s" "same_view s0 (snd (fastreadw B a s)) = same_view s0 s"
  "same_view s0 (snd (fastreadl B a s)) = same_view s0 s" "same_view s0 (snd (getbyte B s)) = same_view s0 s"
  "same_view s0 (snd (getword B s)) = same_view s0 s" "same_view s0 (snd (getlong B s)) = same_view s0 s"
  by (simp_all add: fastreadb_def fastreadw_def fastreadl_def getbyte_def getword_def getlong_def Let_def)

lemma same_view_fetchf [simp]:
  "same_view s0 (snd (getbytef r s)) = same_view s0 s" "same_view s0 (snd (getwordf r s)) = same_view s0 s"
  by (simp_all add: getbytef_def getwordf_def)

lemma same_view_ea [simp]:
  "same_view s0 (use_ss s) = same_view s0 s"
  "same_view s0 (sib_base B sib s) = same_view s0 s"
  "same_view s0 (decode_modrm r s) = same_view s0 s"
  "same_view s0 (fetch_ea_16_long B r s) = same_view s0 s"
  "same_view s0 (fetch_ea_32_long B r s) = same_view s0 s"
  by (simp_all add: use_ss_def sib_base_def decode_modrm_def fetch_ea_16_long_def fetch_ea_32_long_def Let_def split_beta)

lemma same_view_fault [simp]:
  "same_view s0 (x86gpf e s) = same_view s0 s" "same_view s0 (x86ss e s) = same_view s0 s"
  "same_view s0 (x86np e s) = same_view s0 s"
  by (simp_all add: x86gpf_def x86ss_def x86np_def)

lemma same_view_getea [simp]:
  "same_view s0 (snd (geteab B s)) = same_view s0 s" "same_view s0 (snd (geteaw B s)) = same_view s0 s"
  "same_view s0 (snd (geteal B s)) = same_view s0 s"
  by (simp_all add: geteab_def geteaw_def geteal_def)

lemma same_view_checked_store [simp]: "same_view s0 (checked_store n f s) = same_view s0 s"
  by (auto simp: checked_store_def CHECK_WRITE_COMMON_def not_present_def split: option.split if_splits)

text \<open>A store that faults is a store to memory.\<close>

lemma abrt_setr [simp]:
  "abrt (setr8 r v s) = abrt s" "abrt (setr16 r w s) = abrt s" "abrt (setr32 r x s) = abrt s"
  by (simp_all add: setr8_def setr16_def setr32_def)

lemma same_view_setea:
  "abrt s = 0 \<Longrightarrow> abrt (seteab B v s) \<noteq> 0 \<Longrightarrow> same_view s0 (seteab B v s) = same_view s0 s"
  "abrt s = 0 \<Longrightarrow> abrt (seteaw B w s) \<noteq> 0 \<Longrightarrow> same_view s0 (seteaw B w s) = same_view s0 s"
  "abrt s = 0 \<Longrightarrow> abrt (seteal B x s) \<noteq> 0 \<Longrightarrow> same_view s0 (seteal B x s) = same_view s0 s"
  by (auto simp: seteab_def seteaw_def seteal_def split: if_splits)

text \<open>Rules for the constructs of the definitions.\<close>

definition ready :: "'m x86_cpu \<Rightarrow> 'm x86_cpu \<Rightarrow> bool" where
  "ready s0 s \<longleftrightarrow> same_view s0 s \<and> abrt s = 0"

lemma readyI: "abrt s = 0 \<Longrightarrow> ready s s"
  by (simp add: ready_def)

lemma ready_view: "ready s0 s \<Longrightarrow> same_view s0 s"
  by (simp add: ready_def)

lemma keeps_unless [restart]:
  "same_view s0 s \<Longrightarrow> (\<And>s. ready s0 s \<Longrightarrow> keeps s0 (k s)) \<Longrightarrow> keeps s0 (unless_abrt s k)"
  by (simp add: keeps_def unless_abrt_def ready_def)

lemma keeps_case [restart]:
  "same_view s0 (snd p) \<Longrightarrow> (\<And>v s. same_view s0 s \<Longrightarrow> keeps s0 (k v s)) \<Longrightarrow>
     keeps s0 (case p of (v, s) \<Rightarrow> k v s)"
  by (simp add: split_beta)

lemma keeps_if [restart]: "(b \<Longrightarrow> keeps s0 p) \<Longrightarrow> (\<not> b \<Longrightarrow> keeps s0 q) \<Longrightarrow> keeps s0 (if b then p else q)"
  by simp

lemma keeps_seg_check [restart]:
  "same_view s0 s \<Longrightarrow> keeps s0 (k s) \<Longrightarrow> keeps s0 (SEG_CHECK_READ g s k)"
  "same_view s0 s \<Longrightarrow> keeps s0 (k s) \<Longrightarrow> keeps s0 (SEG_CHECK_WRITE g s k)"
  by (simp_all add: SEG_CHECK_READ_def SEG_CHECK_WRITE_def keeps_def)

lemma abrt_modrm [simp]: "abrt (decode_modrm r s) = abrt s"
  by (simp add: decode_modrm_def)

lemma keeps_fetch_ea [restart]:
  assumes "ready s0 s" "\<And>s. ready s0 s \<Longrightarrow> keeps s0 (k s)"
  shows "keeps s0 (fetch_ea_16 B r s k)" "keeps s0 (fetch_ea_32 B r s k)"
  using assms unfolding fetch_ea_16_def fetch_ea_32_def Let_def
  by (auto simp: ready_def intro!: keeps_unless keeps_if)

lemma keeps_done [restart]: "abrt s = 0 \<Longrightarrow> keeps s0 (s, e)"
  by (simp add: keeps_def)

lemma keeps_stored [restart]:
  assumes "ready s0 s" "\<And>s. abrt s = 0 \<Longrightarrow> abrt (f s) = 0"
  shows "keeps s0 (unless_abrt (seteab B v s) (\<lambda>s. (f s, e)))"
    "keeps s0 (unless_abrt (seteaw B w s) (\<lambda>s. (f s, e)))"
    "keeps s0 (unless_abrt (seteal B x s) (\<lambda>s. (f s, e)))"
  using assms by (auto simp: unless_abrt_def keeps_def ready_def same_view_setea)

end
