(* ===== verification/X86_Arith_Spec.thy ===== *)
theory X86_Arith_Spec
  imports X86_Cpu_Spec X86_Arith
begin

text \<open>
  Correctness of the arithmetic instructions. The locale \<open>operand_access\<close> is the interface of an
  operand size that the handlers use (load, store, register access), \<open>alu_size\<close> adds the contract
  of the flag setters; both are interpreted for bytes, words and double words. The lemmas of the
  locales are proved once for the three.
\<close>

section \<open>The flag setters\<close>

lemma same_flags_arithI:
  assumes "same_flags s t" "op \<notin> {FLAGS_UNKNOWN, FLAGS_INC8, FLAGS_INC16, FLAGS_INC32, FLAGS_DEC8, FLAGS_DEC16, FLAGS_DEC32}"
    "op \<notin> {FLAGS_ROL8, FLAGS_ROL16, FLAGS_ROL32, FLAGS_ROR8, FLAGS_ROR16, FLAGS_ROR32}"
  shows "same_flags (set_flags_arith op a b r s) (set_flags_arith op a b r t)"
proof -
  have "arch (set_flags_arith op a b r s) = arch (set_flags_arith op a b r t)"
    using assms(2,3)
    by (cases op) (simp_all add: arch_def CF_SET_def PF_SET_def AF_SET_def ZF_SET_def NF_SET_def VF_SET_def
        overflow_add_def overflow_sub_def overflow_shl_def overflow_shr_def half_adc_def half_sbc_def
        carry_adc_def carry_sbc_def carry_shl_def carry_shr_def carry_sar_def)
  then show ?thesis using assms(1)
    by (simp add: same_flags_def sys_flags_def) (simp add: set_flags_arith_def)
qed

lemma same_set_now:
  assumes "same_flags s t"
  shows "same_flags (set_now z c v h s) (set_now z c v h t)"
proof -
  have "flags (set_now z c v h s) = flags (set_now z c v h t)"
    using assms by (simp add: same_flags_def sys_flags_def set_now_def)
  moreover have "flags_op (set_now z c v h u) = FLAGS_UNKNOWN" for u :: "'a x86_flags_scheme"
    by (simp add: set_now_def)
  ultimately show ?thesis
    using assms unfolding same_flags_def sys_flags_def
    by (simp add: arch_unknown) (simp add: set_now_def)
qed

text \<open>
  A setter touches only the flags, keeps the system flags, and depends on the flags only through
  what they show.
\<close>

definition flag_setter :: "('m x86_cpu \<Rightarrow> 'm x86_cpu) \<Rightarrow> bool" where
  "flag_setter f \<longleftrightarrow> (\<forall>s. x86_flags.more (f s) = x86_flags.more s \<and> tempc (f s) = tempc s \<and> sys_flags (f s) = sys_flags s)
     \<and> (\<forall>s t. same_flags s t \<longrightarrow> same_flags (f s) (f t))"

lemma more_fields:
  fixes s :: "'m x86_cpu"
  assumes "x86_flags.more s = x86_flags.more t"
  shows "regs s = regs t" "abrt s = abrt t" "cpu_rm s = cpu_rm t" "cpu_reg s = cpu_reg t" "cpu_mod s = cpu_mod t"
    "pc s = pc t" "mem s = mem t" "segs s = segs t" "abrt_error s = abrt_error t" "ea_seg s = ea_seg t" "easeg s = easeg t"
    "eaaddr s = eaaddr t" "use_new_dynarec s = use_new_dynarec t" "oldpc s = oldpc t"
  using assms by (cases s; cases t; simp)+

lemma flag_setterD:
  assumes "flag_setter f"
  shows "same_flags s t \<Longrightarrow> same_flags (f s) (f t)" "x86_flags.more (f s) = x86_flags.more s"
    "tempc (f s) = tempc s" "sys_flags (f s) = sys_flags s" "regs (f s) = regs s" "abrt (f s) = abrt s"
    "cpu_rm (f s) = cpu_rm s" "cpu_reg (f s) = cpu_reg s" "cpu_mod (f s) = cpu_mod s"
proof -
  show *: "x86_flags.more (f s) = x86_flags.more s" "tempc (f s) = tempc s" "sys_flags (f s) = sys_flags s"
    using assms unfolding flag_setter_def by blast+
  show "same_flags s t \<Longrightarrow> same_flags (f s) (f t)" using assms unfolding flag_setter_def by blast
  show "regs (f s) = regs s" "abrt (f s) = abrt s" "cpu_rm (f s) = cpu_rm s" "cpu_reg (f s) = cpu_reg s"
    "cpu_mod (f s) = cpu_mod s" by (rule more_fields [OF *(1)])+
qed

lemma arith_setter:
  assumes "op \<notin> {FLAGS_UNKNOWN, FLAGS_INC8, FLAGS_INC16, FLAGS_INC32, FLAGS_DEC8, FLAGS_DEC16, FLAGS_DEC32}"
    "op \<notin> {FLAGS_ROL8, FLAGS_ROL16, FLAGS_ROL32, FLAGS_ROR8, FLAGS_ROR16, FLAGS_ROR32}"
  shows "flag_setter (\<lambda>s. set_flags_arith op a b (r (tempc s)) s)"
  unfolding flag_setter_def
proof (intro conjI allI impI)
  fix s t :: "'a x86_cpu"
  show "x86_flags.more (set_flags_arith op a b (r (tempc s)) s) = x86_flags.more s"
    by (simp add: set_flags_arith_def)
  show "tempc (set_flags_arith op a b (r (tempc s)) s) = tempc s" by simp
  show "sys_flags (set_flags_arith op a b (r (tempc s)) s) = sys_flags s" by (simp add: sys_flags_def)
  assume st: "same_flags s t"
  then show "same_flags (set_flags_arith op a b (r (tempc s)) s) (set_flags_arith op a b (r (tempc t)) t)"
    using same_flags_arithI [OF st assms] by (simp add: same_flags_def)
qed

lemma flags_set_now: "flags (set_now z c v h s) =
    set_if h A_FLAG (set_if v V_FLAG (set_if c C_FLAG ((flags s AND NOT 0x8d5) OR z)))"
  by (simp add: set_now_def)

lemma set_now_setter: 
  assumes "\<And>k c. bit (z c) k \<Longrightarrow> k \<in> {2, 6, 7}"
  shows "flag_setter (\<lambda>s. set_now (z (tempc s)) (c (tempc s)) (v (tempc s)) (h (tempc s)) s)"
  unfolding flag_setter_def
proof (intro conjI allI impI)
  fix s t :: "'a x86_cpu"
  let ?f = "\<lambda>s :: 'a x86_cpu. set_now (z (tempc s)) (c (tempc s)) (v (tempc s)) (h (tempc s)) s"
  show "x86_flags.more (?f s) = x86_flags.more s" "tempc (?f s) = tempc s"
    by (simp_all add: set_now_def)
  show "sys_flags (?f s) = sys_flags s"
    unfolding sys_flags_def flags_set_now
    by (rule bit_word_eqI, unfold bit_cleared bit_set_if bit_or_iff bit_flags) (use assms in blast)
  assume st: "same_flags s t"
  then show "same_flags (?f s) (?f t)"
    using same_set_now [OF st] by (simp add: same_flags_def)
qed


lemma znp_only: "bit (znptable8 r) k \<Longrightarrow> k \<in> {2, 6, 7}" "bit (znptable16 q) k \<Longrightarrow> k \<in> {2, 6, 7}"
  "bit (znp32 x) k \<Longrightarrow> k \<in> {2, 6, 7}"
  using znp_bits(4) znp16_bits(4) znp32_bits(4) by blast+

text \<open>All setters are setters in this sense.\<close>

named_theorems setters

lemma add_setters [setters]:
  "flag_setter (setadd8 a b)" "flag_setter (setadd16 c d)" "flag_setter (setadd32 e f)"
  "flag_setter (setsub8 a b)" "flag_setter (setsub16 c d)" "flag_setter (setsub32 e f)"
  unfolding setadd8_def setadd16_def setadd32_def setsub8_def setsub16_def setsub32_def
  by (rule arith_setter; simp)+

lemma adc_setters [setters]:
  "flag_setter (setadc8 a b)" "flag_setter (setadc16 c d)" "flag_setter (setadc32 e f)"
  "flag_setter (setsbc8 a b)" "flag_setter (setsbc16 c d)" "flag_setter (setsbc32 e f)"
  unfolding setadc8_def setadc16_def setadc32_def setsbc8_def setsbc16_def setsbc32_def
  by (rule arith_setter; simp)+

lemma adc_old_setters [setters]:
  "flag_setter (setadc8_old a b)" "flag_setter (setadc16_old c d)" "flag_setter (setadc32_old e f)"
  "flag_setter (setsbc8_old a b)" "flag_setter (setsbc32_old e f)"
  unfolding setadc8_old_def setadc16_old_def setadc32_old_def setsbc8_old_def setsbc32_old_def Let_def
  by (rule set_now_setter; rule znp_only, assumption)+

lemma sbc16_old_setter [setters]: "flag_setter (setsbc16_old c d)"
  unfolding setsbc16_old_def Let_def
  by (rule set_now_setter) (use znp_only in \<open>auto simp: bit_or_iff bit_and_iff\<close>)


lemma sys_rebuild_c [simp]: "sys_flags (flags_rebuild_c s) = sys_flags s"
  unfolding sys_flags_def
  by (rule bit_word_eqI, unfold bit_cleared)
    (auto simp: flags_rebuild_c_def bit_or_iff bit_and_iff bit_not_iff bit_flags simp del: bit_numeral_word_iff)

lemma more_rebuild_c [simp]: "x86_flags.more (flags_rebuild_c s) = x86_flags.more s" "tempc (flags_rebuild_c s) = tempc s"
  by (simp_all add: flags_rebuild_c_def)

lemma nc_setter:
  assumes "\<And>s :: 'm x86_cpu. arch (set_flags_arith op a b r (flags_rebuild_c s)) = F (CF_SET s)"
  shows "flag_setter (\<lambda>s :: 'm x86_cpu. set_flags_arith op a b r (flags_rebuild_c s))"
  unfolding flag_setter_def
proof (intro conjI allI impI)
  fix s t :: "'m x86_cpu"
  let ?f = "\<lambda>s :: 'm x86_cpu. set_flags_arith op a b r (flags_rebuild_c s)"
  show m: "x86_flags.more (?f s) = x86_flags.more s" "tempc (?f s) = tempc s" for s
    by (simp_all add: set_flags_arith_def)
  show sys: "sys_flags (?f s) = sys_flags s" for s
    using sys_rebuild_c [of s] by (simp add: sys_flags_def)
  assume st: "same_flags s t"
  then show "same_flags (?f s) (?f t)"
    unfolding same_flags_def assms m sys using same_flags_CF [OF st] by simp
qed

lemma inc_setters [setters]:
  "flag_setter (setadd8nc a b)" "flag_setter (setadd16nc c d)" "flag_setter (setadd32nc e f)"
  "flag_setter (setsub8nc a b)" "flag_setter (setsub16nc c d)" "flag_setter (setsub32nc e f)"
  unfolding setadd8nc_def setadd16nc_def setadd32nc_def setsub8nc_def setsub16nc_def setsub32nc_def
  by (rule nc_setter [OF setadd8nc_arch [unfolded setadd8nc_def]]
      nc_setter [OF setadd16nc_arch [unfolded setadd16nc_def]]
      nc_setter [OF setadd32nc_arch [unfolded setadd32nc_def]]
      nc_setter [OF setsub8nc_arch [unfolded setsub8nc_def]]
      nc_setter [OF setsub16nc_arch [unfolded setsub16nc_def]]
      nc_setter [OF setsub32nc_arch [unfolded setsub32nc_def]])+

lemma znp_setter:
  assumes "\<And>s :: 'm x86_cpu. arch (s\<lparr>flags_op := op, flags_res := r\<rparr>) = F"
  shows "flag_setter (\<lambda>s :: 'm x86_cpu. s\<lparr>flags_op := op, flags_res := r\<rparr>)"
  unfolding flag_setter_def
proof (intro conjI allI impI)
  fix s t :: "'m x86_cpu"
  let ?f = "\<lambda>s :: 'm x86_cpu. s\<lparr>flags_op := op, flags_res := r\<rparr>"
  show m: "x86_flags.more (?f s) = x86_flags.more s" "tempc (?f s) = tempc s" "sys_flags (?f s) = sys_flags s" for s
    by (simp_all add: sys_flags_def)
  show "same_flags s t \<Longrightarrow> same_flags (?f s) (?f t)"
    unfolding same_flags_def assms m by simp
qed

lemma znp_setters [setters]: "flag_setter (setznp8 a)" "flag_setter (setznp16 b)" "flag_setter (setznp32 c)"
  unfolding setznp8_def setznp16_def setznp32_def
  by (rule znp_setter [OF setznp_arch(1) [unfolded setznp8_def]]
      znp_setter [OF setznp_arch(2) [unfolded setznp16_def]]
      znp_setter [OF setznp_arch(3) [unfolded setznp32_def]])+

section \<open>Operand sizes\<close>

locale operand_access =
  fixes W :: "('a::len word, 'm) op_size"
  assumes same_getea_W: "same_flags s t \<Longrightarrow> same_value (getea W B s) (getea W B t)"
    and same_setea_W: "same_flags s t \<Longrightarrow> v = w \<Longrightarrow> same_flags (setea W B v s) (setea W B w t)"
    and same_getr_W: "same_flags s t \<Longrightarrow> q = r \<Longrightarrow> getr W q s = getr W r t"
    and same_setr_W: "same_flags s t \<Longrightarrow> q = r \<Longrightarrow> v = w \<Longrightarrow> same_flags (setr W q v s) (setr W r w t)"
    and view_getea: "same_view s0 (snd (getea W B s)) = same_view s0 s"
    and view_setea: "abrt s = 0 \<Longrightarrow> abrt (setea W B v s) \<noteq> 0 \<Longrightarrow> same_view s0 (setea W B v s) = same_view s0 s"
    and abrt_setr_W: "abrt (setr W r v s) = abrt s"
    and arch_setr_W: "arch (setr W r v s) = arch s"
    and getr_setr: "r < 8 \<Longrightarrow> getr W r (setr W r v s) = v"
    and getr_regs: "regs s = regs t \<Longrightarrow> getr W r s = getr W r t"
    and getea_reg: "cpu_mod s = 3 \<Longrightarrow> getea W B s = (getr W (cpu_rm s) s, s)"
    and setea_reg: "cpu_mod s = 3 \<Longrightarrow> setea W B v s = setr W (cpu_rm s) v s"
    and op_setea: "flags_op (setea W B v s) = flags_op s"
    and sys_setr_W: "sys_flags (setr W r v s) = sys_flags s"
    and regs_setr: "regs s = regs t \<Longrightarrow> regs (setr W r v s) = regs (setr W r v t)"
    and setr_modrm: "cpu_rm (setr W r v s) = cpu_rm s" "cpu_mod (setr W r v s) = cpu_mod s"
    and regs_restore: "regs (setr W r (getr W r s) (setr W r v s)) = regs s"

locale alu_size = operand_access W for W :: "('a::len word, 'm) op_size" +
  assumes size: "8 \<le> LENGTH('a)" "LENGTH('a) \<le> 32"
    and setters_W: "flag_setter (set_add W a b)" "flag_setter (set_sub W a b)" "flag_setter (set_adc W a b)"
      "flag_setter (set_sbc W a b)" "flag_setter (set_add_nc W a b)" "flag_setter (set_sub_nc W a b)" "flag_setter (set_znp W a)"
    and arch_add_W: "arch (set_add W a b s) = add_flags a b False"
    and arch_sub_W: "arch (set_sub W a b s) = sub_flags a b False"
    and arch_adc_W: "tempc s = of_bool c \<Longrightarrow> arch (set_adc W a b s) =
      (add_flags a b c)\<lparr>af := af (add_flags a b c) \<and> \<not> (use_new_dynarec s \<and> adc_lost_half b c)\<rparr>"
    and arch_sbc_W: "tempc s = of_bool c \<Longrightarrow> arch (set_sbc W a b s) = sub_flags a b c"
    and arch_add_nc_W: "arch (set_add_nc W a b s) = (add_flags a b False)\<lparr>cf := CF_SET s\<rparr>"
    and arch_sub_nc_W: "arch (set_sub_nc W a b s) = (sub_flags a b False)\<lparr>cf := CF_SET s\<rparr>"
    and arch_znp_W: "arch (set_znp W a s) = logic_flags a"

lemma sub_size [simp]:
  "getea byte_size = geteab" "setea byte_size = seteab" "getr byte_size = getr8" "setr byte_size = setr8"
  "getea word_size = geteaw" "setea word_size = seteaw" "getr word_size = getr16" "setr word_size = setr16"
  "getea long_size = geteal" "setea long_size = seteal" "getr long_size = getr32" "setr long_size = setr32"
  by (simp_all add: byte_size_def word_size_def long_size_def)

lemma arch_setr [simp]: "arch (setr8 r v s) = arch s" "arch (setr16 r w s) = arch s" "arch (setr32 r x s) = arch s"
  by (simp_all add: setr8_def setr16_def setr32_def)


lemma high_masks: "(0xffffff00 :: u32) = NOT (mask 8)" "(0xffff0000 :: u32) = NOT (mask 16)"
  "(0xffff00ff :: u32) = NOT (push_bit 8 (mask 8))"
  by (simp_all add: mask_eq_exp_minus_1)

lemma set_low_byte_low [simp]: "low_byte (set_low_byte v w) = v"
  unfolding low_byte_def set_low_byte_def high_masks by (rule bit_word_eqI) (auto simp: bit_simps)

lemma set_low_word_low [simp]: "ucast (set_low_word v w) = v"
  unfolding set_low_word_def high_masks by (rule bit_word_eqI) (auto simp: bit_simps)

lemma set_high_byte_high [simp]: "high_byte (set_high_byte v w) = v"
  unfolding high_byte_def set_high_byte_def high_masks by (rule bit_word_eqI) (auto simp: bit_simps)

lemma setr_getr:
  "r < 8 \<Longrightarrow> getr8 r (setr8 r v s) = v" "getr16 r (setr16 r w s) = w" "getr32 r (setr32 r x s) = x"
  by (simp_all add: getr8_def setr8_def getr16_def setr16_def getr32_def setr32_def)

lemma getr_regs:
  assumes "regs s = regs t"
  shows "getr8 r s = getr8 r t" "getr16 r s = getr16 r t" "getr32 r s = getr32 r t"
  using assms by (simp_all add: getr8_def getr16_def getr32_def)

lemma getea_reg:
  assumes "cpu_mod s = 3"
  shows "geteab B s = (getr8 (cpu_rm s) s, s)" "geteaw B s = (getr16 (cpu_rm s) s, s)" "geteal B s = (getr32 (cpu_rm s) s, s)"
    "seteab B v s = setr8 (cpu_rm s) v s" "seteaw B w s = setr16 (cpu_rm s) w s" "seteal B x s = setr32 (cpu_rm s) x s"
  using assms by (simp_all add: geteab_def geteaw_def geteal_def seteab_def seteaw_def seteal_def)

lemma op_setr [simp]:
  "flags_op (setr8 r v s) = flags_op s" "flags_op (setr16 r w s) = flags_op s" "flags_op (setr32 r x s) = flags_op s"
  by (simp_all add: setr8_def setr16_def setr32_def)

lemma op_setea:
  "flags_op (seteab B v s) = flags_op s" "flags_op (seteaw B w s) = flags_op s" "flags_op (seteal B x s) = flags_op s"
  by (auto simp: seteab_def seteaw_def seteal_def checked_store_def CHECK_WRITE_COMMON_def not_present_def
      put_bus_def x86gpf_def x86ss_def x86np_def split: option.split if_splits prod.split)

lemma sys_setr [simp]: "sys_flags (setr8 r v s) = sys_flags s" "sys_flags (setr16 r w s) = sys_flags s" "sys_flags (setr32 r x s) = sys_flags s"
  by (simp_all add: setr8_def setr16_def setr32_def)

lemma regs_setr:
  assumes "regs s = regs t"
  shows "regs (setr8 r v s) = regs (setr8 r v t)" "regs (setr16 r w s) = regs (setr16 r w t)" "regs (setr32 r x s) = regs (setr32 r x t)"
  using assms by (simp_all add: setr8_def setr16_def setr32_def)

lemma set_low_byte_back: "set_low_byte (low_byte w) (set_low_byte v w) = w"
  unfolding low_byte_def set_low_byte_def high_masks by (rule bit_word_eqI) (auto simp: bit_simps dest: bit_imp_le_length)

lemma set_high_byte_back: "set_high_byte (high_byte w) (set_high_byte v w) = w"
  unfolding high_byte_def set_high_byte_def high_masks by (rule bit_word_eqI) (auto simp: bit_simps dest: bit_imp_le_length)

lemma set_low_word_back: "set_low_word (ucast w) (set_low_word v w) = w"
  unfolding set_low_word_def high_masks by (rule bit_word_eqI) (auto simp: bit_simps dest: bit_imp_le_length)

lemma regs_restore:
  "regs (setr8 r (getr8 r s) (setr8 r v s)) = regs s" "regs (setr16 r (getr16 r s) (setr16 r w s)) = regs s"
  "regs (setr32 r (getr32 r s) (setr32 r x s)) = regs s"
  by (auto simp: setr8_def getr8_def setr16_def getr16_def setr32_def getr32_def set_low_byte_back set_high_byte_back
      set_low_word_back fun_eq_iff)

lemma setr_modrm:
  "cpu_rm (setr8 r v s) = cpu_rm s" "cpu_rm (setr16 r w s) = cpu_rm s" "cpu_rm (setr32 r x s) = cpu_rm s"
  "cpu_mod (setr8 r v s) = cpu_mod s" "cpu_mod (setr16 r w s) = cpu_mod s" "cpu_mod (setr32 r x s) = cpu_mod s"
  by (simp_all add: setr8_def setr16_def setr32_def)

lemmas access_laws = setr_modrm regs_restore op_setea same_getea same_setea same_getr same_setr same_view_setea setr_getr getea_reg

interpretation byte_access: operand_access "byte_size :: (u8, 'm) op_size"
  by unfold_locales (simp_all add: access_laws, (erule getr_regs | erule regs_setr)+)

interpretation word_access: operand_access "word_size :: (u16, 'm) op_size"
  by unfold_locales (simp_all add: access_laws, (erule getr_regs | erule regs_setr)+)

interpretation long_access: operand_access "long_size :: (u32, 'm) op_size"
  by unfold_locales (simp_all add: access_laws, (erule getr_regs | erule regs_setr)+)

lemma full_adc: "c \<and> unat b mod 16 = 15 \<and> b \<noteq> - 1 \<longleftrightarrow> adc_lost_half b c"
  by (simp add: adc_lost_half_def)

lemma flag_setter_if:
  assumes "flag_setter f" "flag_setter g"
  shows "flag_setter (\<lambda>s. if use_new_dynarec s then f s else g s)"
  using assms unfolding flag_setter_def by (auto simp: same_flags_eqs)

interpretation byte: alu_size "byte_size :: (u8, 'm) op_size"
  by unfold_locales (auto simp: byte_size_def setters flag_setter_if setadd8_arch setsub8_arch setadc8_arch
      setsbc8_arch setadc8_old_arch setsbc8_old_arch setadd8nc_arch setsub8nc_arch setznp_arch)

interpretation word: alu_size "word_size :: (u16, 'm) op_size"
  by unfold_locales (auto simp: word_size_def setters flag_setter_if setadd16_arch setsub16_arch setadc16_arch
      setsbc16_arch setadc16_old_arch setsbc16_old_arch setadd16nc_arch setsub16nc_arch setznp_arch)

interpretation long: alu_size "long_size :: (u32, 'm) op_size"
  by unfold_locales (auto simp: long_size_def setters flag_setter_if setadd32_arch setsub32_arch setadc32_arch
      setsbc32_arch setadc32_old_arch setsbc32_old_arch setadd32nc_arch setsub32nc_arch setznp_arch)


section \<open>Handlers do not observe how the flags are kept\<close>

lemma same_load_tempc [blind]: "same_flags s t \<Longrightarrow> same_flags (load_tempc op s) (load_tempc op t)"
  by (auto simp: load_tempc_def same_flags_CF intro!: blind)

lemma same_check_mem [blind]:
  assumes "same_flags s t" "\<And>s t. same_flags s t \<Longrightarrow> same_result (k s) (l t)"
  shows "same_result (check_read_mem s k) (check_read_mem t l)" "same_result (check_write_mem s k) (check_write_mem t l)"
  unfolding check_read_mem_def check_write_mem_def
  by (intro blind, (rule assms | assumption | (insert same_flags_eqs [OF assms(1)], (simp; fail)))+)+

definition decoders :: "'m cpu_bus \<Rightarrow> 'm decoder set" where
  "decoders B = {fetch_ea_16 B, fetch_ea_32 B}"

lemma same_decoder:
  assumes "d \<in> decoders B" "same_flags s t" "\<And>s t. same_flags s t \<Longrightarrow> same_result (k s) (l t)"
  shows "same_result (d r s k) (d r t l)"
  using assms(1) unfolding decoders_def by (auto intro!: same_fetch_ea assms(2,3))

lemma same_operation: "v = w \<Longrightarrow> x = y \<Longrightarrow> a = b \<Longrightarrow> operation op v x a = operation op w y b"
  by simp

lemma same_plus_1: "a = b \<Longrightarrow> a + 1 = b + (1 :: 'a::len word)" "a = b \<Longrightarrow> a - 1 = b - (1 :: 'a::len word)"
  by simp_all

context alu_size begin

lemma same_setflags:
  assumes "same_flags s t" "v = w" "x = y"
  shows "same_flags (setflags W op v x s) (setflags W op w y t)"
  unfolding assms(2,3) by (cases op) (simp_all add: setters_W [THEN flag_setterD(1)] assms(1))

lemma same_set_W:
  assumes "same_flags s t"
  shows "v = w \<Longrightarrow> x = y \<Longrightarrow> same_flags (set_add W v x s) (set_add W w y t)"
    "v = w \<Longrightarrow> x = y \<Longrightarrow> same_flags (set_sub W v x s) (set_sub W w y t)"
    "v = w \<Longrightarrow> x = y \<Longrightarrow> same_flags (set_add_nc W v x s) (set_add_nc W w y t)"
    "v = w \<Longrightarrow> x = y \<Longrightarrow> same_flags (set_sub_nc W v x s) (set_sub_nc W w y t)"
    "v = w \<Longrightarrow> same_flags (set_znp W v s) (set_znp W w t)"
  using assms by (simp_all add: setters_W [THEN flag_setterD(1)])

lemmas blind_W = same_operation same_getr_W same_getea_W same_setea_W same_setr_W same_setflags same_set_W

lemma op_rmw_blind:
  assumes d: "d \<in> decoders B"
  shows "flag_blind (op_rmw W B d op r)"
  unfolding op_rmw_def
  by (rule flag_blindI, intro blind blind_W same_decoder [OF d],
      (assumption | (drule same_flags_eqs, (simp; fail)))+)

lemma op_rm_blind:
  assumes d: "d \<in> decoders B"
  shows "flag_blind (op_rm W B d op r)"
  unfolding op_rm_def
  by (rule flag_blindI, intro blind blind_W same_decoder [OF d],
      (assumption | (drule same_flags_eqs, (simp; fail)))+)

lemma opCMP_rmw_blind:
  assumes d: "d \<in> decoders B"
  shows "flag_blind (opCMP_rmw W B d r)"
  unfolding opCMP_rmw_def
  by (rule flag_blindI, intro blind blind_W same_decoder [OF d],
      (assumption | (drule same_flags_eqs, (simp; fail)))+)

lemma opCMP_rm_blind:
  assumes d: "d \<in> decoders B"
  shows "flag_blind (opCMP_rm W B d r)"
  unfolding opCMP_rm_def
  by (rule flag_blindI, intro blind blind_W same_decoder [OF d],
      (assumption | (drule same_flags_eqs, (simp; fail)))+)

lemma opTEST_blind:
  assumes d: "d \<in> decoders B"
  shows "flag_blind (opTEST W B d r)"
  unfolding opTEST_def
  by (rule flag_blindI, intro blind blind_W same_decoder [OF d],
      (assumption | (drule same_flags_eqs, (simp; fail)))+)

lemma inc_blind: "flag_blind (opINC W r)" "flag_blind (opDEC W r)"
  unfolding opINC_def opDEC_def
  by (rule flag_blindI, intro blind blind_W same_plus_1 refl,
      (assumption | (drule same_flags_eqs, (simp; fail)))+)+

lemma ARITH_MULTI_blind: "same_flags s t \<Longrightarrow> x = y \<Longrightarrow> same_result (ARITH_MULTI W B r x s) (ARITH_MULTI W B r y t)"
  unfolding ARITH_MULTI_def Let_def [of "arith_of r"]
  by (intro blind blind_W, (assumption | (drule same_flags_eqs, (simp; fail)))+)+

end

lemma same_set:
  fixes s :: "'m x86_cpu"
  assumes "same_flags s t"
  shows "a = b \<Longrightarrow> c = d \<Longrightarrow> same_flags (setsub8 a c s) (setsub8 b d t)"
    "v = w \<Longrightarrow> x = y \<Longrightarrow> same_flags (setsub16 v x s) (setsub16 w y t)"
    "p = q \<Longrightarrow> i = j \<Longrightarrow> same_flags (setsub32 p i s) (setsub32 q j t)"
    "a = b \<Longrightarrow> c = d \<Longrightarrow> same_flags (setadd8nc a c s) (setadd8nc b d t)"
    "a = b \<Longrightarrow> c = d \<Longrightarrow> same_flags (setsub8nc a c s) (setsub8nc b d t)"
    "a = b \<Longrightarrow> same_flags (setznp8 a s) (setznp8 b t)"
    "v = w \<Longrightarrow> same_flags (setznp16 v s) (setznp16 w t)"
    "p = q \<Longrightarrow> same_flags (setznp32 p s) (setznp32 q t)"
  using assms by (simp_all add: setters [THEN flag_setterD(1)])

lemma imm_blind:
  "flag_blind (op_AL_imm op r)" "flag_blind (op_AX_imm op r)" "flag_blind (op_EAX_imm B op)"
  "flag_blind (opCMP_AL_imm r)" "flag_blind (opCMP_AX_imm r)" "flag_blind (opCMP_EAX_imm B)"
  "flag_blind (opTEST_AL r)" "flag_blind (opTEST_AX r)" "flag_blind (opTEST_EAX B)"
  unfolding op_AL_imm_def op_AX_imm_def op_EAX_imm_def opCMP_AL_imm_def opCMP_AX_imm_def opCMP_EAX_imm_def
    opTEST_AL_def opTEST_AX_def opTEST_EAX_def
  by (rule flag_blindI, intro blind same_operation byte.same_setflags word.same_setflags long.same_setflags same_set refl,
      (assumption | (drule same_flags_eqs, (simp; fail)))+)+

lemmas multi_rules = byte.ARITH_MULTI_blind word.ARITH_MULTI_blind long.ARITH_MULTI_blind same_set refl

lemma op80_blind:
  assumes d: "d \<in> decoders B"
  shows "flag_blind (op80 B d r)"
  unfolding op80_def Let_def
  by (rule flag_blindI, intro blind multi_rules same_decoder [OF d],
      (assumption | (drule same_flags_eqs, (simp; fail)))+)

lemma op81_w_blind:
  assumes d: "d \<in> decoders B"
  shows "flag_blind (op81_w B d r)"
  unfolding op81_w_def Let_def
  by (rule flag_blindI, intro blind multi_rules same_decoder [OF d],
      (assumption | (drule same_flags_eqs, (simp; fail)))+)

lemma op81_l_blind:
  assumes d: "d \<in> decoders B"
  shows "flag_blind (op81_l B d r)"
  unfolding op81_l_def Let_def
  by (rule flag_blindI, intro blind multi_rules same_decoder [OF d],
      (assumption | (drule same_flags_eqs, (simp; fail)))+)

lemma op83_w_blind:
  assumes d: "d \<in> decoders B"
  shows "flag_blind (op83_w B d r)"
  unfolding op83_w_def Let_def
  by (rule flag_blindI, intro blind multi_rules same_decoder [OF d],
      (assumption | (drule same_flags_eqs, (simp; fail)))+)

lemma op83_l_blind:
  assumes d: "d \<in> decoders B"
  shows "flag_blind (op83_l B d r)"
  unfolding op83_l_def Let_def
  by (rule flag_blindI, intro blind multi_rules same_decoder [OF d],
      (assumption | (drule same_flags_eqs, (simp; fail)))+)

lemma opINCDEC_b_blind:
  assumes d: "d \<in> decoders B"
  shows "flag_blind (opINCDEC_b B d r)"
  unfolding opINCDEC_b_def Let_def
  by (rule flag_blindI, intro blind multi_rules same_decoder [OF d],
      (assumption | (drule same_flags_eqs, (simp; fail)))+)


section \<open>Faults are precise\<close>

lemma view_load_tempc [simp]: "same_view s0 (load_tempc op s) = same_view s0 s" "abrt (load_tempc op s) = abrt s"
  by (simp_all add: load_tempc_def)

lemma keeps_decoder:
  assumes "d \<in> decoders B" "ready s0 s" "\<And>s. ready s0 s \<Longrightarrow> keeps s0 (k s)"
  shows "keeps s0 (d r s k)"
  using assms(1) unfolding decoders_def by (auto intro!: keeps_fetch_ea assms(2,3))

lemma keeps_check_mem:
  assumes "ready s0 s" "keeps s0 (k s)"
  shows "keeps s0 (check_read_mem s k)" "keeps s0 (check_write_mem s k)"
  using assms by (auto simp: check_read_mem_def check_write_mem_def ready_def intro!: restart)

lemma keeps_case_ready:
  "same_view s0 (snd p) \<Longrightarrow> (\<And>v s. same_view s0 s \<Longrightarrow> keeps s0 (unless_abrt s (k v))) \<Longrightarrow>
     keeps s0 (case p of (v, s) \<Rightarrow> unless_abrt s (k v))"
  by (simp add: split_beta)

lemma ready_tempc: "ready s0 s \<Longrightarrow> ready s0 (load_tempc op s)"
  by (simp add: ready_def)

context alu_size begin

lemma abrt_set_W:
  "abrt (set_add W a b s) = abrt s" "abrt (set_sub W a b s) = abrt s" "abrt (set_adc W a b s) = abrt s"
  "abrt (set_sbc W a b s) = abrt s" "abrt (set_add_nc W a b s) = abrt s" "abrt (set_sub_nc W a b s) = abrt s"
  "abrt (set_znp W a s) = abrt s"
  by (rule setters_W [THEN flag_setterD(6)])+

lemma abrt_setflags: "abrt (setflags W op a b s) = abrt s"
  by (cases op) (simp_all add: abrt_set_W)

lemma keeps_stored_W:
  assumes "ready s0 s" "\<And>s. abrt s = 0 \<Longrightarrow> abrt (f s) = 0"
  shows "keeps s0 (unless_abrt (setea W B v s) (\<lambda>s. (f s, e)))"
  using assms by (auto simp: unless_abrt_def keeps_def ready_def view_setea)

lemmas restart_W = keeps_stored_W keeps_check_mem keeps_seg_check keeps_case_ready keeps_unless keeps_if keeps_done
lemmas restart_simps = ready_def view_getea abrt_setflags abrt_set_W abrt_setr_W Let_def

lemma op_rmw_precise:
  assumes d: "d \<in> decoders B"
  shows "precise (op_rmw W B d op r)"
  unfolding op_rmw_def Let_def
  by (rule preciseI, intro keeps_decoder [OF d] restart_W) (simp_all add: restart_simps)

lemma op_rm_precise:
  assumes d: "d \<in> decoders B"
  shows "precise (op_rm W B d op r)"
  unfolding op_rm_def Let_def
  by (rule preciseI, intro keeps_decoder [OF d] restart_W) (simp_all add: restart_simps)

lemma opCMP_rmw_precise:
  assumes d: "d \<in> decoders B"
  shows "precise (opCMP_rmw W B d r)"
  unfolding opCMP_rmw_def Let_def
  by (rule preciseI, intro keeps_decoder [OF d] restart_W) (simp_all add: restart_simps)

lemma opCMP_rm_precise:
  assumes d: "d \<in> decoders B"
  shows "precise (opCMP_rm W B d r)"
  unfolding opCMP_rm_def Let_def
  by (rule preciseI, intro keeps_decoder [OF d] restart_W) (simp_all add: restart_simps)

lemma opTEST_precise:
  assumes d: "d \<in> decoders B"
  shows "precise (opTEST W B d r)"
  unfolding opTEST_def Let_def
  by (rule preciseI, intro keeps_decoder [OF d] restart_W) (simp_all add: restart_simps)

lemma inc_precise: "precise (opINC W r)" "precise (opDEC W r)"
  unfolding opINC_def opDEC_def Let_def
  by (rule preciseI, intro restart_W, simp add: restart_simps)+

lemma ARITH_MULTI_precise: "ready s0 s \<Longrightarrow> keeps s0 (ARITH_MULTI W B r x s)"
  unfolding ARITH_MULTI_def Let_def
  by (intro restart_W) (simp_all add: restart_simps)

end

lemma abrt_set [simp]:
  fixes s :: "'m x86_cpu"
  shows "abrt (setsub8 a b s) = abrt s" "abrt (setsub16 v w s) = abrt s" "abrt (setsub32 x y s) = abrt s"
    "abrt (setznp8 a s) = abrt s" "abrt (setznp16 v s) = abrt s" "abrt (setznp32 x s) = abrt s"
    "abrt (setadd8nc a b s) = abrt s" "abrt (setsub8nc a b s) = abrt s"
  by (rule setters [THEN flag_setterD(6)])+

lemma abrt_fetchf [simp]: "abrt (snd (getbytef r s)) = abrt s" "abrt (snd (getwordf r s)) = abrt s"
  by (simp_all add: getbytef_def getwordf_def)

lemma imm_precise:
  "precise (op_AL_imm op r)" "precise (op_AX_imm op r)" "precise (op_EAX_imm B op)"
  "precise (opCMP_AL_imm r)" "precise (opCMP_AX_imm r)" "precise (opCMP_EAX_imm B)"
  "precise (opTEST_AL r)" "precise (opTEST_AX r)" "precise (opTEST_EAX B)"
  unfolding op_AL_imm_def op_AX_imm_def op_EAX_imm_def opCMP_AL_imm_def opCMP_AX_imm_def opCMP_EAX_imm_def
    opTEST_AL_def opTEST_AX_def opTEST_EAX_def
  by (auto simp: precise_def keeps_def unless_abrt_def Let_def split_beta
      byte.abrt_setflags word.abrt_setflags long.abrt_setflags)

lemmas multi_restart = byte.ARITH_MULTI_precise word.ARITH_MULTI_precise long.ARITH_MULTI_precise
  keeps_stored keeps_check_mem keeps_case_ready keeps_unless keeps_if keeps_done

lemma op80_precise:
  assumes d: "d \<in> decoders B"
  shows "precise (op80 B d r)"
  unfolding op80_def Let_def
  by (rule preciseI, intro keeps_decoder [OF d] multi_restart) (simp_all add: ready_def)

lemma op81_w_precise:
  assumes d: "d \<in> decoders B"
  shows "precise (op81_w B d r)"
  unfolding op81_w_def Let_def
  by (rule preciseI, intro keeps_decoder [OF d] multi_restart) (simp_all add: ready_def)

lemma op81_l_precise:
  assumes d: "d \<in> decoders B"
  shows "precise (op81_l B d r)"
  unfolding op81_l_def Let_def
  by (rule preciseI, intro keeps_decoder [OF d] multi_restart) (simp_all add: ready_def)

lemma op83_w_precise:
  assumes d: "d \<in> decoders B"
  shows "precise (op83_w B d r)"
  unfolding op83_w_def Let_def
  by (rule preciseI, intro keeps_decoder [OF d] multi_restart) (simp_all add: ready_def)

lemma op83_l_precise:
  assumes d: "d \<in> decoders B"
  shows "precise (op83_l B d r)"
  unfolding op83_l_def Let_def
  by (rule preciseI, intro keeps_decoder [OF d] multi_restart) (simp_all add: ready_def)

lemma opINCDEC_b_precise:
  assumes d: "d \<in> decoders B"
  shows "precise (opINCDEC_b B d r)"
  unfolding opINCDEC_b_def Let_def
  by (rule preciseI, intro keeps_decoder [OF d] multi_restart) (simp_all add: ready_def)

end
