(* ===== verification/X86_Shift_Spec.thy ===== *)
theory X86_Shift_Spec
  imports X86_Arith_Spec X86_Shift
begin

text \<open>
  Correctness of the shifts and rotations, in the locale \<open>shift_size\<close> that adds the flag kinds of
  an operand size to \<open>alu_size\<close>: the flags of both builds are the manual's, no handler observes
  how the flags are kept, and every fault is precise. Rotations through carry undo each other.
\<close>

section \<open>Flags in \<open>flags\<close>\<close>

text \<open>After \<open>flags_rebuild\<close> two states that show the same flags have the same \<open>flags\<close>.\<close>

definition exact_flags :: "'w x86_flags_scheme \<Rightarrow> 'w x86_flags_scheme \<Rightarrow> bool" where
  "exact_flags s t \<longleftrightarrow> same_flags s t \<and> flags_op s = FLAGS_UNKNOWN \<and> flags_op t = FLAGS_UNKNOWN"

lemma exact_same: "exact_flags s t \<Longrightarrow> same_flags s t"
  by (simp add: exact_flags_def)

lemma flags_of_view:
  assumes u: "flags_op s = FLAGS_UNKNOWN" "flags_op t = FLAGS_UNKNOWN" and a: "arch s = arch t"
    and f: "sys_flags s = sys_flags t"
  shows "flags s = flags t"
proof (rule bit_word_eqI)
  fix k :: nat
  have "bit (sys_flags s) k = bit (sys_flags t) k" using f by simp
  then have "bit (flags s) k = bit (flags t) k" if "k \<notin> {0, 2, 4, 6, 7, 11}"
    using that unfolding sys_flags_def bit_cleared by simp
  moreover have "bit (flags s) k = bit (flags t) k" if "k \<in> {0, 2, 4, 6, 7, 11}"
    using a that unfolding u [THEN arch_unknown] by auto
  ultimately show "bit (flags s) k = bit (flags t) k" by blast
qed

lemma exact_flags_eq: "exact_flags s t \<Longrightarrow> flags s = flags t"
  by (rule flags_of_view) (simp_all add: exact_flags_def same_flags_def)

lemma sys_rebuild [simp]: "sys_flags (flags_rebuild s) = sys_flags s"
proof (cases "flags_op s = FLAGS_UNKNOWN")
  case True
  then show ?thesis by (simp add: flags_rebuild_def)
next
  case False
  show ?thesis
    unfolding sys_flags_def
    by (rule bit_word_eqI, unfold bit_cleared flags_rebuild_bits [OF False]) auto
qed

lemma more_rebuild [simp]:
  "x86_flags.more (flags_rebuild s) = x86_flags.more s" "tempc (flags_rebuild s) = tempc s"
  by (simp_all add: flags_rebuild_def Let_def)

lemma same_rebuild: "same_flags (flags_rebuild s) s"
  by (simp add: same_flags_def arch_rebuild)

lemma exact_rebuild: "same_flags s t \<Longrightarrow> exact_flags (flags_rebuild s) (flags_rebuild t)"
  by (simp add: exact_flags_def flags_op_rebuild same_flags_def arch_rebuild)

lemma exact_put:
  assumes "exact_flags s t"
  shows "exact_flags (s\<lparr>flags := v\<rparr>) (t\<lparr>flags := v\<rparr>)"
proof -
  have "flags_op (s\<lparr>flags := v\<rparr>) = FLAGS_UNKNOWN" "flags_op (t\<lparr>flags := v\<rparr>) = FLAGS_UNKNOWN"
    using assms by (simp_all add: exact_flags_def)
  from arch_unknown [OF this(1)] arch_unknown [OF this(2)] this show ?thesis
    using assms by (simp add: exact_flags_def same_flags_def sys_flags_def)
qed

lemma exact_setr: 
  assumes "exact_flags s t"
  shows "exact_flags (setr8 r v s) (setr8 r v t)" "exact_flags (setr16 r w s) (setr16 r w t)" "exact_flags (setr32 r x s) (setr32 r x t)"
  using assms same_setr [of s t r r] by (simp_all add: exact_flags_def)

lemma same_unless_exact:
  assumes "exact_flags s t" "\<And>s t. exact_flags s t \<Longrightarrow> same_result (k s) (l t)"
  shows "same_result (unless_abrt s k) (unless_abrt t l)"
  using assms same_flags_fields(10) [OF exact_same [OF assms(1)]] exact_same [OF assms(1)]
  by (simp add: unless_abrt_def same_result_def)

lemma bit_no_CV: "bit ((w :: u16) AND NOT (C_FLAG OR V_FLAG)) k \<longleftrightarrow> bit w k \<and> k \<noteq> 0 \<and> k \<noteq> 11"
  unfolding bit_and_iff bit_not_iff bit_or_iff bit_flags using bit_imp_le_length [of w k] by (auto simp: not_le)

text \<open>The flags a routine writes, as one update.\<close>

lemma flags_put_CV: "flags (put_CV c v s) = set_if v V_FLAG (set_if c C_FLAG (flags s AND NOT (C_FLAG OR V_FLAG)))"
  by (simp add: put_CV_def set_if_def Let_def)

lemma put_CV_eq: "put_CV c v s = s\<lparr>flags := flags (put_CV c v s)\<rparr>"
  by (simp add: put_CV_def Let_def)

lemma exact_put_CV:
  assumes "exact_flags s t"
  shows "exact_flags (put_CV c v s) (put_CV c v t)"
proof -
  have "flags (put_CV c v s) = flags (put_CV c v t)" unfolding flags_put_CV exact_flags_eq [OF assms] ..
  then show ?thesis
    by (subst (1 2) put_CV_eq) (simp add: exact_put [OF assms])
qed

lemma arch_put_CV:
  assumes "flags_op s = FLAGS_UNKNOWN"
  shows "arch (put_CV c v s) = (arch s)\<lparr>cf := c, vf := v\<rparr>"
proof -
  have "flags_op (put_CV c v s) = FLAGS_UNKNOWN" using assms by (simp add: put_CV_def Let_def)
  from arch_unknown [OF this] show ?thesis unfolding arch_unknown [OF assms]
    unfolding flags_put_CV bit_set_if bit_no_CV bit_flags by simp
qed

lemma sys_put_CV [simp]: "sys_flags (put_CV c v s) = sys_flags s"
  unfolding sys_flags_def flags_put_CV
  by (rule bit_word_eqI, unfold bit_cleared bit_set_if bit_no_CV bit_flags) auto

lemma more_put_CV [simp]: "x86_flags.more (put_CV c v s) = x86_flags.more s" "tempc (put_CV c v s) = tempc s"
  "flags_op (put_CV c v s) = flags_op s"
  by (simp_all add: put_CV_def Let_def)


section \<open>The operand sizes\<close>

locale shift_size = alu_size W for W :: "('a::len word, 'm) op_size" +
  fixes S :: shift_ops
  assumes arch_rol: "flags_op (s :: 'm x86_cpu) = FLAGS_UNKNOWN \<Longrightarrow> arch (set_flags_rotate (ROL_op S) (ucast (a :: 'a word)) s) = rol_flags a (arch s)"
    and arch_ror: "flags_op (s :: 'm x86_cpu) = FLAGS_UNKNOWN \<Longrightarrow> arch (set_flags_rotate (ROR_op S) (ucast (a :: 'a word)) s) = ror_flags a (arch s)"
    and arch_shl: "1 \<le> unat n \<Longrightarrow> arch (set_flags_shift (SHL_op S) (ucast (a :: 'a word)) n (ucast (push_bit (unat n) a)) (s :: 'm x86_cpu)) = shl_flags a (unat n)"
    and arch_shr: "1 \<le> unat n \<Longrightarrow> arch (set_flags_shift (SHR_op S) (ucast (a :: 'a word)) n (ucast (drop_bit (unat n) a)) (s :: 'm x86_cpu)) = shr_flags a (unat n)"
    and arch_sar: "1 \<le> unat n \<Longrightarrow> arch (set_flags_shift (SAR_op S) (ucast (a :: 'a word)) n (ucast (signed_drop_bit (unat n) a)) (s :: 'm x86_cpu)) = sar_flags a (unat n)"

interpretation byte_shift: shift_size "byte_size :: (u8, 'm) op_size" byte_ops
  by unfold_locales (simp_all add: byte_ops_def rotate_arch shift8_arch)

interpretation word_shift: shift_size "word_size :: (u16, 'm) op_size" word_ops
  by unfold_locales (simp_all add: word_ops_def rotate_arch shift16_arch)

interpretation long_shift: shift_size "long_size :: (u32, 'm) op_size" long_ops
  by unfold_locales (simp_all add: long_ops_def rotate_arch shift32_arch)

lemma more_set_flags [simp]:
  "x86_flags.more (set_flags_rotate op r s) = x86_flags.more s" "tempc (set_flags_rotate op r s) = tempc s"
  "sys_flags (set_flags_rotate op r s) = sys_flags s" "x86_flags.more (set_flags_shift op a n r s) = x86_flags.more s"
  "tempc (set_flags_shift op a n r s) = tempc s" "sys_flags (set_flags_shift op a n r s) = sys_flags s"
  by (simp_all add: set_flags_rotate_def set_flags_shift_def sys_flags_def)

lemma sint_bit: "sint (w :: 'a::len word) < 0 \<longleftrightarrow> bit w (LENGTH('a) - 1)"
  by (rule sint_neg)

text \<open>The top bits, as the old build tests them.\<close>

lemma rol_bits:
  fixes a :: "'a::len word"
  shows "(a XOR drop_bit (LENGTH('a) - 1) a) AND 1 \<noteq> 0 \<longleftrightarrow> bit a 0 \<noteq> (sint a < 0)"
  unfolding mask_bits not_not sint_neg by (simp add: bit_xor_iff bit_drop_bit_eq)

lemma ror_bits:
  fixes a :: "'a::len word"
  assumes "2 \<le> LENGTH('a)"
  shows "(a XOR drop_bit 1 a) AND push_bit (LENGTH('a) - 2) 1 \<noteq> 0 \<longleftrightarrow> bit a (LENGTH('a) - 2) \<noteq> (sint a < 0)"
proof -
  have "Suc (LENGTH('a) - 2) = LENGTH('a) - 1" using assms by simp
  then show ?thesis unfolding mask_bits not_not sint_neg by (simp add: bit_xor_iff bit_drop_bit_eq)
qed

lemma rcl_bits:
  fixes a :: "'a::len word"
  shows "of_bool c XOR drop_bit (LENGTH('a) - 1) a \<noteq> 0 \<longleftrightarrow> c \<noteq> (sint a < 0)"
proof -
  have "drop_bit (LENGTH('a) - 1) a = of_bool (bit a (LENGTH('a) - 1))"
  proof (rule bit_word_eqI)
    fix n assume n: "n < LENGTH('a)"
    then show "bit (drop_bit (LENGTH('a) - 1) a) n = bit (of_bool (bit a (LENGTH('a) - 1)) :: 'a word) n"
      by (cases n) (auto simp: bit_drop_bit_eq bit_1_iff dest: bit_imp_le_length)
  qed
  then show ?thesis unfolding sint_neg by (cases c; cases "bit a (LENGTH('a) - 1)") auto
qed

context shift_size begin

lemma size2: "2 \<le> LENGTH('a)"
  using size by simp

lemma arch_rol_setflags: "flags_op s = FLAGS_UNKNOWN \<Longrightarrow> arch (rol_setflags S (a :: 'a word) (s :: 'm x86_cpu)) = rol_flags a (arch s)"
  unfolding rol_setflags_def rol_bits unfolding mask_bits not_not
  by (simp add: arch_rol arch_put_CV rol_flags_def sint_neg del: One_nat_def)

lemma arch_ror_setflags: "flags_op s = FLAGS_UNKNOWN \<Longrightarrow> arch (ror_setflags S (a :: 'a word) (s :: 'm x86_cpu)) = ror_flags a (arch s)"
  unfolding ror_setflags_def ror_bits [OF size2] unfolding mask_bits not_not
  by (simp add: arch_ror arch_put_CV ror_flags_def sint_neg del: One_nat_def)

lemma arch_rcl_setflags:
  "flags_op s = FLAGS_UNKNOWN \<Longrightarrow> arch (rcl_setflags c (a :: 'a word) s) = (arch s)\<lparr>cf := c, vf := (c \<noteq> (sint a < 0))\<rparr>"
  unfolding rcl_setflags_def rcl_bits by (rule arch_put_CV)

lemma arch_rcr_setflags:
  "flags_op s = FLAGS_UNKNOWN \<Longrightarrow>
    arch (rcr_setflags c (a :: 'a word) s) = (arch s)\<lparr>cf := c, vf := (bit a (LENGTH('a) - 2) \<noteq> (sint a < 0))\<rparr>"
  unfolding rcr_setflags_def ror_bits [OF size2] by (rule arch_put_CV)

lemma arch_shifts:
  assumes "c \<noteq> 0" "c < 32"
  shows "arch (set_flags_shift (SHL_op S) (ucast a) (of_nat c) (ucast (push_bit c a)) (s :: 'm x86_cpu)) = shl_flags (a :: 'a word) c"
    "arch (set_flags_shift (SHR_op S) (ucast a) (of_nat c) (ucast (drop_bit c a)) s) = shr_flags a c"
    "arch (set_flags_shift (SAR_op S) (ucast a) (of_nat c) (ucast (signed_drop_bit c a)) s) = sar_flags a c"
proof -
  have c: "unat (of_nat c :: u32) = c" using assms(2) by (intro unat_of_small) simp
  show "arch (set_flags_shift (SHL_op S) (ucast a) (of_nat c) (ucast (push_bit c a)) s) = shl_flags (a :: 'a word) c"
    "arch (set_flags_shift (SHR_op S) (ucast a) (of_nat c) (ucast (drop_bit c a)) s) = shr_flags a c"
    "arch (set_flags_shift (SAR_op S) (ucast a) (of_nat c) (ucast (signed_drop_bit c a)) s) = sar_flags a c"
    using arch_shl [of "of_nat c" a s] arch_shr [of "of_nat c" a s] arch_sar [of "of_nat c" a s] assms(1)
    unfolding c by auto
qed

end


section \<open>Handlers\<close>

lemma exact_dest: "exact_flags s t \<Longrightarrow> flags_op s = FLAGS_UNKNOWN" "exact_flags s t \<Longrightarrow> flags_op t = FLAGS_UNKNOWN"
  "exact_flags s t \<Longrightarrow> arch s = arch t" "exact_flags s t \<Longrightarrow> sys_flags s = sys_flags t"
  "exact_flags s t \<Longrightarrow> x86_flags.more s = x86_flags.more t" "exact_flags s t \<Longrightarrow> tempc s = tempc t"
  by (simp_all add: exact_flags_def same_flags_def)

lemma more_setflags [simp]:
  "x86_flags.more (rol_setflags S a s) = x86_flags.more s" "tempc (rol_setflags S a s) = tempc s" "sys_flags (rol_setflags S a s) = sys_flags s"
  "x86_flags.more (ror_setflags S a s) = x86_flags.more s" "tempc (ror_setflags S a s) = tempc s" "sys_flags (ror_setflags S a s) = sys_flags s"
  "x86_flags.more (rcl_setflags c a s) = x86_flags.more s" "tempc (rcl_setflags c a s) = tempc s" "sys_flags (rcl_setflags c a s) = sys_flags s"
  "x86_flags.more (rcr_setflags c a s) = x86_flags.more s" "tempc (rcr_setflags c a s) = tempc s" "sys_flags (rcr_setflags c a s) = sys_flags s"
  by (simp_all add: rol_setflags_def ror_setflags_def rcl_setflags_def rcr_setflags_def)

lemma abrt_setflags_shift [simp]:
  fixes s :: "'m x86_cpu"
  shows "abrt (rol_setflags S a s) = abrt s" "abrt (ror_setflags S a s) = abrt s" "abrt (rcl_setflags c a s) = abrt s"
    "abrt (rcr_setflags c a s) = abrt s" "abrt (set_flags_shift op x n r s) = abrt s" "abrt (flags_rebuild s) = abrt s"
  by (rule more_fields, simp)+

lemma view_rebuild [simp]: "same_view s0 (flags_rebuild s) = same_view s0 s"
proof -
  have "regs (flags_rebuild s) = regs s" "oldpc (flags_rebuild s) = oldpc s" by (rule more_fields, simp)+
  then show ?thesis by (simp add: same_view_def arch_rebuild)
qed

lemma same_and31: "a = b \<Longrightarrow> unat (a AND 31 :: u8) = unat (b AND 31)"
  by simp

lemma and31: "unat (x AND 31 :: u8) < 32"
  using word_and_le1 [of x 31] by (simp add: word_le_nat_alt)

context shift_size begin

lemma exact_setea: "exact_flags s t \<Longrightarrow> exact_flags (setea W B v s) (setea W B v t)"
  using same_setea_W [of s t v v B] by (simp add: exact_flags_def op_setea)

lemma same_rotations:
  fixes s t :: "'m x86_cpu" and a :: "'a word"
  assumes "exact_flags s t"
  shows "same_flags (rol_setflags S a s) (rol_setflags S a t)" "same_flags (ror_setflags S a s) (ror_setflags S a t)"
    "same_flags (rcl_setflags c a s) (rcl_setflags c a t)" "same_flags (rcr_setflags c a s) (rcr_setflags c a t)"
  using exact_dest [OF assms]
  by (simp_all add: same_flags_def arch_rol_setflags arch_ror_setflags arch_rcl_setflags arch_rcr_setflags)

lemma same_shifts:
  fixes s t :: "'m x86_cpu" and a :: "'a word"
  assumes "exact_flags s t" "c \<noteq> 0" "c < 32"
  shows "same_flags (set_flags_shift (SHL_op S) (ucast a) (of_nat c) (ucast (push_bit c a)) s)
      (set_flags_shift (SHL_op S) (ucast a) (of_nat c) (ucast (push_bit c a)) t)"
    "same_flags (set_flags_shift (SHR_op S) (ucast a) (of_nat c) (ucast (drop_bit c a)) s)
      (set_flags_shift (SHR_op S) (ucast a) (of_nat c) (ucast (drop_bit c a)) t)"
    "same_flags (set_flags_shift (SAR_op S) (ucast a) (of_nat c) (ucast (signed_drop_bit c a)) s)
      (set_flags_shift (SAR_op S) (ucast a) (of_nat c) (ucast (signed_drop_bit c a)) t)"
  using exact_dest [OF assms(1)] by (simp_all add: same_flags_def arch_shifts [OF assms(2,3)])

lemma op_shift_same:
  assumes "same_flags s t" "v = w" "c < 32" "c = c'"
  shows "same_result (op_shift W S B c r v s) (op_shift W S B c' r w t)"
proof (cases "c = 0")
  case False
  define s' t' where d: "s' = flags_rebuild s" "t' = flags_rebuild t"
  have e: "exact_flags s' t'" unfolding d by (rule exact_rebuild [OF assms(1)])
  note f = exact_flags_eq [OF e]
  note rules = exact_setea [OF e] same_rotations same_shifts False assms(3)
  show ?thesis
    unfolding op_shift_def Let_def d [symmetric] assms(2) assms(4) [symmetric] f
    by (auto simp: False split: prod.split intro!: same_unless_exact same_result_endI rules)
qed (use assms in \<open>simp add: op_shift_def same_result_def\<close>)

lemma op_shift_keeps:
  assumes "ready s0 s"
  shows "keeps s0 (op_shift W S B c r v s)"
proof -
  have "ready s0 (flags_rebuild s)" using assms by (simp add: ready_def)
  then show ?thesis using assms unfolding op_shift_def Let_def
    by (auto simp: ready_def split: prod.split intro!: keeps_stored_W keeps_done)
qed

lemmas shift_handlers = op_shift_imm_def op_shift_1_def op_shift_CL_def

lemma op_shift_imm_blind:
  assumes d: "d \<in> decoders B"
  shows "flag_blind (op_shift_imm W S B d r)"
  unfolding op_shift_imm_def
  by (rule flag_blindI, intro blind blind_W same_decoder [OF d] op_shift_same and31,
      (assumption | (drule same_flags_eqs, (simp add: cs_def; fail)))+)

lemma op_shift_1_blind:
  assumes d: "d \<in> decoders B"
  shows "flag_blind (op_shift_1 W S B d r)"
  unfolding op_shift_1_def
  by (rule flag_blindI, intro blind blind_W same_decoder [OF d] op_shift_same, (assumption | simp)+)

lemma op_shift_CL_blind:
  assumes d: "d \<in> decoders B"
  shows "flag_blind (op_shift_CL W S B d r)"
  unfolding op_shift_CL_def Let_def
  by (rule flag_blindI, intro blind blind_W same_decoder [OF d] op_shift_same and31 same_and31,
      (assumption | simp)+)

lemma shift_precise:
  assumes d: "d \<in> decoders B"
  shows "precise (op_shift_imm W S B d r)" "precise (op_shift_1 W S B d r)" "precise (op_shift_CL W S B d r)"
  unfolding shift_handlers Let_def
  by (rule preciseI, intro keeps_decoder [OF d] keeps_check_mem keeps_case keeps_unless op_shift_keeps;
      simp add: ready_def view_getea)+

end


section \<open>Double shifts\<close>

lemma same_put_carry: "exact_flags s t \<Longrightarrow> exact_flags (put_carry c s) (put_carry c t)"
  using exact_put [of s t "flags t OR C_FLAG"] by (simp add: put_carry_def exact_flags_eq)

lemma abrt_put_carry [simp]: "abrt (put_carry c s) = abrt s"
  by (simp add: put_carry_def)

context alu_size begin

lemma SHxD_flags:
  "same_flags s t \<Longrightarrow> v = w \<Longrightarrow> c = d \<Longrightarrow>
    same_flags (put_carry c (flags_rebuild (set_znp W v s))) (put_carry d (flags_rebuild (set_znp W w t)))"
  using exact_same [OF same_put_carry [OF exact_rebuild [OF same_set_W(5)]]] by simp

lemma same_shifted: "c = c' \<Longrightarrow> a = b \<Longrightarrow> v = w \<Longrightarrow> f c a v = f c' b w"
  by simp

lemma SHxD_same: "same_flags s t \<Longrightarrow> c = c' \<Longrightarrow> same_result (SHxD W f g B c s) (SHxD W f g B c' t)"
  unfolding SHxD_def Let_def
  by (intro blind blind_W refl SHxD_flags same_shifted [of _ _ _ _ _ _ f],
      (assumption | (drule same_flags_eqs, (simp; fail)) | simp)+)

lemma SHxD_keeps:
  assumes "same_view s0 s" "c = 0 \<or> abrt s = 0"
  shows "keeps s0 (SHxD W f g B c s)"
proof (cases "c = 0")
  case False
  then have "ready s0 s" using assms by (simp add: ready_def)
  then show ?thesis unfolding SHxD_def Let_def
    by (auto simp: ready_def view_getea abrt_set_W intro!: keeps_case keeps_unless keeps_stored_W keeps_done)
qed (use assms in \<open>simp add: SHxD_def keeps_def\<close>)

end

definition double_shifts :: "('m cpu_bus \<Rightarrow> nat \<Rightarrow> 'm x86_cpu \<Rightarrow> 'm op_result) set" where
  "double_shifts = {SHLD_w, SHLD_l, SHRD_w, SHRD_l}"

lemma double_shift_same: "f \<in> double_shifts \<Longrightarrow> same_flags s t \<Longrightarrow> c = c' \<Longrightarrow> same_result (f B c s) (f B c' t)"
  unfolding double_shifts_def
  by (elim insertE emptyE; simp add: SHLD_w_def SHLD_l_def SHRD_w_def SHRD_l_def word.SHxD_same long.SHxD_same)

lemma double_shift_keeps: "f \<in> double_shifts \<Longrightarrow> same_view s0 s \<Longrightarrow> c = 0 \<or> abrt s = 0 \<Longrightarrow> keeps s0 (f B c s)"
  unfolding double_shifts_def
  by (elim insertE emptyE; simp add: SHLD_w_def SHLD_l_def SHRD_w_def SHRD_l_def word.SHxD_keeps long.SHxD_keeps)

lemma opSHxD_i_blind:
  assumes d: "d \<in> decoders B" and f: "f \<in> double_shifts"
  shows "flag_blind (opSHxD_i f B d r)"
  unfolding opSHxD_i_def
  by (rule flag_blindI, intro blind same_decoder [OF d] double_shift_same [OF f]; simp)

lemma opSHxD_CL_blind:
  assumes d: "d \<in> decoders B" and f: "f \<in> double_shifts"
  shows "flag_blind (opSHxD_CL f B d r)"
  unfolding opSHxD_CL_def
  by (rule flag_blindI, intro blind same_decoder [OF d] double_shift_same [OF f] same_and31; simp)

lemma getbyte_fault: "abrt (snd (getbyte B s)) \<noteq> 0 \<Longrightarrow> fst (getbyte B s) = 0"
  by (simp add: getbyte_def fastreadb_def fetched_def split_beta Let_def)

lemma opSHxD_i_precise:
  assumes d: "d \<in> decoders B" and f: "f \<in> double_shifts"
  shows "precise (opSHxD_i f B d r)"
  unfolding opSHxD_i_def split_beta
  by (rule preciseI, intro keeps_decoder [OF d] keeps_check_mem double_shift_keeps [OF f])
    (auto simp: ready_def dest: getbyte_fault)

lemma opSHxD_CL_precise:
  assumes d: "d \<in> decoders B" and f: "f \<in> double_shifts"
  shows "precise (opSHxD_CL f B d r)"
  unfolding opSHxD_CL_def
  by (rule preciseI, intro keeps_decoder [OF d] keeps_check_mem double_shift_keeps [OF f])
    (auto simp: ready_def)


section \<open>Rotations\<close>

lemma mod_once: "l \<le> a \<Longrightarrow> a < l + l \<Longrightarrow> a mod l = a - (l :: nat)"
  by (simp add: mod_if)

lemma rol_word_rotl: "rol c (w :: 'a::len word) = word_rotl c w"
proof (rule bit_word_eqI)
  fix n assume n: "n < LENGTH('a)"
  let ?l = "LENGTH('a)" and ?m = "c mod LENGTH('a)"
  have m: "?m < ?l" by simp
  have l: "bit (rol c w) n \<longleftrightarrow> ?m \<le> n \<and> bit w (n - ?m) \<or> bit w (?l - ?m + n)"
    using n unfolding rol_def bit_or_iff bit_push_bit_iff bit_drop_bit_eq by simp
  have r: "bit (word_rotl c w) n \<longleftrightarrow> bit w ((n + (?l - ?m)) mod ?l)"
    using n by (simp add: bit_word_rotl_iff)
  show "bit (rol c w) n = bit (word_rotl c w) n"
  proof (cases "n < ?m")
    case True
    then have "n + (?l - ?m) < ?l" using m by linarith
    then have "(n + (?l - ?m)) mod ?l = ?l - ?m + n" by (metis add.commute mod_less)
    then show ?thesis unfolding l r using True by simp
  next
    case False
    then have e: "(n + (?l - ?m)) mod ?l = n - ?m" using m n mod_once [of ?l "n + (?l - ?m)"] by linarith
    have "\<not> bit w (?l - ?m + n)" using False m bit_imp_le_length [of w "?l - ?m + n"] by linarith
    then show ?thesis unfolding l r e using False by simp
  qed
qed

lemma ror_word_rotr: "ror c (w :: 'a::len word) = word_rotr c w"
proof (rule bit_word_eqI)
  fix n assume n: "n < LENGTH('a)"
  let ?l = "LENGTH('a)" and ?m = "c mod LENGTH('a)"
  have m: "?m < ?l" by simp
  have l: "bit (ror c w) n \<longleftrightarrow> bit w (?m + n) \<or> ?l - ?m \<le> n \<and> bit w (n - (?l - ?m))"
    using n unfolding ror_def bit_or_iff bit_push_bit_iff bit_drop_bit_eq by simp
  have c: "(n + c) mod ?l = (?m + n) mod ?l" by (metis add.commute mod_add_left_eq)
  have r: "bit (word_rotr c w) n \<longleftrightarrow> bit w ((?m + n) mod ?l)" using n by (simp add: bit_word_rotr_iff c)
  show "bit (ror c w) n = bit (word_rotr c w) n"
  proof (cases "?m + n < ?l")
    case True
    then have "\<not> ?l - ?m \<le> n" using m by linarith
    with True show ?thesis unfolding l r by simp
  next
    case False
    then have "(?m + n) mod ?l = ?m + n - ?l" using m n mod_once [of ?l "?m + n"] by linarith
    moreover have "?m + n - ?l = n - (?l - ?m)" using m by linarith
    moreover have "\<not> bit w (?m + n)" using False bit_imp_le_length [of w "?m + n"] by linarith
    moreover have "?l - ?m \<le> n" using False by linarith
    ultimately show ?thesis unfolding l r by simp
  qed
qed

text \<open>Carry and operand as one list of bits, the carry first.\<close>

definition carry_bits :: "bool \<Rightarrow> 'a::len word \<Rightarrow> bool list" where
  "carry_bits c w = c # rev (map (bit w) [0..<LENGTH('a)])"

lemma carry_bits_inject: "carry_bits c v = carry_bits d w \<Longrightarrow> c = d \<and> v = w"
proof -
  assume "carry_bits c v = carry_bits d w"
  then have "c = d" "map (bit v) [0..<LENGTH('a)] = map (bit w) [0..<LENGTH('a)]"
    by (simp_all add: carry_bits_def)
  then show "c = d \<and> v = w" by (auto simp: map_eq_conv intro!: bit_word_eqI)
qed

lemma length_carry_bits [simp]: "length (carry_bits c (w :: 'a::len word)) = Suc LENGTH('a)"
  by (simp add: carry_bits_def)

lemma upt_top: "[0..<LENGTH('a::len)] = [0..<LENGTH('a) - 1] @ [LENGTH('a) - 1]"
  by (metis Suc_pred' len_gt_0 upt_Suc_append zero_le)

lemma rcl_step:
  fixes w :: "'a::len word"
  shows "carry_bits (bit w (LENGTH('a) - 1)) (push_bit 1 w OR of_bool c) = rotate1 (carry_bits c w)"
proof -
  let ?w = "push_bit 1 w OR of_bool c"
  have "[0..<LENGTH('a)] = 0 # map Suc [0..<LENGTH('a) - 1]"
    by (simp add: map_Suc_upt upt_conv_Cons)
  moreover have "bit ?w 0 = c" unfolding bit_or_iff bit_push_bit_iff by (cases c) auto
  moreover have "bit ?w (Suc k) = bit w k" if "k < LENGTH('a) - 1" for k
    using that unfolding bit_or_iff bit_push_bit_iff by (cases c) (auto simp: bit_1_iff)
  ultimately have "map (bit ?w) [0..<LENGTH('a)] = c # map (bit w) [0..<LENGTH('a) - 1]"
    by simp
  moreover have "rev (map (bit w) [0..<LENGTH('a)]) = bit w (LENGTH('a) - 1) # rev (map (bit w) [0..<LENGTH('a) - 1])"
    by (subst upt_top) simp
  ultimately show ?thesis by (simp add: carry_bits_def)
qed

lemma rcr_step:
  fixes w :: "'a::len word"
  shows "rotate1 (carry_bits (bit w 0) (drop_bit 1 w OR (if c then push_bit (LENGTH('a) - 1) 1 else 0))) = carry_bits c w"
proof -
  let ?v = "drop_bit 1 w OR (if c then push_bit (LENGTH('a) - 1) 1 else 0)"
  have "bit ?v (LENGTH('a) - 1) = c"
    unfolding bit_or_iff bit_drop_bit_eq by (cases c) (auto simp del: push_bit_of_1 dest: bit_imp_le_length)
  moreover have "push_bit 1 ?v OR of_bool (bit w 0) = w"
  proof (rule bit_word_eqI)
    fix n assume "n < LENGTH('a)"
    then show "bit (push_bit 1 ?v OR of_bool (bit w 0)) n = bit w n"
      unfolding bit_or_iff bit_push_bit_iff bit_drop_bit_eq
      by (cases n; cases c; cases "bit w 0") (auto simp: bit_1_iff bit_push_bit_iff simp del: push_bit_of_1)
  qed
  ultimately show ?thesis using rcl_step [of ?v "bit w 0"] by simp
qed

lemma rcl_loop_rotates:
  "carry_bits (fst (rcl_loop n c w)) (snd (rcl_loop n c w)) = rotate n (carry_bits c (w :: 'a::len word))"
proof (induction n arbitrary: c w)
  case (Suc n)
  have "(if c then 1 else 0) = (of_bool c :: 'a word)" by simp
  then show ?case
    using rcl_step [of w c] Suc.IH
    by (simp add: mask_bits rotate1_rotate_swap del: One_nat_def)
qed simp

lemma rcr_loop_rotates:
  "rotate n (carry_bits (fst (rcr_loop n c w)) (snd (rcr_loop n c w))) = carry_bits c (w :: 'a::len word)"
proof (induction n arbitrary: c w)
  case (Suc n)
  then show ?case
    using rcr_step [of w c] by (simp add: mask_bits del: One_nat_def)
qed simp

lemma rotate_injD:
  assumes "rotate n xs = rotate n ys" "length xs = length ys"
  shows "xs = ys"
proof (cases "xs = []")
  case False
  let ?l = "length xs"
  have "(?l - n mod ?l + n) mod ?l = 0"
    using False by (metis add.commute le_add_diff_inverse length_greater_0_conv mod_add_left_eq mod_le_divisor mod_self)
  then have "rotate (?l - n mod ?l + n) xs = xs" "rotate (?l - n mod ?l + n) ys = ys"
    using assms(2) by (simp_all add: rotate_id)
  then show ?thesis using assms(1) by (simp only: rotate_rotate [symmetric])
qed (use assms in simp)

lemma rcr_undoes_rcl: "rcl_loop n c w = (c', w') \<Longrightarrow> rcr_loop n c' w' = (c, w)"
proof -
  assume "rcl_loop n c w = (c', w')"
  then have "rotate n (carry_bits (fst (rcr_loop n c' w')) (snd (rcr_loop n c' w'))) = rotate n (carry_bits c w)"
    using rcl_loop_rotates [of n c w] rcr_loop_rotates [of n c' w'] by simp
  then have "carry_bits (fst (rcr_loop n c' w')) (snd (rcr_loop n c' w')) = carry_bits c w"
    by (rule rotate_injD) simp
  then have "fst (rcr_loop n c' w') = c \<and> snd (rcr_loop n c' w') = w" by (rule carry_bits_inject)
  then show "rcr_loop n c' w' = (c, w)" by (simp add: prod_eq_iff)
qed

end
