(* ===== verification/X86_Integer_Spec.thy ===== *)
theory X86_Integer_Spec
  imports X86_Integer X86_Shift_Spec
begin

text \<open>
  Correctness of the other integer instructions: no handler observes how the flags are kept, every
  fault is precise, and what division, decimal adjustment and the conditions compute.
\<close>

section \<open>Handlers do not observe how the flags are kept\<close>

lemma same_view_flags:
  assumes "same_flags s t"
  shows "CF_SET s = CF_SET t" "ZF_SET s = ZF_SET t" "NF_SET s = NF_SET t" "PF_SET s = PF_SET t" "VF_SET s = VF_SET t"
  using assms by (simp_all add: same_flags_def arch_def)

lemma same_cond [blind]: "same_flags s t \<Longrightarrow> cond c s = cond c t"
  by (cases c) (simp_all add: same_view_flags)

lemma exact_flagsD: "same_flags s t \<Longrightarrow> flags (flags_rebuild s) = flags (flags_rebuild t)"
  by (rule exact_flags_eq) (rule exact_rebuild)

text \<open>The bits of \<open>flags\<close> other than the arithmetic flags can be written at any time.\<close>

lemma arch_flags_cong:
  assumes "v AND 0x8d5 = flags s AND 0x8d5"
  shows "arch (s\<lparr>flags := v\<rparr>) = arch s"
proof -
  have m: "w AND m = (w AND 0x8d5) AND m" if "m AND 0x8d5 = m" for w m :: u16
    unfolding and.assoc and.commute [of "0x8d5" m] that ..
  have "v AND m = flags s AND m" if "m AND 0x8d5 = m" for m
    unfolding m [OF that, of v] m [OF that, of "flags s"] assms ..
  then have "v AND C_FLAG = flags s AND C_FLAG" "v AND P_FLAG = flags s AND P_FLAG" "v AND A_FLAG = flags s AND A_FLAG"
    "v AND Z_FLAG = flags s AND Z_FLAG" "v AND N_FLAG = flags s AND N_FLAG" "v AND V_FLAG = flags s AND V_FLAG"
    by simp_all
  then show ?thesis
    by (cases "flags_op s") (simp_all add: arch_def CF_SET_def PF_SET_def AF_SET_def
      ZF_SET_def NF_SET_def VF_SET_def overflow_add_def overflow_sub_def overflow_shl_def overflow_shr_def
      overflow_rol_def overflow_ror_def half_adc_def half_sbc_def carry_adc_def carry_sbc_def carry_shl_def
      carry_shr_def carry_sar_def)
qed

lemma same_direction:
  assumes "same_flags s t"
  shows "same_flags (s\<lparr>flags := flags s AND NOT D_FLAG\<rparr>) (t\<lparr>flags := flags t AND NOT D_FLAG\<rparr>)"
    "same_flags (s\<lparr>flags := flags s OR D_FLAG\<rparr>) (t\<lparr>flags := flags t OR D_FLAG\<rparr>)"
proof -
  have k: "(w AND NOT D_FLAG) AND 0x8d5 = w AND 0x8d5" "(w OR D_FLAG) AND 0x8d5 = w AND 0x8d5" for w
    unfolding bit.conj_disj_distrib2 by (simp_all add: ac_simps)
  have d: "(w AND NOT D_FLAG) AND NOT 0x8d5 = (w AND NOT 0x8d5) AND NOT D_FLAG"
    "(w OR D_FLAG) AND NOT 0x8d5 = (w AND NOT 0x8d5) OR D_FLAG" for w :: u16
    unfolding bit.conj_disj_distrib2 by (simp_all add: ac_simps)
  have "sys_flags (u\<lparr>flags := flags u AND NOT D_FLAG\<rparr>) = sys_flags u AND NOT D_FLAG"
    "sys_flags (u\<lparr>flags := flags u OR D_FLAG\<rparr>) = sys_flags u OR D_FLAG" for u :: "'a x86_flags_scheme"
    unfolding sys_flags_def d [symmetric] by simp_all
  then show "same_flags (s\<lparr>flags := flags s AND NOT D_FLAG\<rparr>) (t\<lparr>flags := flags t AND NOT D_FLAG\<rparr>)"
    "same_flags (s\<lparr>flags := flags s OR D_FLAG\<rparr>) (t\<lparr>flags := flags t OR D_FLAG\<rparr>)"
    using assms unfolding same_flags_def arch_flags_cong [OF k(1)] arch_flags_cong [OF k(2)] by simp_all
qed

text \<open>After \<open>flags_rebuild\<close> a handler may compute with \<open>flags\<close> as a word.\<close>

lemma same_rebuilt: "same_flags s t \<Longrightarrow> same_flags (flags_rebuild s) (flags_rebuild t)"
  by (rule exact_same) (rule exact_rebuild)

lemma same_rebuilt_put: "same_flags s t \<Longrightarrow> v = w \<Longrightarrow> same_flags (flags_rebuild s\<lparr>flags := v\<rparr>) (flags_rebuild t\<lparr>flags := w\<rparr>)"
  by (simp add: exact_same exact_put exact_rebuild)

lemmas word_args = arg_cong2 [where f = "(AND)"] arg_cong2 [where f = "(OR)"] arg_cong2 [where f = "(XOR)"] 
  arg_cong [where f = ucast] arg_cong [where f = "(\<noteq>) 0"]

lemma flag_handlers_blind:
  "flag_blind opCMC" "flag_blind opCLC" "flag_blind opSTC" "flag_blind opCLD" "flag_blind opSTD"
  "flag_blind opSAHF" "flag_blind opLAHF"
  unfolding opCMC_def opCLC_def opSTC_def opCLD_def opSTD_def opSAHF_def opLAHF_def Let_def
  by (rule flag_blindI, (intro same_result_endI same_direction same_rebuilt_put same_rebuilt same_setr
      word_args exact_flagsD same_getr; (assumption | rule refl)))+

lemma same_put_CV_both [blind]:
  assumes "same_flags s t" "b = c"
  shows "same_flags (put_CV_both b s) (put_CV_both c t)"
  unfolding put_CV_both_def Let_def assms(2) exact_flagsD [OF assms(1)]
  using assms(1) by (simp add: same_rebuilt_put)

lemma same_div_flags [blind]:
  assumes "same_flags s t"
  shows "same_flags (div8_flags s) (div8_flags t)" "flag_setter f \<Longrightarrow> same_flags (div_flags f s) (div_flags f t)"
proof -
  show "same_flags (div8_flags s) (div8_flags t)"
    unfolding div8_flags_def Let_def using exact_flagsD [OF assms(1)] assms same_flags_fields [OF assms]
    by (simp add: same_rebuilt_put)
  show "flag_setter f \<Longrightarrow> same_flags (div_flags f s) (div_flags f t)"
    unfolding div_flags_def using same_flags_fields [OF assms] assms by (simp add: flag_setterD(1))
qed

lemma same_pairs: 
  assumes "same_flags s t"
  shows "pair16 s = pair16 t" "pair32 s = pair32 t"
  using same_getr [OF assms] by (simp_all add: pair16_def pair32_def same_flags_fields [OF assms] getr16_def getr32_def)

text \<open>Multiplication and division read registers and flags of the two states, which agree.\<close>

lemma same_put_reg:
  assumes "same_flags s t"
  shows "getr8 q (setr16 r v s) = getr8 q (setr16 r v t)" "getr16 q (setr16 r v s) = getr16 q (setr16 r v t)"
    "getr16 q (setr16 r v (setr16 p w s)) = getr16 q (setr16 r v (setr16 p w t))"
    "getr32 q (setr32 r x (setr32 p y s)) = getr32 q (setr32 r x (setr32 p y t))"
  using same_flags_fields(1) [OF assms]
  by (simp_all add: getr8_def getr16_def getr32_def setr16_def setr32_def)

lemma mul_same:
  assumes "same_flags s t"
  shows "same_result (mul8 a s) (mul8 a t)" "same_result (imul8 a s) (imul8 a t)"
    "same_result (mul16 b s) (mul16 b t)" "same_result (imul16 b s) (imul16 b t)"
    "same_result (mul32 c s) (mul32 c t)" "same_result (imul32 c s) (imul32 c t)"
  unfolding mul8_def imul8_def mul16_def imul16_def mul32_def imul32_def Let_def same_getr [OF assms refl] same_put_reg [OF assms]
  by (intro blind refl assms)+

lemma div_same:
  assumes "same_flags s t"
  shows "same_result (div8 a s) (div8 a t)" "same_result (idiv8 a s) (idiv8 a t)"
    "same_result (div16 b s) (div16 b t)" "same_result (idiv16 b s) (idiv16 b t)"
    "same_result (divl c s) (divl c t)" "same_result (idivl c s) (idivl c t)"
  unfolding div8_def idiv8_def div16_def idiv16_def divl_def idivl_def Let_def same_getr [OF assms refl] same_put_reg [OF assms]
    same_pairs [OF assms]
  by (intro blind refl assms znp_setters)+

lemma div32_same:
  assumes "same_flags s t"
  shows "same_result (div32 c s) (div32 c t)" "same_result (idiv32 c s) (idiv32 c t)"
proof -
  have "same_result (case p of (s, e) \<Rightarrow> if e = Ret0 then (div_flags (setznp32 (getr32 EAX s)) s, Ret0) else (s, e))
      (case q of (s, e) \<Rightarrow> if e = Ret0 then (div_flags (setznp32 (getr32 EAX s)) s, Ret0) else (s, e))"
    if "same_result p q" for p q :: "'a op_result"
    using that by (cases p; cases q) (auto simp: same_result_def same_getr znp_setters same_div_flags intro!: same_div_flags)
  then show "same_result (div32 c s) (div32 c t)" "same_result (idiv32 c s) (idiv32 c t)"
    unfolding div32_def idiv32_def using div_same [OF assms] by blast+
qed

lemma let_int: "Let (i :: int) f = f i"
  by (simp add: Let_def)

lemma same_test_byte [blind]: "same_flags s t \<Longrightarrow> same_value (test_byte B s) (test_byte B t)"
  unfolding test_byte_def cs_def by (intro blind, (assumption | (drule same_flags_eqs, (simp; fail)))+)+

context alu_size begin

lemma unary_same:
  assumes "same_flags s t"
  shows "same_result (opNOT W B v s) (opNOT W B v t)" "same_result (opNEG W B v s) (opNEG W B v t)"
  unfolding opNOT_def opNEG_def by (intro blind blind_W refl assms; assumption)+

lemma opTEST_imm_same:
  assumes "\<And>s t. same_flags s t \<Longrightarrow> same_value (imm s) (imm t)" "same_flags s t"
  shows "same_result (opTEST_imm W imm v s) (opTEST_imm W imm v t)"
  unfolding opTEST_imm_def by (intro blind blind_W refl assms; assumption)

lemma same_group3:
  assumes "same_flags s t" "\<And>s t. same_flags s t \<Longrightarrow> same_value (imm s) (imm t)"
    "\<And>v s t. same_flags s t \<Longrightarrow> same_result (m v s) (m v t)" "\<And>v s t. same_flags s t \<Longrightarrow> same_result (im v s) (im v t)"
    "\<And>v s t. same_flags s t \<Longrightarrow> same_result (d v s) (d v t)" "\<And>v s t. same_flags s t \<Longrightarrow> same_result (dv v s) (dv v t)"
  shows "same_result (group3 W imm m im d dv B r s) (group3 W imm m im d dv B r t)"
  unfolding group3_def Let_def
  by (intro blind blind_W refl assms unary_same opTEST_imm_same; assumption)

lemma same_imul_flags: "same_flags s t \<Longrightarrow> p = q \<Longrightarrow> same_flags (imul_flags TYPE('a) p s) (imul_flags TYPE('a) q t)"
  unfolding imul_flags_def Let_def by (simp add: same_put_CV_both)

lemma opIMUL_reg_blind:
  assumes d: "d \<in> decoders B"
  shows "flag_blind (opIMUL_reg W B d r)"
  unfolding opIMUL_reg_def let_int
  by (rule flag_blindI, intro blind blind_W same_decoder [OF d] same_imul_flags, 
      (assumption | (drule same_flags_eqs, (simp; fail)))+)

lemma opIMUL_imm_blind:
  assumes d: "d \<in> decoders B" and i: "\<And>s t. same_flags s t \<Longrightarrow> same_value (imm s) (imm t)"
  shows "flag_blind (opIMUL_imm W imm B d r)"
  unfolding opIMUL_imm_def Let_def
  by (rule flag_blindI, intro blind blind_W same_decoder [OF d] same_imul_flags i refl, 
      (assumption | (drule same_flags_eqs, (simp; fail)))+)

lemma opXCHG_blind:
  assumes d: "d \<in> decoders B"
  shows "flag_blind (opXCHG W B d r)"
  unfolding opXCHG_def
  by (rule flag_blindI, intro blind blind_W same_decoder [OF d], (assumption | (drule same_flags_eqs, (simp; fail)))+)

lemma opXCHG_regs_blind: "flag_blind (opXCHG_regs W r)"
  unfolding opXCHG_regs_def 
  by (rule flag_blindI, intro blind blind_W refl, (assumption | (drule same_flags_eqs, (simp; fail)))+)

end

lemma group3_sizes:
  assumes "same_flags s t"
  shows "same_result (group3 byte_size (test_byte B) mul8 imul8 div8 idiv8 B r s) (group3 byte_size (test_byte B) mul8 imul8 div8 idiv8 B r t)"
    "same_result (group3 word_size (getword B) mul16 imul16 div16 idiv16 B r s) (group3 word_size (getword B) mul16 imul16 div16 idiv16 B r t)"
    "same_result (group3 long_size (getlong B) mul32 imul32 div32 idiv32 B r s) (group3 long_size (getlong B) mul32 imul32 div32 idiv32 B r t)"
  by (intro byte.same_group3 word.same_group3 long.same_group3 mul_same div_same div32_same blind assms; assumption)+

lemma same_CHECK_READ:
  assumes st: "same_flags s t"
  shows "rel_option same_flags (CHECK_READ g a b s) (CHECK_READ g a b t)"
proof -
  note [simp] = same_flags_fields [OF st]
  have "rel_option same_flags (not_present g s) (not_present g t)"
    unfolding not_present_def protected_mode_def using same_faults [OF st] by simp
  then show ?thesis unfolding CHECK_READ_def protected_mode_def using same_faults(1) [OF st] by simp
qed

lemma same_faultI:
  assumes "rel_option same_flags p q" "same_result a b"
  shows "same_result (case p of Some s \<Rightarrow> (s, e) | None \<Rightarrow> a) (case q of Some s \<Rightarrow> (s, e) | None \<Rightarrow> b)"
  using assms by (cases p; cases q) (simp_all add: same_result_def)

lemma opF6_blind: "flag_blind (opF6_a16 B r)" "flag_blind (opF6_a32 B r)"
proof -
  note group = group3_sizes(1)
  show "flag_blind (opF6_a32 B r)"
    unfolding opF6_a32_def by (rule flag_blindI, intro blind group; assumption)
  have "same_result (case CHECK_READ (ea_seg s) (eaaddr s) (eaaddr s) s of
      Some s' \<Rightarrow> (s', Ret1) | None \<Rightarrow> group3 byte_size (test_byte B) mul8 imul8 div8 idiv8 B r s)
    (case CHECK_READ (ea_seg t) (eaaddr t) (eaaddr t) t of
      Some s' \<Rightarrow> (s', Ret1) | None \<Rightarrow> group3 byte_size (test_byte B) mul8 imul8 div8 idiv8 B r t)"
    if "same_flags s t" for s t :: "'a x86_cpu"
    using same_CHECK_READ [OF that] group [OF that] same_flags_fields [OF that] by (intro same_faultI) simp_all
  then show "flag_blind (opF6_a16 B r)"
    unfolding opF6_a16_def by (intro flag_blindI blind group) (auto dest: same_flags_eqs)
qed

lemma opF7_blind:
  assumes d: "d \<in> decoders B"
  shows "flag_blind (opF7_w B d r)" "flag_blind (opF7_l B d r)"
  unfolding opF7_w_def opF7_l_def
  by (rule flag_blindI, intro blind same_decoder [OF d] group3_sizes; assumption)+

text \<open>Jumps, sets, sign extension, decimal adjustment.\<close>

lemma same_jump_short [blind]: "same_flags s t \<Longrightarrow> x = y \<Longrightarrow> same_result (jump_short x s) (jump_short y t)"
  unfolding jump_short_def
  by (intro blind, (assumption | (drule same_flags_eqs, (simp; fail)))+)

lemma jumps_blind: "flag_blind (opJ c r)" "flag_blind (opJ_w c r)" "flag_blind (opJ_l c B)"
  unfolding opJ_def opJ_w_def opJ_l_def
  by (rule flag_blindI, intro blind refl, (assumption | (drule same_flags_eqs, (simp; fail)))+)+

lemma opSET_blind:
  assumes d: "d \<in> decoders B"
  shows "flag_blind (opSET c B d r)"
  unfolding opSET_def
  by (rule flag_blindI, intro blind same_decoder [OF d]; (assumption | (drule same_cond [of _ _ c], simp)))

lemma same_both: "a = b \<Longrightarrow> p = q \<Longrightarrow> (a \<noteq> 0 \<and> p) = (b \<noteq> 0 \<and> q)"
  by simp

context alu_size begin

lemma op_loop_blind:
  assumes "\<And>s t :: 'm x86_cpu. same_flags s t \<Longrightarrow> p s = p t"
  shows "flag_blind (op_loop W p r)"
  unfolding op_loop_def
  by (rule flag_blindI, intro blind same_both assms blind_W same_plus_1 refl; assumption)

lemma loops_blind: "flag_blind (opLOOPNE W r)" "flag_blind (opLOOPE W r)" "flag_blind (opLOOP W r)"
  unfolding opLOOPNE_def opLOOPE_def opLOOP_def
  by (rule op_loop_blind, simp add: same_view_flags)+

lemma opJCXZ_blind: "flag_blind (opJCXZ W r)"
  unfolding opJCXZ_def
  by (rule flag_blindI, intro blind arg_cong [where f = "\<lambda>w. w = 0"] same_getr_W refl; assumption)

end

lemma extend_same:
  assumes "same_flags s t"
  shows "same_result (opCBW s) (opCBW t)" "same_result (opCWDE s) (opCWDE t)" "same_result (opCWD s) (opCWD t)"
    "same_result (opCDQ s) (opCDQ t)" "same_result (opSETALC s) (opSETALC t)"
  unfolding opCBW_def opCWDE_def opCWD_def opCDQ_def opSETALC_def same_getr [OF assms refl] same_view_flags [OF assms]
  by (intro blind refl assms)+

lemmas extend_blind = extend_same [THEN flag_blindI]

lemmas reg_defs = getr8_def getr16_def getr32_def

lemma exact_let:
  assumes "exact_flags s t"
  shows "(\<And>s t. exact_flags s t \<Longrightarrow> exact_flags (f s) (g t)) \<Longrightarrow> exact_flags (Let s f) (Let t g)"
    "(\<And>s t. exact_flags s t \<Longrightarrow> same_result (k s) (l t)) \<Longrightarrow> same_result (Let s k) (Let t l)"
  using assms by simp_all

lemma exact_let_word:
  fixes a :: "'a::len word"
  shows "a = b \<Longrightarrow> (\<And>b. exact_flags (f b) (g b)) \<Longrightarrow> exact_flags (Let a f) (Let b g)"
    "a = b \<Longrightarrow> (\<And>b. same_result (k b) (l b)) \<Longrightarrow> same_result (Let a k) (Let b l)"
  by simp_all

lemma exact_if: "b = c \<Longrightarrow> exact_flags s t \<Longrightarrow> exact_flags s' t' \<Longrightarrow> exact_flags (if b then s else s') (if c then t else t')"
  by simp

lemma exact_putI: "exact_flags s t \<Longrightarrow> v = w \<Longrightarrow> exact_flags (s\<lparr>flags := v\<rparr>) (t\<lparr>flags := w\<rparr>)"
  by (simp add: exact_put)

lemma exact_setrI:
  "exact_flags s t \<Longrightarrow> v = w \<Longrightarrow> exact_flags (setr8 r v s) (setr8 r w t)"
  "exact_flags s t \<Longrightarrow> v' = w' \<Longrightarrow> exact_flags (setr16 r v' s) (setr16 r w' t)"
  by (simp_all add: exact_setr)

lemma exact_eqs: "exact_flags s t \<Longrightarrow> flags s = flags t \<and> regs s = regs t" for s :: "'m x86_cpu"
  using exact_flags_eq same_flags_fields(1) exact_same by blast

lemma exact_znp: "exact_flags s t \<Longrightarrow> v = w \<Longrightarrow> exact_flags (flags_rebuild (setznp8 v s)) (flags_rebuild (setznp8 w t))"
  for s :: "'m x86_cpu"
  by (simp add: exact_rebuild same_set exact_same)

lemma same_exact_endI: "exact_flags s t \<Longrightarrow> same_result (s, e) (t, e)"
  by (simp add: same_result_def exact_same)

lemmas exact_rules = exact_let exact_let_word exact_if exact_putI exact_setrI exact_znp same_exact_endI

lemma adjusted_same: "exact_flags s t \<Longrightarrow> exact_flags (adjusted_flags s) (adjusted_flags t)"
  unfolding adjusted_flags_def
  by (intro exact_rules; (assumption | ((drule exact_eqs)+, simp add: reg_defs)))

lemma adjust_blind: "flag_blind opAAA" "flag_blind opAAS" "flag_blind opDAA" "flag_blind opDAS"
  unfolding opAAA_def opAAS_def opDAA_def opDAS_def
  by (rule flag_blindI, rule exact_let(2), erule exact_rebuild, (intro exact_rules adjusted_same; (assumption | ((drule exact_eqs)+, simp add: reg_defs))))+

lemma ascii_blind: "flag_blind (opAAD r)" "flag_blind (opAAM r)"
  unfolding opAAD_def opAAM_def
  by (rule flag_blindI, intro blind same_set refl; (assumption | ((drule same_flags_eqs)+, simp add: reg_defs)))+


section \<open>Faults are precise\<close>

lemma keeps_unfaulted: "abrt (fst p) = 0 \<Longrightarrow> keeps s0 p"
  by (simp add: keeps_def)

lemma abrt_put_CV_both [simp]: "abrt (put_CV_both b s) = abrt s"
  by (simp add: put_CV_both_def Let_def)

lemma abrt_div_flags [simp]: "abrt (div8_flags s) = abrt s" 
  "abrt (div_flags (setznp16 v) s) = abrt s" "abrt (div_flags (setznp32 w) s) = abrt s"
  by (simp_all add: div8_flags_def div_flags_def Let_def)

lemma abrt_mul_div:
  "abrt (fst (mul8 a s)) = abrt s" "abrt (fst (imul8 a s)) = abrt s" "abrt (fst (div8 a s)) = abrt s"
  "abrt (fst (idiv8 a s)) = abrt s" "abrt (fst (mul16 b s)) = abrt s" "abrt (fst (imul16 b s)) = abrt s"
  "abrt (fst (div16 b s)) = abrt s" "abrt (fst (idiv16 b s)) = abrt s" "abrt (fst (mul32 c s)) = abrt s"
  "abrt (fst (imul32 c s)) = abrt s" "abrt (fst (divl c s)) = abrt s" "abrt (fst (idivl c s)) = abrt s"
  by (simp_all add: mul8_def imul8_def div8_def idiv8_def mul16_def imul16_def div16_def idiv16_def mul32_def
      imul32_def divl_def idivl_def Let_def)

lemma abrt_div32: "abrt (fst (div32 c s)) = abrt s" "abrt (fst (idiv32 c s)) = abrt s"
  using abrt_mul_div(11,12) [of c s] by (auto simp: div32_def idiv32_def split: prod.split)

lemma view_test_byte [simp]: "same_view s0 (snd (test_byte B s)) = same_view s0 s"
  by (simp add: test_byte_def split_beta)

lemma keeps_faultI: "same_view s0 s \<Longrightarrow> keeps s0 p \<Longrightarrow>
    keeps s0 (case CHECK_READ g a b s of Some s' \<Rightarrow> (s', e) | None \<Rightarrow> p)"
  by (auto simp: CHECK_READ_def not_present_def keeps_def split: option.split if_splits)

context alu_size begin

lemma keeps_group3:
  assumes "ready s0 s" "\<And>s. same_view s0 (snd (imm s)) = same_view s0 s"
    "\<And>v s. abrt (fst (m v s)) = abrt s" "\<And>v s. abrt (fst (im v s)) = abrt s"
    "\<And>v s. abrt (fst (d v s)) = abrt s" "\<And>v s. abrt (fst (dv v s)) = abrt s"
  shows "keeps s0 (group3 W imm m im d dv B r s)"
proof -
  have alu: "keeps s0 (opTEST_imm W imm v t)" "keeps s0 (opNOT W B v t)" "keeps s0 (opNEG W B v t)" if "ready s0 t" for v t
  proof -
    show "keeps s0 (opTEST_imm W imm v t)" unfolding opTEST_imm_def
      by (intro keeps_case_ready keeps_unless keeps_done) (use that assms(2) in \<open>simp_all add: ready_def abrt_set_W\<close>)
    show "keeps s0 (opNOT W B v t)" "keeps s0 (opNEG W B v t)" unfolding opNOT_def opNEG_def
      by (intro keeps_check_mem keeps_stored_W that; simp add: abrt_set_W)+
  qed
  have "keeps s0 (m v t)" "keeps s0 (im v t)" "keeps s0 (d v t)" "keeps s0 (dv v t)" if "ready s0 t" for v t
    using that assms(3-) by (auto simp: ready_def intro: keeps_unfaulted)
  with assms(1) alu show ?thesis
    unfolding group3_def Let_def by (intro keeps_case keeps_unless keeps_if) (simp_all add: ready_def view_getea)
qed

lemma abrt_imul_flags [simp]: "abrt (imul_flags TYPE('b::len) p s) = abrt s"
  by (simp add: imul_flags_def Let_def)

lemma opIMUL_precise:
  assumes d: "d \<in> decoders B" and i: "\<And>s s0. same_view s0 (snd (imm s)) = same_view s0 s"
  shows "precise (opIMUL_imm W imm B d r)" "precise (opIMUL_reg W B d r)"
  unfolding opIMUL_imm_def opIMUL_reg_def Let_def
  by (rule preciseI, intro keeps_decoder [OF d] restart_W; simp add: restart_simps i)+

lemma opXCHG_precise:
  assumes d: "d \<in> decoders B"
  shows "precise (opXCHG W B d r)" "precise (opXCHG_regs W q)"
  unfolding opXCHG_def opXCHG_regs_def Let_def
  by (rule preciseI, intro keeps_decoder [OF d] restart_W; simp add: restart_simps)+

lemma loops_precise: "precise (opLOOPNE W r)" "precise (opLOOPE W r)" "precise (opLOOP W r)" "precise (opJCXZ W r)"
  unfolding opLOOPNE_def opLOOPE_def opLOOP_def op_loop_def opJCXZ_def jump_short_def Let_def split_beta
  by (rule preciseI, intro keeps_unfaulted; simp add: abrt_setr_W)+


end

lemma group3_precise:
  assumes "ready s0 s"
  shows "keeps s0 (group3 byte_size (test_byte B) mul8 imul8 div8 idiv8 B r s)"
    "keeps s0 (group3 word_size (getword B) mul16 imul16 div16 idiv16 B r s)"
    "keeps s0 (group3 long_size (getlong B) mul32 imul32 div32 idiv32 B r s)"
  by (rule byte.keeps_group3 word.keeps_group3 long.keeps_group3; simp add: assms abrt_mul_div abrt_div32)+

lemma opF6_precise: "precise (opF6_a16 B r)" "precise (opF6_a32 B r)"
  unfolding opF6_a16_def opF6_a32_def
  by (rule preciseI, intro restart keeps_check_mem keeps_faultI group3_precise; simp add: ready_def)+

lemma opF7_precise:
  assumes d: "d \<in> decoders B"
  shows "precise (opF7_w B d r)" "precise (opF7_l B d r)"
  unfolding opF7_w_def opF7_l_def
  by (rule preciseI, intro keeps_decoder [OF d] keeps_check_mem group3_precise; simp add: ready_def)+

lemma opSET_precise:
  assumes d: "d \<in> decoders B"
  shows "precise (opSET c B d r)"
  unfolding opSET_def
  by (rule preciseI, intro keeps_decoder [OF d] keeps_check_mem keeps_stored; simp add: ready_def)

lemma jumps_precise: "precise (opJ c r)" "precise (opJ_w c r)" "precise (opJ_l c B)"
  unfolding opJ_def opJ_w_def opJ_l_def jump_short_def Let_def
  by (auto simp: precise_def keeps_def unless_abrt_def split_beta)

lemma abrt_adjusted [simp]: "abrt (adjusted_flags s) = abrt s"
  by (simp add: adjusted_flags_def Let_def)

lemma no_fault_precise:
  "precise opCMC" "precise opCLC" "precise opSTC" "precise opCLD" "precise opSTD" "precise opSAHF" "precise opLAHF"
  "precise opCBW" "precise opCWDE" "precise opCWD" "precise opCDQ" "precise opSETALC" "precise opAAA" "precise opAAS"
  "precise (opAAD r)" "precise (opAAM r)" "precise opDAA" "precise opDAS"
  unfolding opCMC_def opCLC_def opSTC_def opCLD_def opSTD_def opSAHF_def opLAHF_def opCBW_def opCWDE_def opCWD_def
    opCDQ_def opSETALC_def opAAA_def opAAS_def opAAD_def opAAM_def opDAA_def opDAS_def
  by (rule preciseI, intro keeps_unfaulted; simp add: Let_def split_beta)+

end
