(* ===== verification/X86_Dispatch_Spec.thy ===== *)
theory X86_Dispatch_Spec
  imports X86_Dispatch X86_Integer_Spec
begin

text \<open>
  Properties of whole instructions and of sequences of instructions: an execution does not depend on
  how the flags are kept, so that it is the execution of a processor that writes \<open>flags\<close> after every
  instruction; a fault leaves registers and flags alone.
\<close>

section \<open>Every entry of the tables\<close>

lemma imm_same:
  "same_flags s t \<Longrightarrow> same_value (imm_ib_w B s) (imm_ib_w B t)"
  "same_flags s t \<Longrightarrow> same_value (imm_ib_l B s) (imm_ib_l B t)"
  unfolding imm_ib_w_def imm_ib_l_def Let_def by (intro blind refl; assumption)+

lemma view_imm [simp]: "same_view s0 (snd (imm_ib_w B s)) = same_view s0 s" "same_view s0 (snd (imm_ib_l B s)) = same_view s0 s"
  by (simp_all add: imm_ib_w_def imm_ib_l_def split_beta Let_def)

definition good :: "'m handler \<Rightarrow> bool" where
  "good h \<longleftrightarrow> (\<forall>r. flag_blind (h r) \<and> precise (h r))"

lemma goodI: "(\<And>r. flag_blind (h r)) \<Longrightarrow> (\<And>r. precise (h r)) \<Longrightarrow> good h"
  by (simp add: good_def)

lemma good_if: "good f \<Longrightarrow> good g \<Longrightarrow> good (if b then f else g)" "good (\<lambda>_. h) \<Longrightarrow> good (\<lambda>_. k) \<Longrightarrow> good (\<lambda>_. if b then h else k)"
  by simp_all

named_theorems good_handlers

context alu_size begin

lemma good_W:
  assumes "d \<in> decoders B"
  shows "good (op_rmw W B d op)" "good (op_rm W B d op)" "good (opCMP_rmw W B d)" "good (opCMP_rm W B d)" "good (opTEST W B d)"
    "good (opXCHG W B d)" "good (opIMUL_reg W B d)"
    "(\<And>s t. same_flags s t \<Longrightarrow> same_value (imm s) (imm t)) \<Longrightarrow> (\<And>s s0. same_view s0 (snd (imm s)) = same_view s0 s) \<Longrightarrow>
      good (opIMUL_imm W imm B d)"
  using assms opIMUL_precise(2) [where imm = "\<lambda>s. (0, s)", OF assms]
  by (auto intro!: goodI op_rmw_blind op_rm_blind opCMP_rmw_blind opCMP_rm_blind opTEST_blind opXCHG_blind opIMUL_reg_blind
      opIMUL_imm_blind op_rmw_precise op_rm_precise opCMP_rmw_precise opCMP_rm_precise opTEST_precise
      opXCHG_precise(1) opIMUL_precise(1))

lemma good_regs:
  "good (\<lambda>_. opINC W r)" "good (\<lambda>_. opDEC W r)" "good (\<lambda>_. opXCHG_regs W r)"
  "good (opLOOPNE W)" "good (opLOOPE W)" "good (opLOOP W)" "good (opJCXZ W)"
  using opXCHG_precise(2) [of "fetch_ea_16 undefined" undefined]
  by (auto intro!: goodI inc_blind inc_precise opXCHG_regs_blind loops_blind loops_precise opJCXZ_blind simp: decoders_def)

end

lemmas good_sizes = byte.good_W word.good_W long.good_W byte.good_regs word.good_regs long.good_regs

context shift_size begin

lemma good_shifts:
  assumes "d \<in> decoders B"
  shows "good (op_shift_imm W S B d)" "good (op_shift_1 W S B d)" "good (op_shift_CL W S B d)"
  using assms by (auto intro!: goodI op_shift_imm_blind op_shift_1_blind op_shift_CL_blind shift_precise)

end

lemmas good_shift_sizes = byte_shift.good_shifts word_shift.good_shifts long_shift.good_shifts

lemma good_immediates:
  "good (op_AL_imm op)" "good (op_AX_imm op)" "good (\<lambda>_. op_EAX_imm B op)" "good opCMP_AL_imm" "good opCMP_AX_imm"
  "good (\<lambda>_. opCMP_EAX_imm B)" "good opTEST_AL" "good opTEST_AX" "good (\<lambda>_. opTEST_EAX B)" "good opAAM" "good opAAD"
  by (auto intro!: goodI imm_blind imm_precise ascii_blind no_fault_precise)

lemma good_groups:
  assumes "d \<in> decoders B"
  shows "good (op80 B d)" "good (op81_w B d)" "good (op81_l B d)" "good (op83_w B d)" "good (op83_l B d)"
    "good (opINCDEC_b B d)" "good (opF7_w B d)" "good (opF7_l B d)" "good (opSET c B d)"
    "good (opF6_a16 B)" "good (opF6_a32 B)"
  using assms
  by (auto intro!: goodI op80_blind op81_w_blind op81_l_blind op83_w_blind op83_l_blind opINCDEC_b_blind opF7_blind opSET_blind
      opF6_blind op80_precise op81_w_precise op81_l_precise op83_w_precise op83_l_precise opINCDEC_b_precise opF7_precise
      opSET_precise opF6_precise)

lemma good_double_shifts:
  assumes "d \<in> decoders B"
  shows "good (opSHxD_i SHLD_w B d)" "good (opSHxD_i SHLD_l B d)" "good (opSHxD_i SHRD_w B d)" "good (opSHxD_i SHRD_l B d)"
    "good (opSHxD_CL SHLD_w B d)" "good (opSHxD_CL SHLD_l B d)" "good (opSHxD_CL SHRD_w B d)" "good (opSHxD_CL SHRD_l B d)"
  using assms
  by (auto intro!: goodI opSHxD_i_blind opSHxD_CL_blind opSHxD_i_precise opSHxD_CL_precise simp: double_shifts_def)

lemma good_jumps: "good (opJ c)" "good (opJ_w c)" "good (\<lambda>_. opJ_l c B)"
  by (auto intro!: goodI jumps_blind jumps_precise)

lemma good_plain:
  "good (\<lambda>_. opCMC)" "good (\<lambda>_. opCLC)" "good (\<lambda>_. opSTC)" "good (\<lambda>_. opCLD)" "good (\<lambda>_. opSTD)" "good (\<lambda>_. opSAHF)"
  "good (\<lambda>_. opLAHF)" "good (\<lambda>_. opCBW)" "good (\<lambda>_. opCWDE)" "good (\<lambda>_. opCWD)" "good (\<lambda>_. opCDQ)" "good (\<lambda>_. opSETALC)"
  "good (\<lambda>_. opAAA)" "good (\<lambda>_. opAAS)" "good (\<lambda>_. opDAA)" "good (\<lambda>_. opDAS)"
  by (auto intro!: goodI flag_handlers_blind extend_blind adjust_blind no_fault_precise)

lemmas good_all = good_sizes good_shift_sizes good_immediates good_groups good_double_shifts good_jumps good_plain

lemma decoder_mem: "(if b then fetch_ea_32 B else fetch_ea_16 B) \<in> decoders B"
  by (simp add: decoders_def)

lemma good_arith_row: "d \<in> decoders B \<Longrightarrow> good (arith_row B x d op f)" "d \<in> decoders B \<Longrightarrow> good (cmp_row B x d f)"
  unfolding arith_row_def cmp_row_def by (simp_all add: good_all)

lemma good_ops_386: "ops_386 B x y op = Some h \<Longrightarrow> good h"
  unfolding ops_386_def Let_def using decoder_mem [of y B]
  by (auto simp: good_all good_arith_row imm_same same_getbyte view_imm split: if_splits)

lemma good_ops_386_0f: "ops_386_0f B x y op = Some h \<Longrightarrow> good h"
  unfolding ops_386_0f_def Let_def using decoder_mem [of y B]
  by (auto simp: good_all split: if_splits)

section \<open>Instructions\<close>

lemma goodD:
  "good h \<Longrightarrow> same_flags s t \<Longrightarrow> same_result (h r s) (h r t)" "good h \<Longrightarrow> abrt s = 0 \<Longrightarrow> keeps s (h r s)"
  by (simp_all add: good_def flag_blind_def precise_def)

lemma same_T_FLAG: "same_flags s t \<Longrightarrow> (flags s AND T_FLAG \<noteq> 0) = (flags t AND T_FLAG \<noteq> 0)"
proof -
  have "w AND T_FLAG = (w AND NOT 0x8d5) AND T_FLAG" for w :: u16 by (simp add: and.assoc)
  moreover assume "same_flags s t"
  ultimately show ?thesis unfolding same_flags_def sys_flags_def by metis
qed

lemma same_fastread_fetch [blind]:
  assumes "same_flags s t"
  shows "same_value (fastreadw_fetch B a s) (fastreadw_fetch B a t)" "same_value (fastreadl_fetch B a s) (fastreadl_fetch B a t)"
proof -
  have w: "same_value (fastreadw_fetch B a s) (fastreadw_fetch B a t)" if "same_flags s t" for s t :: "'a x86_cpu"
    unfolding fastreadw_fetch_def
    by (intro blind refl that; (assumption | insert that, (drule same_flags_eqs)+, simp))
  show "same_value (fastreadw_fetch B a s) (fastreadw_fetch B a t)" by (rule w [OF assms])
  show "same_value (fastreadl_fetch B a s) (fastreadl_fetch B a t)"
    unfolding fastreadl_fetch_def
    by (intro blind refl assms w; (assumption | insert assms, (drule same_flags_eqs)+, simp))
qed

lemma same_CHECK_READ_CS [blind]:
  assumes "same_flags s t"
  shows "same_flags (CHECK_READ_CS n s) (CHECK_READ_CS n t)"
  unfolding CHECK_READ_CS_def protected_mode_def
  using same_faults [OF assms] assms same_flags_fields [OF assms] by simp

lemma same_wrap_pc: "same_flags s t \<Longrightarrow> same_flags (wrap_pc s) (wrap_pc t)"
  unfolding wrap_pc_def by (intro blind; (assumption | drule same_flags_eqs, simp))

lemma same_map_wrap:
  "rel_option same_result p q \<Longrightarrow> rel_option same_result
     (case p of None \<Rightarrow> None | Some (s, e) \<Rightarrow> Some (wrap_pc s, e)) (case q of None \<Rightarrow> None | Some (s, e) \<Rightarrow> Some (wrap_pc s, e))"
  by (cases p; cases q; auto simp: same_result_def same_wrap_pc)

lemma same_dispatch:
  assumes "same_flags s t"
  shows "rel_option same_result (dispatch B f s) (dispatch B f t)"
proof -
  define s' t' where d: "s' = s\<lparr>trap := trap s OR (if flags s AND T_FLAG \<noteq> 0 then 1 else 0)\<rparr>"
    "t' = t\<lparr>trap := trap t OR (if flags t AND T_FLAG \<noteq> 0 then 1 else 0)\<rparr>"
  define s1 t1 where e: "s1 = s'\<lparr>pc := pc s' + 1\<rparr>" "t1 = t'\<lparr>pc := pc t' + 1\<rparr>"
  have "same_flags s' t'" unfolding d using assms same_flags_fields [OF assms] same_T_FLAG [OF assms] by simp
  from same_flags_fields(5) [OF this] this have st: "same_flags s1 t1" unfolding e by simp
  then have pc: "same_flags (s1\<lparr>pc := pc s1 + 1\<rparr>) (t1\<lparr>pc := pc t1 + 1\<rparr>)"
    using same_flags_fields(5) [OF st] by simp
  have o: "op32 s1 = op32 t1" by (rule same_flags_fields [OF st])
  have p: "rel_option same_result (case q of None \<Rightarrow> None | Some h \<Rightarrow> Some (h r x)) (case q of None \<Rightarrow> None | Some h \<Rightarrow> Some (h r y))"
    if "same_flags x y" "\<And>h. q = Some h \<Longrightarrow> good h" for q and r :: u32 and x y :: "'a x86_cpu"
    using that by (cases q) (auto intro!: goodD)
  show ?thesis
    unfolding dispatch_def Let_def op0F_def d [symmetric] e [symmetric] o
    by (auto intro!: p st pc dest: good_ops_386 good_ops_386_0f)
qed

lemma same_exec_step:
  assumes "same_flags s t"
  shows "rel_option same_result (exec_step B s) (exec_step B t)"
proof -
  define s0 t0 where d: "s0 = s\<lparr>oldpc := pc s, op32 := use32 s, ea_seg := DS, ssegs := 0\<rparr>"
    "t0 = t\<lparr>oldpc := pc t, op32 := use32 t, ea_seg := DS, ssegs := 0\<rparr>"
  have 0: "same_flags s0 t0" unfolding d using assms same_flags_fields [OF assms] by simp
  have a: "cs s0 + pc s0 = cs t0 + pc t0" using same_flags_fields [OF 0] by (simp add: cs_def)
  obtain f s1 t1 where 1: "fastreadl_fetch B (cs s0 + pc s0) s0 = (f, s1)" "fastreadl_fetch B (cs t0 + pc t0) t0 = (f, t1)"
    and 11: "same_flags s1 t1"
    using same_fastread_fetch(2) [OF 0, of B "cs s0 + pc s0"] unfolding a same_value_def
    by (metis prod.collapse)
  define n where "n = min (opcode_bytes f) (if cpu_16bitbus s1 then 2 else 4)"
  have n: "min (opcode_bytes f) (if cpu_16bitbus t1 then 2 else 4) = n"
    using same_flags_fields [OF 11] by (simp add: n_def)
  define s2 t2 where e: "s2 = CHECK_READ_CS (of_nat n) s1" "t2 = CHECK_READ_CS (of_nat n) t1"
  have 2: "same_flags s2 t2" unfolding e by (rule same_CHECK_READ_CS [OF 11])
  then have "abrt s2 = abrt t2" by (rule same_flags_fields)
  then show ?thesis
    unfolding exec_step_def Let_def d [symmetric] 1 prod.case n n_def [symmetric] e [symmetric]
    using same_map_wrap [OF same_dispatch [OF 2]] same_wrap_pc [OF 2] by (simp add: same_result_def)
qed


section \<open>Executions\<close>

text \<open>The reference: the same processor, which writes \<open>flags\<close> after every instruction.\<close>

fun eager_run :: "'m cpu_bus \<Rightarrow> nat \<Rightarrow> 'm x86_cpu \<Rightarrow> 'm x86_cpu option" where
  "eager_run B 0 s = Some s"
| "eager_run B (Suc n) s = (case exec_step B s of None \<Rightarrow> None
     | Some (s, e) \<Rightarrow> if abrt s = 0 \<and> e \<in> {Ret0, Ret1} then eager_run B n (flags_rebuild s) else Some (flags_rebuild s))"

definition in_step :: "'m x86_cpu \<Rightarrow> 'm x86_cpu \<Rightarrow> bool" where
  "in_step s t \<longleftrightarrow> same_flags s t \<and> flags_op t = FLAGS_UNKNOWN"

lemma in_step_rebuild: "same_flags s t \<Longrightarrow> in_step s (flags_rebuild t)"
  using same_flags_trans [OF _ same_flags_sym [OF same_rebuild]] by (auto simp: in_step_def flags_op_rebuild)

lemma in_step_eq:
  assumes "in_step s t"
  shows "flags (flags_rebuild s) = flags t" "x86_flags.more s = x86_flags.more t"
proof -
  have "flags (flags_rebuild s) = flags (flags_rebuild t)" using assms by (auto simp: in_step_def exact_flagsD)
  also have "flags_rebuild t = t" using assms by (simp add: in_step_def flags_rebuild_def)
  finally show "flags (flags_rebuild s) = flags t" .
  show "x86_flags.more s = x86_flags.more t" using assms by (simp add: in_step_def same_flags_def)
qed

lemma run_in_step: "in_step s t \<Longrightarrow> rel_option in_step (run B n s) (eager_run B n t)"
proof (induction n arbitrary: s t)
  case (Suc n)
  from Suc.prems have "same_flags s t" by (simp add: in_step_def)
  from same_exec_step [OF this, of B] show ?case
  proof cases
    case None
    then show ?thesis by simp
  next
    case (Some p q)
    then obtain s' t' e where *: "p = (s', e)" "q = (t', e)" "same_flags s' t'"
      by (cases p; cases q) (auto simp: same_result_def)
    show ?thesis
      using Some Suc.IH [OF in_step_rebuild [OF *(3)]] in_step_rebuild [OF *(3)] same_flags_fields(10) [OF *(3)]
      unfolding * by auto
  qed
qed simp

lemma view_fetch [simp]: "same_view s0 (snd (fastreadw_fetch B a s)) = same_view s0 s"
  "same_view s0 (snd (fastreadl_fetch B a s)) = same_view s0 s"
proof -
  show w: "same_view s0 (snd (fastreadw_fetch B a s)) = same_view s0 s" for s
    unfolding fastreadw_fetch_def by (simp add: split_beta)
  show "same_view s0 (snd (fastreadl_fetch B a s)) = same_view s0 s"
    unfolding fastreadl_fetch_def by (simp add: split_beta w)
qed

lemma view_check_cs [simp]: "same_view s0 (CHECK_READ_CS n s) = same_view s0 s"
  by (simp add: CHECK_READ_CS_def)

lemma view_wrap_pc [simp]: "same_view s0 (wrap_pc s) = same_view s0 s" "abrt (wrap_pc s) = abrt s"
  by (simp_all add: wrap_pc_def)

lemma same_view_trans: "same_view s t \<Longrightarrow> same_view t u \<Longrightarrow> same_view s u"
  by (simp add: same_view_def)

lemma keeps_dispatch:
  assumes "abrt s = 0" "dispatch B f s = Some p"
  shows "keeps s p"
proof -
  define s' where "s' = s\<lparr>trap := trap s OR (if flags s AND T_FLAG \<noteq> 0 then 1 else 0)\<rparr>"
  have v: "same_view s (s'\<lparr>pc := v\<rparr>)" "abrt (s'\<lparr>pc := v\<rparr>) = 0" for v
    using assms(1) same_view_refl [of s] by (simp_all add: s'_def)
  have k: "keeps s (h r (s'\<lparr>pc := v\<rparr>))" if "good h" for h r v
    using goodD(2) [OF that v(2) [of v], of r] same_view_trans [OF v(1) [of v]] by (auto simp: keeps_def)
  show ?thesis
    using assms(2) unfolding dispatch_def Let_def op0F_def s'_def [symmetric]
    by (auto split: if_splits option.splits dest!: good_ops_386 good_ops_386_0f intro: k)
qed

lemma exec_step_keeps:
  assumes "exec_step B s = Some (s', e)" "abrt s' \<noteq> 0"
  shows "same_view (s\<lparr>oldpc := pc s\<rparr>) s'"
proof -
  define s0 where "s0 = s\<lparr>oldpc := pc s, op32 := use32 s, ea_seg := DS, ssegs := 0\<rparr>"
  have 0: "same_view (s\<lparr>oldpc := pc s\<rparr>) s0" unfolding s0_def by simp
  obtain f s1 where 1: "fastreadl_fetch B (cs s0 + pc s0) s0 = (f, s1)" by fastforce
  have "same_view s0 s1" using view_fetch(2) [of s0 B "cs s0 + pc s0" s0] unfolding 1 by simp
  then have 2: "same_view s0 (CHECK_READ_CS n s1)" for n by simp
  have "same_view s0 s'"
    using assms 2 unfolding exec_step_def Let_def s0_def [symmetric] 1 prod.case
    by (auto split: if_splits option.splits dest!: keeps_dispatch [rotated] simp: keeps_def intro: same_view_trans [OF 2])
  with 0 show ?thesis by (rule same_view_trans)
qed

lemma view_flags: "same_view s t \<Longrightarrow> flags (flags_rebuild s) = flags (flags_rebuild t)"
  by (rule flags_of_view) (simp_all add: same_view_def flags_op_rebuild arch_rebuild)

end
