(* ===== verification/X86_Programs.thy ===== *)
theory X86_Programs
  imports X86_Dispatch_Spec
begin

text \<open>
  What instructions compute: results and flags of the arithmetic and of comparisons against the
  reference over words of any length, division against numbers, rotations through carry undone,
  addition of packed decimals by \<open>ADD\<close> and \<open>DAA\<close>, and the properties of executions.
\<close>

section \<open>Arithmetic\<close>

fun arith_value :: "arith \<Rightarrow> 'a::len word \<Rightarrow> 'a word \<Rightarrow> bool \<Rightarrow> 'a word" where
  "arith_value op_ADD a b c = a + b"
| "arith_value op_ADC a b c = a + b + of_bool c"
| "arith_value op_SUB a b c = a - b"
| "arith_value op_SBB a b c = a - b - of_bool c"
| "arith_value op_AND a b c = a AND b"
| "arith_value op_OR a b c = a OR b"
| "arith_value op_XOR a b c = a XOR b"
| "arith_value op_CMP a b c = a"

fun arith_flags :: "arith \<Rightarrow> 'a::len word \<Rightarrow> 'a word \<Rightarrow> bool \<Rightarrow> arch_flags" where
  "arith_flags op_ADD a b c = add_flags a b False"
| "arith_flags op_ADC a b c = add_flags a b c"
| "arith_flags op_SUB a b c = sub_flags a b False"
| "arith_flags op_SBB a b c = sub_flags a b c"
| "arith_flags op_CMP a b c = sub_flags a b False"
| "arith_flags op a b c = logic_flags (arith_value op a b c)"

text \<open>
  The outcome of an operation on register \<open>d\<close>: the result, the flags, and nothing else. In the build
  with the new recompiler ADC loses the half carry of \<open>adc_lost_half\<close>.
\<close>

definition performs :: "('a::len word, 'm) op_size \<Rightarrow> arith \<Rightarrow> nat \<Rightarrow> 'a word \<Rightarrow> 'm x86_cpu \<Rightarrow> 'm op_result \<Rightarrow> bool" where
  "performs W op d src s res \<longleftrightarrow> (let dst = getr W d s; c = CF_SET s; f = arith_flags op dst src c; s' = fst res in
     snd res = Ret0 \<and> abrt s' = abrt s \<and> regs s' = regs (setr W d (arith_value op dst src c) s) \<and> getr W d s' = arith_value op dst src c
     \<and> arch s' = f\<lparr>af := af f \<and> \<not> (op = op_ADC \<and> use_new_dynarec s \<and> adc_lost_half src c)\<rparr>
     \<and> sys_flags s' = sys_flags s)"

lemma modrm_fields:
  "cpu_rm (decode_modrm r s) = unat (r AND 7)" "cpu_reg (decode_modrm r s) = unat (drop_bit 3 r AND 7)"
  "cpu_mod (decode_modrm r s) = unat (drop_bit 6 r AND 3)" "regs (decode_modrm r s) = regs s"
  "arch (decode_modrm r s) = arch s" "sys_flags (decode_modrm r s) = sys_flags s"
  "tempc (decode_modrm r s) = tempc s" "use_new_dynarec (decode_modrm r s) = use_new_dynarec s"
  by (simp_all add: decode_modrm_def)

lemma three_bits: "unat (w AND 7 :: u32) < 8"
  using word_and_le1 [of w 7] by (simp add: word_le_nat_alt)

lemma tempc_carry: "tempc (load_tempc op s) = (if gettempc op then of_bool (CF_SET s) else tempc s)"
  by (simp add: load_tempc_def)

lemma load_tempc_fields [simp]: "regs (load_tempc op s) = regs s" "arch (load_tempc op s) = arch s"
  "sys_flags (load_tempc op s) = sys_flags s" "use_new_dynarec (load_tempc op s) = use_new_dynarec s"
  by (simp_all add: load_tempc_def)

lemma operation_value: "gettempc op \<longrightarrow> x = of_bool c \<Longrightarrow> operation op a b x = arith_value op a b c"
  by (cases op) (auto simp: gettempc_def)

lemma decode_register:
  assumes "d \<in> decoders B" "drop_bit 6 r AND 3 = (3 :: u32)" "abrt s = 0"
  shows "d r s k = k (decode_modrm r s)"
  using assms modrm_fields(3) [of r s] by (auto simp: decoders_def fetch_ea_16_def fetch_ea_32_def unless_abrt_def Let_def)

context alu_size begin

lemma arch_setflags:
  assumes "gettempc op \<longrightarrow> tempc (s :: 'm x86_cpu) = of_bool c"
  shows "arch (setflags W op a b s) = (let f = arith_flags op a b c in
    f\<lparr>af := af f \<and> \<not> (op = op_ADC \<and> use_new_dynarec s \<and> adc_lost_half b c)\<rparr>)"
  using assms
  by (cases op) (simp_all add: gettempc_def arch_add_W arch_sub_W arch_adc_W arch_sbc_W arch_znp_W Let_def)

lemma setflags_frame:
  "regs (setflags W op a b s) = regs s" "sys_flags (setflags W op a b s) = sys_flags s" "tempc (setflags W op a b s) = tempc s"
  "cpu_rm (setflags W op a b s) = cpu_rm s" "cpu_reg (setflags W op a b s) = cpu_reg s"
  by (cases op; simp add: setters_W [THEN flag_setterD(5)] setters_W [THEN flag_setterD(4)] setters_W [THEN flag_setterD(3)]
      setters_W [THEN flag_setterD(7)] setters_W [THEN flag_setterD(8)])+

text \<open>The common end of the handlers on registers.\<close>

lemma performs_reg:
  fixes s :: "'m x86_cpu"
  assumes "q < 8" "gettempc op \<longrightarrow> tempc t = of_bool (CF_SET s)" "regs t = regs s" "sys_flags t = sys_flags s"
    "use_new_dynarec t = use_new_dynarec s" "abrt t = abrt s"
  shows "performs W op q src s (setr W q (operation op (getr W q s) src (tempc t)) (setflags W op (getr W q s) src t), Ret0)"
proof -
  have v: "operation op (getr W q s) src (tempc t) = arith_value op (getr W q s) src (CF_SET s)"
    using assms(2) by (rule operation_value)
  have "regs (setflags W op (getr W q s) src t) = regs s" by (simp add: setflags_frame assms(3))
  from regs_setr [OF this] show ?thesis
    unfolding performs_def v
    by (simp add: arch_setr_W getr_setr abrt_setr_W abrt_setflags assms sys_setr_W setflags_frame
        arch_setflags [OF assms(2)] Let_def)
qed

lemma op_rmw_register:
  fixes s :: "'m x86_cpu"
  assumes d: "d \<in> decoders B" "drop_bit 6 r AND 3 = 3" "abrt s = 0"
  shows "performs W op (unat (r AND 7)) (getr W (unat (drop_bit 3 r AND 7)) s) s (op_rmw W B d op r s)"
proof -
  let ?s = "decode_modrm r (load_tempc op s)"
  have g: "getr W q ?s = getr W q s" for q by (rule getr_regs) (simp add: modrm_fields)
  have m: "cpu_mod ?s = 3" using assms(2) by (simp add: modrm_fields)
  have "op_rmw W B d op r s = (setr W (unat (r AND 7)) (operation op (getr W (unat (r AND 7)) s) (getr W (unat (drop_bit 3 r AND 7)) s) (tempc ?s))
      (setflags W op (getr W (unat (r AND 7)) s) (getr W (unat (drop_bit 3 r AND 7)) s) ?s), Ret0)"
    unfolding op_rmw_def using d
    by (subst decode_register [OF d(1,2)])
      (simp_all add: m Let_def g [unfolded modrm_fields] modrm_fields setflags_frame)
  also have "performs W op (unat (r AND 7)) (getr W (unat (drop_bit 3 r AND 7)) s) s \<dots>"
    by (rule performs_reg) (simp_all add: three_bits modrm_fields tempc_carry)
  finally show ?thesis .
qed

lemma op_rm_register:
  fixes s :: "'m x86_cpu"
  assumes d: "d \<in> decoders B" "drop_bit 6 r AND 3 = 3" "abrt s = 0"
  shows "performs W op (unat (drop_bit 3 r AND 7)) (getr W (unat (r AND 7)) s) s (op_rm W B d op r s)"
proof -
  let ?s = "decode_modrm r (load_tempc op s)"
  have g: "getr W q ?s = getr W q s" for q by (rule getr_regs) (simp add: modrm_fields)
  have m: "cpu_mod ?s = 3" using assms(2) by (simp add: modrm_fields)
  have "op_rm W B d op r s = (setr W (unat (drop_bit 3 r AND 7)) (operation op (getr W (unat (drop_bit 3 r AND 7)) s) (getr W (unat (r AND 7)) s) (tempc ?s))
      (setflags W op (getr W (unat (drop_bit 3 r AND 7)) s) (getr W (unat (r AND 7)) s) ?s), Ret0)"
    unfolding op_rm_def using d
    by (subst decode_register [OF d(1,2)])
      (simp_all add: m check_read_mem_def unless_abrt_def getea_reg Let_def g [unfolded modrm_fields] modrm_fields setflags_frame)
  also have "performs W op (unat (drop_bit 3 r AND 7)) (getr W (unat (r AND 7)) s) s \<dots>"
    by (rule performs_reg) (simp_all add: three_bits modrm_fields tempc_carry)
  finally show ?thesis .
qed

end

section \<open>Comparisons\<close>

text \<open>What a condition says of two words that were compared.\<close>

fun relates :: "condition \<Rightarrow> 'a::len word \<Rightarrow> 'a word \<Rightarrow> bool" where
  "relates c_B a b \<longleftrightarrow> a < b"
| "relates c_NB a b \<longleftrightarrow> b \<le> a"
| "relates c_E a b \<longleftrightarrow> a = b"
| "relates c_NE a b \<longleftrightarrow> a \<noteq> b"
| "relates c_BE a b \<longleftrightarrow> a \<le> b"
| "relates c_NBE a b \<longleftrightarrow> b < a"
| "relates c_L a b \<longleftrightarrow> a <s b"
| "relates c_NL a b \<longleftrightarrow> b \<le>s a"
| "relates c_LE a b \<longleftrightarrow> a \<le>s b"
| "relates c_NLE a b \<longleftrightarrow> b <s a"
| "relates c_S a b \<longleftrightarrow> sint (a - b) < 0"
| "relates c_NS a b \<longleftrightarrow> 0 \<le> sint (a - b)"
| "relates c_O a b \<longleftrightarrow> sint (a - b) \<noteq> sint a - sint b"
| "relates c_NO a b \<longleftrightarrow> sint (a - b) = sint a - sint b"
| "relates c_P a b \<longleftrightarrow> even_parity (a - b)"
| "relates c_NP a b \<longleftrightarrow> \<not> even_parity (a - b)"

lemma signed_less_flags:
  fixes a b :: "'a::len word"
  shows "(sint (a - b) < 0) \<noteq> (sint (a - b) \<noteq> sint a - sint b) \<longleftrightarrow> sint a < sint b"
  using unat_difference [of a b False] unat_bound [of a] unat_bound [of b] unat_bound [of "a - b"]
  unfolding sint_unat Let_def by (auto simp del: of_nat_unat split: if_splits)

lemma cond_of_sub:
  assumes "arch s = sub_flags a b False"
  shows "cond c s = relates c a (b :: 'a::len word)"
proof -
  have "CF_SET s \<longleftrightarrow> unat a < unat b" "ZF_SET s \<longleftrightarrow> a - b = 0" "NF_SET s \<longleftrightarrow> sint (a - b) < 0"
    "VF_SET s \<longleftrightarrow> sint (a - b) \<noteq> sint a - sint b" "PF_SET s \<longleftrightarrow> even_parity (a - b)"
    using assms unfolding arch_def sub_flags_def Let_def by simp_all
  moreover have "(NF_SET s \<noteq> VF_SET s) \<longleftrightarrow> sint a < sint b" using signed_less_flags [of a b] calculation by simp
  moreover have "a < b \<longleftrightarrow> unat a < unat b" "b \<le> a \<longleftrightarrow> \<not> unat a < unat b" "a \<le> b \<longleftrightarrow> unat a < unat b \<or> a = b"
    "b < a \<longleftrightarrow> \<not> unat a < unat b \<and> a \<noteq> b"
    by (auto simp: word_less_nat_alt word_le_nat_alt nat_less_le dest: word_unat_eq_iff [THEN iffD2])
  moreover have i: "sint a = sint b \<longleftrightarrow> a = b" by (auto intro: signed_word_eqI)
  moreover have "a <s b \<longleftrightarrow> sint a < sint b" "b \<le>s a \<longleftrightarrow> \<not> sint a < sint b" "a \<le>s b \<longleftrightarrow> sint a < sint b \<or> a = b"
    "b <s a \<longleftrightarrow> \<not> sint a < sint b \<and> a \<noteq> b"
    unfolding word_sless_alt word_sle_eq i [symmetric] by linarith+
  ultimately show ?thesis by (cases c) (auto simp: not_less)
qed

context alu_size begin

lemma compare_registers:
  fixes s :: "'m x86_cpu"
  assumes "d \<in> decoders B" "drop_bit 6 r AND 3 = 3" "abrt s = 0"
  shows "cond c (fst (opCMP_rmw W B d r s)) = relates c (getr W (unat (r AND 7)) s) (getr W (unat (drop_bit 3 r AND 7)) s)"
proof (rule cond_of_sub)
  let ?s = "decode_modrm r s"
  have g: "getr W q ?s = getr W q s" for q by (rule getr_regs) (simp add: modrm_fields)
  have "cpu_mod ?s = 3" using assms(2) by (simp add: modrm_fields)
  then have "opCMP_rmw W B d r s = (set_sub W (getr W (unat (r AND 7)) s) (getr W (unat (drop_bit 3 r AND 7)) s) ?s, Ret0)"
    unfolding opCMP_rmw_def using assms(3)
    by (subst decode_register [OF assms(1,2)])
      (simp_all add: check_read_mem_def unless_abrt_def getea_reg Let_def g [unfolded modrm_fields] modrm_fields)
  then show "arch (fst (opCMP_rmw W B d r s)) = sub_flags (getr W (unat (r AND 7)) s) (getr W (unat (drop_bit 3 r AND 7)) s) False"
    by (simp add: arch_sub_W)
qed

lemma compare_registers_rm:
  fixes s :: "'m x86_cpu"
  assumes "d \<in> decoders B" "drop_bit 6 r AND 3 = 3" "abrt s = 0"
  shows "cond c (fst (opCMP_rm W B d r s)) = relates c (getr W (unat (drop_bit 3 r AND 7)) s) (getr W (unat (r AND 7)) s)"
proof (rule cond_of_sub)
  let ?s = "decode_modrm r s"
  have g: "getr W q ?s = getr W q s" for q by (rule getr_regs) (simp add: modrm_fields)
  have "cpu_mod ?s = 3" using assms(2) by (simp add: modrm_fields)
  then have "opCMP_rm W B d r s = (set_sub W (getr W (unat (drop_bit 3 r AND 7)) s) (getr W (unat (r AND 7)) s) ?s, Ret0)"
    unfolding opCMP_rm_def using assms(3)
    by (subst decode_register [OF assms(1,2)])
      (simp_all add: check_read_mem_def unless_abrt_def getea_reg Let_def g [unfolded modrm_fields] modrm_fields)
  then show "arch (fst (opCMP_rm W B d r s)) = sub_flags (getr W (unat (drop_bit 3 r AND 7)) s) (getr W (unat (r AND 7)) s) False"
    by (simp add: arch_sub_W)
qed

end

section \<open>Rotation through carry\<close>

lemma CF_arch: "arch s = arch t \<Longrightarrow> CF_SET s = CF_SET t"
  by (simp add: arch_def)

lemma rotate_frame:
  "regs (rcl_setflags c a s) = regs s" "regs (rcr_setflags c a s) = regs s"
  "cpu_rm (rcl_setflags c a s) = cpu_rm s" "cpu_mod (rcl_setflags c a s) = cpu_mod s" for s :: "'m x86_cpu"
  by (rule more_fields, simp)+

lemma rebuilt_CF: "flags (flags_rebuild s) AND C_FLAG \<noteq> 0 \<longleftrightarrow> CF_SET s"
proof -
  have "CF_SET (flags_rebuild s) = CF_SET s" by (rule CF_arch) (rule arch_rebuild)
  then show ?thesis using flags_op_rebuild [of s] by (simp add: CF_SET_def)
qed

lemma rebuild_frame:
  "regs (flags_rebuild s) = regs s" "cpu_rm (flags_rebuild s) = cpu_rm s" "cpu_mod (flags_rebuild s) = cpu_mod s"
  "abrt (flags_rebuild s) = abrt s" for s :: "'m x86_cpu"
  by (rule more_fields, simp)+

text \<open>A count of \<open>c\<close> to the left and back, on a register.\<close>

definition rcl_then_rcr :: "('a::len word, 'm) op_size \<Rightarrow> shift_ops \<Rightarrow> 'm cpu_bus \<Rightarrow> nat \<Rightarrow> 'm x86_cpu \<Rightarrow> 'm x86_cpu" where
  "rcl_then_rcr W S B c s = (let s1 = fst (op_shift W S B c 0x10 (getr W (cpu_rm s) s) s)
     in fst (op_shift W S B c 0x18 (getr W (cpu_rm s1) s1) s1))"

context shift_size begin

lemma rcl_register:
  fixes s :: "'m x86_cpu"
  assumes "cpu_mod s = 3" "abrt s = 0" "c \<noteq> 0" "rcl_loop c (CF_SET s) v = (d, w)"
  shows "op_shift W S B c 0x10 v s = (rcl_setflags d w (setr W (cpu_rm s) w (flags_rebuild s)), Ret0)"
  using assms by (simp add: op_shift_def Let_def rebuilt_CF setea_reg rebuild_frame unless_abrt_def abrt_setr_W)

lemma rcr_register:
  fixes s :: "'m x86_cpu"
  assumes "cpu_mod s = 3" "abrt s = 0" "c \<noteq> 0" "rcr_loop c (CF_SET s) v = (d, w)"
  shows "op_shift W S B c 0x18 v s = (rcr_setflags d w (setr W (cpu_rm s) w (flags_rebuild s)), Ret0)"
  using assms by (simp add: op_shift_def Let_def rebuilt_CF setea_reg rebuild_frame unless_abrt_def abrt_setr_W)

lemma rotation_undone:
  fixes s :: "'m x86_cpu"
  assumes m: "cpu_mod s = 3" "abrt s = 0" "cpu_rm s < 8"
  shows "regs (rcl_then_rcr W S B c s) = regs s \<and> CF_SET (rcl_then_rcr W S B c s) = CF_SET s"
proof (cases "c = 0")
  case True
  then show ?thesis by (simp add: rcl_then_rcr_def op_shift_def Let_def)
next
  case False
  let ?r = "cpu_rm s" and ?v = "getr W (cpu_rm s) s"
  obtain d w where dw: "rcl_loop c (CF_SET s) ?v = (d, w)" by fastforce
  have u: "flags_op (setr W (cpu_rm t) v t) = FLAGS_UNKNOWN" if "cpu_mod t = 3" "flags_op t = FLAGS_UNKNOWN" for t v
    using that op_setea [of B v t] setea_reg [of t B v] by simp
  define s1 where "s1 = rcl_setflags d w (setr W ?r w (flags_rebuild s))"
  have one: "op_shift W S B c 0x10 ?v s = (s1, Ret0)" unfolding s1_def by (rule rcl_register [OF m(1,2) False dw])
  have m1: "cpu_mod s1 = 3" "abrt s1 = 0" "cpu_rm s1 = ?r"
    unfolding s1_def using m by (simp_all add: rotate_frame setr_modrm rebuild_frame abrt_setr_W)
  have cf1: "CF_SET s1 = d" using arch_rcl_setflags [OF u [of "flags_rebuild s" w], of d w] m(1)
    by (simp add: s1_def arch_def rebuild_frame flags_op_rebuild)
  have regs1: "regs s1 = regs (setr W ?r w s)"
    unfolding s1_def rotate_frame by (rule regs_setr) (simp add: rebuild_frame)
  then have v1: "getr W ?r s1 = w" using getr_setr [OF m(3), of w s] getr_regs [OF regs1, of ?r] by simp
  define s2 where "s2 = rcr_setflags (CF_SET s) ?v (setr W ?r ?v (flags_rebuild s1))"
  have two: "op_shift W S B c 0x18 (getr W (cpu_rm s1) s1) s1 = (s2, Ret0)"
    unfolding s2_def using rcr_register [OF m1(1,2) False, of "getr W (cpu_rm s1) s1" "CF_SET s" ?v] rcr_undoes_rcl [OF dw]
    by (simp add: m1(3) v1 cf1)
  have s2: "rcl_then_rcr W S B c s = s2" by (simp add: rcl_then_rcr_def one two Let_def)
  have "CF_SET s2 = CF_SET s"
    using arch_rcr_setflags [OF u [of "flags_rebuild s1" ?v], of "CF_SET s" ?v] m1(1,3)
    by (simp add: s2_def arch_def rebuild_frame flags_op_rebuild)
  moreover have "regs s2 = regs (setr W ?r ?v (setr W ?r w s))"
    unfolding s2_def rotate_frame by (rule regs_setr) (simp add: rebuild_frame regs1)
  ultimately show ?thesis unfolding s2 by (simp add: regs_restore)
qed

end


section \<open>Division\<close>

lemma unat_cast: "unat (ucast (w :: 'a::len word) :: 'b::len word) = unat w mod 2 ^ LENGTH('b)"
  by (simp add: unsigned_ucast_eq take_bit_eq_mod)

lemma unat_up_32: "unat (ucast (v :: u32) :: u64) = unat v"
  using unsigned_less [of v, where 'a = nat] by (simp add: unat_cast)

lemma unat_low_32: "unat (ucast (w :: u64) :: u32) = unat w mod 2 ^ 32"
  by (simp add: unat_cast)

lemma fits_32: "(w :: u64) = ucast (ucast w :: u32) \<longleftrightarrow> unat w < 2 ^ 32"
  unfolding word_unat_eq_iff unat_up_32 unat_low_32 by (metis mod_less mod_less_divisor zero_less_numeral zero_less_power)

lemma unat_div_32: "unat (w div ucast (v :: u32) :: u64) = unat w div unat v" "unat (w mod ucast (v :: u32) :: u64) = unat w mod unat v"
  by (simp_all add: unat_div unat_mod unat_up_32)

lemma unat_quotient: "unat w div unat v < 2 ^ 32 \<Longrightarrow> unat (ucast (w div ucast (v :: u32) :: u64) :: u32) = unat w div unat v"
  by (simp add: unat_low_32 unat_div_32)

lemma unat_remainder: "v \<noteq> 0 \<Longrightarrow> unat (ucast (w mod ucast (v :: u32) :: u64) :: u32) = unat w mod unat v"
proof -
  assume "v \<noteq> 0"
  then have "unat w mod unat v < unat v" by (simp add: unat_gt_0)
  then have "unat w mod unat v < 2 ^ 32" using unsigned_less [of v, where 'a = nat] by simp
  then show ?thesis by (simp add: unat_low_32 unat_div_32)
qed

lemma put_pair:
  "getr32 EAX (setr32 EAX q (setr32 EDX r s)) = q" "getr32 EDX (setr32 EAX q (setr32 EDX r s)) = r"
  "setr32 EAX q (setr32 EDX r s) = s\<lparr>regs := (regs s)(EAX := q, EDX := r)\<rparr>"
  by (simp_all add: getr32_def setr32_def fun_upd_twist)

lemma div_result:
  fixes s :: "'m x86_cpu" and v :: u32
  defines "n \<equiv> unat (pair32 s)" 
  shows "if v = 0 \<or> 2 ^ 32 \<le> n div unat v then divl v s = (s, Int_ret1 0)
    else \<exists>q r. divl v s = (s\<lparr>regs := (regs s)(EAX := q, EDX := r)\<rparr>, Ret0) \<and> n = unat q * unat v + unat r \<and> unat r < unat v"
proof (cases "v = 0 \<or> 2 ^ 32 \<le> n div unat v")
  case True
  then show ?thesis
    by (auto simp: divl_def Let_def fits_32 unat_div_32 n_def)
next
  case False
  let ?q = "ucast (pair32 s div ucast v) :: u32" and ?r = "ucast (pair32 s mod ucast v) :: u32"
  have q: "unat (pair32 s) div unat v < 2 ^ 32" and v: "v \<noteq> 0" using False by (auto simp: n_def not_le)
  then have "pair32 s div ucast v = ucast ?q" unfolding fits_32 unat_div_32 by simp
  then have "divl v s = (s\<lparr>regs := (regs s)(EAX := ?q, EDX := ?r)\<rparr>, Ret0)"
    using v by (simp add: divl_def Let_def put_pair(3))
  moreover have "unat (pair32 s) = unat ?q * unat v + unat ?r" "unat ?r < unat v"
    unfolding unat_remainder [OF v] unat_quotient [OF q] using v by (simp_all add: unat_gt_0)
  ultimately show ?thesis using False unfolding n_def by auto
qed

text \<open>The signed division of a 64-bit and of a 32-bit number, as C computes it.\<close>

lemma sdiv_eq:
  fixes n d :: int
  assumes "d \<noteq> 0"
  shows "n = (n sdiv d) * d + n smod d" "\<bar>n smod d\<bar> < \<bar>d\<bar>" "n smod d = 0 \<or> (n smod d < 0) = (n < 0)"
proof -
  have m: "0 \<le> \<bar>n\<bar> mod \<bar>d\<bar>" "\<bar>n\<bar> mod \<bar>d\<bar> < \<bar>d\<bar>" using assms by simp_all
  show "n = (n sdiv d) * d + n smod d" by (simp add: sdiv_mult_smod_eq)
  show "\<bar>n smod d\<bar> < \<bar>d\<bar>" "n smod d = 0 \<or> (n smod d < 0) = (n < 0)"
    using m unfolding smod_int_alt_def by (cases "n < 0"; cases "n = 0"; simp; linarith)+
qed

lemma idiv_result:
  fixes s :: "'m x86_cpu" and v :: u32
  defines "n \<equiv> sint (pair32 s)" and "d \<equiv> sint v"
  shows "if d = 0 then idivl v s = (s, Int_ret1 0)
    else if n = - (2 ^ 63) \<and> d = - 1 then idivl v s = (s, C_undefined)
    else if n sdiv d < - (2 ^ 31) \<or> 2 ^ 31 \<le> n sdiv d then idivl v s = (s, Int_ret1 0)
    else \<exists>q r. idivl v s = (s\<lparr>regs := (regs s)(EAX := q, EDX := r)\<rparr>, Ret0) \<and> n = sint q * d + sint r
      \<and> \<bar>sint r\<bar> < \<bar>d\<bar> \<and> (sint r = 0 \<or> (sint r < 0) = (n < 0))"
proof -
  have z: "d = 0 \<longleftrightarrow> v = 0" unfolding d_def by (metis signed_0 signed_word_eqI)
  have m: "d = - 1 \<longleftrightarrow> v = 0xffffffff" unfolding d_def by (metis full32 signed_minus_1 signed_word_eqI)
  have fit: "i = sint (word_of_int i :: u32) \<longleftrightarrow> - (2 ^ 31) \<le> i \<and> i < 2 ^ 31" for i :: int
    using signed_take_bit_int_eq_self_iff [of 31 i] by (simp add: sint_sbintrunc' eq_commute)
  show ?thesis
  proof (cases "d = 0 \<or> n = - (2 ^ 63) \<and> d = - 1 \<or> n sdiv d < - (2 ^ 31) \<or> 2 ^ 31 \<le> n sdiv d")
    case True
    then show ?thesis unfolding z m idivl_def Let_def n_def [symmetric] fit d_def [symmetric] by auto
  next
    case False
    let ?q = "word_of_int (n sdiv d) :: u32" and ?r = "word_of_int (n smod d) :: u32"
    have q: "sint ?q = n sdiv d" using False fit [of "n sdiv d"] by auto
    have d: "d \<noteq> 0" using False by blast
    moreover have "\<bar>d\<bar> \<le> 2 ^ 31" using sint_greater_eq [of v] sint_less [of v] unfolding d_def by simp
    ultimately have r: "sint ?r = n smod d" using sdiv_eq(2) [of d n] fit [of "n smod d"] by auto
    have "idivl v s = (s\<lparr>regs := (regs s)(EAX := ?q, EDX := ?r)\<rparr>, Ret0)"
      using False q unfolding z m by (simp add: idivl_def Let_def put_pair(3) n_def [symmetric] d_def [symmetric])
    moreover have "n = sint ?q * d + sint ?r \<and> \<bar>sint ?r\<bar> < \<bar>d\<bar> \<and> (sint ?r = 0 \<or> (sint ?r < 0) = (n < 0))"
      unfolding q r using sdiv_eq [OF d, of n] by blast
    ultimately have ex: "\<exists>q r. idivl v s = (s\<lparr>regs := (regs s)(EAX := q, EDX := r)\<rparr>, Ret0) \<and> n = sint q * d + sint r
      \<and> \<bar>sint r\<bar> < \<bar>d\<bar> \<and> (sint r = 0 \<or> (sint r < 0) = (n < 0))" by blast
    from False have c: "\<not> d = 0" "\<not> (n = - (2 ^ 63) \<and> d = - 1)" "\<not> (n sdiv d < - (2 ^ 31) \<or> 2 ^ 31 \<le> n sdiv d)" by blast+
    show ?thesis unfolding if_not_P [OF c(1)] if_not_P [OF c(2)] if_not_P [OF c(3)] by (rule ex)
  qed
qed


section \<open>Decimal adjustment\<close>

lemma rebuilt_bits:
  "flags (flags_rebuild s) AND C_FLAG \<noteq> 0 \<longleftrightarrow> CF_SET s" "flags (flags_rebuild s) AND A_FLAG \<noteq> 0 \<longleftrightarrow> AF_SET s"
proof -
  have "CF_SET (flags_rebuild s) = CF_SET s" "AF_SET (flags_rebuild s) = AF_SET s"
    using arch_rebuild [of s] by (simp_all add: arch_def)
  then show "flags (flags_rebuild s) AND C_FLAG \<noteq> 0 \<longleftrightarrow> CF_SET s" "flags (flags_rebuild s) AND A_FLAG \<noteq> 0 \<longleftrightarrow> AF_SET s"
    using flags_op_rebuild [of s] by (simp_all add: CF_SET_def AF_SET_def)
qed

lemma getr8_setr8 [simp]: "getr8 AL (setr8 AL v s) = v" "getr8 AL (s\<lparr>flags := w\<rparr>) = getr8 AL s"
  by (simp_all add: getr8_def setr8_def)

lemma getr8_rebuild [simp]: "getr8 r (flags_rebuild s) = getr8 r s" "getr8 r (setznp8 v s) = getr8 r s" for s :: "'m x86_cpu"
  using more_fields(1) [of "flags_rebuild s" s] by (simp_all add: getr8_def setznp8_def)

lemma getr8_adjusted [simp]: "getr8 AL (adjusted_flags s) = getr8 AL s"
  by (simp add: adjusted_flags_def Let_def)

lemma CF_adjusted: "CF_SET (adjusted_flags s) \<longleftrightarrow> flags s AND C_FLAG \<noteq> 0"
proof -
  have "flags_op (adjusted_flags s) = FLAGS_UNKNOWN" by (simp add: adjusted_flags_def Let_def flags_op_rebuild)
  moreover have "flags (adjusted_flags s) =
      (flags (flags_rebuild (setznp8 (getr8 AL s) s)) AND NOT (C_FLAG OR A_FLAG)) OR (flags s AND (C_FLAG OR A_FLAG))"
    by (simp add: adjusted_flags_def Let_def)
  then have "bit (flags (adjusted_flags s)) 0 = bit (flags s) 0"
    by (simp only:, unfold bit_and_iff bit_or_iff bit_not_iff bit_flags) auto
  ultimately show ?thesis using arch_unknown by (simp add: CF_SET_def mask_bits)
qed

lemma old_AL: "(ucast (v :: u8) :: u16) > 0x99 \<longleftrightarrow> v > 0x99"
  using unsigned_less [of v, where 'a = nat] by (simp add: word_less_nat_alt unsigned_ucast_eq take_bit_nat_eq_self)

lemma opDAA_result:
  defines "low s \<equiv> (getr8 AL s AND 0xf > 9 \<or> AF_SET s)" and "high s \<equiv> (getr8 AL s > 0x99 \<or> CF_SET s)"
  shows "getr8 AL (fst (opDAA s)) = getr8 AL s + (if low s then 6 else 0) + (if high s then 0x60 else 0)"
    "CF_SET (fst (opDAA s)) = high s"
proof -
  define s1 where "s1 = flags_rebuild s"
  define s2 where "s2 = s1\<lparr>flags := flags s1 AND NOT C_FLAG\<rparr>"
  have c: "flags s1 AND C_FLAG \<noteq> 0 \<longleftrightarrow> CF_SET s" and a: "flags s2 AND A_FLAG \<noteq> 0 \<longleftrightarrow> AF_SET s" and al: "getr8 AL s1 = getr8 AL s"
    using rebuilt_bits [of s] by (simp_all add: s1_def s2_def and.assoc)
  show "getr8 AL (fst (opDAA s)) = getr8 AL s + (if low s then 6 else 0) + (if high s then 0x60 else 0)"
    "CF_SET (fst (opDAA s)) = high s"
    unfolding opDAA_def Let_def s1_def [symmetric] s2_def [symmetric] fst_conv old_AL al c a CF_adjusted getr8_adjusted low_def high_def
    by (auto simp: s2_def al and.assoc bit.conj_disj_distrib2)
qed

text \<open>A byte of two decimal digits, and its number.\<close>

definition packed :: "u8 \<Rightarrow> bool" where
  "packed b \<longleftrightarrow> unat b mod 16 < 10 \<and> unat b div 16 < 10"

definition decimal :: "u8 \<Rightarrow> nat" where
  "decimal b = 10 * (unat b div 16) + unat b mod 16"

lemma unat_low_nibble: "unat (w AND 0xf :: u8) = unat w mod 16"
proof -
  have "w AND 0xf = take_bit 4 w" by (simp add: take_bit_eq_mask mask_eq_exp_minus_1)
  then show ?thesis by (simp add: unsigned_take_bit_eq take_bit_eq_mod unat_mod)
qed

lemma unat_add3: "unat (x + y + z :: u8) = (unat x + unat y + unat z) mod 256"
  by (simp add: unat_word_ariths mod_simps)

lemma daa_digits:
  assumes pq: "p \<le> 18" "q \<le> (18 :: nat)" and r: "r = (n mod 256 + (if low then 6 else 0) + (if high then 0x60 else 0)) mod 256"
    and n: "n = 16 * p + q" and low: "low \<longleftrightarrow> 9 < n mod 256 mod 16 \<or> 16 \<le> q" and high: "high \<longleftrightarrow> 0x99 < n mod 256 \<or> 256 \<le> n"
  shows "r mod 16 < 10 \<and> r div 16 < 10 \<and> 10 * (r div 16) + r mod 16 = (10 * p + q) mod 100 \<and> (high \<longleftrightarrow> 100 \<le> 10 * p + q)"
proof -
  have "n mod 256 mod 16 = q mod 16" unfolding n by (simp add: mod_mod_cancel)
  then have l: "low \<longleftrightarrow> 10 \<le> q" using pq(2) unfolding low by (cases "q < 16") auto
  have h: "high \<longleftrightarrow> 100 \<le> 10 * p + q"
  proof (cases "n < 256")
    case True
    then have "high \<longleftrightarrow> 0x99 < n" unfolding high by simp
    moreover have "0x99 < n \<longleftrightarrow> 100 \<le> 10 * p + q"
    proof (cases "p \<le> 8")
      case False
      show ?thesis by (cases "p = 9") (use False n in linarith)+
    qed (use pq n in linarith)
    ultimately show ?thesis by simp
  next
    case False
    moreover from this have "100 \<le> 10 * p + q" using pq unfolding n by linarith
    ultimately show ?thesis unfolding high by simp
  qed
  define e where "e = (if low then q - 10 else q)"
  define f where "f = (if high then p + of_bool low - 10 else p + of_bool low)"
  have ef: "e < 10" "f < 10" using pq unfolding e_def f_def l h by (auto split: if_splits)
  have "n + (if low then 6 else 0) + (if high then 0x60 else 0) = 16 * f + e + (if high then 256 else 0)"
    using pq unfolding e_def f_def l h n by (auto split: if_splits)
  moreover have "r = (n + (if low then 6 else 0) + (if high then 0x60 else 0)) mod 256" unfolding r by (simp add: mod_simps)
  ultimately have "r = 16 * f + e" using ef by simp
  moreover have "10 * p + q = 10 * f + e + (if high then 100 else 0)"
    using pq unfolding e_def f_def l h by (auto split: if_splits)
  ultimately show ?thesis using ef h by (cases high) simp_all
qed

lemma packed_add:
  fixes s :: "'m x86_cpu" and imm :: u32
  defines "s' \<equiv> fst (opDAA (fst (op_AL_imm op_ADD imm s)))" and "b \<equiv> ucast imm"
  assumes "packed (getr8 AL s)" "packed b"
  shows "packed (getr8 AL s') \<and> decimal (getr8 AL s') = (decimal (getr8 AL s) + decimal b) mod 100 \<and>
    CF_SET s' = (100 \<le> decimal (getr8 AL s) + decimal b)"
proof -
  let ?a = "getr8 AL s" and ?t = "fst (op_AL_imm op_ADD imm s)"
  define p q where pq: "p = unat ?a div 16 + unat b div 16" "q = unat ?a mod 16 + unat b mod 16"
  have bound: "p \<le> 18" "q \<le> 18" using assms(3,4) by (auto simp: packed_def pq)
  have n: "unat ?a + unat b = 16 * p + q" unfolding pq by (simp add: mult_div_mod_eq algebra_simps)
  have t: "getr8 AL ?t = ?a + b" "arch ?t = add_flags ?a b False"
    by (simp_all add: op_AL_imm_def getbytef_def load_tempc_def gettempc_def Let_def byte_size_def setadd8_arch b_def)
  have cf: "CF_SET ?t \<longleftrightarrow> 256 \<le> 16 * p + q" "AF_SET ?t \<longleftrightarrow> 16 \<le> q"
    using t(2) by (simp_all add: arch_def add_flags_def Let_def n pq)
  have u: "unat (?a + b) = (16 * p + q) mod 256" by (simp add: unat_word_ariths n)
  have low: "getr8 AL ?t AND 0xf > 9 \<longleftrightarrow> 9 < (16 * p + q) mod 256 mod 16"
    by (simp add: word_less_nat_alt unat_low_nibble t u)
  have high: "getr8 AL ?t > 0x99 \<longleftrightarrow> 0x99 < (16 * p + q) mod 256"
    by (simp add: word_less_nat_alt t u)
  note r = opDAA_result [of ?t, unfolded low high cf, unfolded t(1)] 
  have "unat (getr8 AL s') = ((16 * p + q) mod 256 + (if 9 < (16 * p + q) mod 256 mod 16 \<or> 16 \<le> q then 6 else 0)
      + (if 0x99 < (16 * p + q) mod 256 \<or> 256 \<le> 16 * p + q then 0x60 else 0)) mod 256"
  proof -
    have c: "unat (if k then 6 else 0 :: u8) = (if k then 6 else 0)" "unat (if k then 0x60 else 0 :: u8) = (if k then 0x60 else 0)" for k
      by simp_all
    show ?thesis unfolding s'_def r(1) unat_add3 u c ..
  qed
  from daa_digits [OF bound this refl refl refl] show ?thesis
    unfolding r(2) [folded s'_def] packed_def decimal_def pq by (simp add: algebra_simps)
qed

section \<open>The properties\<close>

text \<open>A machine with all registers 0, and one without memory: every read gives 0.\<close>

definition blank_cpu :: "unit x86_cpu" where
  "blank_cpu = \<lparr>flags_op = FLAGS_UNKNOWN, flags_res = 0, flags_op1 = 0, flags_op2 = 0, flags = 2, tempc = 0,
     regs = (\<lambda>_. 0), ea_seg = DS, eaaddr = 0, easeg = 0, pc = 0, cpu_rm = 0, cpu_mod = 3, cpu_reg = 0, ssegs = 0,
     abrt = 0, abrt_error = 0,
     segs = (\<lambda>_. \<lparr>seg_base = 0, seg_access = 0x93, seg_sel = 0, limit_low = 0, limit_high = 0xffff\<rparr>),
     msw = 0, eflags = 0, op32 = 0, oldpc = 0, trap = 0, use32 = 0, cpu_16bitbus = False, is486 = False,
     cpu_isintel = True, cpu_iscyrix = False, is6117 = False, use_new_dynarec = True, mem = ()\<rparr>"

definition blank_bus :: "unit cpu_bus" where
  "blank_bus = \<lparr>readmembl = (\<lambda>a b. (0, b)), readmemwl = (\<lambda>a b. (0, b)), readmemll = (\<lambda>a b. (0, b)),
     writemembl = (\<lambda>a v b. b), writememwl = (\<lambda>a v b. b), writememll = (\<lambda>a v b. b)\<rparr>"

text \<open>A bus on which every access faults.\<close>

definition faulting_bus :: "unit cpu_bus" where
  "faulting_bus = blank_bus\<lparr>readmembl := (\<lambda>a (m, _, _). (0, m, 14, 0)), readmemwl := (\<lambda>a (m, _, _). (0, m, 14, 0)),
     readmemll := (\<lambda>a (m, _, _). (0, m, 14, 0))\<rparr>"

text \<open>
  Claim C6: The flags are kept lazily, and no program can see it. For every number of instructions
  and every state, the execution of the interpreter and the execution of a processor that writes
  \<open>flags\<close> after every instruction agree: either both meet an instruction outside the model, or both
  end with the same registers, memory, program counter and fault, and \<open>flags_rebuild\<close> of the lazy
  state gives the \<open>flags\<close> of the other, system flags included. It covers every handler of the
  opcode tables that the model has, in both builds. \<close>

theorem x86_lazy_flags_refine:
  "map_option (\<lambda>s. (flags (flags_rebuild s), x86_flags.more s)) (run B n s) =
   map_option (\<lambda>s. (flags s, x86_flags.more s)) (eager_run B n (flags_rebuild s))"
  using run_in_step [OF in_step_rebuild [OF same_flags_refl], of B n s]
  by (cases "run B n s"; cases "eager_run B n (flags_rebuild s)") (simp_all add: in_step_eq)

text \<open>
  Claim C16: Faults are precise. When an instruction ends with a fault (a limit, a segment that is not
  present, a fault of the memory access in its fetch, its load or its store), the general registers
  and \<open>flags\<close>, as \<open>flags_rebuild\<close> shows them, are those before the instruction and \<open>oldpc\<close> is its
  address, so that it can be run again. \<close>

theorem x86_fault_restartable:
  assumes "exec_step B s = Some (s', e)" "abrt s' \<noteq> 0"
  shows "regs s' = regs s \<and> oldpc s' = pc s \<and> flags (flags_rebuild s') = flags (flags_rebuild s)"
proof -
  from exec_step_keeps [OF assms] have v: "same_view (s\<lparr>oldpc := pc s\<rparr>) s'" .
  have "flags (flags_rebuild (s\<lparr>oldpc := pc s\<rparr>)) = flags (flags_rebuild s)"
    by (rule flags_of_view) (simp_all add: flags_op_rebuild arch_rebuild)
  with view_flags [OF v] v show ?thesis by (simp add: same_view_def)
qed

lemma faulting_step: "exec_step faulting_bus blank_cpu = Some (blank_cpu\<lparr>abrt := 14, abrt_error := 0\<rparr>, Ret1)"
  by (simp add: exec_step_def fastreadl_fetch_def via_def bus_of_def put_bus_def cs_def CHECK_READ_CS_def protected_mode_def
      opcode_bytes_def opcode_length_def opcode_has_modrm_def wrap_pc_def faulting_bus_def blank_bus_def blank_cpu_def Let_def)

lemma x86_fault_restartable_witness:
  "regs (blank_cpu\<lparr>abrt := 14, abrt_error := 0\<rparr>) = regs blank_cpu \<and> oldpc (blank_cpu\<lparr>abrt := 14, abrt_error := 0\<rparr>) = pc blank_cpu
   \<and> flags (flags_rebuild (blank_cpu\<lparr>abrt := 14, abrt_error := 0\<rparr>)) = flags (flags_rebuild blank_cpu)"
  by (rule x86_fault_restartable [OF faulting_step]) (simp add: blank_cpu_def)

text \<open>
  Claim C7: The two-operand instructions on two registers (the byte after the opcode has its mod field at 3),
  for ADD, OR, ADC, SBB, AND, SUB and XOR, at the three sizes, with 16-bit and with 32-bit addressing, in
  both directions: into the register of the rm field (the opcodes that end in 0 or 1 in octal, \<open>op_rmw\<close>) and into
  the one of the reg field (those that end in 2 or 3, \<open>op_rm\<close>). From a state with no fault pending the destination gets the result, the
  six arithmetic flags are the manual's for the operands and the carry before (computed here over words of any
  length), the system flags and the other registers stay, and no fault is raised. The one exception is
  stated exactly: with the new recompiler ADC loses the half carry when the source ends in Fh, the carry is
  set and the source is not all ones. The forms with a memory operand are not covered. \<close>

theorem x86_arithmetic_on_registers:
  assumes "drop_bit 6 r AND 3 = (3 :: u32)" "abrt s = 0" "fetch_ea = fetch_ea_16 B \<or> fetch_ea = fetch_ea_32 B"
  shows "let rm = unat (r AND 7); reg = unat (drop_bit 3 r AND 7) in
    performs byte_size op rm (getr8 reg s) s (op_rmw byte_size B fetch_ea op r s) \<and>
    performs word_size op rm (getr16 reg s) s (op_rmw word_size B fetch_ea op r s) \<and>
    performs long_size op rm (getr32 reg s) s (op_rmw long_size B fetch_ea op r s) \<and>
    performs byte_size op reg (getr8 rm s) s (op_rm byte_size B fetch_ea op r s) \<and>
    performs word_size op reg (getr16 rm s) s (op_rm word_size B fetch_ea op r s) \<and>
    performs long_size op reg (getr32 rm s) s (op_rm long_size B fetch_ea op r s)"
proof -
  have d: "fetch_ea \<in> decoders B" using assms(3) by (auto simp: decoders_def)
  show ?thesis unfolding Let_def
    using byte.op_rmw_register [OF d assms(1,2), of op] word.op_rmw_register [OF d assms(1,2), of op]
      long.op_rmw_register [OF d assms(1,2), of op] byte.op_rm_register [OF d assms(1,2), of op]
      word.op_rm_register [OF d assms(1,2), of op] long.op_rm_register [OF d assms(1,2), of op]
    by simp
qed

lemma x86_arithmetic_on_registers_witness:
  "performs byte_size op_ADC 1 (getr8 0 blank_cpu) blank_cpu (op_rmw byte_size blank_bus (fetch_ea_16 blank_bus) op_ADC 0xc1 blank_cpu) \<and>
   performs long_size op_SUB 0 (getr32 1 blank_cpu) blank_cpu (op_rm long_size blank_bus (fetch_ea_32 blank_bus) op_SUB 0xc1 blank_cpu)"
  using x86_arithmetic_on_registers [of "0xc1" blank_cpu "fetch_ea_16 blank_bus" blank_bus op_ADC]
    x86_arithmetic_on_registers [of "0xc1" blank_cpu "fetch_ea_32 blank_bus" blank_bus op_SUB] by (simp add: blank_cpu_def)

text \<open>
  Claim C17: After a comparison of two registers, at the three sizes, with 16-bit and with 32-bit addressing,
  in both directions (opcodes 38h and 39h, \<open>opCMP_rmw\<close>, compare the register of the rm field with the one of
  the reg field; 3Ah and 3Bh, \<open>opCMP_rm\<close>, the reverse), from a state with no fault pending, the sixteen
  conditions of the jumps and of SETcc decide the relation that their name says of the first
  operand and the second: below and above as unsigned numbers, less and greater as signed numbers, also
  when the difference overflows. \<close>

theorem x86_compare_decides:
  assumes "drop_bit 6 r AND 3 = (3 :: u32)" "abrt s = 0" "fetch_ea = fetch_ea_16 B \<or> fetch_ea = fetch_ea_32 B"
  shows "let rm = unat (r AND 7); reg = unat (drop_bit 3 r AND 7) in
    cond c (fst (opCMP_rmw byte_size B fetch_ea r s)) = relates c (getr8 rm s) (getr8 reg s) \<and>
    cond c (fst (opCMP_rmw word_size B fetch_ea r s)) = relates c (getr16 rm s) (getr16 reg s) \<and>
    cond c (fst (opCMP_rmw long_size B fetch_ea r s)) = relates c (getr32 rm s) (getr32 reg s) \<and>
    cond c (fst (opCMP_rm byte_size B fetch_ea r s)) = relates c (getr8 reg s) (getr8 rm s) \<and>
    cond c (fst (opCMP_rm word_size B fetch_ea r s)) = relates c (getr16 reg s) (getr16 rm s) \<and>
    cond c (fst (opCMP_rm long_size B fetch_ea r s)) = relates c (getr32 reg s) (getr32 rm s)"
proof -
  have d: "fetch_ea \<in> decoders B" using assms(3) by (auto simp: decoders_def)
  show ?thesis unfolding Let_def
    using byte.compare_registers [OF d assms(1,2), of c] word.compare_registers [OF d assms(1,2), of c]
      long.compare_registers [OF d assms(1,2), of c] byte.compare_registers_rm [OF d assms(1,2), of c]
      word.compare_registers_rm [OF d assms(1,2), of c] long.compare_registers_rm [OF d assms(1,2), of c]
    by simp
qed

lemma x86_compare_decides_witness:
  "cond c_LE (fst (opCMP_rmw word_size blank_bus (fetch_ea_16 blank_bus) 0xc1 blank_cpu)) = relates c_LE (getr16 1 blank_cpu) (getr16 0 blank_cpu) \<and>
   cond c_B (fst (opCMP_rm byte_size blank_bus (fetch_ea_32 blank_bus) 0xc1 blank_cpu)) = relates c_B (getr8 0 blank_cpu) (getr8 1 blank_cpu)"
  using x86_compare_decides [of "0xc1" blank_cpu "fetch_ea_16 blank_bus" blank_bus c_LE]
    x86_compare_decides [of "0xc1" blank_cpu "fetch_ea_32 blank_bus" blank_bus c_B] by (simp add: blank_cpu_def)

text \<open>
  Claim C19: RCL of a register by any count followed by RCR by the same count restores all registers and
  the carry, at the three sizes and in both builds: the loops of the code rotate operand and carry
  together, and each reads the carry from the lazy flags that the other left. The state has no fault
  pending.
\<close>

theorem x86_rotation_undone:
  assumes "cpu_mod s = 3" "abrt s = 0" "cpu_rm s < 8"
  shows "regs (rcl_then_rcr byte_size byte_ops B c s) = regs s \<and> CF_SET (rcl_then_rcr byte_size byte_ops B c s) = CF_SET s \<and>
    regs (rcl_then_rcr word_size word_ops B c s) = regs s \<and> CF_SET (rcl_then_rcr word_size word_ops B c s) = CF_SET s \<and>
    regs (rcl_then_rcr long_size long_ops B c s) = regs s \<and> CF_SET (rcl_then_rcr long_size long_ops B c s) = CF_SET s"
  using byte_shift.rotation_undone [OF assms] word_shift.rotation_undone [OF assms] long_shift.rotation_undone [OF assms]
  by blast

lemma x86_rotation_undone_witness:
  "regs (rcl_then_rcr word_size word_ops blank_bus 19 blank_cpu) = regs blank_cpu"
  using x86_rotation_undone [of blank_cpu blank_bus 19] by (simp add: blank_cpu_def)

text \<open>
  Claim C18: DIV and IDIV of EDX:EAX by 32 bits. DIV raises the divide error exactly when the divisor is 0 or the
  quotient does not fit in 32 bits; otherwise dividend = quotient * divisor + remainder with the
  remainder below the divisor, and no other register changes. IDIV raises it exactly when the
  divisor is 0 or the quotient, rounded towards 0, does not fit, and otherwise gives quotient and a
  remainder with the sign of the dividend; but for the dividend \<open>-2^63\<close> and the divisor \<open>-1\<close> the code
  divides the two as \<open>int64_t\<close>, which C leaves undefined. \<close>

theorem x86_divide:
  "(if v = 0 \<or> 2 ^ 32 \<le> unat (pair32 s) div unat v then divl v s = (s, Int_ret1 0)
    else \<exists>q r. divl v s = (s\<lparr>regs := (regs s)(EAX := q, EDX := r)\<rparr>, Ret0) \<and>
      unat (pair32 s) = unat q * unat v + unat r \<and> unat r < unat v) \<and>
   (if sint v = 0 then idivl v s = (s, Int_ret1 0)
    else if sint (pair32 s) = - (2 ^ 63) \<and> sint v = - 1 then idivl v s = (s, C_undefined)
    else if sint (pair32 s) sdiv sint v < - (2 ^ 31) \<or> 2 ^ 31 \<le> sint (pair32 s) sdiv sint v then idivl v s = (s, Int_ret1 0)
    else \<exists>q r. idivl v s = (s\<lparr>regs := (regs s)(EAX := q, EDX := r)\<rparr>, Ret0) \<and> sint (pair32 s) = sint q * sint v + sint r
      \<and> \<bar>sint r\<bar> < \<bar>sint v\<bar> \<and> (sint r = 0 \<or> (sint r < 0) = (sint (pair32 s) < 0)))"
  using div_result [of v s] idiv_result [of v s] by (rule conjI)

text \<open>
  Claim C20: ADD of an immediate byte to AL and then DAA adds two packed decimal numbers, when AL and the
  immediate byte hold two decimal digits each: AL then holds two decimal digits, the sum modulo 100, and
  the carry says that the sum reached 100. DAA gets the carry and the half carry of the addition out of
  the lazy flags.
\<close>

theorem x86_packed_decimal_add:
  assumes "packed (getr8 AL s)" "packed (ucast imm)"
  shows "packed (getr8 AL (fst (opDAA (fst (op_AL_imm op_ADD imm s))))) \<and>
    decimal (getr8 AL (fst (opDAA (fst (op_AL_imm op_ADD imm s))))) = (decimal (getr8 AL s) + decimal (ucast imm)) mod 100 \<and>
    CF_SET (fst (opDAA (fst (op_AL_imm op_ADD imm s)))) = (100 \<le> decimal (getr8 AL s) + decimal (ucast imm))"
  by (rule packed_add [OF assms])

lemma x86_packed_decimal_add_witness:
  "decimal (getr8 AL (fst (opDAA (fst (op_AL_imm op_ADD 0x58 (blank_cpu\<lparr>regs := (\<lambda>_. 0x67)\<rparr>)))))) = 25"
  using x86_packed_decimal_add [of "blank_cpu\<lparr>regs := (\<lambda>_. 0x67)\<rparr>" "0x58"]
  by (simp add: packed_def decimal_def getr8_def low_byte_def)

end
