(* ===== verification/Refinement.thy ===== *)
theory Refinement
  imports Prelude "HOL-Library.Monad_Syntax"
begin

text \<open>
  Refinement between state machines whose operations return a result and a new state, or fail
  (\<open>None\<close>). The interface asks for a simulation of single operations; its lemma is the refinement of
  sequences of operations. Components whose data structure has an abstract counterpart interpret it.
\<close>

fun trace :: "('op \<Rightarrow> 's \<Rightarrow> ('r \<times> 's) option) \<Rightarrow> 'op list \<Rightarrow> 's \<Rightarrow> ('r list \<times> 's) option" where
  "trace step [] s = Some ([], s)"
| "trace step (op # ops) s = do {(r, s) \<leftarrow> step op s; (rs, s) \<leftarrow> trace step ops s; Some (r # rs, s)}"

lemma trace_append:
  "trace step (xs @ ys) s = do {(rs, s) \<leftarrow> trace step xs s; (rs', s) \<leftarrow> trace step ys s; Some (rs @ rs', s)}"
  by (induction xs arbitrary: s) (auto split: option.splits simp: bind_eq_Some_conv Option.bind_assoc case_prod_unfold)

lemma trace_seq:
  "trace step xs s = Some (rs, s1) \<Longrightarrow> trace step ys s1 = Some (rs', s2) \<Longrightarrow> trace step (xs @ ys) s = Some (rs @ rs', s2)"
  by (simp add: trace_append)

text \<open>A fallible step for each element of a list, in order.\<close>

fun each :: "('x \<Rightarrow> 's \<Rightarrow> 's option) \<Rightarrow> 'x list \<Rightarrow> 's \<Rightarrow> 's option" where
  "each f [] s = Some s"
| "each f (a # as) s = do {s \<leftarrow> f a s; each f as s}"

locale refinement =
  fixes rel :: "'c \<Rightarrow> 'a \<Rightarrow> bool"
    and impl :: "'op \<Rightarrow> 'c \<Rightarrow> ('r \<times> 'c) option"
    and spec :: "'op \<Rightarrow> 'a \<Rightarrow> ('r \<times> 'a) option"
  assumes simulates: "rel c a \<Longrightarrow> spec op a = Some (r, a') \<Longrightarrow> \<exists>c'. impl op c = Some (r, c') \<and> rel c' a'"
begin

lemma trace_simulates:
  assumes "rel c a" and "trace spec ops a = Some (rs, a')"
  shows "\<exists>c'. trace impl ops c = Some (rs, c') \<and> rel c' a'"
  using assms
proof (induction ops arbitrary: c a rs)
  case (Cons op ops)
  then obtain r a1 rs1 where a1: "spec op a = Some (r, a1)" "trace spec ops a1 = Some (rs1, a')" "rs = r # rs1"
    by (auto simp: bind_eq_Some_conv)
  then obtain c1 where "impl op c = Some (r, c1)" "rel c1 a1"
    using simulates Cons.prems(1) by blast
  moreover from this obtain c' where "trace impl ops c1 = Some (rs1, c')" "rel c' a'"
    using Cons.IH a1(2) by blast
  ultimately show ?case using a1(3) by auto
qed simp

end

end
