(* ===== verification/I2c.thy ===== *)
theory I2c
  imports Refinement
begin

text \<open>
  The I2C bus of \<open>src/src/device/i2c.c\<close>: per bus and address a doubly linked list of handlers, which
  devices join and leave, and through which a host controller starts, reads, writes and stops.
  List nodes and buses live in stores; \<open>calloc\<close> takes the next address, \<open>free\<close> empties it, and
  \<open>None\<close> is an access to a freed object, an index beyond the array of addresses, or a walk that does
  not end. A function pointer is a name, \<open>None\<close> for NULL; what it calls is a parameter, the record
  \<open>i2c_callbacks\<close> of functions on the state of the devices, of open type.
\<close>

section \<open>State\<close>

record 'f i2c_fns =
  f_start :: "'f option"
  f_read :: "'f option"
  f_write :: "'f option"
  f_stop :: "'f option"
  f_priv :: ptr

record 'f i2c_t = "'f i2c_fns" +
  i_prev :: ptr
  i_next :: ptr

record i2c_bus_t =
  bus_name :: string
  bus_devices :: "nat \<Rightarrow> ptr"
  bus_last :: "nat \<Rightarrow> ptr"

record ('f, 'd) i2c =
  nodes :: "ptr \<Rightarrow> 'f i2c_t option"
  new_node :: ptr
  buses :: "ptr \<Rightarrow> i2c_bus_t option"
  new_bus :: ptr
  devs :: 'd

record ('f, 'd) i2c_callbacks =
  on_start :: "'f \<Rightarrow> ptr \<Rightarrow> u8 \<Rightarrow> u8 \<Rightarrow> ptr \<Rightarrow> 'd \<Rightarrow> (u8 \<times> 'd) option"
  on_read :: "'f \<Rightarrow> ptr \<Rightarrow> u8 \<Rightarrow> ptr \<Rightarrow> 'd \<Rightarrow> (u8 \<times> 'd) option"
  on_write :: "'f \<Rightarrow> ptr \<Rightarrow> u8 \<Rightarrow> u8 \<Rightarrow> ptr \<Rightarrow> 'd \<Rightarrow> (u8 \<times> 'd) option"
  on_stop :: "'f \<Rightarrow> ptr \<Rightarrow> u8 \<Rightarrow> ptr \<Rightarrow> 'd \<Rightarrow> 'd option"

abbreviation NADDRS :: nat where "NADDRS \<equiv> 128"

abbreviation fns_of :: "'f i2c_t \<Rightarrow> 'f i2c_fns" where "fns_of \<equiv> i2c_fns.truncate"

definition mod_node :: "ptr \<Rightarrow> ('f i2c_t \<Rightarrow> 'f i2c_t) \<Rightarrow> ('f, 'd) i2c \<Rightarrow> ('f, 'd) i2c option" where
  "mod_node p f s = (case nodes s p of None \<Rightarrow> None | Some n \<Rightarrow> Some (s\<lparr>nodes := (nodes s)(p \<mapsto> f n)\<rparr>))"

definition mod_bus :: "ptr \<Rightarrow> (i2c_bus_t \<Rightarrow> i2c_bus_t) \<Rightarrow> ('f, 'd) i2c \<Rightarrow> ('f, 'd) i2c option" where
  "mod_bus b f s = (case buses s b of None \<Rightarrow> None | Some B \<Rightarrow> Some (s\<lparr>buses := (buses s)(b \<mapsto> f B)\<rparr>))"

definition set_device :: "nat \<Rightarrow> ptr \<Rightarrow> i2c_bus_t \<Rightarrow> i2c_bus_t" where
  "set_device a p B = B\<lparr>bus_devices := (bus_devices B)(a := p)\<rparr>"

definition set_last :: "nat \<Rightarrow> ptr \<Rightarrow> i2c_bus_t \<Rightarrow> i2c_bus_t" where
  "set_last a p B = B\<lparr>bus_last := (bus_last B)(a := p)\<rparr>"

section \<open>Buses\<close>

definition i2c_addbus :: "string \<Rightarrow> ('f, 'd) i2c \<Rightarrow> ptr \<times> ('f, 'd) i2c" where
  "i2c_addbus name s = (let b = new_bus s in
     (b, s\<lparr>new_bus := Suc b,
           buses := (buses s)(b \<mapsto> \<lparr>bus_name = name, bus_devices = (\<lambda>_. NULL), bus_last = (\<lambda>_. NULL)\<rparr>)\<rparr>))"

partial_function (option) free_list :: "ptr \<Rightarrow> ('f, 'd) i2c \<Rightarrow> ('f, 'd) i2c option" where
  "free_list p s = (if p = NULL then Some s else
     do {n \<leftarrow> nodes s p; free_list (i_next n) (s\<lparr>nodes := (nodes s)(p := None)\<rparr>)})"

fun free_lists :: "ptr \<Rightarrow> nat list \<Rightarrow> ('f, 'd) i2c \<Rightarrow> ('f, 'd) i2c option" where
  "free_lists b [] s = Some s"
| "free_lists b (c # cs) s = do {B \<leftarrow> buses s b; s \<leftarrow> free_list (bus_devices B c) s; free_lists b cs s}"

definition i2c_removebus :: "ptr \<Rightarrow> ('f, 'd) i2c \<Rightarrow> ('f, 'd) i2c option" where
  "i2c_removebus b s = (if b = NULL then Some s else
     do {s \<leftarrow> free_lists b [0..<NADDRS] s; Some (s\<lparr>buses := (buses s)(b := None)\<rparr>)})"

definition i2c_getbusname :: "ptr \<Rightarrow> ('f, 'd) i2c \<Rightarrow> string option option" where
  "i2c_getbusname b s = (if b = NULL then Some None else do {B \<leftarrow> buses s b; Some (Some (bus_name B))})"

section \<open>Handlers\<close>

definition set_one :: "ptr \<Rightarrow> 'f i2c_fns \<Rightarrow> nat \<Rightarrow> ('f, 'd) i2c \<Rightarrow> ('f, 'd) i2c option" where
  "set_one b h a s = do {B \<leftarrow> buses s b;
     let p = bus_last B a; let q = new_node s;
     let s = s\<lparr>new_node := Suc q, nodes := (nodes s)(q \<mapsto> i2c_fns.extend h \<lparr>i_prev = NULL, i_next = NULL\<rparr>)\<rparr>;
     s \<leftarrow> (if p \<noteq> NULL then do {s \<leftarrow> mod_node p (i_next_update (\<lambda>_. q)) s; mod_node q (i_prev_update (\<lambda>_. p)) s}
          else mod_bus b (set_device a q) s);
     mod_bus b (set_last a q) s}"

fun set_each :: "ptr \<Rightarrow> 'f i2c_fns \<Rightarrow> nat list \<Rightarrow> ('f, 'd) i2c \<Rightarrow> ('f, 'd) i2c option" where
  "set_each b h [] s = Some s"
| "set_each b h (a # as) s = do {s \<leftarrow> set_one b h a s; set_each b h as s}"

definition i2c_sethandler :: "ptr \<Rightarrow> u8 \<Rightarrow> nat \<Rightarrow> 'f i2c_fns \<Rightarrow> ('f, 'd) i2c \<Rightarrow> ('f, 'd) i2c option" where
  "i2c_sethandler b base sz h s = (if b = NULL \<or> unat base + sz > NADDRS then Some s
     else set_each b h [unat base..<unat base + sz] s)"

text \<open>A node is taken out of its list and freed.\<close>

definition unlink :: "ptr \<Rightarrow> nat \<Rightarrow> ptr \<Rightarrow> 'f i2c_t \<Rightarrow> ('f, 'd) i2c \<Rightarrow> ('f, 'd) i2c option" where
  "unlink b a p n s = do {
     s \<leftarrow> (if i_prev n \<noteq> NULL then mod_node (i_prev n) (i_next_update (\<lambda>_. i_next n)) s
          else mod_bus b (set_device a (i_next n)) s);
     s \<leftarrow> (if i_next n \<noteq> NULL then mod_node (i_next n) (i_prev_update (\<lambda>_. i_prev n)) s
          else mod_bus b (set_last a (i_prev n)) s);
     Some (s\<lparr>nodes := (nodes s)(p := None)\<rparr>)}"

partial_function (option) remove_loop :: "ptr \<Rightarrow> 'f i2c_fns \<Rightarrow> nat \<Rightarrow> ptr \<Rightarrow> ('f, 'd) i2c \<Rightarrow> ('f, 'd) i2c option" where
  "remove_loop b h a p s = (if p = NULL then Some s else
     do {n \<leftarrow> nodes s p; if fns_of n = h then unlink b a p n s else remove_loop b h a (i_next n) s})"

fun remove_each :: "ptr \<Rightarrow> 'f i2c_fns \<Rightarrow> nat list \<Rightarrow> ('f, 'd) i2c \<Rightarrow> ('f, 'd) i2c option" where
  "remove_each b h [] s = Some s"
| "remove_each b h (a # as) s = do {B \<leftarrow> buses s b; s \<leftarrow> remove_loop b h a (bus_devices B a) s; remove_each b h as s}"

definition i2c_removehandler :: "ptr \<Rightarrow> u8 \<Rightarrow> nat \<Rightarrow> 'f i2c_fns \<Rightarrow> ('f, 'd) i2c \<Rightarrow> ('f, 'd) i2c option" where
  "i2c_removehandler b base sz h s = (if b = NULL \<or> unat base + sz > NADDRS then Some s
     else remove_each b h [unat base..<unat base + sz] s)"

definition i2c_handler :: "bool \<Rightarrow> ptr \<Rightarrow> u8 \<Rightarrow> nat \<Rightarrow> 'f i2c_fns \<Rightarrow> ('f, 'd) i2c \<Rightarrow> ('f, 'd) i2c option" where
  "i2c_handler on b base sz h s =
     (if on then i2c_sethandler b base sz h s else i2c_removehandler b base sz h s)"

section \<open>Transfers\<close>

definition bus_device :: "ptr \<Rightarrow> u8 \<Rightarrow> ('f, 'd) i2c \<Rightarrow> ptr option" where
  "bus_device b addr s = do {B \<leftarrow> buses s b; if unat addr < NADDRS then Some (bus_devices B (unat addr)) else None}"

partial_function (option) start_loop
  :: "('f, 'd) i2c_callbacks \<Rightarrow> ptr \<Rightarrow> u8 \<Rightarrow> u8 \<Rightarrow> ptr \<Rightarrow> u8 \<Rightarrow> ('f, 'd) i2c \<Rightarrow> (u8 \<times> ('f, 'd) i2c) option" where
  "start_loop cb b addr rd p ret s = (if p = NULL then Some (ret, s) else do {n \<leftarrow> nodes s p;
     (ret, s) \<leftarrow> (case f_start n of None \<Rightarrow> Some (ret, s)
       | Some f \<Rightarrow> do {(v, d) \<leftarrow> on_start cb f b addr rd (f_priv n) (devs s); Some (ret OR v, s\<lparr>devs := d\<rparr>)});
     start_loop cb b addr rd (i_next n) ret s})"

definition i2c_start :: "('f, 'd) i2c_callbacks \<Rightarrow> ptr \<Rightarrow> u8 \<Rightarrow> u8 \<Rightarrow> ('f, 'd) i2c \<Rightarrow> (u8 \<times> ('f, 'd) i2c) option" where
  "i2c_start cb b addr rd s = (if b = NULL then Some (0, s)
     else do {p \<leftarrow> bus_device b addr s; start_loop cb b addr rd p 0 s})"

partial_function (option) read_loop
  :: "('f, 'd) i2c_callbacks \<Rightarrow> ptr \<Rightarrow> u8 \<Rightarrow> ptr \<Rightarrow> u8 \<Rightarrow> ('f, 'd) i2c \<Rightarrow> (u8 \<times> ('f, 'd) i2c) option" where
  "read_loop cb b addr p ret s = (if p = NULL then Some (ret, s) else do {n \<leftarrow> nodes s p;
     (case f_read n of None \<Rightarrow> read_loop cb b addr (i_next n) ret s
      | Some f \<Rightarrow> do {(v, d) \<leftarrow> on_read cb f b addr (f_priv n) (devs s); Some (v, s\<lparr>devs := d\<rparr>)})})"

definition i2c_read :: "('f, 'd) i2c_callbacks \<Rightarrow> ptr \<Rightarrow> u8 \<Rightarrow> ('f, 'd) i2c \<Rightarrow> (u8 \<times> ('f, 'd) i2c) option" where
  "i2c_read cb b addr s = (if b = NULL then Some (0, s)
     else do {p \<leftarrow> bus_device b addr s; read_loop cb b addr p 0 s})"

partial_function (option) write_loop
  :: "('f, 'd) i2c_callbacks \<Rightarrow> ptr \<Rightarrow> u8 \<Rightarrow> u8 \<Rightarrow> ptr \<Rightarrow> u8 \<Rightarrow> ('f, 'd) i2c \<Rightarrow> (u8 \<times> ('f, 'd) i2c) option" where
  "write_loop cb b addr v p ret s = (if p = NULL then Some (ret, s) else do {n \<leftarrow> nodes s p;
     (ret, s) \<leftarrow> (case f_write n of None \<Rightarrow> Some (ret, s)
       | Some f \<Rightarrow> do {(r, d) \<leftarrow> on_write cb f b addr v (f_priv n) (devs s); Some (ret OR r, s\<lparr>devs := d\<rparr>)});
     write_loop cb b addr v (i_next n) ret s})"

definition i2c_write :: "('f, 'd) i2c_callbacks \<Rightarrow> ptr \<Rightarrow> u8 \<Rightarrow> u8 \<Rightarrow> ('f, 'd) i2c \<Rightarrow> (u8 \<times> ('f, 'd) i2c) option" where
  "i2c_write cb b addr v s = (if b = NULL then Some (0, s)
     else do {p \<leftarrow> bus_device b addr s; write_loop cb b addr v p 0 s})"

partial_function (option) stop_loop
  :: "('f, 'd) i2c_callbacks \<Rightarrow> ptr \<Rightarrow> u8 \<Rightarrow> ptr \<Rightarrow> ('f, 'd) i2c \<Rightarrow> ('f, 'd) i2c option" where
  "stop_loop cb b addr p s = (if p = NULL then Some s else do {n \<leftarrow> nodes s p;
     s \<leftarrow> (case f_stop n of None \<Rightarrow> Some s
       | Some f \<Rightarrow> do {d \<leftarrow> on_stop cb f b addr (f_priv n) (devs s); Some (s\<lparr>devs := d\<rparr>)});
     stop_loop cb b addr (i_next n) s})"

definition i2c_stop :: "('f, 'd) i2c_callbacks \<Rightarrow> ptr \<Rightarrow> u8 \<Rightarrow> ('f, 'd) i2c \<Rightarrow> ('f, 'd) i2c option" where
  "i2c_stop cb b addr s = (if b = NULL then Some s
     else do {p \<leftarrow> bus_device b addr s; stop_loop cb b addr p s})"

end
