(* ===== verification/Chains.thy ===== *)
theory Chains
  imports Prelude
begin

text \<open>
  Doubly linked lists of nodes in a store, with a first and a last pointer per key: the handlers of an
  address of an I2C bus, the handlers of an I/O port. The locale \<open>linked_nodes\<close> asks of a type of nodes
  what its two links and their updates must satisfy, and proves the two operations of the C code:
  a new node at the end, and a node taken out.
\<close>

section \<open>Segments\<close>

text \<open>The nodes \<open>xs\<close> from \<open>p\<close> on, after \<open>pr\<close>, up to \<open>q\<close>; the last of them, or \<open>pr\<close>, is \<open>l\<close>.\<close>

fun segment :: "('n \<Rightarrow> ptr) \<Rightarrow> ('n \<Rightarrow> ptr) \<Rightarrow> (ptr \<Rightarrow> 'n option) \<Rightarrow> ptr \<Rightarrow> ptr \<Rightarrow> ptr \<Rightarrow> ptr \<Rightarrow> ptr list \<Rightarrow> bool" where
  "segment nxt prv h p pr q l [] \<longleftrightarrow> p = q \<and> l = pr"
| "segment nxt prv h p pr q l (x # xs) \<longleftrightarrow> p = x \<and> x \<noteq> NULL
     \<and> (\<exists>n. h x = Some n \<and> prv n = pr \<and> segment nxt prv h (nxt n) x q l xs)"

lemma segment_append:
  "segment nxt prv h p pr q l (xs @ ys) \<longleftrightarrow> (\<exists>m k. segment nxt prv h p pr m k xs \<and> segment nxt prv h m k q l ys)"
  by (induction xs arbitrary: p pr) auto

lemma segment_cong:
  "(\<And>x. x \<in> set xs \<Longrightarrow> h x = h' x) \<Longrightarrow> segment nxt prv h p pr q l xs = segment nxt prv h' p pr q l xs"
  by (induction xs arbitrary: p pr) auto

lemma segment_same:
  "segment nxt prv h p pr q l xs \<Longrightarrow> \<forall>x \<in> set xs. h' x = h x \<Longrightarrow> segment nxt prv h' p pr q l xs"
  by (metis segment_cong)

lemma segment_frame:
  "segment nxt prv h p pr q l xs \<Longrightarrow> y \<notin> set xs \<Longrightarrow> segment nxt prv (h(y := v)) p pr q l xs"
  by (rule segment_same) auto

lemma segment_last: "segment nxt prv h p pr q l xs \<Longrightarrow> l = (if xs = [] then pr else last xs)"
  by (induction xs arbitrary: p pr) auto

lemma segment_alloc: "segment nxt prv h p pr q l xs \<Longrightarrow> x \<in> set xs \<Longrightarrow> x \<noteq> NULL \<and> h x \<noteq> None"
  by (induction xs arbitrary: p pr) auto

lemma segment_head: "segment nxt prv h p pr NULL l xs \<Longrightarrow> p = NULL \<longleftrightarrow> xs = []"
  by (cases xs) auto

section \<open>Chains\<close>

text \<open>The lists of all keys, of nodes below \<open>new\<close>.\<close>

definition chains :: "('n \<Rightarrow> ptr) \<Rightarrow> ('n \<Rightarrow> ptr) \<Rightarrow> (ptr \<Rightarrow> 'n option) \<Rightarrow> ptr \<Rightarrow> ('k \<Rightarrow> ptr) \<Rightarrow> ('k \<Rightarrow> ptr) \<Rightarrow> ('k \<Rightarrow> ptr list) \<Rightarrow> bool" where
  "chains nxt prv h new fst_of lst_of L \<longleftrightarrow> (\<forall>k. segment nxt prv h (fst_of k) NULL NULL (lst_of k) (L k))
     \<and> (\<forall>k k'. k \<noteq> k' \<longrightarrow> set (L k) \<inter> set (L k') = {}) \<and> (\<forall>k. distinct (L k))
     \<and> (\<forall>k. \<forall>x \<in> set (L k). x < new) \<and> 0 < new"

lemma chainsD:
  assumes "chains nxt prv h new fs ls L"
  shows "segment nxt prv h (fs k) NULL NULL (ls k) (L k)" "distinct (L k)" "x \<in> set (L k) \<Longrightarrow> x < new"
    "x \<in> set (L k) \<Longrightarrow> h x \<noteq> None" "x \<in> set (L k) \<Longrightarrow> x \<noteq> NULL" "0 < new"
    "k \<noteq> k' \<Longrightarrow> set (L k) \<inter> set (L k') = {}"
  using assms segment_alloc [of nxt prv h "fs k" NULL NULL "ls k" "L k" x] unfolding chains_def by blast+

lemma chains_update:
  fixes k :: 'k
  assumes c: "chains nxt prv h new fs ls L" and nn: "new \<le> new'"
    and kept: "\<And>x. x < new \<Longrightarrow> x \<notin> set (L k) \<Longrightarrow> h' x = h x"
    and seg: "segment nxt prv h' (fs' k) NULL NULL (ls' k) xs'"
    and others: "\<And>k'. k' \<noteq> k \<Longrightarrow> fs' k' = fs k' \<and> ls' k' = ls k'"
    and xs': "distinct xs'" "set xs' \<subseteq> set (L k) \<union> {new..<new'}"
  shows "chains nxt prv h' new' fs' ls' (L(k := xs'))"
proof -
  note d = chainsD [OF c]
  have new: "set xs' \<inter> set (L k') = {}" if "k' \<noteq> k" for k'
    using xs'(2) d(7) [of k' k] d(3) [of _ k'] that by fastforce
  show ?thesis unfolding chains_def
  proof (intro conjI allI impI)
    fix k' :: 'k show "segment nxt prv h' (fs' k') NULL NULL (ls' k') ((L(k := xs')) k')"
    proof (cases "k' = k")
      case False
      then have "\<forall>x \<in> set (L k'). h' x = h x" using kept d(3,7) by blast
      then show ?thesis using False others [of k'] segment_same [OF d(1)] by simp
    qed (use seg in simp)
  next
    fix k1 k2 :: 'k assume "k1 \<noteq> k2"
    then show "set ((L(k := xs')) k1) \<inter> set ((L(k := xs')) k2) = {}"
      using d(7) [of k1 k2] new [of k1] new [of k2] by auto
  next
    fix k1 :: 'k show "distinct ((L(k := xs')) k1)" using d(2) xs'(1) by auto
  next
    fix k1 :: 'k
    have "x < new'" if "x \<in> set (L k1)" for x using d(3) [OF that] nn by simp
    moreover have "x < new'" if "x \<in> set xs'" for x using subsetD [OF xs'(2) that] d(3) nn by fastforce
    ultimately show "\<forall>x \<in> set ((L(k := xs')) k1). x < new'" by simp
  qed (use d(6) nn in simp)
qed

lemma chains_clear:
  assumes c: "chains nxt prv h new fs ls L"
    and keep: "\<And>k. k \<notin> K \<Longrightarrow> fs' k = fs k \<and> ls' k = ls k \<and> L' k = L k" "\<And>k x. k \<notin> K \<Longrightarrow> x \<in> set (L k) \<Longrightarrow> h' x = h x"
    and clear: "\<And>k. k \<in> K \<Longrightarrow> fs' k = NULL \<and> ls' k = NULL \<and> L' k = []"
  shows "chains nxt prv h' new fs' ls' L'"
proof -
  note d = chainsD [OF c]
  have L': "L' k = (if k \<in> K then [] else L k)" for k using keep(1) clear by auto
  have "segment nxt prv h' (fs' k) NULL NULL (ls' k) (L' k)" for k
    using keep [of k] clear [of k] segment_same [OF d(1) [of k], of h'] by (cases "k \<in> K") auto
  then show ?thesis unfolding chains_def using d(2,3,6,7) by (auto simp: L')
qed

text \<open>What becomes of the links of the neighbours of a node that is taken out.\<close>

definition taken_out :: "('n \<Rightarrow> ptr) \<Rightarrow> ('n \<Rightarrow> ptr) \<Rightarrow> (ptr \<Rightarrow> 'n \<Rightarrow> 'n) \<Rightarrow> (ptr \<Rightarrow> 'n \<Rightarrow> 'n) \<Rightarrow> ptr \<Rightarrow> 'n \<Rightarrow> (ptr \<Rightarrow> 'n option) \<Rightarrow> ptr \<Rightarrow> 'n option" where
  "taken_out nxt prv set_nxt set_prv x n h = (\<lambda>y. if y = x then None
     else map_option ((if y = prv n \<and> prv n \<noteq> NULL then set_nxt (nxt n) else id)
       \<circ> (if y = nxt n \<and> nxt n \<noteq> NULL then set_prv (prv n) else id)) (h y))"

locale linked_nodes =
  fixes nxt prv :: "'n \<Rightarrow> ptr" and set_nxt set_prv :: "ptr \<Rightarrow> 'n \<Rightarrow> 'n"
  assumes links [simp]: "nxt (set_nxt q n) = q" "prv (set_nxt q n) = prv n"
    "nxt (set_prv q n) = nxt n" "prv (set_prv q n) = q"
begin

lemma segment_set_next:
  assumes "segment nxt prv h p pr q l xs" and "xs \<noteq> []" and "distinct xs" and "h l = Some n"
  shows "segment nxt prv (h(l \<mapsto> set_nxt q' n)) p pr q' l xs"
proof -
  obtain ys where xs: "xs = ys @ [l]"
    using assms(2) segment_last [OF assms(1)] by (metis append_butlast_last_id)
  then obtain k where "segment nxt prv h p pr l k ys" "segment nxt prv h l k q l [l]"
    using assms(1) by (auto simp: segment_append)
  moreover from this have "segment nxt prv (h(l \<mapsto> set_nxt q' n)) p pr l k ys"
    using assms(3) xs by (intro segment_frame) auto
  ultimately show ?thesis
    using assms(4) by (auto simp: xs segment_append intro!: exI [of _ l] exI [of _ k])
qed

lemma segment_set_prev:
  assumes "segment nxt prv h x pr q l (x # xs)" and "x \<notin> set xs" and "h x = Some n"
  shows "segment nxt prv (h(x \<mapsto> set_prv pr' n)) x pr' q l (x # xs)"
  using assms segment_frame [of nxt prv h _ x q l xs x] by auto

lemma append_first:
  assumes c: "chains nxt prv h new fs ls L" and "ls k = NULL" and n: "nxt n = NULL" "prv n = NULL"
  shows "chains nxt prv (h(new \<mapsto> n)) (Suc new) (fs(k := new)) (ls(k := new)) (L(k := L k @ [new]))"
proof -
  note d = chainsD [OF c]
  have "L k = []" using segment_last [OF d(1) [of k]] d(5) [of "last (L k)" k] assms(2) by (metis last_in_set)
  then show ?thesis using d(6) n by (intro chains_update [OF c]) auto
qed

lemma append_last:
  assumes c: "chains nxt prv h new fs ls L" and p: "ls k = p" "p \<noteq> NULL" and n: "nxt n = NULL" "prv n = p"
  obtains m where "h p = Some m" "p \<noteq> new"
    "chains nxt prv (h(new \<mapsto> n, p \<mapsto> set_nxt new m)) (Suc new) fs (ls(k := new)) (L(k := L k @ [new]))"
proof -
  note d = chainsD [OF c]
  have L: "L k \<noteq> []" "p = last (L k)" using segment_last [OF d(1) [of k]] p by (auto split: if_splits)
  then have pk: "p \<in> set (L k)" "new \<notin> set (L k)" using d(3) [of new k] by auto
  then have pn: "p \<noteq> new" "new \<noteq> p" by auto
  obtain m where m: "h p = Some m" using d(4) [OF pk(1)] by blast
  have "segment nxt prv (h(p \<mapsto> set_nxt new m)) (fs k) NULL new p (L k)"
    using segment_set_next [OF d(1) [of k] L(1) d(2)] m p(1) by simp
  then have "segment nxt prv (h(p \<mapsto> set_nxt new m, new \<mapsto> n)) (fs k) NULL new p (L k)"
    by (rule segment_frame) (rule pk(2))
  then have "segment nxt prv (h(new \<mapsto> n, p \<mapsto> set_nxt new m)) (fs k) NULL new p (L k)"
    using pn by (simp add: fun_upd_twist)
  then have "chains nxt prv (h(new \<mapsto> n, p \<mapsto> set_nxt new m)) (Suc new) fs (ls(k := new)) (L(k := L k @ [new]))"
    using d(2,6) pk pn n by (intro chains_update [OF c]) (auto simp: segment_append)
  then show ?thesis using that m pn by blast
qed

lemma take_out:
  assumes c: "chains nxt prv h new fs ls L" and L: "L k = xs @ x # ys" and n: "h x = Some n"
  shows "prv n \<noteq> NULL \<Longrightarrow> h (prv n) \<noteq> None" "nxt n \<noteq> NULL \<Longrightarrow> h (nxt n) \<noteq> None" "prv n \<noteq> x" "nxt n \<noteq> x" "nxt n = prv n \<Longrightarrow> nxt n = NULL"
    "chains nxt prv (taken_out nxt prv set_nxt set_prv x n h) new (if prv n = NULL then fs(k := nxt n) else fs)
       (if nxt n = NULL then ls(k := prv n) else ls) (L(k := xs @ ys))"
proof -
  note d = chainsD [OF c]
  let ?h = "taken_out nxt prv set_nxt set_prv x n h"
  have dist: "distinct xs" "distinct ys" "x \<notin> set xs" "x \<notin> set ys" "set xs \<inter> set ys = {}"
    using d(2) [of k] by (auto simp: L)
  obtain l where l: "segment nxt prv h (fs k) NULL x l xs" "prv n = l" "segment nxt prv h (nxt n) x NULL (ls k) ys"
    using d(1) [of k] n by (auto simp: L segment_append)
  have pl: "l = (if xs = [] then NULL else last xs)" using segment_last [OF l(1)] by simp
  have nx: "nxt n = (if ys = [] then NULL else hd ys)" using l(3) by (cases ys) auto
  have lk: "ls k = (if ys = [] then x else last ys)" using segment_last [OF l(3)] by simp
  have nz: "y \<noteq> NULL \<and> h y \<noteq> None" if "y \<in> set xs \<union> set ys" for y
    using segment_alloc [OF l(1)] segment_alloc [OF l(3)] that by blast
  have x: "x \<noteq> NULL" using d(5) [of x k] L by simp
  show a: "prv n \<noteq> NULL \<Longrightarrow> h (prv n) \<noteq> None" "nxt n \<noteq> NULL \<Longrightarrow> h (nxt n) \<noteq> None"
    using pl nx nz l(2) by (auto split: if_splits)
  show b: "prv n \<noteq> x" "nxt n \<noteq> x" using pl nx l(2) x dist(3,4) by (auto split: if_splits)
  show e: "nxt n = prv n \<Longrightarrow> nxt n = NULL"
    using pl nx l(2) dist(5) by (metis disjoint_iff hd_in_set last_in_set)
  \<comment> \<open>the nodes before and after it\<close>
  have "segment nxt prv ?h (if prv n = NULL then nxt n else fs k) NULL (nxt n) l xs"
  proof (cases "xs = []")
    case True
    then show ?thesis using pl l(2) by simp
  next
    case False
    then have l': "l \<in> set xs" "l = last xs" using pl by auto
    then obtain m where m: "h l = Some m" "l \<noteq> NULL" using nz by blast
    have "segment nxt prv (h(l \<mapsto> set_nxt (nxt n) m)) (fs k) NULL (nxt n) l xs"
      by (rule segment_set_next [OF l(1) False dist(1) m(1)])
    moreover have "\<forall>y \<in> set xs. ?h y = (h(l \<mapsto> set_nxt (nxt n) m)) y"
    proof
      fix y assume y: "y \<in> set xs"
      then have "y \<noteq> nxt n \<or> nxt n = NULL" using nx dist(5) by (auto split: if_splits)
      moreover have "y \<noteq> x" using y dist(3) by blast
      ultimately show "?h y = (h(l \<mapsto> set_nxt (nxt n) m)) y"
        using m l(2) by (auto simp: taken_out_def map_option_case split: option.split)
    qed
    ultimately have "segment nxt prv ?h (fs k) NULL (nxt n) l xs" by (rule segment_same)
    then show ?thesis using m l(2) by simp
  qed
  moreover have "segment nxt prv ?h (nxt n) l NULL (if nxt n = NULL then l else ls k) ys"
  proof (cases ys)
    case Nil
    then show ?thesis using nx by simp
  next
    case (Cons y zs)
    then have y: "nxt n = y" "y \<in> set ys" using nx by auto
    then obtain m where m: "h y = Some m" "y \<noteq> NULL" using nz by blast
    have "segment nxt prv (h(y \<mapsto> set_prv l m)) y l NULL (ls k) (y # zs)"
      using l(3) dist(2) m(1) y(1) Cons by (intro segment_set_prev [of _ _ x]) auto
    moreover have "\<forall>z \<in> set (y # zs). ?h z = (h(y \<mapsto> set_prv l m)) z"
    proof
      fix z assume "z \<in> set (y # zs)"
      then have z: "z \<in> set ys" using Cons by simp
      then have "z \<noteq> prv n \<or> prv n = NULL" using pl l(2) dist(5) last_in_set [of xs] by (metis disjoint_iff)
      moreover have "z \<noteq> x" using z dist(4) by blast
      ultimately show "?h z = (h(y \<mapsto> set_prv l m)) z"
        using m l(2) y(1) by (auto simp: taken_out_def map_option_case split: option.split)
    qed
    ultimately have "segment nxt prv ?h y l NULL (ls k) (y # zs)" by (rule segment_same)
    then show ?thesis using m y(1) Cons by simp
  qed
  ultimately have "segment nxt prv ?h (if prv n = NULL then nxt n else fs k) NULL NULL (if nxt n = NULL then l else ls k) (xs @ ys)"
    unfolding segment_append by blast
  then have s: "segment nxt prv ?h ((if prv n = NULL then fs(k := nxt n) else fs) k) NULL NULL
      ((if nxt n = NULL then ls(k := prv n) else ls) k) (xs @ ys)"
    using l(2) by (auto split: if_splits)
  have "?h y = h y" if "y \<notin> set (L k)" for y
  proof -
    have "y \<noteq> x" "y \<noteq> prv n \<or> prv n = NULL" "y \<noteq> nxt n \<or> nxt n = NULL"
      using that pl nx l(2) by (auto simp: L split: if_splits)
    then show ?thesis by (auto simp: taken_out_def map_option_case split: option.split)
  qed
  then show "chains nxt prv ?h new (if prv n = NULL then fs(k := nxt n) else fs)
      (if nxt n = NULL then ls(k := prv n) else ls) (L(k := xs @ ys))"
    using s dist by (intro chains_update [OF c]) (auto simp: L)
qed

end

end
