(* ===== verification/I2c_Spec.thy ===== *)
theory I2c_Spec
  imports I2c Chains
begin

text \<open>
  The I2C bus refines a table of lists: joining appends a handler at the addresses of a range, leaving
  removes its first occurrence there, and a transfer calls the handlers of an address in order.
\<close>

section \<open>The table of lists\<close>

record ('f, 'd) i2c_table =
  t_buses :: "ptr \<Rightarrow> (string \<times> (nat \<Rightarrow> 'f i2c_fns list)) option"
  t_new :: ptr
  t_devs :: 'd

datatype 'f i2c_op = Addbus string | Removebus ptr | Sethandler ptr u8 nat "'f i2c_fns"
  | Removehandler ptr u8 nat "'f i2c_fns" | Start ptr u8 u8 | Read ptr u8 | Write ptr u8 u8 | Stop ptr u8

datatype i2c_result = Done | Handle ptr | Byte u8

fun call_start :: "('f, 'd) i2c_callbacks \<Rightarrow> ptr \<Rightarrow> u8 \<Rightarrow> u8 \<Rightarrow> 'f i2c_fns list \<Rightarrow> u8 \<Rightarrow> 'd \<Rightarrow> (u8 \<times> 'd) option" where
  "call_start cb b addr rd [] ret d = Some (ret, d)"
| "call_start cb b addr rd (h # hs) ret d = (case f_start h of None \<Rightarrow> call_start cb b addr rd hs ret d
     | Some f \<Rightarrow> do {(v, d) \<leftarrow> on_start cb f b addr rd (f_priv h) d; call_start cb b addr rd hs (ret OR v) d})"

fun call_read :: "('f, 'd) i2c_callbacks \<Rightarrow> ptr \<Rightarrow> u8 \<Rightarrow> 'f i2c_fns list \<Rightarrow> 'd \<Rightarrow> (u8 \<times> 'd) option" where
  "call_read cb b addr [] d = Some (0, d)"
| "call_read cb b addr (h # hs) d = (case f_read h of None \<Rightarrow> call_read cb b addr hs d
     | Some f \<Rightarrow> on_read cb f b addr (f_priv h) d)"

fun call_write :: "('f, 'd) i2c_callbacks \<Rightarrow> ptr \<Rightarrow> u8 \<Rightarrow> u8 \<Rightarrow> 'f i2c_fns list \<Rightarrow> u8 \<Rightarrow> 'd \<Rightarrow> (u8 \<times> 'd) option" where
  "call_write cb b addr v [] ret d = Some (ret, d)"
| "call_write cb b addr v (h # hs) ret d = (case f_write h of None \<Rightarrow> call_write cb b addr v hs ret d
     | Some f \<Rightarrow> do {(r, d) \<leftarrow> on_write cb f b addr v (f_priv h) d; call_write cb b addr v hs (ret OR r) d})"

fun call_stop :: "('f, 'd) i2c_callbacks \<Rightarrow> ptr \<Rightarrow> u8 \<Rightarrow> 'f i2c_fns list \<Rightarrow> 'd \<Rightarrow> 'd option" where
  "call_stop cb b addr [] d = Some d"
| "call_stop cb b addr (h # hs) d = (case f_stop h of None \<Rightarrow> call_stop cb b addr hs d
     | Some f \<Rightarrow> do {d \<leftarrow> on_stop cb f b addr (f_priv h) d; call_stop cb b addr hs d})"

definition on_range :: "ptr \<Rightarrow> u8 \<Rightarrow> nat \<Rightarrow> ('f i2c_fns list \<Rightarrow> 'f i2c_fns list) \<Rightarrow> ('f, 'd) i2c_table \<Rightarrow> ('f, 'd) i2c_table option" where
  "on_range b base sz g t = (if b = NULL \<or> unat base + sz > NADDRS then Some t else
     do {(nm, T) \<leftarrow> t_buses t b;
       Some (t\<lparr>t_buses := (t_buses t)(b \<mapsto> (nm, \<lambda>a. if a \<in> {unat base..<unat base + sz} then g (T a) else T a))\<rparr>)})"

definition on_list :: "ptr \<Rightarrow> u8 \<Rightarrow> ('f i2c_fns list \<Rightarrow> 'd \<Rightarrow> (u8 \<times> 'd) option) \<Rightarrow> ('f, 'd) i2c_table \<Rightarrow> (i2c_result \<times> ('f, 'd) i2c_table) option" where
  "on_list b addr call t = (if b = NULL then Some (Byte 0, t) else
     do {(nm, T) \<leftarrow> t_buses t b;
       if unat addr < NADDRS then do {(v, d) \<leftarrow> call (T (unat addr)) (t_devs t); Some (Byte v, t\<lparr>t_devs := d\<rparr>)} else None})"

fun table_step :: "('f, 'd) i2c_callbacks \<Rightarrow> 'f i2c_op \<Rightarrow> ('f, 'd) i2c_table \<Rightarrow> (i2c_result \<times> ('f, 'd) i2c_table) option" where
  "table_step cb (Addbus nm) t =
     Some (Handle (t_new t), t\<lparr>t_new := Suc (t_new t), t_buses := (t_buses t)(t_new t \<mapsto> (nm, \<lambda>_. []))\<rparr>)"
| "table_step cb (Removebus b) t = (if b = NULL then Some (Done, t) else
     do {_ \<leftarrow> t_buses t b; Some (Done, t\<lparr>t_buses := (t_buses t)(b := None)\<rparr>)})"
| "table_step cb (Sethandler b base sz h) t = do {t \<leftarrow> on_range b base sz (\<lambda>hs. hs @ [h]) t; Some (Done, t)}"
| "table_step cb (Removehandler b base sz h) t = do {t \<leftarrow> on_range b base sz (remove1 h) t; Some (Done, t)}"
| "table_step cb (Start b addr rd) t = on_list b addr (\<lambda>hs. call_start cb b addr rd hs 0) t"
| "table_step cb (Read b addr) t = on_list b addr (call_read cb b addr) t"
| "table_step cb (Write b addr v) t = on_list b addr (\<lambda>hs. call_write cb b addr v hs 0) t"
| "table_step cb (Stop b addr) t =
     on_list b addr (\<lambda>hs d. do {d \<leftarrow> call_stop cb b addr hs d; Some (0, d)}) t"

fun i2c_step :: "('f, 'd) i2c_callbacks \<Rightarrow> 'f i2c_op \<Rightarrow> ('f, 'd) i2c \<Rightarrow> (i2c_result \<times> ('f, 'd) i2c) option" where
  "i2c_step cb (Addbus nm) s = (let (b, s) = i2c_addbus nm s in Some (Handle b, s))"
| "i2c_step cb (Removebus b) s = do {s \<leftarrow> i2c_removebus b s; Some (Done, s)}"
| "i2c_step cb (Sethandler b base sz h) s = do {s \<leftarrow> i2c_handler True b base sz h s; Some (Done, s)}"
| "i2c_step cb (Removehandler b base sz h) s = do {s \<leftarrow> i2c_handler False b base sz h s; Some (Done, s)}"
| "i2c_step cb (Start b addr rd) s = do {(v, s) \<leftarrow> i2c_start cb b addr rd s; Some (Byte v, s)}"
| "i2c_step cb (Read b addr) s = do {(v, s) \<leftarrow> i2c_read cb b addr s; Some (Byte v, s)}"
| "i2c_step cb (Write b addr v) s = do {(r, s) \<leftarrow> i2c_write cb b addr v s; Some (Byte r, s)}"
| "i2c_step cb (Stop b addr) s = do {s \<leftarrow> i2c_stop cb b addr s; Some (Byte 0, s)}"

section \<open>Ownership\<close>

text \<open>The lists of a state: which nodes each bus has at each address.\<close>

definition head_of :: "('f, 'd) i2c \<Rightarrow> ptr \<times> nat \<Rightarrow> ptr" where
  "head_of s = (\<lambda>(b, a). case buses s b of None \<Rightarrow> NULL | Some B \<Rightarrow> if a < NADDRS then bus_devices B a else NULL)"

definition tail_of :: "('f, 'd) i2c \<Rightarrow> ptr \<times> nat \<Rightarrow> ptr" where
  "tail_of s = (\<lambda>(b, a). case buses s b of None \<Rightarrow> NULL | Some B \<Rightarrow> if a < NADDRS then bus_last B a else NULL)"

definition i2c_chains :: "(ptr \<Rightarrow> nat \<Rightarrow> ptr list) \<Rightarrow> ('f, 'd) i2c \<Rightarrow> bool" where
  "i2c_chains L s \<longleftrightarrow> chains i_next i_prev (nodes s) (new_node s) (head_of s) (tail_of s) (case_prod L)"

definition owned :: "(ptr \<Rightarrow> nat \<Rightarrow> ptr list) \<Rightarrow> ('f, 'd) i2c \<Rightarrow> bool" where
  "owned L s \<longleftrightarrow> (\<forall>b B. buses s b = Some B \<longrightarrow> b \<noteq> NULL \<and> b < new_bus s) \<and> i2c_chains L s \<and> 0 < new_bus s"

interpretation i2c_links: linked_nodes i_next i_prev "\<lambda>q. i_next_update (\<lambda>_. q)" "\<lambda>p. i_prev_update (\<lambda>_. p)"
  by unfold_locales simp_all

abbreviation (input) upd2 :: "(ptr \<Rightarrow> nat \<Rightarrow> 'x) \<Rightarrow> ptr \<Rightarrow> nat \<Rightarrow> 'x \<Rightarrow> ptr \<Rightarrow> nat \<Rightarrow> 'x" where
  "upd2 L b a v \<equiv> L(b := (L b)(a := v))"

lemma upd2_pair: "case_prod (upd2 L b a v) = (case_prod L)((b, a) := v)"
  by (auto simp: fun_eq_iff)

lemma owned_chains:
  assumes "owned L s"
  shows "chains i_next i_prev (nodes s) (new_node s) (head_of s) (tail_of s) (case_prod L)"
  using assms by (simp add: owned_def i2c_chains_def)

lemma owned_seg:
  assumes "owned L s" and "buses s b = Some B" and "a < NADDRS"
  shows "segment i_next i_prev (nodes s) (bus_devices B a) NULL NULL (bus_last B a) (L b a)" "distinct (L b a)"
    "\<And>x. x \<in> set (L b a) \<Longrightarrow> x < new_node s" "b \<noteq> NULL"
  using chainsD(1,2) [OF owned_chains [OF assms(1)], of "(b, a)"] chainsD(3) [OF owned_chains [OF assms(1)], of _ "(b, a)"] assms
  by (simp_all add: head_of_def tail_of_def owned_def)

lemma owned_empty:
  assumes "owned L s" and "buses s b = None \<or> NADDRS \<le> a"
  shows "L b a = []"
proof -
  have "head_of s (b, a) = NULL" using assms(2) by (auto simp: head_of_def split: option.split)
  then show ?thesis using segment_head [OF chainsD(1) [OF owned_chains [OF assms(1)], of "(b, a)"]] by simp
qed

lemma owned_disjoint:
  assumes "owned L s" and "(b, a) \<noteq> (b', a')"
  shows "set (L b a) \<inter> set (L b' a') = {}"
  using chainsD(7) [OF owned_chains [OF assms(1)] assms(2)] by simp

lemma heads_update:
  assumes "buses s b = Some B" and "a < NADDRS"
    and "\<And>e. e \<noteq> a \<Longrightarrow> bus_devices B' e = bus_devices B e \<and> bus_last B' e = bus_last B e"
    and "buses s' = (buses s)(b \<mapsto> B')"
  shows "head_of s' = (head_of s)((b, a) := bus_devices B' a)" "tail_of s' = (tail_of s)((b, a) := bus_last B' a)"
  using assms by (auto simp: head_of_def tail_of_def fun_eq_iff split: option.splits)

lemma owned_at:
  assumes own: "owned L s" and B: "buses s b = Some B" "buses s' = (buses s)(b \<mapsto> B')" "new_bus s' = new_bus s"
    and c: "chains i_next i_prev (nodes s') (new_node s') (head_of s') (tail_of s') ((case_prod L)((b, a) := xs))"
  shows "owned (upd2 L b a xs) s'"
  using assms unfolding owned_def i2c_chains_def upd2_pair by (auto split: if_splits)

section \<open>Handlers\<close>

definition view :: "('f, 'd) i2c \<Rightarrow> ptr \<Rightarrow> 'f i2c_fns" where
  "view s x = fns_of (the (nodes s x))"

lemma fns_of_links [simp]:
  "fns_of (n\<lparr>i_next := q\<rparr>) = fns_of n" "fns_of (n\<lparr>i_prev := q\<rparr>) = fns_of n"
  "fns_of (i2c_fns.extend h m) = h"
  by (simp_all add: i2c_fns.defs i2c_t.defs)

lemma i2c_extend_links [simp]:
  "i_prev (i2c_fns.extend h \<lparr>i_prev = p, i_next = q\<rparr>) = p" "i_next (i2c_fns.extend h \<lparr>i_prev = p, i_next = q\<rparr>) = q"
  by (simp_all add: i2c_fns.defs)

lemma set_bus_fields [simp]:
  "bus_devices (set_device a p B) = (bus_devices B)(a := p)" "bus_last (set_device a p B) = bus_last B"
  "bus_devices (set_last a p B) = bus_devices B" "bus_last (set_last a p B) = (bus_last B)(a := p)"
  "bus_name (set_device a p B) = bus_name B" "bus_name (set_last a p B) = bus_name B"
  by (simp_all add: set_device_def set_last_def)

text \<open>What an operation at one address leaves alone.\<close>

definition same_buses :: "ptr \<Rightarrow> ('f, 'd) i2c \<Rightarrow> ('f, 'd) i2c \<Rightarrow> bool" where
  "same_buses b s s' \<longleftrightarrow> new_bus s' = new_bus s \<and> devs s' = devs s
     \<and> map_option bus_name \<circ> buses s' = map_option bus_name \<circ> buses s \<and> new_node s \<le> new_node s'"

lemma set_one_owned:
  assumes own: "owned L s" and B: "buses s b = Some B" and a: "a < NADDRS"
  shows "\<exists>s' x. set_one b h a s = Some s' \<and> owned (upd2 L b a (L b a @ [x])) s' \<and> same_buses b s s'
     \<and> view s' x = h \<and> (\<forall>y. nodes s y \<noteq> None \<longrightarrow> y < new_node s \<longrightarrow> view s' y = view s y)"
proof -
  let ?q = "new_node s" and ?p = "bus_last B a"
  let ?n = "\<lambda>p. i2c_fns.extend h \<lparr>i_prev = p, i_next = NULL\<rparr>"
  have t: "tail_of s (b, a) = ?p" "head_of s (b, a) = bus_devices B a" using B a by (simp_all add: tail_of_def head_of_def)
  show ?thesis
  proof (cases "?p = NULL")
    case True
    let ?B = "set_last a ?q (set_device a ?q B)"
    let ?s = "s\<lparr>new_node := Suc ?q, nodes := (nodes s)(?q \<mapsto> ?n NULL), buses := (buses s)(b \<mapsto> ?B)\<rparr>"
    have "head_of ?s = (head_of s)((b, a) := ?q)" "tail_of ?s = (tail_of s)((b, a) := ?q)"
      using heads_update [OF B a, of ?B ?s] by simp_all
    then have "owned (upd2 L b a (L b a @ [?q])) ?s"
      using i2c_links.append_first [OF owned_chains [OF own], of "(b, a)" "?n NULL"] True t(1)
      by (intro owned_at [OF own B, of _ ?B]) simp_all
    moreover have "set_one b h a s = Some ?s" using True B by (simp add: set_one_def mod_bus_def Let_def)
    ultimately show ?thesis using B
      by (intro exI [of _ ?s] exI [of _ ?q]) (auto simp: same_buses_def view_def fun_eq_iff)
  next
    case False
    obtain n where n: "nodes s ?p = Some n" "?p \<noteq> ?q"
        "chains i_next i_prev ((nodes s)(?q \<mapsto> ?n ?p, ?p \<mapsto> n\<lparr>i_next := ?q\<rparr>)) (Suc ?q) (head_of s) ((tail_of s)((b, a) := ?q))
           ((case_prod L)((b, a) := L b a @ [?q]))"
      using i2c_links.append_last [OF owned_chains [OF own] t(1) False, of "?n ?p"] by auto
    let ?B = "set_last a ?q B"
    let ?s = "s\<lparr>new_node := Suc ?q, nodes := (nodes s)(?q \<mapsto> ?n ?p, ?p \<mapsto> n\<lparr>i_next := ?q\<rparr>), buses := (buses s)(b \<mapsto> ?B)\<rparr>"
    have "head_of ?s = head_of s" "tail_of ?s = (tail_of s)((b, a) := ?q)"
      using heads_update [OF B a, of ?B ?s] t(2) by (simp_all add: fun_upd_idem)
    then have "owned (upd2 L b a (L b a @ [?q])) ?s"
      using n(3) by (intro owned_at [OF own B, of _ ?B]) simp_all
    moreover have "set_one b h a s = Some ?s"
      using False B n by (simp add: set_one_def mod_bus_def mod_node_def i2c_fns.defs Let_def fun_upd_twist)
    ultimately show ?thesis using B n
      by (intro exI [of _ ?s] exI [of _ ?q]) (auto simp: same_buses_def view_def fun_eq_iff)
  qed
qed

lemma mod_node_Some [simp]: "nodes s p = Some n \<Longrightarrow> mod_node p f s = Some (s\<lparr>nodes := (nodes s)(p \<mapsto> f n)\<rparr>)"
  by (simp add: mod_node_def)

lemma mod_bus_Some [simp]: "buses s b = Some B \<Longrightarrow> mod_bus b f s = Some (s\<lparr>buses := (buses s)(b \<mapsto> f B)\<rparr>)"
  by (simp add: mod_bus_def)

text \<open>A list \<open>xs @ x # ys\<close> without the node \<open>x\<close>.\<close>

lemma unlink_result:
  assumes B: "buses s b = Some B" and n: "nodes s x = Some n"
    and "i_prev n \<noteq> NULL \<Longrightarrow> nodes s (i_prev n) \<noteq> None" "i_next n \<noteq> NULL \<Longrightarrow> nodes s (i_next n) \<noteq> None"
    and "i_prev n \<noteq> x" "i_next n \<noteq> x" "i_next n = i_prev n \<Longrightarrow> i_next n = NULL"
    and B': "B' = (let B = (if i_prev n = NULL then set_device a (i_next n) B else B) in if i_next n = NULL then set_last a (i_prev n) B else B)"
  shows "unlink b a x n s = Some (s\<lparr>nodes := taken_out i_next i_prev (\<lambda>q. i_next_update (\<lambda>_. q)) (\<lambda>p. i_prev_update (\<lambda>_. p)) x n (nodes s),
     buses := (buses s)(b \<mapsto> B')\<rparr>)"
proof -
  let ?p = "i_prev n" and ?q = "i_next n"
  let ?sn = "\<lambda>q. i_next_update (\<lambda>_. q)" and ?sp = "\<lambda>p. i_prev_update (\<lambda>_. p)"
  let ?U = "taken_out i_next i_prev ?sn ?sp x n (nodes s)"
  consider "?p = NULL" "?q = NULL" | "?p = NULL" "?q \<noteq> NULL" | "?p \<noteq> NULL" "?q = NULL" | "?p \<noteq> NULL" "?q \<noteq> NULL" "?p \<noteq> ?q"
    using assms(7) by metis
  then show ?thesis
  proof cases
    case 1
    then have "?U = (nodes s)(x := None)" by (auto simp: taken_out_def fun_eq_iff option.map_id0)
    then show ?thesis using 1 B by (cases s) (simp add: unlink_def B' mod_bus_def)
  next
    case 2
    then obtain m where m: "nodes s ?q = Some m" using assms(4) by blast
    with 2 assms(6) have "?U = (nodes s)(?q \<mapsto> ?sp ?p m, x := None)" by (auto simp: taken_out_def fun_eq_iff option.map_id0)
    then show ?thesis using 2 B m by (cases s) (simp add: unlink_def B' mod_bus_def mod_node_def)
  next
    case 3
    then obtain m where m: "nodes s ?p = Some m" using assms(3) by blast
    with 3 assms(5) have "?U = (nodes s)(?p \<mapsto> ?sn ?q m, x := None)" by (auto simp: taken_out_def fun_eq_iff option.map_id0)
    then show ?thesis using 3 B m by (cases s) (simp add: unlink_def B' mod_bus_def mod_node_def)
  next
    case 4
    then obtain m m' where m: "nodes s ?p = Some m" "nodes s ?q = Some m'" using assms(3,4) by blast
    with 4 assms(5,6) have "?U = (nodes s)(?p \<mapsto> ?sn ?q m, ?q \<mapsto> ?sp ?p m', x := None)"
      by (auto simp: taken_out_def fun_eq_iff option.map_id0)
    then show ?thesis using 4 B m by (cases s) (simp add: unlink_def B' mod_node_def map_upd_triv)
  qed
qed

lemma unlink_owned:
  assumes own: "owned L s" and B: "buses s b = Some B" and a: "a < NADDRS"
    and L: "L b a = xs @ x # ys" and n: "nodes s x = Some n"
  shows "\<exists>s'. unlink b a x n s = Some s' \<and> owned (upd2 L b a (xs @ ys)) s' \<and> same_buses b s s'
     \<and> (\<forall>y. y \<noteq> x \<longrightarrow> nodes s y \<noteq> None \<longrightarrow> view s' y = view s y)"
proof -
  have "case_prod L (b, a) = xs @ x # ys" using L by simp
  note out = i2c_links.take_out [OF owned_chains [OF own] this n]
  let ?B = "let B = (if i_prev n = NULL then set_device a (i_next n) B else B) in if i_next n = NULL then set_last a (i_prev n) B else B"
  let ?s = "s\<lparr>nodes := taken_out i_next i_prev (\<lambda>q. i_next_update (\<lambda>_. q)) (\<lambda>p. i_prev_update (\<lambda>_. p)) x n (nodes s), buses := (buses s)(b \<mapsto> ?B)\<rparr>"
  have u: "unlink b a x n s = Some ?s" using out by (intro unlink_result [OF B n]) auto
  have t: "tail_of s (b, a) = bus_last B a" "head_of s (b, a) = bus_devices B a" using B a by (simp_all add: tail_of_def head_of_def)
  have "head_of ?s = (if i_prev n = NULL then (head_of s)((b, a) := i_next n) else head_of s)"
    "tail_of ?s = (if i_next n = NULL then (tail_of s)((b, a) := i_prev n) else tail_of s)"
    using heads_update [OF B a, of ?B ?s] t by (simp_all add: Let_def fun_upd_idem)
  then have "owned (upd2 L b a (xs @ ys)) ?s"
    using out(6) by (intro owned_at [OF own B, of _ ?B]) simp_all
  moreover have "view ?s y = view s y" if "y \<noteq> x" "nodes s y \<noteq> None" for y
    using that by (auto simp: view_def taken_out_def)
  moreover have "same_buses b s ?s" using B by (auto simp: same_buses_def fun_eq_iff Let_def)
  ultimately show ?thesis using u by blast
qed

text \<open>The walk to the first handler to remove.\<close>

lemma remove_loop_walk:
  assumes "segment i_next i_prev (nodes s) p pr q l xs" and "h \<notin> set (map (view s) xs)"
  shows "remove_loop b h a p s = remove_loop b h a q s"
  using assms
proof (induction xs arbitrary: p pr)
  case (Cons x xs)
  then obtain n where "nodes s x = Some n" "p = x" "x \<noteq> NULL" "segment i_next i_prev (nodes s) (i_next n) x q l xs" by auto
  with Cons show ?case by (subst remove_loop.simps) (auto simp: view_def)
qed simp

section \<open>Ranges of addresses\<close>

definition tables :: "(ptr \<Rightarrow> nat \<Rightarrow> ptr list) \<Rightarrow> ('f, 'd) i2c \<Rightarrow> ('f, 'd) i2c_table" where
  "tables L s = \<lparr>t_buses = (\<lambda>b. map_option (\<lambda>B. (bus_name B, \<lambda>a. map (view s) (L b a))) (buses s b)),
     t_new = new_bus s, t_devs = devs s\<rparr>"

definition represents :: "('f, 'd) i2c \<Rightarrow> ('f, 'd) i2c_table \<Rightarrow> bool" where
  "represents s t \<longleftrightarrow> (\<exists>L. owned L s \<and> t = tables L s)"

text \<open>An operation at one address of an existing bus that acts as \<open>g\<close> on the list there.\<close>

definition acts :: "ptr \<Rightarrow> (nat \<Rightarrow> ('f, 'd) i2c \<Rightarrow> ('f, 'd) i2c option) \<Rightarrow> ('f i2c_fns list \<Rightarrow> 'f i2c_fns list) \<Rightarrow> bool" where
  "acts b f g \<longleftrightarrow> (\<forall>s t a nm T. represents s t \<longrightarrow> t_buses t b = Some (nm, T) \<longrightarrow> a < NADDRS \<longrightarrow>
     (\<exists>s'. f a s = Some s' \<and> represents s' (t\<lparr>t_buses := (t_buses t)(b \<mapsto> (nm, T(a := g (T a))))\<rparr>)))"

lemma acts_intro:
  fixes f :: "nat \<Rightarrow> ('f, 'd) i2c \<Rightarrow> ('f, 'd) i2c option"
  assumes "\<And>L s B a. owned L s \<Longrightarrow> buses s b = Some B \<Longrightarrow> a < NADDRS \<Longrightarrow>
     \<exists>s' xs. f a s = Some s' \<and> owned (upd2 L b a xs) s' \<and> same_buses b s s'
       \<and> map (view s') xs = g (map (view s) (L b a)) \<and> (\<forall>c e. (c, e) \<noteq> (b, a) \<longrightarrow> map (view s') (L c e) = map (view s) (L c e))"
  shows "acts b f g"
  unfolding acts_def
proof (intro allI impI)
  fix s :: "('f, 'd) i2c" and t a nm T
  assume "represents s t" and tb: "t_buses t b = Some (nm, T)" and a: "a < NADDRS"
  then obtain L where L: "owned L s" "t = tables L s" by (auto simp: represents_def)
  then obtain B where B: "buses s b = Some B" "nm = bus_name B" "T = (\<lambda>a. map (view s) (L b a))"
    using tb by (auto simp: tables_def)
  obtain s' xs where s': "f a s = Some s'" "owned (upd2 L b a xs) s'" "same_buses b s s'"
      "map (view s') xs = g (map (view s) (L b a))"
      "\<forall>c e. (c, e) \<noteq> (b, a) \<longrightarrow> map (view s') (L c e) = map (view s) (L c e)"
    using assms [OF L(1) B(1) a] by blast
  have nm: "map_option bus_name (buses s' c) = map_option bus_name (buses s c)" for c
    using s'(3) by (auto simp: same_buses_def fun_eq_iff)
  have "t_buses (tables (upd2 L b a xs) s') = (t_buses (tables L s))(b \<mapsto> (nm, T(a := g (T a))))"
  proof (rule ext)
    fix c
    show "t_buses (tables (upd2 L b a xs) s') c = ((t_buses (tables L s))(b \<mapsto> (nm, T(a := g (T a))))) c"
    proof (cases "c = b")
      case True
      have "(\<lambda>e. map (view s') (upd2 L b a xs b e)) = T(a := g (T a))" using s'(4,5) B(3) by (auto simp: fun_eq_iff)
      then show ?thesis using True nm [of b] B(1,2) by (auto simp: tables_def)
    next
      case False
      have "(\<lambda>e. map (view s') (upd2 L b a xs c e)) = (\<lambda>e. map (view s) (L c e))" using s'(5) False by (auto simp: fun_eq_iff)
      then show ?thesis using False nm [of c] by (cases "buses s' c"; cases "buses s c") (auto simp: tables_def)
    qed
  qed
  then have "tables (upd2 L b a xs) s' = t\<lparr>t_buses := (t_buses t)(b \<mapsto> (nm, T(a := g (T a))))\<rparr>"
    using s'(3) by (simp add: L(2) same_buses_def tables_def)
  then show "\<exists>s'. f a s = Some s' \<and> represents s' (t\<lparr>t_buses := (t_buses t)(b \<mapsto> (nm, T(a := g (T a))))\<rparr>)"
    using s'(1,2) by (auto simp: represents_def)
qed

definition remove_one :: "ptr \<Rightarrow> 'f i2c_fns \<Rightarrow> nat \<Rightarrow> ('f, 'd) i2c \<Rightarrow> ('f, 'd) i2c option" where
  "remove_one b h a s = do {B \<leftarrow> buses s b; remove_loop b h a (bus_devices B a) s}"

lemma owned_alloc:
  assumes "owned L s" and "x \<in> set (L b a)"
  shows "nodes s x \<noteq> None" "x < new_node s"
  using chainsD(3,4) [OF owned_chains [OF assms(1)], of x "(b, a)"] assms(2) by simp_all

lemma set_one_acts: "acts b (set_one b h) (\<lambda>hs. hs @ [h])"
proof (rule acts_intro)
  fix L :: "ptr \<Rightarrow> nat \<Rightarrow> ptr list" and s :: "('a, 'b) i2c" and B a
  assume own: "owned L s" and B: "buses s b = Some B" "a < NADDRS"
  then obtain s' x where s': "set_one b h a s = Some s'" "owned (upd2 L b a (L b a @ [x])) s'" "same_buses b s s'"
      "view s' x = h" "\<forall>y. nodes s y \<noteq> None \<longrightarrow> y < new_node s \<longrightarrow> view s' y = view s y"
    using set_one_owned by blast
  have "map (view s') (L c e) = map (view s) (L c e)" for c e
    using s'(5) owned_alloc [OF own] by (intro map_cong) auto
  then show "\<exists>s' xs. set_one b h a s = Some s' \<and> owned (upd2 L b a xs) s' \<and> same_buses b s s'
      \<and> map (view s') xs = map (view s) (L b a) @ [h]
      \<and> (\<forall>c e. (c, e) \<noteq> (b, a) \<longrightarrow> map (view s') (L c e) = map (view s) (L c e))"
    using s' by (intro exI [of _ s'] exI [of _ "L b a @ [x]"]) simp
qed

lemma remove_one_acts: "acts b (remove_one b h) (remove1 h)"
proof (rule acts_intro)
  fix L :: "ptr \<Rightarrow> nat \<Rightarrow> ptr list" and s :: "('a, 'b) i2c" and B a
  assume own: "owned L s" and B: "buses s b = Some B" and a: "a < NADDRS"
  note seg = owned_seg [OF own B a]
  let ?ex = "\<exists>s' xs. remove_one b h a s = Some s' \<and> owned (upd2 L b a xs) s' \<and> same_buses b s s'
      \<and> map (view s') xs = remove1 h (map (view s) (L b a))
      \<and> (\<forall>c e. (c, e) \<noteq> (b, a) \<longrightarrow> map (view s') (L c e) = map (view s) (L c e))"
  show ?ex
  proof (cases "h \<in> set (map (view s) (L b a))")
    case False
    then have "remove_one b h a s = remove_loop b h a NULL s"
      using remove_loop_walk [OF seg(1)] B by (simp add: remove_one_def)
    also have "\<dots> = Some s" by (subst remove_loop.simps) simp
    finally show ?thesis using own False
      by (intro exI [of _ s] exI [of _ "L b a"]) (simp add: same_buses_def remove1_idem)
  next
    case True
    then obtain us vs where split: "map (view s) (L b a) = us @ h # vs" "h \<notin> set us"
      by (meson split_list_first)
    then obtain xs x ys where L: "L b a = xs @ x # ys" "map (view s) xs = us" "view s x = h" "map (view s) ys = vs"
      by (auto simp: map_eq_append_conv map_eq_Cons_conv)
    obtain l where xs: "segment i_next i_prev (nodes s) (bus_devices B a) NULL x l xs" using seg(1) by (auto simp: L(1) segment_append)
    obtain n where n: "nodes s x = Some n" "fns_of n = h" "x \<noteq> NULL"
      using owned_alloc [OF own, of x b a] segment_alloc [OF seg(1), of x] L(1,3) by (auto simp: view_def)
    have "remove_one b h a s = remove_loop b h a x s"
      using remove_loop_walk [OF xs] split(2) L(2) B by (simp add: remove_one_def)
    also have "\<dots> = unlink b a x n s" using n by (subst remove_loop.simps) simp
    finally have *: "remove_one b h a s = unlink b a x n s" .
    obtain s' where s': "unlink b a x n s = Some s'" "owned (upd2 L b a (xs @ ys)) s'" "same_buses b s s'"
        "\<forall>y. y \<noteq> x \<longrightarrow> nodes s y \<noteq> None \<longrightarrow> view s' y = view s y" using unlink_owned [OF own B a L(1) n(1)] by blast
    have x: "x \<notin> set (L c e)" if "(c, e) \<noteq> (b, a)" for c e
      using owned_disjoint [OF own that] L(1) by auto
    have "map (view s') (L c e) = map (view s) (L c e)" if "(c, e) \<noteq> (b, a)" for c e
    proof (rule map_cong)
      fix y assume "y \<in> set (L c e)"
      then show "view s' y = view s y" using s'(4) x [OF that] owned_alloc(1) [OF own] by metis
    qed simp
    moreover have "map (view s') (xs @ ys) = remove1 h (map (view s) (L b a))"
    proof (rule trans [OF map_cong])
      fix y assume "y \<in> set (xs @ ys)"
      then have "y \<noteq> x" "y \<in> set (L b a)" using seg(2) L(1) by auto
      then show "view s' y = view s y" using s'(4) owned_alloc(1) [OF own] by metis
    qed (use split L in \<open>auto simp: remove1_append\<close>)
    ultimately show ?thesis using * s'(1-3) by (intro exI [of _ s'] exI [of _ "xs @ ys"]) simp
  qed
qed

text \<open>The loop over a range of addresses.\<close>

lemma each_loops: "set_each b h = each (set_one b h)" "remove_each b h = each (remove_one b h)"
proof -
  have "set_each b h as = each (set_one b h) as" for as :: "nat list" and b and h :: "'f i2c_fns"
    by (induction as) (rule ext, simp)+
  then show "set_each b h = each (set_one b h)" by blast
  have "remove_each b h as = each (remove_one b h) as" for as :: "nat list" and b and h :: "'f i2c_fns"
    by (induction as) (rule ext, simp add: remove_one_def)+
  then show "remove_each b h = each (remove_one b h)" by blast
qed

lemma each_acts:
  assumes "acts b f g" and "distinct as" and "\<forall>a \<in> set as. a < NADDRS"
    and "represents s t" and "t_buses t b = Some (nm, T)"
  shows "\<exists>s'. each f as s = Some s'
     \<and> represents s' (t\<lparr>t_buses := (t_buses t)(b \<mapsto> (nm, \<lambda>a. if a \<in> set as then g (T a) else T a))\<rparr>)"
  using assms(2-5)
proof (induction as arbitrary: s t T)
  case Nil
  have "(t_buses t)(b \<mapsto> (nm, T)) = t_buses t" using Nil(4) by (rule map_upd_triv)
  then have "t\<lparr>t_buses := (t_buses t)(b \<mapsto> (nm, T))\<rparr> = t" by (cases t) (simp only: i2c_table.simps)
  then show ?case using Nil(3) by (simp only: each.simps list.set empty_iff if_False) blast
next
  case (Cons a as)
  let ?t = "t\<lparr>t_buses := (t_buses t)(b \<mapsto> (nm, T(a := g (T a))))\<rparr>"
  obtain s1 where s1: "f a s = Some s1" "represents s1 ?t"
    using assms(1) [unfolded acts_def, rule_format, OF Cons.prems(3,4), of a] Cons.prems(2) by auto
  have upd: "(\<lambda>e. if e \<in> set as then g ((T(a := g (T a))) e) else (T(a := g (T a))) e)
      = (\<lambda>e. if e \<in> set (a # as) then g (T e) else T e)"
    using Cons.prems(1) by (auto simp: fun_eq_iff)
  have tb: "t_buses ?t b = Some (nm, T(a := g (T a)))" by simp
  have t: "?t\<lparr>t_buses := (t_buses ?t)(b \<mapsto> v)\<rparr> = t\<lparr>t_buses := (t_buses t)(b \<mapsto> v)\<rparr>" for v by simp
  have "distinct as" "\<forall>a \<in> set as. a < NADDRS" using Cons.prems(1,2) by auto
  from Cons.IH [OF this s1(2) tb] show ?case
    unfolding upd t each.simps s1(1) Option.bind_lunit .
qed

lemma range_acts:
  assumes "acts b f g" and "represents s t"
    and "on_range b base sz g t = Some t'"
    and "F s = (if b = NULL \<or> unat base + sz > NADDRS then Some s else each f [unat base..<unat base + sz] s)"
  shows "\<exists>s'. F s = Some s' \<and> represents s' t'"
proof (cases "b = NULL \<or> unat base + sz > NADDRS")
  case True
  then show ?thesis using assms by (auto simp: on_range_def)
next
  case False
  then obtain nm T where "t_buses t b = Some (nm, T)"
      "t' = t\<lparr>t_buses := (t_buses t)(b \<mapsto> (nm, \<lambda>a. if a \<in> set [unat base..<unat base + sz] then g (T a) else T a))\<rparr>"
    using assms(3) by (auto simp: on_range_def bind_eq_Some_conv)
  then show ?thesis
    using each_acts [OF assms(1) _ _ assms(2), of "[unat base..<unat base + sz]"] False assms(4) by auto
qed

section \<open>Transfers\<close>

definition with_devs :: "('f, 'd) i2c \<Rightarrow> (u8 \<times> 'd) option \<Rightarrow> (u8 \<times> ('f, 'd) i2c) option" where
  "with_devs s r = map_option (\<lambda>(v, d). (v, s\<lparr>devs := d\<rparr>)) r"

lemma with_devs_simps [simp]:
  "with_devs s None = None" "with_devs s (Some (v, d)) = Some (v, s\<lparr>devs := d\<rparr>)"
  "with_devs (s\<lparr>devs := d'\<rparr>) r = with_devs s r"
  by (auto simp: with_devs_def)

lemma view_devs [simp]: "view (s\<lparr>devs := d\<rparr>) = view s"
  by (simp add: view_def fun_eq_iff)

lemma view_fns:
  assumes "nodes s x = Some n"
  shows "f_start n = f_start (view s x)" "f_read n = f_read (view s x)" "f_write n = f_write (view s x)"
    "f_stop n = f_stop (view s x)" "f_priv n = f_priv (view s x)"
  using assms by (simp_all add: view_def i2c_fns.defs)

lemma start_loop_list:
  assumes "segment i_next i_prev (nodes s) p pr NULL l xs"
  shows "start_loop cb b addr rd p ret s = with_devs s (call_start cb b addr rd (map (view s) xs) ret (devs s))"
  using assms
proof (induction xs arbitrary: p pr ret s)
  case (Cons x xs)
  then obtain n where n: "nodes s x = Some n" "p = x" "x \<noteq> NULL" "segment i_next i_prev (nodes s) (i_next n) x NULL l xs" by auto
  have IH: "start_loop cb b addr rd (i_next n) r (s\<lparr>devs := d\<rparr>)
      = with_devs s (call_start cb b addr rd (map (view s) xs) r d)" for r d
    using Cons.IH [of "s\<lparr>devs := d\<rparr>"] n(4) by simp
  show ?case
    using n(1-3) IH [of _ "devs s"] by (subst start_loop.simps)
      (auto simp: IH view_fns [OF n(1)] split: option.split bind_splits)
qed (simp add: start_loop.simps)

lemma write_loop_list:
  assumes "segment i_next i_prev (nodes s) p pr NULL l xs"
  shows "write_loop cb b addr v p ret s = with_devs s (call_write cb b addr v (map (view s) xs) ret (devs s))"
  using assms
proof (induction xs arbitrary: p pr ret s)
  case (Cons x xs)
  then obtain n where n: "nodes s x = Some n" "p = x" "x \<noteq> NULL" "segment i_next i_prev (nodes s) (i_next n) x NULL l xs" by auto
  have IH: "write_loop cb b addr v (i_next n) r (s\<lparr>devs := d\<rparr>)
      = with_devs s (call_write cb b addr v (map (view s) xs) r d)" for r d
    using Cons.IH [of "s\<lparr>devs := d\<rparr>"] n(4) by simp
  show ?case
    using n(1-3) IH [of _ "devs s"] by (subst write_loop.simps)
      (auto simp: IH view_fns [OF n(1)] split: option.split bind_splits)
qed (simp add: write_loop.simps)

lemma read_loop_list:
  assumes "segment i_next i_prev (nodes s) p pr NULL l xs"
  shows "read_loop cb b addr p 0 s = with_devs s (call_read cb b addr (map (view s) xs) (devs s))"
  using assms
proof (induction xs arbitrary: p pr)
  case (Cons x xs)
  then obtain n where n: "nodes s x = Some n" "p = x" "x \<noteq> NULL" "segment i_next i_prev (nodes s) (i_next n) x NULL l xs" by auto
  show ?case
    using n(1-3) Cons.IH [OF n(4)] by (subst read_loop.simps)
      (auto simp: view_fns [OF n(1)] with_devs_def split: option.split bind_splits)
qed (simp add: read_loop.simps)

lemma stop_loop_list:
  assumes "segment i_next i_prev (nodes s) p pr NULL l xs"
  shows "stop_loop cb b addr p s = map_option (\<lambda>d. s\<lparr>devs := d\<rparr>) (call_stop cb b addr (map (view s) xs) (devs s))"
  using assms
proof (induction xs arbitrary: p pr s)
  case (Cons x xs)
  then obtain n where n: "nodes s x = Some n" "p = x" "x \<noteq> NULL" "segment i_next i_prev (nodes s) (i_next n) x NULL l xs" by auto
  have IH: "stop_loop cb b addr (i_next n) (s\<lparr>devs := d\<rparr>)
      = map_option (\<lambda>d. s\<lparr>devs := d\<rparr>) (call_stop cb b addr (map (view s) xs) d)" for d
    using Cons.IH [of "s\<lparr>devs := d\<rparr>"] n(4) by simp
  show ?case
    using n(1-3) IH [of "devs s"] by (subst stop_loop.simps)
      (auto simp: IH view_fns [OF n(1)] split: option.split bind_splits)
qed (simp add: stop_loop.simps)

lemma tables_devs: "tables L (s\<lparr>devs := d\<rparr>) = (tables L s)\<lparr>t_devs := d\<rparr>"
  by (simp add: tables_def)

lemma represents_devs:
  "represents s t \<Longrightarrow> represents (s\<lparr>devs := d\<rparr>) (t\<lparr>t_devs := d\<rparr>)"
proof -
  assume "represents s t"
  then obtain L where L: "owned L s" "t = tables L s" by (auto simp: represents_def)
  then have "owned L (s\<lparr>devs := d\<rparr>)" by (simp add: owned_def i2c_chains_def head_of_def tail_of_def)
  then show ?thesis using L(2) tables_devs [of L d s] by (auto simp: represents_def)
qed

lemma represented_call:
  assumes "represents s t" and "on_list b addr call t = Some (r, t')"
    and "\<And>p pr l xs. segment i_next i_prev (nodes s) p pr NULL l xs \<Longrightarrow> F p = with_devs s (call (map (view s) xs) (devs s))"
  shows "\<exists>v s'. (if b = NULL then Some (0, s) else do {p \<leftarrow> bus_device b addr s; F p}) = Some (v, s')
     \<and> r = Byte v \<and> represents s' t'"
proof (cases "b = NULL")
  case True
  then show ?thesis using assms(1,2) by (auto simp: on_list_def)
next
  case False
  obtain L where L: "owned L s" "t = tables L s" using assms(1) by (auto simp: represents_def)
  from assms(2) False obtain B v d where B: "buses s b = Some B" "unat addr < NADDRS"
      "call (map (view s) (L b (unat addr))) (devs s) = Some (v, d)" "r = Byte v" "t' = t\<lparr>t_devs := d\<rparr>"
    by (auto simp: on_list_def L(2) tables_def bind_eq_Some_conv split: if_splits)
  have "F (bus_devices B (unat addr)) = Some (v, s\<lparr>devs := d\<rparr>)"
    using assms(3) [OF owned_seg(1) [OF L(1) B(1,2)]] B(3) by simp
  then show ?thesis using False B(1,2,4,5) represents_devs [OF assms(1)] by (simp add: bus_device_def)
qed

section \<open>Removal of a bus\<close>

lemma free_list_seg:
  assumes "segment i_next i_prev (nodes s) p pr NULL l xs" and "distinct xs"
  shows "free_list p s = Some (s\<lparr>nodes := (\<lambda>x. if x \<in> set xs then None else nodes s x)\<rparr>)"
  using assms
proof (induction xs arbitrary: p pr s)
  case (Cons x xs)
  then obtain n where n: "nodes s x = Some n" "p = x" "x \<noteq> NULL" "segment i_next i_prev (nodes s) (i_next n) x NULL l xs" by auto
  let ?s = "s\<lparr>nodes := (nodes s)(x := None)\<rparr>"
  have "segment i_next i_prev (nodes ?s) (i_next n) x NULL l xs" using Cons.prems(2) by (intro segment_same [OF n(4)]) auto
  then have "free_list (i_next n) ?s = Some (?s\<lparr>nodes := (\<lambda>y. if y \<in> set xs then None else nodes ?s y)\<rparr>)"
    by (rule Cons.IH) (use Cons.prems(2) in simp)
  moreover have "(\<lambda>y. if y \<in> set xs then None else nodes ?s y) = (\<lambda>y. if y \<in> set (x # xs) then None else nodes s y)"
    by (auto simp: fun_eq_iff)
  ultimately show ?case using n(1-3) by (subst free_list.simps) simp
qed (simp add: free_list.simps)

lemma free_lists_owned:
  assumes own: "owned L s" and B: "buses s b = Some B" and "distinct cs" "\<forall>c \<in> set cs. c < NADDRS"
    and s': "s' = s\<lparr>nodes := (\<lambda>x. if x \<in> F then None else nodes s x)\<rparr>" "\<forall>c \<in> set cs. F \<inter> set (L b c) = {}"
  shows "free_lists b cs s' = Some (s\<lparr>nodes := (\<lambda>x. if x \<in> F \<union> (\<Union>c \<in> set cs. set (L b c)) then None else nodes s x)\<rparr>)"
  using assms(3-)
proof (induction cs arbitrary: s' F)
  case (Cons c cs)
  note seg = owned_seg [OF own B, of c]
  have "segment i_next i_prev (nodes s') (bus_devices B c) NULL NULL (bus_last B c) (L b c)"
    using Cons.prems(2-4) by (intro segment_same [OF seg(1)]) auto
  then have "free_list (bus_devices B c) s' = Some (s'\<lparr>nodes := (\<lambda>x. if x \<in> set (L b c) then None else nodes s' x)\<rparr>)"
    using free_list_seg seg(2) Cons.prems(2) by simp
  also have "s'\<lparr>nodes := (\<lambda>x. if x \<in> set (L b c) then None else nodes s' x)\<rparr>
      = s\<lparr>nodes := (\<lambda>x. if x \<in> F \<union> set (L b c) then None else nodes s x)\<rparr>"
    using Cons.prems(3) by (auto simp: fun_eq_iff)
  finally have f: "free_list (bus_devices B c) s' = Some \<dots>" .
  have "set (L b c) \<inter> set (L b e) = {}" if "e \<in> set cs" for e
    using Cons.prems(1) that by (intro owned_disjoint [OF own]) auto
  then have "free_lists b cs (s\<lparr>nodes := (\<lambda>x. if x \<in> F \<union> set (L b c) then None else nodes s x)\<rparr>)
      = Some (s\<lparr>nodes := (\<lambda>x. if x \<in> (F \<union> set (L b c)) \<union> (\<Union>c \<in> set cs. set (L b c)) then None else nodes s x)\<rparr>)"
    using Cons.prems by (intro Cons.IH) auto
  moreover have "buses s' b = Some B" using Cons.prems(3) B by simp
  ultimately show ?case using f by (simp add: Un_assoc)
qed simp

lemma removebus_represents:
  assumes "represents s t" and "t_buses t b \<noteq> None" and "b \<noteq> NULL"
  shows "\<exists>s'. i2c_removebus b s = Some s' \<and> represents s' (t\<lparr>t_buses := (t_buses t)(b := None)\<rparr>)"
proof -
  obtain L B where L: "owned L s" "t = tables L s" and B: "buses s b = Some B"
    using assms(1,2) by (auto simp: represents_def tables_def)
  let ?F = "\<Union>c \<in> {0..<NADDRS}. set (L b c)"
  let ?s = "s\<lparr>nodes := (\<lambda>x. if x \<in> ?F then None else nodes s x), buses := (buses s)(b := None)\<rparr>"
  have "free_lists b [0..<NADDRS] s = Some (s\<lparr>nodes := (\<lambda>x. if x \<in> ?F then None else nodes s x)\<rparr>)"
    using free_lists_owned [OF L(1) B, of "[0..<NADDRS]" s "{}"] by simp
  then have r: "i2c_removebus b s = Some ?s" using assms(3) by (simp add: i2c_removebus_def)
  have kept: "x \<notin> ?F" if "x \<in> set (L c e)" "c \<noteq> b" for x c e
    using owned_disjoint [OF L(1), of b _ c e] that by fastforce
  have ends: "head_of (s\<lparr>nodes := h, buses := (buses s)(b := None)\<rparr>) = (\<lambda>(c, e). if c = b then NULL else head_of s (c, e))"
    "tail_of (s\<lparr>nodes := h, buses := (buses s)(b := None)\<rparr>) = (\<lambda>(c, e). if c = b then NULL else tail_of s (c, e))" for h
    by (simp_all add: head_of_def tail_of_def fun_eq_iff)
  have "chains i_next i_prev (nodes ?s) (new_node s) (head_of ?s) (tail_of ?s) (case_prod (L(b := \<lambda>_. [])))"
  proof (rule chains_clear [OF owned_chains [OF L(1)], of "{b} \<times> UNIV"])
    fix k x assume "k \<notin> {b} \<times> (UNIV :: nat set)" "x \<in> set (case_prod L k)"
    moreover obtain c e where "k = (c, e)" by (cases k)
    ultimately have "x \<notin> ?F" using kept [of x c e] by auto
    then show "nodes ?s x = nodes s x" by simp
  qed (auto simp: ends split: if_splits)
  then have "owned (L(b := \<lambda>_. [])) ?s" using L(1) by (auto simp: owned_def i2c_chains_def split: if_splits)
  moreover have "tables (L(b := \<lambda>_. [])) ?s = t\<lparr>t_buses := (t_buses t)(b := None)\<rparr>"
  proof -
    have "map (view ?s) (L c e) = map (view s) (L c e)" if "c \<noteq> b" for c e
      using kept that by (intro map_cong) (auto simp: view_def)
    then show ?thesis by (auto simp: L(2) tables_def fun_eq_iff intro: option.map_cong0)
  qed
  ultimately show ?thesis using r by (auto simp: represents_def)
qed

lemma addbus_represents:
  assumes "represents s t"
  shows "represents (snd (i2c_addbus nm s)) (t\<lparr>t_new := Suc (t_new t), t_buses := (t_buses t)(t_new t \<mapsto> (nm, \<lambda>_. []))\<rparr>)"
proof -
  obtain L where L: "owned L s" "t = tables L s" using assms(1) by (auto simp: represents_def)
  have none: "buses s (new_bus s) = None" using L(1) unfolding owned_def by (metis not_Some_eq order_less_irrefl)
  then have "L (new_bus s) a = []" for a by (intro owned_empty [OF L(1)]) simp
  have "head_of (snd (i2c_addbus nm s)) = head_of s" "tail_of (snd (i2c_addbus nm s)) = tail_of s"
    using none by (auto simp: head_of_def tail_of_def i2c_addbus_def Let_def fun_eq_iff split: option.split)
  then have "owned L (snd (i2c_addbus nm s))"
    using L(1) unfolding owned_def i2c_chains_def by (auto simp: i2c_addbus_def Let_def less_Suc_eq split: if_splits)
  moreover have v: "view (snd (i2c_addbus nm s)) = view s" by (simp add: view_def i2c_addbus_def Let_def fun_eq_iff)
  have "tables L (snd (i2c_addbus nm s))
      = t\<lparr>t_new := Suc (t_new t), t_buses := (t_buses t)(t_new t \<mapsto> (nm, \<lambda>_. []))\<rparr>"
    using \<open>\<And>a. L (new_bus s) a = []\<close> unfolding tables_def v L(2) by (auto simp: i2c_addbus_def Let_def fun_eq_iff)
  ultimately show ?thesis by (auto simp: represents_def)
qed

section \<open>The refinement\<close>

lemma i2c_step_simulates:
  assumes "represents s t" and "table_step cb op t = Some (r, t')"
  shows "\<exists>s'. i2c_step cb op s = Some (r, s') \<and> represents s' t'"
proof (cases op)
  case (Addbus nm)
  moreover have "new_bus s = t_new t" using assms(1) by (auto simp: represents_def tables_def)
  ultimately show ?thesis using addbus_represents [OF assms(1), of nm] assms(2)
    by (auto simp: i2c_addbus_def Let_def)
next
  case (Removebus b)
  then show ?thesis using removebus_represents [OF assms(1), of b] assms
    by (auto simp: bind_eq_Some_conv i2c_removebus_def split: if_splits)
next
  case (Sethandler b base sz h)
  then show ?thesis
    using range_acts [OF set_one_acts assms(1), of b base sz h _ "i2c_handler True b base sz h"] assms(2)
    by (auto simp: bind_eq_Some_conv i2c_handler_def i2c_sethandler_def each_loops)
next
  case (Removehandler b base sz h)
  then show ?thesis
    using range_acts [OF remove_one_acts assms(1), of b base sz h _ "i2c_handler False b base sz h"] assms(2)
    by (auto simp: bind_eq_Some_conv i2c_handler_def i2c_removehandler_def each_loops)
next
  case (Start b addr rd)
  then have *: "on_list b addr (\<lambda>hs. call_start cb b addr rd hs 0) t = Some (r, t')" using assms(2) by simp
  have "\<exists>v s'. i2c_start cb b addr rd s = Some (v, s') \<and> r = Byte v \<and> represents s' t'"
    unfolding i2c_start_def by (rule represented_call [OF assms(1) *]) (erule start_loop_list)
  then show ?thesis using Start by auto
next
  case (Read b addr)
  then have *: "on_list b addr (call_read cb b addr) t = Some (r, t')" using assms(2) by simp
  have "\<exists>v s'. i2c_read cb b addr s = Some (v, s') \<and> r = Byte v \<and> represents s' t'"
    unfolding i2c_read_def by (rule represented_call [OF assms(1) *]) (erule read_loop_list)
  then show ?thesis using Read by auto
next
  case (Write b addr v)
  then have *: "on_list b addr (\<lambda>hs. call_write cb b addr v hs 0) t = Some (r, t')" using assms(2) by simp
  have "\<exists>x s'. i2c_write cb b addr v s = Some (x, s') \<and> r = Byte x \<and> represents s' t'"
    unfolding i2c_write_def by (rule represented_call [OF assms(1) *]) (erule write_loop_list)
  then show ?thesis using Write by auto
next
  case (Stop b addr)
  then have *: "on_list b addr (\<lambda>hs d. do {d \<leftarrow> call_stop cb b addr hs d; Some (0, d)}) t = Some (r, t')"
    using assms(2) by simp
  have "\<exists>v s'. (if b = NULL then Some (0, s) else do {p \<leftarrow> bus_device b addr s; s \<leftarrow> stop_loop cb b addr p s; Some (0, s)})
      = Some (v, s') \<and> r = Byte v \<and> represents s' t'"
    by (rule represented_call [OF assms(1) *]) (auto simp: stop_loop_list with_devs_def split: bind_splits)
  moreover have "v = 0" if "r = Byte v" for v
    using * that by (auto simp: on_list_def bind_eq_Some_conv split: if_splits)
  ultimately show ?thesis using Stop by (auto simp: i2c_stop_def bind_eq_Some_conv split: if_splits)
qed

interpretation i2c: refinement represents "i2c_step cb" "table_step cb"
  by unfold_locales (rule i2c_step_simulates)

definition no_buses :: "'d \<Rightarrow> ('f, 'd) i2c" where
  "no_buses d = \<lparr>nodes = (\<lambda>_. None), new_node = 1, buses = (\<lambda>_. None), new_bus = 1, devs = d\<rparr>"

definition empty_table :: "'d \<Rightarrow> ('f, 'd) i2c_table" where
  "empty_table d = \<lparr>t_buses = (\<lambda>_. None), t_new = 1, t_devs = d\<rparr>"

lemma no_buses_represents: "represents (no_buses d) (empty_table d)"
  by (auto simp: represents_def owned_def i2c_chains_def chains_def head_of_def tail_of_def no_buses_def empty_table_def tables_def intro!: exI [of _ "\<lambda>_ _. []"])

text \<open>
  Claim C9: The bus of \<open>i2c.c\<close> refines lists of handlers. For every sequence of calls (buses
  added and removed, handlers joining and leaving ranges of addresses, start, read, write and stop of
  transfers) that is defined on the table of lists, where joining appends, leaving removes the first
  occurrence and a transfer calls the handlers of its address in order, the code on its doubly linked
  nodes, with heads and tails per address, returns the same results, never follows a dangling or NULL
  pointer, and ends in a heap whose lists are those of the table.
\<close>

theorem i2c_bus_refines_lists:
  assumes "trace (table_step cb) ops (empty_table d) = Some (rs, t)"
  shows "\<exists>s. trace (i2c_step cb) ops (no_buses d) = Some (rs, s) \<and> represents s t"
  using no_buses_represents assms by (rule i2c.trace_simulates)

text \<open>Two handlers at an address, one of them leaves and its bus goes; the device counts the calls.\<close>

definition counting :: "(u8, u8) i2c_callbacks" where
  "counting = \<lparr>on_start = (\<lambda>f b a rd p d. Some (1, d + 1)), on_read = (\<lambda>f b a p d. Some (f, d + 1)),
     on_write = (\<lambda>f b a v p d. Some (v, d + f)), on_stop = (\<lambda>f b a p d. Some (d + f))\<rparr>"

definition handlers_of :: "u8 \<Rightarrow> u8 i2c_fns" where
  "handlers_of f = \<lparr>f_start = Some f, f_read = Some f, f_write = Some f, f_stop = Some f, f_priv = 0\<rparr>"

lemma i2c_bus_refines_lists_witness:
  "\<exists>s. trace (i2c_step counting) [Addbus ''a'', Sethandler 1 0x50 2 (handlers_of 3), Sethandler 1 0x51 1 (handlers_of 4),
       Read 1 0x51, Removehandler 1 0x50 2 (handlers_of 3), Start 1 0x51 1, Read 1 0x51, Stop 1 0x51, Removebus 1] (no_buses 0)
     = Some ([Handle 1, Done, Done, Byte 3, Done, Byte 1, Byte 4, Byte 0, Done], s)"
proof -
  have "handlers_of 4 \<noteq> handlers_of 3" by (simp add: handlers_of_def)
  note eval = counting_def handlers_of_def on_range_def on_list_def empty_table_def
  have "\<exists>t. trace (table_step counting) [Addbus ''a'', Sethandler 1 0x50 2 (handlers_of 3), Sethandler 1 0x51 1 (handlers_of 4),
       Read 1 0x51, Removehandler 1 0x50 2 (handlers_of 3), Start 1 0x51 1, Read 1 0x51, Stop 1 0x51, Removebus 1] (empty_table 0)
     = Some ([Handle 1, Done, Done, Byte 3, Done, Byte 1, Byte 4, Byte 0, Done], t)"
    by (simp add: eval)
  then obtain t where "trace (table_step counting) [Addbus ''a'', Sethandler 1 0x50 2 (handlers_of 3), Sethandler 1 0x51 1 (handlers_of 4),
       Read 1 0x51, Removehandler 1 0x50 2 (handlers_of 3), Start 1 0x51 1, Read 1 0x51, Stop 1 0x51, Removebus 1] (empty_table 0)
     = Some ([Handle 1, Done, Done, Byte 3, Done, Byte 1, Byte 4, Byte 0, Done], t)" ..
  from i2c_bus_refines_lists [OF this] show ?thesis by (elim exE conjE) (rule exI)
qed

end
