(* ===== verification/I2c_Gpio.thy ===== *)
theory I2c_Gpio
  imports I2c_Spec
begin

text \<open>
  The bit-banged I2C host controller of \<open>src/src/device/i2c_gpio.c\<close>: a video or sound card sets the
  levels of the clock and data lines, and the controller finds start and stop conditions, bytes and
  acknowledgements in them. At the end, a bus master that drives the lines, and the theorem that what
  it does through the pins are the transfers of theory \<open>I2c_Spec\<close>.
\<close>

section \<open>The controller\<close>

record i2c_gpio_t =
  gp_name :: string
  gp_i2c :: ptr
  prev_scl :: u8
  prev_sda :: u8
  slave_sda :: u8
  started :: u8
  slave_addr_received :: u8
  slave_addr :: u8
  slave_read :: u8
  gp_pos :: u8
  gp_byte :: u8

type_synonym ('f, 'd) gpio_state = "i2c_gpio_t \<times> ('f, 'd) i2c"

definition i2c_gpio_init :: "string \<Rightarrow> ('f, 'd) i2c \<Rightarrow> ('f, 'd) gpio_state" where
  "i2c_gpio_init name s = (let (b, s) = i2c_addbus name s in
     (\<lparr>gp_name = name, gp_i2c = b, prev_scl = 1, prev_sda = 1, slave_sda = 1, started = 0,
       slave_addr_received = 0, slave_addr = 0xff, slave_read = 0, gp_pos = 0, gp_byte = 0\<rparr>, s))"

definition i2c_gpio_close :: "('f, 'd) gpio_state \<Rightarrow> ('f, 'd) i2c option" where
  "i2c_gpio_close = (\<lambda>(g, s). i2c_removebus (gp_i2c g) s)"

definition not8 :: "u8 \<Rightarrow> u8" where "not8 v = (if v = 0 then 1 else 0)"

definition start_condition :: "i2c_gpio_t \<Rightarrow> i2c_gpio_t" where
  "start_condition g = g\<lparr>started := 1, gp_pos := 0, slave_addr := 0xff, slave_read := 2, slave_sda := 1\<rparr>"

definition stop_condition :: "('f, 'd) i2c_callbacks \<Rightarrow> ('f, 'd) gpio_state \<Rightarrow> ('f, 'd) gpio_state option" where
  "stop_condition cb = (\<lambda>(g, s). do {
     let g = g\<lparr>started := 0\<rparr>;
     s \<leftarrow> (if slave_addr g \<noteq> 0xff then i2c_stop cb (gp_i2c g) (slave_addr g) s else Some s);
     Some (g\<lparr>slave_addr := 0xff, slave_sda := 1\<rparr>, s)})"

text \<open>The bit of a rising clock, the actions of the eighth and of the ninth.\<close>

definition shift_bit :: "u8 \<Rightarrow> i2c_gpio_t \<Rightarrow> i2c_gpio_t" where
  "shift_bit sda g = (if slave_read g = 1
     then g\<lparr>slave_sda := (if gp_byte g AND 0x80 \<noteq> 0 then 1 else 0), gp_byte := push_bit 1 (gp_byte g)\<rparr>
     else g\<lparr>gp_byte := push_bit 1 (gp_byte g) OR sda\<rparr>)"

definition eighth_bit :: "('f, 'd) i2c_callbacks \<Rightarrow> ('f, 'd) gpio_state \<Rightarrow> ('f, 'd) gpio_state option" where
  "eighth_bit cb = (\<lambda>(g, s).
     if slave_read g = 2 then do {
       let g = g\<lparr>slave_addr := drop_bit 1 (gp_byte g), slave_read := gp_byte g AND 1\<rparr>;
       (ret, s) \<leftarrow> i2c_start cb (gp_i2c g) (slave_addr g) (slave_read g) s;
       let g = g\<lparr>slave_sda := not8 ret\<rparr>;
       (g, s) \<leftarrow> (if slave_sda g = 0 \<and> slave_read g \<noteq> 0 then do {
         (v, s) \<leftarrow> i2c_read cb (gp_i2c g) (slave_addr g) s; Some (g\<lparr>gp_byte := v\<rparr>, s)} else Some (g, s));
       Some (g\<lparr>slave_read := slave_read g OR 0x80\<rparr>, s)}
     else if slave_read g = 0 then do {
       (ret, s) \<leftarrow> i2c_write cb (gp_i2c g) (slave_addr g) (gp_byte g) s;
       Some (g\<lparr>slave_sda := not8 ret\<rparr>, s)}
     else Some (g, s))"

definition ninth_bit :: "('f, 'd) i2c_callbacks \<Rightarrow> u8 \<Rightarrow> ('f, 'd) gpio_state \<Rightarrow> ('f, 'd) gpio_state option" where
  "ninth_bit cb sda = (\<lambda>(g, s). do {
     (g, s) \<leftarrow> (if slave_read g = 1 then
         (if sda = 0 then do {(v, s) \<leftarrow> i2c_read cb (gp_i2c g) (slave_addr g) s; Some (g\<lparr>gp_byte := v\<rparr>, s)}
          else Some (g, s))
       else Some (g\<lparr>slave_read := slave_read g AND 1\<rparr>, s));
     Some (g\<lparr>gp_pos := 0\<rparr>, s)})"

definition clock_rise :: "('f, 'd) i2c_callbacks \<Rightarrow> u8 \<Rightarrow> ('f, 'd) gpio_state \<Rightarrow> ('f, 'd) gpio_state option" where
  "clock_rise cb sda = (\<lambda>(g, s).
     let g' = g\<lparr>gp_pos := gp_pos g + 1\<rparr>;
         g' = (if gp_pos g < 8 then shift_bit sda g' else g') in
     if gp_pos g' = 8 then eighth_bit cb (g', s)
     else if gp_pos g' = 9 then ninth_bit cb sda (g', s)
     else Some (g', s))"

definition i2c_gpio_set :: "('f, 'd) i2c_callbacks \<Rightarrow> u8 \<Rightarrow> u8 \<Rightarrow> ('f, 'd) gpio_state \<Rightarrow> ('f, 'd) gpio_state option" where
  "i2c_gpio_set cb scl sda = (\<lambda>(g, s). do {
     (g, s) \<leftarrow>
      (if prev_scl g \<noteq> 0 \<and> scl \<noteq> 0 then
         (if prev_sda g \<noteq> 0 \<and> sda = 0 then Some (start_condition g, s)
          else if prev_sda g = 0 \<and> sda \<noteq> 0 then stop_condition cb (g, s)
          else Some (g, s))
       else if prev_scl g = 0 \<and> scl \<noteq> 0 \<and> started g \<noteq> 0 then clock_rise cb sda (g, s)
       else if prev_scl g \<noteq> 0 \<and> scl = 0 \<and> gp_pos g \<noteq> 8 then Some (g\<lparr>slave_sda := 1\<rparr>, s)
       else Some (g, s));
     Some (g\<lparr>prev_scl := scl, prev_sda := sda\<rparr>, s)})"

definition i2c_gpio_get_scl :: "i2c_gpio_t \<Rightarrow> u8" where "i2c_gpio_get_scl g = prev_scl g"

definition i2c_gpio_get_sda :: "i2c_gpio_t \<Rightarrow> u8" where
  "i2c_gpio_get_sda g = (if prev_sda g \<noteq> 0 \<and> slave_sda g \<noteq> 0 then 1 else 0)"

definition i2c_gpio_get_bus :: "i2c_gpio_t \<Rightarrow> ptr" where "i2c_gpio_get_bus g = gp_i2c g"

section \<open>A bus master\<close>

text \<open>
  What a driver on the guest does with the two lines: a start condition and the address byte, bytes it
  sends and whose acknowledgement it samples, bytes it receives and acknowledges or not, a stop.
\<close>

datatype master_op = Begin u8 bool | Put u8 | Get bool | End
datatype master_result = Ack bool | Data u8 | Finished

fun sets :: "('f, 'd) i2c_callbacks \<Rightarrow> (u8 \<times> u8) list \<Rightarrow> ('f, 'd) gpio_state \<Rightarrow> ('f, 'd) gpio_state option" where
  "sets cb [] gs = Some gs"
| "sets cb ((scl, sda) # ls) gs = do {gs \<leftarrow> i2c_gpio_set cb scl sda gs; sets cb ls gs}"

definition clock :: "('f, 'd) i2c_callbacks \<Rightarrow> u8 \<Rightarrow> ('f, 'd) gpio_state \<Rightarrow> (u8 \<times> ('f, 'd) gpio_state) option" where
  "clock cb v gs = do {gs \<leftarrow> sets cb [(0, v), (1, v)] gs; let r = i2c_gpio_get_sda (fst gs);
     gs \<leftarrow> sets cb [(0, v)] gs; Some (r, gs)}"

fun clocks :: "('f, 'd) i2c_callbacks \<Rightarrow> u8 list \<Rightarrow> ('f, 'd) gpio_state \<Rightarrow> (u8 list \<times> ('f, 'd) gpio_state) option" where
  "clocks cb [] gs = Some ([], gs)"
| "clocks cb (v # vs) gs = do {(r, gs) \<leftarrow> clock cb v gs; (rs, gs) \<leftarrow> clocks cb vs gs; Some (r # rs, gs)}"

definition bits_of :: "u8 \<Rightarrow> u8 list" where
  "bits_of v = map (\<lambda>n. of_bool (bit v n)) (rev [0..<8])"

definition byte_of :: "u8 list \<Rightarrow> u8" where
  "byte_of bs = fold (\<lambda>b v. push_bit 1 v OR b) bs 0"

definition send_byte :: "('f, 'd) i2c_callbacks \<Rightarrow> u8 \<Rightarrow> ('f, 'd) gpio_state \<Rightarrow> (master_result \<times> ('f, 'd) gpio_state) option" where
  "send_byte cb v gs = do {(_, gs) \<leftarrow> clocks cb (bits_of v) gs; (r, gs) \<leftarrow> clock cb 1 gs; Some (Ack (r = 0), gs)}"

fun pin_step :: "('f, 'd) i2c_callbacks \<Rightarrow> master_op \<Rightarrow> ('f, 'd) gpio_state \<Rightarrow> (master_result \<times> ('f, 'd) gpio_state) option" where
  "pin_step cb (Begin a rd) gs = do {gs \<leftarrow> sets cb [(0, 1), (1, 1), (1, 0), (0, 0)] gs;
     send_byte cb (push_bit 1 a OR (if rd then 1 else 0)) gs}"
| "pin_step cb (Put v) gs = send_byte cb v gs"
| "pin_step cb (Get ack) gs = do {(bs, gs) \<leftarrow> clocks cb (replicate 8 1) gs;
     (_, gs) \<leftarrow> clock cb (if ack then 0 else 1) gs; Some (Data (byte_of bs), gs)}"
| "pin_step cb End gs = do {gs \<leftarrow> sets cb [(0, 0), (1, 0), (1, 1)] gs; Some (Finished, gs)}"

text \<open>The same on the table of lists: the controller reads one byte ahead.\<close>

datatype phase = Idle | Writing u8 | Reading u8 u8

type_synonym ('f, 'd) master_state = "phase \<times> ('f, 'd) i2c_table"

definition byte_step :: "('f, 'd) i2c_callbacks \<Rightarrow> 'f i2c_op \<Rightarrow> ('f, 'd) i2c_table \<Rightarrow> (u8 \<times> ('f, 'd) i2c_table) option" where
  "byte_step cb op t = (case table_step cb op t of Some (Byte v, t) \<Rightarrow> Some (v, t) | _ \<Rightarrow> None)"

fun master_step :: "('f, 'd) i2c_callbacks \<Rightarrow> ptr \<Rightarrow> master_op \<Rightarrow> ('f, 'd) master_state \<Rightarrow> (master_result \<times> ('f, 'd) master_state) option" where
  "master_step cb b (Begin a rd) (ph, t) = (if a < 128 then do {
       (r, t) \<leftarrow> byte_step cb (Start b a (if rd then 1 else 0)) t;
       if rd then (if r \<noteq> 0 then do {(v, t) \<leftarrow> byte_step cb (Read b a) t; Some (Ack True, (Reading a v, t))}
                   else Some (Ack False, (Reading a (push_bit 1 a OR 1), t)))
       else Some (Ack (r \<noteq> 0), (Writing a, t))}
     else None)"
| "master_step cb b (Put v) (ph, t) = (case ph of
     Writing a \<Rightarrow> do {(r, t) \<leftarrow> byte_step cb (Write b a v) t; Some (Ack (r \<noteq> 0), (ph, t))} | _ \<Rightarrow> None)"
| "master_step cb b (Get ack) (ph, t) = (case ph of
     Reading a v \<Rightarrow> (if ack then do {(v', t) \<leftarrow> byte_step cb (Read b a) t; Some (Data v, (Reading a v', t))}
       else Some (Data v, (Reading a 0, t))) | _ \<Rightarrow> None)"
| "master_step cb b End (ph, t) = (case ph of Idle \<Rightarrow> Some (Finished, (Idle, t))
     | Writing a \<Rightarrow> do {(_, t) \<leftarrow> byte_step cb (Stop b a) t; Some (Finished, (Idle, t))}
     | Reading a v \<Rightarrow> do {(_, t) \<leftarrow> byte_step cb (Stop b a) t; Some (Finished, (Idle, t))})"

fun line_state :: "phase \<Rightarrow> i2c_gpio_t \<Rightarrow> bool" where
  "line_state Idle g \<longleftrightarrow> prev_scl g = 1 \<and> prev_sda g = 1 \<and> started g = 0 \<and> slave_addr g = 0xff"
| "line_state (Writing a) g \<longleftrightarrow> prev_scl g = 0 \<and> started g = 1 \<and> gp_pos g = 0 \<and> slave_read g = 0
     \<and> slave_addr g = a \<and> slave_sda g = 1 \<and> a < 128"
| "line_state (Reading a v) g \<longleftrightarrow> prev_scl g = 0 \<and> started g = 1 \<and> gp_pos g = 0 \<and> slave_read g = 1
     \<and> slave_addr g = a \<and> gp_byte g = v \<and> slave_sda g = 1 \<and> a < 128"

definition follows :: "ptr \<Rightarrow> ('f, 'd) gpio_state \<Rightarrow> ('f, 'd) master_state \<Rightarrow> bool" where
  "follows b = (\<lambda>(g, s) (ph, t). represents s t \<and> gp_i2c g = b \<and> line_state ph g)"

section \<open>Bits\<close>

lemma clock_in:
  assumes "prev_scl g = 0" "started g = 1" "gp_pos g < 7" "slave_read g \<noteq> 1"
  shows "clock cb v (g, s) = Some (if v \<noteq> 0 \<and> slave_sda g \<noteq> 0 then 1 else 0,
     (g\<lparr>gp_pos := gp_pos g + 1, gp_byte := push_bit 1 (gp_byte g) OR v, slave_sda := 1, prev_sda := v\<rparr>, s))"
proof -
  have "gp_pos g + 1 \<noteq> 8" "gp_pos g + 1 \<noteq> 9" "gp_pos g < 8" using assms(3) by (unat_arith; simp)+
  then show ?thesis using assms
    by (simp add: clock_def i2c_gpio_set_def clock_rise_def shift_bit_def i2c_gpio_get_sda_def Let_def)
qed

lemma sets_append: "sets cb (xs @ ys) gs = do {gs \<leftarrow> sets cb xs gs; sets cb ys gs}"
  by (induction xs arbitrary: gs) (auto split: bind_splits)

lemma clocks_append: "clocks cb (us @ vs) gs = do {(rs, gs) \<leftarrow> clocks cb us gs; (rs', gs) \<leftarrow> clocks cb vs gs; Some (rs @ rs', gs)}"
  by (induction us arbitrary: gs) (auto split: bind_splits)

text \<open>What the eight bits of a byte leave alone.\<close>

definition same_line :: "i2c_gpio_t \<Rightarrow> i2c_gpio_t \<Rightarrow> bool" where
  "same_line g g' \<longleftrightarrow> prev_scl g' = prev_scl g \<and> started g' = started g \<and> slave_read g' = slave_read g
     \<and> slave_addr g' = slave_addr g \<and> gp_i2c g' = gp_i2c g"

definition shifted :: "u8 list \<Rightarrow> u8 \<Rightarrow> u8" where
  "shifted bs w = fold (\<lambda>b v. push_bit 1 v OR b) bs w"

lemma clocks_in:
  assumes "prev_scl g = 0" "started g = 1" "slave_read g \<noteq> 1" "unat (gp_pos g) + length vs < 8"
  shows "\<exists>g' rs. clocks cb vs (g, s) = Some (rs, (g', s)) \<and> same_line g g'
     \<and> gp_pos g' = gp_pos g + of_nat (length vs) \<and> gp_byte g' = shifted vs (gp_byte g)"
  using assms
proof (induction vs arbitrary: g)
  case (Cons v vs)
  let ?g = "g\<lparr>gp_pos := gp_pos g + 1, gp_byte := push_bit 1 (gp_byte g) OR v, slave_sda := 1, prev_sda := v\<rparr>"
  have c: "clock cb v (g, s) = Some (if v \<noteq> 0 \<and> slave_sda g \<noteq> 0 then 1 else 0, (?g, s))"
    using Cons.prems by (intro clock_in) (auto simp: word_less_nat_alt)
  have "unat (gp_pos g + 1) = Suc (unat (gp_pos g))"
    using Cons.prems(4) by (simp add: unat_word_ariths)
  then obtain g' rs where "clocks cb vs (?g, s) = Some (rs, (g', s))" "same_line ?g g'"
      "gp_pos g' = gp_pos ?g + of_nat (length vs)" "gp_byte g' = shifted vs (gp_byte ?g)"
    using Cons.IH [of ?g] Cons.prems by auto
  then show ?case using c by (auto simp: same_line_def shifted_def)
qed (simp add: same_line_def shifted_def)

lemma bit_shifted:
  "bit (shifted (map of_bool cs) w) n \<longleftrightarrow> n < 8 \<and> (if n < length cs then rev cs ! n else bit w (n - length cs))"
proof (induction cs arbitrary: w)
  case (Cons c cs)
  have "shifted (map of_bool (c # cs)) w = shifted (map of_bool cs) (push_bit 1 w OR of_bool c)"
    by (simp add: shifted_def)
  moreover have "bit (push_bit 1 w OR of_bool c) k \<longleftrightarrow> (if k = 0 then c else k < 8 \<and> bit w (k - 1))" for k
    by (simp only: bit_or_iff bit_push_bit_iff bit_of_bool_iff possible_bit_word) auto
  ultimately show ?case
    by (auto simp only: Cons.IH) (auto simp: nth_append not_less)
qed (auto simp: shifted_def dest: bit_imp_le_length)

lemma bits_of_bools: "bits_of v = map of_bool (rev (map (bit v) [0..<8]))"
  by (simp add: bits_of_def rev_map)

lemma shifted_bits [simp]: "shifted (bits_of v) w = v"
  by (rule word_eq_by_bits) (simp add: bits_of_bools bit_shifted del: upt_rec_numeral upt_Suc)

lemma bits_of_alt: "bits_of v = map (\<lambda>k. of_bool (bit v (7 - k))) [0..<8]"
  by (rule nth_equalityI) (simp_all add: bits_of_def rev_nth)

lemma length_bits_of [simp]: "length (bits_of v) = 8"
  by (simp add: bits_of_def)

text \<open>The eighth bit of a byte to a slave, and of an address.\<close>

lemma clock_write:
  assumes "prev_scl g = 0" "started g = 1" "gp_pos g = 7" "slave_read g = 0"
    and "i2c_write cb (gp_i2c g) (slave_addr g) (push_bit 1 (gp_byte g) OR v) s = Some (r, s')"
  shows "\<exists>x g'. clock cb v (g, s) = Some (x, (g', s')) \<and> same_line g g' \<and> gp_pos g' = 8 \<and> slave_sda g' = not8 r"
  using assms
  by (simp add: clock_def i2c_gpio_set_def clock_rise_def shift_bit_def eighth_bit_def Let_def same_line_def)

lemma clock_address:
  assumes "prev_scl g = 0" "started g = 1" "gp_pos g = 7" "slave_read g = 2" "w = push_bit 1 (gp_byte g) OR v"
    and st: "i2c_start cb (gp_i2c g) (drop_bit 1 w) (w AND 1) s = Some (r, s')"
    and rd: "if r \<noteq> 0 \<and> w AND 1 \<noteq> 0 then i2c_read cb (gp_i2c g) (drop_bit 1 w) s' = Some (u, s'') else u = w \<and> s'' = s'"
  shows "\<exists>x g'. clock cb v (g, s) = Some (x, (g', s'')) \<and> prev_scl g' = 0 \<and> started g' = 1 \<and> gp_i2c g' = gp_i2c g
     \<and> slave_addr g' = drop_bit 1 w \<and> slave_read g' = (w AND 1) OR 0x80 \<and> gp_byte g' = u
     \<and> gp_pos g' = 8 \<and> slave_sda g' = not8 r"
proof -
  have "not8 r = 0 \<longleftrightarrow> r \<noteq> 0" by (simp add: not8_def)
  then show ?thesis using assms
    by (auto simp: clock_def i2c_gpio_set_def clock_rise_def shift_bit_def eighth_bit_def Let_def)
qed

text \<open>The acknowledgement of the slave.\<close>

lemma clock_ack:
  assumes "prev_scl g = 0" "started g = 1" "gp_pos g = 8" "slave_read g \<noteq> 1" "slave_sda g = not8 r"
  shows "\<exists>g'. clock cb 1 (g, s) = Some (not8 r, (g', s)) \<and> prev_scl g' = 0 \<and> started g' = 1 \<and> gp_pos g' = 0
     \<and> slave_read g' = slave_read g AND 1 \<and> slave_addr g' = slave_addr g \<and> gp_i2c g' = gp_i2c g
     \<and> gp_byte g' = gp_byte g \<and> slave_sda g' = 1"
  using assms
  by (auto simp: clock_def i2c_gpio_set_def clock_rise_def ninth_bit_def i2c_gpio_get_sda_def Let_def not8_def)

section \<open>Bytes\<close>

lemma first_seven:
  assumes "prev_scl g = 0" "started g = 1" "slave_read g \<noteq> 1" "gp_pos g = 0"
  obtains us u g' rs where "bits_of v = us @ [u]" "clocks cb us (g, s) = Some (rs, (g', s))" "same_line g g'"
    "gp_pos g' = 7" "push_bit 1 (gp_byte g') OR u = v"
proof -
  obtain us u where b: "bits_of v = us @ [u]" by (metis length_bits_of length_0_conv rev_exhaust zero_neq_numeral)
  then have l: "length us = 7" using length_bits_of [of v] by simp
  obtain g' rs where g': "clocks cb us (g, s) = Some (rs, (g', s))" "same_line g g'"
      "gp_pos g' = gp_pos g + of_nat (length us)" "gp_byte g' = shifted us (gp_byte g)"
    using clocks_in [of g us cb s] assms l by auto
  have "push_bit 1 (gp_byte g') OR u = shifted (us @ [u]) (gp_byte g)" by (simp add: g'(4) shifted_def)
  then have "push_bit 1 (gp_byte g') OR u = v" using shifted_bits [of v "gp_byte g"] b by simp
  then show ?thesis using that [OF b g'(1,2)] g'(3) assms(4) l by simp
qed

lemma send_write:
  assumes "prev_scl g = 0" "started g = 1" "slave_read g = 0" "gp_pos g = 0"
    and w: "i2c_write cb (gp_i2c g) (slave_addr g) v s = Some (r, s')"
  shows "\<exists>g'. send_byte cb v (g, s) = Some (Ack (r \<noteq> 0), (g', s')) \<and> same_line g g' \<and> gp_pos g' = 0 \<and> slave_sda g' = 1"
proof -
  obtain us u g1 rs where 1: "bits_of v = us @ [u]" "clocks cb us (g, s) = Some (rs, (g1, s))" "same_line g g1"
      "gp_pos g1 = 7" "push_bit 1 (gp_byte g1) OR u = v"
    by (rule first_seven [of g v cb s]) (use assms(1-4) in auto)
  then obtain x g2 where 2: "clock cb u (g1, s) = Some (x, (g2, s'))" "same_line g1 g2" "gp_pos g2 = 8" "slave_sda g2 = not8 r"
    using clock_write [of g1 cb u s r s'] assms by (auto simp: same_line_def)
  then obtain g3 where "clock cb 1 (g2, s') = Some (not8 r, (g3, s'))" "prev_scl g3 = 0" "started g3 = 1" "gp_pos g3 = 0"
      "slave_read g3 = 0" "slave_addr g3 = slave_addr g2" "gp_i2c g3 = gp_i2c g2" "slave_sda g3 = 1"
    using clock_ack [of g2 r cb s'] 1(3) assms(1-4) by (auto simp: same_line_def)
  then show ?thesis using 1 2 assms(1-4)
    by (auto simp: send_byte_def clocks_append same_line_def not8_def)
qed

lemma send_address:
  assumes "prev_scl g = 0" "started g = 1" "slave_read g = 2" "gp_pos g = 0"
    and st: "i2c_start cb (gp_i2c g) (drop_bit 1 w) (w AND 1) s = Some (r, s')"
    and rd: "if r \<noteq> 0 \<and> w AND 1 \<noteq> 0 then i2c_read cb (gp_i2c g) (drop_bit 1 w) s' = Some (u, s'') else u = w \<and> s'' = s'"
  shows "\<exists>g'. send_byte cb w (g, s) = Some (Ack (r \<noteq> 0), (g', s'')) \<and> prev_scl g' = 0 \<and> started g' = 1
     \<and> gp_i2c g' = gp_i2c g \<and> slave_addr g' = drop_bit 1 w \<and> slave_read g' = w AND 1 \<and> gp_byte g' = u
     \<and> gp_pos g' = 0 \<and> slave_sda g' = 1"
proof -
  obtain us v g1 rs where 1: "bits_of w = us @ [v]" "clocks cb us (g, s) = Some (rs, (g1, s))" "same_line g g1"
      "gp_pos g1 = 7" "push_bit 1 (gp_byte g1) OR v = w"
    by (rule first_seven [of g w cb s]) (use assms(1-4) in auto)
  then have sl: "prev_scl g1 = 0" "started g1 = 1" "slave_read g1 = 2" "gp_i2c g1 = gp_i2c g"
    using assms(1-4) by (auto simp: same_line_def)
  obtain x g2 where 2: "clock cb v (g1, s) = Some (x, (g2, s''))" "prev_scl g2 = 0" "started g2 = 1"
      "gp_i2c g2 = gp_i2c g" "slave_addr g2 = drop_bit 1 w" "slave_read g2 = (w AND 1) OR 0x80" "gp_byte g2 = u"
      "gp_pos g2 = 8" "slave_sda g2 = not8 r"
    using clock_address [OF sl(1,2) 1(4) sl(3) 1(5) [symmetric], unfolded sl(4), OF st rd] by blast
  have sr: "(w AND 1) OR 0x80 \<noteq> 1" "((w AND 1) OR 0x80) AND 1 = w AND 1"
    by (cases "even w"; simp add: and_one_eq mod_2_eq_odd)+
  then obtain g3 where "clock cb 1 (g2, s'') = Some (not8 r, (g3, s''))" "prev_scl g3 = 0" "started g3 = 1" "gp_pos g3 = 0"
      "slave_read g3 = w AND 1" "slave_addr g3 = slave_addr g2" "gp_i2c g3 = gp_i2c g2" "gp_byte g3 = gp_byte g2" "slave_sda g3 = 1"
    using clock_ack [of g2 r cb s''] 2 by auto
  then show ?thesis using 1 2 by (auto simp: send_byte_def clocks_append not8_def)
qed

lemma clock_out:
  assumes "prev_scl g = 0" "started g = 1" "gp_pos g < 8" "slave_read g = 1"
  shows "\<exists>g'. clock cb 1 (g, s) = Some (of_bool (bit (gp_byte g) 7), (g', s)) \<and> same_line g g'
     \<and> gp_pos g' = gp_pos g + 1 \<and> gp_byte g' = push_bit 1 (gp_byte g)"
proof -
  have "gp_pos g + 1 \<noteq> 9" using assms(3) by unat_arith
  then show ?thesis using assms
    by (auto simp: clock_def i2c_gpio_set_def clock_rise_def shift_bit_def eighth_bit_def i2c_gpio_get_sda_def
        Let_def same_line_def mask_bits)
qed

lemma clocks_out:
  assumes "prev_scl g = 0" "started g = 1" "slave_read g = 1" "unat (gp_pos g) + n \<le> 8"
  shows "\<exists>g'. clocks cb (replicate n 1) (g, s) = Some (map (\<lambda>k. of_bool (bit (gp_byte g) (7 - k))) [0..<n], (g', s))
     \<and> same_line g g' \<and> gp_pos g' = gp_pos g + of_nat n \<and> gp_byte g' = push_bit n (gp_byte g)"
  using assms
proof (induction n arbitrary: g)
  case (Suc n)
  then obtain g1 where 1: "clock cb 1 (g, s) = Some (of_bool (bit (gp_byte g) 7), (g1, s))" "same_line g g1"
      "gp_pos g1 = gp_pos g + 1" "gp_byte g1 = push_bit 1 (gp_byte g)"
    using clock_out [of g cb s] by (auto simp: word_less_nat_alt)
  have "unat (gp_pos g1) = Suc (unat (gp_pos g))" using Suc.prems(4) 1(3) by (simp add: unat_word_ariths)
  then obtain g' where g': "clocks cb (replicate n 1) (g1, s)
      = Some (map (\<lambda>k. of_bool (bit (gp_byte g1) (7 - k))) [0..<n], (g', s))"
      "same_line g1 g'" "gp_pos g' = gp_pos g1 + of_nat n" "gp_byte g' = push_bit n (gp_byte g1)"
    using Suc.IH [of g1] Suc.prems 1 by (auto simp: same_line_def)
  have "map (\<lambda>k. of_bool (bit (gp_byte g1) (7 - k))) [0..<n]
      = (map (\<lambda>k. of_bool (bit (gp_byte g) (7 - k))) [Suc 0..<Suc n] :: u8 list)"
  proof -
    have "bit (gp_byte g1) (7 - k) = bit (gp_byte g) (7 - Suc k)" if "k < n" for k
      unfolding 1(4) using that Suc.prems(4) by (simp only: bit_push_bit_iff possible_bit_word) auto
    then show ?thesis by (simp add: map_Suc_upt [symmetric] del: upt_Suc)
  qed
  moreover have "push_bit n (gp_byte g1) = push_bit (Suc n) (gp_byte g)" unfolding 1(4) by (simp only: push_bit_push_bit) simp
  ultimately show ?case using 1 g' by (auto simp: same_line_def upt_conv_Cons simp del: upt_Suc)
qed (simp add: same_line_def)

lemma receive_byte:
  assumes "prev_scl g = 0" "started g = 1" "slave_read g = 1" "gp_pos g = 0"
    and rd: "if ack then i2c_read cb (gp_i2c g) (slave_addr g) s = Some (u, s') else u = 0 \<and> s' = s"
  shows "\<exists>g'. pin_step cb (Get ack) (g, s) = Some (Data (gp_byte g), (g', s')) \<and> same_line g g' \<and> gp_pos g' = 0
     \<and> gp_byte g' = u \<and> slave_sda g' = 1"
proof -
  obtain g1 where 1: "clocks cb (replicate 8 1) (g, s) = Some (map (\<lambda>k. of_bool (bit (gp_byte g) (7 - k))) [0..<8], (g1, s))"
      "same_line g g1" "gp_pos g1 = 8" "gp_byte g1 = 0"
    using clocks_out [of g 8 cb s] assms(1-4) by auto
  have "byte_of (map (\<lambda>k. of_bool (bit (gp_byte g) (7 - k))) [0..<8]) = shifted (bits_of (gp_byte g)) 0"
    unfolding byte_of_def shifted_def bits_of_alt ..
  then have "byte_of (map (\<lambda>k. of_bool (bit (gp_byte g) (7 - k))) [0..<8]) = gp_byte g" by simp
  moreover obtain x g2 where "clock cb (if ack then 0 else 1) (g1, s) = Some (x, (g2, s'))" "same_line g1 g2" "gp_pos g2 = 0"
      "gp_byte g2 = u" "slave_sda g2 = 1"
    using assms 1(2-4) by (auto simp: clock_def i2c_gpio_set_def clock_rise_def ninth_bit_def same_line_def Let_def split: if_splits)
  ultimately show ?thesis using 1(1,2) by (auto simp: same_line_def)
qed

section \<open>The refinement\<close>

lemma byte_step_Some:
  "byte_step cb op t = Some (v, t') \<longleftrightarrow> table_step cb op t = Some (Byte v, t')"
  by (auto simp: byte_step_def split: option.splits prod.splits i2c_result.splits)

lemma transfers:
  assumes "represents s t"
  shows "byte_step cb (Start b a rd) t = Some (r, t') \<Longrightarrow> \<exists>s'. i2c_start cb b a rd s = Some (r, s') \<and> represents s' t'"
    and "byte_step cb (Read b a) t = Some (r, t') \<Longrightarrow> \<exists>s'. i2c_read cb b a s = Some (r, s') \<and> represents s' t'"
    and "byte_step cb (Write b a v) t = Some (r, t') \<Longrightarrow> \<exists>s'. i2c_write cb b a v s = Some (r, s') \<and> represents s' t'"
    and "byte_step cb (Stop b a) t = Some (r, t') \<Longrightarrow> \<exists>s'. i2c_stop cb b a s = Some s' \<and> represents s' t'"
  using i2c.simulates [OF assms, of cb] unfolding byte_step_Some
  by (fastforce simp: bind_eq_Some_conv dest!: meta_spec)+

text \<open>Every state of the lines that a phase allows takes a start condition.\<close>

lemma line_start:
  assumes "line_state ph g"
  shows "\<exists>g'. sets cb [(0, 1), (1, 1), (1, 0), (0, 0)] (g, s) = Some (g', s) \<and> prev_scl g' = 0 \<and> started g' = 1
     \<and> slave_read g' = 2 \<and> gp_pos g' = 0 \<and> gp_i2c g' = gp_i2c g"
  using assms
  by (cases ph) (auto simp: i2c_gpio_set_def start_condition_def clock_rise_def shift_bit_def Let_def)

lemma line_stop:
  assumes "prev_scl g = 0" "started g = 1" "gp_pos g = 0" "slave_addr g = a" "a < 128"
    and "i2c_stop cb (gp_i2c g) a s = Some s'"
  shows "\<exists>g'. sets cb [(0, 0), (1, 0), (1, 1)] (g, s) = Some (g', s') \<and> line_state Idle g' \<and> gp_i2c g' = gp_i2c g"
proof -
  have "a \<noteq> 0xff" using assms(5) by auto
  then show ?thesis using assms
    by (auto simp: i2c_gpio_set_def stop_condition_def clock_rise_def shift_bit_def Let_def)
qed

lemma address_byte:
  assumes "a < 128"
  shows "drop_bit 1 (push_bit 1 a OR (if rd then 1 else 0)) = (a::u8)"
    "(push_bit 1 a OR (if rd then 1 else 0)) AND 1 = (if rd then 1 else (0::u8))"
proof -
  have "a AND mask 7 = a" using less_mask_eq [of a 7] assms by simp
  then have "\<not> bit a 7" by (metis bit_and_iff bit_mask_iff less_irrefl)
  moreover have "bit (drop_bit 1 (push_bit 1 a OR (if rd then 1 else 0))) n \<longleftrightarrow> n < 7 \<and> bit a n" for n
    by (cases rd) (simp_all only: bit_drop_bit_eq bit_or_iff bit_push_bit_iff possible_bit_word if_True if_False bit_1_iff bit_0_eq bot_apply o_apply, auto)
  ultimately show "drop_bit 1 (push_bit 1 a OR (if rd then 1 else 0)) = a"
    by (intro word_eq_by_bits) (auto simp: less_Suc_eq numeral_eq_Suc)
qed (simp add: and_one_eq mod_2_eq_odd even_or_iff)

lemma pin_step_simulates:
  assumes "follows b c a" and "master_step cb b op a = Some (r, a')"
  shows "\<exists>c'. pin_step cb op c = Some (r, c') \<and> follows b c' a'"
proof -
  obtain g s ph t where c: "c = (g, s)" "a = (ph, t)" by (cases c; cases a)
  then have st: "represents s t" and gb: "gp_i2c g = b" and ln: "line_state ph g" using assms(1) by (auto simp: follows_def)
  show ?thesis
  proof (cases op)
    case (Begin ad rd)
    let ?w = "push_bit 1 ad OR (if rd then 1 else 0)"
    obtain g1 where g1: "sets cb [(0, 1), (1, 1), (1, 0), (0, 0)] (g, s) = Some (g1, s)" "prev_scl g1 = 0" "started g1 = 1"
        "slave_read g1 = 2" "gp_pos g1 = 0" "gp_i2c g1 = b" using line_start [OF ln, of cb s] gb by auto
    obtain v t1 where v: "ad < 128" "byte_step cb (Start b ad (if rd then 1 else 0)) t = Some (v, t1)"
      using assms(2) by (auto simp: Begin c bind_eq_Some_conv split: if_splits)
    note w = address_byte [OF v(1), of rd]
    obtain s1 where s1: "i2c_start cb b ad (if rd then 1 else 0) s = Some (v, s1)" "represents s1 t1"
      using transfers(1) [OF st v(2)] by blast
    obtain u t2 s2 where 2: "if v \<noteq> 0 \<and> rd then i2c_read cb b ad s1 = Some (u, s2) else u = ?w \<and> s2 = s1"
        "represents s2 t2" "r = Ack (v \<noteq> 0)" "a' = (if rd then Reading ad u else Writing ad, t2)"
    proof (cases "v \<noteq> 0 \<and> rd")
      case True
      then obtain u t2 where "byte_step cb (Read b ad) t1 = Some (u, t2)" "r = Ack (v \<noteq> 0)" "a' = (Reading ad u, t2)"
        using assms(2) v by (auto simp: Begin c bind_eq_Some_conv)
      moreover from this(1) obtain s2 where "i2c_read cb b ad s1 = Some (u, s2)" "represents s2 t2"
        using transfers(2) [OF s1(2)] by blast
      ultimately show ?thesis using that [of u s2 t2] True by simp
    next
      case False
      then show ?thesis using that [of ?w s1 t1] assms(2) v s1(2) by (auto simp: Begin c split: if_splits)
    qed
    have rd: "(if rd then 1 else (0::u8)) \<noteq> 0 \<longleftrightarrow> rd" by simp
    obtain g2 where "send_byte cb ?w (g1, s) = Some (Ack (v \<noteq> 0), (g2, s2))" "prev_scl g2 = 0" "started g2 = 1"
        "gp_i2c g2 = b" "slave_addr g2 = ad" "slave_read g2 = (if rd then 1 else 0)" "gp_byte g2 = u" "gp_pos g2 = 0" "slave_sda g2 = 1"
      using send_address [OF g1(2-5), of cb ?w s v s1 u s2, unfolded w g1(6) rd, OF s1(1) 2(1)] by blast
    then show ?thesis using g1(1) v(1) 2(2-4) by (auto simp: Begin c(1) follows_def)
  next
    case (Put v)
    then obtain ad x t1 where 1: "ph = Writing ad" "byte_step cb (Write b ad v) t = Some (x, t1)" "r = Ack (x \<noteq> 0)" "a' = (Writing ad, t1)"
      using assms(2) by (auto simp: c bind_eq_Some_conv split: phase.splits)
    obtain s1 where "i2c_write cb b ad v s = Some (x, s1)" "represents s1 t1" using transfers(3) [OF st 1(2)] by blast
    then show ?thesis using send_write [of g cb v s x s1] ln gb 1 by (auto simp: Put c(1) follows_def same_line_def)
  next
    case (Get ack)
    then obtain ad x where 1: "ph = Reading ad x" "r = Data x" using assms(2) by (auto simp: c bind_eq_Some_conv split: phase.splits if_splits)
    obtain u s1 t1 where 2: "if ack then i2c_read cb b ad s = Some (u, s1) else u = 0 \<and> s1 = s" "represents s1 t1" "a' = (Reading ad u, t1)"
    proof (cases ack)
      case True
      then obtain u t1 where "byte_step cb (Read b ad) t = Some (u, t1)" "a' = (Reading ad u, t1)"
        using assms(2) 1 by (auto simp: Get c bind_eq_Some_conv)
      moreover from this(1) obtain s1 where "i2c_read cb b ad s = Some (u, s1)" "represents s1 t1"
        using transfers(2) [OF st] by blast
      ultimately show ?thesis using that [of u s1 t1] True by simp
    next
      case False
      then show ?thesis using that [of 0 s t] assms(2) 1 st by (auto simp: Get c)
    qed
    then show ?thesis using receive_byte [of g ack cb s u s1] ln gb 1 by (auto simp: Get c(1) follows_def same_line_def)
  next
    case End
    show ?thesis
    proof (cases "ph = Idle")
      case True
      then show ?thesis using True assms(2) st gb ln by (auto simp: End c follows_def i2c_gpio_set_def stop_condition_def)
    next
      case False
      then obtain ad x t1 where 1: "byte_step cb (Stop b ad) t = Some (x, t1)" "r = Finished" "a' = (Idle, t1)"
          "prev_scl g = 0" "started g = 1" "gp_pos g = 0" "slave_addr g = ad" "ad < 128"
        using assms(2) ln by (auto simp: End c bind_eq_Some_conv split: phase.splits)
      obtain s1 where "i2c_stop cb b ad s = Some s1" "represents s1 t1" using transfers(4) [OF st 1(1)] by blast
      then show ?thesis using line_stop [OF 1(4-8), of cb s s1] gb 1(2,3)
        by (auto simp: End c(1) follows_def simp del: sets.simps)
    qed
  qed
qed

interpretation gpio: refinement "follows b" "pin_step cb" "master_step cb b"
  by unfold_locales (rule pin_step_simulates)

lemma i2c_gpio_init_follows:
  assumes "represents s t" and "i2c_gpio_init nm s = (g, s')"
  shows "follows (new_bus s) (g, s') (Idle, t\<lparr>t_new := Suc (t_new t), t_buses := (t_buses t)(t_new t \<mapsto> (nm, \<lambda>_. []))\<rparr>)"
  using assms addbus_represents [OF assms(1), of nm]
  by (auto simp: i2c_gpio_init_def i2c_addbus_def Let_def follows_def)

text \<open>
  Claim C10: What a driver does with the two lines of the controller of \<open>i2c_gpio.c\<close> are the
  transfers of the bus. Take any sequence of start or repeated start with a 7-bit address and a
  direction, bytes sent, bytes received with or without acknowledgement, and stop, each clocked bit by
  bit through \<open>i2c_gpio_set\<close>, that is in order (bytes sent only in a write, received only in a read) and
  defined on the table of lists. Then the acknowledgements and the bytes the driver samples on the data
  line are those of one call of the handlers per byte, with one byte read ahead, and afterwards the
  lines are where the transfer has left them.
\<close>

theorem i2c_pins_are_transfers:
  assumes "follows b c a" and "trace (master_step cb b) ops a = Some (rs, a')"
  shows "\<exists>c'. trace (pin_step cb) ops c = Some (rs, c') \<and> follows b c' a'"
  using assms by (rule gpio.trace_simulates)

lemma i2c_pins_are_transfers_witness:
  "\<exists>c'. trace (pin_step counting) [Begin 0x50 False, Begin 0x51 True, End] (i2c_gpio_init ''ddc'' (no_buses 0))
     = Some ([Ack False, Ack False, Finished], c')"
proof -
  let ?t = "(empty_table 0 :: (u8, u8) i2c_table)\<lparr>t_new := 2, t_buses := [1 \<mapsto> (''ddc'', \<lambda>_. [])]\<rparr>"
  obtain g s where g: "i2c_gpio_init ''ddc'' (no_buses 0 :: (u8, u8) i2c) = (g, s)" by (cases "i2c_gpio_init ''ddc'' (no_buses 0 :: (u8, u8) i2c)")
  have "follows 1 (g, s) (Idle, ?t)"
    using i2c_gpio_init_follows [OF no_buses_represents g] by (simp add: no_buses_def empty_table_def numeral_2_eq_2)
  moreover have "trace (master_step counting 1) [Begin 0x50 False, Begin 0x51 True, End] (Idle, ?t)
      = Some ([Ack False, Ack False, Finished], (Idle, ?t))"
    by (simp add: byte_step_def on_list_def empty_table_def)
  ultimately show ?thesis using i2c_pins_are_transfers unfolding g by metis
qed

text \<open>
  A caller that passes a level of 2 instead of 1, as the codec of \<open>snd_cs423x.c\<close> does for the data line,
  has every byte shifted: the controller ors the level into the byte.
\<close>

lemma shifted_level_two: "shifted (map (push_bit 1) bs) (push_bit 1 w) = push_bit 1 (shifted bs w)"
  by (induction bs arbitrary: w) (simp_all only: shifted_def list.map fold_simps push_bit_or [symmetric])

lemma i2c_level_two_doubles_byte: "shifted (map (push_bit 1) (bits_of v)) 0 = push_bit 1 v"
  using shifted_level_two [of "bits_of v" 0] by simp

end
