(* ===== verification/I2c_Eeprom.thy ===== *)
theory I2c_Eeprom
  imports I2c_Gpio
begin

text \<open>
  The 24Cxx serial EEPROMs of \<open>src/src/mem/i2c_eeprom.c\<close>, devices of the I2C bus. Devices live in a
  store; \<open>data\<close> is the caller's array, and an index beyond it is \<open>None\<close>. The handlers of other devices
  on the bus are a parameter, and so is their state. At the end: bytes written through the pins of the
  host controller are read back through them.
\<close>

section \<open>The device\<close>

record i2c_eeprom_t =
  ee_i2c :: ptr
  ee_addr :: u8
  ee_data :: "u8 list"
  ee_writable :: u8
  addr_mask :: u32
  addr_register :: u32
  addr_len :: u8
  addr_pos :: u8

record 'e eeproms =
  eeprom :: "ptr \<Rightarrow> i2c_eeprom_t option"
  new_eeprom :: ptr
  others :: 'e

definition put_eeprom :: "ptr \<Rightarrow> i2c_eeprom_t \<Rightarrow> 'e eeproms \<Rightarrow> 'e eeproms" where
  "put_eeprom p e d = d\<lparr>eeprom := (eeprom d)(p \<mapsto> e)\<rparr>"

definition i2c_eeprom_start :: "u8 \<Rightarrow> u8 \<Rightarrow> ptr \<Rightarrow> 'e eeproms \<Rightarrow> (u8 \<times> 'e eeproms) option" where
  "i2c_eeprom_start addr rd priv d = do {e \<leftarrow> eeprom d priv;
     Some (1, if rd = 0 then put_eeprom priv (e\<lparr>addr_pos := 0,
         addr_register := push_bit (unat (addr_len e)) (ucast addr) AND addr_mask e\<rparr>) d else d)}"

definition i2c_eeprom_read :: "u8 \<Rightarrow> ptr \<Rightarrow> 'e eeproms \<Rightarrow> (u8 \<times> 'e eeproms) option" where
  "i2c_eeprom_read addr priv d = do {e \<leftarrow> eeprom d priv;
     if unat (addr_register e) < length (ee_data e) then
       Some (ee_data e ! unat (addr_register e),
         put_eeprom priv (e\<lparr>addr_register := (addr_register e + 1) AND addr_mask e\<rparr>) d)
     else None}"

definition i2c_eeprom_write :: "u8 \<Rightarrow> u8 \<Rightarrow> ptr \<Rightarrow> 'e eeproms \<Rightarrow> (u8 \<times> 'e eeproms) option" where
  "i2c_eeprom_write addr data priv d = do {e \<leftarrow> eeprom d priv;
     if addr_pos e < addr_len e then
       (let r = push_bit 8 (addr_register e) OR ucast data;
            r = r AND (push_bit (unat (addr_len e)) 1 - 1);
            r = (r OR push_bit (unat (addr_len e)) (ucast addr)) AND addr_mask e
        in Some (1, put_eeprom priv (e\<lparr>addr_register := r, addr_pos := addr_pos e + 8\<rparr>) d))
     else do {
       e \<leftarrow> (if ee_writable e = 0 then Some e
         else if unat (addr_register e) < length (ee_data e)
         then Some (e\<lparr>ee_data := (ee_data e)[unat (addr_register e) := data]\<rparr>) else None);
       Some (ee_writable e, put_eeprom priv (e\<lparr>addr_register := (addr_register e + 1) AND addr_mask e\<rparr>) d)}}"

definition i2c_eeprom_stop :: "u8 \<Rightarrow> ptr \<Rightarrow> 'e eeproms \<Rightarrow> 'e eeproms option" where
  "i2c_eeprom_stop addr priv d = do {e \<leftarrow> eeprom d priv; Some (put_eeprom priv (e\<lparr>addr_pos := 0\<rparr>) d)}"

text \<open>A function pointer is one of this file or another device's.\<close>

datatype 'g i2c_fn = Eeprom_fn | Other_fn 'g

definition with_others :: "'e eeproms \<Rightarrow> ('a \<times> 'e) option \<Rightarrow> ('a \<times> 'e eeproms) option" where
  "with_others d r = map_option (\<lambda>(v, e). (v, d\<lparr>others := e\<rparr>)) r"

definition eeprom_callbacks :: "('g, 'e) i2c_callbacks \<Rightarrow> ('g i2c_fn, 'e eeproms) i2c_callbacks" where
  "eeprom_callbacks cb = \<lparr>
     on_start = (\<lambda>f b addr rd priv d. case f of Eeprom_fn \<Rightarrow> i2c_eeprom_start addr rd priv d
       | Other_fn g \<Rightarrow> with_others d (on_start cb g b addr rd priv (others d))),
     on_read = (\<lambda>f b addr priv d. case f of Eeprom_fn \<Rightarrow> i2c_eeprom_read addr priv d
       | Other_fn g \<Rightarrow> with_others d (on_read cb g b addr priv (others d))),
     on_write = (\<lambda>f b addr v priv d. case f of Eeprom_fn \<Rightarrow> i2c_eeprom_write addr v priv d
       | Other_fn g \<Rightarrow> with_others d (on_write cb g b addr v priv (others d))),
     on_stop = (\<lambda>f b addr priv d. case f of Eeprom_fn \<Rightarrow> i2c_eeprom_stop addr priv d
       | Other_fn g \<Rightarrow> map_option (\<lambda>e. d\<lparr>others := e\<rparr>) (on_stop cb g b addr priv (others d)))\<rparr>"

function log2i_loop :: "u32 \<Rightarrow> u8 \<Rightarrow> u8" where
  "log2i_loop i ret = (let i = drop_bit 1 i in if i = 0 then ret else log2i_loop i (ret + 1))"
  by auto
termination
proof (relation "measure (\<lambda>(i, _). unat i)")
  fix i :: u32 and ret x
  assume "x = drop_bit 1 i" "x \<noteq> 0"
  then have "0 < unat i" by (metis drop_bit_of_0 unat_gt_0)
  then show "((x, ret + 1), (i, ret)) \<in> measure (\<lambda>(i, _). unat i)"
    by (simp add: \<open>x = drop_bit 1 i\<close> drop_bit_eq_div unat_div)
qed simp

declare log2i_loop.simps [simp del]

definition log2i :: "u32 \<Rightarrow> u8" where "log2i i = log2i_loop i 0"

definition eeprom_handlers :: "ptr \<Rightarrow> 'g i2c_fn i2c_fns" where
  "eeprom_handlers p = \<lparr>f_start = Some Eeprom_fn, f_read = Some Eeprom_fn, f_write = Some Eeprom_fn,
     f_stop = Some Eeprom_fn, f_priv = p\<rparr>"

definition eeprom_size :: "u32 \<Rightarrow> u32" where
  "eeprom_size sz = (let pow_size = push_bit (unat (log2i sz)) 1;
     sz = (if pow_size < sz then push_bit 1 pow_size else sz) in if 8388608 \<le> sz then 8388608 else sz)"

definition i2c_mask :: "i2c_eeprom_t \<Rightarrow> u8" where
  "i2c_mask e = ucast (drop_bit (unat (addr_len e)) (addr_mask e))"

definition i2c_eeprom_init :: "ptr \<Rightarrow> u8 \<Rightarrow> u8 list \<Rightarrow> u32 \<Rightarrow> u8 \<Rightarrow> ('g i2c_fn, 'e eeproms) i2c
    \<Rightarrow> (ptr \<times> ('g i2c_fn, 'e eeproms) i2c) option" where
  "i2c_eeprom_init b addr data sz writable s = do {
     let d = devs s; let p = new_eeprom d; let sz = eeprom_size sz;
     let e = \<lparr>ee_i2c = b, ee_addr = addr, ee_data = data, ee_writable = writable, addr_mask = sz - 1,
       addr_register = 0, addr_len = (if 4096 \<le> sz then 16 else 8), addr_pos = 0\<rparr>;
     let s = s\<lparr>devs := put_eeprom p e (d\<lparr>new_eeprom := Suc p\<rparr>)\<rparr>;
     s \<leftarrow> i2c_sethandler b (addr AND NOT (i2c_mask e)) (unat (i2c_mask e) + 1) (eeprom_handlers p) s;
     Some (p, s)}"

definition i2c_eeprom_close :: "ptr \<Rightarrow> ('g i2c_fn, 'e eeproms) i2c \<Rightarrow> ('g i2c_fn, 'e eeproms) i2c option" where
  "i2c_eeprom_close p s = do {
     e \<leftarrow> eeprom (devs s) p;
     s \<leftarrow> i2c_removehandler (ee_i2c e) (ee_addr e AND NOT (i2c_mask e)) (unat (i2c_mask e) + 1) (eeprom_handlers p) s;
     Some (s\<lparr>devs := (devs s)\<lparr>eeprom := (eeprom (devs s))(p := None)\<rparr>\<rparr>)}"

section \<open>A device on a bus\<close>

text \<open>A memory of \<open>2 ^ k\<close> bytes, and the register as a number.\<close>

definition eeprom_ok :: "nat \<Rightarrow> i2c_eeprom_t \<Rightarrow> bool" where
  "eeprom_ok k e \<longleftrightarrow> k \<le> 23 \<and> length (ee_data e) = 2 ^ k \<and> addr_mask e = mask k
     \<and> addr_len e = (if k < 12 then 8 else 16) \<and> ee_writable e \<noteq> 0"

definition reg :: "i2c_eeprom_t \<Rightarrow> nat" where "reg e = unat (addr_register e)"

lemma unat_and_mask: "unat ((r::u32) AND mask k) = unat r mod 2 ^ k"
  by (simp only: take_bit_eq_mask [symmetric] unsigned_take_bit_eq) (simp add: take_bit_eq_mod)

lemma reg_next:
  assumes "k \<le> 23" and "unat (r::u32) < 2 ^ k"
  shows "unat ((r + 1) AND mask k) = (unat r + 1) mod 2 ^ k"
proof -
  have "(2::nat) ^ k \<le> 2 ^ 23" using assms(1) by (intro power_increasing) auto
  then have "unat r + 1 < 2 ^ 32" using assms(2) by simp
  then show ?thesis by (simp add: unat_and_mask unat_word_ariths)
qed

text \<open>The device \<open>p\<close> is the only one at the address \<open>a\<close> of the bus \<open>b\<close>, and its state is \<open>e\<close>.\<close>

definition alone :: "ptr \<Rightarrow> u8 \<Rightarrow> ptr \<Rightarrow> ('g i2c_fn, 'e eeproms) i2c_table \<Rightarrow> i2c_eeprom_t \<Rightarrow> bool" where
  "alone b a p t e \<longleftrightarrow> b \<noteq> NULL \<and> a < 128
     \<and> (\<exists>nm T. t_buses t b = Some (nm, T) \<and> T (unat a) = [eeprom_handlers p]) \<and> eeprom (t_devs t) p = Some e"

definition with_eeprom :: "ptr \<Rightarrow> ('g i2c_fn, 'e eeproms) i2c_table \<Rightarrow> i2c_eeprom_t \<Rightarrow> ('g i2c_fn, 'e eeproms) i2c_table" where
  "with_eeprom p t e = t\<lparr>t_devs := put_eeprom p e (t_devs t)\<rparr>"

lemma alone_with: "alone b a p t e \<Longrightarrow> alone b a p (with_eeprom p t e') e'"
  by (auto simp: alone_def with_eeprom_def put_eeprom_def)

lemma with_eeprom_twice [simp]: "with_eeprom p (with_eeprom p t e) e' = with_eeprom p t e'"
  by (simp add: with_eeprom_def put_eeprom_def)

lemma with_eeprom_same: "alone b a p t e \<Longrightarrow> with_eeprom p t e = t"
  by (auto simp: alone_def with_eeprom_def put_eeprom_def map_upd_triv)

lemmas call_simps = byte_step_def on_list_def eeprom_handlers_def eeprom_callbacks_def

lemma eeprom_start_step:
  assumes "alone b a p t e"
  shows "byte_step (eeprom_callbacks cb) (Start b a rd) t = Some (1, with_eeprom p t (if rd = 0 then
     e\<lparr>addr_pos := 0, addr_register := push_bit (unat (addr_len e)) (ucast a) AND addr_mask e\<rparr> else e))"
  using assms with_eeprom_same [OF assms]
  by (auto simp: alone_def call_simps i2c_eeprom_start_def with_eeprom_def word_less_nat_alt)

lemma eeprom_read_step:
  assumes "alone b a p t e" and "reg e < length (ee_data e)"
  shows "byte_step (eeprom_callbacks cb) (Read b a) t = Some (ee_data e ! reg e,
     with_eeprom p t (e\<lparr>addr_register := (addr_register e + 1) AND addr_mask e\<rparr>))"
  using assms by (auto simp: alone_def call_simps i2c_eeprom_read_def with_eeprom_def reg_def word_less_nat_alt)

lemma eeprom_pointer_step:
  assumes "alone b a p t e" and "addr_pos e < addr_len e"
  shows "byte_step (eeprom_callbacks cb) (Write b a v) t = Some (1, with_eeprom p t (e\<lparr>addr_register :=
       ((push_bit 8 (addr_register e) OR ucast v) AND (push_bit (unat (addr_len e)) 1 - 1)
         OR push_bit (unat (addr_len e)) (ucast a)) AND addr_mask e, addr_pos := addr_pos e + 8\<rparr>))"
  using assms by (auto simp: alone_def call_simps i2c_eeprom_write_def with_eeprom_def Let_def word_less_nat_alt)

lemma eeprom_data_step:
  assumes "alone b a p t e" and "\<not> addr_pos e < addr_len e" and "ee_writable e \<noteq> 0" and "reg e < length (ee_data e)"
  shows "byte_step (eeprom_callbacks cb) (Write b a v) t = Some (ee_writable e, with_eeprom p t (e\<lparr>ee_data := (ee_data e)[reg e := v],
     addr_register := (addr_register e + 1) AND addr_mask e\<rparr>))"
  using assms by (auto simp: alone_def call_simps i2c_eeprom_write_def with_eeprom_def reg_def word_less_nat_alt)

lemma eeprom_stop_step:
  assumes "alone b a p t e"
  shows "byte_step (eeprom_callbacks cb) (Stop b a) t = Some (0, with_eeprom p t (e\<lparr>addr_pos := 0\<rparr>))"
  using assms by (auto simp: alone_def call_simps i2c_eeprom_stop_def with_eeprom_def word_less_nat_alt)

section \<open>Addressing\<close>

text \<open>
  What a driver sends to address byte \<open>m\<close> of a memory of \<open>2 ^ k\<close> bytes: the upper bits in the
  device address, the lower ones in one or two bytes.
\<close>

definition ptr_bits :: "nat \<Rightarrow> nat" where "ptr_bits k = (if k < 12 then 8 else 16)"

definition dev_addr :: "u8 \<Rightarrow> nat \<Rightarrow> u32 \<Rightarrow> u8" where
  "dev_addr addr k m = (addr AND NOT (ucast (drop_bit (ptr_bits k) (mask k :: u32)))) OR ucast (drop_bit (ptr_bits k) m)"

definition pointer_bytes :: "nat \<Rightarrow> u32 \<Rightarrow> u8 list" where
  "pointer_bytes k m = (if k < 12 then [ucast m] else [ucast (drop_bit 8 m), ucast m])"

definition eeprom_write :: "u8 \<Rightarrow> nat \<Rightarrow> u32 \<Rightarrow> u8 list \<Rightarrow> master_op list" where
  "eeprom_write addr k m vs = Begin (dev_addr addr k m) False # map Put (pointer_bytes k m @ vs) @ [End]"

definition eeprom_read :: "u8 \<Rightarrow> nat \<Rightarrow> u32 \<Rightarrow> nat \<Rightarrow> master_op list" where
  "eeprom_read addr k m n = Begin (dev_addr addr k m) False # map Put (pointer_bytes k m)
     @ Begin (dev_addr addr k m) True # replicate (n - 1) (Get True) @ [Get False, End]"

lemma within_mask: "unat (m::u32) < 2 ^ k \<Longrightarrow> k \<le> 23 \<Longrightarrow> bit m n \<Longrightarrow> n < k"
proof -
  assume "unat m < 2 ^ k" "k \<le> 23" "bit m n"
  then have "m AND mask k = m" by (simp add: word_unat_eq_iff unat_and_mask)
  with \<open>bit m n\<close> show "n < k" by (metis bit_and_iff bit_mask_iff)
qed

lemma dev_addr_bit:
  assumes "unat m < 2 ^ k" and "k \<le> 23" and "ptr_bits k \<le> n" and "n < k"
  shows "bit (dev_addr addr k m) (n - ptr_bits k) = bit m n"
proof -
  have "n - ptr_bits k < 8" using assms(2,4) by (auto simp: ptr_bits_def)
  then show ?thesis using assms(2-4)
    by (auto simp: dev_addr_def bit_or_iff bit_and_iff bit_not_iff bit_unsigned_iff bit_drop_bit_eq bit_mask_iff)
qed

lemma pointer_register:
  assumes "unat m < 2 ^ k" and "k \<le> 23" and "\<And>n. n < ptr_bits k \<Longrightarrow> bit r n = bit m n"
  shows "((r AND (push_bit (ptr_bits k) 1 - 1)) OR push_bit (ptr_bits k) (ucast (dev_addr addr k m))) AND mask k = (m::u32)"
proof (rule word_eq_by_bits)
  fix n assume n: "n < LENGTH(32)"
  have "push_bit (ptr_bits k) 1 - 1 = (mask (ptr_bits k) :: u32)" by (simp add: mask_eq_decr_exp push_bit_eq_mult)
  then show "bit (((r AND (push_bit (ptr_bits k) 1 - 1)) OR push_bit (ptr_bits k) (ucast (dev_addr addr k m))) AND mask k) n = bit m n"
    using assms n dev_addr_bit [OF assms(1,2), of n addr] within_mask [OF assms(1,2), of n]
    by (cases "n < ptr_bits k") (auto simp: bit_or_iff bit_and_iff bit_mask_iff bit_push_bit_iff bit_unsigned_iff simp del: push_bit_of_1)
qed

lemma pointer_one:
  assumes "unat m < 2 ^ k" and "k < 12"
  shows "((push_bit 8 r OR ucast (ucast m :: u8)) AND (push_bit (ptr_bits k) 1 - 1)
     OR push_bit (ptr_bits k) (ucast (dev_addr addr k m))) AND mask k = (m::u32)"
  using assms by (intro pointer_register)
    (auto simp: ptr_bits_def bit_or_iff bit_push_bit_iff bit_unsigned_iff)

lemma pointer_two:
  assumes "unat m < 2 ^ k" and "k \<le> 23" and "12 \<le> k"
    and "r1 = ((push_bit 8 r OR ucast (ucast (drop_bit 8 m) :: u8)) AND (push_bit (ptr_bits k) 1 - 1) OR push_bit (ptr_bits k) w) AND mask k"
  shows "((push_bit 8 r1 OR ucast (ucast m :: u8)) AND (push_bit (ptr_bits k) 1 - 1)
     OR push_bit (ptr_bits k) (ucast (dev_addr addr k m))) AND mask k = (m::u32)"
proof (rule pointer_register [OF assms(1,2)])
  fix n assume n: "n < ptr_bits k"
  have "bit r1 j = bit m (j + 8)" if "j < 8" for j
  proof -
    have "push_bit (ptr_bits k) 1 - 1 = (mask (ptr_bits k) :: u32)" by (simp add: mask_eq_decr_exp push_bit_eq_mult)
    then show ?thesis using that assms(2,3)
      by (auto simp: assms(4) ptr_bits_def bit_or_iff bit_and_iff bit_mask_iff bit_push_bit_iff bit_unsigned_iff bit_drop_bit_eq
          add.commute simp del: push_bit_of_1)
  qed
  from this [of "n - 8"] n show "bit (push_bit 8 r1 OR ucast (ucast m :: u8)) n = bit m n"
    using assms(3) by (cases "n < 8") (auto simp: ptr_bits_def bit_or_iff bit_push_bit_iff bit_unsigned_iff)
qed

text \<open>After the address bytes the register is \<open>m\<close> and data may follow.\<close>

definition at_data :: "u32 \<Rightarrow> i2c_eeprom_t \<Rightarrow> i2c_eeprom_t" where
  "at_data m e = e\<lparr>addr_register := m, addr_pos := addr_len e\<rparr>"

lemma pointer_trace:
  assumes a: "alone b a p t e" and ok: "eeprom_ok k e" and m: "unat m < 2 ^ k" and ad: "a = dev_addr addr k m"
  shows "trace (master_step (eeprom_callbacks cb) b) (Begin a False # map Put (pointer_bytes k m)) (ph, t)
     = Some (Ack True # map (\<lambda>_. Ack True) (pointer_bytes k m), (Writing a, with_eeprom p t (at_data m e)))"
proof -
  have k: "k \<le> 23" and len: "unat (addr_len e) = ptr_bits k" and mask: "addr_mask e = mask k"
    using ok by (auto simp: eeprom_ok_def ptr_bits_def)
  let ?r = "push_bit (ptr_bits k) (ucast a) AND mask k :: u32"
  let ?e0 = "e\<lparr>addr_pos := 0, addr_register := ?r\<rparr>"
  have 0: "byte_step (eeprom_callbacks cb) (Start b a 0) t = Some (1, with_eeprom p t ?e0)"
    using eeprom_start_step [OF a, of cb 0] by (simp add: len mask)
  have a0: "alone b a p (with_eeprom p t ?e0) ?e0" using alone_with [OF a] .
  have a128: "a < 128" using a by (simp add: alone_def)
  have ptr: "byte_step (eeprom_callbacks cb) (Write b a v) (with_eeprom p t e1) = Some (1, with_eeprom p t (e1\<lparr>addr_register :=
       ((push_bit 8 (addr_register e1) OR ucast v) AND (push_bit (ptr_bits k) 1 - 1)
         OR push_bit (ptr_bits k) (ucast a)) AND mask k, addr_pos := addr_pos e1 + 8\<rparr>))"
    if "addr_pos e1 < addr_len e1" "addr_len e1 = addr_len e" "addr_mask e1 = addr_mask e" for e1 v
    using eeprom_pointer_step [OF alone_with [OF a, of e1], of cb v] that by (simp add: len mask)
  show ?thesis
  proof (cases "k < 12")
    case True
    then have "addr_len e = 8" using ok by (simp add: eeprom_ok_def)
    then show ?thesis
      using True 0 ptr [of ?e0 "ucast m"] pointer_one [OF m True, of ?r addr] a128
      by (simp add: pointer_bytes_def ad at_data_def)
  next
    case False
    then have l: "addr_len e = 16" using ok by (simp add: eeprom_ok_def)
    let ?r1 = "((push_bit 8 ?r OR ucast (ucast (drop_bit 8 m) :: u8)) AND (push_bit (ptr_bits k) 1 - 1)
        OR push_bit (ptr_bits k) (ucast a)) AND mask k"
    let ?e1 = "?e0\<lparr>addr_register := ?r1, addr_pos := 8\<rparr>"
    have "byte_step (eeprom_callbacks cb) (Write b a (ucast (drop_bit 8 m))) (with_eeprom p t ?e0) = Some (1, with_eeprom p t ?e1)"
      using ptr [of ?e0 "ucast (drop_bit 8 m)"] l by simp
    moreover have "byte_step (eeprom_callbacks cb) (Write b a (ucast m)) (with_eeprom p t ?e1) = Some (1, with_eeprom p t (at_data m e))"
      using ptr [of ?e1 "ucast m"] l pointer_two [OF m k _ refl, of ?r "ucast a" addr] False
      by (simp add: ad at_data_def)
    ultimately show ?thesis using False 0 a128 by (simp add: pointer_bytes_def)
  qed
qed

section \<open>Data\<close>

fun fill :: "'a list \<Rightarrow> nat \<Rightarrow> 'a list \<Rightarrow> 'a list" where
  "fill d r [] = d"
| "fill d r (v # vs) = fill (d[r := v]) ((r + 1) mod length d) vs"

lemma length_fill [simp]: "length (fill d r vs) = length d"
  by (induction vs arbitrary: d r) simp_all

lemma fill_other:
  "(\<And>i. i < length vs \<Longrightarrow> (r + i) mod length d \<noteq> j) \<Longrightarrow> r < length d \<Longrightarrow> fill d r vs ! j = d ! j"
proof (induction vs arbitrary: d r)
  case (Cons v vs)
  have "((r + 1) mod length d + i) mod length d \<noteq> j" if "i < length vs" for i
    using Cons.prems(1) [of "Suc i"] that by (simp add: mod_add_left_eq)
  moreover have "(r + 1) mod length d < length d" using Cons.prems(2) by (cases d) auto
  moreover have "j \<noteq> r" using Cons.prems(1) [of 0] Cons.prems(2) by auto
  ultimately show ?case using Cons.IH [of "(r + 1) mod length d" "d[r := v]"] by simp
qed simp

lemma fill_nth:
  "length vs \<le> length d \<Longrightarrow> r < length d \<Longrightarrow> i < length vs \<Longrightarrow> fill d r vs ! ((r + i) mod length d) = vs ! i"
proof (induction vs arbitrary: d r i)
  case (Cons v vs)
  let ?d = "d[r := v]" and ?r = "(r + 1) mod length d"
  have r: "?r < length d" using Cons.prems(2) by (cases d) auto
  have step: "(?r + j) mod length d = (r + Suc j) mod length d" for j by (simp add: mod_add_left_eq)
  show ?case
  proof (cases i)
    case 0
    have "(?r + j) mod length ?d \<noteq> r" if "j < length vs" for j
    proof
      assume "(?r + j) mod length ?d = r"
      then have "(r + Suc j) mod length d = (r + 0) mod length d" using step [of j] Cons.prems(2) by simp
      moreover have "Suc j < length d" "0 < length d" using that Cons.prems(1) by auto
      ultimately show False using mod_add_inj by blast
    qed
    then show ?thesis using fill_other [of vs ?r ?d r] r Cons.prems(2) 0 by simp
  next
    case (Suc j)
    then show ?thesis using Cons.IH [of ?d ?r j] Cons.prems r step [of j] by simp
  qed
qed simp

lemma next_reg:
  assumes "eeprom_ok k e" and "reg e < 2 ^ k"
  shows "reg (e\<lparr>addr_register := (addr_register e + 1) AND addr_mask e\<rparr>) = (reg e + 1) mod 2 ^ k"
  using assms reg_next [of k "addr_register e"] by (simp add: reg_def eeprom_ok_def)

lemma write_trace:
  assumes "alone b a p t e" and "eeprom_ok k e" and "\<not> addr_pos e < addr_len e" and "reg e < 2 ^ k"
  shows "\<exists>e'. trace (master_step (eeprom_callbacks cb) b) (map Put vs) (Writing a, t)
       = Some (map (\<lambda>_. Ack True) vs, (Writing a, with_eeprom p t e'))
     \<and> eeprom_ok k e' \<and> ee_data e' = fill (ee_data e) (reg e) vs \<and> alone b a p (with_eeprom p t e') e'"
  using assms
proof (induction vs arbitrary: t e)
  case Nil
  then show ?case by (intro exI [of _ e]) (auto simp: with_eeprom_same)
next
  case (Cons v vs)
  let ?e = "e\<lparr>ee_data := (ee_data e)[reg e := v], addr_register := (addr_register e + 1) AND addr_mask e\<rparr>"
  have ok: "eeprom_ok k ?e" using Cons.prems(2) by (simp add: eeprom_ok_def)
  have w: "byte_step (eeprom_callbacks cb) (Write b a v) t = Some (ee_writable e, with_eeprom p t ?e)" "ee_writable e \<noteq> 0"
    using eeprom_data_step [OF Cons.prems(1,3)] Cons.prems(2,4) by (auto simp: eeprom_ok_def)
  have r: "reg ?e = (reg e + 1) mod 2 ^ k" using next_reg [OF Cons.prems(2,4)] by (simp add: reg_def)
  then have "reg ?e < 2 ^ k" by simp
  then obtain e' where e': "trace (master_step (eeprom_callbacks cb) b) (map Put vs) (Writing a, with_eeprom p t ?e)
       = Some (map (\<lambda>_. Ack True) vs, (Writing a, with_eeprom p t e'))" "eeprom_ok k e'"
      "ee_data e' = fill (ee_data ?e) (reg ?e) vs" "alone b a p (with_eeprom p t e') e'"
    using Cons.IH [OF alone_with [OF Cons.prems(1)] ok] Cons.prems(3) by auto
  have "length (ee_data e) = 2 ^ k" using Cons.prems(2) by (simp add: eeprom_ok_def)
  then have "ee_data e' = fill (ee_data e) (reg e) (v # vs)" using e'(3) r by simp
  then show ?case using w e' by (intro exI [of _ e']) simp
qed

lemma read_trace:
  assumes "alone b a p t e" and "eeprom_ok k e" and "reg e < 2 ^ k"
  shows "\<exists>e'. trace (master_step (eeprom_callbacks cb) b) (replicate n (Get True) @ [Get False]) (Reading a v, t)
       = Some (Data v # map (\<lambda>i. Data (ee_data e ! ((reg e + i) mod 2 ^ k))) [0..<n], (Reading a 0, with_eeprom p t e'))
     \<and> alone b a p (with_eeprom p t e') e'"
  using assms
proof (induction n arbitrary: t e v)
  case 0
  then show ?case by (intro exI [of _ e]) (auto simp: with_eeprom_same)
next
  case (Suc n)
  let ?e = "e\<lparr>addr_register := (addr_register e + 1) AND addr_mask e\<rparr>"
  have ok: "eeprom_ok k ?e" using Suc.prems(2) by (simp add: eeprom_ok_def)
  have rd: "byte_step (eeprom_callbacks cb) (Read b a) t = Some (ee_data e ! reg e, with_eeprom p t ?e)"
    using eeprom_read_step [OF Suc.prems(1)] Suc.prems(2,3) by (simp add: eeprom_ok_def)
  have r: "reg ?e = (reg e + 1) mod 2 ^ k" using next_reg [OF Suc.prems(2,3)] .
  then have "reg ?e < 2 ^ k" by simp
  then obtain e' where e': "trace (master_step (eeprom_callbacks cb) b) (replicate n (Get True) @ [Get False])
        (Reading a (ee_data e ! reg e), with_eeprom p t ?e)
      = Some (Data (ee_data e ! reg e) # map (\<lambda>i. Data (ee_data e ! ((reg ?e + i) mod 2 ^ k))) [0..<n], (Reading a 0, with_eeprom p t e'))"
      "alone b a p (with_eeprom p t e') e'"
    using Suc.IH [OF alone_with [OF Suc.prems(1)] ok] by auto
  have "map (\<lambda>i. Data (ee_data e ! ((reg ?e + i) mod 2 ^ k))) [0..<n]
      = map (\<lambda>i. Data (ee_data e ! ((reg e + i) mod 2 ^ k))) [Suc 0..<Suc n]"
    by (simp add: r map_Suc_upt [symmetric] mod_add_left_eq del: upt_Suc)
  moreover have "Data (ee_data e ! reg e) # map (\<lambda>i. Data (ee_data e ! ((reg e + i) mod 2 ^ k))) [Suc 0..<Suc n]
      = map (\<lambda>i. Data (ee_data e ! ((reg e + i) mod 2 ^ k))) [0..<Suc n]"
    using Suc.prems(3) by (simp add: upt_conv_Cons del: upt_Suc)
  ultimately show ?case using rd e' by (intro exI [of _ e']) (simp del: upt_Suc)
qed

section \<open>Messages\<close>

fun received :: "master_result list \<Rightarrow> u8 list" where
  "received [] = []"
| "received (Data v # rs) = v # received rs"
| "received (_ # rs) = received rs"

lemma received_append [simp]: "received (xs @ ys) = received xs @ received ys"
  by (induction xs rule: received.induct) simp_all

lemma received_data [simp]: "received (map (\<lambda>i. Data (f i)) xs) = map f xs"
  by (induction xs) simp_all

lemma received_acks [simp]: "received (map (\<lambda>_. Ack True) xs) = []"
  by (induction xs) simp_all

lemma at_data_ok:
  assumes "eeprom_ok k e" and "unat m < 2 ^ k"
  shows "eeprom_ok k (at_data m e)" "reg (at_data m e) = unat m" "ee_data (at_data m e) = ee_data e"
    "\<not> addr_pos (at_data m e) < addr_len (at_data m e)"
  using assms by (auto simp: at_data_def eeprom_ok_def reg_def)

abbreviation pointer_acks :: "nat \<Rightarrow> u32 \<Rightarrow> master_result list" where
  "pointer_acks k m \<equiv> Ack True # map (\<lambda>_. Ack True) (pointer_bytes k m)"

lemma write_message:
  assumes a: "alone b a p t e" and ok: "eeprom_ok k e" and m: "unat m < 2 ^ k" and ad: "a = dev_addr addr k m"
  shows "\<exists>e'. trace (master_step (eeprom_callbacks cb) b) (eeprom_write addr k m vs) (ph, t)
       = Some (pointer_acks k m @ map (\<lambda>_. Ack True) vs @ [Finished], (Idle, with_eeprom p t e'))
     \<and> eeprom_ok k e' \<and> ee_data e' = fill (ee_data e) (unat m) vs \<and> alone b a p (with_eeprom p t e') e'"
proof -
  let ?M = "master_step (eeprom_callbacks cb) b"
  note d = at_data_ok [OF ok m]
  obtain e1 where w: "trace ?M (map Put vs) (Writing a, with_eeprom p t (at_data m e)) = Some (map (\<lambda>_. Ack True) vs, (Writing a, with_eeprom p t e1))"
      "eeprom_ok k e1" "ee_data e1 = fill (ee_data e) (unat m) vs" "alone b a p (with_eeprom p t e1) e1"
    using write_trace [OF alone_with [OF a] d(1) d(4), of cb vs] d(2,3) m by auto
  have "?M End (Writing a, with_eeprom p t e1) = Some (Finished, (Idle, with_eeprom p t (e1\<lparr>addr_pos := 0\<rparr>)))"
    using eeprom_stop_step [OF w(4), of cb] by simp
  then have "trace ?M [End] (Writing a, with_eeprom p t e1) = Some ([Finished], (Idle, with_eeprom p t (e1\<lparr>addr_pos := 0\<rparr>)))" by simp
  note t = trace_seq [OF pointer_trace [OF a ok m ad, of cb ph] trace_seq [OF w(1) this]]
  then have "trace ?M (eeprom_write addr k m vs) (ph, t)
      = Some (pointer_acks k m @ map (\<lambda>_. Ack True) vs @ [Finished], (Idle, with_eeprom p t (e1\<lparr>addr_pos := 0\<rparr>)))"
    by (simp only: eeprom_write_def ad append_Cons append_Nil append_assoc map_append)
  then show ?thesis using w(2,3) alone_with [OF a]
    by (intro exI [of _ "e1\<lparr>addr_pos := 0\<rparr>"]) (auto simp: eeprom_ok_def)
qed

lemma restart_read:
  assumes a: "alone b a p t e" and ok: "eeprom_ok k e" and r: "reg e < 2 ^ k"
  shows "trace (master_step (eeprom_callbacks cb) b) [Begin a True] (ph, t) = Some ([Ack True],
     (Reading a (ee_data e ! reg e), with_eeprom p t (e\<lparr>addr_register := (addr_register e + 1) AND addr_mask e\<rparr>)))"
proof -
  have "byte_step (eeprom_callbacks cb) (Start b a 1) t = Some (1, t)"
    using eeprom_start_step [OF a, of cb 1] with_eeprom_same [OF a] by simp
  moreover have "byte_step (eeprom_callbacks cb) (Read b a) t = Some (ee_data e ! reg e,
      with_eeprom p t (e\<lparr>addr_register := (addr_register e + 1) AND addr_mask e\<rparr>))"
    using eeprom_read_step [OF a, of cb] r ok by (simp add: eeprom_ok_def)
  ultimately show ?thesis using a by (simp add: alone_def)
qed

lemma read_message:
  assumes a: "alone b a p t e" and ok: "eeprom_ok k e" and m: "unat m < 2 ^ k" and ad: "a = dev_addr addr k m"
  shows "\<exists>t'. trace (master_step (eeprom_callbacks cb) b) (eeprom_read addr k m (Suc n)) (ph, t)
     = Some (pointer_acks k m @ Ack True # map (\<lambda>i. Data (ee_data e ! ((unat m + i) mod 2 ^ k))) [0..<Suc n] @ [Finished], (Idle, t'))"
proof -
  let ?M = "master_step (eeprom_callbacks cb) b" and ?e1 = "at_data m e"
  note d = at_data_ok [OF ok m]
  let ?e2 = "?e1\<lparr>addr_register := (addr_register ?e1 + 1) AND addr_mask ?e1\<rparr>"
  have a1: "alone b a p (with_eeprom p t ?e1) ?e1" by (rule alone_with [OF a])
  have r1: "reg ?e1 < 2 ^ k" using d(2) m by simp
  have a2: "alone b a p (with_eeprom p t ?e2) ?e2" by (rule alone_with [OF a])
  have ok2: "eeprom_ok k ?e2" using d(1) by (simp add: eeprom_ok_def)
  have r2: "reg ?e2 = (unat m + 1) mod 2 ^ k" using next_reg [OF d(1) r1] d(2) by simp
  then have r2': "reg ?e2 < 2 ^ k" by simp
  have d2: "ee_data ?e2 = ee_data e" using d(3) by simp
  define v where "v = ee_data e ! unat m"
  define f where "f = (\<lambda>i. Data (ee_data e ! ((unat m + i) mod 2 ^ k)))"
  have f: "Data v # map (\<lambda>i. Data (ee_data e ! ((reg ?e2 + i) mod 2 ^ k))) [0..<n] = map f [0..<Suc n]"
    using m unfolding v_def f_def r2
    by (simp add: upt_conv_Cons map_Suc_upt [symmetric] mod_add_left_eq del: upt_Suc)
  obtain e3 where 3: "trace ?M (replicate n (Get True) @ [Get False]) (Reading a v, with_eeprom p t ?e2) = Some (map f [0..<Suc n], (Reading a 0, with_eeprom p t e3))"
      "alone b a p (with_eeprom p t e3) e3"
    using read_trace [OF a2 ok2 r2', of cb n v] unfolding d2 f with_eeprom_twice by (elim exE conjE) (rule that)
  have "?M End (Reading a 0, with_eeprom p t e3) = Some (Finished, (Idle, with_eeprom p t (e3\<lparr>addr_pos := 0\<rparr>)))"
    using eeprom_stop_step [OF 3(2), of cb] by simp
  then have 4: "trace ?M [End] (Reading a 0, with_eeprom p t e3) = Some ([Finished], (Idle, with_eeprom p t (e3\<lparr>addr_pos := 0\<rparr>)))" by simp
  have 2: "trace ?M [Begin a True] (Writing a, with_eeprom p t ?e1) = Some ([Ack True], (Reading a v, with_eeprom p t ?e2))"
    using restart_read [OF a1 d(1) r1, of cb "Writing a"] unfolding d v_def by simp
  have "trace ?M (eeprom_read addr k m (Suc n)) (ph, t)
      = Some (pointer_acks k m @ [Ack True] @ map f [0..<Suc n] @ [Finished], (Idle, with_eeprom p t (e3\<lparr>addr_pos := 0\<rparr>)))"
    using trace_seq [OF pointer_trace [OF a ok m ad, of cb ph] trace_seq [OF 2 trace_seq [OF 3(1) 4]]]
    by (simp only: eeprom_read_def ad append_Cons append_Nil append_assoc diff_Suc_1)
  then show ?thesis unfolding f_def by (intro exI) simp
qed

lemma master_roundtrip:
  assumes a: "alone b a p t e" and ok: "eeprom_ok k e" and m: "unat m < 2 ^ k" and ad: "a = dev_addr addr k m"
    and vs: "vs \<noteq> []" "length vs \<le> 2 ^ k"
  shows "\<exists>rs c. trace (master_step (eeprom_callbacks cb) b)
       (eeprom_write addr k m vs @ eeprom_read addr k m (length vs)) (ph, t) = Some (rs, c)
     \<and> Ack False \<notin> set rs \<and> received rs = vs"
proof -
  obtain e1 where w: "trace (master_step (eeprom_callbacks cb) b) (eeprom_write addr k m vs) (ph, t)
       = Some (pointer_acks k m @ map (\<lambda>_. Ack True) vs @ [Finished], (Idle, with_eeprom p t e1))"
      "eeprom_ok k e1" "ee_data e1 = fill (ee_data e) (unat m) vs" "alone b a p (with_eeprom p t e1) e1"
    using write_message [OF a ok m ad] by blast
  obtain n where n: "length vs = Suc n" using vs(1) by (cases vs) auto
  obtain t' where r: "trace (master_step (eeprom_callbacks cb) b) (eeprom_read addr k m (length vs)) (Idle, with_eeprom p t e1)
     = Some (pointer_acks k m @ Ack True # map (\<lambda>i. Data (ee_data e1 ! ((unat m + i) mod 2 ^ k))) [0..<length vs] @ [Finished], (Idle, t'))"
    using read_message [OF w(4,2) m ad, of cb n Idle] unfolding n by blast
  have "length (ee_data e) = 2 ^ k" using ok by (simp add: eeprom_ok_def)
  then have "ee_data e1 ! ((unat m + i) mod 2 ^ k) = vs ! i" if "i < length vs" for i
    using fill_nth [of vs "ee_data e" "unat m" i] w(3) m vs(2) that by simp
  then have "map (\<lambda>i. ee_data e1 ! ((unat m + i) mod 2 ^ k)) [0..<length vs] = vs"
    by (intro nth_equalityI) simp_all
  then show ?thesis
    by (auto simp: trace_append w(1) r simp del: upt_Suc)
qed

section \<open>A new device\<close>

lemma half_power: "Suc k < 32 \<Longrightarrow> drop_bit 1 (2 ^ Suc k :: u32) = 2 ^ k"
proof -
  assume "Suc k < 32"
  then have "bit (drop_bit 1 (2 ^ Suc k :: u32)) n = bit (2 ^ k :: u32) n" for n
    by (simp only: bit_drop_bit_eq bit_exp_iff possible_bit_word o_apply) auto
  then show ?thesis by (intro bit_eqI)
qed

lemma log2i_loop_power: "k \<le> 31 \<Longrightarrow> log2i_loop (2 ^ k) r = r + of_nat k"
proof (induction k arbitrary: r)
  case 0
  have "drop_bit 1 (1::u32) = 0" by (simp add: drop_bit_eq_div)
  then show ?case by (subst log2i_loop.simps) simp
next
  case (Suc k)
  have "(2::u32) ^ k \<noteq> 0" using Suc.prems by (simp add: exp_eq_zero_iff)
  moreover have "drop_bit 1 (2 ^ Suc k :: u32) = 2 ^ k" using Suc.prems by (intro half_power) simp
  ultimately have "log2i_loop (2 ^ Suc k) r = log2i_loop (2 ^ k) (r + 1)"
    by (subst log2i_loop.simps) (simp only: Let_def if_False)
  then show ?case using Suc by simp
qed

lemma unat_power32: "k < 32 \<Longrightarrow> unat (2 ^ k :: u32) = 2 ^ k"
proof -
  assume "k < 32"
  then have "(2::nat) ^ k < 2 ^ 32" by (intro power_strict_increasing) auto
  then show ?thesis using unat_of_nat [of "2 ^ k", where 'a = 32] by simp
qed

lemma eeprom_size_power:
  assumes "k \<le> 23"
  shows "eeprom_size (2 ^ k) = 2 ^ k"
proof -
  have "log2i (2 ^ k) = of_nat k" using assms by (simp add: log2i_def log2i_loop_power)
  moreover have "unat (of_nat k :: u8) = k" using assms by (simp add: unat_of_nat)
  ultimately have l: "push_bit (unat (log2i (2 ^ k))) 1 = (2 ^ k :: u32)" by simp
  have "(2::nat) ^ k \<le> 2 ^ 23" using assms by (intro power_increasing) auto
  then have "unat (2 ^ k :: u32) \<le> 8388608" using unat_power32 [of k] assms by simp
  then have "8388608 \<le> (2 ^ k :: u32) \<Longrightarrow> (2 ^ k :: u32) = 8388608"
    by (simp add: word_le_nat_alt word_unat_eq_iff)
  then show ?thesis by (simp only: eeprom_size_def l Let_def less_irrefl if_False) auto
qed

text \<open>The addresses of a device: \<open>2 ^ j\<close> of them, from its own address with the low \<open>j\<close> bits cleared.\<close>

lemma address_mask:
  assumes "k \<le> 23"
  shows "ucast (drop_bit (ptr_bits k) (mask k :: u32)) = (mask (k - ptr_bits k) :: u8)"
  using assms by (intro word_eq_by_bits) (auto simp: bit_unsigned_iff bit_drop_bit_eq bit_mask_iff ptr_bits_def)

lemma unat_disjoint_or: "(v::u8) AND w = 0 \<Longrightarrow> unat (v OR w) = unat v + unat w"
proof -
  assume "v AND w = 0"
  then have "unat v AND unat w = 0" by (metis unsigned_and_eq unsigned_0)
  then show ?thesis by (simp add: unsigned_or_eq disjunctive_add_eq_or)
qed

lemma unat_and_mask8: "unat ((r::u8) AND mask j) = unat r mod 2 ^ j"
  by (simp only: take_bit_eq_mask [symmetric] unsigned_take_bit_eq) (simp add: take_bit_eq_mod)

lemma unat_mask8: "j < 8 \<Longrightarrow> unat (mask j :: u8) + 1 = 2 ^ j"
proof -
  assume "j < 8"
  then have "(2::nat) ^ j < 2 ^ 8" by (intro power_strict_increasing) auto
  moreover have "unat (mask j :: u8) = mask j mod 2 ^ 8" using unat_of_nat [of "mask j", where 'a = 8] by (simp add: of_nat_mask_eq)
  ultimately show ?thesis by (simp add: mask_eq_exp_minus_1)
qed

lemma unat_aligned: "unat ((addr::u8) AND NOT (mask j)) = unat addr div 2 ^ j * 2 ^ j"
proof -
  have "(addr AND NOT (mask j)) OR (addr AND mask j) = addr" "(addr AND NOT (mask j)) AND (addr AND mask j) = 0"
    by (auto simp: bit_eq_iff bit_and_iff bit_or_iff bit_not_iff bit_mask_iff)
  then have "unat (addr AND NOT (mask j)) + unat addr mod 2 ^ j = unat addr"
    using unat_disjoint_or [of "addr AND NOT (mask j)" "addr AND mask j"] by (simp add: unat_and_mask8)
  then have "unat (addr AND NOT (mask j)) = unat addr - unat addr mod 2 ^ j" by simp
  then show ?thesis by (simp only: minus_mod_eq_div_mult)
qed

lemma dev_addr_range:
  assumes "k \<le> 23" and "unat (m::u32) < 2 ^ k" and "addr < 128"
  defines "base \<equiv> unat (addr AND NOT (mask (k - ptr_bits k)))"
  shows "base \<le> unat (dev_addr addr k m)" "unat (dev_addr addr k m) < base + 2 ^ (k - ptr_bits k)" "base + 2 ^ (k - ptr_bits k) \<le> 128"
proof -
  let ?j = "k - ptr_bits k" and ?x = "ucast (drop_bit (ptr_bits k) m) :: u8"
  have j: "?j \<le> 7" using assms(1) by (auto simp: ptr_bits_def)
  have x: "?x AND mask ?j = ?x"
    using within_mask [OF assms(2,1)]
    by (intro word_eq_by_bits) (auto simp: bit_and_iff bit_unsigned_iff bit_drop_bit_eq bit_mask_iff less_diff_conv add.commute)
  then have "(addr AND NOT (mask ?j)) AND ?x = 0" 
    by (auto simp: bit_eq_iff bit_and_iff bit_not_iff bit_mask_iff)
  then have d: "unat (dev_addr addr k m) = base + unat ?x"
    unfolding dev_addr_def address_mask [OF assms(1)] base_def by (rule unat_disjoint_or)
  have "unat ?x = unat ?x mod 2 ^ ?j" using x unat_and_mask8 by metis
  then have "unat ?x < 2 ^ ?j" by (metis mod_less_divisor zero_less_numeral zero_less_power)
  then show "base \<le> unat (dev_addr addr k m)" "unat (dev_addr addr k m) < base + 2 ^ ?j" using d by auto
  have "unat addr < 2 ^ (7 - ?j) * 2 ^ ?j" using assms(3) j by (simp add: word_less_nat_alt flip: power_add)
  then have "unat addr div 2 ^ ?j < 2 ^ (7 - ?j)" by (simp add: less_mult_imp_div_less)
  then have "(unat addr div 2 ^ ?j + 1) * 2 ^ ?j \<le> 2 ^ (7 - ?j) * 2 ^ ?j" by (intro mult_le_mono1) simp
  then show "base + 2 ^ ?j \<le> 128" using j by (simp add: base_def unat_aligned flip: power_add)
qed

lemma sethandler_represents:
  assumes "represents s t" and "on_range b base sz (\<lambda>hs. hs @ [h]) t = Some t'"
  shows "\<exists>s'. i2c_sethandler b base sz h s = Some s' \<and> represents s' t'"
  by (rule range_acts [OF set_one_acts assms]) (simp add: i2c_sethandler_def each_loops)

lemma eeprom_init_alone:
  assumes st: "represents s t" and b: "b \<noteq> NULL" "t_buses t b = Some (nm, T)"
    and free: "\<And>a. T a = []"
    and k: "k \<le> 23" and data: "length data = 2 ^ k" and wr: "wr \<noteq> 0" and addr: "addr < 128" and m: "unat (m::u32) < 2 ^ k"
  shows "\<exists>p s' t' e. i2c_eeprom_init b addr data (2 ^ k) wr s = Some (p, s') \<and> represents s' t'
     \<and> alone b (dev_addr addr k m) p t' e \<and> eeprom_ok k e"
proof -
  let ?d = "devs s" and ?p = "new_eeprom (devs s)" and ?j = "k - ptr_bits k"
  have l: "(if 4096 \<le> (2::u32) ^ k then 16 else 8) = (if k < 12 then 8 else (16::u8))"
  proof -
    have "(2::nat) ^ 12 \<le> 2 ^ k \<longleftrightarrow> 12 \<le> k" by (rule power_increasing_iff) simp
    then show ?thesis using unat_power32 [of k] k by (auto simp: word_le_nat_alt)
  qed
  define e where "e = \<lparr>ee_i2c = b, ee_addr = addr, ee_data = data, ee_writable = wr, addr_mask = 2 ^ k - 1,
      addr_register = 0, addr_len = (if k < 12 then 8 else 16), addr_pos = 0\<rparr>"
  have ok: "eeprom_ok k e" using k data wr by (simp add: e_def eeprom_ok_def mask_eq_decr_exp)
  have mask: "i2c_mask e = mask ?j"
    using address_mask [OF k] unfolding i2c_mask_def e_def ptr_bits_def mask_eq_decr_exp by (cases "k < 12") simp_all
  have "?j < 8" using k by (auto simp: ptr_bits_def)
  then have sz: "unat (i2c_mask e) + 1 = 2 ^ ?j" using mask unat_mask8 by simp
  let ?d' = "put_eeprom ?p e (?d\<lparr>new_eeprom := Suc ?p\<rparr>)"
  let ?s = "s\<lparr>devs := ?d'\<rparr>" and ?t = "t\<lparr>t_devs := ?d'\<rparr>"
  let ?base = "addr AND NOT (mask ?j)"
  note range = dev_addr_range [OF k m addr]
  let ?t' = "?t\<lparr>t_buses := (t_buses ?t)(b \<mapsto> (nm, \<lambda>a. if a \<in> {unat ?base..<unat ?base + 2 ^ ?j} then T a @ [eeprom_handlers ?p] else T a))\<rparr>"
  have "on_range b ?base (2 ^ ?j) (\<lambda>hs. hs @ [eeprom_handlers ?p]) ?t = Some ?t'"
    using b range(3) by (simp add: on_range_def)
  then obtain s' where s': "i2c_sethandler b ?base (2 ^ ?j) (eeprom_handlers ?p) ?s = Some s'" "represents s' ?t'"
    using sethandler_represents [OF represents_devs [OF st]] by blast
  have "i2c_eeprom_init b addr data (2 ^ k) wr s = Some (?p, s')"
    using s'(1) unfolding i2c_eeprom_init_def eeprom_size_power [OF k] Let_def l e_def [symmetric] sz
    unfolding mask by simp
  moreover have "alone b (dev_addr addr k m) ?p ?t' e"
    using b range free by (auto simp: alone_def put_eeprom_def word_less_nat_alt)
  ultimately show ?thesis using s'(2) ok by blast
qed

text \<open>
  Claim C8: An EEPROM that is attached to the bus of a new host controller stores what is written to it,
  all the way from the two lines of the controller. For every size \<open>2 ^ k\<close> up to 8 MB, every
  writable device with that much data at a 7-bit device address, every address \<open>m\<close> in it and
  one or more bytes, at most as many as it holds: a driver that clocks the message of a write (start,
  device address with the upper bits of \<open>m\<close>, one or two address bytes, the data, stop) and
  then of a read (start, the same address bytes, repeated start, the data with acknowledgements, stop)
  through \<open>i2c_gpio_set\<close> and samples the data line with \<open>i2c_gpio_get_sda\<close> gets
  an acknowledgement for every byte and receives the bytes it wrote, also where the register rolls over at
  the end of the memory. Other buses and the devices on them are arbitrary.
\<close>

theorem i2c_eeprom_roundtrip:
  assumes st: "represents s0 t" and g: "i2c_gpio_init nm s0 = (g, s)"
    and k: "k \<le> 23" and data: "length data = 2 ^ k" and wr: "wr \<noteq> 0" and addr: "addr < 128" and m: "unat m < 2 ^ k"
    and vs: "vs \<noteq> []" "length vs \<le> 2 ^ k"
  shows "\<exists>p s' rs c. i2c_eeprom_init (i2c_gpio_get_bus g) addr data (2 ^ k) wr s = Some (p, s')
     \<and> trace (pin_step (eeprom_callbacks cb)) (eeprom_write addr k m vs @ eeprom_read addr k m (length vs)) (g, s') = Some (rs, c)
     \<and> Ack False \<notin> set rs \<and> received rs = vs"
proof -
  let ?b = "new_bus s0"
  let ?t = "t\<lparr>t_new := Suc (t_new t), t_buses := (t_buses t)(t_new t \<mapsto> (nm, \<lambda>_. []))\<rparr>"
  have f: "represents s ?t" "gp_i2c g = ?b" "line_state Idle g"
    using i2c_gpio_init_follows [OF st g] by (auto simp: follows_def)
  have b: "?b \<noteq> NULL" "t_new t = ?b" using st by (auto simp: represents_def owned_def tables_def)
  then have tb: "t_buses ?t ?b = Some (nm, \<lambda>_. [])" by simp
  obtain p s' t' e where i: "i2c_eeprom_init ?b addr data (2 ^ k) wr s = Some (p, s')" "represents s' t'"
      "alone ?b (dev_addr addr k m) p t' e" "eeprom_ok k e"
    using eeprom_init_alone [OF f(1) b(1) tb _ k data wr addr m] by blast
  obtain rs a where "trace (master_step (eeprom_callbacks cb) ?b)
      (eeprom_write addr k m vs @ eeprom_read addr k m (length vs)) (Idle, t') = Some (rs, a)" "Ack False \<notin> set rs" "received rs = vs"
    using master_roundtrip [OF i(3,4) m refl vs] by blast
  moreover have "follows ?b (g, s') (Idle, t')" using f(2,3) i(2) by (simp add: follows_def)
  ultimately show ?thesis using gpio.trace_simulates i(1) f(2) unfolding i2c_gpio_get_bus_def by metis
qed

text \<open>A driver on a fresh machine, across the end of a memory of 256 bytes.\<close>

definition no_devices :: "unit eeproms" where
  "no_devices = \<lparr>eeprom = (\<lambda>_. None), new_eeprom = 1, others = ()\<rparr>"

definition no_callbacks :: "(unit, unit) i2c_callbacks" where
  "no_callbacks = \<lparr>on_start = (\<lambda>_ _ _ _ _ _. None), on_read = (\<lambda>_ _ _ _ _. None),
     on_write = (\<lambda>_ _ _ _ _ _. None), on_stop = (\<lambda>_ _ _ _ _. None)\<rparr>"

definition fresh_controller :: "(unit i2c_fn, unit eeproms) gpio_state" where
  "fresh_controller = i2c_gpio_init ''ddc'' (no_buses no_devices)"

lemma i2c_eeprom_roundtrip_witness:
  "\<exists>p s' rs c. i2c_eeprom_init 1 0x50 (replicate 256 0xFF) 256 1 (snd fresh_controller) = Some (p, s')
     \<and> trace (pin_step (eeprom_callbacks no_callbacks)) (eeprom_write 0x50 8 0xFF [0x12, 0x34] @ eeprom_read 0x50 8 0xFF 2)
          (fst fresh_controller, s') = Some (rs, c)
     \<and> Ack False \<notin> set rs \<and> received rs = [0x12, 0x34]"
proof -
  have b: "i2c_gpio_get_bus (fst fresh_controller) = 1"
    by (simp add: fresh_controller_def i2c_gpio_init_def i2c_addbus_def no_buses_def i2c_gpio_get_bus_def Let_def)
  have g: "i2c_gpio_init ''ddc'' (no_buses no_devices) = (fst fresh_controller, snd fresh_controller)"
    by (simp add: fresh_controller_def)
  have l: "length [0x12, 0x34 :: u8] = 2" by simp
  show ?thesis
    using i2c_eeprom_roundtrip [OF no_buses_represents g, where k = 8 and data = "replicate 256 0xFF" and wr = 1
      and addr = "0x50" and m = "0xFF" and vs = "[0x12, 0x34]" and cb = no_callbacks, unfolded b l] by simp
qed

end
