(* ===== verification/Io.thy ===== *)
theory Io
  imports Refinement
begin

text \<open>
  I/O port dispatch (\<open>src/src/io.c\<close>): per port a doubly linked list of handlers, each with functions for
  reads and writes of 8, 16 and 32 bits, any of which may be NULL. \<open>malloc\<close> takes the next address,
  \<open>free\<close> empties it, and \<open>None\<close> is an access to a freed handler, a port beyond the array, or a walk
  that does not end. What a function pointer calls is a parameter, the record \<open>io_callbacks\<close>; a handler
  may change everything, the lists included. The rest of the machine is of open type. The debug
  registers (an option of the build) and the log are left out.
\<close>

section \<open>State\<close>

record 'f io_fns =
  fn_inb :: "'f option"
  fn_inw :: "'f option"
  fn_inl :: "'f option"
  fn_outb :: "'f option"
  fn_outw :: "'f option"
  fn_outl :: "'f option"
  fn_priv :: ptr

record 'f io_t = "'f io_fns" +
  io_prev :: ptr
  io_next :: ptr

text \<open>The globals that an access reads or writes besides the lists.\<close>

record 'd io_env =
  io_port :: u16
  io_val :: u32
  pci_flags :: u32
  pci_base :: u32
  pci_size :: u32
  amstrad_latch :: u32
  io_cycles :: int
  io_delay :: int
  cpu_use_dynarec :: bool
  io_devs :: 'd

record ('f, 'd) io_sys =
  handlers :: "ptr \<Rightarrow> 'f io_t option"
  new_handler :: ptr
  initialized :: bool
  io_ports :: "nat \<Rightarrow> ptr"
  io_last :: "nat \<Rightarrow> ptr"
  io_rest :: "'d io_env"

record ('f, 'd) io_callbacks =
  on_inb :: "'f \<Rightarrow> u16 \<Rightarrow> ptr \<Rightarrow> ('f, 'd) io_sys \<Rightarrow> (u8 \<times> ('f, 'd) io_sys) option"
  on_inw :: "'f \<Rightarrow> u16 \<Rightarrow> ptr \<Rightarrow> ('f, 'd) io_sys \<Rightarrow> (u16 \<times> ('f, 'd) io_sys) option"
  on_inl :: "'f \<Rightarrow> u16 \<Rightarrow> ptr \<Rightarrow> ('f, 'd) io_sys \<Rightarrow> (u32 \<times> ('f, 'd) io_sys) option"
  on_outb :: "'f \<Rightarrow> u16 \<Rightarrow> u8 \<Rightarrow> ptr \<Rightarrow> ('f, 'd) io_sys \<Rightarrow> ('f, 'd) io_sys option"
  on_outw :: "'f \<Rightarrow> u16 \<Rightarrow> u16 \<Rightarrow> ptr \<Rightarrow> ('f, 'd) io_sys \<Rightarrow> ('f, 'd) io_sys option"
  on_outl :: "'f \<Rightarrow> u16 \<Rightarrow> u32 \<Rightarrow> ptr \<Rightarrow> ('f, 'd) io_sys \<Rightarrow> ('f, 'd) io_sys option"
  on_pci_read :: "u16 \<Rightarrow> ('f, 'd) io_sys \<Rightarrow> (u8 \<times> ('f, 'd) io_sys) option"
  on_pci_readw :: "u16 \<Rightarrow> ('f, 'd) io_sys \<Rightarrow> (u16 \<times> ('f, 'd) io_sys) option"
  on_pci_readl :: "u16 \<Rightarrow> ('f, 'd) io_sys \<Rightarrow> (u32 \<times> ('f, 'd) io_sys) option"
  on_pci_write :: "u16 \<Rightarrow> u8 \<Rightarrow> ('f, 'd) io_sys \<Rightarrow> ('f, 'd) io_sys option"
  on_pci_writew :: "u16 \<Rightarrow> u16 \<Rightarrow> ('f, 'd) io_sys \<Rightarrow> ('f, 'd) io_sys option"
  on_pci_writel :: "u16 \<Rightarrow> u32 \<Rightarrow> ('f, 'd) io_sys \<Rightarrow> ('f, 'd) io_sys option"
  on_update_tsc :: "('f, 'd) io_sys \<Rightarrow> ('f, 'd) io_sys option"

abbreviation NPORTS :: nat where "NPORTS \<equiv> 65536"

abbreviation io_fns_of :: "'f io_t \<Rightarrow> 'f io_fns" where "io_fns_of \<equiv> io_fns.truncate"

definition mod_handler :: "ptr \<Rightarrow> ('f io_t \<Rightarrow> 'f io_t) \<Rightarrow> ('f, 'd) io_sys \<Rightarrow> ('f, 'd) io_sys option" where
  "mod_handler p f s = map_option (\<lambda>n. s\<lparr>handlers := (handlers s)(p \<mapsto> f n)\<rparr>) (handlers s p)"

definition set_first :: "nat \<Rightarrow> ptr \<Rightarrow> ('f, 'd) io_sys \<Rightarrow> ('f, 'd) io_sys" where
  "set_first a p s = s\<lparr>io_ports := (io_ports s)(a := p)\<rparr>"

definition set_lasth :: "nat \<Rightarrow> ptr \<Rightarrow> ('f, 'd) io_sys \<Rightarrow> ('f, 'd) io_sys" where
  "set_lasth a p s = s\<lparr>io_last := (io_last s)(a := p)\<rparr>"

definition mod_env :: "('d io_env \<Rightarrow> 'd io_env) \<Rightarrow> ('f, 'd) io_sys \<Rightarrow> ('f, 'd) io_sys" where
  "mod_env g s = s\<lparr>io_rest := g (io_rest s)\<rparr>"

section \<open>Handlers\<close>

partial_function (option) free_back :: "ptr \<Rightarrow> ('f, 'd) io_sys \<Rightarrow> ('f, 'd) io_sys option" where
  "free_back p s = (if p = NULL then Some s else
     do {n \<leftarrow> handlers s p; free_back (io_prev n) (s\<lparr>handlers := (handlers s)(p := None)\<rparr>)})"

definition io_clear :: "nat \<Rightarrow> ('f, 'd) io_sys \<Rightarrow> ('f, 'd) io_sys option" where
  "io_clear c s = do {s \<leftarrow> (if io_last s c \<noteq> NULL then free_back (io_last s c) s else Some s);
     Some (set_first c NULL (set_lasth c NULL s))}"

definition io_init :: "('f, 'd) io_sys \<Rightarrow> ('f, 'd) io_sys option" where
  "io_init s = (let s = (if initialized s then s
       else s\<lparr>io_ports := (\<lambda>_. NULL), io_last := (\<lambda>_. NULL), initialized := True\<rparr>)
     in each io_clear [0..<NPORTS] s)"

definition io_add :: "'f io_fns \<Rightarrow> nat \<Rightarrow> ('f, 'd) io_sys \<Rightarrow> ('f, 'd) io_sys option" where
  "io_add h a s = (if a < NPORTS then do {
     let p = io_last s a; let q = new_handler s;
     let s = s\<lparr>new_handler := Suc q, handlers := (handlers s)(q \<mapsto> io_fns.extend h \<lparr>io_prev = NULL, io_next = NULL\<rparr>)\<rparr>;
     s \<leftarrow> (if p \<noteq> NULL then do {s \<leftarrow> mod_handler p (io_next_update (\<lambda>_. q)) s; mod_handler q (io_prev_update (\<lambda>_. p)) s}
          else Some (set_first a q s));
     Some (set_lasth a q s)} else None)"

text \<open>A handler is taken out of its list and freed.\<close>

definition io_unlink :: "nat \<Rightarrow> ptr \<Rightarrow> 'f io_t \<Rightarrow> ('f, 'd) io_sys \<Rightarrow> ('f, 'd) io_sys option" where
  "io_unlink a p n s = do {
     s \<leftarrow> (if io_prev n \<noteq> NULL then mod_handler (io_prev n) (io_next_update (\<lambda>_. io_next n)) s
          else Some (set_first a (io_next n) s));
     s \<leftarrow> (if io_next n \<noteq> NULL then mod_handler (io_next n) (io_prev_update (\<lambda>_. io_prev n)) s
          else Some (set_lasth a (io_prev n) s));
     Some (s\<lparr>handlers := (handlers s)(p := None)\<rparr>)}"

partial_function (option) io_remove_walk :: "'f io_fns \<Rightarrow> nat \<Rightarrow> ptr \<Rightarrow> ('f, 'd) io_sys \<Rightarrow> ('f, 'd) io_sys option" where
  "io_remove_walk h a p s = (if p = NULL then Some s else
     do {n \<leftarrow> handlers s p; if io_fns_of n = h then io_unlink a p n s else io_remove_walk h a (io_next n) s})"

definition io_drop :: "'f io_fns \<Rightarrow> nat \<Rightarrow> ('f, 'd) io_sys \<Rightarrow> ('f, 'd) io_sys option" where
  "io_drop h a s = (if a < NPORTS then io_remove_walk h a (io_ports s a) s else None)"

text \<open>The ports \<open>base + c\<close> for \<open>c = 0\<close>, \<open>step\<close>, \<open>2 * step\<close>, ... below \<open>sz\<close>.\<close>

definition port_range :: "u16 \<Rightarrow> nat \<Rightarrow> nat \<Rightarrow> nat list" where
  "port_range base sz step = map (\<lambda>c. unat base + c) (filter (\<lambda>c. c mod step = 0) [0..<sz])"

definition io_sethandler_common :: "u16 \<Rightarrow> nat \<Rightarrow> 'f io_fns \<Rightarrow> nat \<Rightarrow> ('f, 'd) io_sys \<Rightarrow> ('f, 'd) io_sys option" where
  "io_sethandler_common base sz h step s = each (io_add h) (port_range base sz step) s"

definition io_removehandler_common :: "u16 \<Rightarrow> nat \<Rightarrow> 'f io_fns \<Rightarrow> nat \<Rightarrow> ('f, 'd) io_sys \<Rightarrow> ('f, 'd) io_sys option" where
  "io_removehandler_common base sz h step s = each (io_drop h) (port_range base sz step) s"

definition io_handler_common :: "bool \<Rightarrow> u16 \<Rightarrow> nat \<Rightarrow> 'f io_fns \<Rightarrow> nat \<Rightarrow> ('f, 'd) io_sys \<Rightarrow> ('f, 'd) io_sys option" where
  "io_handler_common on base sz h step s =
     (if on then io_sethandler_common base sz h step s else io_removehandler_common base sz h step s)"

definition io_sethandler :: "u16 \<Rightarrow> nat \<Rightarrow> 'f io_fns \<Rightarrow> ('f, 'd) io_sys \<Rightarrow> ('f, 'd) io_sys option" where
  "io_sethandler base sz h s = io_sethandler_common base sz h 1 s"

definition io_removehandler :: "u16 \<Rightarrow> nat \<Rightarrow> 'f io_fns \<Rightarrow> ('f, 'd) io_sys \<Rightarrow> ('f, 'd) io_sys option" where
  "io_removehandler base sz h s = io_removehandler_common base sz h 1 s"

definition io_handler :: "bool \<Rightarrow> u16 \<Rightarrow> nat \<Rightarrow> 'f io_fns \<Rightarrow> ('f, 'd) io_sys \<Rightarrow> ('f, 'd) io_sys option" where
  "io_handler on base sz h s = io_handler_common on base sz h 1 s"

definition io_sethandler_interleaved :: "u16 \<Rightarrow> nat \<Rightarrow> 'f io_fns \<Rightarrow> ('f, 'd) io_sys \<Rightarrow> ('f, 'd) io_sys option" where
  "io_sethandler_interleaved base sz h s = io_sethandler_common base sz h 2 s"

definition io_removehandler_interleaved :: "u16 \<Rightarrow> nat \<Rightarrow> 'f io_fns \<Rightarrow> ('f, 'd) io_sys \<Rightarrow> ('f, 'd) io_sys option" where
  "io_removehandler_interleaved base sz h s = io_removehandler_common base sz h 2 s"

definition io_handler_interleaved :: "bool \<Rightarrow> u16 \<Rightarrow> nat \<Rightarrow> 'f io_fns \<Rightarrow> ('f, 'd) io_sys \<Rightarrow> ('f, 'd) io_sys option" where
  "io_handler_interleaved on base sz h s = io_handler_common on base sz h 2 s"

section \<open>Accesses\<close>

text \<open>
  The walk over the handlers of a port, for those with the function \<open>sel\<close>: the link to the next one is
  read before the call. \<open>found\<close> tells whether any was called.
\<close>

partial_function (option) in_walk :: "('f io_fns \<Rightarrow> 'f option) \<Rightarrow> ('f \<Rightarrow> ptr \<Rightarrow> ('f, 'd) io_sys \<Rightarrow> ('w::len word \<times> ('f, 'd) io_sys) option)
    \<Rightarrow> ptr \<Rightarrow> 'w word \<Rightarrow> bool \<Rightarrow> ('f, 'd) io_sys \<Rightarrow> ('w word \<times> bool \<times> ('f, 'd) io_sys) option" where
  "in_walk sel call p ret found s = (if p = NULL then Some (ret, found, s) else do {
     n \<leftarrow> handlers s p;
     case sel (io_fns_of n) of None \<Rightarrow> in_walk sel call (io_next n) ret found s
     | Some f \<Rightarrow> do {(v, s) \<leftarrow> call f (fn_priv n) s; in_walk sel call (io_next n) (ret AND v) True s}})"

partial_function (option) out_walk :: "('f io_fns \<Rightarrow> 'f option) \<Rightarrow> ('f \<Rightarrow> ptr \<Rightarrow> ('f, 'd) io_sys \<Rightarrow> ('f, 'd) io_sys option)
    \<Rightarrow> ptr \<Rightarrow> bool \<Rightarrow> ('f, 'd) io_sys \<Rightarrow> (bool \<times> ('f, 'd) io_sys) option" where
  "out_walk sel call p found s = (if p = NULL then Some (found, s) else do {
     n \<leftarrow> handlers s p;
     case sel (io_fns_of n) of None \<Rightarrow> out_walk sel call (io_next n) found s
     | Some f \<Rightarrow> do {s \<leftarrow> call f (fn_priv n) s; out_walk sel call (io_next n) True s}})"

abbreviation first_at :: "u16 \<Rightarrow> ('f, 'd) io_sys \<Rightarrow> ptr" where "first_at port s \<equiv> io_ports s (unat port)"

text \<open>Handlers that lack the wider functions.\<close>

definition byte_in2 :: "'f io_fns \<Rightarrow> 'f option" where
  "byte_in2 h = (if fn_inw h = None then fn_inb h else None)"

definition word_in4 :: "'f io_fns \<Rightarrow> 'f option" where
  "word_in4 h = (if fn_inl h = None then fn_inw h else None)"

definition byte_in4 :: "'f io_fns \<Rightarrow> 'f option" where
  "byte_in4 h = (if fn_inw h = None \<and> fn_inl h = None then fn_inb h else None)"

definition byte_out2 :: "'f io_fns \<Rightarrow> 'f option" where
  "byte_out2 h = (if fn_outw h = None then fn_outb h else None)"

definition word_out4 :: "'f io_fns \<Rightarrow> 'f option" where
  "word_out4 h = (if fn_outl h = None then fn_outw h else None)"

definition byte_out4 :: "'f io_fns \<Rightarrow> 'f option" where
  "byte_out4 h = (if fn_outw h = None \<and> fn_outl h = None then fn_outb h else None)"

fun in_bytes :: "('f, 'd) io_callbacks \<Rightarrow> ('f io_fns \<Rightarrow> 'f option) \<Rightarrow> (u16 \<times> u8) list \<Rightarrow> bool \<Rightarrow> ('f, 'd) io_sys
    \<Rightarrow> (u8 list \<times> bool \<times> ('f, 'd) io_sys) option" where
  "in_bytes cb sel [] found s = Some ([], found, s)"
| "in_bytes cb sel ((a, b) # bs) found s = do {
     (b, found, s) \<leftarrow> in_walk sel (\<lambda>f. on_inb cb f a) (first_at a s) b found s;
     (bs, found, s) \<leftarrow> in_bytes cb sel bs found s; Some (b # bs, found, s)}"

fun in_words :: "('f, 'd) io_callbacks \<Rightarrow> ('f io_fns \<Rightarrow> 'f option) \<Rightarrow> (u16 \<times> u16) list \<Rightarrow> bool \<Rightarrow> ('f, 'd) io_sys
    \<Rightarrow> (u16 list \<times> bool \<times> ('f, 'd) io_sys) option" where
  "in_words cb sel [] found s = Some ([], found, s)"
| "in_words cb sel ((a, b) # bs) found s = do {
     (b, found, s) \<leftarrow> in_walk sel (\<lambda>f. on_inw cb f a) (first_at a s) b found s;
     (bs, found, s) \<leftarrow> in_words cb sel bs found s; Some (b # bs, found, s)}"

fun out_bytes :: "('f, 'd) io_callbacks \<Rightarrow> ('f io_fns \<Rightarrow> 'f option) \<Rightarrow> (u16 \<times> u8) list \<Rightarrow> bool \<Rightarrow> ('f, 'd) io_sys
    \<Rightarrow> (bool \<times> ('f, 'd) io_sys) option" where
  "out_bytes cb sel [] found s = Some (found, s)"
| "out_bytes cb sel ((a, v) # bs) found s = do {
     (found, s) \<leftarrow> out_walk sel (\<lambda>f. on_outb cb f a v) (first_at a s) found s; out_bytes cb sel bs found s}"

fun out_words :: "('f, 'd) io_callbacks \<Rightarrow> ('f io_fns \<Rightarrow> 'f option) \<Rightarrow> (u16 \<times> u16) list \<Rightarrow> bool \<Rightarrow> ('f, 'd) io_sys
    \<Rightarrow> (bool \<times> ('f, 'd) io_sys) option" where
  "out_words cb sel [] found s = Some (found, s)"
| "out_words cb sel ((a, v) # bs) found s = do {
     (found, s) \<leftarrow> out_walk sel (\<lambda>f. on_outw cb f a v) (first_at a s) found s; out_words cb sel bs found s}"

definition byte_at :: "nat \<Rightarrow> 'w::len word \<Rightarrow> u8" where "byte_at i v = ucast (drop_bit (8 * i) v)"
definition word16 :: "nat \<Rightarrow> 'w::len word \<Rightarrow> u16" where "word16 i v = ucast (drop_bit (8 * i) v)"

definition io_pci_window :: "u16 \<Rightarrow> 'd io_env \<Rightarrow> bool" where
  "io_pci_window port e \<longleftrightarrow> pci_flags e AND 0x8 \<noteq> 0 \<and> pci_base e \<le> ucast port \<and> ucast port < pci_base e + pci_size e
     \<or> pci_flags e AND 0x10 \<noteq> 0 \<and> 0xc000 \<le> port \<and> port < 0xc100"

definition io_amstrad :: "u16 \<Rightarrow> 'd io_env \<Rightarrow> 'd io_env" where
  "io_amstrad port e = (if amstrad_latch e AND 0x80000000 \<noteq> 0 then
     e\<lparr>amstrad_latch := (if port AND 0x80 \<noteq> 0 then 0 else if port AND 0x4000 \<noteq> 0 then 2 else 1) OR 0x80000000\<rparr> else e)"

definition io_miss :: "bool \<Rightarrow> 'd io_env \<Rightarrow> 'd io_env" where
  "io_miss found e = (if found then e else e\<lparr>io_cycles := io_cycles e - io_delay e\<rparr>)"

definition in_done :: "u16 \<Rightarrow> 'w \<times> bool \<times> ('f, 'd) io_sys \<Rightarrow> 'w \<times> ('f, 'd) io_sys" where
  "in_done port = (\<lambda>(ret, found, s). (ret, mod_env (io_miss found \<circ> io_amstrad port) s))"

definition out_done :: "('f, 'd) io_callbacks \<Rightarrow> u16 \<Rightarrow> bool \<times> ('f, 'd) io_sys \<Rightarrow> ('f, 'd) io_sys option" where
  "out_done cb port = (\<lambda>(found, s). let s = mod_env (io_miss found) s in
     if \<not> found \<and> cpu_use_dynarec (io_rest s) \<and> (port = 0xeb \<or> port = 0xed) then on_update_tsc cb s else Some s)"

definition inb :: "('f, 'd) io_callbacks \<Rightarrow> u16 \<Rightarrow> ('f, 'd) io_sys \<Rightarrow> (u8 \<times> ('f, 'd) io_sys) option" where
  "inb cb port s = do {
     let s = mod_env (io_port_update (\<lambda>_. port)) s;
     r \<leftarrow> (if io_pci_window port (io_rest s) then do {(v, s) \<leftarrow> on_pci_read cb port s; Some (v, True, s)}
       else in_walk fn_inb (\<lambda>f. on_inb cb f port) (first_at port s) 0xff False s);
     Some (in_done port r)}"

definition outb :: "('f, 'd) io_callbacks \<Rightarrow> u16 \<Rightarrow> u8 \<Rightarrow> ('f, 'd) io_sys \<Rightarrow> ('f, 'd) io_sys option" where
  "outb cb port v s = do {
     let s = mod_env (\<lambda>e. e\<lparr>io_port := port, io_val := ucast v\<rparr>) s;
     r \<leftarrow> (if io_pci_window port (io_rest s) then do {s \<leftarrow> on_pci_write cb port v s; Some (True, s)}
       else out_walk fn_outb (\<lambda>f. on_outb cb f port v) (first_at port s) False s);
     out_done cb port r}"

definition inw :: "('f, 'd) io_callbacks \<Rightarrow> u16 \<Rightarrow> ('f, 'd) io_sys \<Rightarrow> (u16 \<times> ('f, 'd) io_sys) option" where
  "inw cb port s = do {
     let s = mod_env (io_port_update (\<lambda>_. port)) s;
     r \<leftarrow> (if io_pci_window port (io_rest s) then do {(v, s) \<leftarrow> on_pci_readw cb port s; Some (v, True, s)}
       else do {
         (ret, found, s) \<leftarrow> in_walk fn_inw (\<lambda>f. on_inw cb f port) (first_at port s) 0xffff False s;
         (bs, found, s) \<leftarrow> in_bytes cb byte_in2 [(port, byte_at 0 ret), (port + 1, byte_at 1 ret)] found s;
         Some (push_bit 8 (ucast (bs ! 1)) OR ucast (bs ! 0), found, s)});
     Some (in_done port r)}"

definition outw :: "('f, 'd) io_callbacks \<Rightarrow> u16 \<Rightarrow> u16 \<Rightarrow> ('f, 'd) io_sys \<Rightarrow> ('f, 'd) io_sys option" where
  "outw cb port v s = do {
     let s = mod_env (\<lambda>e. e\<lparr>io_port := port, io_val := ucast v\<rparr>) s;
     r \<leftarrow> (if io_pci_window port (io_rest s) then do {s \<leftarrow> on_pci_writew cb port v s; Some (True, s)}
       else do {
         (found, s) \<leftarrow> out_walk fn_outw (\<lambda>f. on_outw cb f port v) (first_at port s) False s;
         out_bytes cb byte_out2 [(port, byte_at 0 v), (port + 1, byte_at 1 v)] found s});
     out_done cb port r}"

definition inl :: "('f, 'd) io_callbacks \<Rightarrow> u16 \<Rightarrow> ('f, 'd) io_sys \<Rightarrow> (u32 \<times> ('f, 'd) io_sys) option" where
  "inl cb port s = do {
     let s = mod_env (io_port_update (\<lambda>_. port)) s;
     r \<leftarrow> (if io_pci_window port (io_rest s) then do {(v, s) \<leftarrow> on_pci_readl cb port s; Some (v, True, s)}
       else do {
         (ret, found, s) \<leftarrow> in_walk fn_inl (\<lambda>f. on_inl cb f port) (first_at port s) 0xffffffff False s;
         (ws, found, s) \<leftarrow> in_words cb word_in4 [(port, word16 0 ret), (port + 2, word16 2 ret)] found s;
         let ret = (push_bit 16 (ucast (ws ! 1)) OR ucast (ws ! 0) :: u32);
         (bs, found, s) \<leftarrow> in_bytes cb byte_in4
           [(port, byte_at 0 ret), (port + 1, byte_at 1 ret), (port + 2, byte_at 2 ret), (port + 3, byte_at 3 ret)] found s;
         Some (push_bit 24 (ucast (bs ! 3)) OR push_bit 16 (ucast (bs ! 2)) OR push_bit 8 (ucast (bs ! 1)) OR ucast (bs ! 0),
           found, s)});
     Some (in_done port r)}"

definition outl :: "('f, 'd) io_callbacks \<Rightarrow> u16 \<Rightarrow> u32 \<Rightarrow> ('f, 'd) io_sys \<Rightarrow> ('f, 'd) io_sys option" where
  "outl cb port v s = do {
     let s = mod_env (\<lambda>e. e\<lparr>io_port := port, io_val := v\<rparr>) s;
     r \<leftarrow> (if io_pci_window port (io_rest s) then do {s \<leftarrow> on_pci_writel cb port v s; Some (True, s)}
       else do {
         (found, s) \<leftarrow> out_walk fn_outl (\<lambda>f. on_outl cb f port v) (first_at port s) False s;
         (found, s) \<leftarrow> out_words cb word_out4 [(port, word16 0 v), (port + 2, word16 2 v)] found s;
         out_bytes cb byte_out4
           [(port, byte_at 0 v), (port + 1, byte_at 1 v), (port + 2, byte_at 2 v), (port + 3, byte_at 3 v)] found s});
     out_done cb port r}"

section \<open>Traps\<close>

text \<open>
  A trap calls a function of its owner for every access to its ports. A function pointer is one of this
  file, with a trap as its object, or another device's.
\<close>

record 'g io_trap_t =
  trap_enable :: u8
  trap_base :: u16
  trap_size :: u16
  trap_func :: 'g
  trap_priv :: ptr

record ('g, 'e) io_traps =
  traps :: "ptr \<Rightarrow> 'g io_trap_t option"
  new_trap :: ptr
  trap_others :: 'e

datatype 'g io_fn = Trap_readb | Trap_readw | Trap_readl | Trap_writeb | Trap_writew | Trap_writel | Device_fn 'g

type_synonym ('g, 'e) trap_sys = "('g io_fn, ('g, 'e) io_traps) io_sys"

text \<open>What the owner of a trap does: size, port, whether it is a write, and the low byte of the value.\<close>

type_synonym ('g, 'e) trap_call = "'g \<Rightarrow> nat \<Rightarrow> u16 \<Rightarrow> u8 \<Rightarrow> u8 \<Rightarrow> ptr \<Rightarrow> ('g, 'e) trap_sys \<Rightarrow> ('g, 'e) trap_sys option"

definition trap_at :: "ptr \<Rightarrow> ('g, 'e) trap_sys \<Rightarrow> 'g io_trap_t option" where
  "trap_at p s = traps (io_devs (io_rest s)) p"

definition put_trap :: "ptr \<Rightarrow> 'g io_trap_t option \<Rightarrow> ('g, 'e) trap_sys \<Rightarrow> ('g, 'e) trap_sys" where
  "put_trap p t s = mod_env (\<lambda>e. e\<lparr>io_devs := (io_devs e)\<lparr>traps := (traps (io_devs e))(p := t)\<rparr>\<rparr>) s"

definition io_trap_readb :: "('g, 'e) trap_call \<Rightarrow> u16 \<Rightarrow> ptr \<Rightarrow> ('g, 'e) trap_sys \<Rightarrow> (u8 \<times> ('g, 'e) trap_sys) option" where
  "io_trap_readb tc addr priv s = do {t \<leftarrow> trap_at priv s; s \<leftarrow> tc (trap_func t) 1 addr 0 0 (trap_priv t) s; Some (0xff, s)}"

definition io_trap_readw :: "('g, 'e) trap_call \<Rightarrow> u16 \<Rightarrow> ptr \<Rightarrow> ('g, 'e) trap_sys \<Rightarrow> (u16 \<times> ('g, 'e) trap_sys) option" where
  "io_trap_readw tc addr priv s = do {t \<leftarrow> trap_at priv s; s \<leftarrow> tc (trap_func t) 2 addr 0 0 (trap_priv t) s; Some (0xffff, s)}"

definition io_trap_readl :: "('g, 'e) trap_call \<Rightarrow> u16 \<Rightarrow> ptr \<Rightarrow> ('g, 'e) trap_sys \<Rightarrow> (u32 \<times> ('g, 'e) trap_sys) option" where
  "io_trap_readl tc addr priv s = do {t \<leftarrow> trap_at priv s; s \<leftarrow> tc (trap_func t) 4 addr 0 0 (trap_priv t) s; Some (0xffffffff, s)}"

definition io_trap_writeb :: "('g, 'e) trap_call \<Rightarrow> u16 \<Rightarrow> u8 \<Rightarrow> ptr \<Rightarrow> ('g, 'e) trap_sys \<Rightarrow> ('g, 'e) trap_sys option" where
  "io_trap_writeb tc addr v priv s = do {t \<leftarrow> trap_at priv s; tc (trap_func t) 1 addr 1 v (trap_priv t) s}"

definition io_trap_writew :: "('g, 'e) trap_call \<Rightarrow> u16 \<Rightarrow> u16 \<Rightarrow> ptr \<Rightarrow> ('g, 'e) trap_sys \<Rightarrow> ('g, 'e) trap_sys option" where
  "io_trap_writew tc addr v priv s = do {t \<leftarrow> trap_at priv s; tc (trap_func t) 2 addr 1 (ucast v) (trap_priv t) s}"

definition io_trap_writel :: "('g, 'e) trap_call \<Rightarrow> u16 \<Rightarrow> u32 \<Rightarrow> ptr \<Rightarrow> ('g, 'e) trap_sys \<Rightarrow> ('g, 'e) trap_sys option" where
  "io_trap_writel tc addr v priv s = do {t \<leftarrow> trap_at priv s; tc (trap_func t) 4 addr 1 (ucast v) (trap_priv t) s}"

text \<open>The function pointers of a machine with traps; \<open>cb\<close> are those of the devices.\<close>

definition trap_callbacks :: "('g, 'e) trap_call \<Rightarrow> ('g io_fn, ('g, 'e) io_traps) io_callbacks \<Rightarrow> ('g io_fn, ('g, 'e) io_traps) io_callbacks" where
  "trap_callbacks tc cb = cb\<lparr>
     on_inb := (\<lambda>f addr p s. if f = Trap_readb then io_trap_readb tc addr p s else on_inb cb f addr p s),
     on_inw := (\<lambda>f addr p s. if f = Trap_readw then io_trap_readw tc addr p s else on_inw cb f addr p s),
     on_inl := (\<lambda>f addr p s. if f = Trap_readl then io_trap_readl tc addr p s else on_inl cb f addr p s),
     on_outb := (\<lambda>f addr v p s. if f = Trap_writeb then io_trap_writeb tc addr v p s else on_outb cb f addr v p s),
     on_outw := (\<lambda>f addr v p s. if f = Trap_writew then io_trap_writew tc addr v p s else on_outw cb f addr v p s),
     on_outl := (\<lambda>f addr v p s. if f = Trap_writel then io_trap_writel tc addr v p s else on_outl cb f addr v p s)\<rparr>"

definition trap_fns :: "ptr \<Rightarrow> 'g io_fn io_fns" where
  "trap_fns p = \<lparr>fn_inb = Some Trap_readb, fn_inw = Some Trap_readw, fn_inl = Some Trap_readl,
     fn_outb = Some Trap_writeb, fn_outw = Some Trap_writew, fn_outl = Some Trap_writel, fn_priv = p\<rparr>"

definition io_trap_add :: "'g \<Rightarrow> ptr \<Rightarrow> ('g, 'e) trap_sys \<Rightarrow> ptr \<times> ('g, 'e) trap_sys" where
  "io_trap_add f priv s = (let p = new_trap (io_devs (io_rest s)) in
     (p, put_trap p (Some \<lparr>trap_enable = 0, trap_base = 0, trap_size = 0, trap_func = f, trap_priv = priv\<rparr>)
       (mod_env (\<lambda>e. e\<lparr>io_devs := (io_devs e)\<lparr>new_trap := Suc p\<rparr>\<rparr>) s)))"

definition io_trap_remap :: "ptr \<Rightarrow> bool \<Rightarrow> u16 \<Rightarrow> u16 \<Rightarrow> ('g, 'e) trap_sys \<Rightarrow> ('g, 'e) trap_sys option" where
  "io_trap_remap p enable addr sz s = (if p = NULL then Some s else do {
     t \<leftarrow> trap_at p s;
     s \<leftarrow> (if trap_enable t \<noteq> 0 \<and> trap_size t \<noteq> 0
       then io_removehandler (trap_base t) (unat (trap_size t)) (trap_fns p) s else Some s);
     let t = t\<lparr>trap_enable := (if enable then 1 else 0), trap_base := addr, trap_size := sz\<rparr>;
     let s = put_trap p (Some t) s;
     if trap_enable t \<noteq> 0 \<and> trap_size t \<noteq> 0
       then io_sethandler (trap_base t) (unat (trap_size t)) (trap_fns p) s else Some s})"

definition io_trap_remove :: "ptr \<Rightarrow> ('g, 'e) trap_sys \<Rightarrow> ('g, 'e) trap_sys option" where
  "io_trap_remove p s = (if p = NULL then Some s else do {
     s \<leftarrow> io_trap_remap p False 0 0 s; Some (put_trap p None s)})"

end
