(* ===== verification/Io_Spec.thy ===== *)
theory Io_Spec
  imports Io Chains
begin

text \<open>
  The I/O ports refine a table of lists of handlers, for handlers that leave the lists alone. Which
  handlers an access calls, in which order, and what a read returns.
\<close>

section \<open>The table of lists\<close>

record ('f, 'd) io_table =
  tab_ports :: "nat \<Rightarrow> 'f io_fns list"
  tab_env :: "'d io_env"

text \<open>Devices: functions on the environment of the lists.\<close>

record ('f, 'd) io_devices =
  dev_inb :: "'f \<Rightarrow> u16 \<Rightarrow> ptr \<Rightarrow> 'd io_env \<Rightarrow> (u8 \<times> 'd io_env) option"
  dev_inw :: "'f \<Rightarrow> u16 \<Rightarrow> ptr \<Rightarrow> 'd io_env \<Rightarrow> (u16 \<times> 'd io_env) option"
  dev_inl :: "'f \<Rightarrow> u16 \<Rightarrow> ptr \<Rightarrow> 'd io_env \<Rightarrow> (u32 \<times> 'd io_env) option"
  dev_outb :: "'f \<Rightarrow> u16 \<Rightarrow> u8 \<Rightarrow> ptr \<Rightarrow> 'd io_env \<Rightarrow> 'd io_env option"
  dev_outw :: "'f \<Rightarrow> u16 \<Rightarrow> u16 \<Rightarrow> ptr \<Rightarrow> 'd io_env \<Rightarrow> 'd io_env option"
  dev_outl :: "'f \<Rightarrow> u16 \<Rightarrow> u32 \<Rightarrow> ptr \<Rightarrow> 'd io_env \<Rightarrow> 'd io_env option"
  dev_pci_read :: "u16 \<Rightarrow> 'd io_env \<Rightarrow> (u8 \<times> 'd io_env) option"
  dev_pci_readw :: "u16 \<Rightarrow> 'd io_env \<Rightarrow> (u16 \<times> 'd io_env) option"
  dev_pci_readl :: "u16 \<Rightarrow> 'd io_env \<Rightarrow> (u32 \<times> 'd io_env) option"
  dev_pci_write :: "u16 \<Rightarrow> u8 \<Rightarrow> 'd io_env \<Rightarrow> 'd io_env option"
  dev_pci_writew :: "u16 \<Rightarrow> u16 \<Rightarrow> 'd io_env \<Rightarrow> 'd io_env option"
  dev_pci_writel :: "u16 \<Rightarrow> u32 \<Rightarrow> 'd io_env \<Rightarrow> 'd io_env option"
  dev_update_tsc :: "'d io_env \<Rightarrow> 'd io_env option"

definition put_env :: "('f, 'd) io_sys \<Rightarrow> 'd io_env \<Rightarrow> ('f, 'd) io_sys" where "put_env s e = s\<lparr>io_rest := e\<rparr>"

definition lift_in :: "('d io_env \<Rightarrow> ('w \<times> 'd io_env) option) \<Rightarrow> ('f, 'd) io_sys \<Rightarrow> ('w \<times> ('f, 'd) io_sys) option" where
  "lift_in g s = map_option (\<lambda>(v, e). (v, put_env s e)) (g (io_rest s))"

definition lift_out :: "('d io_env \<Rightarrow> 'd io_env option) \<Rightarrow> ('f, 'd) io_sys \<Rightarrow> ('f, 'd) io_sys option" where
  "lift_out g s = map_option (put_env s) (g (io_rest s))"

definition lift_devices :: "('f, 'd) io_devices \<Rightarrow> ('f, 'd) io_callbacks" where
  "lift_devices dv = \<lparr>on_inb = (\<lambda>f a p. lift_in (dev_inb dv f a p)), on_inw = (\<lambda>f a p. lift_in (dev_inw dv f a p)),
     on_inl = (\<lambda>f a p. lift_in (dev_inl dv f a p)), on_outb = (\<lambda>f a v p. lift_out (dev_outb dv f a v p)),
     on_outw = (\<lambda>f a v p. lift_out (dev_outw dv f a v p)), on_outl = (\<lambda>f a v p. lift_out (dev_outl dv f a v p)),
     on_pci_read = (\<lambda>a. lift_in (dev_pci_read dv a)), on_pci_readw = (\<lambda>a. lift_in (dev_pci_readw dv a)),
     on_pci_readl = (\<lambda>a. lift_in (dev_pci_readl dv a)), on_pci_write = (\<lambda>a v. lift_out (dev_pci_write dv a v)),
     on_pci_writew = (\<lambda>a v. lift_out (dev_pci_writew dv a v)), on_pci_writel = (\<lambda>a v. lift_out (dev_pci_writel dv a v)),
     on_update_tsc = lift_out (dev_update_tsc dv)\<rparr>"

text \<open>
  The calls of an access, each with the byte offset of its part: every handler is called by its widest
  function that fits, the wider ones first.
\<close>

datatype 'f port_call = Byte_call 'f | Word_call 'f | Long_call 'f

definition calls_of :: "('f \<Rightarrow> 'f port_call) \<Rightarrow> ('f io_fns \<Rightarrow> 'f option) \<Rightarrow> nat \<Rightarrow> 'f io_fns list \<Rightarrow> ('f port_call \<times> nat \<times> ptr) list" where
  "calls_of kind sel i hs = List.map_filter (\<lambda>h. map_option (\<lambda>f. (kind f, i, fn_priv h)) (sel h)) hs"

definition part_calls :: "('f \<Rightarrow> 'f port_call) \<Rightarrow> ('f io_fns \<Rightarrow> 'f option) \<Rightarrow> u16 \<Rightarrow> nat list \<Rightarrow> (nat \<Rightarrow> 'f io_fns list)
    \<Rightarrow> ('f port_call \<times> nat \<times> ptr) list" where
  "part_calls kind sel port is T = concat (map (\<lambda>i. calls_of kind sel i (T (unat (port + of_nat i)))) is)"

definition calls_inb :: "u16 \<Rightarrow> (nat \<Rightarrow> 'f io_fns list) \<Rightarrow> ('f port_call \<times> nat \<times> ptr) list" where
  "calls_inb port T = part_calls Byte_call fn_inb port [0] T"
definition calls_inw :: "u16 \<Rightarrow> (nat \<Rightarrow> 'f io_fns list) \<Rightarrow> ('f port_call \<times> nat \<times> ptr) list" where
  "calls_inw port T = part_calls Word_call fn_inw port [0] T @ part_calls Byte_call byte_in2 port [0, 1] T"
definition calls_inl :: "u16 \<Rightarrow> (nat \<Rightarrow> 'f io_fns list) \<Rightarrow> ('f port_call \<times> nat \<times> ptr) list" where
  "calls_inl port T = part_calls Long_call fn_inl port [0] T @ part_calls Word_call word_in4 port [0, 2] T
     @ part_calls Byte_call byte_in4 port [0, 1, 2, 3] T"
definition calls_outb :: "u16 \<Rightarrow> (nat \<Rightarrow> 'f io_fns list) \<Rightarrow> ('f port_call \<times> nat \<times> ptr) list" where
  "calls_outb port T = part_calls Byte_call fn_outb port [0] T"
definition calls_outw :: "u16 \<Rightarrow> (nat \<Rightarrow> 'f io_fns list) \<Rightarrow> ('f port_call \<times> nat \<times> ptr) list" where
  "calls_outw port T = part_calls Word_call fn_outw port [0] T @ part_calls Byte_call byte_out2 port [0, 1] T"
definition calls_outl :: "u16 \<Rightarrow> (nat \<Rightarrow> 'f io_fns list) \<Rightarrow> ('f port_call \<times> nat \<times> ptr) list" where
  "calls_outl port T = part_calls Long_call fn_outl port [0] T @ part_calls Word_call word_out4 port [0, 2] T
     @ part_calls Byte_call byte_out4 port [0, 1, 2, 3] T"

text \<open>A result \<open>v\<close> of \<open>w\<close> bits at byte \<open>i\<close> is anded into the bits it covers.\<close>

definition and_part :: "nat \<Rightarrow> nat \<Rightarrow> 'v::len word \<Rightarrow> 'w::len word \<Rightarrow> 'w word" where
  "and_part w i v r = r AND (NOT (push_bit (8 * i) (mask w)) OR push_bit (8 * i) (ucast v))"

fun run_in :: "('f, 'd) io_devices \<Rightarrow> u16 \<Rightarrow> ('f port_call \<times> nat \<times> ptr) list \<Rightarrow> 'w::len word \<Rightarrow> 'd io_env \<Rightarrow> ('w word \<times> 'd io_env) option" where
  "run_in dv port [] r e = Some (r, e)"
| "run_in dv port ((c, i, p) # cs) r e = do {
     (r, e) \<leftarrow> (case c of
         Byte_call f \<Rightarrow> do {(v, e) \<leftarrow> dev_inb dv f (port + of_nat i) p e; Some (and_part 8 i v r, e)}
       | Word_call f \<Rightarrow> do {(v, e) \<leftarrow> dev_inw dv f (port + of_nat i) p e; Some (and_part 16 i v r, e)}
       | Long_call f \<Rightarrow> do {(v, e) \<leftarrow> dev_inl dv f (port + of_nat i) p e; Some (and_part 32 i v r, e)});
     run_in dv port cs r e}"

fun run_out :: "('f, 'd) io_devices \<Rightarrow> u16 \<Rightarrow> 'w::len word \<Rightarrow> ('f port_call \<times> nat \<times> ptr) list \<Rightarrow> 'd io_env \<Rightarrow> 'd io_env option" where
  "run_out dv port v [] e = Some e"
| "run_out dv port v ((c, i, p) # cs) e = do {
     e \<leftarrow> (case c of
         Byte_call f \<Rightarrow> dev_outb dv f (port + of_nat i) (byte_at i v) p e
       | Word_call f \<Rightarrow> dev_outw dv f (port + of_nat i) (word16 i v) p e
       | Long_call f \<Rightarrow> dev_outl dv f (port + of_nat i) (ucast (drop_bit (8 * i) v)) p e);
     run_out dv port v cs e}"

section \<open>Walks over lists\<close>

fun call_in :: "('f io_fns \<Rightarrow> 'f option) \<Rightarrow> ('f \<Rightarrow> ptr \<Rightarrow> 'e \<Rightarrow> ('w::len word \<times> 'e) option) \<Rightarrow> 'f io_fns list \<Rightarrow> 'w word \<Rightarrow> bool \<Rightarrow> 'e
    \<Rightarrow> ('w word \<times> bool \<times> 'e) option" where
  "call_in sel call [] ret found e = Some (ret, found, e)"
| "call_in sel call (h # hs) ret found e = (case sel h of None \<Rightarrow> call_in sel call hs ret found e
     | Some f \<Rightarrow> do {(v, e) \<leftarrow> call f (fn_priv h) e; call_in sel call hs (ret AND v) True e})"

fun call_out :: "('f io_fns \<Rightarrow> 'f option) \<Rightarrow> ('f \<Rightarrow> ptr \<Rightarrow> 'e \<Rightarrow> 'e option) \<Rightarrow> 'f io_fns list \<Rightarrow> bool \<Rightarrow> 'e \<Rightarrow> (bool \<times> 'e) option" where
  "call_out sel call [] found e = Some (found, e)"
| "call_out sel call (h # hs) found e = (case sel h of None \<Rightarrow> call_out sel call hs found e
     | Some f \<Rightarrow> do {e \<leftarrow> call f (fn_priv h) e; call_out sel call hs True e})"

lemma bit_and_part:
  fixes v :: "'v::len word" and r :: "'w::len word"
  assumes "w = LENGTH('v)"
  shows "bit (and_part w i v r) n \<longleftrightarrow> bit r n \<and> (8 * i \<le> n \<and> n < 8 * i + w \<longrightarrow> bit v (n - 8 * i))"
  using assms bit_imp_le_length [of r n]
  by (auto simp: and_part_def bit_and_iff bit_or_iff bit_not_iff bit_push_bit_iff bit_mask_iff bit_unsigned_iff)

lemma bit_byte_at: "bit (byte_at i r) n \<longleftrightarrow> n < 8 \<and> bit r (8 * i + n)"
  by (auto simp: byte_at_def bit_unsigned_iff bit_drop_bit_eq)

lemma bit_word16: "bit (word16 i r) n \<longleftrightarrow> n < 16 \<and> bit r (8 * i + n)"
  by (auto simp: word16_def bit_unsigned_iff bit_drop_bit_eq)

lemma byte_and_part: "byte_at i (and_part 8 i (v :: u8) r) = byte_at i r AND v"
  by (rule word_eq_by_bits) (auto simp: bit_byte_at bit_and_part bit_and_iff)

lemma word16_and_part: "word16 i (and_part 16 i (v :: u16) r) = word16 i r AND v"
  by (rule word_eq_by_bits) (auto simp: bit_word16 bit_and_part bit_and_iff)

lemma full_and_part: "and_part LENGTH('w) 0 v r = r AND (v :: 'w::len word)"
  by (rule word_eq_by_bits) (auto simp: bit_and_part bit_and_iff)

lemma byte_and_part_other: "i \<noteq> j \<Longrightarrow> byte_at j (and_part 8 i (v :: u8) r) = byte_at j r"
  by (rule word_eq_by_bits) (auto simp: bit_byte_at bit_and_part)

lemma word16_and_part_other: "j + 2 \<le> i \<or> i + 2 \<le> j \<Longrightarrow> word16 j (and_part 16 i (v :: u16) r) = word16 j r"
  by (rule word_eq_by_bits) (auto simp: bit_word16 bit_and_part)

lemma calls_of_simps [simp]:
  "calls_of kind sel i [] = []"
  "calls_of kind sel i (h # hs) = (case sel h of None \<Rightarrow> [] | Some f \<Rightarrow> [(kind f, i, fn_priv h)]) @ calls_of kind sel i hs"
  by (auto simp: calls_of_def List.map_filter_simps split: option.split)

lemma run_in_append: "run_in dv port (xs @ ys) r e = do {(r, e) \<leftarrow> run_in dv port xs r e; run_in dv port ys r e}"
  by (induction dv port xs r e rule: run_in.induct) (auto split: bind_splits)

lemma run_out_append: "run_out dv port v (xs @ ys) e = do {e \<leftarrow> run_out dv port v xs e; run_out dv port v ys e}"
  by (induction dv port v xs e rule: run_out.induct) (auto split: bind_splits)

text \<open>One walk is the calls of its part.\<close>

lemma call_in_byte:
  "call_in sel (\<lambda>f. dev_inb dv f (port + of_nat i)) hs (byte_at i r) found e
     = map_option (\<lambda>(r', e'). (byte_at i r', found \<or> calls_of Byte_call sel i hs \<noteq> [], e')) (run_in dv port (calls_of Byte_call sel i hs) r e)"
  by (induction hs arbitrary: r found e)
    (auto simp: byte_and_part [symmetric] map_option_case split: option.split bind_splits)

lemma call_in_word:
  "call_in sel (\<lambda>f. dev_inw dv f (port + of_nat i)) hs (word16 i r) found e
     = map_option (\<lambda>(r', e'). (word16 i r', found \<or> calls_of Word_call sel i hs \<noteq> [], e')) (run_in dv port (calls_of Word_call sel i hs) r e)"
  by (induction hs arbitrary: r found e)
    (auto simp: word16_and_part [symmetric] map_option_case split: option.split bind_splits)

lemma call_in_full:
  "call_in sel (\<lambda>f. dev_inb dv f port) hs (r :: u8) found e
     = map_option (\<lambda>(r', e'). (r', found \<or> calls_of Byte_call sel 0 hs \<noteq> [], e')) (run_in dv port (calls_of Byte_call sel 0 hs) r e)"
  "call_in sel (\<lambda>f. dev_inw dv f port) hs (r' :: u16) found e
     = map_option (\<lambda>(r', e'). (r', found \<or> calls_of Word_call sel 0 hs \<noteq> [], e')) (run_in dv port (calls_of Word_call sel 0 hs) r' e)"
  "call_in sel (\<lambda>f. dev_inl dv f port) hs (r'' :: u32) found e
     = map_option (\<lambda>(r', e'). (r', found \<or> calls_of Long_call sel 0 hs \<noteq> [], e')) (run_in dv port (calls_of Long_call sel 0 hs) r'' e)"
  using full_and_part [where 'w = 8] full_and_part [where 'w = 16] full_and_part [where 'w = 32]
  by (induction hs arbitrary: r r' r'' found e) (auto simp: map_option_case split: option.split bind_splits)

lemma call_out_runs:
  "call_out sel (\<lambda>f. dev_outb dv f (port + of_nat i) (byte_at i v)) hs found e
     = map_option (\<lambda>e'. (found \<or> calls_of Byte_call sel i hs \<noteq> [], e')) (run_out dv port v (calls_of Byte_call sel i hs) e)"
  "call_out sel (\<lambda>f. dev_outw dv f (port + of_nat i) (word16 i v)) hs found e
     = map_option (\<lambda>e'. (found \<or> calls_of Word_call sel i hs \<noteq> [], e')) (run_out dv port v (calls_of Word_call sel i hs) e)"
  "call_out sel (\<lambda>f. dev_outl dv f (port + of_nat i) (ucast (drop_bit (8 * i) v))) hs found e
     = map_option (\<lambda>e'. (found \<or> calls_of Long_call sel i hs \<noteq> [], e')) (run_out dv port v (calls_of Long_call sel i hs) e)"
  by (induction hs arbitrary: found e) (auto simp: map_option_case split: option.split bind_splits)

lemma part_calls_simps [simp]:
  "part_calls kind sel port [] T = []"
  "part_calls kind sel port (i # is) T = calls_of kind sel i (T (unat (port + of_nat i))) @ part_calls kind sel port is T"
  by (simp_all add: part_calls_def)

lemma run_in_calls_other:
  "run_in dv port (calls_of Byte_call sel i hs) r e = Some (r', e') \<Longrightarrow> i \<noteq> j \<Longrightarrow> byte_at j r' = byte_at j r"
  "run_in dv port (calls_of Word_call sel i hs) r e = Some (r', e') \<Longrightarrow> j + 2 \<le> i \<or> i + 2 \<le> j \<Longrightarrow> word16 j r' = word16 j r"
  by (induction hs arbitrary: r e) (auto simp: bind_eq_Some_conv byte_and_part_other word16_and_part_other split: option.splits)

lemma run_in_part_other:
  "run_in dv port (part_calls Byte_call sel port is T) r e = Some (r', e') \<Longrightarrow> j \<notin> set is \<Longrightarrow> byte_at j r' = byte_at j r"
  "run_in dv port (part_calls Word_call sel port is T) r e = Some (r', e') \<Longrightarrow> \<forall>i \<in> set is. j + 2 \<le> i \<or> i + 2 \<le> j \<Longrightarrow> word16 j r' = word16 j r"
proof (induction "is" arbitrary: r e)
  case (Cons i "is")
  {
    case 1
    then obtain r1 e1 where "run_in dv port (calls_of Byte_call sel i (T (unat (port + of_nat i)))) r e = Some (r1, e1)"
        "run_in dv port (part_calls Byte_call sel port is T) r1 e1 = Some (r', e')" by (auto simp: run_in_append bind_eq_Some_conv)
    then show ?case using run_in_calls_other(1) [of dv port sel i _ r e r1 e1 j] Cons.IH(1) 1(2) by fastforce
  next
    case 2
    then obtain r1 e1 where "run_in dv port (calls_of Word_call sel i (T (unat (port + of_nat i)))) r e = Some (r1, e1)"
        "run_in dv port (part_calls Word_call sel port is T) r1 e1 = Some (r', e')" by (auto simp: run_in_append bind_eq_Some_conv)
    then show ?case using run_in_calls_other(2) [of dv port sel i _ r e r1 e1 j] Cons.IH(2) 2(2) by fastforce
  }
qed simp_all

section \<open>Representation\<close>

definition hview :: "('f, 'd) io_sys \<Rightarrow> ptr \<Rightarrow> 'f io_fns" where
  "hview s x = io_fns_of (the (handlers s x))"

definition io_chains :: "(nat \<Rightarrow> ptr list) \<Rightarrow> ('f, 'd) io_sys \<Rightarrow> bool" where
  "io_chains L s \<longleftrightarrow> chains io_next io_prev (handlers s) (new_handler s) (io_ports s) (io_last s) L
     \<and> (\<forall>a. NPORTS \<le> a \<longrightarrow> L a = [])"

abbreviation ports_of :: "(nat \<Rightarrow> ptr list) \<Rightarrow> ('f, 'd) io_sys \<Rightarrow> nat \<Rightarrow> 'f io_fns list" where
  "ports_of L s \<equiv> \<lambda>a. map (hview s) (L a)"

definition io_tables :: "(nat \<Rightarrow> ptr list) \<Rightarrow> ('f, 'd) io_sys \<Rightarrow> ('f, 'd) io_table" where
  "io_tables L s = \<lparr>tab_ports = ports_of L s, tab_env = io_rest s\<rparr>"

definition io_represents :: "('f, 'd) io_sys \<Rightarrow> ('f, 'd) io_table \<Rightarrow> bool" where
  "io_represents s t \<longleftrightarrow> (\<exists>L. io_chains L s \<and> t = io_tables L s)"

lemma hview_fns: "handlers s x = Some n \<Longrightarrow> io_fns_of n = hview s x" "handlers s x = Some n \<Longrightarrow> fn_priv n = fn_priv (hview s x)"
  by (simp_all add: hview_def io_fns.defs)

lemma hview_env [simp]: "hview (put_env s e) = hview s"
  by (simp add: hview_def put_env_def fun_eq_iff)

lemma put_env_simps [simp]: "handlers (put_env s e) = handlers s" "io_rest (put_env s e) = e"
    "put_env (put_env s e) e' = put_env s e'" "put_env s (io_rest s) = s" "io_ports (put_env s e) = io_ports s"
    "io_chains L (put_env s e) = io_chains L s" "mod_env g s = put_env s (g (io_rest s))"
  by (simp_all add: put_env_def io_chains_def mod_env_def)

lemma put_env_twice [simp]: "put_env (put_env s e) = put_env s"
  by (rule ext) simp

lemma io_represents_env: "io_represents s t \<Longrightarrow> io_represents (put_env s e) (t\<lparr>tab_env := e\<rparr>)"
  by (auto simp: io_represents_def io_tables_def)

section \<open>Walks over handlers\<close>

lemma in_walk_list:
  assumes "segment io_next io_prev (handlers s) p pr NULL l xs"
    and call: "\<And>f q s. call f q s = lift_in (dcall f q) s"
  shows "in_walk sel call p ret found s = map_option (\<lambda>(r, fnd, e). (r, fnd, put_env s e))
     (call_in sel dcall (map (hview s) xs) ret found (io_rest s))"
  using assms(1)
proof (induction xs arbitrary: p pr ret found s)
  case (Cons x xs)
  then obtain n where n: "handlers s x = Some n" "p = x" "x \<noteq> NULL" "segment io_next io_prev (handlers s) (io_next n) x NULL l xs" by auto
  have IH: "in_walk sel call (io_next n) r b (put_env s e) = map_option (\<lambda>(r, fnd, e). (r, fnd, put_env s e))
      (call_in sel dcall (map (hview s) xs) r b e)" for r b e
    using Cons.IH [of "put_env s e" "io_next n" x r b] n(4) by simp
  show ?case
    using n(1-3) IH [of _ _ "io_rest s"] by (subst in_walk.simps)
      (auto simp: IH hview_fns [OF n(1)] call lift_in_def map_option_case split: option.split bind_splits)
qed (simp add: in_walk.simps)

lemma out_walk_list:
  assumes "segment io_next io_prev (handlers s) p pr NULL l xs"
    and call: "\<And>f q s. call f q s = lift_out (dcall f q) s"
  shows "out_walk sel call p found s = map_option (\<lambda>(fnd, e). (fnd, put_env s e))
     (call_out sel dcall (map (hview s) xs) found (io_rest s))"
  using assms(1)
proof (induction xs arbitrary: p pr found s)
  case (Cons x xs)
  then obtain n where n: "handlers s x = Some n" "p = x" "x \<noteq> NULL" "segment io_next io_prev (handlers s) (io_next n) x NULL l xs" by auto
  have IH: "out_walk sel call (io_next n) b (put_env s e) = map_option (\<lambda>(fnd, e). (fnd, put_env s e))
      (call_out sel dcall (map (hview s) xs) b e)" for b e
    using Cons.IH [of "put_env s e" "io_next n" x b] n(4) by simp
  show ?case
    using n(1-3) IH [of _ "io_rest s"] by (subst out_walk.simps)
      (auto simp: IH hview_fns [OF n(1)] call lift_out_def map_option_case split: option.split bind_splits)
qed (simp add: out_walk.simps)

lemma walks:
  assumes "io_chains L s"
  shows "(\<And>f q s. call f q s = lift_in (dcall f q) s) \<Longrightarrow> in_walk sel call (first_at a s) r found s
      = map_option (\<lambda>(r, fnd, e). (r, fnd, put_env s e)) (call_in sel dcall (ports_of L s (unat a)) r found (io_rest s))"
    "(\<And>f q s. call' f q s = lift_out (dcall' f q) s) \<Longrightarrow> out_walk sel call' (first_at a s) found s
      = map_option (\<lambda>(fnd, e). (fnd, put_env s e)) (call_out sel dcall' (ports_of L s (unat a)) found (io_rest s))"
  by (rule in_walk_list [OF chainsD(1) [OF conjunct1 [OF assms [unfolded io_chains_def]]]], blast)
    (rule out_walk_list [OF chainsD(1) [OF conjunct1 [OF assms [unfolded io_chains_def]]]], blast)

lemma lift_devices_simps [simp]:
  "on_inb (lift_devices dv) f a p s = lift_in (dev_inb dv f a p) s" "on_inw (lift_devices dv) f a p s = lift_in (dev_inw dv f a p) s"
  "on_inl (lift_devices dv) f a p s = lift_in (dev_inl dv f a p) s" "on_outb (lift_devices dv) f a v p s = lift_out (dev_outb dv f a v p) s"
  "on_outw (lift_devices dv) f a w p s = lift_out (dev_outw dv f a w p) s" "on_outl (lift_devices dv) f a l p s = lift_out (dev_outl dv f a l p) s"
  "on_pci_read (lift_devices dv) a s = lift_in (dev_pci_read dv a) s" "on_pci_readw (lift_devices dv) a s = lift_in (dev_pci_readw dv a) s"
  "on_pci_readl (lift_devices dv) a s = lift_in (dev_pci_readl dv a) s" "on_pci_write (lift_devices dv) a v s = lift_out (dev_pci_write dv a v) s"
  "on_pci_writew (lift_devices dv) a w s = lift_out (dev_pci_writew dv a w) s" "on_pci_writel (lift_devices dv) a l s = lift_out (dev_pci_writel dv a l) s"
  "on_update_tsc (lift_devices dv) s = lift_out (dev_update_tsc dv) s"
  by (simp_all add: lift_devices_def)

lemma part_walk:
  assumes "io_chains L s"
  shows "in_walk sel (\<lambda>f. on_inb (lift_devices dv) f (port + of_nat i)) (first_at (port + of_nat i) s) (byte_at i r) found s
      = map_option (\<lambda>(r', e'). (byte_at i r', found \<or> calls_of Byte_call sel i (ports_of L s (unat (port + of_nat i))) \<noteq> [], put_env s e'))
          (run_in dv port (calls_of Byte_call sel i (ports_of L s (unat (port + of_nat i)))) r (io_rest s))"
    "in_walk sel (\<lambda>f. on_inw (lift_devices dv) f (port + of_nat i)) (first_at (port + of_nat i) s) (word16 i r) found s
      = map_option (\<lambda>(r', e'). (word16 i r', found \<or> calls_of Word_call sel i (ports_of L s (unat (port + of_nat i))) \<noteq> [], put_env s e'))
          (run_in dv port (calls_of Word_call sel i (ports_of L s (unat (port + of_nat i)))) r (io_rest s))"
    "out_walk sel (\<lambda>f. on_outb (lift_devices dv) f (port + of_nat i) (byte_at i v)) (first_at (port + of_nat i) s) found s
      = map_option (\<lambda>e'. (found \<or> calls_of Byte_call sel i (ports_of L s (unat (port + of_nat i))) \<noteq> [], put_env s e'))
          (run_out dv port v (calls_of Byte_call sel i (ports_of L s (unat (port + of_nat i)))) (io_rest s))"
    "out_walk sel (\<lambda>f. on_outw (lift_devices dv) f (port + of_nat i) (word16 i v)) (first_at (port + of_nat i) s) found s
      = map_option (\<lambda>e'. (found \<or> calls_of Word_call sel i (ports_of L s (unat (port + of_nat i))) \<noteq> [], put_env s e'))
          (run_out dv port v (calls_of Word_call sel i (ports_of L s (unat (port + of_nat i)))) (io_rest s))"
     apply (subst walks(1) [OF assms, where dcall = "\<lambda>f. dev_inb dv f (port + of_nat i)"];
      simp add: call_in_byte option.map_comp comp_def case_prod_unfold)
    apply (subst walks(1) [OF assms, where dcall = "\<lambda>f. dev_inw dv f (port + of_nat i)"];
      simp add: call_in_word option.map_comp comp_def case_prod_unfold)
   apply (subst walks(2) [OF assms, where dcall' = "\<lambda>f. dev_outb dv f (port + of_nat i) (byte_at i v)"];
      simp add: call_out_runs option.map_comp comp_def case_prod_unfold)
  apply (subst walks(2) [OF assms, where dcall' = "\<lambda>f. dev_outw dv f (port + of_nat i) (word16 i v)"];
      simp add: call_out_runs option.map_comp comp_def case_prod_unfold)
  done

lemma in_bytes_runs:
  assumes "io_chains L s" and "distinct is"
  shows "in_bytes (lift_devices dv) sel (map (\<lambda>i. (port + of_nat i, byte_at i r)) is) found s
     = map_option (\<lambda>(r', e'). (map (\<lambda>i. byte_at i r') is, found \<or> part_calls Byte_call sel port is (ports_of L s) \<noteq> [], put_env s e'))
         (run_in dv port (part_calls Byte_call sel port is (ports_of L s)) r (io_rest s))"
  using assms
proof (induction "is" arbitrary: s r found)
  case (Cons i "is")
  let ?cs = "calls_of Byte_call sel i (ports_of L s (unat (port + of_nat i)))"
  note w = part_walk(1) [OF Cons.prems(1), of sel dv port i r found]
  show ?case
  proof (cases "run_in dv port ?cs r (io_rest s)")
    case None
    then show ?thesis using w by (simp add: run_in_append)
  next
    case (Some re)
    obtain r1 e1 where re: "re = (r1, e1)" by (cases re)
    have "byte_at j r1 = byte_at j r" if "j \<in> set is" for j
      using run_in_calls_other(1) Some re that Cons.prems(2) by fastforce
    then have m: "map (\<lambda>i. (port + of_nat i, byte_at i r)) is = map (\<lambda>i. (port + of_nat i, byte_at i r1)) is" by simp
    have "byte_at i r2 = byte_at i r1" if "run_in dv port (part_calls Byte_call sel port is (ports_of L s)) r1 e1 = Some (r2, e2)" for r2 e2
      using run_in_part_other(1) [OF that, of i] Cons.prems(2) by simp
    then show ?thesis using w Cons.IH [of "put_env s e1" r1 "found \<or> ?cs \<noteq> []"] Cons.prems Some re
      by (auto simp: m run_in_append map_option_case split: option.split)
  qed
qed simp

lemma out_runs:
  assumes "io_chains L s"
  shows "out_bytes (lift_devices dv) sel (map (\<lambda>i. (port + of_nat i, byte_at i v)) is) found s
     = map_option (\<lambda>e'. (found \<or> part_calls Byte_call sel port is (ports_of L s) \<noteq> [], put_env s e'))
         (run_out dv port v (part_calls Byte_call sel port is (ports_of L s)) (io_rest s))"
    "out_words (lift_devices dv) sel (map (\<lambda>i. (port + of_nat i, word16 i v)) is) found s
     = map_option (\<lambda>e'. (found \<or> part_calls Word_call sel port is (ports_of L s) \<noteq> [], put_env s e'))
         (run_out dv port v (part_calls Word_call sel port is (ports_of L s)) (io_rest s))"
  using assms
proof (induction "is" arbitrary: s found)
  case (Cons i "is")
  {
    case 1
    then show ?case using part_walk(3) [OF 1, of sel dv port i v found] Cons.IH(1)
      by (auto simp: run_out_append map_option_case split: option.split bind_splits)
  next
    case 2
    then show ?case using part_walk(4) [OF 2, of sel dv port i v found] Cons.IH(2)
      by (auto simp: run_out_append map_option_case split: option.split bind_splits)
  }
qed simp_all

lemma in_words_runs:
  assumes "io_chains L s" and "sorted_wrt (\<lambda>i j. i + 2 \<le> j) is"
  shows "in_words (lift_devices dv) sel (map (\<lambda>i. (port + of_nat i, word16 i r)) is) found s
     = map_option (\<lambda>(r', e'). (map (\<lambda>i. word16 i r') is, found \<or> part_calls Word_call sel port is (ports_of L s) \<noteq> [], put_env s e'))
         (run_in dv port (part_calls Word_call sel port is (ports_of L s)) r (io_rest s))"
  using assms
proof (induction "is" arbitrary: s r found)
  case (Cons i "is")
  let ?cs = "calls_of Word_call sel i (ports_of L s (unat (port + of_nat i)))"
  note w = part_walk(2) [OF Cons.prems(1), of sel dv port i r found]
  show ?case
  proof (cases "run_in dv port ?cs r (io_rest s)")
    case None
    then show ?thesis using w by (simp add: run_in_append)
  next
    case (Some re)
    obtain r1 e1 where re: "re = (r1, e1)" by (cases re)
    have "word16 j r1 = word16 j r" if "j \<in> set is" for j
      using run_in_calls_other(2) Some re that Cons.prems(2) by fastforce
    then have m: "map (\<lambda>i. (port + of_nat i, word16 i r)) is = map (\<lambda>i. (port + of_nat i, word16 i r1)) is" by simp
    have "word16 i r2 = word16 i r1" if "run_in dv port (part_calls Word_call sel port is (ports_of L s)) r1 e1 = Some (r2, e2)" for r2 e2
      using run_in_part_other(2) [OF that, of i] Cons.prems(2) by simp
    then show ?thesis using w Cons.IH [of "put_env s e1" r1 "found \<or> ?cs \<noteq> []"] Cons.prems Some re
      by (auto simp: m run_in_append map_option_case split: option.split)
  qed
qed simp

section \<open>Accesses\<close>

type_synonym ('f, 'w, 'd) port_reader = "u16 \<Rightarrow> 'd io_env \<Rightarrow> ('w word \<times> 'd io_env) option"

definition tab_in :: "(u16 \<Rightarrow> 'd io_env \<Rightarrow> ('w::len word \<times> 'd io_env) option) \<Rightarrow> (u16 \<Rightarrow> (nat \<Rightarrow> 'f io_fns list) \<Rightarrow> ('f port_call \<times> nat \<times> ptr) list)
    \<Rightarrow> ('f, 'd) io_devices \<Rightarrow> u16 \<Rightarrow> ('f, 'd) io_table \<Rightarrow> ('w word \<times> ('f, 'd) io_table) option" where
  "tab_in pci calls dv port t = do {
     let e = (tab_env t)\<lparr>io_port := port\<rparr>; let cs = calls port (tab_ports t);
     (r, found, e) \<leftarrow> (if io_pci_window port e then do {(v, e) \<leftarrow> pci port e; Some (v, True, e)}
       else do {(r, e) \<leftarrow> run_in dv port cs (- 1) e; Some (r, cs \<noteq> [], e)});
     Some (r, t\<lparr>tab_env := io_miss found (io_amstrad port e)\<rparr>)}"

definition tab_out_done :: "('f, 'd) io_devices \<Rightarrow> u16 \<Rightarrow> bool \<Rightarrow> 'd io_env \<Rightarrow> 'd io_env option" where
  "tab_out_done dv port found e = (let e = io_miss found e in
     if \<not> found \<and> cpu_use_dynarec e \<and> (port = 0xeb \<or> port = 0xed) then dev_update_tsc dv e else Some e)"

definition tab_out :: "(u16 \<Rightarrow> 'w::len word \<Rightarrow> 'd io_env \<Rightarrow> 'd io_env option) \<Rightarrow> (u16 \<Rightarrow> (nat \<Rightarrow> 'f io_fns list) \<Rightarrow> ('f port_call \<times> nat \<times> ptr) list)
    \<Rightarrow> ('f, 'd) io_devices \<Rightarrow> u16 \<Rightarrow> 'w word \<Rightarrow> ('f, 'd) io_table \<Rightarrow> ('f, 'd) io_table option" where
  "tab_out pci calls dv port v t = do {
     let e = (tab_env t)\<lparr>io_port := port, io_val := ucast v\<rparr>; let cs = calls port (tab_ports t);
     (found, e) \<leftarrow> (if io_pci_window port e then do {e \<leftarrow> pci port v e; Some (True, e)}
       else do {e \<leftarrow> run_out dv port v cs e; Some (cs \<noteq> [], e)});
     e \<leftarrow> tab_out_done dv port found e;
     Some (t\<lparr>tab_env := e\<rparr>)}"

lemma joined:
  "push_bit 8 (ucast (byte_at 1 (r :: u16))) OR ucast (byte_at 0 r) = r"
  "push_bit 16 (ucast (word16 2 (l :: u32))) OR ucast (word16 0 l) = l"
  "push_bit 24 (ucast (byte_at 3 l)) OR push_bit 16 (ucast (byte_at 2 l)) OR push_bit 8 (ucast (byte_at 1 l)) OR ucast (byte_at 0 l) = l"
proof -
  show "push_bit 8 (ucast (byte_at 1 r)) OR ucast (byte_at 0 r) = r"
    by (rule word_eq_by_bits) (auto simp: bit_or_iff bit_push_bit_iff bit_unsigned_iff bit_byte_at)
  show "push_bit 16 (ucast (word16 2 l)) OR ucast (word16 0 l) = l"
    by (rule word_eq_by_bits) (auto simp: bit_or_iff bit_push_bit_iff bit_unsigned_iff bit_word16)
  show "push_bit 24 (ucast (byte_at 3 l)) OR push_bit 16 (ucast (byte_at 2 l)) OR push_bit 8 (ucast (byte_at 1 l)) OR ucast (byte_at 0 l) = l"
  proof (rule word_eq_by_bits)
    fix n assume "n < LENGTH(32)"
    then consider "n < 8" | "8 \<le> n" "n < 16" | "16 \<le> n" "n < 24" | "24 \<le> n" "n < 32" by fastforce
    then show "bit (push_bit 24 (ucast (byte_at 3 l) :: u32) OR push_bit 16 (ucast (byte_at 2 l)) OR push_bit 8 (ucast (byte_at 1 l)) OR ucast (byte_at 0 l)) n = bit l n"
      by cases (auto simp: bit_or_iff bit_push_bit_iff bit_unsigned_iff bit_byte_at)
  qed
qed

lemma io_tables_simps [simp]: "tab_ports (io_tables L s) = ports_of L s" "tab_env (io_tables L s) = io_rest s"
  by (simp_all add: io_tables_def)

lemma whole_walk:
  assumes "io_chains L s"
  shows "in_walk sel (\<lambda>f. on_inb (lift_devices dv) f port) (first_at port s) r found s
      = map_option (\<lambda>(r', e'). (r', found \<or> part_calls Byte_call sel port [0] (ports_of L s) \<noteq> [], put_env s e'))
          (run_in dv port (part_calls Byte_call sel port [0] (ports_of L s)) r (io_rest s))"
    "in_walk sel (\<lambda>f. on_inw (lift_devices dv) f port) (first_at port s) r' found s
      = map_option (\<lambda>(r', e'). (r', found \<or> part_calls Word_call sel port [0] (ports_of L s) \<noteq> [], put_env s e'))
          (run_in dv port (part_calls Word_call sel port [0] (ports_of L s)) r' (io_rest s))"
    "in_walk sel (\<lambda>f. on_inl (lift_devices dv) f port) (first_at port s) r'' found s
      = map_option (\<lambda>(r', e'). (r', found \<or> part_calls Long_call sel port [0] (ports_of L s) \<noteq> [], put_env s e'))
          (run_in dv port (part_calls Long_call sel port [0] (ports_of L s)) r'' (io_rest s))"
    "out_walk sel (\<lambda>f. on_outb (lift_devices dv) f port b) (first_at port s) found s
      = map_option (\<lambda>e'. (found \<or> part_calls Byte_call sel port [0] (ports_of L s) \<noteq> [], put_env s e'))
          (run_out dv port b (part_calls Byte_call sel port [0] (ports_of L s)) (io_rest s))"
    "out_walk sel (\<lambda>f. on_outw (lift_devices dv) f port w) (first_at port s) found s
      = map_option (\<lambda>e'. (found \<or> part_calls Word_call sel port [0] (ports_of L s) \<noteq> [], put_env s e'))
          (run_out dv port w (part_calls Word_call sel port [0] (ports_of L s)) (io_rest s))"
    "out_walk sel (\<lambda>f. on_outl (lift_devices dv) f port l) (first_at port s) found s
      = map_option (\<lambda>e'. (found \<or> part_calls Long_call sel port [0] (ports_of L s) \<noteq> [], put_env s e'))
          (run_out dv port l (part_calls Long_call sel port [0] (ports_of L s)) (io_rest s))"
  using call_out_runs [of _ dv port 0 b] call_out_runs [of _ dv port 0 w] call_out_runs [of _ dv port 0 l]
  by (simp_all add: walks [OF assms] call_in_full option.map_comp comp_def case_prod_unfold byte_at_def word16_def)

lemmas access_simps = Let_def lift_in_def lift_out_def in_done_def run_in_append run_out_append joined
  option.map_comp comp_def case_prod_unfold map_option_case

lemma all_ones: "(0xff :: u8) = - 1" "(0xffff :: u16) = - 1" "(0xffffffff :: u32) = - 1"
  by simp_all

lemma parts_run:
  assumes "io_chains L s"
  shows "in_bytes (lift_devices dv) sel [(port, byte_at 0 r), (port + 1, byte_at 1 r)] found (put_env s e)
     = map_option (\<lambda>(r', e'). ([byte_at 0 r', byte_at 1 r'], found \<or> part_calls Byte_call sel port [0, 1] (ports_of L s) \<noteq> [], put_env s e'))
         (run_in dv port (part_calls Byte_call sel port [0, 1] (ports_of L s)) r e)"
    "in_bytes (lift_devices dv) sel [(port, byte_at 0 l), (port + 1, byte_at 1 l), (port + 2, byte_at 2 l), (port + 3, byte_at 3 l)] found (put_env s e)
     = map_option (\<lambda>(r', e'). ([byte_at 0 r', byte_at 1 r', byte_at 2 r', byte_at 3 r'],
          found \<or> part_calls Byte_call sel port [0, 1, 2, 3] (ports_of L s) \<noteq> [], put_env s e'))
         (run_in dv port (part_calls Byte_call sel port [0, 1, 2, 3] (ports_of L s)) l e)"
    "in_words (lift_devices dv) sel [(port, word16 0 l), (port + 2, word16 2 l)] found (put_env s e)
     = map_option (\<lambda>(r', e'). ([word16 0 r', word16 2 r'], found \<or> part_calls Word_call sel port [0, 2] (ports_of L s) \<noteq> [], put_env s e'))
         (run_in dv port (part_calls Word_call sel port [0, 2] (ports_of L s)) l e)"
    "out_bytes (lift_devices dv) sel [(port, byte_at 0 w), (port + 1, byte_at 1 w)] found (put_env s e)
     = map_option (\<lambda>e'. (found \<or> part_calls Byte_call sel port [0, 1] (ports_of L s) \<noteq> [], put_env s e'))
         (run_out dv port w (part_calls Byte_call sel port [0, 1] (ports_of L s)) e)"
    "out_bytes (lift_devices dv) sel [(port, byte_at 0 v), (port + 1, byte_at 1 v), (port + 2, byte_at 2 v), (port + 3, byte_at 3 v)] found (put_env s e)
     = map_option (\<lambda>e'. (found \<or> part_calls Byte_call sel port [0, 1, 2, 3] (ports_of L s) \<noteq> [], put_env s e'))
         (run_out dv port v (part_calls Byte_call sel port [0, 1, 2, 3] (ports_of L s)) e)"
    "out_words (lift_devices dv) sel [(port, word16 0 v), (port + 2, word16 2 v)] found (put_env s e)
     = map_option (\<lambda>e'. (found \<or> part_calls Word_call sel port [0, 2] (ports_of L s) \<noteq> [], put_env s e'))
         (run_out dv port v (part_calls Word_call sel port [0, 2] (ports_of L s)) e)"
proof -
  have c: "io_chains L (put_env s e)" using assms by simp
  note i = in_bytes_runs [OF c, of "[0, 1]" dv sel port r found] in_bytes_runs [OF c, of "[0, 1, 2, 3]" dv sel port l found]
    in_words_runs [OF c, of "[0, 2]" dv sel port l found]
    out_runs(1) [OF c, of dv sel port w "[0, 1]" found] out_runs(1) [OF c, of dv sel port v "[0, 1, 2, 3]" found]
    out_runs(2) [OF c, of dv sel port v "[0, 2]" found]
  show "in_bytes (lift_devices dv) sel [(port, byte_at 0 r), (port + 1, byte_at 1 r)] found (put_env s e)
     = map_option (\<lambda>(r', e'). ([byte_at 0 r', byte_at 1 r'], found \<or> part_calls Byte_call sel port [0, 1] (ports_of L s) \<noteq> [], put_env s e'))
         (run_in dv port (part_calls Byte_call sel port [0, 1] (ports_of L s)) r e)"
    using i(1) by (simp del: part_calls_simps in_bytes.simps)
  show "in_bytes (lift_devices dv) sel [(port, byte_at 0 l), (port + 1, byte_at 1 l), (port + 2, byte_at 2 l), (port + 3, byte_at 3 l)] found (put_env s e)
     = map_option (\<lambda>(r', e'). ([byte_at 0 r', byte_at 1 r', byte_at 2 r', byte_at 3 r'],
          found \<or> part_calls Byte_call sel port [0, 1, 2, 3] (ports_of L s) \<noteq> [], put_env s e'))
         (run_in dv port (part_calls Byte_call sel port [0, 1, 2, 3] (ports_of L s)) l e)"
    using i(2) by (simp del: part_calls_simps in_bytes.simps)
  show "in_words (lift_devices dv) sel [(port, word16 0 l), (port + 2, word16 2 l)] found (put_env s e)
     = map_option (\<lambda>(r', e'). ([word16 0 r', word16 2 r'], found \<or> part_calls Word_call sel port [0, 2] (ports_of L s) \<noteq> [], put_env s e'))
         (run_in dv port (part_calls Word_call sel port [0, 2] (ports_of L s)) l e)"
    using i(3) by (simp del: part_calls_simps in_words.simps)
  show "out_bytes (lift_devices dv) sel [(port, byte_at 0 w), (port + 1, byte_at 1 w)] found (put_env s e)
     = map_option (\<lambda>e'. (found \<or> part_calls Byte_call sel port [0, 1] (ports_of L s) \<noteq> [], put_env s e'))
         (run_out dv port w (part_calls Byte_call sel port [0, 1] (ports_of L s)) e)"
    using i(4) by (simp del: part_calls_simps out_bytes.simps)
  show "out_bytes (lift_devices dv) sel [(port, byte_at 0 v), (port + 1, byte_at 1 v), (port + 2, byte_at 2 v), (port + 3, byte_at 3 v)] found (put_env s e)
     = map_option (\<lambda>e'. (found \<or> part_calls Byte_call sel port [0, 1, 2, 3] (ports_of L s) \<noteq> [], put_env s e'))
         (run_out dv port v (part_calls Byte_call sel port [0, 1, 2, 3] (ports_of L s)) e)"
    using i(5) by (simp del: part_calls_simps out_bytes.simps)
  show "out_words (lift_devices dv) sel [(port, word16 0 v), (port + 2, word16 2 v)] found (put_env s e)
     = map_option (\<lambda>e'. (found \<or> part_calls Word_call sel port [0, 2] (ports_of L s) \<noteq> [], put_env s e'))
         (run_out dv port v (part_calls Word_call sel port [0, 2] (ports_of L s)) e)"
    using i(6) by (simp del: part_calls_simps out_words.simps)
qed

lemmas access_defs = inb_def inw_def inl_def outb_def outw_def outl_def tab_in_def tab_out_def calls_inb_def calls_inw_def calls_inl_def
  calls_outb_def calls_outw_def calls_outl_def

lemma nth_parts: "[a, b] ! 1 = b" "[a, b, c, d] ! 1 = b" "[a, b, c, d] ! 2 = c" "[a, b, c, d] ! 3 = d"
  by simp_all

lemma reads_table:
  assumes "io_chains L s"
  shows "inb (lift_devices dv) port s = map_option (\<lambda>(v, t). (v, put_env s (tab_env t))) (tab_in (dev_pci_read dv) calls_inb dv port (io_tables L s))"
    "inw (lift_devices dv) port s = map_option (\<lambda>(v, t). (v, put_env s (tab_env t))) (tab_in (dev_pci_readw dv) calls_inw dv port (io_tables L s))"
    "inl (lift_devices dv) port s = map_option (\<lambda>(v, t). (v, put_env s (tab_env t))) (tab_in (dev_pci_readl dv) calls_inl dv port (io_tables L s))"
proof -
  have c: "io_chains L (put_env s e)" for e using assms by simp
  note w = whole_walk [OF c, unfolded put_env_simps hview_env] parts_run [OF assms]
  show "inb (lift_devices dv) port s = map_option (\<lambda>(v, t). (v, put_env s (tab_env t))) (tab_in (dev_pci_read dv) calls_inb dv port (io_tables L s))"
    by (simp add: access_defs w all_ones access_simps nth_parts disj_ac del: disj_not1 One_nat_def part_calls_simps split: option.split bind_splits)
  show "inw (lift_devices dv) port s = map_option (\<lambda>(v, t). (v, put_env s (tab_env t))) (tab_in (dev_pci_readw dv) calls_inw dv port (io_tables L s))"
    by (auto simp: access_defs w all_ones access_simps nth_parts disj_ac simp del: disj_not1 One_nat_def part_calls_simps in_bytes.simps split: option.split bind_splits)
  show "inl (lift_devices dv) port s = map_option (\<lambda>(v, t). (v, put_env s (tab_env t))) (tab_in (dev_pci_readl dv) calls_inl dv port (io_tables L s))"
    by (auto simp: access_defs w all_ones access_simps nth_parts disj_ac simp del: disj_not1 One_nat_def part_calls_simps in_bytes.simps in_words.simps split: option.split bind_splits)
qed

lemma out_done_table:
  "out_done (lift_devices dv) port (found, put_env s e) = map_option (put_env s) (tab_out_done dv port found e)"
  by (auto simp: out_done_def tab_out_done_def Let_def lift_out_def comp_def)

lemma writes_table:
  assumes "io_chains L s"
  shows "outb (lift_devices dv) port b s = map_option (\<lambda>t. put_env s (tab_env t)) (tab_out (dev_pci_write dv) calls_outb dv port b (io_tables L s))"
    "outw (lift_devices dv) port w s = map_option (\<lambda>t. put_env s (tab_env t)) (tab_out (dev_pci_writew dv) calls_outw dv port w (io_tables L s))"
    "outl (lift_devices dv) port l s = map_option (\<lambda>t. put_env s (tab_env t)) (tab_out (dev_pci_writel dv) calls_outl dv port l (io_tables L s))"
proof -
  have c: "io_chains L (put_env s e)" for e using assms by simp
  note w = whole_walk [OF c, unfolded put_env_simps hview_env] parts_run [OF assms]
  show "outb (lift_devices dv) port b s = map_option (\<lambda>t. put_env s (tab_env t)) (tab_out (dev_pci_write dv) calls_outb dv port b (io_tables L s))"
    by (auto simp: access_defs w all_ones access_simps nth_parts out_done_table disj_ac simp del: disj_not1 One_nat_def part_calls_simps split: option.split bind_splits)
  show "outw (lift_devices dv) port w s = map_option (\<lambda>t. put_env s (tab_env t)) (tab_out (dev_pci_writew dv) calls_outw dv port w (io_tables L s))"
    by (auto simp: access_defs w all_ones access_simps nth_parts out_done_table disj_ac simp del: disj_not1 One_nat_def part_calls_simps out_bytes.simps split: option.split bind_splits)
  show "outl (lift_devices dv) port l s = map_option (\<lambda>t. put_env s (tab_env t)) (tab_out (dev_pci_writel dv) calls_outl dv port l (io_tables L s))"
    by (auto simp: access_defs w all_ones access_simps nth_parts out_done_table disj_ac simp del: disj_not1 One_nat_def part_calls_simps out_bytes.simps out_words.simps split: option.split bind_splits)
qed

section \<open>Joining and leaving\<close>

interpretation io_links: linked_nodes io_next io_prev "\<lambda>q. io_next_update (\<lambda>_. q)" "\<lambda>p. io_prev_update (\<lambda>_. p)"
  by unfold_locales simp_all

lemma io_fns_links [simp]:
  "io_fns_of (io_next_update g n) = io_fns_of n" "io_fns_of (io_prev_update g n) = io_fns_of n"
  "io_fns_of (io_fns.extend h m) = h"
  "io_prev (io_fns.extend h \<lparr>io_prev = p, io_next = q\<rparr>) = p" "io_next (io_fns.extend h \<lparr>io_prev = p, io_next = q\<rparr>) = q"
  "io_prev_update g (io_fns.extend h \<lparr>io_prev = p, io_next = q\<rparr>) = io_fns.extend h \<lparr>io_prev = g p, io_next = q\<rparr>"
  by (simp_all add: io_fns.defs)

text \<open>An operation at one port that acts as \<open>g\<close> on the list there.\<close>

definition io_acts :: "(nat \<Rightarrow> ('f, 'd) io_sys \<Rightarrow> ('f, 'd) io_sys option) \<Rightarrow> ('f io_fns list \<Rightarrow> 'f io_fns list) \<Rightarrow> bool" where
  "io_acts f g \<longleftrightarrow> (\<forall>s t a. io_represents s t \<longrightarrow> a < NPORTS \<longrightarrow>
     (\<exists>s'. f a s = Some s' \<and> io_represents s' (t\<lparr>tab_ports := (tab_ports t)(a := g (tab_ports t a))\<rparr>)))"

lemma io_acts_intro:
  assumes "\<And>L s a. io_chains L s \<Longrightarrow> a < NPORTS \<Longrightarrow> \<exists>s' xs. f a s = Some s' \<and> io_chains (L(a := xs)) s' \<and> io_rest s' = io_rest s
     \<and> map (hview s') xs = g (map (hview s) (L a)) \<and> (\<forall>c. c \<noteq> a \<longrightarrow> map (hview s') (L c) = map (hview s) (L c))"
  shows "io_acts f g"
  unfolding io_acts_def
proof (intro allI impI)
  fix s :: "('a, 'b) io_sys" and t a
  assume "io_represents s t" and a: "a < NPORTS"
  then obtain L where L: "io_chains L s" "t = io_tables L s" by (auto simp: io_represents_def)
  obtain s' xs where s': "f a s = Some s'" "io_chains (L(a := xs)) s'" "io_rest s' = io_rest s"
      "map (hview s') xs = g (map (hview s) (L a))" "\<forall>c. c \<noteq> a \<longrightarrow> map (hview s') (L c) = map (hview s) (L c)"
    using assms [OF L(1) a] by blast
  have "ports_of (L(a := xs)) s' = (ports_of L s)(a := g (ports_of L s a))" using s'(4,5) by (auto simp: fun_eq_iff)
  then have "io_tables (L(a := xs)) s' = t\<lparr>tab_ports := (tab_ports t)(a := g (tab_ports t a))\<rparr>"
    using s'(3) by (simp add: L(2) io_tables_def)
  then show "\<exists>s'. f a s = Some s' \<and> io_represents s' (t\<lparr>tab_ports := (tab_ports t)(a := g (tab_ports t a))\<rparr>)"
    using s'(1,2) by (auto simp: io_represents_def)
qed

lemma io_chainsD: "io_chains L s \<Longrightarrow> chains io_next io_prev (handlers s) (new_handler s) (io_ports s) (io_last s) L"
  by (simp add: io_chains_def)

lemma io_chainsI: "chains io_next io_prev (handlers s') (new_handler s') (io_ports s') (io_last s') (L(a := xs)) \<Longrightarrow>
    io_chains L s \<Longrightarrow> a < NPORTS \<Longrightarrow> io_chains (L(a := xs)) s'"
  by (simp add: io_chains_def)

lemma io_add_acts: "io_acts (io_add h) (\<lambda>hs. hs @ [h])"
proof (rule io_acts_intro)
  fix L and s :: "('a, 'b) io_sys" and a assume c: "io_chains L s" and a: "a < NPORTS"
  note d = chainsD [OF io_chainsD [OF c]]
  let ?q = "new_handler s" and ?p = "io_last s a"
  let ?n = "\<lambda>p. io_fns.extend h \<lparr>io_prev = p, io_next = NULL\<rparr>"
  obtain s' where s': "io_add h a s = Some s'" "io_chains (L(a := L a @ [?q])) s'" "io_rest s' = io_rest s"
      "hview s' ?q = h" "\<forall>y. y \<noteq> ?q \<longrightarrow> hview s' y = hview s y"
  proof (cases "?p = NULL")
    case True
    let ?s = "s\<lparr>new_handler := Suc ?q, handlers := (handlers s)(?q \<mapsto> ?n NULL),
        io_ports := (io_ports s)(a := ?q), io_last := (io_last s)(a := ?q)\<rparr>"
    have "io_chains (L(a := L a @ [?q])) ?s"
      using io_links.append_first [OF io_chainsD [OF c] True, of "?n NULL"] by (intro io_chainsI [OF _ c a]) simp
    then show ?thesis
      by (intro that [of ?s]) (use True a in \<open>auto simp: io_add_def set_first_def set_lasth_def hview_def Let_def\<close>)
  next
    case False
    obtain m where m: "handlers s ?p = Some m" "?p \<noteq> ?q" "chains io_next io_prev ((handlers s)(?q \<mapsto> ?n ?p, ?p \<mapsto> m\<lparr>io_next := ?q\<rparr>))
        (Suc ?q) (io_ports s) ((io_last s)(a := ?q)) (L(a := L a @ [?q]))"
      using io_links.append_last [OF io_chainsD [OF c] refl False, of "?n ?p"] by auto
    let ?s = "s\<lparr>new_handler := Suc ?q, handlers := (handlers s)(?q \<mapsto> ?n ?p, ?p \<mapsto> m\<lparr>io_next := ?q\<rparr>), io_last := (io_last s)(a := ?q)\<rparr>"
    have "io_chains (L(a := L a @ [?q])) ?s" using m(3) by (intro io_chainsI [OF _ c a]) simp
    moreover have "io_add h a s = Some ?s"
      using False a m(1,2) by (simp add: io_add_def mod_handler_def set_lasth_def Let_def fun_upd_twist)
    ultimately show ?thesis by (intro that [of ?s]) (use m in \<open>auto simp: hview_def\<close>)
  qed
  have "x \<noteq> ?q" if "x \<in> set (L b)" for x b using d(3) [OF that] by simp
  then have "map (hview s') (L b) = map (hview s) (L b)" for b using s'(5) by (intro map_cong) auto
  then show "\<exists>s' xs. io_add h a s = Some s' \<and> io_chains (L(a := xs)) s' \<and> io_rest s' = io_rest s
     \<and> map (hview s') xs = map (hview s) (L a) @ [h] \<and> (\<forall>c. c \<noteq> a \<longrightarrow> map (hview s') (L c) = map (hview s) (L c))"
    using s' by (intro exI [of _ s'] exI [of _ "L a @ [?q]"]) simp
qed

lemma unlink_heap:
  assumes "handlers s x = Some n" and "io_prev n \<noteq> NULL \<Longrightarrow> handlers s (io_prev n) \<noteq> None" "io_next n \<noteq> NULL \<Longrightarrow> handlers s (io_next n) \<noteq> None"
    and "io_prev n \<noteq> x" "io_next n \<noteq> x" "io_next n = io_prev n \<Longrightarrow> io_next n = NULL"
  shows "io_unlink a x n s = Some (s\<lparr>handlers := taken_out io_next io_prev (\<lambda>q. io_next_update (\<lambda>_. q)) (\<lambda>p. io_prev_update (\<lambda>_. p)) x n (handlers s),
     io_ports := (if io_prev n = NULL then (io_ports s)(a := io_next n) else io_ports s),
     io_last := (if io_next n = NULL then (io_last s)(a := io_prev n) else io_last s)\<rparr>)"
proof -
  let ?p = "io_prev n" and ?q = "io_next n"
  let ?sn = "\<lambda>q. io_next_update (\<lambda>_. q)" and ?sp = "\<lambda>p. io_prev_update (\<lambda>_. p)"
  let ?U = "taken_out io_next io_prev ?sn ?sp x n (handlers s)"
  consider "?p = NULL" "?q = NULL" | "?p = NULL" "?q \<noteq> NULL" | "?p \<noteq> NULL" "?q = NULL" | "?p \<noteq> NULL" "?q \<noteq> NULL" "?p \<noteq> ?q"
    using assms(6) by metis
  then show ?thesis
  proof cases
    case 1
    then have "?U = (handlers s)(x := None)" by (auto simp: taken_out_def fun_eq_iff option.map_id0)
    then show ?thesis using 1 by (cases s) (simp add: io_unlink_def set_first_def set_lasth_def)
  next
    case 2
    then obtain m where m: "handlers s ?q = Some m" using assms(3) by blast
    with 2 assms(5) have "?U = (handlers s)(?q \<mapsto> ?sp ?p m, x := None)" by (auto simp: taken_out_def fun_eq_iff option.map_id0)
    then show ?thesis using 2 m by (cases s) (simp add: io_unlink_def set_first_def mod_handler_def)
  next
    case 3
    then obtain m where m: "handlers s ?p = Some m" using assms(2) by blast
    with 3 assms(4) have "?U = (handlers s)(?p \<mapsto> ?sn ?q m, x := None)" by (auto simp: taken_out_def fun_eq_iff option.map_id0)
    then show ?thesis using 3 m by (cases s) (simp add: io_unlink_def set_lasth_def mod_handler_def)
  next
    case 4
    then obtain m m' where m: "handlers s ?p = Some m" "handlers s ?q = Some m'" using assms(2,3) by blast
    with 4 assms(4,5) have "?U = (handlers s)(?p \<mapsto> ?sn ?q m, ?q \<mapsto> ?sp ?p m', x := None)"
      by (auto simp: taken_out_def fun_eq_iff option.map_id0)
    then show ?thesis using 4 m by (cases s) (simp add: io_unlink_def mod_handler_def)
  qed
qed

lemma remove_walk_skips:
  assumes "segment io_next io_prev (handlers s) p pr q l xs" and "h \<notin> set (map (hview s) xs)"
  shows "io_remove_walk h a p s = io_remove_walk h a q s"
  using assms
proof (induction xs arbitrary: p pr)
  case (Cons x xs)
  then obtain n where "handlers s x = Some n" "p = x" "x \<noteq> NULL" "segment io_next io_prev (handlers s) (io_next n) x q l xs" by auto
  with Cons show ?case by (subst io_remove_walk.simps) (auto simp: hview_def)
qed simp

lemma io_drop_acts: "io_acts (io_drop h) (remove1 h)"
proof (rule io_acts_intro)
  fix L and s :: "('a, 'b) io_sys" and a assume c: "io_chains L s" and a: "a < NPORTS"
  note d = chainsD [OF io_chainsD [OF c]]
  show "\<exists>s' xs. io_drop h a s = Some s' \<and> io_chains (L(a := xs)) s' \<and> io_rest s' = io_rest s
     \<and> map (hview s') xs = remove1 h (map (hview s) (L a)) \<and> (\<forall>c. c \<noteq> a \<longrightarrow> map (hview s') (L c) = map (hview s) (L c))"
  proof (cases "h \<in> set (map (hview s) (L a))")
    case False
    then have "io_drop h a s = io_remove_walk h a NULL s"
      using remove_walk_skips [OF d(1)] a by (simp add: io_drop_def)
    also have "\<dots> = Some s" by (subst io_remove_walk.simps) simp
    finally show ?thesis using c False by (intro exI [of _ s] exI [of _ "L a"]) (simp add: remove1_idem)
  next
    case True
    then obtain us vs where split: "map (hview s) (L a) = us @ h # vs" "h \<notin> set us" by (meson split_list_first)
    then obtain xs x ys where L: "L a = xs @ x # ys" "map (hview s) xs = us" "hview s x = h" "map (hview s) ys = vs"
      by (auto simp: map_eq_append_conv map_eq_Cons_conv)
    obtain l where xs: "segment io_next io_prev (handlers s) (io_ports s a) NULL x l xs"
      using d(1) [of a] by (auto simp: L(1) segment_append)
    obtain n where n: "handlers s x = Some n" "io_fns_of n = h" "x \<noteq> NULL"
      using d(4) [of x a] d(5) [of x a] L(1,3) by (auto simp: hview_def)
    note out = io_links.take_out [OF io_chainsD [OF c] L(1) n(1)]
    let ?s = "s\<lparr>handlers := taken_out io_next io_prev (\<lambda>q. io_next_update (\<lambda>_. q)) (\<lambda>p. io_prev_update (\<lambda>_. p)) x n (handlers s),
       io_ports := (if io_prev n = NULL then (io_ports s)(a := io_next n) else io_ports s),
       io_last := (if io_next n = NULL then (io_last s)(a := io_prev n) else io_last s)\<rparr>"
    have "io_drop h a s = io_remove_walk h a x s"
      using remove_walk_skips [OF xs] split(2) L(2) a by (simp add: io_drop_def)
    also have "\<dots> = io_unlink a x n s" using n by (subst io_remove_walk.simps) simp
    also have "\<dots> = Some ?s" using out by (intro unlink_heap [OF n(1)]) auto
    finally have drop: "io_drop h a s = Some ?s" .
    have c': "io_chains (L(a := xs @ ys)) ?s" using out(6) by (intro io_chainsI [OF _ c a]) simp
    have v: "hview ?s y = hview s y" if "y \<noteq> x" "handlers s y \<noteq> None" for y
      using that by (auto simp: hview_def taken_out_def)
    have "x \<notin> set (L b)" if "b \<noteq> a" for b using d(7) [OF that] L(1) by auto
    then have "map (hview ?s) (L b) = map (hview s) (L b)" if "b \<noteq> a" for b
      using that by (intro map_cong [OF refl] v d(4)) auto
    then have "\<forall>b. b \<noteq> a \<longrightarrow> map (hview ?s) (L b) = map (hview s) (L b)" by blast
    moreover have "map (hview ?s) (xs @ ys) = map (hview s) (xs @ ys)"
    proof (rule map_cong)
      fix y assume "y \<in> set (xs @ ys)"
      then have "y \<noteq> x" "y \<in> set (L a)" using d(2) [of a] L(1) by auto
      then show "hview ?s y = hview s y" using v d(4) by blast
    qed simp
    moreover have "map (hview s) (xs @ ys) = remove1 h (map (hview s) (L a))"
      using split L by (auto simp: remove1_append)
    ultimately have "map (hview ?s) (xs @ ys) = remove1 h (map (hview s) (L a))"
      "\<forall>b. b \<noteq> a \<longrightarrow> map (hview ?s) (L b) = map (hview s) (L b)" by (simp_all only: simp_thms)
    moreover have "io_rest ?s = io_rest s" by simp
    ultimately show ?thesis using drop c' by blast
  qed
qed

text \<open>The list of a port is freed from its end.\<close>

lemma free_back_segment:
  assumes "segment io_next io_prev (handlers s) p NULL q l xs" and "distinct xs"
  shows "free_back l s = Some (s\<lparr>handlers := (\<lambda>x. if x \<in> set xs then None else handlers s x)\<rparr>)"
  using assms
proof (induction xs arbitrary: q l s rule: rev_induct)
  case (snoc x xs)
  then obtain k n where k: "segment io_next io_prev (handlers s) p NULL x k xs" "handlers s x = Some n" "x \<noteq> NULL" "l = x" "io_prev n = k"
    by (auto simp: segment_append)
  let ?s = "s\<lparr>handlers := (handlers s)(x := None)\<rparr>"
  have seg: "segment io_next io_prev (handlers ?s) p NULL x k xs" using segment_frame [OF k(1)] snoc.prems(2) by simp
  have "free_back k ?s = Some (?s\<lparr>handlers := (\<lambda>y. if y \<in> set xs then None else handlers ?s y)\<rparr>)"
    by (rule snoc.IH [OF seg]) (use snoc.prems(2) in simp)
  moreover have "(\<lambda>y. if y \<in> set xs then None else handlers ?s y) = (\<lambda>y. if y \<in> set (xs @ [x]) then None else handlers s y)"
    by (auto simp: fun_eq_iff)
  ultimately show ?case using k(2-5) by (subst free_back.simps) simp
qed (simp add: free_back.simps)

lemma io_clear_acts: "io_acts io_clear (\<lambda>_. [])"
proof (rule io_acts_intro)
  fix L and s :: "('a, 'b) io_sys" and a assume c: "io_chains L s" and a: "a < NPORTS"
  note d = chainsD [OF io_chainsD [OF c]]
  let ?h = "\<lambda>x. if x \<in> set (L a) then None else handlers s x"
  let ?s = "s\<lparr>handlers := ?h, io_ports := (io_ports s)(a := NULL), io_last := (io_last s)(a := NULL)\<rparr>"
  have "io_clear a s = Some ?s"
  proof (cases "io_last s a = NULL")
    case True
    then have "L a = []" using segment_last [OF d(1) [of a]] d(5) [of "last (L a)" a] by (metis last_in_set)
    then show ?thesis using True by (cases s) (simp add: io_clear_def set_first_def set_lasth_def)
  next
    case False
    then show ?thesis using free_back_segment [OF d(1,2)] by (cases s) (simp add: io_clear_def set_first_def set_lasth_def)
  qed
  moreover have "io_chains (L(a := [])) ?s"
    by (rule io_chainsI [OF _ c a]) (rule chains_update [OF io_chainsD [OF c]], auto)
  moreover have "map (hview ?s) (L b) = map (hview s) (L b)" if "b \<noteq> a" for b
    using d(7) [OF that] by (intro map_cong) (auto simp: hview_def)
  ultimately show "\<exists>s' xs. io_clear a s = Some s' \<and> io_chains (L(a := xs)) s' \<and> io_rest s' = io_rest s
     \<and> map (hview s') xs = [] \<and> (\<forall>c. c \<noteq> a \<longrightarrow> map (hview s') (L c) = map (hview s) (L c))"
    by (intro exI [of _ ?s] exI [of _ "[]"]) simp
qed

lemma io_each_acts:
  assumes "io_acts f g" and "distinct as" and "\<forall>a \<in> set as. a < NPORTS" and "io_represents s t"
  shows "\<exists>s'. each f as s = Some s' \<and> io_represents s' (t\<lparr>tab_ports := (\<lambda>a. if a \<in> set as then g (tab_ports t a) else tab_ports t a)\<rparr>)"
  using assms(2-4)
proof (induction as arbitrary: s t)
  case (Cons a as)
  let ?t = "t\<lparr>tab_ports := (tab_ports t)(a := g (tab_ports t a))\<rparr>"
  obtain s1 where s1: "f a s = Some s1" "io_represents s1 ?t"
    using assms(1) [unfolded io_acts_def, rule_format, OF Cons.prems(3), of a] Cons.prems(2) by auto
  have "(\<lambda>b. if b \<in> set as then g (tab_ports ?t b) else tab_ports ?t b) = (\<lambda>b. if b \<in> set (a # as) then g (tab_ports t b) else tab_ports t b)"
    using Cons.prems(1) by (auto simp: fun_eq_iff)
  then show ?case using Cons.IH [OF _ _ s1(2)] Cons.prems s1(1) by simp
qed simp

lemma io_represents_top: "io_represents s t \<Longrightarrow> NPORTS \<le> a \<Longrightarrow> tab_ports t a = []"
  by (auto simp: io_represents_def io_chains_def io_tables_def)

lemma io_init_represents:
  assumes "io_represents s t"
  shows "\<exists>s'. io_init s = Some s' \<and> io_represents s' (t\<lparr>tab_ports := (\<lambda>_. [])\<rparr>)"
proof -
  let ?s = "if initialized s then s else s\<lparr>io_ports := (\<lambda>_. NULL), io_last := (\<lambda>_. NULL), initialized := True\<rparr>"
  obtain L where L: "io_chains L s" "t = io_tables L s" using assms by (auto simp: io_represents_def)
  have "\<exists>t'. io_represents ?s t' \<and> tab_env t' = tab_env t"
  proof (cases "initialized s")
    case True
    then show ?thesis using assms by auto
  next
    case False
    let ?s = "s\<lparr>io_ports := (\<lambda>_. NULL), io_last := (\<lambda>_. NULL), initialized := True\<rparr>"
    have "io_chains (\<lambda>_. []) ?s" using chainsD(6) [OF io_chainsD [OF L(1)]] by (auto simp: io_chains_def chains_def)
    then have "io_represents ?s (io_tables (\<lambda>_. []) ?s)" by (auto simp: io_represents_def)
    then show ?thesis using False L(2) by auto
  qed
  then obtain t' where t': "io_represents ?s t'" "tab_env t' = tab_env t" by blast
  obtain s' where s': "each io_clear [0..<NPORTS] ?s = Some s'"
      "io_represents s' (t'\<lparr>tab_ports := (\<lambda>a. if a \<in> set [0..<NPORTS] then [] else tab_ports t' a)\<rparr>)"
    using io_each_acts [OF io_clear_acts _ _ t'(1), of "[0..<NPORTS]"] by auto
  have "(\<lambda>a. if a \<in> set [0..<NPORTS] then [] else tab_ports t' a) = (\<lambda>_. [])"
    using io_represents_top [OF t'(1)] by (auto simp: fun_eq_iff)
  then have "t'\<lparr>tab_ports := (\<lambda>a. if a \<in> set [0..<NPORTS] then [] else tab_ports t' a)\<rparr> = t\<lparr>tab_ports := (\<lambda>_. [])\<rparr>"
    using t'(2) by simp
  then show ?thesis using s' by (simp add: io_init_def Let_def)
qed

section \<open>The refinement\<close>

datatype 'f io_op = Io_init | Handler bool u16 nat "'f io_fns" nat | Inb u16 | Inw u16 | Inl u16 | Outb u16 u8 | Outw u16 u16 | Outl u16 u32

datatype io_result = Io_done | Got8 u8 | Got16 u16 | Got32 u32

fun io_step :: "('f, 'd) io_callbacks \<Rightarrow> 'f io_op \<Rightarrow> ('f, 'd) io_sys \<Rightarrow> (io_result \<times> ('f, 'd) io_sys) option" where
  "io_step cb Io_init s = do {s \<leftarrow> io_init s; Some (Io_done, s)}"
| "io_step cb (Handler on base sz h step) s = do {s \<leftarrow> io_handler_common on base sz h step s; Some (Io_done, s)}"
| "io_step cb (Inb a) s = do {(v, s) \<leftarrow> inb cb a s; Some (Got8 v, s)}"
| "io_step cb (Inw a) s = do {(v, s) \<leftarrow> inw cb a s; Some (Got16 v, s)}"
| "io_step cb (Inl a) s = do {(v, s) \<leftarrow> inl cb a s; Some (Got32 v, s)}"
| "io_step cb (Outb a v) s = do {s \<leftarrow> outb cb a v s; Some (Io_done, s)}"
| "io_step cb (Outw a v) s = do {s \<leftarrow> outw cb a v s; Some (Io_done, s)}"
| "io_step cb (Outl a v) s = do {s \<leftarrow> outl cb a v s; Some (Io_done, s)}"

definition tab_handler :: "bool \<Rightarrow> nat list \<Rightarrow> 'f io_fns \<Rightarrow> ('f, 'd) io_table \<Rightarrow> ('f, 'd) io_table option" where
  "tab_handler on as h t = (if \<forall>a \<in> set as. a < NPORTS then
     Some (if on then t\<lparr>tab_ports := (\<lambda>a. if a \<in> set as then tab_ports t a @ [h] else tab_ports t a)\<rparr>
       else t\<lparr>tab_ports := (\<lambda>a. if a \<in> set as then remove1 h (tab_ports t a) else tab_ports t a)\<rparr>)
   else None)"

fun tab_step :: "('f, 'd) io_devices \<Rightarrow> 'f io_op \<Rightarrow> ('f, 'd) io_table \<Rightarrow> (io_result \<times> ('f, 'd) io_table) option" where
  "tab_step dv Io_init t = Some (Io_done, t\<lparr>tab_ports := (\<lambda>_. [])\<rparr>)"
| "tab_step dv (Handler on base sz h step) t = do {t \<leftarrow> tab_handler on (port_range base sz step) h t; Some (Io_done, t)}"
| "tab_step dv (Inb a) t = do {(v, t) \<leftarrow> tab_in (dev_pci_read dv) calls_inb dv a t; Some (Got8 v, t)}"
| "tab_step dv (Inw a) t = do {(v, t) \<leftarrow> tab_in (dev_pci_readw dv) calls_inw dv a t; Some (Got16 v, t)}"
| "tab_step dv (Inl a) t = do {(v, t) \<leftarrow> tab_in (dev_pci_readl dv) calls_inl dv a t; Some (Got32 v, t)}"
| "tab_step dv (Outb a v) t = do {t \<leftarrow> tab_out (dev_pci_write dv) calls_outb dv a v t; Some (Io_done, t)}"
| "tab_step dv (Outw a v) t = do {t \<leftarrow> tab_out (dev_pci_writew dv) calls_outw dv a v t; Some (Io_done, t)}"
| "tab_step dv (Outl a v) t = do {t \<leftarrow> tab_out (dev_pci_writel dv) calls_outl dv a v t; Some (Io_done, t)}"

lemma distinct_port_range: "distinct (port_range base sz step)"
  by (auto simp: port_range_def distinct_map inj_on_def)

lemma tab_access_ports:
  "tab_in pci calls dv port t = Some (v, t') \<Longrightarrow> t' = t\<lparr>tab_env := tab_env t'\<rparr>"
  "tab_out pci' calls' dv port w t = Some t'' \<Longrightarrow> t'' = t\<lparr>tab_env := tab_env t''\<rparr>"
  by (auto simp: tab_in_def tab_out_def bind_eq_Some_conv Let_def split: if_splits)

lemma io_step_simulates:
  assumes "io_represents s t" and "tab_step dv op t = Some (r, t')"
  shows "\<exists>s'. io_step (lift_devices dv) op s = Some (r, s') \<and> io_represents s' t'"
proof -
  obtain L where L: "io_chains L s" "t = io_tables L s" using assms(1) by (auto simp: io_represents_def)
  note access = reads_table [OF L(1), of dv, folded L(2)] writes_table [OF L(1), of dv, folded L(2)]
  have env: "io_represents (put_env s (tab_env t'')) t''" if "t'' = t\<lparr>tab_env := tab_env t''\<rparr>" for t''
    using io_represents_env [OF assms(1), of "tab_env t''"] that by metis
  show ?thesis
  proof (cases op)
    case Io_init
    then show ?thesis using io_init_represents [OF assms(1)] assms(2) by auto
  next
    case (Handler on base sz h step)
    then have p: "\<forall>a \<in> set (port_range base sz step). a < NPORTS" and r: "r = Io_done"
      and t': "tab_handler on (port_range base sz step) h t = Some t'"
      using assms(2) by (auto simp: bind_eq_Some_conv tab_handler_def split: if_splits)
    have "\<exists>s'. io_handler_common on base sz h step s = Some s' \<and> io_represents s' t'"
      using io_each_acts [OF io_add_acts distinct_port_range p assms(1), of h]
        io_each_acts [OF io_drop_acts distinct_port_range p assms(1), of h] t' p
      by (cases on) (auto simp: io_handler_common_def io_sethandler_common_def io_removehandler_common_def tab_handler_def)
    then show ?thesis using Handler r by auto
  qed (use assms(2) in \<open>auto simp: access bind_eq_Some_conv dest: tab_access_ports intro!: env\<close>)
qed

interpretation io: refinement io_represents "io_step (lift_devices dv)" "tab_step dv"
  by unfold_locales (rule io_step_simulates)

section \<open>Properties\<close>

definition no_ports :: "'d io_env \<Rightarrow> ('f, 'd) io_sys" where
  "no_ports e = \<lparr>handlers = (\<lambda>_. None), new_handler = 1, initialized = False, io_ports = (\<lambda>_. NULL), io_last = (\<lambda>_. NULL), io_rest = e\<rparr>"

lemma no_ports_represents: "io_represents (no_ports e) \<lparr>tab_ports = (\<lambda>_. []), tab_env = e\<rparr>"
  by (auto simp: io_represents_def io_chains_def chains_def no_ports_def io_tables_def intro!: exI [of _ "\<lambda>_. []"])

text \<open>
  Claim C11: The port dispatch of \<open>io.c\<close> refines lists of handlers per port. For every
  sequence of calls (\<open>io_init\<close>, handlers joining and leaving ranges with a step, reads and
  writes of 8, 16 and 32 bits) that is defined on the lists, for devices that leave the lists alone, the
  code on its doubly linked nodes returns the same results and ends in the same lists, never following a
  dangling or NULL pointer. On the lists an access at port \<open>p\<close> is a sequence of calls: at
  \<open>p\<close>, of the handlers with a function of the full width; then, for 32 bits, at
  \<open>p\<close> and \<open>p + 2\<close>, of those with a 16-bit and no 32-bit function; then, for 16
  and 32 bits, at each port covered, of those with a byte function and no wider one that fits the access.
  So a handler registered only at \<open>p + 1\<close> that has a 16-bit function is not called for 16
  bits at \<open>p\<close>, as in the code. Reads are anded into all ones at the bytes they cover, and the
  delay of a port nobody answers is charged.
\<close>

theorem io_ports_refine_lists:
  assumes "trace (tab_step dv) ops \<lparr>tab_ports = (\<lambda>_. []), tab_env = e\<rparr> = Some (rs, t)"
  shows "\<exists>s. trace (io_step (lift_devices dv)) ops (no_ports e) = Some (rs, s) \<and> io_represents s t"
  using no_ports_represents assms by (rule io.trace_simulates)

text \<open>Devices that count the calls and answer with a constant, and a bus of them.\<close>

definition constant_devices :: "(u32, nat) io_devices" where
  "constant_devices = \<lparr>dev_inb = (\<lambda>f a p e. Some (ucast f, e\<lparr>io_devs := Suc (io_devs e)\<rparr>)),
     dev_inw = (\<lambda>f a p e. Some (ucast f, e\<lparr>io_devs := Suc (io_devs e)\<rparr>)), dev_inl = (\<lambda>f a p e. Some (f, e\<lparr>io_devs := Suc (io_devs e)\<rparr>)),
     dev_outb = (\<lambda>f a v p e. Some e), dev_outw = (\<lambda>f a v p e. Some e), dev_outl = (\<lambda>f a v p e. Some e),
     dev_pci_read = (\<lambda>a e. None), dev_pci_readw = (\<lambda>a e. None), dev_pci_readl = (\<lambda>a e. None),
     dev_pci_write = (\<lambda>a v e. None), dev_pci_writew = (\<lambda>a v e. None), dev_pci_writel = (\<lambda>a v e. None),
     dev_update_tsc = (\<lambda>e. Some e)\<rparr>"

definition byte_device :: "u32 \<Rightarrow> u32 io_fns" where
  "byte_device v = \<lparr>fn_inb = Some v, fn_inw = None, fn_inl = None, fn_outb = None, fn_outw = None, fn_outl = None, fn_priv = 0\<rparr>"

definition word_device :: "u32 \<Rightarrow> u32 io_fns" where
  "word_device v = \<lparr>fn_inb = Some v, fn_inw = Some v, fn_inl = None, fn_outb = None, fn_outw = None, fn_outl = None, fn_priv = 0\<rparr>"

definition quiet_env :: "nat io_env" where
  "quiet_env = \<lparr>io_port = 0, io_val = 0, pci_flags = 0, pci_base = 0xc000, pci_size = 0x1000, amstrad_latch = 0,
     io_cycles = 100, io_delay = 5, cpu_use_dynarec = False, io_devs = 0\<rparr>"

lemma port_range_small: "port_range base 1 1 = [unat base]" "port_range base 2 1 = [unat base, unat base + 1]"
  by (simp_all add: port_range_def upt_rec)

lemma io_ports_refine_lists_witness:
  "\<exists>s. trace (io_step (lift_devices constant_devices)) [Handler True 0x300 2 (byte_device 0x5a) 1, Handler True 0x300 1 (word_device 0x1ff3) 1,
       Inb 0x300, Inw 0x300, Handler False 0x300 2 (byte_device 0x5a) 1, Inb 0x301] (no_ports quiet_env)
     = Some ([Io_done, Io_done, Got8 0x52, Got16 0x1a52, Io_done, Got8 0xff], s)"
proof -
  have "map_option fst (trace (tab_step constant_devices) [Handler True 0x300 2 (byte_device 0x5a) 1, Handler True 0x300 1 (word_device 0x1ff3) 1,
       Inb 0x300, Inw 0x300, Handler False 0x300 2 (byte_device 0x5a) 1, Inb 0x301] \<lparr>tab_ports = (\<lambda>_. []), tab_env = quiet_env\<rparr>)
     = Some [Io_done, Io_done, Got8 0x52, Got16 0x1a52, Io_done, Got8 0xff]"
    by (simp add: tab_handler_def port_range_small [unfolded One_nat_def] tab_in_def calls_inb_def calls_inw_def io_pci_window_def quiet_env_def
        constant_devices_def byte_device_def word_device_def byte_in2_def and_part_def mask_numeral Let_def io_miss_def io_amstrad_def)
  then obtain t where "trace (tab_step constant_devices) [Handler True 0x300 2 (byte_device 0x5a) 1, Handler True 0x300 1 (word_device 0x1ff3) 1,
       Inb 0x300, Inw 0x300, Handler False 0x300 2 (byte_device 0x5a) 1, Inb 0x301] \<lparr>tab_ports = (\<lambda>_. []), tab_env = quiet_env\<rparr>
     = Some ([Io_done, Io_done, Got8 0x52, Got16 0x1a52, Io_done, Got8 0xff], t)" by (auto simp only: map_option_eq_Some fst_conv)
  from io_ports_refine_lists [OF this] show ?thesis by (elim exE conjE) (rule exI)
qed
end
