(* ===== verification/Io_Pic.thy ===== *)
theory Io_Pic
  imports Io_Spec Pic
begin

text \<open>
  The interrupt controllers behind their I/O ports: the handlers that \<open>pic_init\<close> and \<open>pic2_init\<close>
  register (events of theory \<open>Pic\<close>), the port dispatch of theory \<open>Io\<close>, and what a driver does with IN and OUT.
\<close>

section \<open>The machine\<close>

datatype 'g pic_fn = Pic_read | Pic_write | Pic_other 'g

definition pic_ptr :: "pic_ref \<Rightarrow> ptr" where "pic_ptr d = (case d of PIC1 \<Rightarrow> 1 | PIC2 \<Rightarrow> 2)"

definition pic_at :: "ptr \<Rightarrow> pic_ref" where "pic_at p = (if p = 1 then PIC1 else PIC2)"

text \<open>The arguments of the calls of \<open>io_sethandler\<close> in \<open>pic.c\<close>.\<close>

definition pic_fns :: "pic_ref \<Rightarrow> 'g pic_fn io_fns" where
  "pic_fns d = \<lparr>fn_inb = Some Pic_read, fn_inw = None, fn_inl = None, fn_outb = Some Pic_write, fn_outw = None, fn_outl = None,
     fn_priv = pic_ptr d\<rparr>"

definition pic_devices :: "('g pic_fn, pics) io_devices \<Rightarrow> ('g pic_fn, pics) io_devices" where
  "pic_devices dv = dv\<lparr>
     dev_inb := (\<lambda>f a p e. if f = Pic_read then let (v, s) = pic_read a (pic_at p) (io_devs e) in Some (v, e\<lparr>io_devs := s\<rparr>)
       else dev_inb dv f a p e),
     dev_outb := (\<lambda>f a v p e. if f = Pic_write then Some (e\<lparr>io_devs := pic_write a v (pic_at p) (io_devs e)\<rparr>)
       else dev_outb dv f a v p e)\<rparr>"

definition pic_base :: "pic_ref \<Rightarrow> u16" where "pic_base d = (case d of PIC1 \<Rightarrow> 0x20 | PIC2 \<Rightarrow> 0xa0)"

text \<open>The handler is alone at its two ports, and PCI configuration does not take them.\<close>

definition pic_registered :: "pic_ref \<Rightarrow> ('g pic_fn, pics) io_table \<Rightarrow> bool" where
  "pic_registered d t \<longleftrightarrow> tab_ports t (unat (pic_base d)) = [pic_fns d] \<and> tab_ports t (unat (pic_base d + 1)) = [pic_fns d]
     \<and> pci_flags (tab_env t) AND 0x18 = 0"

lemma pic_at_ptr [simp]: "pic_at (pic_ptr d) = d"
  by (cases d) (simp_all add: pic_at_def pic_ptr_def)

lemma pic_devices_simps [simp]:
  "dev_inb (pic_devices dv) Pic_read a (pic_ptr d) e = (case pic_read a d (io_devs e) of (v, s) \<Rightarrow> Some (v, e\<lparr>io_devs := s\<rparr>))"
  "dev_outb (pic_devices dv) Pic_write a v (pic_ptr d) e = Some (e\<lparr>io_devs := pic_write a v d (io_devs e)\<rparr>)"
  by (simp_all add: pic_devices_def Let_def)

lemma no_pci_window: "pci_flags e AND 0x18 = 0 \<Longrightarrow> \<not> io_pci_window port e"
proof -
  assume 0: "pci_flags e AND 0x18 = 0"
  have "pci_flags e AND 0x8 = (pci_flags e AND 0x18) AND 0x8" "pci_flags e AND 0x10 = (pci_flags e AND 0x18) AND 0x10"
    by (simp_all add: and.assoc)
  then show ?thesis using 0 by (simp add: io_pci_window_def)
qed

section \<open>One access\<close>

lemma byte_0 [simp]: "byte_at 0 (v :: u8) = v" by (simp add: byte_at_def)

lemma pic_out_step:
  assumes "pic_registered d t" and "port = pic_base d \<or> port = pic_base d + 1"
  obtains e where "tab_step (pic_devices dv) (Outb port v) t = Some (Io_done, t\<lparr>tab_env := e\<rparr>)"
    "io_devs e = pic_write port v d (io_devs (tab_env t))" "pci_flags e = pci_flags (tab_env t)"
proof -
  have w: "\<not> io_pci_window port ((tab_env t)\<lparr>io_port := port, io_val := ucast v\<rparr>)"
    using assms(1) by (intro no_pci_window) (simp add: pic_registered_def)
  have T: "tab_ports t (unat port) = [pic_fns d]" using assms by (auto simp: pic_registered_def)
  let ?e = "(tab_env t)\<lparr>io_port := port, io_val := ucast v, io_devs := pic_write port v d (io_devs (tab_env t))\<rparr>"
  have "tab_step (pic_devices dv) (Outb port v) t = Some (Io_done, t\<lparr>tab_env := ?e\<rparr>)"
    using w T by (simp add: tab_out_def calls_outb_def pic_fns_def tab_out_done_def io_miss_def Let_def)
  then show ?thesis by (rule that) simp_all
qed

lemma pic_in_step:
  assumes "pic_registered d t" and "port = pic_base d \<or> port = pic_base d + 1" and "pic_read port d (io_devs (tab_env t)) = (v, s)"
  obtains e where "tab_step (pic_devices dv) (Inb port) t = Some (Got8 v, t\<lparr>tab_env := e\<rparr>)"
    "io_devs e = s" "pci_flags e = pci_flags (tab_env t)"
proof -
  have w: "\<not> io_pci_window port ((tab_env t)\<lparr>io_port := port\<rparr>)"
    using assms(1) by (intro no_pci_window) (simp add: pic_registered_def)
  have T: "tab_ports t (unat port) = [pic_fns d]" using assms by (auto simp: pic_registered_def)
  let ?e = "io_amstrad port ((tab_env t)\<lparr>io_port := port, io_devs := s\<rparr>)"
  have "and_part 8 0 v (- 1) = v" using full_and_part [of v "- 1 :: u8"] by simp
  then have "tab_step (pic_devices dv) (Inb port) t = Some (Got8 v, t\<lparr>tab_env := ?e\<rparr>)"
    using w T assms(3) by (simp add: tab_in_def calls_inb_def pic_fns_def io_miss_def Let_def)
  then show ?thesis by (rule that) (simp_all add: io_amstrad_def)
qed

text \<open>The controllers look at bit 0 of the port only.\<close>

lemma pic_write_port: "a AND 1 = b AND 1 \<Longrightarrow> pic_write a = pic_write b"
  by (simp add: pic_write_def fun_eq_iff)

lemma pic_base_bit: "pic_base d AND 1 = 0" "(pic_base d + 1) AND 1 = 1"
  by (cases d; simp add: pic_base_def)+

section \<open>A driver\<close>

text \<open>The words of \<open>write_all\<close>, which names ports of the first controller, sent to the ports of \<open>d\<close>.\<close>

definition pic_outs :: "pic_ref \<Rightarrow> (u16 \<times> u8) list \<Rightarrow> 'g pic_fn io_op list" where
  "pic_outs d ws = map (\<lambda>(a, v). Outb (pic_base d + (a AND 1)) v) ws"

lemma pic_registered_env: "pic_registered d t \<Longrightarrow> pci_flags e = pci_flags (tab_env t) \<Longrightarrow> pic_registered d (t\<lparr>tab_env := e\<rparr>)"
  by (simp add: pic_registered_def)

lemma pic_outs_trace:
  assumes "pic_registered d t"
  shows "\<exists>e. trace (tab_step (pic_devices dv)) (pic_outs d ws) t = Some (map (\<lambda>_. Io_done) ws, t\<lparr>tab_env := e\<rparr>)
     \<and> io_devs e = write_all d ws (io_devs (tab_env t)) \<and> pci_flags e = pci_flags (tab_env t)"
  using assms
proof (induction ws arbitrary: t)
  case Nil
  then show ?case by (intro exI [of _ "tab_env t"]) (simp add: pic_outs_def write_all_def)
next
  case (Cons w ws)
  obtain a v where w: "w = (a, v)" by (cases w)
  let ?p = "pic_base d + (a AND 1)"
  have one: "a AND 1 = 0 \<or> a AND 1 = 1" by (simp add: and_one_eq mod_2_eq_odd)
  then have p: "?p = pic_base d \<or> ?p = pic_base d + 1" by auto
  have bit: "?p AND 1 = a AND 1" using one pic_base_bit [of d] by auto
  obtain e where e: "tab_step (pic_devices dv) (Outb ?p v) t = Some (Io_done, t\<lparr>tab_env := e\<rparr>)"
      "io_devs e = pic_write ?p v d (io_devs (tab_env t))" "pci_flags e = pci_flags (tab_env t)"
    by (rule pic_out_step [OF Cons.prems p])
  obtain e' where e': "trace (tab_step (pic_devices dv)) (pic_outs d ws) (t\<lparr>tab_env := e\<rparr>) = Some (map (\<lambda>_. Io_done) ws, t\<lparr>tab_env := e'\<rparr>)"
      "io_devs e' = write_all d ws (io_devs e)" "pci_flags e' = pci_flags e"
    using Cons.IH [OF pic_registered_env [OF Cons.prems e(3)]] by auto
  have "trace (tab_step (pic_devices dv)) (pic_outs d (w # ws)) t = Some (map (\<lambda>_. Io_done) (w # ws), t\<lparr>tab_env := e'\<rparr>)"
    using e(1) e'(1) by (simp add: w pic_outs_def del: tab_step.simps)
  then show ?case using e e' pic_write_port [OF bit] by (auto simp: write_all_def w)
qed

lemma update_ocw3: "ocw3 (pic_of d (update_pending s)) = ocw3 (pic_of d s)" "shadow (update_pending s) = shadow s"
  using update_globals [of s] by (cases d; simp add: pic_update globals_eq_def)+

lemma icw_ocw3:
  assumes "v1 AND 0x10 \<noteq> 0" and "pic_pci s \<longrightarrow> v1 AND 0xe0 = 0"
  shows "ocw3 (pic_of d (write_all d (icw_words v1 v2 v3 v4) s)) = 0"
    "shadow (write_all d (icw_words v1 v2 v3 v4) s) = shadow s"
proof -
  note pic_write_first_word [OF assms]
  moreover have "shadow (mod_pic d f s) = shadow s" for f s by (cases d) (simp_all add: mod_pic_def)
  ultimately show "ocw3 (pic_of d (write_all d (icw_words v1 v2 v3 v4) s)) = 0"
    "shadow (write_all d (icw_words v1 v2 v3 v4) s) = shadow s"
    by (simp_all add: write_all_def icw_words_def pic_write_def Let_def update_pic_of update_ocw3 pic_write_icw1_def
        pic_cascade_mode_def after_icws_def)
qed

text \<open>
  The mask is written to the odd port and read back from it; with the shadow registers enabled the odd
  port gives the vector base instead.
\<close>

definition odd_port_read :: "bool \<Rightarrow> u8 \<Rightarrow> u8 \<Rightarrow> u8" where
  "odd_port_read sh base m = (if sh then drop_bit 3 (base AND 0xf8) else m)"

lemma pic_mask_roundtrip:
  assumes "state (pic_of d s) = STATE_NONE" and "ocw3 (pic_of d s) AND 4 = 0" and "a AND 1 = 1"
  shows "fst (pic_read a d (pic_write a m d s)) = odd_port_read (shadow s) (icw2 (pic_of d s)) m"
    "imr (pic_of d (snd (pic_read a d (pic_write a m d s)))) = m"
    "state (pic_of d (snd (pic_read a d (pic_write a m d s)))) = STATE_NONE"
    "icw2 (pic_of d (snd (pic_read a d (pic_write a m d s)))) = icw2 (pic_of d s)"
proof -
  have sh: "shadow (mod_pic d f s) = shadow s" for f s by (cases d) (simp_all add: mod_pic_def)
  have em: "pic_of d (emit es s) = pic_of d s" "shadow (emit es s) = shadow s" for es s by (cases d; simp add: pic_of_def emit_def)+
  show "fst (pic_read a d (pic_write a m d s)) = odd_port_read (shadow s) (icw2 (pic_of d s)) m"
    "imr (pic_of d (snd (pic_read a d (pic_write a m d s)))) = m"
    "state (pic_of d (snd (pic_read a d (pic_write a m d s)))) = STATE_NONE"
    "icw2 (pic_of d (snd (pic_read a d (pic_write a m d s)))) = icw2 (pic_of d s)"
    using assms by (simp_all add: pic_read_def pic_write_def Let_def sh em update_pic_of update_ocw3 odd_port_read_def shadow_byte_def)
qed

text \<open>
  Claim C12: A driver that programs an interrupt controller with OUT and IN, through the port
  dispatch of \<open>io.c\<close> with its heap of handlers, gets what \<open>pic.c\<close> promises. On a machine where the handler of
  \<open>pic_init\<close> or \<open>pic2_init\<close> serves its two ports alone (other ports and devices are arbitrary) and the PCI
  configuration ports are off (bits 3 and 4 of \<open>pci_flags\<close>), OUT of the initialisation words (an ICW1 with bit 4
  set, and bits 5 to 7 clear if the controllers are in PCI mode; then ICW2, ICW3 and ICW4 as ICW1 announces) and of
  a mask, then IN of the odd port, returns the mask, or with the shadow registers enabled the upper five
  bits of ICW2. It leaves the controller initialised with the vector base of ICW2, that mask, and the
  handlers where they were. It holds for either controller.
\<close>

theorem pic_driver_through_ports:
  assumes s: "io_represents s t" and reg: "pic_registered d t"
    and pics: "pic_pci (io_devs (tab_env t)) \<longrightarrow> v1 AND 0xe0 = 0" and v1: "v1 AND 0x10 \<noteq> 0"
  shows "\<exists>s' e. trace (io_step (lift_devices (pic_devices dv)))
      (pic_outs d (icw_words v1 v2 v3 v4) @ [Outb (pic_base d + 1) m, Inb (pic_base d + 1)]) s
      = Some (map (\<lambda>_. Io_done) (icw_words v1 v2 v3 v4) @ [Io_done, Got8 (odd_port_read (shadow (io_devs (tab_env t))) v2 m)], s')
    \<and> io_represents s' (t\<lparr>tab_env := e\<rparr>)
    \<and> (let p = pic_of d (io_devs e) in state p = STATE_NONE \<and> icw2 p = v2 \<and> imr p = m)"
proof -
  let ?p = "pic_base d + 1" and ?ws = "icw_words v1 v2 v3 v4"
  let ?r = "odd_port_read (shadow (io_devs (tab_env t))) v2 m"
  obtain e1 where 1: "trace (tab_step (pic_devices dv)) (pic_outs d ?ws) t = Some (map (\<lambda>_. Io_done) ?ws, t\<lparr>tab_env := e1\<rparr>)"
      "io_devs e1 = write_all d ?ws (io_devs (tab_env t))" "pci_flags e1 = pci_flags (tab_env t)"
    using pic_outs_trace [OF reg] by blast
  note reg1 = pic_registered_env [OF reg 1(3)]
  obtain e2 where 2: "tab_step (pic_devices dv) (Outb ?p m) (t\<lparr>tab_env := e1\<rparr>) = Some (Io_done, t\<lparr>tab_env := e2\<rparr>)"
      "io_devs e2 = pic_write ?p m d (io_devs e1)" "pci_flags e2 = pci_flags e1"
    using pic_out_step [OF reg1, of ?p dv m] by auto
  note reg2 = pic_registered_env [OF reg, of e2, unfolded 2(3) 1(3), OF refl]
  note icw = icw_sequence [OF v1 pics, of d v2 v3 v4] icw_ocw3 [OF v1 pics, of d v2 v3 v4]
  note mask = pic_mask_roundtrip [of d "io_devs e1" ?p m, unfolded 1(2), OF _ _ pic_base_bit(2)]
  have r: "pic_read ?p d (io_devs e2) = (?r, snd (pic_read ?p d (io_devs e2)))"
    using mask(1) icw by (simp add: 2(2) 1(2) prod_eq_iff)
  obtain e3 where 3: "tab_step (pic_devices dv) (Inb ?p) (t\<lparr>tab_env := e2\<rparr>) = Some (Got8 ?r, t\<lparr>tab_env := e3\<rparr>)"
      "io_devs e3 = snd (pic_read ?p d (io_devs e2))"
    using pic_in_step [OF reg2 disjI2 [OF refl], of ?r "snd (pic_read ?p d (io_devs e2))" dv] r
    by (auto simp del: tab_step.simps)
  have "trace (tab_step (pic_devices dv)) [Outb ?p m, Inb ?p] (t\<lparr>tab_env := e1\<rparr>) = Some ([Io_done, Got8 ?r], t\<lparr>tab_env := e3\<rparr>)"
    using 2(1) 3(1) by (simp del: tab_step.simps)
  then obtain s' where s': "trace (io_step (lift_devices (pic_devices dv))) (pic_outs d ?ws @ [Outb ?p m, Inb ?p]) s
      = Some (map (\<lambda>_. Io_done) ?ws @ [Io_done, Got8 ?r], s')" "io_represents s' (t\<lparr>tab_env := e3\<rparr>)"
    using io.trace_simulates [OF s trace_seq [OF 1(1)]] by blast
  moreover have "let p = pic_of d (io_devs e3) in state p = STATE_NONE \<and> icw2 p = v2 \<and> imr p = m"
    using mask(2-4) icw by (simp add: 3(2) 2(2) 1(2) Let_def)
  ultimately show ?thesis by blast
qed

text \<open>A machine with the master alone on its bus, as \<open>pic_init\<close> leaves it.\<close>

definition master_env :: "pics io_env" where
  "master_env = \<lparr>io_port = 0, io_val = 0, pci_flags = 0, pci_base = 0xc000, pci_size = 0x1000, amstrad_latch = 0,
     io_cycles = 100, io_delay = 5, cpu_use_dynarec = False, io_devs = pic_init True False power_on\<rparr>"

definition silent_devices :: "(unit pic_fn, pics) io_devices" where
  "silent_devices = \<lparr>dev_inb = (\<lambda>f a p e. None), dev_inw = (\<lambda>f a p e. None), dev_inl = (\<lambda>f a p e. None),
     dev_outb = (\<lambda>f a v p e. None), dev_outw = (\<lambda>f a v p e. None), dev_outl = (\<lambda>f a v p e. None),
     dev_pci_read = (\<lambda>a e. None), dev_pci_readw = (\<lambda>a e. None), dev_pci_readl = (\<lambda>a e. None),
     dev_pci_write = (\<lambda>a v e. None), dev_pci_writew = (\<lambda>a v e. None), dev_pci_writel = (\<lambda>a v e. None),
     dev_update_tsc = (\<lambda>e. None)\<rparr>"

lemma pic_driver_through_ports_witness:
  "\<exists>s s'. io_sethandler 0x20 2 (pic_fns PIC1) (no_ports master_env) = Some s \<and>
     trace (io_step (lift_devices (pic_devices silent_devices)))
       [Outb 0x20 0x11, Outb 0x21 0x08, Outb 0x21 0x04, Outb 0x21 0x01, Outb 0x21 0xfb, Inb 0x21] s
     = Some ([Io_done, Io_done, Io_done, Io_done, Io_done, Got8 0xfb], s')"
proof -
  let ?t = "\<lparr>tab_ports = (\<lambda>a. if a \<in> {0x20, 0x21} then [pic_fns PIC1] else []), tab_env = master_env\<rparr>"
  have "tab_step silent_devices (Handler True 0x20 2 (pic_fns PIC1) 1) \<lparr>tab_ports = (\<lambda>_. []), tab_env = master_env\<rparr> = Some (Io_done, ?t)"
    by (simp add: tab_handler_def port_range_small [unfolded One_nat_def] fun_eq_iff)
  then obtain s where s: "io_step (lift_devices silent_devices) (Handler True 0x20 2 (pic_fns PIC1) 1) (no_ports master_env) = Some (Io_done, s)" "io_represents s ?t"
    using io.simulates [OF no_ports_represents] by blast
  then have "io_sethandler 0x20 2 (pic_fns PIC1) (no_ports master_env) = Some s"
    by (auto simp: io_handler_common_def io_sethandler_def bind_eq_Some_conv)
  note set = this
  have "pic_registered PIC1 ?t"
    by (simp add: pic_registered_def pic_base_def master_env_def)
  moreover have "\<not> pic_pci (pic_init True False power_on)" "\<not> shadow (pic_init True False power_on)" by code_simp+
  ultimately obtain s' e where tr: "trace (io_step (lift_devices (pic_devices silent_devices)))
      (pic_outs PIC1 (icw_words 0x11 0x08 0x04 0x01) @ [Outb (pic_base PIC1 + 1) 0xfb, Inb (pic_base PIC1 + 1)]) s
      = Some (map (\<lambda>_. Io_done) (icw_words 0x11 0x08 0x04 0x01) @ [Io_done, Got8 0xfb], s')"
    using pic_driver_through_ports [OF s(2), where d = PIC1 and ?v1.0 = "0x11" and dv = silent_devices and ?v2.0 = "0x08"
      and ?v3.0 = "0x04" and ?v4.0 = "0x01" and m = "0xfb"]
    by (auto simp: master_env_def odd_port_read_def)
  have po: "pic_outs PIC1 (icw_words 0x11 0x08 0x04 0x01) @ [Outb (pic_base PIC1 + 1) 0xfb, Inb (pic_base PIC1 + 1)]
      = [Outb 0x20 0x11, Outb 0x21 0x08, Outb 0x21 0x04, Outb 0x21 0x01, Outb 0x21 0xfb, Inb 0x21]"
    by (simp add: pic_outs_def icw_words_def pic_base_def)
  have mp: "map (\<lambda>_. Io_done) (icw_words 0x11 0x08 0x04 0x01) = [Io_done, Io_done, Io_done, Io_done]" by (simp add: icw_words_def)
  show ?thesis using set tr unfolding po mp append_Cons append_Nil by blast
qed

end
