(* ===== verification/Spec2Isabelle.thy ===== *)
theory Spec2Isabelle
  imports Timer Pic Pit Dma_Transfers Fifo8 Mem_Ram X86_Programs I2c_Eeprom Io_Pic
begin

text \<open>
  A verification development for a PC emulator (86Box/PCBox, C sources under \<open>src/src\<close>).

  The program and what is modelled. A machine is a CPU interpreter that runs instructions until the
  next timer is due (\<open>exec386_2386\<close> in \<open>cpu/386.c\<close>), a queue of timers (\<open>timer.c\<close>) whose callbacks
  are the activity of the devices, and devices reached through I/O ports and memory handlers. The
  development models the core that every machine has:

  \<^item> \<open>Timer\<close>: \<open>timer.c\<close>, \<open>timer.h\<close>. The linked queue as a store of \<open>pc_timer\<close> records; enabling, disabling,
    processing, long periods split in pieces, rescaling after a change of the clock.
  \<^item> \<open>Pic\<close>: \<open>pic.c\<close>. Both 8259 controllers: command words, priorities, edge and level requests with
    their line counters, poll, acknowledge cycles. The pending interrupt is what the CPU reads.
  \<^item> \<open>Pit\<close>: \<open>pit.c\<close>, \<open>pit_irq0_timer\<close> of \<open>machine/machine.c\<close>. The three counters, which raise lines of
    \<open>Pic\<close> and reprogram timers of \<open>Timer\<close>; those calls are a trace in the model of the counters.
  \<^item> \<open>Dma\<close>, \<open>Dma_Transfers\<close>: \<open>dma.c\<close>. The 8237 controllers with their extensions. Memory and ports are a
    parameter, the record \<open>bus\<close>.
  \<^item> \<open>Fifo8\<close>: \<open>utils/fifo8.c\<close>, the ring buffer of the SCSI and network devices.
  \<^item> \<open>Mem\<close>, \<open>Mem_Tables\<close>, \<open>Mem_Ram\<close>: \<open>mem/mem.c\<close>. The list of mappings, the granule tables computed from
    it, access states, software lookups, RAM handlers, physical accesses, reset.
  \<^item> \<open>X86_Flags\<close>, \<open>X86_Cpu\<close>, \<open>X86_Arith\<close>, \<open>X86_Shift\<close>, \<open>X86_Integer\<close>, \<open>X86_Dispatch\<close>: the 286/386 interpreter:
    \<open>cpu/x86_flags.h\<close>; \<open>386_common.h\<close> and the decoding half of \<open>386.c\<close>; \<open>x86_ops_arith.h\<close> and
    \<open>x86_ops_inc_dec.h\<close>; \<open>x86_ops_shift.h\<close>; the other integer instructions; the fetch, the opcode tables and
    the loop. Each has its lemmas in a theory \<open>..._Spec\<close>; \<open>X86_Programs\<close> has the properties.
  \<^item> \<open>I2c\<close>, \<open>I2c_Gpio\<close>, \<open>I2c_Eeprom\<close>: \<open>device/i2c.c\<close>, \<open>device/i2c_gpio.c\<close>, \<open>mem/i2c_eeprom.c\<close>. The bus with
    its linked lists of handlers, the host controller that takes transfers from two lines, and the
    serial memories, e.g. those of monitors and memory modules. \<open>I2c_Spec\<close> has the lists that the bus refines.
  \<^item> \<open>Io\<close>, \<open>Io_Spec\<close>, \<open>Io_Pic\<close>: \<open>io.c\<close>. The handlers of the 65536 ports, accesses of three widths split
    among them, traps; the lists they refine; the interrupt controllers behind their ports.

  How state corresponds. A C struct or the globals of a file are one record, with the fields of the
  source; pointers are addresses in a store of records; a machine integer is a word of its width,
  so that arithmetic wraps as in C; \<open>fatal()\<close>, an assertion, an index out of range and the
  dereference of NULL are error values (\<open>Inl\<close>); a loop that may not end is a
  \<open>partial_function\<close> whose value is then \<open>None\<close>. Calls into parts that are not modelled are a trace
  (\<open>Pic\<close>, \<open>Pit\<close>) or a record of functions over a state of open type (\<open>bus\<close> in \<open>Dma\<close>, \<open>devices\<close> in
  \<open>Mem\<close>, \<open>cpu_bus\<close> in \<open>X86_Cpu\<close>, \<open>i2c_callbacks\<close> in \<open>I2c\<close>).

  What the lemmas show. \<open>safe_machine\<close> (\<open>Prelude\<close>) is the contract of a component whose operations
  keep an invariant; it is interpreted for the timer queue, for the mapping list and for the lookups,
  and gives that no sequence of legal operations goes wrong. \<open>refinement\<close> (theory \<open>Refinement\<close>) is the
  contract of an implementation that simulates a specification operation by operation; it is
  interpreted for the I2C bus and the I/O ports (heaps of nodes against lists) and for the I2C host
  controller (levels of two lines against transfers). The round trip of the EEPROM goes through the bus and
  its controller, and the programming of an interrupt controller through the ports. \<open>linked_nodes\<close> (theory
  \<open>Chains\<close>) is what both heaps ask of their nodes. \<open>bounded_fifo\<close> is the contract of a queue;
  \<open>fifo8_wf\<close> with \<open>contents\<close> refines it, its failures being assertions. Without aliases, and where later
  mappings that clash with earlier ones reach as far, the granule tables are exact: they name the last
  enabled mapping of the list that covers a page. Timers outside a split period fire exactly when due, in
  the order of the queue. The interrupt controllers deliver the vector that was frozen at the first
  acknowledge cycle, for lines of the master and of the slave. The counters
  have the periods of the data sheet, or the theorem says which they have. A transfer moves
  the bytes at the programmed address and stays in its 64K or 128K page. The x86 flags, kept by the
  code as an operation with its operands, are those of a reference over words of any length
  (\<open>add_flags\<close>, ...), whatever program runs: \<open>x86_lazy_flags_refine\<close> is a simulation of a
  processor that writes its flags after every instruction. The contracts \<open>operand_access\<close>, \<open>alu_size\<close>
  and \<open>shift_size\<close> state what a handler relies on at an operand size; they are interpreted
  for 8, 16 and 32 bits.

  Bounds and fuel. \<open>ack_read\<close> of \<open>Pic\<close> recurses to depth 3, enough for a master, a slave and the
  acknowledge itself. The scatter/gather loops of \<open>Dma\<close> get one step more than the length of the
  transfer, and every step but an empty block moves a byte. \<open>run n\<close> of \<open>X86_Dispatch\<close> executes at most \<open>n\<close>
  instructions; properties hold for every \<open>n\<close>. Everything else is total.

  Not modelled. Of the CPU: moves, the stack, strings, segment loads, ports, the coprocessor,
  prefixes, cycle counts, the prefetch queue, debug registers, the delivery of faults and
  interrupts; the 8088, 486 and later interpreters and the recompilers, which are thousands of
  instruction variants of the same shape. Of memory: the accesses of the later processors
  (\<open>readmembl\<close>, ...), MTRRs. Chipsets, disks, video, sound, networking and input are large
  register machines of their own over the operations modelled here; the host interface, the
  configuration and the vendored libraries (SoftFloat, synthesiser cores) are not core logic.
  A \<open>double\<close> is a real number where the source uses one.
\<close>

end
